(* ===== verification/Opca_Prelude.thy ===== *)
theory Opca_Prelude
  imports Main "HOL-Library.Word"
begin

text \<open>
  Prelude of the opCA development: the lemma collections, the error type and the result type of
  the code, the machine integers the source uses, SQL tables as lists of rows with the handful of
  statements the code issues, and the two generic interfaces several components share: a text
  codec (every enum the code keeps as text) and a store of rows addressed by a key.
\<close>

named_theorems rust_simps \<open>unfolding rules for Rust standard-library operations\<close>
named_theorems tbl_simps \<open>rules for SQL statements on tables\<close>
named_theorems res_elims \<open>inversion rules for results\<close>

section \<open>Errors and results\<close>

text \<open>
  Why a call to a broker got no usable answer (\<^verbatim>\<open>services/acme_broker/mod.rs\<close>), with the kinds of refusal a
  broker itself makes (\<^verbatim>\<open>crates/opca-acme-api/src/lib.rs\<close>).
\<close>

datatype error_kind = Bad_Request | Wrong_Code nat | Code_Spent | Revoked_Kind | Not_Found_Kind | Internal_Kind

datatype broker_error =
    Broker_Unreachable string
  | Broker_Wrong_Key string
  | Broker_Refused error_kind string
  | Broker_Status nat
  | Broker_Malformed string

text \<open>
  The error enum of \<^verbatim>\<open>crates/opca-core/src/error.rs\<close>, constructor for constructor.
\<close>

datatype opca_error =
    CaAlreadyExists
  | CaNotFound
  | CertificateNotFound string
  | DuplicateCertificate string
  | InvalidCertificate string
  | CertificateRevoked string
  | CertificateExpired string
  | CsrNotFound string
  | Database string
  | SchemaMigration string
  | DatabaseUnreadable string
  | VaultNotFound string
  | VaultAlreadyExists string
  | AuthenticationFailed
  | NoAccountsConfigured string
  | PermissionDenied string
  | ItemConflict string
  | ItemNotFound string
  | AmbiguousItem string "string list"
  | VaultLocked string string string string string
  | CliError string
  | CliNotFound
  | Storage string
  | CrlBatchUpload string
  | BackupFormat string
  | BackupDecryption
  | Route53 string
  | Dns string
  | Crypto string
  | BrokerErr broker_error
  | IoErr string
  | OtherErr string

text \<open>
  \<^verbatim>\<open>Result<T, OpcaError>\<close>, with a third outcome for the panics of the language (a string sliced
  off a character boundary, an index out of range).
\<close>

datatype 'a res = Ok 'a | Err opca_error | Panic string

fun rbind :: "'a res \<Rightarrow> ('a \<Rightarrow> 'b res) \<Rightarrow> 'b res" where
  "rbind (Ok x) f = f x"
| "rbind (Err e) f = Err e"
| "rbind (Panic m) f = Panic m"

fun rmap :: "('a \<Rightarrow> 'b) \<Rightarrow> 'a res \<Rightarrow> 'b res" where
  "rmap f (Ok x) = Ok (f x)"
| "rmap f (Err e) = Err e"
| "rmap f (Panic m) = Panic m"

text \<open>\<^verbatim>\<open>iter().map(f).collect::<Result<Vec<_>, _>>()\<close>: the first error wins.\<close>

fun rmap_all :: "('a \<Rightarrow> 'b res) \<Rightarrow> 'a list \<Rightarrow> 'b list res" where
  "rmap_all f [] = Ok []"
| "rmap_all f (x # xs) = rbind (f x) (\<lambda>y. rbind (rmap_all f xs) (\<lambda>ys. Ok (y # ys)))"

definition ok_or :: "opca_error \<Rightarrow> 'a option \<Rightarrow> 'a res" where
  "ok_or e x = (case x of Some v \<Rightarrow> Ok v | None \<Rightarrow> Err e)"

text \<open>\<^verbatim>\<open>.ok()\<close> of a result.\<close>

fun res_ok :: "'a res \<Rightarrow> 'a option" where
  "res_ok (Ok x) = Some x"
| "res_ok (Err e) = None"
| "res_ok (Panic m) = None"

lemma res_ok_eq_Some [simp]: "res_ok r = Some x \<longleftrightarrow> r = Ok x"
  by (cases r) auto

lemma ok_or_simps [simp]: "ok_or e (Some v) = Ok v" "ok_or e None = Err e"
  by (simp_all add: ok_or_def)

lemma ok_or_eq_Ok [simp]: "ok_or e x = Ok v \<longleftrightarrow> x = Some v"
  by (cases x) simp_all

lemma rbind_eq_Ok [simp]: "rbind m f = Ok y \<longleftrightarrow> (\<exists>x. m = Ok x \<and> f x = Ok y)"
  by (cases m) simp_all

lemma rmap_eq_Ok [simp]: "rmap f m = Ok y \<longleftrightarrow> (\<exists>x. m = Ok x \<and> y = f x)"
  by (cases m) auto

lemma rbind_cong [fundef_cong]:
  "m = m' \<Longrightarrow> (\<And>x. m' = Ok x \<Longrightarrow> f x = g x) \<Longrightarrow> rbind m f = rbind m' g"
  by (cases m') simp_all

lemma rmap_all_eq_Ok:
  "rmap_all f xs = Ok ys \<longleftrightarrow> list_all2 (\<lambda>x y. f x = Ok y) xs ys"
proof (induction xs arbitrary: ys)
  case Nil
  show ?case by auto
next
  case (Cons x xs)
  show ?case by (cases ys) (auto simp: Cons.IH)
qed

lemma rmap_all_length: "rmap_all f xs = Ok ys \<Longrightarrow> length ys = length xs"
  by (auto simp: rmap_all_eq_Ok dest: list_all2_lengthD)

section \<open>Machine integers\<close>

text \<open>
  \<^verbatim>\<open>i64\<close> and \<^verbatim>\<open>u32\<close> values are kept as \<open>int\<close>; where the source's arithmetic can leave the range the
  wrap-around of the release profile (the repository sets no \<^verbatim>\<open>overflow-checks\<close>) is written out.
\<close>

definition i64_min :: int where "i64_min = - (2 ^ 63)"
definition i64_max :: int where "i64_max = 2 ^ 63 - 1"

definition in_i64 :: "int \<Rightarrow> bool" where
  "in_i64 n \<longleftrightarrow> i64_min \<le> n \<and> n \<le> i64_max"

definition wrap_i64 :: "int \<Rightarrow> int" where
  "wrap_i64 n = (n + 2 ^ 63) mod 2 ^ 64 - 2 ^ 63"

text \<open>\<^verbatim>\<open>n as u32\<close> for an \<^verbatim>\<open>i64\<close>.\<close>

definition as_u32 :: "int \<Rightarrow> int" where
  "as_u32 n = n mod 2 ^ 32"

lemmas i64_defs = i64_min_def i64_max_def in_i64_def

lemma wrap_i64_range: "in_i64 (wrap_i64 n)"
  using pos_mod_bound [of "2 ^ 64 :: int" "n + 2 ^ 63"] pos_mod_sign [of "2 ^ 64 :: int" "n + 2 ^ 63"]
  unfolding i64_defs wrap_i64_def by simp

lemma wrap_i64_id: "in_i64 n \<Longrightarrow> wrap_i64 n = n"
  unfolding i64_defs wrap_i64_def by simp

lemma as_u32_id: "0 \<le> n \<Longrightarrow> n < 2 ^ 32 \<Longrightarrow> as_u32 n = n"
  unfolding as_u32_def by simp

lemma as_u32_range: "0 \<le> as_u32 n \<and> as_u32 n < 2 ^ 32"
  unfolding as_u32_def by simp

lemma mult_le_iff_div: "0 < p \<Longrightarrow> i * p \<le> x \<longleftrightarrow> i \<le> x div p" for p :: int
proof
  assume "0 < p" "i * p \<le> x"
  then show "i \<le> x div p" using zdiv_mono1 [of "i * p" x p] by simp
next
  assume p: "0 < p" and "i \<le> x div p"
  then have "i * p \<le> (x div p) * p" by (intro mult_right_mono) auto
  also have "\<dots> \<le> x" using p pos_mod_sign [of p x] div_mult_mod_eq [of x p] by linarith
  finally show "i * p \<le> x" .
qed

section \<open>SQL tables\<close>

text \<open>
  A table is the list of its rows in rowid order, which is insertion order: every insert of the
  code takes a fresh, larger rowid. The statements used are a scan (\<open>filter\<close>), the first row of a
  scan (\<open>find\<close>), an insert that a primary key may refuse, an update of the matching rows, a
  delete, \<^verbatim>\<open>INSERT OR REPLACE\<close>, and an upsert (\<^verbatim>\<open>ON CONFLICT DO UPDATE\<close>).
\<close>

definition tbl_insert :: "('r \<Rightarrow> 'k) \<Rightarrow> 'r \<Rightarrow> 'r list \<Rightarrow> 'r list option" where
  "tbl_insert key r rows = (if key r \<in> key ` set rows then None else Some (rows @ [r]))"

definition tbl_update :: "('r \<Rightarrow> bool) \<Rightarrow> ('r \<Rightarrow> 'r) \<Rightarrow> 'r list \<Rightarrow> 'r list" where
  "tbl_update P f rows = map (\<lambda>r. if P r then f r else r) rows"

definition tbl_count :: "('r \<Rightarrow> bool) \<Rightarrow> 'r list \<Rightarrow> nat" where
  "tbl_count P rows = length (filter P rows)"

definition tbl_delete :: "('r \<Rightarrow> bool) \<Rightarrow> 'r list \<Rightarrow> 'r list" where
  "tbl_delete P rows = filter (\<lambda>r. \<not> P r) rows"

definition tbl_replace :: "('r \<Rightarrow> 'k) \<Rightarrow> 'r \<Rightarrow> 'r list \<Rightarrow> 'r list" where
  "tbl_replace key r rows = tbl_delete (\<lambda>q. key q = key r) rows @ [r]"

definition tbl_upsert :: "('r \<Rightarrow> 'k) \<Rightarrow> ('r \<Rightarrow> 'r \<Rightarrow> 'r) \<Rightarrow> 'r \<Rightarrow> 'r list \<Rightarrow> 'r list" where
  "tbl_upsert key merge r rows =
     (if key r \<in> key ` set rows
      then tbl_update (\<lambda>q. key q = key r) (merge r) rows else rows @ [r])"

definition tbl_lookup :: "('r \<Rightarrow> 'k) \<Rightarrow> 'r list \<Rightarrow> 'k \<Rightarrow> 'r option" where
  "tbl_lookup key rows k = List.find (\<lambda>r. key r = k) rows"

definition tbl_keyed :: "('r \<Rightarrow> 'k) \<Rightarrow> 'r list \<Rightarrow> bool" where
  "tbl_keyed key rows \<longleftrightarrow> distinct (map key rows)"

lemma find_append:
  "List.find P (xs @ ys) = (case List.find P xs of None \<Rightarrow> List.find P ys | Some x \<Rightarrow> Some x)"
  by (induction xs) auto

lemma find_update_other:
  "(\<And>r. P r \<Longrightarrow> Q (f r) = Q r) \<Longrightarrow>
   List.find Q (tbl_update P f rows) = map_option (\<lambda>r. if P r then f r else r) (List.find Q rows)"
  by (induction rows) (auto simp: tbl_update_def)

lemma tbl_update_keys:
  "(\<And>r. P r \<Longrightarrow> key (f r) = key r) \<Longrightarrow> map key (tbl_update P f rows) = map key rows"
  by (induction rows) (auto simp: tbl_update_def)

lemma tbl_lookup_append [tbl_simps]:
  "tbl_lookup key (rows @ [r]) k =
     (case tbl_lookup key rows k of None \<Rightarrow> if key r = k then Some r else None | Some q \<Rightarrow> Some q)"
  by (auto simp: tbl_lookup_def find_append split: option.split)

lemma tbl_lookup_update [tbl_simps]:
  "(\<And>r. P r \<Longrightarrow> key (f r) = key r) \<Longrightarrow>
   tbl_lookup key (tbl_update P f rows) k =
     map_option (\<lambda>r. if P r then f r else r) (tbl_lookup key rows k)"
  unfolding tbl_lookup_def by (rule find_update_other) simp

lemma tbl_lookup_None [tbl_simps]: "tbl_lookup key rows k = None \<longleftrightarrow> k \<notin> key ` set rows"
  by (auto simp: tbl_lookup_def find_None_iff image_iff)

lemma tbl_lookup_in: "tbl_lookup key rows k = Some r \<Longrightarrow> r \<in> set rows \<and> key r = k"
  by (auto simp: tbl_lookup_def find_Some_iff)

lemma tbl_lookup_eq:
  "tbl_keyed key rows \<Longrightarrow> tbl_lookup key rows k = Some r \<longleftrightarrow> r \<in> set rows \<and> key r = k"
proof (induction rows)
  case Nil
  show ?case by (simp add: tbl_lookup_def)
next
  case (Cons q rows)
  then show ?case
    by (auto simp: tbl_lookup_def tbl_keyed_def image_iff)
qed

lemma tbl_lookup_self: "tbl_keyed key rows \<Longrightarrow> r \<in> set rows \<Longrightarrow> tbl_lookup key rows (key r) = Some r"
  by (simp add: tbl_lookup_eq)

lemma tbl_keyed_insert:
  "tbl_keyed key rows \<Longrightarrow> tbl_insert key r rows = Some rows' \<Longrightarrow> tbl_keyed key rows'"
  by (auto simp: tbl_insert_def tbl_keyed_def split: if_splits)

lemma tbl_keyed_update:
  "tbl_keyed key rows \<Longrightarrow> (\<And>r. P r \<Longrightarrow> key (f r) = key r) \<Longrightarrow> tbl_keyed key (tbl_update P f rows)"
  by (simp add: tbl_keyed_def tbl_update_keys)

lemma tbl_keyed_delete: "tbl_keyed key rows \<Longrightarrow> tbl_keyed key (tbl_delete P rows)"
  by (induction rows) (auto simp: tbl_keyed_def tbl_delete_def)

lemma tbl_lookup_delete [tbl_simps]:
  assumes "tbl_keyed key rows"
  shows "tbl_lookup key (tbl_delete P rows) k =
     (case tbl_lookup key rows k of None \<Rightarrow> None | Some r \<Rightarrow> if P r then None else Some r)"
proof (cases "tbl_lookup key (tbl_delete P rows) k")
  case None
  then show ?thesis
    by (auto simp: tbl_lookup_None tbl_delete_def dest: tbl_lookup_in split: option.split)
next
  case (Some r)
  then have "r \<in> set rows" "\<not> P r" "key r = k"
    by (auto simp: tbl_delete_def dest: tbl_lookup_in)
  then have "tbl_lookup key rows k = Some r"
    using assms by (simp add: tbl_lookup_eq)
  with Some \<open>\<not> P r\<close> show ?thesis by simp
qed

lemma tbl_keyed_replace: "tbl_keyed key rows \<Longrightarrow> tbl_keyed key (tbl_replace key r rows)"
  using tbl_keyed_delete [of key rows "\<lambda>q. key q = key r"]
  by (auto simp: tbl_keyed_def tbl_replace_def tbl_delete_def)

lemma tbl_keyed_upsert:
  assumes "tbl_keyed key rows" and keeps: "\<And>q. key q = key r \<Longrightarrow> key (merge r q) = key q"
  shows "tbl_keyed key (tbl_upsert key merge r rows)"
proof (cases "key r \<in> key ` set rows")
  case True
  show ?thesis
    unfolding tbl_upsert_def if_P [OF True] using assms(1) keeps by (rule tbl_keyed_update)
next
  case False
  with assms(1) show ?thesis by (simp add: tbl_upsert_def tbl_keyed_def)
qed

lemma tbl_lookup_replace [tbl_simps]:
  "tbl_keyed key rows \<Longrightarrow>
   tbl_lookup key (tbl_replace key r rows) k = (if k = key r then Some r else tbl_lookup key rows k)"
  by (auto simp: tbl_replace_def tbl_lookup_append tbl_lookup_delete dest: tbl_lookup_in
           split: option.splits)

lemma tbl_lookup_upsert [tbl_simps]:
  "(\<And>q. key q = key r \<Longrightarrow> key (merge r q) = key q) \<Longrightarrow>
   tbl_lookup key (tbl_upsert key merge r rows) k =
     (if k = key r
      then Some (case tbl_lookup key rows k of Some q \<Rightarrow> merge r q | None \<Rightarrow> r)
      else tbl_lookup key rows k)"
proof (cases "key r \<in> key ` set rows")
  case True
  assume keeps: "\<And>q. key q = key r \<Longrightarrow> key (merge r q) = key q"
  have found: "tbl_lookup key rows (key r) \<noteq> None"
    using True by (simp add: tbl_lookup_None)
  have "tbl_lookup key (tbl_upsert key merge r rows) k =
          map_option (\<lambda>q. if key q = key r then merge r q else q) (tbl_lookup key rows k)"
    unfolding tbl_upsert_def if_P [OF True] by (rule tbl_lookup_update) (rule keeps)
  then show ?thesis
    using found by (cases "tbl_lookup key rows k") (auto dest: tbl_lookup_in)
next
  case False
  then have "tbl_lookup key rows (key r) = None" by (simp add: tbl_lookup_None)
  with False show ?thesis
    by (auto simp: tbl_upsert_def tbl_lookup_append split: option.split)
qed

lemma tbl_count_key:
  "tbl_keyed key rows \<Longrightarrow>
   tbl_count (\<lambda>r. key r = k) rows = (if k \<in> key ` set rows then 1 else 0)"
proof (induction rows)
  case Nil
  show ?case by (simp add: tbl_count_def)
next
  case (Cons q rows)
  then show ?case by (auto simp: tbl_count_def tbl_keyed_def)
qed

lemma tbl_lookup_insert:
  assumes "tbl_insert key r rows = Some rows'"
  shows "tbl_lookup key rows (key r) = None" "tbl_lookup key rows' = (tbl_lookup key rows)(key r \<mapsto> r)"
proof -
  have ins: "rows' = rows @ [r]" and "key r \<notin> key ` set rows"
    using assms by (auto simp: tbl_insert_def split: if_splits)
  then show none: "tbl_lookup key rows (key r) = None" by (simp add: tbl_lookup_None)
  show "tbl_lookup key rows' = (tbl_lookup key rows)(key r \<mapsto> r)"
  proof
    fix k
    show "tbl_lookup key rows' k = ((tbl_lookup key rows)(key r \<mapsto> r)) k"
      using none by (cases "tbl_lookup key rows k") (auto simp: ins tbl_lookup_append)
  qed
qed

lemma tbl_count_lookup: "tbl_count (\<lambda>q. key q = k) rows = 0 \<longleftrightarrow> tbl_lookup key rows k = None"
  by (auto simp: tbl_lookup_def tbl_count_def filter_empty_conv find_None_iff)

lemma tbl_lookup_overwrite:
  assumes "tbl_lookup key rows (key r) \<noteq> None"
  shows "tbl_lookup key (tbl_update (\<lambda>q. key q = key r) (\<lambda>q. r) rows) = (tbl_lookup key rows)(key r \<mapsto> r)"
proof
  fix k
  have "tbl_lookup key (tbl_update (\<lambda>q. key q = key r) (\<lambda>q. r) rows) k =
      map_option (\<lambda>q. if key q = key r then r else q) (tbl_lookup key rows k)"
    by (rule tbl_lookup_update) simp
  then show "tbl_lookup key (tbl_update (\<lambda>q. key q = key r) (\<lambda>q. r) rows) k
      = ((tbl_lookup key rows)(key r \<mapsto> r)) k"
    using assms by (cases "tbl_lookup key rows k") (auto dest: tbl_lookup_in)
qed

lemma tbl_count_zero [tbl_simps]: "tbl_count P rows = 0 \<longleftrightarrow> (\<forall>r \<in> set rows. \<not> P r)"
  by (simp add: tbl_count_def filter_empty_conv)

section \<open>Interfaces shared by several components\<close>

text \<open>
  A text codec: every enum that the code stores as text or as a column value decodes what it
  encodes. Clients get that two values never share an encoding.
\<close>

locale codec =
  fixes enc :: "'a \<Rightarrow> 'b" and dec :: "'b \<Rightarrow> 'a option"
  assumes dec_enc: "dec (enc x) = Some x"
begin

lemma enc_eq_iff: "enc x = enc y \<longleftrightarrow> x = y"
  by (metis dec_enc option.inject)

lemma enc_inj: "inj enc"
  by (simp add: inj_def enc_eq_iff)

lemma map_dec_enc: "map dec (map enc xs) = map Some xs"
  by (simp add: dec_enc)

end

text \<open>
  A store of rows addressed by a key, with a fallible insert and a fallible update: what the
  certificate tables promise to the CA layer. \<open>look\<close> is the lookup by key, \<open>inv\<close> the primary key.
\<close>

locale row_store =
  fixes key :: "'r \<Rightarrow> 'k"
    and look :: "'db \<Rightarrow> 'k \<Rightarrow> 'r option"
    and add :: "'r \<Rightarrow> 'db \<Rightarrow> 'db res"
    and upd :: "'r \<Rightarrow> 'db \<Rightarrow> 'db res"
    and inv :: "'db \<Rightarrow> bool"
  assumes add_ok: "inv db \<Longrightarrow> add r db = Ok db' \<Longrightarrow>
      look db (key r) = None \<and> look db' = (look db)(key r \<mapsto> r) \<and> inv db'"
    and add_fresh: "inv db \<Longrightarrow> look db (key r) = None \<Longrightarrow> \<exists>db'. add r db = Ok db'"
    and upd_ok: "inv db \<Longrightarrow> upd r db = Ok db' \<Longrightarrow>
      look db (key r) \<noteq> None \<and> look db' = (look db)(key r \<mapsto> r) \<and> inv db'"
    and upd_present: "inv db \<Longrightarrow> look db (key r) \<noteq> None \<Longrightarrow> \<exists>db'. upd r db = Ok db'"
begin

text \<open>Inserting a list of rows, as the rebuild of a database does.\<close>

lemma add_then_look: "inv db \<Longrightarrow> add r db = Ok db' \<Longrightarrow> look db' (key r) = Some r"
  by (simp add: add_ok)

lemma add_twice_fails:
  assumes "inv db" "add r db = Ok db'" "key q = key r"
  shows "\<not> (\<exists>db''. add q db' = Ok db'')"
proof
  assume "\<exists>db''. add q db' = Ok db''"
  then obtain db'' where "add q db' = Ok db''" by blast
  moreover have "inv db'" and "look db' (key q) = Some r"
    using add_ok [OF assms(1,2)] assms(3) by simp_all
  ultimately show False using add_ok by fastforce
qed

lemma add_keeps: "inv db \<Longrightarrow> add r db = Ok db' \<Longrightarrow> look db k = Some q \<Longrightarrow> look db' k = Some q"
  using add_ok [of db r db'] by (cases "k = key r") auto

lemma upd_other: "inv db \<Longrightarrow> upd r db = Ok db' \<Longrightarrow> k \<noteq> key r \<Longrightarrow> look db' k = look db k"
  using upd_ok [of db r db'] by simp

lemma upd_dom: "inv db \<Longrightarrow> upd r db = Ok db' \<Longrightarrow> dom (look db') = dom (look db)"
  using upd_ok [of db r db'] by auto

lemma upd_last:
  assumes "inv db" "upd r db = Ok db'" "upd q db' = Ok db''" "key q = key r"
  shows "look db'' = (look db)(key r \<mapsto> q)"
  using upd_ok [OF assms(1,2)] upd_ok [of db' q db''] assms(3,4) by simp

end

text \<open>
  A counter that hands out numbers: each call returns the current value and leaves the counter
  strictly above it. A run of calls returns strictly increasing, hence distinct, numbers.
\<close>

locale number_source =
  fixes take_next :: "'s \<Rightarrow> int \<times> 's"
    and level :: "'s \<Rightarrow> int"
    and fits :: "'s \<Rightarrow> nat \<Rightarrow> bool"
  assumes take_level: "fits s (Suc n) \<Longrightarrow> take_next s = (v, s') \<Longrightarrow> v = level s \<and> level s' = v + 1"
    and take_fits: "fits s (Suc n) \<Longrightarrow> take_next s = (v, s') \<Longrightarrow> fits s' n"
begin

primrec take_many :: "nat \<Rightarrow> 's \<Rightarrow> int list" where
  "take_many 0 s = []"
| "take_many (Suc n) s = (case take_next s of (v, s') \<Rightarrow> v # take_many n s')"

lemma take_many_upto: "fits s n \<Longrightarrow> take_many n s = [level s .. level s + int n - 1]"
  for s
proof (induction n arbitrary: s)
  case 0
  show ?case by simp
next
  case (Suc n)
  obtain v s' where next_eq: "take_next s = (v, s')" by fastforce
  have "v = level s" and "level s' = level s + 1" and "fits s' n"
    using take_level [OF Suc.prems next_eq] take_fits [OF Suc.prems next_eq] by auto
  then show ?case
    using Suc.IH [of s'] next_eq by (simp add: upto_rec1 algebra_simps)
qed

end

end
