(* ===== verification/Rust_Text.thy ===== *)
theory Rust_Text
  imports Opca_Prelude
begin

text \<open>
  The part of Rust's string library that opCA uses, on UTF-8 text kept as the list of its bytes
  (\<open>string\<close>): trimming of Unicode white space, ASCII case, splitting, prefixes and suffixes,
  decimal integers, and the address parser of \<^verbatim>\<open>std::net\<close>.
\<close>

section \<open>Bytes\<close>

definition byte :: "char \<Rightarrow> nat" where "byte c = of_char c"

definition is_ascii_digit :: "char \<Rightarrow> bool" where
  "is_ascii_digit c \<longleftrightarrow> 48 \<le> byte c \<and> byte c \<le> 57"

definition is_ascii_upper :: "char \<Rightarrow> bool" where
  "is_ascii_upper c \<longleftrightarrow> 65 \<le> byte c \<and> byte c \<le> 90"

definition is_ascii_lower :: "char \<Rightarrow> bool" where
  "is_ascii_lower c \<longleftrightarrow> 97 \<le> byte c \<and> byte c \<le> 122"

definition is_ascii_alphabetic :: "char \<Rightarrow> bool" where
  "is_ascii_alphabetic c \<longleftrightarrow> is_ascii_upper c \<or> is_ascii_lower c"

definition is_ascii_alphanumeric :: "char \<Rightarrow> bool" where
  "is_ascii_alphanumeric c \<longleftrightarrow> is_ascii_alphabetic c \<or> is_ascii_digit c"

definition is_ascii_graphic :: "char \<Rightarrow> bool" where
  "is_ascii_graphic c \<longleftrightarrow> 33 \<le> byte c \<and> byte c \<le> 126"

definition to_ascii_lower :: "char \<Rightarrow> char" where
  "to_ascii_lower c = (if is_ascii_upper c then char_of (byte c + 32) else c)"

definition to_ascii_lowercase :: "string \<Rightarrow> string" where
  "to_ascii_lowercase s = map to_ascii_lower s"

definition eq_ignore_ascii_case :: "string \<Rightarrow> string \<Rightarrow> bool" where
  "eq_ignore_ascii_case a b \<longleftrightarrow> to_ascii_lowercase a = to_ascii_lowercase b"

lemmas byte_defs = byte_def is_ascii_digit_def is_ascii_upper_def is_ascii_lower_def
  is_ascii_alphabetic_def is_ascii_alphanumeric_def is_ascii_graphic_def

lemma byte_bound: "byte c < 256"
  unfolding byte_def by (metis char_of_char of_char_mod_256 mod_less_divisor zero_less_numeral)

lemma to_ascii_lower_idem [simp]: "to_ascii_lower (to_ascii_lower c) = to_ascii_lower c"
proof (cases "is_ascii_upper c")
  case True
  then have "byte (char_of (byte c + 32)) = byte c + 32"
    by (simp add: byte_defs of_char_of)
  with True show ?thesis by (simp add: to_ascii_lower_def is_ascii_upper_def)
next
  case False
  then show ?thesis by (simp add: to_ascii_lower_def)
qed

lemma to_ascii_lowercase_idem [simp]: "to_ascii_lowercase (to_ascii_lowercase s) = to_ascii_lowercase s"
  by (simp add: to_ascii_lowercase_def)

lemma to_ascii_lowercase_length [simp]: "length (to_ascii_lowercase s) = length s"
  by (simp add: to_ascii_lowercase_def)

lemma to_ascii_lowercase_append:
  "to_ascii_lowercase (a @ b) = to_ascii_lowercase a @ to_ascii_lowercase b"
  by (simp add: to_ascii_lowercase_def)

text \<open>
  A byte offset is a character boundary when it is an end of the text or the byte there does not
  continue a multi-byte character; slicing anywhere else panics.
\<close>

definition is_char_boundary :: "string \<Rightarrow> nat \<Rightarrow> bool" where
  "is_char_boundary s i \<longleftrightarrow>
     i = 0 \<or> i = length s \<or> (i < length s \<and> \<not> (128 \<le> byte (s ! i) \<and> byte (s ! i) < 192))"

definition slice_to :: "string \<Rightarrow> nat \<Rightarrow> string option" where
  "slice_to s i = (if is_char_boundary s i then Some (take i s) else None)"

definition quote :: "string \<Rightarrow> string" where
  "quote s = CHR 0x27 # s @ [CHR 0x27]"

definition ascii_text :: "string \<Rightarrow> bool" where
  "ascii_text s \<longleftrightarrow> list_all (\<lambda>c. byte c < 128) s"

lemma slice_to_ascii: "ascii_text s \<Longrightarrow> i \<le> length s \<Longrightarrow> slice_to s i = Some (take i s)"
proof (cases "i < length s")
  case True
  assume "ascii_text s"
  with True have "byte (s ! i) < 128" by (simp add: ascii_text_def list_all_length)
  with True show ?thesis by (simp add: slice_to_def is_char_boundary_def)
next
  case False
  assume "i \<le> length s"
  with False show ?thesis by (simp add: slice_to_def is_char_boundary_def)
qed

section \<open>White space\<close>

text \<open>The UTF-8 encodings of the characters with the White\_Space property, which \<^verbatim>\<open>trim\<close> removes.\<close>

definition ws_seqs :: "string list" where
  "ws_seqs = map (\<lambda>b. [char_of b]) [9, 10, 11, 12, 13, 32 :: nat]
     @ map (map char_of) [[194, 133], [194, 160], [225, 154, 128], [226, 128, 168],
         [226, 128, 169], [226, 128, 175], [226, 129, 159], [227, 128, 128 :: nat]]
     @ map (\<lambda>b. map char_of [226, 128, b]) [128 ..< 139 :: nat]"

definition ws_front :: "string \<Rightarrow> nat" where
  "ws_front s = (case List.find (\<lambda>w. take (length w) s = w) ws_seqs of
      Some w \<Rightarrow> length w | None \<Rightarrow> 0)"

definition ws_back :: "string \<Rightarrow> nat" where
  "ws_back s = (case List.find (\<lambda>w. take (length w) (rev s) = rev w) ws_seqs of
      Some w \<Rightarrow> length w | None \<Rightarrow> 0)"

lemma ws_seqs_nonempty: "w \<in> set ws_seqs \<Longrightarrow> w \<noteq> []"
  by (auto simp: ws_seqs_def)

lemma find_length_pos:
  assumes "\<And>w. w \<in> set ws \<Longrightarrow> w \<noteq> []"
  shows "(case List.find P ws of Some w \<Rightarrow> length w | None \<Rightarrow> 0) \<noteq> 0 \<longleftrightarrow> (\<exists>w \<in> set ws. P w)"
  using assms by (induction ws) auto

lemma ws_front_iff: "ws_front s \<noteq> 0 \<longleftrightarrow> (\<exists>w \<in> set ws_seqs. take (length w) s = w)"
  unfolding ws_front_def by (rule find_length_pos) (rule ws_seqs_nonempty)

lemma ws_back_iff: "ws_back s \<noteq> 0 \<longleftrightarrow> (\<exists>w \<in> set ws_seqs. take (length w) (rev s) = rev w)"
  unfolding ws_back_def by (rule find_length_pos) (rule ws_seqs_nonempty)

lemma ws_front_pos: "ws_front s \<noteq> 0 \<Longrightarrow> s \<noteq> []"
  by (auto simp only: ws_front_iff dest: ws_seqs_nonempty) (metis ws_seqs_nonempty take_Nil)

lemma ws_back_pos: "ws_back s \<noteq> 0 \<Longrightarrow> s \<noteq> []"
  by (auto simp only: ws_back_iff rev.simps take_Nil dest: ws_seqs_nonempty)

lemma ws_front_dec: "0 < ws_front s \<Longrightarrow> length s - ws_front s < length s"
  using ws_front_pos [of s] by (cases s) auto

lemma ws_back_dec: "0 < ws_back s \<Longrightarrow> length s - ws_back s < length s"
  using ws_back_pos [of s] by (cases s) auto

function trim_start :: "string \<Rightarrow> string" where
  "trim_start s = (if ws_front s = 0 then s else trim_start (drop (ws_front s) s))"
  by pat_completeness auto
termination
  by (relation "measure length") (auto intro: ws_front_dec)

function trim_end :: "string \<Rightarrow> string" where
  "trim_end s = (if ws_back s = 0 then s else trim_end (take (length s - ws_back s) s))"
  by pat_completeness auto
termination
  by (relation "measure length") (auto intro: ws_back_dec)

declare trim_start.simps [simp del] trim_end.simps [simp del]

definition trim :: "string \<Rightarrow> string" where
  "trim s = trim_end (trim_start s)"

lemma trim_start_front: "ws_front (trim_start s) = 0"
proof (induction s rule: trim_start.induct)
  case (1 s)
  then show ?case by (cases "ws_front s = 0") (simp_all add: trim_start.simps [of s])
qed

lemma trim_end_back: "ws_back (trim_end s) = 0"
proof (induction s rule: trim_end.induct)
  case (1 s)
  then show ?case by (cases "ws_back s = 0") (simp_all add: trim_end.simps [of s])
qed

lemma trim_end_prefix: "\<exists>t. s = trim_end s @ t"
proof (induction s rule: trim_end.induct)
  case (1 s)
  show ?case
  proof (cases "ws_back s = 0")
    case True
    then show ?thesis by (simp add: trim_end.simps [of s])
  next
    case False
    obtain t where "take (length s - ws_back s) s = trim_end (take (length s - ws_back s) s) @ t"
      using 1 False by blast
    then have "s = trim_end (take (length s - ws_back s) s) @ t @ drop (length s - ws_back s) s"
      by (metis append.assoc append_take_drop_id)
    moreover have "trim_end s = trim_end (take (length s - ws_back s) s)"
      using False by (simp add: trim_end.simps [of s])
    ultimately show ?thesis by metis
  qed
qed

lemma ws_front_append: "ws_front (s @ t) = 0 \<Longrightarrow> ws_front s = 0"
proof (rule ccontr)
  assume no: "ws_front (s @ t) = 0" and "ws_front s \<noteq> 0"
  then obtain w where w: "w \<in> set ws_seqs" "take (length w) s = w"
    by (auto simp only: ws_front_iff)
  then have "length w \<le> length s" by (metis length_take min.cobounded1)
  then have "take (length w) (s @ t) = w" using w by simp
  then have "ws_front (s @ t) \<noteq> 0" using w(1) unfolding ws_front_iff by blast
  with no show False by simp
qed

lemma trim_idem [simp]: "trim (trim s) = trim s"
proof -
  obtain t where t: "trim_start s = trim s @ t"
    using trim_end_prefix [of "trim_start s"] by (auto simp: trim_def)
  then have "ws_front (trim s) = 0"
    using ws_front_append [of "trim s" t] trim_start_front [of s] by simp
  then have start: "trim_start (trim s) = trim s" by (simp add: trim_start.simps [of "trim s"])
  have "ws_back (trim s) = 0" unfolding trim_def by (rule trim_end_back)
  then have "trim_end (trim s) = trim s" by (simp add: trim_end.simps [of "trim s"])
  then show ?thesis by (simp add: trim_def [of "trim s"] start)
qed

lemma trim_start_suffix: "\<exists>t. s = t @ trim_start s"
proof (induction s rule: trim_start.induct)
  case (1 s)
  show ?case
  proof (cases "ws_front s = 0")
    case True
    then show ?thesis by (simp add: trim_start.simps [of s])
  next
    case False
    obtain t where "drop (ws_front s) s = t @ trim_start (drop (ws_front s) s)"
      using 1 False by blast
    then have "s = (take (ws_front s) s @ t) @ trim_start (drop (ws_front s) s)"
      by (metis append.assoc append_take_drop_id)
    moreover have "trim_start s = trim_start (drop (ws_front s) s)"
      using False by (simp add: trim_start.simps [of s])
    ultimately show ?thesis by metis
  qed
qed

lemma trim_infix: "\<exists>a b. s = a @ trim s @ b"
  using trim_start_suffix [of s] trim_end_prefix [of "trim_start s"] unfolding trim_def by metis

lemma set_trim: "set (trim s) \<subseteq> set s"
  using trim_infix [of s] by (metis set_append Un_upper1 Un_upper2 order_trans)

text \<open>Trimming a set of characters from one end.\<close>

definition trim_start_matches :: "char \<Rightarrow> string \<Rightarrow> string" where
  "trim_start_matches c s = dropWhile (\<lambda>x. x = c) s"

definition trim_end_matches :: "char \<Rightarrow> string \<Rightarrow> string" where
  "trim_end_matches c s = rev (dropWhile (\<lambda>x. x = c) (rev s))"

section \<open>Splitting\<close>

definition starts_with :: "string \<Rightarrow> string \<Rightarrow> bool" where
  "starts_with p s \<longleftrightarrow> take (length p) s = p"

definition ends_with :: "string \<Rightarrow> string \<Rightarrow> bool" where
  "ends_with q s \<longleftrightarrow> (\<exists>n \<le> length s. drop n s = q)"

definition strip_prefix :: "string \<Rightarrow> string \<Rightarrow> string option" where
  "strip_prefix p s = (if starts_with p s then Some (drop (length p) s) else None)"

definition strip_suffix :: "string \<Rightarrow> string \<Rightarrow> string option" where
  "strip_suffix q s = map_option rev (strip_prefix (rev q) (rev s))"

fun split_once :: "string \<Rightarrow> string \<Rightarrow> (string \<times> string) option" where
  "split_once p [] = (if p = [] then Some ([], []) else None)"
| "split_once p (c # s) =
     (if starts_with p (c # s) then Some ([], drop (length p) (c # s))
      else map_option (\<lambda>(a, b). (c # a, b)) (split_once p s))"

fun split_char :: "char \<Rightarrow> string \<Rightarrow> string list" where
  "split_char c [] = [[]]"
| "split_char c (x # s) =
     (if x = c then [] # split_char c s
      else (case split_char c s of [] \<Rightarrow> [[x]] | p # ps \<Rightarrow> (x # p) # ps))"

fun join :: "string \<Rightarrow> string list \<Rightarrow> string" where
  "join sep [] = []"
| "join sep [x] = x"
| "join sep (x # y # ys) = x @ sep @ join sep (y # ys)"

lemma ends_with_iff: "ends_with q s \<longleftrightarrow> (\<exists>p. s = p @ q)"
proof
  assume "ends_with q s"
  then obtain n where "drop n s = q" by (auto simp: ends_with_def)
  then have "s = take n s @ q" by (metis append_take_drop_id)
  then show "\<exists>p. s = p @ q" ..
next
  assume "\<exists>p. s = p @ q"
  then obtain p where "s = p @ q" ..
  then show "ends_with q s" by (auto simp: ends_with_def intro!: exI [of _ "length p"])
qed

lemma ends_with_code [code]:
  "ends_with q s \<longleftrightarrow> length q \<le> length s \<and> drop (length s - length q) s = q"
  by (auto simp: ends_with_iff) (metis append_take_drop_id)

lemma starts_with_iff: "starts_with p s \<longleftrightarrow> (\<exists>t. s = p @ t)"
  by (auto simp: starts_with_def) (metis append_take_drop_id)

lemma split_char_nonempty [simp]: "split_char c s \<noteq> []"
  by (induction s) (auto split: list.split)

lemma join_split_char: "join [c] (split_char c s) = s"
proof (induction s)
  case Nil
  show ?case by simp
next
  case (Cons x s)
  obtain p ps where split: "split_char c s = p # ps" by (cases "split_char c s") auto
  then show ?case using Cons.IH by (cases ps) auto
qed

lemma split_char_no_sep: "p \<in> set (split_char c s) \<Longrightarrow> c \<notin> set p"
proof (induction s arbitrary: p)
  case Nil
  then show ?case by simp
next
  case (Cons x s)
  obtain q qs where split: "split_char c s = q # qs" by (cases "split_char c s") auto
  with Cons show ?case by (auto split: if_splits)
qed

lemma set_split_char: "set s \<subseteq> insert c (\<Union> (set ` set (split_char c s)))"
proof (induction s)
  case Nil
  show ?case by simp
next
  case (Cons x s)
  obtain q qs where split: "split_char c s = q # qs" by (cases "split_char c s") auto
  with Cons show ?case by auto
qed

lemma split_once_before: "split_once [c] s = Some (a, b) \<Longrightarrow> c \<notin> set a"
  by (induction s arbitrary: a) (auto simp: starts_with_def split: if_splits prod.splits)

lemma split_once_some: "split_once p s = Some (a, b) \<Longrightarrow> s = a @ p @ b"
proof (induction p s arbitrary: a rule: split_once.induct)
  case (1 p)
  then show ?case by (auto split: if_splits)
next
  case (2 p c s)
  show ?case
  proof (cases "starts_with p (c # s)")
    case True
    with 2 show ?thesis by (auto simp: starts_with_def) (metis append_take_drop_id)
  next
    case False
    with 2 show ?thesis by (auto split: prod.splits)
  qed
qed

lemma split_once_none: "split_once p s = None \<Longrightarrow> p \<noteq> [] \<Longrightarrow> \<nexists>a b. s = a @ p @ b"
proof (induction p s rule: split_once.induct)
  case (1 p)
  then show ?case by auto
next
  case (2 p c s)
  have ns: "\<not> starts_with p (c # s)" using 2 by (auto split: if_splits)
  show ?case
  proof
    assume "\<exists>a b. c # s = a @ p @ b"
    then obtain a b where ab: "c # s = a @ p @ b" by blast
    then have "a \<noteq> []" using ns by (auto simp: starts_with_iff)
    then have "\<exists>a b. s = a @ p @ b" using ab by (cases a) auto
    moreover have "split_once p s = None" using 2 ns by (auto split: if_splits)
    ultimately show False using 2 ns by blast
  qed
qed

section \<open>Decimal integers\<close>

definition digit_val :: "char \<Rightarrow> nat" where "digit_val c = byte c - 48"

definition digits_val :: "string \<Rightarrow> nat" where
  "digits_val s = foldl (\<lambda>n c. 10 * n + digit_val c) 0 s"

definition parse_digits :: "string \<Rightarrow> nat option" where
  "parse_digits s = (if s \<noteq> [] \<and> list_all is_ascii_digit s then Some (digits_val s) else None)"

text \<open>\<^verbatim>\<open>str::parse::<i64>\<close>: an optional sign, at least one digit, no white space, no overflow.\<close>

definition parse_i64 :: "string \<Rightarrow> int option" where
  "parse_i64 s =
     (case s of [] \<Rightarrow> None
      | c # cs \<Rightarrow>
          (case parse_digits (if c = CHR ''-'' \<or> c = CHR ''+'' then cs else s) of
             None \<Rightarrow> None
           | Some n \<Rightarrow>
               (let v = (if c = CHR ''-'' then - int n else int n)
                in if in_i64 v then Some v else None)))"

text \<open>\<^verbatim>\<open>str::parse::<u64>\<close>, which takes no minus sign.\<close>

definition parse_u64 :: "string \<Rightarrow> nat option" where
  "parse_u64 s =
     (case s of [] \<Rightarrow> None
      | c # cs \<Rightarrow>
          (case parse_digits (if c = CHR ''+'' then cs else s) of
             None \<Rightarrow> None
           | Some n \<Rightarrow> if n < 2 ^ 64 then Some n else None))"

fun nat_to_string :: "nat \<Rightarrow> string" where
  "nat_to_string n =
     (if n < 10 then [char_of (48 + n)] else nat_to_string (n div 10) @ [char_of (48 + n mod 10)])"

declare nat_to_string.simps [simp del]

definition int_to_string :: "int \<Rightarrow> string" where
  "int_to_string n = (if n < 0 then ''-'' @ nat_to_string (nat (- n)) else nat_to_string (nat n))"

lemma byte_char_of: "n < 256 \<Longrightarrow> byte (char_of n) = n"
  by (simp add: byte_def of_char_of)

lemma digits_val_snoc: "digits_val (s @ [c]) = 10 * digits_val s + digit_val c"
  by (simp add: digits_val_def)

lemma nat_to_string_digits:
  "nat_to_string n \<noteq> [] \<and> list_all is_ascii_digit (nat_to_string n) \<and> digits_val (nat_to_string n) = n"
proof (induction n rule: nat_to_string.induct)
  case (1 n)
  show ?case
  proof (cases "n < 10")
    case True
    then show ?thesis
      by (simp add: nat_to_string.simps [of n] digits_val_def digit_val_def is_ascii_digit_def
            byte_char_of)
  next
    case False
    have "n mod 10 < 10" by simp
    then have "is_ascii_digit (char_of (48 + n mod 10))"
      and "digit_val (char_of (48 + n mod 10)) = n mod 10"
      by (simp_all add: is_ascii_digit_def digit_val_def byte_char_of)
    with False "1.IH" show ?thesis
      by (simp add: nat_to_string.simps [of n] digits_val_snoc)
  qed
qed

lemma parse_digits_nat_to_string: "parse_digits (nat_to_string n) = Some n"
  by (simp add: parse_digits_def nat_to_string_digits)

lemma nat_to_string_head: "nat_to_string n = c # cs \<Longrightarrow> c \<noteq> CHR ''-'' \<and> c \<noteq> CHR ''+''"
  using nat_to_string_digits [of n] by (auto simp: is_ascii_digit_def byte_def)

lemma parse_i64_int_to_string: "in_i64 n \<Longrightarrow> parse_i64 (int_to_string n) = Some n"
proof (cases "n < 0")
  case True
  assume "in_i64 n"
  with True show ?thesis
    by (simp add: int_to_string_def parse_i64_def parse_digits_nat_to_string)
next
  case False
  assume r: "in_i64 n"
  obtain c cs where ns: "nat_to_string (nat n) = c # cs"
    using nat_to_string_digits [of "nat n"] by (cases "nat_to_string (nat n)") auto
  have "parse_digits (c # cs) = Some (nat n)"
    using parse_digits_nat_to_string [of "nat n"] ns by simp
  with False r nat_to_string_head [OF ns] show ?thesis
    by (simp add: int_to_string_def parse_i64_def ns)
qed

lemma parse_u64_nat_to_string: "n < 2 ^ 64 \<Longrightarrow> parse_u64 (nat_to_string n) = Some n"
proof -
  assume r: "n < 2 ^ 64"
  obtain c cs where ns: "nat_to_string n = c # cs"
    using nat_to_string_digits [of n] by (cases "nat_to_string n") auto
  have "parse_digits (c # cs) = Some n" using parse_digits_nat_to_string [of n] ns by simp
  with r nat_to_string_head [OF ns] show ?thesis by (simp add: parse_u64_def ns)
qed

lemma ws_front_graphic: "is_ascii_graphic c \<Longrightarrow> ws_front (c # s) = 0"
proof (rule ccontr)
  assume c: "is_ascii_graphic c" and "ws_front (c # s) \<noteq> 0"
  then obtain w where w: "w \<in> set ws_seqs" "take (length w) (c # s) = w"
    unfolding ws_front_iff by blast
  have "w \<noteq> []" using w(1) ws_seqs_nonempty by blast
  with w(2) have "hd w = c" by (metis hd_take length_greater_0_conv list.sel(1))
  moreover have "byte (hd w) \<in> {9, 10, 11, 12, 13, 32, 194, 225, 226, 227}"
    using w(1) by (auto simp: ws_seqs_def byte_def of_char_of)
  ultimately show False using c by (auto simp: is_ascii_graphic_def)
qed

lemma ws_back_graphic: "is_ascii_graphic c \<Longrightarrow> ws_back (s @ [c]) = 0"
proof (rule ccontr)
  assume c: "is_ascii_graphic c" and "ws_back (s @ [c]) \<noteq> 0"
  then obtain w where w: "w \<in> set ws_seqs" "take (length w) (c # rev s) = rev w"
    unfolding ws_back_iff by auto
  have "w \<noteq> []" using w(1) ws_seqs_nonempty by blast
  with w(2) have "last w = c"
    by (metis hd_rev hd_take length_greater_0_conv list.sel(1))
  moreover have "byte (last w) \<in> {9, 10, 11, 12, 13, 32, 159, 160, 168, 169, 175} \<union> {128 ..< 139}"
    using w(1) by (auto simp: ws_seqs_def byte_def of_char_of)
  ultimately show False using c by (auto simp: is_ascii_graphic_def)
qed

lemma trim_ends:
  assumes "s \<noteq> []" "is_ascii_graphic (hd s)" "is_ascii_graphic (last s)"
  shows "trim s = s"
proof -
  from assms(1,2) have "ws_front s = 0" by (cases s) (simp_all add: ws_front_graphic)
  then have start: "trim_start s = s" by (simp add: trim_start.simps [of s])
  from assms(1,3) have "ws_back s = 0" by (cases s rule: rev_cases) (simp_all add: ws_back_graphic)
  then have "trim_end s = s" by (simp add: trim_end.simps [of s])
  then show ?thesis by (simp add: trim_def start)
qed

lemma trim_Nil [simp]: "trim [] = []"
proof -
  have "ws_front [] = 0" using ws_front_pos [of "[]"] by blast
  then have start: "trim_start [] = []" by (subst trim_start.simps) simp
  have "ws_back [] = 0" using ws_back_pos [of "[]"] by blast
  then have "trim_end [] = []" by (subst trim_end.simps) simp
  with start show ?thesis by (simp add: trim_def)
qed

lemma trim_graphic: "list_all is_ascii_graphic s \<Longrightarrow> trim s = s"
  by (cases "s = []") (auto simp: list_all_iff intro: trim_ends)

lemma digit_graphic: "is_ascii_digit c \<Longrightarrow> is_ascii_graphic c"
  by (simp add: is_ascii_digit_def is_ascii_graphic_def)

lemma nat_to_string_graphic: "list_all is_ascii_graphic (nat_to_string n)"
  using nat_to_string_digits [of n] by (auto simp: list_all_iff digit_graphic)

lemma int_to_string_graphic: "list_all is_ascii_graphic (int_to_string n)"
  by (simp add: int_to_string_def nat_to_string_graphic is_ascii_graphic_def byte_def)

lemma trim_int_to_string [simp]: "trim (int_to_string n) = int_to_string n"
  by (rule trim_graphic) (rule int_to_string_graphic)

section \<open>The address parser of the standard library\<close>

text \<open>
  \<^verbatim>\<open>str::parse::<IpAddr>\<close>: each reader takes the remaining bytes and gives the value with what is
  left, or \<open>None\<close> with nothing consumed.
\<close>

datatype ip_addr = V4 "nat list" | V6 "nat list"

definition to_digit :: "nat \<Rightarrow> char \<Rightarrow> nat option" where
  "to_digit radix c =
     (let d = (if is_ascii_digit c then byte c - 48
               else if is_ascii_lower c then byte c - 87
               else if is_ascii_upper c then byte c - 55 else 256)
      in if d < radix then Some d else None)"

definition read_number :: "nat \<Rightarrow> nat \<Rightarrow> bool \<Rightarrow> nat \<Rightarrow> string \<Rightarrow> (nat \<times> string) option" where
  "read_number radix max_digits allow_zero_prefix limit s =
     (let ds = takeWhile (\<lambda>c. to_digit radix c \<noteq> None) s;
          v = foldl (\<lambda>n c. radix * n + the (to_digit radix c)) 0 ds
      in if length ds > max_digits \<or> ds = []
            \<or> (\<not> allow_zero_prefix \<and> hd ds = CHR ''0'' \<and> length ds > 1) \<or> v > limit
         then None else Some (v, drop (length ds) s))"

definition read_separator ::
  "char \<Rightarrow> nat \<Rightarrow> (string \<Rightarrow> ('a \<times> string) option) \<Rightarrow> string \<Rightarrow> ('a \<times> string) option" where
  "read_separator sep index inner s =
     (if 0 < index
      then (case s of [] \<Rightarrow> None | c # cs \<Rightarrow> if c = sep then inner cs else None)
      else inner s)"

fun read_octets :: "nat \<Rightarrow> nat \<Rightarrow> string \<Rightarrow> (nat list \<times> string) option" where
  "read_octets 0 i s = Some ([], s)"
| "read_octets (Suc n) i s =
     (case read_separator CHR ''.'' i (read_number 10 3 False 255) s of
        None \<Rightarrow> None
      | Some (v, s') \<Rightarrow> map_option (\<lambda>(vs, r). (v # vs, r)) (read_octets n (Suc i) s'))"

definition read_ipv4_addr :: "string \<Rightarrow> (nat list \<times> string) option" where
  "read_ipv4_addr s = read_octets 4 0 s"

fun read_groups :: "nat \<Rightarrow> nat \<Rightarrow> string \<Rightarrow> nat list \<times> bool \<times> string" where
  "read_groups 0 i s = ([], False, s)"
| "read_groups (Suc n) i s =
     (case (if 0 < n then read_separator CHR '':'' i read_ipv4_addr s else None) of
        Some (v4, s') \<Rightarrow> ([256 * (v4 ! 0) + v4 ! 1, 256 * (v4 ! 2) + v4 ! 3], True, s')
      | None \<Rightarrow>
          (case read_separator CHR '':'' i (read_number 16 4 True 65535) s of
             Some (g, s') \<Rightarrow> (let (gs, v4, r) = read_groups n (Suc i) s' in (g # gs, v4, r))
           | None \<Rightarrow> ([], False, s)))"

definition read_ipv6_addr :: "string \<Rightarrow> (nat list \<times> string) option" where
  "read_ipv6_addr s =
     (let (head, head_ipv4, r) = read_groups 8 0 s
      in if length head = 8 then Some (head, r)
         else if head_ipv4 then None
         else if starts_with ''::'' r
         then (let (tail, _, r') = read_groups (7 - length head) 0 (drop 2 r)
               in Some (head @ replicate (8 - length head - length tail) 0 @ tail, r'))
         else None)"

definition parse_ip :: "string \<Rightarrow> ip_addr option" where
  "parse_ip s =
     (case read_ipv4_addr s of
        Some (octets, r) \<Rightarrow> if r = [] then Some (V4 octets) else None
      | None \<Rightarrow>
          (case read_ipv6_addr s of
             Some (groups, r) \<Rightarrow> if r = [] then Some (V6 groups) else None
           | None \<Rightarrow> None))"

lemma read_octets_length: "read_octets n i s = Some (vs, r) \<Longrightarrow> length vs = n"
  by (induction n i s arbitrary: vs r rule: read_octets.induct) (auto split: option.splits)

lemma read_groups_length: "read_groups n i s = (gs, v4, r) \<Longrightarrow> length gs \<le> n"
proof (induction n i s arbitrary: gs v4 r rule: read_groups.induct)
  case (1 i s)
  then show ?case by simp
next
  case (2 n i s)
  then show ?case
    by (fastforce split: option.splits prod.splits if_splits simp: Let_def)
qed

lemma parse_ip_shape:
  assumes "parse_ip s = Some ip"
  shows "case ip of V4 octets \<Rightarrow> length octets = 4 | V6 groups \<Rightarrow> length groups = 8"
proof (cases "read_ipv4_addr s")
  case (Some p)
  with assms show ?thesis
    by (cases p) (auto simp: parse_ip_def read_ipv4_addr_def split: if_splits dest: read_octets_length)
next
  case None
  then obtain groups where g: "read_ipv6_addr s = Some (groups, [])" "ip = V6 groups"
    using assms by (auto simp: parse_ip_def split: option.splits if_splits)
  obtain head f r where head: "read_groups 8 0 s = (head, f, r)" by (metis prod_cases3)
  obtain tail f' r' where tail: "read_groups (7 - length head) 0 (drop 2 r) = (tail, f', r')"
    by (metis prod_cases3)
  have "length head \<le> 8" and "length tail \<le> 7 - length head"
    using read_groups_length [OF head] read_groups_length [OF tail] by simp_all
  then have "length groups = 8"
    using g(1) head tail by (auto simp: read_ipv6_addr_def split: if_splits)
  with g(2) show ?thesis by simp
qed

text \<open>The text of an address (\<^verbatim>\<open>Display\<close>), the longest run of zero groups shortened to \<^verbatim>\<open>::\<close>.\<close>

fun hex_digits :: "nat \<Rightarrow> string" where
  "hex_digits n =
     (let d = n mod 16; c = char_of (if d < 10 then 48 + d else 87 + d)
      in if n < 16 then [c] else hex_digits (n div 16) @ [c])"

declare hex_digits.simps [simp del]

fun zero_run :: "nat \<Rightarrow> nat list \<Rightarrow> nat \<times> nat \<Rightarrow> nat \<times> nat \<Rightarrow> nat \<times> nat" where
  "zero_run i [] current longest = longest"
| "zero_run i (g # gs) current longest =
     (if g = 0
      then (let cur = (if snd current = 0 then (i, 1) else (fst current, Suc (snd current)))
            in zero_run (Suc i) gs cur (if snd longest < snd cur then cur else longest))
      else zero_run (Suc i) gs (0, 0) longest)"

definition display_ip :: "ip_addr \<Rightarrow> string" where
  "display_ip ip =
     (case ip of
        V4 octets \<Rightarrow> join ''.'' (map nat_to_string octets)
      | V6 groups \<Rightarrow>
          if take 6 groups = [0, 0, 0, 0, 0, 65535]
          then ''::ffff:'' @ join ''.'' (map nat_to_string
                 [groups ! 6 div 256, groups ! 6 mod 256, groups ! 7 div 256, groups ! 7 mod 256])
          else (let z = zero_run 0 groups (0, 0) (0, 0)
                in if 1 < snd z
                   then join '':'' (map hex_digits (take (fst z) groups)) @ ''::''
                        @ join '':'' (map hex_digits (drop (fst z + snd z) groups))
                   else join '':'' (map hex_digits groups)))"

text \<open>An IPv4 address reads back from its text.\<close>

lemma nat_to_string_length: "n < 10 ^ k \<Longrightarrow> 0 < k \<Longrightarrow> length (nat_to_string n) \<le> k"
proof (induction k arbitrary: n)
  case 0
  then show ?case by simp
next
  case (Suc k)
  show ?case
  proof (cases "n < 10")
    case True
    then show ?thesis by (simp add: nat_to_string.simps [of n])
  next
    case False
    with Suc.prems have "0 < k" by (cases k) auto
    moreover have "n div 10 < 10 ^ k" using Suc.prems by (simp add: less_mult_imp_div_less)
    ultimately have "length (nat_to_string (n div 10)) \<le> k" using Suc.IH by blast
    with False show ?thesis by (simp add: nat_to_string.simps [of n])
  qed
qed

lemma nat_to_string_no_leading_zero: "1 < length (nat_to_string n) \<Longrightarrow> hd (nat_to_string n) \<noteq> CHR ''0''"
proof (induction n rule: nat_to_string.induct)
  case (1 n)
  have big: "\<not> n < 10" using 1 by (auto simp: nat_to_string.simps [of n])
  have ne: "nat_to_string (n div 10) \<noteq> []" using nat_to_string_digits by blast
  show ?case
  proof (cases "1 < length (nat_to_string (n div 10))")
    case True
    with big 1 ne show ?thesis by (simp add: nat_to_string.simps [of n])
  next
    case False
    then have "n div 10 < 10" using ne
      by (cases "n div 10 < 10") (auto simp: nat_to_string.simps [of "n div 10"] Suc_lessI
            nat_to_string_digits)
    then have "hd (nat_to_string n) = char_of (48 + n div 10)"
      using big by (simp add: nat_to_string.simps [of n] nat_to_string.simps [of "n div 10"])
    moreover have "byte (char_of (48 + n div 10)) = 48 + n div 10"
      using \<open>n div 10 < 10\<close> by (simp add: byte_char_of)
    moreover have "byte CHR ''0'' = 48" by (simp add: byte_def)
    ultimately show ?thesis using big by auto
  qed
qed

lemma to_digit_10: "to_digit 10 c = (if is_ascii_digit c then Some (digit_val c) else None)"
  by (auto simp: to_digit_def Let_def is_ascii_digit_def is_ascii_lower_def is_ascii_upper_def
        digit_val_def)

lemma read_number_octet:
  assumes "v \<le> 255" and "\<forall>c cs. rest = c # cs \<longrightarrow> \<not> is_ascii_digit c"
  shows "read_number 10 3 False 255 (nat_to_string v @ rest) = Some (v, rest)"
proof -
  have digits: "list_all is_ascii_digit (nat_to_string v)" and ne: "nat_to_string v \<noteq> []"
    and val: "digits_val (nat_to_string v) = v"
    using nat_to_string_digits [of v] by auto
  have "takeWhile (\<lambda>c. to_digit 10 c \<noteq> None) (nat_to_string v @ rest) = nat_to_string v"
    using digits assms(2) by (cases rest) (auto simp: to_digit_10 list_all_iff)
  moreover have "foldl (\<lambda>n c. 10 * n + the (to_digit 10 c)) 0 (nat_to_string v) = v"
  proof -
    have "foldl (\<lambda>n c. 10 * n + the (to_digit 10 c)) a ds = foldl (\<lambda>n c. 10 * n + digit_val c) a ds"
      if "list_all is_ascii_digit ds" for a ds
      using that by (induction ds arbitrary: a) (auto simp: to_digit_10)
    with digits val show ?thesis by (simp add: digits_val_def)
  qed
  moreover have "length (nat_to_string v) \<le> 3" using nat_to_string_length [of v 3] assms(1) by simp
  ultimately show ?thesis
    using ne assms(1) nat_to_string_no_leading_zero [of v] by (auto simp: read_number_def Let_def)
qed

lemma parse_ip_display_v4:
  assumes "a \<le> 255" "b \<le> 255" "c \<le> 255" "d \<le> 255"
  shows "parse_ip (display_ip (V4 [a, b, c, d])) = Some (V4 [a, b, c, d])"
proof -
  have dot: "\<not> is_ascii_digit CHR ''.''" by (simp add: is_ascii_digit_def byte_def)
  have four: "(4::nat) = Suc (Suc (Suc (Suc 0)))" by simp
  have "read_octets 4 0 (display_ip (V4 [a, b, c, d])) = Some ([a, b, c, d], [])"
    using assms dot read_number_octet [of d "[]"] unfolding four
    by (simp add: display_ip_def read_separator_def read_number_octet)
  then show ?thesis by (simp add: parse_ip_def read_ipv4_addr_def)
qed

lemma read_octets_range: "read_octets n i s = Some (vs, r) \<Longrightarrow> \<forall>v \<in> set vs. v \<le> 255"
proof (induction n i s arbitrary: vs r rule: read_octets.induct)
  case (1 i s)
  then show ?case by auto
next
  case (2 n i s)
  have "v \<le> 255" if "read_separator CHR ''.'' i (read_number 10 3 False 255) s = Some (v, s')" for v s'
    using that by (auto simp: read_separator_def read_number_def Let_def split: if_splits list.splits)
  with 2 show ?case by (fastforce split: option.splits)
qed

text \<open>An address starts with a hexadecimal digit or a colon.\<close>

lemma parse_ip_first:
  assumes "to_digit 16 c = None" "c \<noteq> CHR '':''"
  shows "parse_ip (c # s) = None"
proof -
  have four: "(4::nat) = Suc 3" and eight: "(8::nat) = Suc 7" by simp_all
  have "to_digit 10 c = None" using assms(1) by (auto simp: to_digit_def Let_def split: if_splits)
  then have v4: "read_ipv4_addr (c # s) = None"
    unfolding read_ipv4_addr_def four read_octets.simps by (simp add: read_separator_def read_number_def)
  have "read_groups 8 0 (c # s) = ([], False, c # s)"
    unfolding eight read_groups.simps using v4 assms(1) by (simp add: read_separator_def read_number_def)
  then have "read_ipv6_addr (c # s) = None"
    using assms(2) by (simp add: read_ipv6_addr_def starts_with_def)
  with v4 show ?thesis by (simp add: parse_ip_def)
qed

end
