(* ===== verification/Acme_Base.thy ===== *)
theory Acme_Base
  imports Rust_Text
begin

text \<open>
  What the parts of the ACME server share, from \<^verbatim>\<open>crates/opca-acme-broker/src\<close>: the status enums and
  their life cycles (\<^verbatim>\<open>acme/store.rs\<close>), problem documents (\<^verbatim>\<open>acme/problem.rs\<close>), base64url (\<^verbatim>\<open>acme/mod.rs\<close>),
  replay nonces (\<^verbatim>\<open>acme/request.rs\<close>), serial numbers in decimal and the host check (\<^verbatim>\<open>enrolment.rs\<close>).
  Bytes are 8-bit words; shifts of the 32-bit accumulators are products and quotients by powers of two.
\<close>

section \<open>Statuses\<close>

datatype account_status = AccountValid | AccountDeactivated | AccountRevoked
datatype order_status = OrderPending | OrderReady | OrderProcessing | OrderValid | OrderInvalid
datatype authorisation_status = AuthPending | AuthValid | AuthInvalid | AuthDeactivated | AuthExpired | AuthRevoked
datatype challenge_status = ChalPending | ChalProcessing | ChalValid | ChalInvalid
datatype challenge_type = Http01 | Dns01 | TlsAlpn01

definition account_status_str :: "account_status \<Rightarrow> string" where
  "account_status_str s = (case s of AccountValid \<Rightarrow> ''valid'' | AccountDeactivated \<Rightarrow> ''deactivated'' | AccountRevoked \<Rightarrow> ''revoked'')"

definition order_status_str :: "order_status \<Rightarrow> string" where
  "order_status_str s = (case s of OrderPending \<Rightarrow> ''pending'' | OrderReady \<Rightarrow> ''ready'' | OrderProcessing \<Rightarrow> ''processing''
      | OrderValid \<Rightarrow> ''valid'' | OrderInvalid \<Rightarrow> ''invalid'')"

definition authorisation_status_str :: "authorisation_status \<Rightarrow> string" where
  "authorisation_status_str s = (case s of AuthPending \<Rightarrow> ''pending'' | AuthValid \<Rightarrow> ''valid'' | AuthInvalid \<Rightarrow> ''invalid''
      | AuthDeactivated \<Rightarrow> ''deactivated'' | AuthExpired \<Rightarrow> ''expired'' | AuthRevoked \<Rightarrow> ''revoked'')"

definition challenge_status_str :: "challenge_status \<Rightarrow> string" where
  "challenge_status_str s = (case s of ChalPending \<Rightarrow> ''pending'' | ChalProcessing \<Rightarrow> ''processing'' | ChalValid \<Rightarrow> ''valid''
      | ChalInvalid \<Rightarrow> ''invalid'')"

definition challenge_name :: "challenge_type \<Rightarrow> string" where
  "challenge_name k = (case k of Http01 \<Rightarrow> ''http-01'' | Dns01 \<Rightarrow> ''dns-01'' | TlsAlpn01 \<Rightarrow> ''tls-alpn-01'')"

definition parse_challenge :: "string \<Rightarrow> challenge_type option" where
  "parse_challenge name = List.find (\<lambda>k. challenge_name k = name) [Http01, Dns01, TlsAlpn01]"

text \<open>Which status may follow which.\<close>

definition account_may_become :: "account_status \<Rightarrow> account_status \<Rightarrow> bool" where
  "account_may_become a b \<longleftrightarrow> a = AccountValid \<and> b \<noteq> AccountValid"

definition order_may_become :: "order_status \<Rightarrow> order_status \<Rightarrow> bool" where
  "order_may_become a b \<longleftrightarrow> (case a of
      OrderPending \<Rightarrow> b \<in> {OrderReady, OrderInvalid}
    | OrderReady \<Rightarrow> b \<in> {OrderProcessing, OrderInvalid}
    | OrderProcessing \<Rightarrow> b \<in> {OrderValid, OrderInvalid}
    | _ \<Rightarrow> False)"

definition authorisation_may_become :: "authorisation_status \<Rightarrow> authorisation_status \<Rightarrow> bool" where
  "authorisation_may_become a b \<longleftrightarrow> (case a of
      AuthPending \<Rightarrow> b \<in> {AuthValid, AuthInvalid, AuthDeactivated, AuthExpired}
    | AuthValid \<Rightarrow> b \<in> {AuthDeactivated, AuthExpired, AuthRevoked}
    | _ \<Rightarrow> False)"

definition challenge_may_become :: "challenge_status \<Rightarrow> challenge_status \<Rightarrow> bool" where
  "challenge_may_become a b \<longleftrightarrow> (case a of
      ChalPending \<Rightarrow> b = ChalProcessing
    | ChalProcessing \<Rightarrow> b \<in> {ChalPending, ChalValid, ChalInvalid}
    | _ \<Rightarrow> False)"

section \<open>Problems\<close>

datatype problem_type = AccountDoesNotExist | AlreadyRevoked | BadCsr | BadNonce | BadPublicKey | BadRevocationReason
  | BadSignatureAlgorithm | Caa | Compound | Connection | Dns_Problem | ExternalAccountRequired | IncorrectResponse
  | InvalidContact | Malformed | OrderNotReady | RateLimited | RejectedIdentifier | ServerInternal | Tls_Problem
  | Unauthorized | UnsupportedContact | UnsupportedIdentifier | UserActionRequired

definition problem_types :: "problem_type list" where
  "problem_types = [AccountDoesNotExist, AlreadyRevoked, BadCsr, BadNonce, BadPublicKey, BadRevocationReason,
     BadSignatureAlgorithm, Caa, Compound, Connection, Dns_Problem, ExternalAccountRequired,
     IncorrectResponse, InvalidContact, Malformed, OrderNotReady, RateLimited,
     RejectedIdentifier, ServerInternal, Tls_Problem, Unauthorized, UnsupportedContact,
     UnsupportedIdentifier, UserActionRequired]"

definition problem_type_str :: "problem_type \<Rightarrow> string" where
  "problem_type_str k = (case k of
      AccountDoesNotExist \<Rightarrow> ''accountDoesNotExist''
    | AlreadyRevoked \<Rightarrow> ''alreadyRevoked''
    | BadCsr \<Rightarrow> ''badCSR''
    | BadNonce \<Rightarrow> ''badNonce''
    | BadPublicKey \<Rightarrow> ''badPublicKey''
    | BadRevocationReason \<Rightarrow> ''badRevocationReason''
    | BadSignatureAlgorithm \<Rightarrow> ''badSignatureAlgorithm''
    | Caa \<Rightarrow> ''caa''
    | Compound \<Rightarrow> ''compound''
    | Connection \<Rightarrow> ''connection''
    | Dns_Problem \<Rightarrow> ''dns''
    | ExternalAccountRequired \<Rightarrow> ''externalAccountRequired''
    | IncorrectResponse \<Rightarrow> ''incorrectResponse''
    | InvalidContact \<Rightarrow> ''invalidContact''
    | Malformed \<Rightarrow> ''malformed''
    | OrderNotReady \<Rightarrow> ''orderNotReady''
    | RateLimited \<Rightarrow> ''rateLimited''
    | RejectedIdentifier \<Rightarrow> ''rejectedIdentifier''
    | ServerInternal \<Rightarrow> ''serverInternal''
    | Tls_Problem \<Rightarrow> ''tls''
    | Unauthorized \<Rightarrow> ''unauthorized''
    | UnsupportedContact \<Rightarrow> ''unsupportedContact''
    | UnsupportedIdentifier \<Rightarrow> ''unsupportedIdentifier''
    | UserActionRequired \<Rightarrow> ''userActionRequired'')"

definition urn :: "problem_type \<Rightarrow> string" where
  "urn k = ''urn:ietf:params:acme:error:'' @ problem_type_str k"

definition problem_type_of_urn :: "string \<Rightarrow> problem_type option" where
  "problem_type_of_urn text =
     Option.bind (strip_prefix ''urn:ietf:params:acme:error:'' text) (\<lambda>name. List.find (\<lambda>k. problem_type_str k = name) problem_types)"

record problem =
  pb_kind :: problem_type
  pb_detail :: string

definition problem_new :: "problem_type \<Rightarrow> string \<Rightarrow> problem" where
  "problem_new kind detail = \<lparr> pb_kind = kind, pb_detail = detail \<rparr>"

section \<open>Base64url\<close>

type_synonym bytes = "8 word list"

definition alphabet :: string where
  "alphabet = ''ABCDEFGHIJKLMNOPQRSTUVWXYZabcdefghijklmnopqrstuvwxyz0123456789-_''"

text \<open>A chunk of up to three bytes as one number, the first byte highest.\<close>

fun triple_of :: "nat \<Rightarrow> bytes \<Rightarrow> nat" where
  "triple_of i [] = 0"
| "triple_of i (b # bs) = unat b * 2 ^ (16 - 8 * i) + triple_of (Suc i) bs"

definition encode_chunk :: "bytes \<Rightarrow> string" where
  "encode_chunk chunk =
     map (\<lambda>i. alphabet ! (triple_of 0 chunk div 2 ^ (18 - 6 * i) mod 64)) [0 ..< Suc (length chunk)]"

fun base64url :: "bytes \<Rightarrow> string" where
  "base64url [] = []"
| "base64url bs = encode_chunk (take 3 bs) @ base64url (drop 3 bs)"

definition sextet :: "char \<Rightarrow> nat option" where
  "sextet c =
     (if is_ascii_upper c then Some (byte c - 65)
      else if is_ascii_lower c then Some (byte c - 97 + 26)
      else if is_ascii_digit c then Some (byte c - 48 + 52)
      else if c = CHR ''-'' then Some 62
      else if c = CHR ''_'' then Some 63
      else None)"

fun decode_from :: "nat \<Rightarrow> nat \<Rightarrow> string \<Rightarrow> bytes option" where
  "decode_from buffer bits [] = (if bits < 6 \<and> buffer mod 2 ^ bits = 0 then Some [] else None)"
| "decode_from buffer bits (c # cs) =
     (case sextet c of
        None \<Rightarrow> None
      | Some value \<Rightarrow>
          (let buffer = (buffer * 64 + value) mod 65536; bits = bits + 6
           in if bits \<ge> 8 then map_option (Cons (of_nat (buffer div 2 ^ (bits - 8)))) (decode_from buffer (bits - 8) cs)
              else decode_from buffer bits cs))"

definition from_base64url :: "string \<Rightarrow> bytes option" where
  "from_base64url text = decode_from 0 0 text"

section \<open>Nonces\<close>

record nonce_state =
  nc_live :: "string set"
  nc_issued :: "string list"

definition nonces_new :: nonce_state where
  "nonces_new = \<lparr> nc_live = {}, nc_issued = [] \<rparr>"

fun forget_oldest :: "nat \<Rightarrow> string list \<Rightarrow> string set \<Rightarrow> string list \<times> string set" where
  "forget_oldest capacity [] live = ([], live)"
| "forget_oldest capacity (oldest # rest) live =
     (if length (oldest # rest) \<ge> capacity then forget_oldest capacity rest (live - {oldest}) else (oldest # rest, live))"

text \<open>\<open>nonce\<close> is the text of the random bytes.\<close>

definition nonce_issue :: "nat \<Rightarrow> string \<Rightarrow> nonce_state \<Rightarrow> nonce_state" where
  "nonce_issue capacity nonce st =
     (case forget_oldest capacity (nc_issued st) (nc_live st) of
        (issued, live) \<Rightarrow> \<lparr> nc_live = insert nonce live, nc_issued = issued @ [nonce] \<rparr>)"

definition nonce_redeem :: "string \<Rightarrow> nonce_state \<Rightarrow> bool \<times> nonce_state" where
  "nonce_redeem nonce st = (nonce \<in> nc_live st, st\<lparr> nc_live := nc_live st - {nonce} \<rparr>)"

section \<open>Serial numbers and hosts\<close>

text \<open>Digits with the lowest first: times sixteen plus a carry, then the carry's own digits.\<close>

fun times_16 :: "nat list \<Rightarrow> nat \<Rightarrow> nat list \<times> nat" where
  "times_16 [] carry = ([], carry)"
| "times_16 (d # ds) carry =
     (let value = d * 16 + carry; (ds', carry') = times_16 ds (value div 10) in (value mod 10 # ds', carry'))"

fun carry_digits :: "nat \<Rightarrow> nat list" where
  "carry_digits carry = (if carry > 0 then carry mod 10 # carry_digits (carry div 10) else [])"

declare carry_digits.simps [simp del]

definition push_nibble :: "nat list \<Rightarrow> nat \<Rightarrow> nat list" where
  "push_nibble digits nibble = (case times_16 digits nibble of (ds, carry) \<Rightarrow> ds @ carry_digits carry)"

function drop_high_zeros :: "nat list \<Rightarrow> nat list" where
  "drop_high_zeros ds = (if length ds > 1 \<and> last ds = 0 then drop_high_zeros (butlast ds) else ds)"
  by pat_completeness auto
termination by (relation "measure length") auto

declare drop_high_zeros.simps [simp del]

definition decimal :: "string \<Rightarrow> string" where
  "decimal hex =
     (let digits = drop_high_zeros (foldl push_nibble [0] (List.map_filter (to_digit 16) hex))
      in map (\<lambda>d. char_of (48 + d)) (rev digits))"

definition host_within :: "string \<Rightarrow> string list \<Rightarrow> bool" where
  "host_within host domains =
     (let host = to_ascii_lowercase (trim_end_matches CHR ''.'' host)
      in parse_ip host = None
         \<and> list_ex (\<lambda>domain. let domain = to_ascii_lowercase domain in host = domain \<or> ends_with (''.'' @ domain) host) domains)"

section \<open>Base64url both ways\<close>

lemma alphabet_ranges: "alphabet = map char_of ([65 ..< 91] @ [97 ..< 123] @ [48 ..< (58 :: nat)]) @ ''-_''"
  by code_simp

lemma alphabet_nth:
  "v < 26 \<Longrightarrow> alphabet ! v = char_of (v + 65)"
  "26 \<le> v \<Longrightarrow> v < 52 \<Longrightarrow> alphabet ! v = char_of (v - 26 + 97)"
  "52 \<le> v \<Longrightarrow> v < 62 \<Longrightarrow> alphabet ! v = char_of (v - 52 + 48)"
  "alphabet ! 62 = CHR ''-''" "alphabet ! 63 = CHR ''_''"
  by (auto simp: alphabet_ranges nth_append add.commute simp del: upt_rec_numeral)

lemma sextet_alphabet:
  assumes "v < 64"
  shows "sextet (alphabet ! v) = Some v"
proof -
  consider "v < 26" | "26 \<le> v" "v < 52" | "52 \<le> v" "v < 62" | "v = 62" | "v = 63" using assms by linarith
  then show ?thesis
    by cases (auto simp: alphabet_nth sextet_def is_ascii_upper_def is_ascii_lower_def is_ascii_digit_def byte_def)
qed

lemma alphabet_sextet:
  assumes "sextet c = Some v"
  shows "v < 64 \<and> alphabet ! v = c"
proof -
  have c: "char_of (byte c) = c" by (simp add: byte_def)
  consider "65 \<le> byte c" "byte c \<le> 90" "v = byte c - 65" | "97 \<le> byte c" "byte c \<le> 122" "v = byte c - 97 + 26"
    | "48 \<le> byte c" "byte c \<le> 57" "v = byte c - 48 + 52" | "c = CHR ''-''" "v = 62" | "c = CHR ''_''" "v = 63"
    using assms by (auto simp: sextet_def is_ascii_upper_def is_ascii_lower_def is_ascii_digit_def split: if_splits)
  then show ?thesis
    by cases (use c alphabet_nth in \<open>auto simp del: char_of_eq_iff\<close>)
qed

text \<open>The bytes of two, three and four characters, and the characters of one, two and three bytes.\<close>

definition byte_1 :: "nat \<Rightarrow> nat \<Rightarrow> 8 word" where "byte_1 v w = of_nat (v * 4 + w div 16)"
definition byte_2 :: "nat \<Rightarrow> nat \<Rightarrow> 8 word" where "byte_2 v w = of_nat (v mod 16 * 16 + w div 4)"
definition byte_3 :: "nat \<Rightarrow> nat \<Rightarrow> 8 word" where "byte_3 v w = of_nat (v mod 4 * 64 + w)"

lemma of_nat_byte: "(of_nat m :: 8 word) = of_nat n \<longleftrightarrow> m mod 256 = n mod 256"
  by (simp add: word_of_nat_eq_iff take_bit_eq_mod)

lemma mod_shift: "((x :: nat) mod 65536 * 64 + v) mod 65536 = (x * 64 + v) mod 65536"
  by (metis mod_add_left_eq mod_mult_left_eq)

lemma window:
  fixes y :: nat
  shows "y mod 65536 div 16 mod 256 = y div 16 mod 256" "y mod 65536 div 4 mod 256 = y div 4 mod 256"
    "y mod 65536 mod 256 = y mod 256" "y mod 65536 mod 16 = y mod 16" "y mod 65536 mod 4 = y mod 4"
proof -
  have "y mod 65536 div 16 = y div 16 mod 4096" using mod_mult2_eq [of y 16 4096] by simp
  then show "y mod 65536 div 16 mod 256 = y div 16 mod 256" by (simp add: mod_mod_cancel)
  have "y mod 65536 div 4 = y div 4 mod 16384" using mod_mult2_eq [of y 4 16384] by simp
  then show "y mod 65536 div 4 mod 256 = y div 4 mod 256" by (simp add: mod_mod_cancel)
qed (simp_all add: mod_mod_cancel)

lemma shifted:
  fixes x v :: nat
  shows "(x * 64 + v) div 16 = x * 4 + v div 16" "(x * 64 + v) div 4 = x * 16 + v div 4"
proof -
  have "x * 64 + v = v + x * 4 * 16" "x * 64 + v = v + x * 16 * 4" by simp_all
  then show "(x * 64 + v) div 16 = x * 4 + v div 16" "(x * 64 + v) div 4 = x * 16 + v div 4"
    by (metis add.commute div_mult_self1 zero_neq_numeral)+
qed

lemma decode_two:
  assumes "sextet c = Some v" "sextet d = Some w"
  shows "decode_from buf 0 (c # d # cs) = map_option (Cons (byte_1 v w)) (decode_from (((buf * 64 + v) * 64 + w) mod 65536) 4 cs)"
proof -
  define y where "y = (buf * 64 + v) * 64 + w"
  have step: "((buf * 64 + v) mod 65536 * 64 + w) mod 65536 = y mod 65536" by (simp only: y_def mod_shift)
  have "(buf * 64 + v) * 4 + w div 16 = v * 4 + w div 16 + buf * 256" by simp
  then have "y div 16 mod 256 = (v * 4 + w div 16) mod 256" unfolding y_def shifted by (metis mod_mult_self1)
  then have "(of_nat (y mod 65536 div 16) :: 8 word) = byte_1 v w" by (simp only: byte_1_def of_nat_byte window)
  then show ?thesis using assms unfolding y_def [symmetric] by (simp add: Let_def step)
qed

lemma decode_third:
  assumes "sextet e = Some w"
  shows "decode_from buf 4 (e # cs) = map_option (Cons (byte_2 buf w)) (decode_from ((buf * 64 + w) mod 65536) 2 cs)"
proof -
  define y where "y = buf * 64 + w"
  have "buf * 16 + w div 4 = buf mod 16 * 16 + w div 4 + buf div 16 * 256"
    using div_mult_mod_eq [of buf 16] by linarith
  then have "y div 4 mod 256 = (buf mod 16 * 16 + w div 4) mod 256" unfolding y_def shifted by (metis mod_mult_self1)
  then have "(of_nat (y mod 65536 div 4) :: 8 word) = byte_2 buf w" by (simp only: byte_2_def of_nat_byte window)
  then show ?thesis using assms by (simp add: Let_def flip: y_def)
qed

lemma decode_fourth:
  assumes "sextet f = Some w"
  shows "decode_from buf 2 (f # cs) = map_option (Cons (byte_3 buf w)) (decode_from ((buf * 64 + w) mod 65536) 0 cs)"
proof -
  define y where "y = buf * 64 + w"
  have "buf * 64 + w = buf mod 4 * 64 + w + buf div 4 * 256"
    using div_mult_mod_eq [of buf 4] by linarith
  then have "y mod 256 = (buf mod 4 * 64 + w) mod 256" unfolding y_def by (metis mod_mult_self1)
  then have "(of_nat (y mod 65536) :: 8 word) = byte_3 buf w" by (simp only: byte_3_def of_nat_byte window)
  then show ?thesis using assms by (simp add: Let_def flip: y_def)
qed

lemma byte_low: "byte_2 ((x * 64 + v) mod 65536) w = byte_2 v w" "byte_3 ((x * 64 + v) mod 65536) w = byte_3 v w"
proof -
  have "(x * 64 + v) mod 65536 mod 16 = v mod 16" "(x * 64 + v) mod 65536 mod 4 = v mod 4"
    unfolding window using mod_mult_self3 [of "x * 4" 16 v] mod_mult_self3 [of "x * 16" 4 v] by (simp_all add: mult.assoc)
  then show "byte_2 ((x * 64 + v) mod 65536) w = byte_2 v w" "byte_3 ((x * 64 + v) mod 65536) w = byte_3 v w"
    by (simp_all add: byte_2_def byte_3_def)
qed

text \<open>Text in blocks of four.\<close>

fun by_four :: "string \<Rightarrow> nat" where
  "by_four (c # d # e # f # cs) = Suc (by_four cs)"
| "by_four cs = 0"

lemma decode_four:
  assumes "sextet c = Some v" "sextet d = Some w" "sextet e = Some x" "sextet f = Some y"
  shows "\<exists>buf'. decode_from buf 0 (c # d # e # f # cs) =
    map_option (\<lambda>bs. byte_1 v w # byte_2 w x # byte_3 x y # bs) (decode_from buf' 0 cs)"
  unfolding decode_two [OF assms(1,2)] decode_third [OF assms(3)] decode_fourth [OF assms(4)] byte_low option.map_comp comp_def
  by blast

lemma decode_bad: "sextet c = None \<Longrightarrow> decode_from buf bits (cs @ c # ds) = None"
  by (induction cs arbitrary: buf bits) (simp_all add: Let_def split: option.split)

lemma quotient: "n = q * m + r \<Longrightarrow> r < m \<Longrightarrow> n div m = q" for n q m r :: nat
  by simp

lemma remainder: "n = q * m + r \<Longrightarrow> r < m \<Longrightarrow> n mod m = r" for n q m r :: nat
  by simp

lemma sextets_split:
  fixes p q r s t u :: nat
  assumes "p < 64" "q < 4" "r < 16" "s < 16" "t < 4" "u < 64"
  defines "n \<equiv> (p * 4 + q) * 65536 + (r * 16 + s) * 256 + (t * 64 + u)"
  shows "n div 262144 mod 64 = p" "n div 4096 mod 64 = q * 16 + r" "n div 64 mod 64 = s * 4 + t" "n mod 64 = u"
proof -
  have "n div 262144 = p"
    by (rule quotient [where r = "q * 65536 + (r * 16 + s) * 256 + (t * 64 + u)"]) (use assms(1-6) in \<open>simp_all add: n_def\<close>)
  then show "n div 262144 mod 64 = p" using assms by simp
  have "n div 4096 = p * 64 + (q * 16 + r)"
    by (rule quotient [where r = "s * 256 + (t * 64 + u)"]) (use assms(1-6) in \<open>simp_all add: n_def\<close>)
  then show "n div 4096 mod 64 = q * 16 + r" using assms by simp
  have "n div 64 = (p * 64 + q * 16 + r) * 64 + (s * 4 + t)"
    by (rule quotient [where r = u]) (use assms(1-6) in \<open>simp_all add: n_def\<close>)
  then show "n div 64 mod 64 = s * 4 + t"
    by (rule remainder) (use assms(5,4) in simp)
  show "n mod 64 = u"
    by (rule remainder [where q = "((p * 64 + q * 16 + r) * 64 + (s * 4 + t))"]) (use assms(1-6) in \<open>simp_all add: n_def\<close>)
qed

text \<open>A byte by its highest bits and the rest.\<close>

lemma byte_split:
  fixes a :: "8 word"
  assumes "m \<in> {4, 16, 64}"
  shows "\<exists>x y. unat a = x * m + y \<and> y < m \<and> x * m < 256"
proof (intro exI conjI)
  show "unat a = unat a div m * m + unat a mod m" by simp
  show "unat a mod m < m" using assms by auto
  have "unat a < 256" using unsigned_less [of a] by simp
  then show "unat a div m * m < 256" by (rule le_less_trans [OF div_times_less_eq_dividend])
qed

lemma base64url_blocks:
  assumes "unat a = p * 4 + q" "p < 64" "q < 4" "unat b = r * 16 + s" "r < 16" "s < 16" "unat c = t * 64 + u" "t < 4" "u < 64"
  shows "base64url (a # b # c # bs) =
      alphabet ! p # alphabet ! (q * 16 + r) # alphabet ! (s * 4 + t) # alphabet ! u # base64url bs"
    "base64url [a, b] = [alphabet ! p, alphabet ! (q * 16 + r), alphabet ! (s * 4)]"
    "base64url [a] = [alphabet ! p, alphabet ! (q * 16)]"
proof -
  note s = sextets_split [OF assms(2,3,5,6,8,9)] sextets_split [OF assms(2,3,5,6), of 0 0] sextets_split [OF assms(2,3), of 0 0 0 0]
  show "base64url (a # b # c # bs) =
      alphabet ! p # alphabet ! (q * 16 + r) # alphabet ! (s * 4 + t) # alphabet ! u # base64url bs"
    using s(1-4) assms(1,4,7) by (simp add: encode_chunk_def numeral_3_eq_3 add.assoc)
  show "base64url [a, b] = [alphabet ! p, alphabet ! (q * 16 + r), alphabet ! (s * 4)]"
    using s(5-7) assms(1,4) by (simp add: encode_chunk_def)
  show "base64url [a] = [alphabet ! p, alphabet ! (q * 16)]"
    using s(9,10) assms(1) by (simp add: encode_chunk_def)
qed

lemma bytes_back:
  "r < 16 \<Longrightarrow> byte_1 p (q * 16 + r) = of_nat (p * 4 + q)"
  "r < 16 \<Longrightarrow> t < 4 \<Longrightarrow> byte_2 (q * 16 + r) (s * 4 + t) = of_nat (r * 16 + s)"
  "t < 4 \<Longrightarrow> byte_3 (s * 4 + t) u = of_nat (t * 64 + u)"
  by (simp_all add: byte_1_def byte_2_def byte_3_def)

lemma tail_bits: "(x * 64 + q * 16) mod 65536 mod 16 = 0" "(x * 64 + s * 4) mod 65536 mod 4 = 0" for x q s :: nat
proof -
  have "x * 64 + q * 16 = (x * 4 + q) * 16" "x * 64 + s * 4 = (x * 16 + s) * 4" by simp_all
  then show "(x * 64 + q * 16) mod 65536 mod 16 = 0" "(x * 64 + s * 4) mod 65536 mod 4 = 0"
    unfolding window by (metis mod_mult_self2_is_0)+
qed

lemma decode_encoded: "decode_from buf 0 (base64url bs) = Some bs"
proof (induction bs arbitrary: buf rule: length_induct)
  case (1 bs)
  obtain a0 b0 c0 bs0 where shape: "bs = [] \<or> bs = [a0] \<or> bs = [a0, b0] \<or> bs = a0 # b0 # c0 # bs0"
    by (metis neq_Nil_conv)
  obtain p q where a: "unat a0 = p * 4 + q" "q < 4" "p * 4 < 256" using byte_split [of 4 a0] by auto
  obtain r s where b: "unat b0 = r * 16 + s" "s < 16" "r * 16 < 256" using byte_split [of 16 b0] by auto
  obtain t u where c: "unat c0 = t * 64 + u" "u < 64" "t * 64 < 256" using byte_split [of 64 c0] by auto
  have small: "p < 64" "r < 16" "t < 4" using a(3) b(3) c(3) by simp_all
  note blocks = base64url_blocks [OF a(1) small(1) a(2) b(1) small(2) b(2) c(1) small(3) c(2)]
  have s: "sextet (alphabet ! p) = Some p" "sextet (alphabet ! (q * 16 + r)) = Some (q * 16 + r)"
    "sextet (alphabet ! (s * 4 + t)) = Some (s * 4 + t)" "sextet (alphabet ! u) = Some u"
    "sextet (alphabet ! (q * 16)) = Some (q * 16)" "sextet (alphabet ! (s * 4)) = Some (s * 4)"
    using small a(2) b(2) c(2) by (simp_all add: sextet_alphabet)
  have restored: "byte_1 p (q * 16 + r) = a0" "byte_2 (q * 16 + r) (s * 4 + t) = b0" "byte_3 (s * 4 + t) u = c0"
    "byte_1 p (q * 16) = a0" "byte_2 (q * 16 + r) (s * 4) = b0"
    using bytes_back(1) [OF small(2), of p q] bytes_back(2) [OF small(2,3), of q s] bytes_back(3) [OF small(3), of s u]
      bytes_back(1) [of 0 p q] bytes_back(2) [OF small(2), of 0 q s] a(1) [symmetric] b(1) [symmetric] c(1) [symmetric]
    by (simp_all del: of_nat_add of_nat_mult)
  from shape show ?case
  proof (elim disjE)
    assume "bs = []"
    then show ?thesis by simp
  next
    assume bs: "bs = [a0]"
    then show ?thesis
      unfolding bs blocks decode_two [OF s(1,5)] restored using tail_bits(1) [of "buf * 64 + p" q] by simp
  next
    assume bs: "bs = [a0, b0]"
    then show ?thesis
      unfolding bs blocks decode_two [OF s(1,2)] decode_third [OF s(6)] byte_low restored by (simp add: tail_bits)
  next
    assume bs: "bs = a0 # b0 # c0 # bs0"
    then have "decode_from buf' 0 (base64url bs0) = Some bs0" for buf' using "1.IH" by simp
    then show ?thesis
      unfolding bs blocks using decode_four [OF s(1-4), of buf "base64url bs0"] restored by auto
  qed
qed

text \<open>The other way: text that decodes is the text of its bytes.\<close>

lemma byte_values:
  assumes "v < 64" "w < 64" "x < 64" "y < 64"
  shows "unat (byte_1 v w) = v * 4 + w div 16" "unat (byte_2 w x) = w mod 16 * 16 + x div 4" "unat (byte_3 x y) = x mod 4 * 64 + y"
proof -
  have less: "v * 4 + w div 16 < 256" "w mod 16 * 16 + x div 4 < 256" "x mod 4 * 64 + y < 256"
    using assms mod_less_divisor [of 16 w] mod_less_divisor [of 4 x] by linarith+
  have "unat (of_nat n :: 8 word) = n" if "n < 256" for n
    using that by (simp add: unsigned_of_nat take_bit_eq_mod)
  then show "unat (byte_1 v w) = v * 4 + w div 16" "unat (byte_2 w x) = w mod 16 * 16 + x div 4"
    "unat (byte_3 x y) = x mod 4 * 64 + y"
    using less unfolding byte_1_def byte_2_def byte_3_def by blast+
qed

lemma low_bits: "(x * 64 + v) mod 65536 mod 16 = v mod 16" "(x * 64 + v) mod 65536 mod 4 = v mod 4" for x v :: nat
  unfolding window using mod_mult_self3 [of "x * 4" 16 v] mod_mult_self3 [of "x * 16" 4 v] by (simp_all add: mult.assoc)

lemma blocks_back:
  assumes "v < 64" "w < 64" "x < 64" "y < 64"
  shows "base64url (byte_1 v w # byte_2 w x # byte_3 x y # bs) = alphabet ! v # alphabet ! w # alphabet ! x # alphabet ! y # base64url bs"
    "x mod 4 = 0 \<Longrightarrow> base64url [byte_1 v w, byte_2 w x] = [alphabet ! v, alphabet ! w, alphabet ! x]"
    "w mod 16 = 0 \<Longrightarrow> base64url [byte_1 v w] = [alphabet ! v, alphabet ! w]"
proof -
  have "w div 16 < 4" "w mod 16 < 16" "x div 4 < 16" "x mod 4 < 4" using assms by simp_all
  note blocks = base64url_blocks [OF byte_values(1) [OF assms] assms(1) this(1) byte_values(2) [OF assms] this(2,3)
      byte_values(3) [OF assms] this(4) assms(4)]
  show "base64url (byte_1 v w # byte_2 w x # byte_3 x y # bs) = alphabet ! v # alphabet ! w # alphabet ! x # alphabet ! y # base64url bs"
    unfolding blocks by simp
  show "base64url [byte_1 v w, byte_2 w x] = [alphabet ! v, alphabet ! w, alphabet ! x]" if "x mod 4 = 0"
    unfolding blocks using that div_mult_mod_eq [of x 4] by simp
  show "base64url [byte_1 v w] = [alphabet ! v, alphabet ! w]" if "w mod 16 = 0"
    unfolding blocks using that div_mult_mod_eq [of w 16] by simp
qed

lemma encode_decoded: "decode_from buf 0 cs = Some bs \<Longrightarrow> base64url bs = cs"
proof (induction cs arbitrary: buf bs rule: length_induct)
  case (1 cs)
  have step: "\<exists>v. sextet c = Some v \<and> v < 64 \<and> alphabet ! v = c" if mem: "c \<in> set cs" for c
  proof (cases "sextet c")
    case None
    obtain ys zs where "cs = ys @ c # zs" using split_list [OF mem] by blast
    then show ?thesis using decode_bad [OF None, of buf 0 ys zs] 1(2) by simp
  qed (use alphabet_sextet in blast)
  obtain c d e f cs' where shape: "cs = [] \<or> cs = [c] \<or> cs = [c, d] \<or> cs = [c, d, e] \<or> cs = c # d # e # f # cs'"
    by (cases cs rule: by_four.cases) blast+
  from shape show ?case
  proof (elim disjE)
    assume "cs = []"
    then show ?thesis using 1(2) by (simp split: if_splits)
  next
    assume "cs = [c]"
    then show ?thesis using 1(2) step by (auto simp: Let_def)
  next
    assume cs: "cs = [c, d]"
    obtain v w where s: "sextet c = Some v" "sextet d = Some w" "v < 64" "w < 64" "alphabet ! v = c" "alphabet ! w = d"
      using step [of c] step [of d] cs by auto
    define x where "x = ((buf * 64 + v) * 64 + w) mod 65536"
    have "x mod 16 = w mod 16" unfolding x_def by (rule low_bits)
    then have "bs = [byte_1 v w] \<and> w mod 16 = 0"
      using 1(2) unfolding cs decode_two [OF s(1,2)] x_def [symmetric] by (simp split: if_splits)
    then show ?thesis using blocks_back(3) [OF s(3,4), of 0 0] cs s(5,6) by simp
  next
    assume cs: "cs = [c, d, e]"
    obtain v w x where s: "sextet c = Some v" "sextet d = Some w" "sextet e = Some x" "v < 64" "w < 64" "x < 64"
      "alphabet ! v = c" "alphabet ! w = d" "alphabet ! x = e"
      using step [of c] step [of d] step [of e] cs by auto
    define y where "y = (((buf * 64 + v) * 64 + w) mod 65536 * 64 + x) mod 65536"
    have "y mod 4 = x mod 4" unfolding y_def by (rule low_bits)
    then have "bs = [byte_1 v w, byte_2 w x] \<and> x mod 4 = 0"
      using 1(2) unfolding cs decode_two [OF s(1,2)] decode_third [OF s(3)] byte_low y_def [symmetric] by (simp split: if_splits)
    then show ?thesis using blocks_back(2) [OF s(4-6), of 0] cs s(7-9) by simp
  next
    assume cs: "cs = c # d # e # f # cs'"
    obtain v w x y where s: "sextet c = Some v" "sextet d = Some w" "sextet e = Some x" "sextet f = Some y"
      "v < 64" "w < 64" "x < 64" "y < 64" "alphabet ! v = c" "alphabet ! w = d" "alphabet ! x = e" "alphabet ! y = f"
      using step [of c] step [of d] step [of e] step [of f] cs by auto
    obtain buf' bs' where "decode_from buf' 0 cs' = Some bs'" "bs = byte_1 v w # byte_2 w x # byte_3 x y # bs'"
      using decode_four [OF s(1-4), of buf cs'] 1(2) unfolding cs by (metis (no_types, lifting) map_option_eq_Some)
    moreover from this(1) have "base64url bs' = cs'" using "1.IH" cs by simp
    ultimately show ?thesis using blocks_back(1) [OF s(5-8)] cs s(9-12) by simp
  qed
qed

interpretation base64_text: codec base64url from_base64url
  by unfold_locales (simp add: from_base64url_def decode_encoded)

text \<open>
  C29: base64url is a faithful encoding: decoding the text of any bytes gives them back, and text that
  decodes at all is the one text of its bytes, so padding, other alphabets and stray trailing bits are
  refused and no two texts name the same bytes.
\<close>

theorem base64url_exact: "from_base64url text = Some bs \<longleftrightarrow> text = base64url bs"
  using base64_text.dec_enc encode_decoded [of 0] by (auto simp: from_base64url_def)

section \<open>Nonces are used once\<close>

text \<open>Any interleaving of issuing and redeeming; the answers of the redemptions of one nonce.\<close>

datatype nonce_call = Issue string | Redeem string

fun nonce_step :: "nat \<Rightarrow> nonce_call \<Rightarrow> nonce_state \<Rightarrow> bool \<times> nonce_state" where
  "nonce_step capacity (Issue n) st = (False, nonce_issue capacity n st)"
| "nonce_step capacity (Redeem n) st = nonce_redeem n st"

fun nonce_run :: "nat \<Rightarrow> nonce_call list \<Rightarrow> nonce_state \<Rightarrow> bool list \<times> nonce_state" where
  "nonce_run capacity [] st = ([], st)"
| "nonce_run capacity (c # cs) st =
     (case nonce_step capacity c st of (b, st') \<Rightarrow> case nonce_run capacity cs st' of (bs, st'') \<Rightarrow> (b # bs, st''))"

definition redeemed :: "string \<Rightarrow> nonce_call list \<Rightarrow> bool list \<Rightarrow> nat" where
  "redeemed n cs bs = length (filter (\<lambda>(c, b). c = Redeem n \<and> b) (zip cs bs))"

definition nonces_ok :: "nat \<Rightarrow> nonce_state \<Rightarrow> bool" where
  "nonces_ok capacity st \<longleftrightarrow> nc_live st \<subseteq> set (nc_issued st) \<and> length (nc_issued st) \<le> max 1 capacity"

lemma forget_oldest_live:
  "forget_oldest capacity issued live = (issued', live') \<Longrightarrow> live' \<subseteq> live
     \<and> length issued' \<le> length issued \<and> (issued' \<noteq> [] \<longrightarrow> length issued' < capacity)
     \<and> (live \<subseteq> set issued \<longrightarrow> live' \<subseteq> set issued')"
proof (induction capacity issued live arbitrary: issued' live' rule: forget_oldest.induct)
  case (2 capacity oldest rest live)
  show ?case
  proof (cases "length (oldest # rest) \<ge> capacity")
    case True
    then have rec: "forget_oldest capacity rest (live - {oldest}) = (issued', live')" using 2(2) by simp
    from 2(1) [OF True rec] show ?thesis by auto
  next
    case False
    then show ?thesis using 2(2) by auto
  qed
qed simp

lemma nonces_ok_step: "nonces_ok capacity st \<Longrightarrow> nonces_ok capacity (snd (nonce_step capacity c st))"
proof (cases c)
  case (Issue n)
  assume ok: "nonces_ok capacity st"
  obtain issued live where f: "forget_oldest capacity (nc_issued st) (nc_live st) = (issued, live)" by fastforce
  show ?thesis
    using forget_oldest_live [OF f] ok by (auto simp: Issue nonce_issue_def f nonces_ok_def)
qed (auto simp: nonce_redeem_def nonces_ok_def)

lemma live_step:
  "n \<in> nc_live (snd (nonce_step capacity c st)) \<Longrightarrow> c = Issue n \<or> n \<in> nc_live st \<and> c \<noteq> Redeem n"
proof (cases c)
  case (Issue m)
  assume n: "n \<in> nc_live (snd (nonce_step capacity c st))"
  obtain issued live where f: "forget_oldest capacity (nc_issued st) (nc_live st) = (issued, live)" by fastforce
  show ?thesis using forget_oldest_live [OF f] n by (auto simp: Issue nonce_issue_def f)
qed (auto simp: nonce_redeem_def)

lemma redeemed_bound:
  "nonce_run capacity cs st = (bs, st') \<Longrightarrow>
     redeemed n cs bs \<le> count_list cs (Issue n) + (if n \<in> nc_live st then 1 else 0)"
proof (induction cs arbitrary: st bs)
  case Nil
  then show ?case by (simp add: redeemed_def)
next
  case (Cons c cs)
  obtain b st1 bs' where step: "nonce_step capacity c st = (b, st1)" and rest: "nonce_run capacity cs st1 = (bs', st')"
    and bs: "bs = b # bs'"
    using Cons.prems by (auto split: prod.splits)
  have ih: "redeemed n cs bs' \<le> count_list cs (Issue n) + (if n \<in> nc_live st1 then 1 else 0)" by (rule Cons.IH [OF rest])
  have live: "n \<in> nc_live st1 \<Longrightarrow> c = Issue n \<or> n \<in> nc_live st \<and> c \<noteq> Redeem n" using live_step [of n capacity c st] step by simp
  have hit: "c = Redeem n \<Longrightarrow> b \<Longrightarrow> n \<in> nc_live st" using step by (simp add: nonce_redeem_def)
  show ?case using ih live hit by (auto simp: redeemed_def bs split: if_splits)
qed

text \<open>
  C30: a replay nonce works once: over any sequence of issuing and redeeming, a nonce is accepted at most
  as often as it was issued, and the server never keeps more than the capacity (at least one) of them.
\<close>

theorem nonces_used_once:
  assumes "nonce_run capacity cs nonces_new = (bs, st)"
  shows "redeemed n cs bs \<le> count_list cs (Issue n) \<and> card (nc_live st) \<le> max 1 capacity"
proof -
  have "nonces_ok capacity st'" if "nonce_run capacity cs st0 = (bs, st')" "nonces_ok capacity st0" for cs st0 bs st'
    using that
  proof (induction cs arbitrary: st0 bs)
    case (Cons c cs)
    then show ?case using nonces_ok_step [of capacity st0 c] by (auto split: prod.splits)
  qed simp
  then have "nonces_ok capacity st" using assms by (simp add: nonces_ok_def nonces_new_def)
  then have "card (nc_live st) \<le> length (nc_issued st)" "length (nc_issued st) \<le> max 1 capacity"
    using card_mono [of "set (nc_issued st)" "nc_live st"] card_length [of "nc_issued st"] by (auto simp: nonces_ok_def)
  moreover have "n \<notin> nc_live nonces_new" by (simp add: nonces_new_def)
  ultimately show ?thesis using redeemed_bound [OF assms, of n] by simp
qed

theorem nonces_used_once_witness:
  "\<exists>bs st. nonce_run 2 [Issue ''a'', Redeem ''a'', Redeem ''a''] nonces_new = (bs, st)
     \<and> redeemed ''a'' [Issue ''a'', Redeem ''a'', Redeem ''a''] bs \<le> 1 \<and> card (nc_live st) \<le> 2"
proof -
  obtain bs st where run: "nonce_run 2 [Issue ''a'', Redeem ''a'', Redeem ''a''] nonces_new = (bs, st)" by fastforce
  show ?thesis using nonces_used_once [OF run, of "''a''"] run by auto
qed

section \<open>Serial numbers in decimal\<close>

text \<open>The number of a list of digits, lowest first.\<close>

fun lsb_val :: "nat list \<Rightarrow> nat" where
  "lsb_val [] = 0"
| "lsb_val (d # ds) = d + 10 * lsb_val ds"

abbreviation digits_ok :: "nat list \<Rightarrow> bool" where
  "digits_ok ds \<equiv> list_all (\<lambda>d. d < 10) ds"

lemma lsb_val_append: "lsb_val (xs @ ys) = lsb_val xs + 10 ^ length xs * lsb_val ys"
  by (induction xs) (simp_all add: algebra_simps)

lemma times_16_val:
  "times_16 ds carry = (ds', carry') \<Longrightarrow> length ds' = length ds \<and> digits_ok ds'
     \<and> lsb_val ds' + 10 ^ length ds * carry' = 16 * lsb_val ds + carry"
proof (induction ds arbitrary: carry ds' carry')
  case (Cons d ds)
  define v where "v = d * 16 + carry"
  obtain e where e: "times_16 ds (v div 10) = (e, carry')" and ds': "ds' = v mod 10 # e"
    using Cons.prems by (auto simp: v_def Let_def split: prod.splits)
  have ih: "length e = length ds" "digits_ok e" "lsb_val e + 10 ^ length ds * carry' = 16 * lsb_val ds + v div 10"
    using Cons.IH [OF e] by simp_all
  have "lsb_val ds' + 10 ^ length (d # ds) * carry' = v mod 10 + 10 * (lsb_val e + 10 ^ length ds * carry')"
    by (simp add: ds')
  also have "\<dots> = 16 * lsb_val (d # ds) + carry" unfolding ih(3) by (simp add: v_def algebra_simps)
  finally show ?case using ih by (simp add: ds')
qed simp

lemma carry_digits_val: "digits_ok (carry_digits c) \<and> lsb_val (carry_digits c) = c"
proof (induction c rule: carry_digits.induct)
  case (1 c)
  then show ?case by (cases "c > 0") (simp_all add: carry_digits.simps [of c] carry_digits.simps [of 0])
qed

lemma push_nibble_val:
  assumes "digits_ok ds" "ds \<noteq> []"
  shows "digits_ok (push_nibble ds n) \<and> push_nibble ds n \<noteq> [] \<and> lsb_val (push_nibble ds n) = 16 * lsb_val ds + n"
proof -
  obtain ds' c where t: "times_16 ds n = (ds', c)" by fastforce
  show ?thesis using times_16_val [OF t] carry_digits_val [of c] assms by (auto simp: push_nibble_def t lsb_val_append)
qed

lemma drop_high_zeros_val:
  assumes "digits_ok ds" "ds \<noteq> []"
  shows "digits_ok (drop_high_zeros ds) \<and> drop_high_zeros ds \<noteq> [] \<and> lsb_val (drop_high_zeros ds) = lsb_val ds
    \<and> (1 < length (drop_high_zeros ds) \<longrightarrow> last (drop_high_zeros ds) \<noteq> 0)"
  using assms
proof (induction ds rule: drop_high_zeros.induct)
  case (1 ds)
  show ?case
  proof (cases "length ds > 1 \<and> last ds = 0")
    case True
    then have ds: "ds = butlast ds @ [0]" "butlast ds \<noteq> []"
      using "1.prems"(2) by (metis append_butlast_last_id, auto simp flip: length_greater_0_conv)
    have "lsb_val ds = lsb_val (butlast ds)" by (subst ds(1)) (simp add: lsb_val_append)
    moreover have "digits_ok (butlast ds)" using "1.prems"(1) by (auto simp: list_all_iff dest: in_set_butlastD)
    ultimately show ?thesis using "1.IH" [OF True] ds(2) True by (simp add: drop_high_zeros.simps [of ds])
  next
    case False
    then show ?thesis using "1.prems" by (auto simp: drop_high_zeros.simps [of ds])
  qed
qed

lemma nat_to_string_lsb:
  "digits_ok ds \<Longrightarrow> ds \<noteq> [] \<Longrightarrow> (1 < length ds \<Longrightarrow> last ds \<noteq> 0) \<Longrightarrow>
     map (\<lambda>d. char_of (48 + d)) (rev ds) = nat_to_string (lsb_val ds)"
proof (induction ds)
  case (Cons d ds)
  show ?case
  proof (cases "ds = []")
    case True
    then show ?thesis using Cons.prems(1) by (simp add: nat_to_string.simps [of d])
  next
    case False
    then have top: "last ds \<noteq> 0" using Cons.prems(3) by (cases ds) simp_all
    have "lsb_val ds > 0"
      using top False by (induction ds) (auto split: if_splits)
    then have "\<not> d + 10 * lsb_val ds < 10" "(d + 10 * lsb_val ds) div 10 = lsb_val ds" "(d + 10 * lsb_val ds) mod 10 = d"
      using Cons.prems(1) by simp_all
    then show ?thesis
      using Cons.IH Cons.prems(1) False top by (simp add: nat_to_string.simps [of "d + 10 * lsb_val ds"])
  qed
qed simp

definition hex_value :: "string \<Rightarrow> nat" where
  "hex_value hex = foldl (\<lambda>n d. 16 * n + d) 0 (List.map_filter (to_digit 16) hex)"

text \<open>
  converting a serial number digit by digit gives the decimal text of the number its hexadecimal
  digits write, whatever the length, separators skipped, with no leading zero.
\<close>

theorem decimal_is_value: "decimal hex = nat_to_string (hex_value hex)"
proof -
  have fold: "digits_ok (foldl push_nibble ds ns) \<and> foldl push_nibble ds ns \<noteq> []
      \<and> lsb_val (foldl push_nibble ds ns) = foldl (\<lambda>n d. 16 * n + d) (lsb_val ds) ns"
    if "digits_ok ds" "ds \<noteq> []" for ds ns
    using that
  proof (induction ns arbitrary: ds)
    case (Cons n ns)
    then show ?case using push_nibble_val [OF Cons.prems, of n] by simp
  qed simp
  show ?thesis
    using fold [of "[0]" "List.map_filter (to_digit 16) hex"]
      drop_high_zeros_val [of "foldl push_nibble [0] (List.map_filter (to_digit 16) hex)"] nat_to_string_lsb
    by (simp add: decimal_def hex_value_def Let_def)
qed

end
