(* ===== verification/Cert_Type.thy ===== *)
theory Cert_Type
  imports Rust_Text
begin

text \<open>
  Certificate types and key algorithms, from the head of
  \<^verbatim>\<open>crates/opca-core/src/services/cert.rs\<close>: their text forms, the defaults a type fixes, and the
  digest a signing key calls for. Reading a type lowers the case of ASCII letters; the other
  letters that \<^verbatim>\<open>to_lowercase\<close> changes occur in none of the names, so they change only the text of
  the error.
\<close>

datatype cert_type = Ca | AppleDev | CodeSigning | Device | Imported | External | VpnClient
  | VpnServer | WebServer | SubordinateCa

datatype key_algorithm = EcP256 | EcP384 | Rsa2048 | Rsa4096

text \<open>What the OpenSSL binding tells of a key.\<close>

datatype key_id = RsaKey | EcKey | DsaKey | OtherKey

record public_key =
  pk_id :: key_id
  pk_bits :: nat

datatype message_digest = Sha256 | Sha384

definition display_cert_type :: "cert_type \<Rightarrow> string" where
  "display_cert_type ct = (case ct of
      Ca \<Rightarrow> ''ca'' | AppleDev \<Rightarrow> ''appledev'' | CodeSigning \<Rightarrow> ''codesigning''
    | Device \<Rightarrow> ''device'' | Imported \<Rightarrow> ''imported'' | External \<Rightarrow> ''external''
    | VpnClient \<Rightarrow> ''vpnclient'' | VpnServer \<Rightarrow> ''vpnserver'' | WebServer \<Rightarrow> ''webserver''
    | SubordinateCa \<Rightarrow> ''subordinateca'')"

definition cert_type_from_str :: "string \<Rightarrow> cert_type res" where
  "cert_type_from_str s =
     (let l = to_ascii_lowercase s in
      if l = ''ca'' then Ok Ca
      else if l = ''appledev'' \<or> l = ''apple_dev'' then Ok AppleDev
      else if l = ''codesigning'' \<or> l = ''code_signing'' then Ok CodeSigning
      else if l = ''device'' then Ok Device
      else if l = ''imported'' then Ok Imported
      else if l = ''external'' then Ok External
      else if l = ''vpnclient'' then Ok VpnClient
      else if l = ''vpnserver'' then Ok VpnServer
      else if l = ''webserver'' then Ok WebServer
      else if l = ''subordinateca'' then Ok SubordinateCa
      else Err (InvalidCertificate (''Unknown certificate type: '' @ l)))"

definition default_key_algorithm :: "cert_type \<Rightarrow> key_algorithm" where
  "default_key_algorithm ct = (case ct of Ca \<Rightarrow> EcP384 | AppleDev \<Rightarrow> Rsa2048 | _ \<Rightarrow> EcP256)"

definition is_tls_server :: "cert_type \<Rightarrow> bool" where
  "is_tls_server ct \<longleftrightarrow> ct = WebServer \<or> ct = VpnServer"

definition apple_tls_max_days :: int where "apple_tls_max_days = 825"
definition subordinate_ca_days :: int where "subordinate_ca_days = 90"

definition default_days :: "cert_type \<Rightarrow> int \<Rightarrow> int" where
  "default_days ct configured =
     (if ct = SubordinateCa then subordinate_ca_days
      else if is_tls_server ct then min configured apple_tls_max_days
      else configured)"

definition all_algorithms :: "key_algorithm list" where
  "all_algorithms = [EcP256, EcP384, Rsa2048, Rsa4096]"

definition key_algorithm_as_str :: "key_algorithm \<Rightarrow> string" where
  "key_algorithm_as_str a = (case a of EcP256 \<Rightarrow> ''ec-p256'' | EcP384 \<Rightarrow> ''ec-p384''
      | Rsa2048 \<Rightarrow> ''rsa-2048'' | Rsa4096 \<Rightarrow> ''rsa-4096'')"

definition matching :: "public_key \<Rightarrow> key_algorithm option" where
  "matching key = (case pk_id key of
      RsaKey \<Rightarrow> if pk_bits key \<ge> 4096 then Some Rsa4096 else Some Rsa2048
    | EcKey \<Rightarrow> if pk_bits key \<ge> 384 then Some EcP384 else Some EcP256
    | _ \<Rightarrow> None)"

definition key_algorithm_from_str :: "string \<Rightarrow> key_algorithm res" where
  "key_algorithm_from_str s =
     ok_or (InvalidCertificate (''Unknown key algorithm: '' @ s
              @ '' (expected ec-p256, ec-p384, rsa-2048 or rsa-4096)''))
       (List.find (\<lambda>a. eq_ignore_ascii_case (key_algorithm_as_str a) s) all_algorithms)"

definition signing_digest :: "public_key \<Rightarrow> message_digest" where
  "signing_digest key = (if pk_id key = EcKey \<and> pk_bits key \<ge> 384 then Sha384 else Sha256)"

section \<open>Lemmas\<close>

interpretation cert_type_text: codec display_cert_type "\<lambda>s. res_ok (cert_type_from_str s)"
proof unfold_locales
  fix ct
  show "res_ok (cert_type_from_str (display_cert_type ct)) = Some ct"
    by (cases ct; hypsubst_thin; code_simp)
qed

interpretation key_algorithm_text: codec key_algorithm_as_str "\<lambda>s. res_ok (key_algorithm_from_str s)"
proof unfold_locales
  fix a
  show "res_ok (key_algorithm_from_str (key_algorithm_as_str a)) = Some a"
    by (cases a; hypsubst_thin; code_simp)
qed

lemma cert_type_roundtrip: "cert_type_from_str (display_cert_type ct) = Ok ct"
  using cert_type_text.dec_enc [of ct] by simp

lemma cert_type_case: "cert_type_from_str (to_ascii_lowercase s) = cert_type_from_str s"
  by (simp add: cert_type_from_str_def)

lemma display_cert_type_eq_iff [simp]: "display_cert_type a = display_cert_type b \<longleftrightarrow> a = b"
  by (rule cert_type_text.enc_eq_iff)

lemma default_days_cap:
  "is_tls_server ct \<Longrightarrow> default_days ct n \<le> apple_tls_max_days"
  by (auto simp: default_days_def is_tls_server_def)

end
