(* ===== verification/Datetime.thy ===== *)
theory Datetime
  imports Rust_Text
begin

text \<open>
  Times, from \<^verbatim>\<open>crates/opca-core/src/utils/datetime.rs\<close>. An instant is the number of nanoseconds
  since the epoch. Reading and printing a calendar date is the work of the \<^verbatim>\<open>chrono\<close> crate, a
  parameter of every definition that does it; the clock is an argument of the operations that read
  it. A duration of \<open>n\<close> days is exactly \<open>n * day_ns\<close>.
\<close>

record chrono =
  parse_from_str :: "string \<Rightarrow> string \<Rightarrow> string + int"
  strftime :: "string \<Rightarrow> int \<Rightarrow> string"
  parse_from_rfc3339 :: "string \<Rightarrow> int option"

datatype date_time_format = Openssl | TextFormat | Compact

definition strftime_pattern :: "date_time_format \<Rightarrow> string" where
  "strftime_pattern fmt = (case fmt of
      Openssl \<Rightarrow> ''%Y%m%d%H%M%SZ''
    | TextFormat \<Rightarrow> ''%b %d %H:%M:%S %Y UTC''
    | Compact \<Rightarrow> ''%H:%M %d %b %Y'')"

definition format_datetime :: "chrono \<Rightarrow> int \<Rightarrow> date_time_format \<Rightarrow> string" where
  "format_datetime lib dt fmt = strftime lib (strftime_pattern fmt) dt"

definition second_ns :: int where "second_ns = 10 ^ 9"
definition day_ns :: int where "day_ns = 86400 * 10 ^ 9"

text \<open>The current time plus an offset; \<open>now\<close> is the reading of the clock.\<close>

definition now_utc_plus :: "int \<Rightarrow> int \<Rightarrow> int \<Rightarrow> int \<Rightarrow> int \<Rightarrow> int" where
  "now_utc_plus now days hours minutes seconds =
     now + days * day_ns + hours * (3600 * second_ns) + minutes * (60 * second_ns)
       + seconds * second_ns"

definition parse_datetime :: "chrono \<Rightarrow> string \<Rightarrow> date_time_format \<Rightarrow> int res" where
  "parse_datetime lib val fmt =
     (case parse_from_str lib (strftime_pattern fmt) val of
        Inl e \<Rightarrow> Err (OtherErr (''Failed to parse datetime '' @ quote val @ '': '' @ e))
      | Inr t \<Rightarrow> Ok t)"

lemma parse_datetime_cases:
  "(\<exists>t. parse_datetime lib v fmt = Ok t) \<or> (\<exists>m. parse_datetime lib v fmt = Err (OtherErr m))"
  by (auto simp: parse_datetime_def split: sum.split)

lemma day_ns_pos [simp]: "0 < day_ns"
  by (simp add: day_ns_def)

text \<open>
  The law of the formatter that the code relies on where it reads back a date it wrote: the
  \<^verbatim>\<open>Openssl\<close> and \<^verbatim>\<open>Text\<close> styles keep an instant of whole seconds.
\<close>

definition reads_back :: "chrono \<Rightarrow> date_time_format \<Rightarrow> int \<Rightarrow> bool" where
  "reads_back lib fmt t \<longleftrightarrow> parse_datetime lib (format_datetime lib t fmt) fmt = Ok t"

text \<open>
  A concrete stand-in used by the examples: an instant printed and read as its number of seconds.
\<close>

definition seconds_chrono :: chrono where
  "seconds_chrono =
     \<lparr> parse_from_str = (\<lambda>p v. case parse_i64 v of Some n \<Rightarrow> Inr (n * second_ns) | None \<Rightarrow> Inl ''input''),
       strftime = (\<lambda>p t. int_to_string (t div second_ns)),
       parse_from_rfc3339 = (\<lambda>v. map_option (\<lambda>n. n * second_ns) (parse_i64 v)) \<rparr>"

lemma seconds_chrono_reads_back:
  "in_i64 n \<Longrightarrow> reads_back seconds_chrono fmt (n * second_ns)"
  by (simp add: reads_back_def parse_datetime_def format_datetime_def seconds_chrono_def
      parse_i64_int_to_string second_ns_def)

end
