(* ===== verification/Db_Models.thy ===== *)
theory Db_Models
  imports Cert_Type Datetime
begin

text \<open>
  The records of the CA database, from \<^verbatim>\<open>crates/opca-core/src/services/database/models.rs\<close>. Every
  struct is a record with its fields in order, under a short prefix because Isabelle shares field
  names between records; the enums the database keeps as text or as a column value have their two
  conversions, each an instance of the codec interface.
\<close>

section \<open>Certificates\<close>

datatype cert_status = Valid | Expired | Revoked

definition display_status :: "cert_status \<Rightarrow> string" where
  "display_status s = (case s of Valid \<Rightarrow> ''Valid'' | Expired \<Rightarrow> ''Expired'' | Revoked \<Rightarrow> ''Revoked'')"

definition status_from_str :: "string \<Rightarrow> string + cert_status" where
  "status_from_str s =
     (if s = ''Valid'' then Inr Valid
      else if s = ''Expired'' then Inr Expired
      else if s = ''Revoked'' then Inr Revoked
      else Inl (''Unknown certificate status: '' @ s))"

record cert_record =
  cr_serial :: string
  cr_cn :: "string option"
  cr_title :: "string option"
  cr_status :: "string option"
  cr_expiry_date :: "string option"
  cr_revocation_date :: "string option"
  cr_subject :: "string option"
  cr_cert_type :: "string option"
  cr_not_before :: "string option"
  cr_key_type :: "string option"
  cr_key_size :: "int option"
  cr_issuer :: "string option"
  cr_san :: "string option"
  cr_ignored_at :: "string option"
  cr_ignored_by :: "string option"
  cr_ignored_reason :: "string option"
  cr_ignored_note :: "string option"
  cr_has_private_key :: "bool option"
  cr_has_chain :: "bool option"
  cr_deleted_at :: "string option"
  cr_published_at :: "string option"

datatype ignore_reason = Manual | Renewed | Rekeyed | Deleted

definition ignore_reason_as_str :: "ignore_reason \<Rightarrow> string" where
  "ignore_reason_as_str r = (case r of Manual \<Rightarrow> ''manual'' | Renewed \<Rightarrow> ''renewed''
      | Rekeyed \<Rightarrow> ''rekeyed'' | Deleted \<Rightarrow> ''deleted'')"

record external_cert_record =
  xr_serial :: string
  xr_cn :: "string option"
  xr_title :: "string option"
  xr_status :: "string option"
  xr_expiry_date :: "string option"
  xr_subject :: "string option"
  xr_issuer :: "string option"
  xr_issuer_subject :: "string option"
  xr_import_date :: "string option"
  xr_cert_type :: "string option"
  xr_not_before :: "string option"
  xr_key_type :: "string option"
  xr_key_size :: "int option"
  xr_san :: "string option"
  xr_has_private_key :: "bool option"
  xr_has_chain :: "bool option"

section \<open>Signing requests\<close>

record csr_record =
  sr_id :: "int option"
  sr_cn :: "string option"
  sr_title :: "string option"
  sr_csr_type :: "string option"
  sr_email :: "string option"
  sr_subject :: "string option"
  sr_status :: "string option"
  sr_created_date :: "string option"
  sr_csr_pem :: "string option"

definition csr_stale_days :: int where "csr_stale_days = 30"

definition csr_is_stale :: "chrono \<Rightarrow> csr_record \<Rightarrow> int \<Rightarrow> bool" where
  "csr_is_stale lib r now \<longleftrightarrow>
     sr_status r = Some ''Pending''
     \<and> (case Option.bind (sr_created_date r) (\<lambda>d. res_ok (parse_datetime lib d Compact)) of
          Some created \<Rightarrow> now - created > csr_stale_days * day_ns
        | None \<Rightarrow> False)"

section \<open>Configuration\<close>

record ca_config =
  cf_cn :: "string option"
  cf_ca_days :: "int option"
  cf_key_algorithm :: "key_algorithm option"
  cf_next_serial :: "int option"
  cf_next_crl_serial :: "int option"
  cf_org :: "string option"
  cf_ou :: "string option"
  cf_email :: "string option"
  cf_city :: "string option"
  cf_state :: "string option"
  cf_country :: "string option"
  cf_ca_url :: "string option"
  cf_crl_url :: "string option"
  cf_days :: "int option"
  cf_crl_days :: "int option"
  cf_schema_version :: "int option"
  cf_ca_public_store :: "string option"
  cf_ca_private_store :: "string option"
  cf_ca_backup_store :: "string option"
  cf_ca_aws_region :: "string option"
  cf_crl_batch_enabled :: "bool option"
  cf_web_server_days :: "int option"
  cf_vpn_server_days :: "int option"
  cf_vpn_client_days :: "int option"
  cf_device_days :: "int option"

definition empty_config :: ca_config where
  "empty_config =
     \<lparr> cf_cn = None, cf_ca_days = None, cf_key_algorithm = None, cf_next_serial = None,
       cf_next_crl_serial = None, cf_org = None, cf_ou = None, cf_email = None, cf_city = None,
       cf_state = None, cf_country = None, cf_ca_url = None, cf_crl_url = None, cf_days = None,
       cf_crl_days = None, cf_schema_version = None, cf_ca_public_store = None,
       cf_ca_private_store = None, cf_ca_backup_store = None, cf_ca_aws_region = None,
       cf_crl_batch_enabled = None, cf_web_server_days = None, cf_vpn_server_days = None,
       cf_vpn_client_days = None, cf_device_days = None \<rparr>"

text \<open>\<^verbatim>\<open>Option::or\<close>.\<close>

definition opt_or :: "'a option \<Rightarrow> 'a option \<Rightarrow> 'a option" where
  "opt_or a b = (case a of Some x \<Rightarrow> Some x | None \<Rightarrow> b)"

definition type_days :: "ca_config \<Rightarrow> cert_type \<Rightarrow> int option" where
  "type_days config ct =
     opt_or (case ct of WebServer \<Rightarrow> cf_web_server_days config
               | VpnServer \<Rightarrow> cf_vpn_server_days config
               | VpnClient \<Rightarrow> cf_vpn_client_days config
               | Device \<Rightarrow> cf_device_days config
               | _ \<Rightarrow> None)
       (cf_days config)"

section \<open>DKIM keys, CRLs and CRL batches\<close>

record dkim_record =
  dk_domain :: string
  dk_selector :: string
  dk_title :: "string option"
  dk_key_size :: "int option"
  dk_created_at :: "string option"
  dk_has_private_key :: "bool option"
  dk_has_public_key :: "bool option"
  dk_has_dns_record :: "bool option"

record dkim_sync =
  dks_removed :: nat
  dks_changed :: bool

record crl_entry =
  ce_serial :: string
  ce_revocation_date :: string

record crl_metadata =
  cm_issuer :: "string option"
  cm_last_update :: "string option"
  cm_next_update :: "string option"
  cm_crl_number :: "int option"
  cm_revoked_count :: "int option"
  cm_revoked_json :: "string option"

record crl_batch =
  cb_t0 :: int
  cb_period_days :: int
  cb_window_days :: int
  cb_count :: int
  cb_first_number :: int

record crl_batch_status =
  bs_due_number :: int
  bs_signed_until :: int
  bs_remaining :: int
  bs_count :: int

definition batch_this_update :: "crl_batch \<Rightarrow> int \<Rightarrow> int" where
  "batch_this_update b index = cb_t0 b + wrap_i64 (index * cb_period_days b) * day_ns"

definition batch_next_update :: "crl_batch \<Rightarrow> int \<Rightarrow> int" where
  "batch_next_update b index = batch_this_update b index + cb_window_days b * day_ns"

definition batch_status :: "crl_batch \<Rightarrow> int \<Rightarrow> crl_batch_status" where
  "batch_status b now =
     (let released = int (length (filter (\<lambda>i. batch_this_update b i \<le> now) [0 .. cb_count b - 1]))
      in \<lparr> bs_due_number = wrap_i64 (cb_first_number b + max (released - 1) 0),
           bs_signed_until = batch_next_update b (wrap_i64 (cb_count b - 1)),
           bs_remaining = wrap_i64 (cb_count b - released),
           bs_count = cb_count b \<rparr>)"

section \<open>OpenVPN\<close>

record openvpn_template =
  tp_id :: "int option"
  tp_name :: string
  tp_content :: string
  tp_updated_date :: "string option"

datatype template_import = NotImported | AwaitingCleanup | Settled

definition template_import_from_column :: "int option \<Rightarrow> template_import" where
  "template_import_from_column v =
     (if v = Some 1 then AwaitingCleanup else if v = Some 2 then Settled else NotImported)"

definition template_import_to_column :: "template_import \<Rightarrow> int option" where
  "template_import_to_column t =
     (case t of NotImported \<Rightarrow> None | AwaitingCleanup \<Rightarrow> Some 1 | Settled \<Rightarrow> Some 2)"

record openvpn_profile =
  vp_id :: "int option"
  vp_cn :: string
  vp_title :: string
  vp_created_date :: "string option"
  vp_template :: "string option"
  vp_serial :: "string option"
  vp_generated :: bool

section \<open>Brokers\<close>

datatype broker_state = Active | RevokedBroker

definition broker_state_as_str :: "broker_state \<Rightarrow> string" where
  "broker_state_as_str s = (case s of Active \<Rightarrow> ''active'' | RevokedBroker \<Rightarrow> ''revoked'')"

definition broker_state_from_str :: "string \<Rightarrow> string + broker_state" where
  "broker_state_from_str s =
     (if s = ''active'' then Inr Active
      else if s = ''revoked'' then Inr RevokedBroker
      else Inl (''Unknown broker state: '' @ s))"

text \<open>
  What a broker says of its issuing, from \<^verbatim>\<open>crates/opca-acme-api/src/lib.rs\<close>, with the snake-case
  names its serialisation derives.
\<close>

datatype issuer_state = Issuing | AcmeDown | Paused | RevokedIssuer

definition issuer_state_name :: "issuer_state \<Rightarrow> string" where
  "issuer_state_name s = (case s of Issuing \<Rightarrow> ''issuing'' | AcmeDown \<Rightarrow> ''acme_down''
      | Paused \<Rightarrow> ''paused'' | RevokedIssuer \<Rightarrow> ''revoked'')"

definition issuer_state_of_name :: "string \<Rightarrow> issuer_state option" where
  "issuer_state_of_name s =
     List.find (\<lambda>v. issuer_state_name v = s) [Issuing, AcmeDown, Paused, RevokedIssuer]"

record broker =
  br_id :: int
  br_subordinate_serial :: string
  br_url :: "string option"
  br_pinned_key :: "string option"
  br_permitted_domains :: "string list"
  br_state :: broker_state
  br_last_contact :: "string option"
  br_created_at :: string
  br_updated_at :: string
  br_cn :: "string option"
  br_expiry_date :: "string option"
  br_issuer_state :: "issuer_state option"

record broker_cert =
  bc_broker_id :: int
  bc_serial :: string
  bc_common_name :: "string option"
  bc_sans :: "string list"
  bc_not_before :: string
  bc_not_after :: string
  bc_issuer_serial :: string
  bc_revoked_at :: "string option"
  bc_revocation_reason :: "nat option"
  bc_changed :: int

section \<open>Migration reports and lookups\<close>

record migration_step =
  ms_to :: int
  ms_ok :: bool

record migration_info =
  mi_migrated :: bool
  mi_from_version :: int
  mi_to_version :: int
  mi_steps :: "migration_step list"

datatype cert_lookup = BySerial string | ByCn string | ByTitle string

datatype csr_lookup = CsrById int | CsrByCn string

datatype serial_type = CertSerial | CrlSerial

section \<open>Lemmas\<close>

interpretation status_text: codec display_status "\<lambda>s. case status_from_str s of Inr v \<Rightarrow> Some v | Inl _ \<Rightarrow> None"
proof unfold_locales
  fix s
  show "(case status_from_str (display_status s) of Inr v \<Rightarrow> Some v | Inl _ \<Rightarrow> None) = Some s"
    by (cases s) (simp_all add: status_from_str_def display_status_def)
qed

interpretation broker_state_text:
  codec broker_state_as_str "\<lambda>s. case broker_state_from_str s of Inr v \<Rightarrow> Some v | Inl _ \<Rightarrow> None"
proof unfold_locales
  fix s
  show "(case broker_state_from_str (broker_state_as_str s) of Inr v \<Rightarrow> Some v | Inl _ \<Rightarrow> None) = Some s"
    by (cases s) (simp_all add: broker_state_from_str_def broker_state_as_str_def)
qed

interpretation template_import_column:
  codec template_import_to_column "\<lambda>v. Some (template_import_from_column v)"
proof unfold_locales
  fix t
  show "Some (template_import_from_column (template_import_to_column t)) = Some t"
    by (cases t) (simp_all add: template_import_from_column_def template_import_to_column_def)
qed

interpretation issuer_state_text: codec issuer_state_name issuer_state_of_name
proof unfold_locales
  fix s
  show "issuer_state_of_name (issuer_state_name s) = Some s"
    by (cases s) (simp_all add: issuer_state_name_def issuer_state_of_name_def)
qed

lemma status_from_str_eq: "status_from_str s = Inr v \<longleftrightarrow> s = display_status v"
  by (cases v) (auto simp: status_from_str_def display_status_def split: if_splits)

text \<open>A released prefix: with a positive period the CRLs whose time has come are the first ones.\<close>

lemma length_filter_upto:
  assumes "\<And>i. 0 \<le> i \<Longrightarrow> i < n \<Longrightarrow> P i \<longleftrightarrow> i < k" and "0 \<le> k" and "k \<le> n"
  shows "int (length (filter P [0 .. n - 1])) = k"
proof -
  have split: "[0 .. n - 1] = [0 .. k - 1] @ [k .. n - 1]"
    using assms(2,3) upto_split2 [of 0 "k - 1" "n - 1"] by (cases "k = 0") simp_all
  have "filter P [0 .. k - 1] = [0 .. k - 1]" and "filter P [k .. n - 1] = []"
    using assms by (auto simp: filter_id_conv filter_empty_conv)
  then show ?thesis using assms(2) by (simp add: split)
qed

lemma batch_this_update_exact:
  assumes "0 \<le> cb_period_days b" "cb_count b * cb_period_days b \<le> i64_max" "0 \<le> i" "i < cb_count b"
  shows "batch_this_update b i = cb_t0 b + i * (cb_period_days b * day_ns)"
proof -
  have "i * cb_period_days b \<le> cb_count b * cb_period_days b"
    using assms by (intro mult_right_mono) auto
  moreover have "0 \<le> i * cb_period_days b" using assms by simp
  ultimately have "in_i64 (i * cb_period_days b)"
    using assms(2) unfolding i64_defs by linarith
  then show ?thesis by (simp add: batch_this_update_def wrap_i64_id mult.assoc)
qed

lemma batch_released:
  assumes "0 < cb_period_days b" "cb_count b * cb_period_days b \<le> i64_max" "0 < cb_count b"
    and "cb_t0 b \<le> now"
  defines "k \<equiv> min (cb_count b) ((now - cb_t0 b) div (cb_period_days b * day_ns) + 1)"
  shows "int (length (filter (\<lambda>i. batch_this_update b i \<le> now) [0 .. cb_count b - 1])) = k"
proof (rule length_filter_upto)
  let ?p = "cb_period_days b * day_ns"
  have p: "0 < ?p" using assms(1) by simp
  have d: "0 \<le> (now - cb_t0 b) div ?p" using p assms(4) by (simp add: pos_imp_zdiv_nonneg_iff)
  show "0 \<le> k" "k \<le> cb_count b" using d assms(3) by (auto simp: k_def)
  fix i assume i: "0 \<le> i" "i < cb_count b"
  have "batch_this_update b i \<le> now \<longleftrightarrow> i * ?p \<le> now - cb_t0 b"
    using batch_this_update_exact [of b i] assms(1,2) i by auto
  also have "\<dots> \<longleftrightarrow> i \<le> (now - cb_t0 b) div ?p"
    using p by (rule mult_le_iff_div)
  also have "\<dots> \<longleftrightarrow> i < k" using i by (auto simp: k_def)
  finally show "batch_this_update b i \<le> now \<longleftrightarrow> i < k" .
qed

section \<open>Properties\<close>

text \<open>
  the CRL that the batch status names as due is the latest one whose validity has begun, and
  whenever the windows overlap (a window is at least a period) and the batch has not run out, that
  CRL is valid at the moment asked about; the rest of the batch is what remains to be released.
\<close>

theorem batch_status_covers:
  assumes "0 < cb_period_days b" "cb_period_days b \<le> cb_window_days b" "0 < cb_count b"
    and "cb_count b * cb_period_days b \<le> i64_max" "in_i64 (cb_count b)"
    and "0 \<le> cb_first_number b" "cb_first_number b + cb_count b \<le> i64_max"
    and "cb_t0 b \<le> now" "now < bs_signed_until (batch_status b now)"
  shows "\<exists>i. bs_due_number (batch_status b now) = cb_first_number b + i
      \<and> 0 \<le> i \<and> i < cb_count b
      \<and> batch_this_update b i \<le> now \<and> now < batch_next_update b i
      \<and> (\<forall>j. 0 \<le> j \<and> j < cb_count b \<and> batch_this_update b j \<le> now \<longrightarrow> j \<le> i)
      \<and> bs_remaining (batch_status b now) = cb_count b - 1 - i"
proof -
  define p where "p = cb_period_days b * day_ns"
  define q where "q = (now - cb_t0 b) div p"
  define k where "k = min (cb_count b) (q + 1)"
  have p: "0 < p" using assms(1) by (simp add: p_def)
  have q: "0 \<le> q" using p assms(8) by (simp add: q_def pos_imp_zdiv_nonneg_iff)
  have qp: "q * p \<le> now - cb_t0 b" "now - cb_t0 b < q * p + p"
    using p pos_mod_bound [of p "now - cb_t0 b"] pos_mod_sign [of p "now - cb_t0 b"]
      div_mult_mod_eq [of "now - cb_t0 b" p] unfolding q_def by linarith+
  have released: "int (length (filter (\<lambda>i. batch_this_update b i \<le> now) [0 .. cb_count b - 1])) = k"
    using batch_released [of b now] assms unfolding k_def q_def p_def by simp
  have k: "1 \<le> k" "k \<le> cb_count b" using q assms(3) by (auto simp: k_def)
  have upd: "batch_this_update b j = cb_t0 b + j * p" if "0 \<le> j" "j < cb_count b" for j
    using batch_this_update_exact [of b j] that assms(1,4) by (simp add: p_def)
  have "in_i64 (cb_first_number b + (k - 1))" and "in_i64 (cb_count b - k)" and "in_i64 (cb_count b - 1)"
    using k assms(5,6,7) unfolding i64_defs by auto
  then have due: "bs_due_number (batch_status b now) = cb_first_number b + (k - 1)"
    and rem: "bs_remaining (batch_status b now) = cb_count b - 1 - (k - 1)"
    and til: "bs_signed_until (batch_status b now) = batch_next_update b (cb_count b - 1)"
    using k released by (simp_all add: batch_status_def wrap_i64_id)
  have "(k - 1) * p \<le> q * p" using p by (intro mult_right_mono) (auto simp: k_def)
  then have begun: "batch_this_update b (k - 1) \<le> now" using k qp(1) upd by auto
  have valid: "now < batch_next_update b (k - 1)"
  proof (cases "cb_count b \<le> q")
    case True
    then show ?thesis using assms(9) til by (simp add: k_def)
  next
    case False
    then have "k - 1 = q" by (simp add: k_def)
    moreover have "p \<le> cb_window_days b * day_ns"
      unfolding p_def using assms(2) by (intro mult_right_mono) (auto simp: less_imp_le)
    ultimately show ?thesis using qp(2) k upd [of "k - 1"] by (simp add: batch_next_update_def)
  qed
  have latest: "j \<le> k - 1" if "0 \<le> j" "j < cb_count b" "batch_this_update b j \<le> now" for j
  proof -
    have "j * p < (q + 1) * p" using that upd qp(2) by (simp add: algebra_simps)
    then have "j \<le> q" using p by (simp add: mult_less_cancel_right)
    then show ?thesis using that by (simp add: k_def)
  qed
  show ?thesis
    using due rem begun valid latest k by (intro exI [of _ "k - 1"]) auto
qed

definition weekly_batch :: crl_batch where
  "weekly_batch = \<lparr> cb_t0 = 0, cb_period_days = 7, cb_window_days = 10, cb_count = 5, cb_first_number = 40 \<rparr>"

theorem batch_status_covers_witness:
  "\<exists>i. bs_due_number (batch_status weekly_batch (15 * day_ns)) = 40 + i
     \<and> now_utc_plus 0 15 0 0 0 < batch_next_update weekly_batch i"
proof -
  have until: "bs_signed_until (batch_status weekly_batch (15 * day_ns)) = 38 * day_ns"
    by (simp add: batch_status_def Let_def weekly_batch_def batch_next_update_def batch_this_update_def
        wrap_i64_id i64_defs)
  show ?thesis
    using batch_status_covers [of weekly_batch "15 * day_ns"] until
    by (auto simp: weekly_batch_def i64_defs day_ns_def now_utc_plus_def)
qed

text \<open>
  the enums kept as text or as a column value read back as themselves: certificate status,
  broker state and the progress of the template import; a status text that is none of the three is
  refused.
\<close>

theorem column_roundtrips:
  "status_from_str (display_status s) = Inr s
   \<and> broker_state_from_str (broker_state_as_str b) = Inr b
   \<and> template_import_from_column (template_import_to_column t) = t
   \<and> ((\<nexists>v. x = display_status v) \<longleftrightarrow> status_from_str x = Inl (''Unknown certificate status: '' @ x))"
proof -
  have "(\<nexists>v. x = display_status v) \<longleftrightarrow> status_from_str x = Inl (''Unknown certificate status: '' @ x)"
  proof
    assume none: "\<nexists>v. x = display_status v"
    have "x \<noteq> display_status Valid" "x \<noteq> display_status Expired" "x \<noteq> display_status Revoked"
      using none by blast+
    then show "status_from_str x = Inl (''Unknown certificate status: '' @ x)"
      by (simp add: status_from_str_def display_status_def)
  next
    assume "status_from_str x = Inl (''Unknown certificate status: '' @ x)"
    then show "\<nexists>v. x = display_status v" using status_from_str_eq [of x] by auto
  qed
  then show ?thesis
    using status_text.dec_enc [of s] broker_state_text.dec_enc [of b] template_import_column.dec_enc [of t]
    by (auto split: sum.splits)
qed

end
