(* ===== verification/Db_Core.thy ===== *)
theory Db_Core
  imports Db_Models "HOL-Library.List_Lexorder" "HOL-Library.Char_ord" "HOL-Library.Product_Lexorder"
begin

text \<open>
  The state of \<^verbatim>\<open>CertificateAuthorityDB\<close> (\<^verbatim>\<open>crates/opca-core/src/services/database/mod.rs\<close>): the
  SQLite tables of schema version 21, the dirty flag, the fingerprint of the downloaded item and
  the status sets of the last classification; its constructor; the configuration row; and the two
  serial counters. The failures modelled are those of the statements themselves: a missing
  configuration row and a violated primary key. Failures of SQLite below that are not.
\<close>

section \<open>State\<close>

record config_row =
  cw_id :: int
  cw_next_serial :: "string option"
  cw_next_crl_serial :: "string option"
  cw_org :: "string option"
  cw_ou :: "string option"
  cw_email :: "string option"
  cw_city :: "string option"
  cw_state :: "string option"
  cw_country :: "string option"
  cw_ca_url :: "string option"
  cw_crl_url :: "string option"
  cw_days :: "int option"
  cw_crl_days :: "int option"
  cw_schema_version :: "int option"
  cw_ca_public_store :: "string option"
  cw_ca_private_store :: "string option"
  cw_ca_backup_store :: "string option"
  cw_ca_aws_region :: "string option"
  cw_crl_batch_enabled :: "bool option"
  cw_openvpn_template_import :: "int option"
  cw_web_server_days :: "int option"
  cw_vpn_server_days :: "int option"
  cw_vpn_client_days :: "int option"
  cw_device_days :: "int option"

text \<open>Rows of the tables whose columns are not those of a model record.\<close>

record crl_batch_row =
  bw_t0 :: string
  bw_period_days :: int
  bw_window_days :: int
  bw_count :: int
  bw_first_number :: int

record broker_row =
  rw_id :: int
  rw_subordinate_serial :: string
  rw_url :: "string option"
  rw_pinned_key :: "string option"
  rw_permitted_domains :: string
  rw_state :: string
  rw_last_contact :: "string option"
  rw_created_at :: string
  rw_updated_at :: string
  rw_issuer_state :: "string option"

record broker_cert_row =
  cw_broker_id :: int
  cw_serial :: string
  cw_common_name :: "string option"
  cw_sans :: string
  cw_not_before :: string
  cw_not_after :: string
  cw_issuer_serial :: string
  cw_revoked_at :: "string option"
  cw_revocation_reason :: "nat option"
  cw_changed :: int

record ca_db =
  t_config :: "config_row list"
  t_certs :: "cert_record list"
  t_csr :: "csr_record list"
  csr_sequence :: int
  t_external :: "external_cert_record list"
  t_crl_metadata :: "crl_metadata option"
  t_crl_batch :: "crl_batch_row option"
  t_templates :: "openvpn_template list"
  template_sequence :: int
  t_profiles :: "openvpn_profile list"
  profile_sequence :: int
  t_dkim :: "dkim_record list"
  t_brokers :: "broker_row list"
  t_broker_certs :: "broker_cert_row list"
  dirty :: bool
  download_fingerprint :: "string option"
  certs_expired :: "string set"
  certs_expires_soon :: "string set"
  certs_expires_warning :: "string set"
  certs_revoked :: "string set"
  certs_valid :: "string set"
  certs_ignored :: "string set"
  certs_superseded :: "string set"
  replacements :: "string \<rightharpoonup> string"
  valid_cn_to_serial :: "string \<rightharpoonup> string"
  ext_certs_expired :: "string set"
  ext_certs_expires_soon :: "string set"
  ext_certs_expires_warning :: "string set"
  ext_certs_valid :: "string set"

definition default_schema_version :: int where "default_schema_version = 21"

text \<open>The row \<^verbatim>\<open>insert_config\<close> writes: unset text is stored blank, unset numbers as \<^verbatim>\<open>NULL\<close>.\<close>

definition text_column :: "string option \<Rightarrow> string option" where
  "text_column v = Some (case v of Some s \<Rightarrow> s | None \<Rightarrow> [])"

definition serial_column :: "int option \<Rightarrow> string option" where
  "serial_column v = Some (case v of Some n \<Rightarrow> int_to_string n | None \<Rightarrow> [])"

definition insert_config :: "ca_config \<Rightarrow> config_row" where
  "insert_config config =
     \<lparr> cw_id = 1,
       cw_next_serial = serial_column (cf_next_serial config),
       cw_next_crl_serial = serial_column (cf_next_crl_serial config),
       cw_org = text_column (cf_org config), cw_ou = text_column (cf_ou config),
       cw_email = text_column (cf_email config), cw_city = text_column (cf_city config),
       cw_state = text_column (cf_state config), cw_country = text_column (cf_country config),
       cw_ca_url = text_column (cf_ca_url config), cw_crl_url = text_column (cf_crl_url config),
       cw_days = cf_days config, cw_crl_days = cf_crl_days config,
       cw_schema_version = Some default_schema_version,
       cw_ca_public_store = text_column (cf_ca_public_store config),
       cw_ca_private_store = text_column (cf_ca_private_store config),
       cw_ca_backup_store = text_column (cf_ca_backup_store config),
       cw_ca_aws_region = text_column (cf_ca_aws_region config),
       cw_crl_batch_enabled = cf_crl_batch_enabled config,
       cw_openvpn_template_import = None,
       cw_web_server_days = cf_web_server_days config,
       cw_vpn_server_days = cf_vpn_server_days config,
       cw_vpn_client_days = cf_vpn_client_days config,
       cw_device_days = cf_device_days config \<rparr>"

definition db_new :: "ca_config \<Rightarrow> ca_db" where
  "db_new config =
     \<lparr> t_config = [insert_config config], t_certs = [], t_csr = [], csr_sequence = 0,
       t_external = [], t_crl_metadata = None, t_crl_batch = None, t_templates = [],
       template_sequence = 0, t_profiles = [], profile_sequence = 0, t_dkim = [], t_brokers = [],
       t_broker_certs = [], dirty = True, download_fingerprint = None, certs_expired = {},
       certs_expires_soon = {}, certs_expires_warning = {}, certs_revoked = {}, certs_valid = {},
       certs_ignored = {}, certs_superseded = {}, replacements = Map.empty,
       valid_cn_to_serial = Map.empty, ext_certs_expired = {}, ext_certs_expires_soon = {},
       ext_certs_expires_warning = {}, ext_certs_valid = {} \<rparr>"

definition is_dirty :: "ca_db \<Rightarrow> bool" where "is_dirty db = dirty db"

definition no_rows :: "'a res" where
  "no_rows = Err (Database ''Query returned no rows'')"

section \<open>Configuration\<close>

definition non_blank :: "string option \<Rightarrow> string option" where
  "non_blank v = (case v of Some s \<Rightarrow> if trim s = [] then None else Some s | None \<Rightarrow> None)"

definition positive :: "int option \<Rightarrow> int option" where
  "positive v = (case v of Some n \<Rightarrow> if n > 0 then Some n else None | None \<Rightarrow> None)"

definition read_serial :: "string option \<Rightarrow> int option" where
  "read_serial v = Option.bind v (\<lambda>s. parse_i64 (trim s))"

definition config_of_row :: "config_row \<Rightarrow> ca_config" where
  "config_of_row r =
     \<lparr> cf_cn = None, cf_ca_days = None, cf_key_algorithm = None,
       cf_next_serial = read_serial (cw_next_serial r),
       cf_next_crl_serial = read_serial (cw_next_crl_serial r),
       cf_org = non_blank (cw_org r), cf_ou = non_blank (cw_ou r),
       cf_email = non_blank (cw_email r), cf_city = non_blank (cw_city r),
       cf_state = non_blank (cw_state r), cf_country = non_blank (cw_country r),
       cf_ca_url = non_blank (cw_ca_url r), cf_crl_url = non_blank (cw_crl_url r),
       cf_days = cw_days r, cf_crl_days = cw_crl_days r,
       cf_schema_version = cw_schema_version r,
       cf_ca_public_store = non_blank (cw_ca_public_store r),
       cf_ca_private_store = non_blank (cw_ca_private_store r),
       cf_ca_backup_store = non_blank (cw_ca_backup_store r),
       cf_ca_aws_region = non_blank (cw_ca_aws_region r),
       cf_crl_batch_enabled = cw_crl_batch_enabled r,
       cf_web_server_days = positive (cw_web_server_days r),
       cf_vpn_server_days = positive (cw_vpn_server_days r),
       cf_vpn_client_days = positive (cw_vpn_client_days r),
       cf_device_days = positive (cw_device_days r) \<rparr>"

definition get_config :: "ca_db \<Rightarrow> ca_config res" where
  "get_config db = (case t_config db of [] \<Rightarrow> no_rows | r # _ \<Rightarrow> Ok (config_of_row r))"

text \<open>\<^verbatim>\<open>maybe_update!\<close>: a set field overwrites the column, an unset one leaves it.\<close>

definition updated_row :: "ca_config \<Rightarrow> config_row \<Rightarrow> config_row" where
  "updated_row u r =
     \<lparr> cw_id = cw_id r,
       cw_next_serial = opt_or (map_option int_to_string (cf_next_serial u)) (cw_next_serial r),
       cw_next_crl_serial = opt_or (map_option int_to_string (cf_next_crl_serial u)) (cw_next_crl_serial r),
       cw_org = opt_or (cf_org u) (cw_org r), cw_ou = opt_or (cf_ou u) (cw_ou r),
       cw_email = opt_or (cf_email u) (cw_email r), cw_city = opt_or (cf_city u) (cw_city r),
       cw_state = opt_or (cf_state u) (cw_state r), cw_country = opt_or (cf_country u) (cw_country r),
       cw_ca_url = opt_or (cf_ca_url u) (cw_ca_url r), cw_crl_url = opt_or (cf_crl_url u) (cw_crl_url r),
       cw_days = opt_or (cf_days u) (cw_days r), cw_crl_days = opt_or (cf_crl_days u) (cw_crl_days r),
       cw_schema_version = opt_or (cf_schema_version u) (cw_schema_version r),
       cw_ca_public_store = opt_or (cf_ca_public_store u) (cw_ca_public_store r),
       cw_ca_private_store = opt_or (cf_ca_private_store u) (cw_ca_private_store r),
       cw_ca_backup_store = opt_or (cf_ca_backup_store u) (cw_ca_backup_store r),
       cw_ca_aws_region = opt_or (cf_ca_aws_region u) (cw_ca_aws_region r),
       cw_crl_batch_enabled = opt_or (cf_crl_batch_enabled u) (cw_crl_batch_enabled r),
       cw_openvpn_template_import = cw_openvpn_template_import r,
       cw_web_server_days = opt_or (cf_web_server_days u) (cw_web_server_days r),
       cw_vpn_server_days = opt_or (cf_vpn_server_days u) (cw_vpn_server_days r),
       cw_vpn_client_days = opt_or (cf_vpn_client_days u) (cw_vpn_client_days r),
       cw_device_days = opt_or (cf_device_days u) (cw_device_days r) \<rparr>"

definition update_config :: "ca_config \<Rightarrow> ca_db \<Rightarrow> ca_db" where
  "update_config u db =
     db\<lparr> t_config := tbl_update (\<lambda>r. cw_id r = 1) (updated_row u) (t_config db) \<rparr>"

section \<open>Serial counters\<close>

definition serial_of :: "serial_type \<Rightarrow> config_row \<Rightarrow> string option" where
  "serial_of ty r = (case ty of CertSerial \<Rightarrow> cw_next_serial r | CrlSerial \<Rightarrow> cw_next_crl_serial r)"

definition set_serial :: "serial_type \<Rightarrow> string \<Rightarrow> config_row \<Rightarrow> config_row" where
  "set_serial ty s r = (case ty of CertSerial \<Rightarrow> r\<lparr> cw_next_serial := Some s \<rparr>
      | CrlSerial \<Rightarrow> r\<lparr> cw_next_crl_serial := Some s \<rparr>)"

definition increment_serial :: "serial_type \<Rightarrow> int option \<Rightarrow> ca_db \<Rightarrow> (int \<times> ca_db) res" where
  "increment_serial ty serial_number db =
     (case t_config db of
        [] \<Rightarrow> no_rows
      | r # _ \<Rightarrow>
          (let stored = (case read_serial (serial_of ty r) of Some n \<Rightarrow> n | None \<Rightarrow> 1);
               current = (case serial_number of
                            Some sn \<Rightarrow> if sn > stored then sn else stored | None \<Rightarrow> stored);
               next_serial = wrap_i64 (current + 1)
           in Ok (current,
                db\<lparr> t_config := tbl_update (\<lambda>r. cw_id r = 1)
                       (set_serial ty (int_to_string next_serial)) (t_config db),
                    dirty := True \<rparr>)))"

section \<open>Lemmas\<close>

text \<open>The configuration table holds one row, with id 1: \<^verbatim>\<open>new\<close> makes it so and nothing changes it.\<close>

definition config_ok :: "ca_db \<Rightarrow> bool" where
  "config_ok db \<longleftrightarrow> (case t_config db of [r] \<Rightarrow> cw_id r = 1 | _ \<Rightarrow> False)"

lemma config_ok_row: "config_ok db \<longleftrightarrow> (\<exists>r. t_config db = [r] \<and> cw_id r = 1)"
  by (auto simp: config_ok_def split: list.splits)

lemma config_ok_new: "config_ok (db_new config)"
  by (simp add: config_ok_def db_new_def insert_config_def)

lemma opt_or_simps [simp]: "opt_or (Some x) b = Some x" "opt_or None b = b" "opt_or a None = a"
  by (simp_all add: opt_or_def split: option.split)

lemma config_ok_update: "config_ok db \<Longrightarrow> config_ok (update_config u db)"
  by (auto simp: config_ok_row update_config_def tbl_update_def updated_row_def)

lemma cw_id_set_serial [simp]: "cw_id (set_serial ty s r) = cw_id r"
  by (simp add: set_serial_def split: serial_type.split)

lemma serial_of_set_serial:
  "serial_of ty' (set_serial ty s r) = (if ty' = ty then Some s else serial_of ty' r)"
  by (cases ty; cases ty') (simp_all add: serial_of_def set_serial_def)

text \<open>What a counter will hand out next; a blank or unreadable counter starts at 1.\<close>

definition serial_level :: "serial_type \<Rightarrow> ca_db \<Rightarrow> int" where
  "serial_level ty db = (case t_config db of [] \<Rightarrow> 1
      | r # _ \<Rightarrow> (case read_serial (serial_of ty r) of Some n \<Rightarrow> n | None \<Rightarrow> 1))"

definition bumped :: "int option \<Rightarrow> int \<Rightarrow> int" where
  "bumped serial_number n = (case serial_number of Some sn \<Rightarrow> max sn n | None \<Rightarrow> n)"

lemma read_serial_int [simp]: "in_i64 n \<Longrightarrow> read_serial (Some (int_to_string n)) = Some n"
  by (simp add: read_serial_def parse_i64_int_to_string)

lemma increment_serial_step:
  assumes "config_ok db"
  shows "\<exists>db'. increment_serial ty sn db = Ok (bumped sn (serial_level ty db), db')
    \<and> config_ok db' \<and> dirty db'
    \<and> serial_level ty db' = wrap_i64 (bumped sn (serial_level ty db) + 1)
    \<and> (\<forall>ty'. ty' \<noteq> ty \<longrightarrow> serial_level ty' db' = serial_level ty' db)"
proof -
  obtain r where r: "t_config db = [r]" "cw_id r = 1" using assms by (auto simp: config_ok_row)
  define v where "v = bumped sn (serial_level ty db)"
  define db' where "db' = db\<lparr> t_config := [set_serial ty (int_to_string (wrap_i64 (v + 1))) r], dirty := True \<rparr>"
  have "increment_serial ty sn db = Ok (v, db')"
    using r by (auto simp: increment_serial_def serial_level_def v_def bumped_def db'_def tbl_update_def
        Let_def max_def split: option.split)
  moreover have "serial_level ty db' = wrap_i64 (v + 1)"
    by (simp add: serial_level_def db'_def serial_of_set_serial wrap_i64_range)
  moreover have "\<forall>ty'. ty' \<noteq> ty \<longrightarrow> serial_level ty' db' = serial_level ty' db"
    using r by (simp add: serial_level_def db'_def serial_of_set_serial)
  moreover have "config_ok db'" "dirty db'" using r by (simp_all add: config_ok_row db'_def)
  ultimately show ?thesis unfolding v_def by blast
qed

text \<open>A run of requests for serial numbers, some with an explicit number.\<close>

fun serial_run :: "serial_type \<Rightarrow> int option list \<Rightarrow> ca_db \<Rightarrow> int list res" where
  "serial_run ty [] db = Ok []"
| "serial_run ty (sn # sns) db =
     rbind (increment_serial ty sn db) (\<lambda>(v, db'). rmap ((#) v) (serial_run ty sns db'))"

definition take_serial :: "serial_type \<Rightarrow> ca_db \<Rightarrow> int \<times> ca_db" where
  "take_serial ty db = (case increment_serial ty None db of Ok p \<Rightarrow> p | _ \<Rightarrow> (0, db))"

interpretation serial_numbers:
  number_source "take_serial ty" "serial_level ty"
    "\<lambda>db n. config_ok db \<and> i64_min \<le> serial_level ty db \<and> serial_level ty db + int n \<le> i64_max" for ty
proof unfold_locales
  fix db n v db'
  assume fits: "config_ok db \<and> i64_min \<le> serial_level ty db \<and> serial_level ty db + int (Suc n) \<le> i64_max"
    and taken: "take_serial ty db = (v, db')"
  obtain db1 where "increment_serial ty None db = Ok (serial_level ty db, db1)" "config_ok db1"
    "serial_level ty db1 = wrap_i64 (serial_level ty db + 1)"
    using increment_serial_step [of db ty None] fits by (auto simp: bumped_def)
  moreover have "wrap_i64 (serial_level ty db + 1) = serial_level ty db + 1"
    using fits by (intro wrap_i64_id) (auto simp: i64_defs)
  ultimately have "v = serial_level ty db" "config_ok db'" "serial_level ty db' = v + 1"
    using taken by (simp_all add: take_serial_def)
  then show "v = serial_level ty db \<and> serial_level ty db' = v + 1"
    and "config_ok db' \<and> i64_min \<le> serial_level ty db' \<and> serial_level ty db' + int n \<le> i64_max"
    using fits by auto
qed

lemma serial_run_plain:
  assumes "config_ok db"
  shows "serial_run ty (replicate n None) db = Ok (serial_numbers.take_many ty n db)"
  using assms
proof (induction n arbitrary: db)
  case 0
  show ?case by simp
next
  case (Suc n)
  obtain v db' where step: "increment_serial ty None db = Ok (v, db')" "config_ok db'"
    using increment_serial_step [OF Suc.prems] by blast
  then have "take_serial ty db = (v, db')" by (simp add: take_serial_def)
  with step Suc.IH [of db'] show ?case by (simp add: serial_numbers.take_many.simps)
qed

lemma serial_run_increasing:
  assumes "config_ok db" "in_i64 (serial_level ty db)"
    and "\<forall>sn \<in> set sns. bumped sn (serial_level ty db) + int (length sns) \<le> i64_max"
  shows "\<exists>vs. serial_run ty sns db = Ok vs \<and> length vs = length sns
    \<and> sorted_wrt (<) vs \<and> (\<forall>v \<in> set vs. serial_level ty db \<le> v)"
  using assms
proof (induction sns arbitrary: db)
  case Nil
  show ?case by simp
next
  case (Cons sn sns)
  define v where "v = bumped sn (serial_level ty db)"
  obtain db' where step: "increment_serial ty sn db = Ok (v, db')" "config_ok db'"
    "serial_level ty db' = wrap_i64 (v + 1)"
    using increment_serial_step [OF Cons.prems(1)] unfolding v_def by blast
  have bound: "v + int (length (sn # sns)) \<le> i64_max" and above: "serial_level ty db \<le> v"
    using Cons.prems(3) by (auto simp: v_def bumped_def split: option.splits)
  then have "in_i64 (v + 1)" using Cons.prems(2) by (auto simp: i64_defs)
  then have lvl: "serial_level ty db' = v + 1" using step(3) by (simp add: wrap_i64_id)
  have "bumped s (v + 1) + int (length sns) \<le> i64_max" if "s \<in> set sns" for s
  proof -
    have "bumped s (serial_level ty db) + int (length (sn # sns)) \<le> i64_max" using Cons.prems(3) that by simp
    with bound show ?thesis by (auto simp: bumped_def split: option.splits)
  qed
  then obtain vs where vs: "serial_run ty sns db' = Ok vs" "length vs = length sns"
    "sorted_wrt (<) vs" "\<forall>w \<in> set vs. v + 1 \<le> w"
    using Cons.IH [of db'] step(2) lvl \<open>in_i64 (v + 1)\<close> by auto
  then show ?case using step(1) above by (fastforce intro!: exI [of _ "v # vs"])
qed

lemma read_serial_column: "pred_option in_i64 v \<Longrightarrow> read_serial (serial_column v) = v"
proof (cases v)
  case None
  then show ?thesis by (simp add: serial_column_def read_serial_def parse_i64_def)
next
  case (Some n)
  assume "pred_option in_i64 v"
  with Some show ?thesis by (simp add: serial_column_def)
qed

lemma non_blank_text_column [simp]: "non_blank (text_column v) = non_blank v"
  by (cases v) (simp_all add: non_blank_def text_column_def)

text \<open>
  What a configuration reads back as: the fields used only at creation are dropped, blank text and
  lifetimes that are not positive are unset, the schema version is the current one.
\<close>

definition stored_config :: "ca_config \<Rightarrow> ca_config" where
  "stored_config c =
     c\<lparr> cf_cn := None, cf_ca_days := None, cf_key_algorithm := None,
        cf_org := non_blank (cf_org c), cf_ou := non_blank (cf_ou c), cf_email := non_blank (cf_email c),
        cf_city := non_blank (cf_city c), cf_state := non_blank (cf_state c),
        cf_country := non_blank (cf_country c), cf_ca_url := non_blank (cf_ca_url c),
        cf_crl_url := non_blank (cf_crl_url c), cf_schema_version := Some default_schema_version,
        cf_ca_public_store := non_blank (cf_ca_public_store c),
        cf_ca_private_store := non_blank (cf_ca_private_store c),
        cf_ca_backup_store := non_blank (cf_ca_backup_store c),
        cf_ca_aws_region := non_blank (cf_ca_aws_region c),
        cf_web_server_days := positive (cf_web_server_days c),
        cf_vpn_server_days := positive (cf_vpn_server_days c),
        cf_vpn_client_days := positive (cf_vpn_client_days c),
        cf_device_days := positive (cf_device_days c) \<rparr>"

lemma non_blank_idem [simp]: "non_blank (non_blank v) = non_blank v"
  by (simp add: non_blank_def split: option.split)

lemma positive_idem [simp]: "positive (positive v) = positive v"
  by (simp add: positive_def split: option.split)

lemma parse_i64_range: "parse_i64 s = Some n \<Longrightarrow> in_i64 n"
  by (auto simp: parse_i64_def Let_def split: list.splits option.splits if_splits)

text \<open>An update seen through the reads: a set field replaces, an unset one keeps.\<close>

definition set_or_keep :: "('a option \<Rightarrow> 'a option) \<Rightarrow> 'a option \<Rightarrow> 'a option \<Rightarrow> 'a option" where
  "set_or_keep norm u c = (case u of Some _ \<Rightarrow> norm u | None \<Rightarrow> c)"

definition merged_config :: "ca_config \<Rightarrow> ca_config \<Rightarrow> ca_config" where
  "merged_config u c =
     (let txt = (\<lambda>f. set_or_keep non_blank (f u) (f c));
          days = (\<lambda>f. set_or_keep positive (f u) (f c))
      in c\<lparr> cf_next_serial := opt_or (cf_next_serial u) (cf_next_serial c),
        cf_next_crl_serial := opt_or (cf_next_crl_serial u) (cf_next_crl_serial c),
        cf_org := txt cf_org, cf_ou := txt cf_ou, cf_email := txt cf_email, cf_city := txt cf_city,
        cf_state := txt cf_state, cf_country := txt cf_country, cf_ca_url := txt cf_ca_url,
        cf_crl_url := txt cf_crl_url, cf_days := opt_or (cf_days u) (cf_days c),
        cf_crl_days := opt_or (cf_crl_days u) (cf_crl_days c),
        cf_schema_version := opt_or (cf_schema_version u) (cf_schema_version c),
        cf_ca_public_store := txt cf_ca_public_store, cf_ca_private_store := txt cf_ca_private_store,
        cf_ca_backup_store := txt cf_ca_backup_store, cf_ca_aws_region := txt cf_ca_aws_region,
        cf_crl_batch_enabled := opt_or (cf_crl_batch_enabled u) (cf_crl_batch_enabled c),
        cf_web_server_days := days cf_web_server_days, cf_vpn_server_days := days cf_vpn_server_days,
        cf_vpn_client_days := days cf_vpn_client_days, cf_device_days := days cf_device_days \<rparr>)"

lemma non_blank_opt_or: "non_blank (opt_or u v) = set_or_keep non_blank u (non_blank v)"
  by (cases u) (simp_all add: set_or_keep_def)

lemma positive_opt_or: "positive (opt_or u v) = set_or_keep positive u (positive v)"
  by (cases u) (simp_all add: set_or_keep_def)

lemma read_serial_opt_or:
  "pred_option in_i64 u \<Longrightarrow> read_serial (opt_or (map_option int_to_string u) v) = opt_or u (read_serial v)"
  by (cases u) simp_all

lemma config_of_updated_row:
  assumes "pred_option in_i64 (cf_next_serial u)" "pred_option in_i64 (cf_next_crl_serial u)"
  shows "config_of_row (updated_row u r) = merged_config u (config_of_row r)"
  using assms by (simp add: config_of_row_def updated_row_def merged_config_def non_blank_opt_or
      positive_opt_or read_serial_opt_or Let_def)

section \<open>Properties\<close>

text \<open>
  C31: serial numbers are never reused: over any run of requests, with or without an explicit
  number, every request succeeds and the numbers handed out increase strictly and start no lower
  than the stored counter, as long as none of them comes within the run's length of the largest
  \<^verbatim>\<open>i64\<close>.
\<close>

theorem serials_strictly_increase:
  assumes "config_ok db" "in_i64 (serial_level ty db)"
    and "\<forall>sn \<in> set sns. bumped sn (serial_level ty db) + int (length sns) \<le> i64_max"
  shows "\<exists>vs. serial_run ty sns db = Ok vs \<and> length vs = length sns \<and> sorted_wrt (<) vs
    \<and> distinct vs \<and> (\<forall>v \<in> set vs. serial_level ty db \<le> v)"
proof -
  obtain vs where "serial_run ty sns db = Ok vs" "length vs = length sns" "sorted_wrt (<) vs"
    "\<forall>v \<in> set vs. serial_level ty db \<le> v"
    using serial_run_increasing [OF assms] by blast
  then show ?thesis by (auto simp: strict_sorted_iff)
qed

theorem serials_strictly_increase_witness:
  "\<exists>vs. serial_run CertSerial [None, Some 10, Some 3]
      (db_new (empty_config\<lparr> cf_next_serial := Some 5 \<rparr>)) = Ok vs \<and> distinct vs \<and> length vs = 3"
proof -
  let ?db = "db_new (empty_config\<lparr> cf_next_serial := Some 5 \<rparr>)"
  have "serial_level CertSerial ?db = 5"
    by (simp add: serial_level_def db_new_def insert_config_def serial_of_def serial_column_def
        empty_config_def i64_defs)
  then show ?thesis
    using serials_strictly_increase [of ?db CertSerial "[None, Some 10, Some 3]"] config_ok_new
    by (auto simp: bumped_def i64_defs)
qed

text \<open>
  without explicit numbers a run of \<open>n\<close> requests hands out the consecutive numbers from the
  stored counter on, which the CRL numbering relies on.
\<close>

theorem serials_consecutive:
  assumes "config_ok db" "i64_min \<le> serial_level ty db" "serial_level ty db + int n \<le> i64_max"
  shows "serial_run ty (replicate n None) db = Ok [serial_level ty db .. serial_level ty db + int n - 1]"
  using serial_run_plain [OF assms(1)] serial_numbers.take_many_upto [of db ty n] assms by simp

theorem serials_consecutive_witness:
  "serial_run CrlSerial (replicate 3 None) (db_new empty_config) = Ok [1 .. 3]"
proof -
  have "serial_level CrlSerial (db_new empty_config) = 1"
    by (simp add: serial_level_def db_new_def insert_config_def serial_of_def serial_column_def
        empty_config_def read_serial_def parse_i64_def)
  then show ?thesis
    using serials_consecutive [of "db_new empty_config" CrlSerial 3] config_ok_new by (simp add: i64_defs)
qed

text \<open>
  C32: a configuration written to a new database reads back as itself, up to the fields that are not
  stored and the values that mean unset; and an update of the only configuration row reads back as
  the old configuration with exactly the set fields replaced.
\<close>

theorem config_reads_back:
  assumes "pred_option in_i64 (cf_next_serial c)" "pred_option in_i64 (cf_next_crl_serial c)"
    and "config_ok db" "get_config db = Ok old"
  shows "get_config (db_new c) = Ok (stored_config c)
    \<and> get_config (update_config c db) = Ok (merged_config c old)"
proof
  show "get_config (db_new c) = Ok (stored_config c)"
    using assms(1,2) by (simp add: get_config_def db_new_def config_of_row_def insert_config_def
        stored_config_def read_serial_column)
  show "get_config (update_config c db) = Ok (merged_config c old)"
    using assms config_of_updated_row [OF assms(1,2)]
    by (auto simp: config_ok_row get_config_def update_config_def tbl_update_def)
qed

theorem config_reads_back_witness:
  "get_config (update_config (empty_config\<lparr> cf_org := Some ''Acme'', cf_device_days := Some 0 \<rparr>) (db_new empty_config))
   = Ok (stored_config (empty_config\<lparr> cf_org := Some ''Acme'' \<rparr>))"
proof -
  let ?u = "empty_config\<lparr> cf_org := Some ''Acme'', cf_device_days := Some 0 \<rparr>"
  have "trim ''Acme'' = ''Acme''" by (rule trim_graphic) code_simp
  then have merged: "merged_config ?u (stored_config empty_config) = stored_config (empty_config\<lparr> cf_org := Some ''Acme'' \<rparr>)"
    by (simp add: merged_config_def stored_config_def empty_config_def Let_def
        set_or_keep_def non_blank_def positive_def)
  have "get_config (db_new empty_config) = Ok (stored_config empty_config)"
    by (simp add: get_config_def db_new_def config_of_row_def insert_config_def stored_config_def
        read_serial_column empty_config_def)
  then have "get_config (update_config ?u (db_new empty_config)) = Ok (merged_config ?u (stored_config empty_config))"
    using config_reads_back [of ?u "db_new empty_config" "stored_config empty_config"] config_ok_new
    by (simp add: empty_config_def)
  then show ?thesis by (simp only: merged)
qed

end
