(* ===== verification/Db_Certs.thy ===== *)
theory Db_Certs
  imports Db_Core "HOL-Library.Multiset"
begin

text \<open>
  The two certificate tables of the database (\<^verbatim>\<open>database/mod.rs\<close>, certificate and external
  certificate operations). Rows are in rowid order, which is also the order in which a lookup by
  common name or title meets them. Both tables are instances of the row-store interface, keyed by
  serial. \<open>stamp\<close> is the formatted clock reading of the operations that record one.
\<close>

section \<open>Certificates of the CA\<close>

definition no_cert :: "string \<Rightarrow> 'a res" where
  "no_cert serial = Err (Database (''No certificate found with serial number '' @ serial @ ''.''))"

definition add_cert :: "cert_record \<Rightarrow> ca_db \<Rightarrow> ca_db res" where
  "add_cert record db =
     (case tbl_insert cr_serial record (t_certs db) of
        Some rows \<Rightarrow> Ok (db\<lparr> t_certs := rows, dirty := True \<rparr>)
      | None \<Rightarrow> Err (Database ''UNIQUE constraint failed: certificate_authority.serial''))"

text \<open>The shape of every update by serial: it fails when no row matches, else it marks the state dirty.\<close>

definition update_certs ::
  "(cert_record \<Rightarrow> bool) \<Rightarrow> (cert_record \<Rightarrow> cert_record) \<Rightarrow> ca_db res \<Rightarrow> ca_db \<Rightarrow> ca_db res" where
  "update_certs P f missing db =
     (if tbl_count P (t_certs db) = 0 then missing
      else Ok (db\<lparr> t_certs := tbl_update P f (t_certs db), dirty := True \<rparr>))"

definition update_cert :: "cert_record \<Rightarrow> ca_db \<Rightarrow> ca_db res" where
  "update_cert record db =
     update_certs (\<lambda>r. cr_serial r = cr_serial record) (\<lambda>r. record) (no_cert (cr_serial record)) db"

definition ignore_cert ::
  "string \<Rightarrow> string \<Rightarrow> ignore_reason \<Rightarrow> string \<Rightarrow> string option \<Rightarrow> ca_db \<Rightarrow> ca_db res" where
  "ignore_cert stamp serial reason by_whom note db =
     update_certs (\<lambda>r. cr_serial r = serial)
       (\<lambda>r. r\<lparr> cr_ignored_at := Some stamp, cr_ignored_by := Some by_whom,
              cr_ignored_reason := Some (ignore_reason_as_str reason), cr_ignored_note := note \<rparr>)
       (no_cert serial) db"

definition unignore_cert :: "string \<Rightarrow> ca_db \<Rightarrow> ca_db res" where
  "unignore_cert serial db =
     update_certs (\<lambda>r. cr_serial r = serial)
       (\<lambda>r. r\<lparr> cr_ignored_at := None, cr_ignored_by := None, cr_ignored_reason := None,
              cr_ignored_note := None \<rparr>)
       (no_cert serial) db"

definition mark_cert_deleted :: "string \<Rightarrow> string \<Rightarrow> ca_db \<Rightarrow> ca_db res" where
  "mark_cert_deleted stamp serial db =
     update_certs (\<lambda>r. cr_serial r = serial \<and> cr_deleted_at r = None)
       (\<lambda>r. r\<lparr> cr_deleted_at := Some stamp \<rparr>)
       (Err (CertificateNotFound serial)) db"

definition mark_cert_published :: "string \<Rightarrow> string \<Rightarrow> string \<Rightarrow> ca_db \<Rightarrow> ca_db res" where
  "mark_cert_published stamp serial cn db =
     update_certs (\<lambda>r. cr_serial r = serial \<or> (cr_cn r = Some cn \<and> cr_published_at r \<noteq> None))
       (\<lambda>r. r\<lparr> cr_published_at := if cr_serial r = serial then Some stamp else None \<rparr>)
       (Err (CertificateNotFound serial)) db"

definition lookup_matches :: "cert_lookup \<Rightarrow> string \<Rightarrow> string option \<Rightarrow> string option \<Rightarrow> bool" where
  "lookup_matches l serial cn title = (case l of BySerial s \<Rightarrow> serial = s | ByCn s \<Rightarrow> cn = Some s
      | ByTitle s \<Rightarrow> title = Some s)"

definition query_cert :: "cert_lookup \<Rightarrow> bool \<Rightarrow> ca_db \<Rightarrow> cert_record option" where
  "query_cert l valid_only db =
     List.find (\<lambda>r. lookup_matches l (cr_serial r) (cr_cn r) (cr_title r)
                   \<and> (valid_only \<longrightarrow> cr_status r = Some ''Valid'')) (t_certs db)"

definition count_certs :: "ca_db \<Rightarrow> int" where
  "count_certs db = int (tbl_count (\<lambda>r. cr_deleted_at r = None) (t_certs db))"

text \<open>
  \<^verbatim>\<open>CAST(serial AS INTEGER)\<close>: white space, a sign, the longest run of digits, clamped to the range
  of a 64-bit integer; text without digits is zero.
\<close>

definition cast_integer :: "string \<Rightarrow> int" where
  "cast_integer s =
     (let t = dropWhile (\<lambda>c. byte c = 32 \<or> (9 \<le> byte c \<and> byte c \<le> 13)) s;
          signed = (case t of c # _ \<Rightarrow> c = CHR ''-'' \<or> c = CHR ''+'' | [] \<Rightarrow> False);
          n = int (digits_val (takeWhile is_ascii_digit (if signed then tl t else t)))
      in max i64_min (min i64_max (if signed \<and> hd t = CHR ''-'' then - n else n)))"

definition select_certs :: "(cert_record \<Rightarrow> bool) \<Rightarrow> ca_db \<Rightarrow> cert_record list" where
  "select_certs P db = sort_key (\<lambda>r. cast_integer (cr_serial r)) (filter P (t_certs db))"

definition query_all_certs :: "ca_db \<Rightarrow> cert_record list" where
  "query_all_certs db = select_certs (\<lambda>r. cr_deleted_at r = None) db"

definition query_all_certs_including_deleted :: "ca_db \<Rightarrow> cert_record list" where
  "query_all_certs_including_deleted db = select_certs (\<lambda>r. True) db"

section \<open>External certificates\<close>

definition add_external_cert :: "external_cert_record \<Rightarrow> ca_db \<Rightarrow> ca_db res" where
  "add_external_cert record db =
     (case tbl_insert xr_serial record (t_external db) of
        Some rows \<Rightarrow> Ok (db\<lparr> t_external := rows, dirty := True \<rparr>)
      | None \<Rightarrow> Err (Database ''UNIQUE constraint failed: external_certificate.serial''))"

definition update_external_cert :: "external_cert_record \<Rightarrow> ca_db \<Rightarrow> ca_db res" where
  "update_external_cert record db =
     (if tbl_count (\<lambda>r. xr_serial r = xr_serial record) (t_external db) = 0
      then Err (Database (''No external certificate found with serial number '' @ xr_serial record @ ''.''))
      else Ok (db\<lparr> t_external :=
             tbl_update (\<lambda>r. xr_serial r = xr_serial record) (\<lambda>r. record) (t_external db) \<rparr>))"

definition query_external_cert :: "cert_lookup \<Rightarrow> bool \<Rightarrow> ca_db \<Rightarrow> external_cert_record option" where
  "query_external_cert l valid_only db =
     List.find (\<lambda>r. lookup_matches l (xr_serial r) (xr_cn r) (xr_title r)
                   \<and> (valid_only \<longrightarrow> xr_status r = Some ''Valid'')) (t_external db)"

definition query_all_external_certs :: "string option \<Rightarrow> ca_db \<Rightarrow> external_cert_record list" where
  "query_all_external_certs status db =
     sort_key xr_serial (filter (\<lambda>r. case status of Some s \<Rightarrow> xr_status r = Some s | None \<Rightarrow> True) (t_external db))"

definition count_external_certs :: "ca_db \<Rightarrow> int" where
  "count_external_certs db = int (length (t_external db))"

definition fetch_all_external_certs :: "ca_db \<Rightarrow> external_cert_record list" where
  "fetch_all_external_certs db = t_external db"

section \<open>Lemmas\<close>

definition certs_keyed :: "ca_db \<Rightarrow> bool" where
  "certs_keyed db \<longleftrightarrow> tbl_keyed cr_serial (t_certs db)"

definition external_keyed :: "ca_db \<Rightarrow> bool" where
  "external_keyed db \<longleftrightarrow> tbl_keyed xr_serial (t_external db)"

definition cert_at :: "ca_db \<Rightarrow> string \<Rightarrow> cert_record option" where
  "cert_at db = tbl_lookup cr_serial (t_certs db)"

definition external_at :: "ca_db \<Rightarrow> string \<Rightarrow> external_cert_record option" where
  "external_at db = tbl_lookup xr_serial (t_external db)"

lemma query_by_serial: "query_cert (BySerial s) False db = cert_at db s"
  by (simp add: query_cert_def lookup_matches_def cert_at_def tbl_lookup_def)

lemma query_external_by_serial: "query_external_cert (BySerial s) False db = external_at db s"
  by (simp add: query_external_cert_def lookup_matches_def external_at_def tbl_lookup_def)

lemma update_certs_at:
  assumes "update_certs P f missing db = Ok db'" "\<And>d. missing \<noteq> Ok d"
    and "\<And>r. P r \<Longrightarrow> cr_serial (f r) = cr_serial r"
  shows "cert_at db' s = map_option (\<lambda>r. if P r then f r else r) (cert_at db s)"
    and "certs_keyed db \<Longrightarrow> certs_keyed db'" and "dirty db'"
    and "t_config db' = t_config db" and "t_external db' = t_external db"
    and "\<exists>r \<in> set (t_certs db). P r"
proof -
  have db': "db' = db\<lparr> t_certs := tbl_update P f (t_certs db), dirty := True \<rparr>"
    and "tbl_count P (t_certs db) \<noteq> 0"
    using assms(1,2) by (auto simp: update_certs_def split: if_splits)
  then show "\<exists>r \<in> set (t_certs db). P r" by (simp add: tbl_count_zero)
  show "cert_at db' s = map_option (\<lambda>r. if P r then f r else r) (cert_at db s)"
    using assms(3) by (simp add: cert_at_def db' tbl_lookup_update)
  show "certs_keyed db \<Longrightarrow> certs_keyed db'"
    using assms(3) by (simp add: certs_keyed_def db' tbl_keyed_update)
  show "dirty db'" "t_config db' = t_config db" "t_external db' = t_external db" by (simp_all add: db')
qed

lemma update_cert_at:
  assumes "update_cert r db = Ok db'"
  shows "cert_at db (cr_serial r) \<noteq> None" "cert_at db' = (cert_at db)(cr_serial r \<mapsto> r)"
    "certs_keyed db \<Longrightarrow> certs_keyed db'"
proof -
  have count: "tbl_count (\<lambda>q. cr_serial q = cr_serial r) (t_certs db) \<noteq> 0"
    and rows: "t_certs db' = tbl_update (\<lambda>q. cr_serial q = cr_serial r) (\<lambda>q. r) (t_certs db)"
    using assms by (auto simp: update_cert_def update_certs_def no_cert_def split: if_splits)
  show found: "cert_at db (cr_serial r) \<noteq> None" using count by (simp add: cert_at_def tbl_count_lookup)
  then show "cert_at db' = (cert_at db)(cr_serial r \<mapsto> r)"
    unfolding cert_at_def rows by (rule tbl_lookup_overwrite)
  show "certs_keyed db \<Longrightarrow> certs_keyed db'" by (simp add: certs_keyed_def rows tbl_keyed_update)
qed

lemma update_cert_present: "cert_at db (cr_serial r) \<noteq> None \<Longrightarrow> \<exists>db'. update_cert r db = Ok db'"
  by (auto simp: update_cert_def update_certs_def cert_at_def tbl_count_lookup)

interpretation cert_store: row_store cr_serial cert_at add_cert update_cert certs_keyed
proof unfold_locales
  fix db r db'
  assume "certs_keyed db" and "add_cert r db = Ok db'"
  then have "tbl_insert cr_serial r (t_certs db) = Some (t_certs db')" "tbl_keyed cr_serial (t_certs db)"
    by (auto simp: add_cert_def certs_keyed_def split: option.splits)
  then show "cert_at db (cr_serial r) = None \<and> cert_at db' = (cert_at db)(cr_serial r \<mapsto> r) \<and> certs_keyed db'"
    unfolding cert_at_def certs_keyed_def by (blast intro: tbl_lookup_insert tbl_keyed_insert)
next
  fix db and r :: cert_record
  assume "cert_at db (cr_serial r) = None"
  then show "\<exists>db'. add_cert r db = Ok db'"
    by (simp add: add_cert_def cert_at_def tbl_lookup_None tbl_insert_def)
qed (use update_cert_at update_cert_present in auto)

interpretation external_store: row_store xr_serial external_at add_external_cert update_external_cert external_keyed
proof unfold_locales
  fix db r db'
  assume "external_keyed db" and "add_external_cert r db = Ok db'"
  then have "tbl_insert xr_serial r (t_external db) = Some (t_external db')"
    "tbl_keyed xr_serial (t_external db)"
    by (auto simp: add_external_cert_def external_keyed_def split: option.splits)
  then show "external_at db (xr_serial r) = None
      \<and> external_at db' = (external_at db)(xr_serial r \<mapsto> r) \<and> external_keyed db'"
    unfolding external_at_def external_keyed_def by (blast intro: tbl_lookup_insert tbl_keyed_insert)
next
  fix db and r :: external_cert_record
  assume "external_at db (xr_serial r) = None"
  then show "\<exists>db'. add_external_cert r db = Ok db'"
    by (simp add: add_external_cert_def external_at_def tbl_lookup_None tbl_insert_def)
next
  fix db r db'
  assume inv: "external_keyed db" and upd: "update_external_cert r db = Ok db'"
  have "tbl_count (\<lambda>q. xr_serial q = xr_serial r) (t_external db) \<noteq> 0"
    and rows: "t_external db' = tbl_update (\<lambda>q. xr_serial q = xr_serial r) (\<lambda>q. r) (t_external db)"
    using upd by (auto simp: update_external_cert_def split: if_splits)
  then have "external_at db (xr_serial r) \<noteq> None" by (simp add: external_at_def tbl_count_lookup)
  then show "external_at db (xr_serial r) \<noteq> None
      \<and> external_at db' = (external_at db)(xr_serial r \<mapsto> r) \<and> external_keyed db'"
    using inv unfolding external_at_def external_keyed_def rows
    by (simp add: tbl_lookup_overwrite tbl_keyed_update)
next
  fix db and r :: external_cert_record
  assume "external_at db (xr_serial r) \<noteq> None"
  then show "\<exists>db'. update_external_cert r db = Ok db'"
    by (simp add: update_external_cert_def external_at_def tbl_count_lookup)
qed

lemma set_select_certs [simp]: "set (select_certs P db) = {r \<in> set (t_certs db). P r}"
  by (auto simp: select_certs_def)

lemma distinct_map_sort_key: "distinct (map f (sort_key g xs)) \<longleftrightarrow> distinct (map f xs)"
proof (rule mset_eq_imp_distinct_iff)
  show "mset (map f (sort_key g xs)) = mset (map f xs)" by simp
qed

lemma distinct_select_certs: "certs_keyed db \<Longrightarrow> distinct (map cr_serial (select_certs P db))"
  by (simp add: select_certs_def distinct_map_sort_key certs_keyed_def tbl_keyed_def distinct_map_filter)

section \<open>Properties\<close>

text \<open>
  the serial is a primary key of the certificate table: a certificate that was added is found
  under its serial, every other one stays as it was, and a second certificate with the same serial
  is refused with the database's error, leaving the table alone.
\<close>

theorem add_cert_keyed:
  assumes "certs_keyed db" "add_cert r db = Ok db'" "cr_serial q = cr_serial r"
  shows "query_cert (BySerial (cr_serial r)) False db' = Some r
    \<and> (\<forall>s. s \<noteq> cr_serial r \<longrightarrow> query_cert (BySerial s) False db' = query_cert (BySerial s) False db)
    \<and> certs_keyed db' \<and> dirty db'
    \<and> add_cert q db' = Err (Database ''UNIQUE constraint failed: certificate_authority.serial'')"
proof -
  have added: "cert_at db' = (cert_at db)(cr_serial r \<mapsto> r)" "certs_keyed db'"
    using cert_store.add_ok [OF assms(1,2)] by simp_all
  moreover have "dirty db'" using assms(2) by (auto simp: add_cert_def split: option.splits)
  moreover have "add_cert q db' = Err (Database ''UNIQUE constraint failed: certificate_authority.serial'')"
    using cert_store.add_twice_fails [OF assms] by (auto simp: add_cert_def split: option.splits)
  ultimately show ?thesis by (simp add: query_by_serial)
qed

definition blank_cert :: "string \<Rightarrow> cert_record" where
  "blank_cert serial =
     \<lparr> cr_serial = serial, cr_cn = None, cr_title = None, cr_status = None, cr_expiry_date = None,
       cr_revocation_date = None, cr_subject = None, cr_cert_type = None, cr_not_before = None,
       cr_key_type = None, cr_key_size = None, cr_issuer = None, cr_san = None, cr_ignored_at = None,
       cr_ignored_by = None, cr_ignored_reason = None, cr_ignored_note = None,
       cr_has_private_key = None, cr_has_chain = None, cr_deleted_at = None, cr_published_at = None \<rparr>"

lemma certs_keyed_new [simp]: "certs_keyed (db_new c)"
  by (simp add: certs_keyed_def db_new_def tbl_keyed_def)

theorem add_cert_keyed_witness:
  "\<exists>db'. add_cert (blank_cert ''1'') (db_new empty_config) = Ok db'
     \<and> query_cert (BySerial ''1'') False db' = Some (blank_cert ''1'')"
proof -
  obtain db' where "add_cert (blank_cert ''1'') (db_new empty_config) = Ok db'"
    by (simp add: add_cert_def tbl_insert_def db_new_def)
  then show ?thesis
    using add_cert_keyed [OF certs_keyed_new, of "blank_cert ''1''" _ db' "blank_cert ''1''"]
    by (auto simp: blank_cert_def)
qed

definition published_unique :: "ca_db \<Rightarrow> bool" where
  "published_unique db \<longleftrightarrow>
     (\<forall>a \<in> set (t_certs db). \<forall>b \<in> set (t_certs db).
        cr_published_at a \<noteq> None \<and> cr_published_at b \<noteq> None \<and> cr_cn a = cr_cn b \<and> cr_cn a \<noteq> None
        \<longrightarrow> cr_serial a = cr_serial b)"

text \<open>
  publishing a certificate leaves it the only published one of its common name: if at most one
  certificate of each name was published before, the same holds afterwards, and only the published
  stamp of any row changes.
\<close>

theorem mark_cert_published_unique:
  assumes "certs_keyed db" "published_unique db" "mark_cert_published stamp serial cn db = Ok db'"
    and "cert_at db serial = Some r" "cr_cn r = Some cn"
  shows "published_unique db' \<and> certs_keyed db'
    \<and> cert_at db' serial = Some (r\<lparr> cr_published_at := Some stamp \<rparr>)
    \<and> map (\<lambda>c. c\<lparr> cr_published_at := None \<rparr>) (t_certs db') = map (\<lambda>c. c\<lparr> cr_published_at := None \<rparr>) (t_certs db)"
proof -
  let ?P = "\<lambda>q. cr_serial q = serial \<or> (cr_cn q = Some cn \<and> cr_published_at q \<noteq> None)"
  let ?f = "\<lambda>q. q\<lparr> cr_published_at := if cr_serial q = serial then Some stamp else None \<rparr>"
  have upd: "update_certs ?P ?f (Err (CertificateNotFound serial)) db = Ok db'"
    using assms(3) by (simp add: mark_cert_published_def)
  note facts = update_certs_at [OF upd]
  have rows: "t_certs db' = tbl_update ?P ?f (t_certs db)"
    using upd by (auto simp: update_certs_def split: if_splits)
  have r: "r \<in> set (t_certs db)" "cr_serial r = serial"
    using assms(4) by (auto simp: cert_at_def dest: tbl_lookup_in)
  have only: "q = r" if "q \<in> set (t_certs db)" "cr_serial q = serial" for q
    using tbl_lookup_self [of cr_serial "t_certs db" q] assms(1,4) that by (simp add: certs_keyed_def cert_at_def)
  have published: "\<exists>a \<in> set (t_certs db). cr_serial c = cr_serial a \<and> cr_cn c = cr_cn a
      \<and> (a = r \<or> cr_cn a \<noteq> Some cn \<and> cr_published_at a \<noteq> None)"
    if "c \<in> set (t_certs db')" "cr_published_at c \<noteq> None" for c
  proof -
    have mem: "c \<in> set (t_certs db')" by (rule that)
    obtain a where a: "a \<in> set (t_certs db)" "c = (if ?P a then ?f a else a)"
      using mem unfolding rows tbl_update_def set_map by blast
    then show ?thesis using that(2) only [of a] by (cases "cr_serial a = serial") (auto split: if_splits)
  qed
  have "published_unique db'"
    unfolding published_unique_def
  proof (intro ballI impI)
    fix a b assume "a \<in> set (t_certs db')" "b \<in> set (t_certs db')"
      "cr_published_at a \<noteq> None \<and> cr_published_at b \<noteq> None \<and> cr_cn a = cr_cn b \<and> cr_cn a \<noteq> None"
    then show "cr_serial a = cr_serial b"
      using published [of a] published [of b] assms(2,5) unfolding published_unique_def by metis
  qed
  moreover have "cert_at db' serial = Some (r\<lparr> cr_published_at := Some stamp \<rparr>)"
    using facts(1) [of serial] assms(4) r by simp
  moreover have "map (\<lambda>c. c\<lparr> cr_published_at := None \<rparr>) (t_certs db')
      = map (\<lambda>c. c\<lparr> cr_published_at := None \<rparr>) (t_certs db)"
    by (simp add: rows tbl_update_def)
  ultimately show ?thesis using facts(2) assms(1) by simp
qed

definition two_web_certs :: ca_db where
  "two_web_certs = (db_new empty_config)\<lparr> t_certs :=
     [(blank_cert ''1'')\<lparr> cr_cn := Some ''web'', cr_published_at := Some ''T0'' \<rparr>,
      (blank_cert ''2'')\<lparr> cr_cn := Some ''web'' \<rparr>] \<rparr>"

theorem mark_cert_published_unique_witness:
  "\<exists>db'. mark_cert_published ''T1'' ''2'' ''web'' two_web_certs = Ok db' \<and> published_unique db'"
proof -
  obtain db' where db': "mark_cert_published ''T1'' ''2'' ''web'' two_web_certs = Ok db'"
    by (simp add: mark_cert_published_def update_certs_def two_web_certs_def tbl_count_def blank_cert_def)
  have "certs_keyed two_web_certs" "published_unique two_web_certs"
    "cert_at two_web_certs ''2'' = Some ((blank_cert ''2'')\<lparr> cr_cn := Some ''web'' \<rparr>)"
    by (auto simp: two_web_certs_def certs_keyed_def tbl_keyed_def published_unique_def blank_cert_def
        cert_at_def tbl_lookup_def)
  then show ?thesis
    using mark_cert_published_unique [OF _ _ db'] db' by simp
qed

end
