(* ===== verification/Db_Misc.thy ===== *)
theory Db_Misc
  imports Db_Certs
begin

text \<open>
  The remaining tables of the database (\<^verbatim>\<open>database/mod.rs\<close>): signing requests, the CRL metadata and
  batch, brokers and the certificates synced from them, OpenVPN templates and profiles, and DKIM
  keys. JSON columns are written and read by \<^verbatim>\<open>serde_json\<close>, a parameter. Row numbers are what
  SQLite hands out: one more than the largest in use, and for \<^verbatim>\<open>AUTOINCREMENT\<close> tables than the
  largest ever used.
\<close>

record serde_json =
  strings_to_json :: "string list \<Rightarrow> string"
  strings_from_json :: "string \<Rightarrow> string + string list"

definition next_rowid :: "int \<Rightarrow> int list \<Rightarrow> int" where
  "next_rowid seq ids = foldr max ids seq + 1"

section \<open>Signing requests\<close>

definition csr_ids :: "ca_db \<Rightarrow> int list" where
  "csr_ids db = List.map_filter sr_id (t_csr db)"

definition add_csr :: "csr_record \<Rightarrow> ca_db \<Rightarrow> ca_db" where
  "add_csr record db =
     (let rid = next_rowid (csr_sequence db) (csr_ids db)
      in db\<lparr> t_csr := t_csr db @ [record\<lparr> sr_id := Some rid \<rparr>], csr_sequence := rid \<rparr>)"

text \<open>The fields of an update that are set; the identifying field is not among them.\<close>

definition csr_set :: "bool \<Rightarrow> csr_record \<Rightarrow> csr_record \<Rightarrow> csr_record" where
  "csr_set with_cn u r =
     r\<lparr> sr_cn := (if with_cn then opt_or (sr_cn u) (sr_cn r) else sr_cn r),
        sr_title := opt_or (sr_title u) (sr_title r),
        sr_csr_type := opt_or (sr_csr_type u) (sr_csr_type r),
        sr_email := opt_or (sr_email u) (sr_email r),
        sr_subject := opt_or (sr_subject u) (sr_subject r),
        sr_status := opt_or (sr_status u) (sr_status r),
        sr_created_date := opt_or (sr_created_date u) (sr_created_date r),
        sr_csr_pem := opt_or (sr_csr_pem u) (sr_csr_pem r) \<rparr>"

definition csr_sets_nothing :: "bool \<Rightarrow> csr_record \<Rightarrow> bool" where
  "csr_sets_nothing with_cn u \<longleftrightarrow>
     (with_cn \<longrightarrow> sr_cn u = None) \<and> sr_title u = None \<and> sr_csr_type u = None \<and> sr_email u = None
     \<and> sr_subject u = None \<and> sr_status u = None \<and> sr_created_date u = None \<and> sr_csr_pem u = None"

definition update_csr :: "csr_record \<Rightarrow> ca_db \<Rightarrow> (bool \<times> ca_db) res" where
  "update_csr u db =
     (let run = (\<lambda>with_cn P.
            if csr_sets_nothing with_cn u then Ok (False, db)
            else Ok (tbl_count P (t_csr db) > 0, db\<lparr> t_csr := tbl_update P (csr_set with_cn u) (t_csr db) \<rparr>))
      in case sr_id u of
           Some rid \<Rightarrow> run True (\<lambda>r. sr_id r = Some rid)
         | None \<Rightarrow>
             (case sr_cn u of
                Some cn \<Rightarrow> run False (\<lambda>r. sr_cn r = Some cn)
              | None \<Rightarrow> Err (Database (''Either '' @ quote ''id'' @ '' or '' @ quote ''cn''
                              @ '' must be provided to update a CSR.''))))"

definition delete_csr :: "int \<Rightarrow> ca_db \<Rightarrow> bool \<times> ca_db" where
  "delete_csr rid db =
     (tbl_count (\<lambda>r. sr_id r = Some rid) (t_csr db) > 0,
      db\<lparr> t_csr := tbl_delete (\<lambda>r. sr_id r = Some rid) (t_csr db) \<rparr>)"

definition query_csr :: "csr_lookup \<Rightarrow> ca_db \<Rightarrow> csr_record option" where
  "query_csr l db = (case l of
      CsrById rid \<Rightarrow> List.find (\<lambda>r. sr_id r = Some rid) (t_csr db)
    | CsrByCn cn \<Rightarrow> List.find (\<lambda>r. sr_cn r = Some cn) (t_csr db))"

definition query_all_csrs :: "string option \<Rightarrow> ca_db \<Rightarrow> csr_record list" where
  "query_all_csrs status db =
     sort_key (\<lambda>r. case sr_id r of Some rid \<Rightarrow> rid | None \<Rightarrow> 0)
       (filter (\<lambda>r. case status of Some s \<Rightarrow> sr_status r = Some s | None \<Rightarrow> True) (t_csr db))"

section \<open>CRL metadata and batch\<close>

definition upsert_crl_metadata :: "crl_metadata \<Rightarrow> ca_db \<Rightarrow> ca_db" where
  "upsert_crl_metadata m db = db\<lparr> t_crl_metadata := Some m \<rparr>"

definition get_crl_metadata :: "ca_db \<Rightarrow> crl_metadata option" where
  "get_crl_metadata db = t_crl_metadata db"

definition upsert_crl_batch :: "chrono \<Rightarrow> crl_batch \<Rightarrow> ca_db \<Rightarrow> ca_db" where
  "upsert_crl_batch lib b db =
     db\<lparr> t_crl_batch := Some \<lparr> bw_t0 = format_datetime lib (cb_t0 b) Openssl,
           bw_period_days = cb_period_days b, bw_window_days = cb_window_days b,
           bw_count = cb_count b, bw_first_number = cb_first_number b \<rparr> \<rparr>"

definition clear_crl_batch :: "ca_db \<Rightarrow> ca_db" where
  "clear_crl_batch db = db\<lparr> t_crl_batch := None \<rparr>"

definition get_crl_batch :: "chrono \<Rightarrow> ca_db \<Rightarrow> crl_batch option res" where
  "get_crl_batch lib db =
     (case t_crl_batch db of
        None \<Rightarrow> Ok None
      | Some w \<Rightarrow>
          rbind (parse_datetime lib (bw_t0 w) Openssl) (\<lambda>t0.
            Ok (Some \<lparr> cb_t0 = t0, cb_period_days = bw_period_days w, cb_window_days = bw_window_days w,
                       cb_count = bw_count w, cb_first_number = bw_first_number w \<rparr>)))"

section \<open>Brokers\<close>

definition add_broker :: "serde_json \<Rightarrow> string \<Rightarrow> string \<Rightarrow> string list \<Rightarrow> ca_db \<Rightarrow> int \<times> ca_db" where
  "add_broker js stamp serial domains db =
     (let rid = next_rowid 0 (map rw_id (t_brokers db))
      in (rid, db\<lparr> t_brokers := t_brokers db @
           [\<lparr> rw_id = rid, rw_subordinate_serial = serial, rw_url = None, rw_pinned_key = None,
              rw_permitted_domains = strings_to_json js domains,
              rw_state = broker_state_as_str Active, rw_last_contact = None,
              rw_created_at = stamp, rw_updated_at = stamp, rw_issuer_state = None \<rparr>] \<rparr>))"

definition conversion_failure :: "nat \<Rightarrow> string \<Rightarrow> 'a res" where
  "conversion_failure column e =
     Err (Database (''Conversion error from type Text at index: '' @ nat_to_string column @ '', '' @ e))"

definition row_to_broker :: "serde_json \<Rightarrow> ca_db \<Rightarrow> broker_row \<Rightarrow> broker res" where
  "row_to_broker js db w =
     (case strings_from_json js (rw_permitted_domains w) of
        Inl e \<Rightarrow> conversion_failure 4 e
      | Inr domains \<Rightarrow>
          (case broker_state_from_str (rw_state w) of
             Inl e \<Rightarrow> conversion_failure 5 e
           | Inr st \<Rightarrow>
               Ok \<lparr> br_id = rw_id w, br_subordinate_serial = rw_subordinate_serial w,
                    br_url = rw_url w, br_pinned_key = rw_pinned_key w,
                    br_permitted_domains = domains, br_state = st,
                    br_last_contact = rw_last_contact w, br_created_at = rw_created_at w,
                    br_updated_at = rw_updated_at w,
                    br_cn = Option.bind (cert_at db (rw_subordinate_serial w)) cr_cn,
                    br_expiry_date = Option.bind (cert_at db (rw_subordinate_serial w)) cr_expiry_date,
                    br_issuer_state = Option.bind (rw_issuer_state w) issuer_state_of_name \<rparr>))"

definition query_broker :: "serde_json \<Rightarrow> int \<Rightarrow> ca_db \<Rightarrow> broker option res" where
  "query_broker js rid db =
     (case tbl_lookup rw_id (t_brokers db) rid of
        None \<Rightarrow> Ok None
      | Some w \<Rightarrow> rmap Some (row_to_broker js db w))"

definition query_all_brokers :: "serde_json \<Rightarrow> ca_db \<Rightarrow> broker list res" where
  "query_all_brokers js db = rmap_all (row_to_broker js db) (sort_key rw_id (t_brokers db))"

definition update_brokers :: "(broker_row \<Rightarrow> bool) \<Rightarrow> (broker_row \<Rightarrow> broker_row) \<Rightarrow> ca_db \<Rightarrow> ca_db" where
  "update_brokers P f db = db\<lparr> t_brokers := tbl_update P f (t_brokers db) \<rparr>"

definition move_broker_to :: "serde_json \<Rightarrow> string \<Rightarrow> int \<Rightarrow> string \<Rightarrow> string list \<Rightarrow> ca_db \<Rightarrow> ca_db" where
  "move_broker_to js stamp rid serial domains =
     update_brokers (\<lambda>w. rw_id w = rid)
       (\<lambda>w. w\<lparr> rw_subordinate_serial := serial, rw_permitted_domains := strings_to_json js domains,
              rw_updated_at := stamp \<rparr>)"

definition set_broker_endpoint :: "string \<Rightarrow> int \<Rightarrow> string \<Rightarrow> string \<Rightarrow> ca_db \<Rightarrow> ca_db" where
  "set_broker_endpoint stamp rid url pinned_key =
     update_brokers (\<lambda>w. rw_id w = rid)
       (\<lambda>w. w\<lparr> rw_url := Some url, rw_pinned_key := Some pinned_key, rw_updated_at := stamp \<rparr>)"

definition touch_broker :: "string \<Rightarrow> int \<Rightarrow> ca_db \<Rightarrow> ca_db" where
  "touch_broker stamp rid = update_brokers (\<lambda>w. rw_id w = rid) (\<lambda>w. w\<lparr> rw_last_contact := Some stamp \<rparr>)"

definition set_broker_issuer_state :: "int \<Rightarrow> issuer_state \<Rightarrow> ca_db \<Rightarrow> ca_db" where
  "set_broker_issuer_state rid st =
     update_brokers (\<lambda>w. rw_id w = rid) (\<lambda>w. w\<lparr> rw_issuer_state := Some (issuer_state_name st) \<rparr>)"

definition revoke_brokers_of :: "string \<Rightarrow> string \<Rightarrow> ca_db \<Rightarrow> ca_db" where
  "revoke_brokers_of stamp serial =
     update_brokers (\<lambda>w. rw_subordinate_serial w = serial)
       (\<lambda>w. w\<lparr> rw_state := broker_state_as_str RevokedBroker, rw_updated_at := stamp \<rparr>)"

definition broker_cursor :: "int \<Rightarrow> ca_db \<Rightarrow> int" where
  "broker_cursor rid db =
     (case map cw_changed (filter (\<lambda>w. cw_broker_id w = rid) (t_broker_certs db)) of
        [] \<Rightarrow> 0 | c # cs \<Rightarrow> foldl max c cs)"

definition broker_cert_to_row :: "serde_json \<Rightarrow> broker_cert \<Rightarrow> broker_cert_row" where
  "broker_cert_to_row js c =
     \<lparr> cw_broker_id = bc_broker_id c, cw_serial = bc_serial c, cw_common_name = bc_common_name c,
       cw_sans = strings_to_json js (bc_sans c), cw_not_before = bc_not_before c,
       cw_not_after = bc_not_after c, cw_issuer_serial = bc_issuer_serial c,
       cw_revoked_at = bc_revoked_at c, cw_revocation_reason = bc_revocation_reason c,
       cw_changed = bc_changed c \<rparr>"

definition broker_cert_key :: "broker_cert_row \<Rightarrow> int \<times> string" where
  "broker_cert_key w = (cw_broker_id w, cw_serial w)"

definition record_broker_certs :: "serde_json \<Rightarrow> broker_cert list \<Rightarrow> ca_db \<Rightarrow> ca_db" where
  "record_broker_certs js certs db =
     db\<lparr> t_broker_certs :=
       foldl (\<lambda>rows c. tbl_replace broker_cert_key (broker_cert_to_row js c) rows) (t_broker_certs db) certs \<rparr>"

definition row_to_broker_cert :: "serde_json \<Rightarrow> broker_cert_row \<Rightarrow> broker_cert res" where
  "row_to_broker_cert js w =
     (case strings_from_json js (cw_sans w) of
        Inl e \<Rightarrow> conversion_failure 3 e
      | Inr sans \<Rightarrow>
          Ok \<lparr> bc_broker_id = cw_broker_id w, bc_serial = cw_serial w, bc_common_name = cw_common_name w,
               bc_sans = sans, bc_not_before = cw_not_before w, bc_not_after = cw_not_after w,
               bc_issuer_serial = cw_issuer_serial w, bc_revoked_at = cw_revoked_at w,
               bc_revocation_reason = cw_revocation_reason w, bc_changed = cw_changed w \<rparr>)"

text \<open>\<^verbatim>\<open>ORDER BY broker_id, not_after DESC, serial\<close> as three stable sorts, the last key first.\<close>

definition query_broker_certs :: "serde_json \<Rightarrow> ca_db \<Rightarrow> broker_cert list res" where
  "query_broker_certs js db =
     rmap_all (row_to_broker_cert js)
       (sort_key cw_broker_id (rev (sort_key cw_not_after (rev (sort_key cw_serial (t_broker_certs db))))))"

section \<open>OpenVPN templates and profiles\<close>

definition template_ids :: "ca_db \<Rightarrow> int list" where
  "template_ids db = List.map_filter tp_id (t_templates db)"

text \<open>The row number is taken before the conflict on the name is found, so the sequence moves either way.\<close>

definition upsert_openvpn_template ::
  "string \<Rightarrow> string \<Rightarrow> string \<Rightarrow> string option \<Rightarrow> ca_db \<Rightarrow> ca_db" where
  "upsert_openvpn_template stamp name content updated_date db =
     (let date = (case updated_date of Some d \<Rightarrow> d | None \<Rightarrow> stamp);
          rid = next_rowid (template_sequence db) (template_ids db);
          new = \<lparr> tp_id = Some rid, tp_name = name, tp_content = content, tp_updated_date = Some date \<rparr>
      in db\<lparr> t_templates := tbl_upsert tp_name
               (\<lambda>n q. q\<lparr> tp_content := tp_content n, tp_updated_date := tp_updated_date n \<rparr>) new (t_templates db),
             template_sequence := rid \<rparr>)"

definition get_openvpn_template :: "string \<Rightarrow> ca_db \<Rightarrow> openvpn_template option" where
  "get_openvpn_template name db = tbl_lookup tp_name (t_templates db) name"

definition query_all_openvpn_templates :: "ca_db \<Rightarrow> openvpn_template list" where
  "query_all_openvpn_templates db = sort_key tp_name (t_templates db)"

definition delete_openvpn_template :: "string \<Rightarrow> ca_db \<Rightarrow> bool \<times> ca_db" where
  "delete_openvpn_template name db =
     (tbl_count (\<lambda>t. tp_name t = name) (t_templates db) > 0,
      db\<lparr> t_templates := tbl_delete (\<lambda>t. tp_name t = name) (t_templates db) \<rparr>)"

definition openvpn_template_import :: "ca_db \<Rightarrow> template_import res" where
  "openvpn_template_import db =
     (case tbl_lookup cw_id (t_config db) 1 of
        None \<Rightarrow> no_rows
      | Some r \<Rightarrow> Ok (template_import_from_column (cw_openvpn_template_import r)))"

definition set_openvpn_template_import :: "template_import \<Rightarrow> ca_db \<Rightarrow> ca_db" where
  "set_openvpn_template_import st db =
     db\<lparr> t_config := tbl_update (\<lambda>r. cw_id r = 1)
           (\<lambda>r. r\<lparr> cw_openvpn_template_import := template_import_to_column st \<rparr>) (t_config db) \<rparr>"

definition profile_ids :: "ca_db \<Rightarrow> int list" where
  "profile_ids db = List.map_filter vp_id (t_profiles db)"

definition add_openvpn_profile :: "openvpn_profile \<Rightarrow> ca_db \<Rightarrow> ca_db" where
  "add_openvpn_profile p db =
     (let rid = next_rowid (profile_sequence db) (profile_ids db)
      in db\<lparr> t_profiles := t_profiles db @ [p\<lparr> vp_id := Some rid \<rparr>], profile_sequence := rid \<rparr>)"

definition query_all_openvpn_profiles :: "ca_db \<Rightarrow> openvpn_profile list" where
  "query_all_openvpn_profiles db = sort_key vp_cn (t_profiles db)"

text \<open>\<^verbatim>\<open>COLLATE NOCASE\<close> folds ASCII letters; the highest id is the last row.\<close>

definition query_openvpn_profile_for_cn :: "string \<Rightarrow> ca_db \<Rightarrow> openvpn_profile option" where
  "query_openvpn_profile_for_cn cn db =
     List.find (\<lambda>p. eq_ignore_ascii_case (vp_cn p) cn)
       (rev (sort_key (\<lambda>p. case vp_id p of Some rid \<Rightarrow> rid | None \<Rightarrow> 0) (t_profiles db)))"

definition delete_openvpn_profile :: "string \<Rightarrow> ca_db \<Rightarrow> bool \<times> ca_db" where
  "delete_openvpn_profile title db =
     (tbl_count (\<lambda>p. vp_title p = title) (t_profiles db) > 0,
      db\<lparr> t_profiles := tbl_delete (\<lambda>p. vp_title p = title) (t_profiles db) \<rparr>)"

section \<open>DKIM keys\<close>

definition dkim_key :: "dkim_record \<Rightarrow> string \<times> string" where
  "dkim_key r = (dk_domain r, dk_selector r)"

definition merge_dkim :: "dkim_record \<Rightarrow> dkim_record \<Rightarrow> dkim_record" where
  "merge_dkim new old =
     old\<lparr> dk_title := dk_title new,
          dk_key_size := opt_or (dk_key_size new) (dk_key_size old),
          dk_created_at := opt_or (dk_created_at new) (dk_created_at old),
          dk_has_private_key := opt_or (dk_has_private_key new) (dk_has_private_key old),
          dk_has_public_key := opt_or (dk_has_public_key new) (dk_has_public_key old),
          dk_has_dns_record := opt_or (dk_has_dns_record new) (dk_has_dns_record old) \<rparr>"

definition upsert_dkim :: "dkim_record \<Rightarrow> ca_db \<Rightarrow> ca_db" where
  "upsert_dkim r db = db\<lparr> t_dkim := tbl_upsert dkim_key merge_dkim r (t_dkim db), dirty := True \<rparr>"

definition delete_dkim :: "string \<Rightarrow> string \<Rightarrow> ca_db \<Rightarrow> bool \<times> ca_db" where
  "delete_dkim domain selector db =
     (let P = (\<lambda>r. dk_domain r = domain \<and> dk_selector r = selector);
          found = tbl_count P (t_dkim db) > 0
      in (found, db\<lparr> t_dkim := tbl_delete P (t_dkim db), dirty := (found \<or> dirty db) \<rparr>))"

definition query_all_dkim :: "ca_db \<Rightarrow> dkim_record list" where
  "query_all_dkim db = sort_key dkim_key (t_dkim db)"

definition query_dkim :: "string \<Rightarrow> string \<Rightarrow> ca_db \<Rightarrow> dkim_record option" where
  "query_dkim domain selector db =
     List.find (\<lambda>r. dk_domain r = domain \<and> dk_selector r = selector) (t_dkim db)"

definition count_dkim :: "ca_db \<Rightarrow> int" where
  "count_dkim db = int (length (t_dkim db))"

definition sync_dkim :: "dkim_record list \<Rightarrow> ca_db \<Rightarrow> dkim_sync \<times> ca_db" where
  "sync_dkim live db =
     (let before = query_all_dkim db;
          db1 = foldl (\<lambda>d r. upsert_dkim r d) db live;
          gone = filter (\<lambda>row. \<not> list_ex (\<lambda>r. dk_domain r = dk_domain row \<and> dk_selector r = dk_selector row) live) before;
          db2 = foldl (\<lambda>d row. snd (delete_dkim (dk_domain row) (dk_selector row) d)) db1 gone
      in (\<lparr> dks_removed = length gone, dks_changed = (query_all_dkim db2 \<noteq> before) \<rparr>, db2))"

section \<open>Lemmas\<close>

lemma next_rowid_above: "n \<in> set ids \<Longrightarrow> n < next_rowid seq ids" "seq < next_rowid seq ids"
  unfolding next_rowid_def by (induction ids) auto

lemma query_dkim_lookup: "query_dkim d s db = tbl_lookup dkim_key (t_dkim db) (d, s)"
  by (simp add: query_dkim_def tbl_lookup_def dkim_key_def)

lemma dkim_key_merge [simp]: "dkim_key (merge_dkim r q) = dkim_key q"
  by (simp add: dkim_key_def merge_dkim_def)

definition dkim_keyed :: "ca_db \<Rightarrow> bool" where
  "dkim_keyed db \<longleftrightarrow> tbl_keyed dkim_key (t_dkim db)"

lemma upsert_dkim_at:
  "tbl_lookup dkim_key (t_dkim (upsert_dkim r db)) k =
     (if k = dkim_key r then Some (case tbl_lookup dkim_key (t_dkim db) k of Some q \<Rightarrow> merge_dkim r q | None \<Rightarrow> r)
      else tbl_lookup dkim_key (t_dkim db) k)"
  by (simp add: upsert_dkim_def tbl_lookup_upsert)

lemma dkim_keyed_upsert: "dkim_keyed db \<Longrightarrow> dkim_keyed (upsert_dkim r db)"
  by (simp add: dkim_keyed_def upsert_dkim_def tbl_keyed_upsert)

lemma delete_dkim_at:
  assumes "dkim_keyed db"
  shows "tbl_lookup dkim_key (t_dkim (snd (delete_dkim d s db))) k =
      (if k = (d, s) then None else tbl_lookup dkim_key (t_dkim db) k)"
    and "dkim_keyed (snd (delete_dkim d s db))"
proof -
  have rows: "t_dkim (snd (delete_dkim d s db)) = tbl_delete (\<lambda>r. dkim_key r = (d, s)) (t_dkim db)"
    by (simp add: delete_dkim_def Let_def dkim_key_def)
  show "tbl_lookup dkim_key (t_dkim (snd (delete_dkim d s db))) k =
      (if k = (d, s) then None else tbl_lookup dkim_key (t_dkim db) k)"
    using assms by (auto simp: rows dkim_keyed_def tbl_lookup_delete dest: tbl_lookup_in split: option.split)
  show "dkim_keyed (snd (delete_dkim d s db))"
    using assms by (simp add: dkim_keyed_def rows tbl_keyed_delete)
qed

lemma upserts_dkim_at:
  assumes "dkim_keyed db" "distinct (map dkim_key live)"
  shows "dkim_keyed (foldl (\<lambda>d r. upsert_dkim r d) db live)
    \<and> tbl_lookup dkim_key (t_dkim (foldl (\<lambda>d r. upsert_dkim r d) db live)) k =
       (case tbl_lookup dkim_key live k of
          Some r \<Rightarrow> Some (case tbl_lookup dkim_key (t_dkim db) k of Some q \<Rightarrow> merge_dkim r q | None \<Rightarrow> r)
        | None \<Rightarrow> tbl_lookup dkim_key (t_dkim db) k)"
  using assms
proof (induction live arbitrary: db)
  case Nil
  then show ?case by (simp add: tbl_lookup_def)
next
  case (Cons r live)
  have none: "tbl_lookup dkim_key live (dkim_key r) = None"
    using Cons.prems(2) by (simp add: tbl_lookup_None)
  have cons: "tbl_lookup dkim_key (r # live) k = (if dkim_key r = k then Some r else tbl_lookup dkim_key live k)"
    by (simp add: tbl_lookup_def)
  show ?case
    using Cons.IH [of "upsert_dkim r db"] Cons.prems none cons
    by (cases "k = dkim_key r"; cases "tbl_lookup dkim_key live k") (auto simp: dkim_keyed_upsert upsert_dkim_at)
qed

lemma deletes_dkim_at:
  "dkim_keyed db \<Longrightarrow>
   dkim_keyed (foldl (\<lambda>d row. snd (delete_dkim (dk_domain row) (dk_selector row) d)) db gone)
   \<and> tbl_lookup dkim_key (t_dkim (foldl (\<lambda>d row. snd (delete_dkim (dk_domain row) (dk_selector row) d)) db gone)) k
     = (if k \<in> dkim_key ` set gone then None else tbl_lookup dkim_key (t_dkim db) k)"
proof (induction gone arbitrary: db)
  case Nil
  then show ?case by simp
next
  case (Cons row gone)
  then show ?case
    using delete_dkim_at [OF Cons.prems, of "dk_domain row" "dk_selector row"]
    by (auto simp: dkim_key_def)
qed

lemma image_outside: "f ` {x \<in> S. f x \<notin> K} = f ` S - K"
  by auto

definition brokers_keyed :: "ca_db \<Rightarrow> bool" where
  "brokers_keyed db \<longleftrightarrow> tbl_keyed rw_id (t_brokers db)"

lemma update_brokers_at:
  assumes "\<And>w. P w \<Longrightarrow> rw_id (f w) = rw_id w"
  shows "tbl_lookup rw_id (t_brokers (update_brokers P f db)) k =
      map_option (\<lambda>w. if P w then f w else w) (tbl_lookup rw_id (t_brokers db) k)"
  using assms by (simp add: update_brokers_def tbl_lookup_update)

lemma cert_at_update_brokers [simp]: "cert_at (update_brokers P f db) = cert_at db"
  by (simp add: cert_at_def update_brokers_def)

lemma foldl_max_Max: "foldl max c cs = Max (set (c # cs))" for c :: int
proof (induction cs arbitrary: c)
  case Nil
  show ?case by simp
next
  case (Cons d cs)
  then show ?case by (cases "cs = []") (simp_all add: max.assoc)
qed

definition broker_certs_keyed :: "ca_db \<Rightarrow> bool" where
  "broker_certs_keyed db \<longleftrightarrow> tbl_keyed broker_cert_key (t_broker_certs db)"

lemma cursor_max:
  "broker_cursor rid db =
     (if \<exists>w \<in> set (t_broker_certs db). cw_broker_id w = rid
      then Max (cw_changed ` {w \<in> set (t_broker_certs db). cw_broker_id w = rid}) else 0)"
proof (cases "filter (\<lambda>w. cw_broker_id w = rid) (t_broker_certs db)")
  case Nil
  then show ?thesis by (auto simp: broker_cursor_def filter_empty_conv)
next
  case (Cons w ws)
  have "set (w # ws) = {w \<in> set (t_broker_certs db). cw_broker_id w = rid}"
    by (simp flip: Cons)
  moreover from this have "\<exists>w \<in> set (t_broker_certs db). cw_broker_id w = rid" by auto
  moreover have "broker_cursor rid db = Max (cw_changed ` set (w # ws))"
    by (simp add: broker_cursor_def Cons foldl_max_Max)
  ultimately show ?thesis by simp
qed

section \<open>Properties\<close>

text \<open>
  C33: synchronising the DKIM table leaves exactly the keys present in the vault: every live key has
  a row, which is the live record, or the old row with the live record's set fields; every row that
  is not live is gone; and the report counts the removed rows and says whether the listing changed.
\<close>

theorem sync_dkim_matches_live:
  assumes "dkim_keyed db" "distinct (map dkim_key live)" "sync_dkim live db = (report, db')"
  shows "dkim_keyed db'
    \<and> (\<forall>r \<in> set live. query_dkim (dk_domain r) (dk_selector r) db' =
         Some (case query_dkim (dk_domain r) (dk_selector r) db of Some q \<Rightarrow> merge_dkim r q | None \<Rightarrow> r))
    \<and> (\<forall>d s. (d, s) \<notin> dkim_key ` set live \<longrightarrow> query_dkim d s db' = None)
    \<and> dks_removed report = card (dkim_key ` set (t_dkim db) - dkim_key ` set live)
    \<and> (dks_changed report \<longleftrightarrow> query_all_dkim db' \<noteq> query_all_dkim db)"
proof -
  define gone where "gone = filter (\<lambda>row. \<not> list_ex (\<lambda>r. dk_domain r = dk_domain row
      \<and> dk_selector r = dk_selector row) live) (query_all_dkim db)"
  define db1 where "db1 = foldl (\<lambda>d r. upsert_dkim r d) db live"
  have db': "db' = foldl (\<lambda>d row. snd (delete_dkim (dk_domain row) (dk_selector row) d)) db1 gone"
    and report: "dks_removed report = length gone" "dks_changed report \<longleftrightarrow> query_all_dkim db' \<noteq> query_all_dkim db"
    using assms(3) by (auto simp: sync_dkim_def Let_def gone_def db1_def)
  have "(\<not> list_ex (\<lambda>r. dk_domain r = dk_domain row \<and> dk_selector r = dk_selector row) live)
      \<longleftrightarrow> dkim_key row \<notin> dkim_key ` set live" for row
    by (simp add: list_ex_iff dkim_key_def image_iff eq_commute [of "dk_domain row"]
        eq_commute [of "dk_selector row"])
  then have gone: "gone = filter (\<lambda>row. dkim_key row \<notin> dkim_key ` set live) (query_all_dkim db)"
    by (simp add: gone_def)
  have "set gone = {row \<in> set (t_dkim db). dkim_key row \<notin> dkim_key ` set live}"
    by (simp add: gone query_all_dkim_def)
  then have gone_keys: "dkim_key ` set gone = dkim_key ` set (t_dkim db) - dkim_key ` set live"
    by (simp only: image_outside)
  have "distinct (map dkim_key (query_all_dkim db))"
    using assms(1) by (simp add: query_all_dkim_def distinct_map_sort_key dkim_keyed_def tbl_keyed_def)
  then have "distinct (map dkim_key gone)" by (simp add: gone distinct_map_filter)
  then have removed: "length gone = card (dkim_key ` set (t_dkim db) - dkim_key ` set live)"
    by (metis distinct_card gone_keys length_map list.set_map)
  have at: "tbl_lookup dkim_key (t_dkim db') k =
      (if k \<in> dkim_key ` set gone then None
       else case tbl_lookup dkim_key live k of
          Some r \<Rightarrow> Some (case tbl_lookup dkim_key (t_dkim db) k of Some q \<Rightarrow> merge_dkim r q | None \<Rightarrow> r)
        | None \<Rightarrow> tbl_lookup dkim_key (t_dkim db) k)" and "dkim_keyed db'" for k
    using deletes_dkim_at [of db1 gone k] upserts_dkim_at [OF assms(1,2), of k] unfolding db' db1_def by simp_all
  have live_at: "tbl_lookup dkim_key live (dkim_key r) = Some r" if "r \<in> set live" for r
    using tbl_lookup_self [of dkim_key live r] that assms(2) by (simp add: tbl_keyed_def)
  have "\<forall>r \<in> set live. query_dkim (dk_domain r) (dk_selector r) db' =
      Some (case query_dkim (dk_domain r) (dk_selector r) db of Some q \<Rightarrow> merge_dkim r q | None \<Rightarrow> r)"
    using at live_at gone_keys by (auto simp: query_dkim_lookup dkim_key_def [symmetric])
  moreover have "query_dkim d s db' = None" if "(d, s) \<notin> dkim_key ` set live" for d s
  proof -
    have none: "tbl_lookup dkim_key live (d, s) = None" using that by (simp add: tbl_lookup_None)
    have "tbl_lookup dkim_key (t_dkim db) (d, s) = None" if "(d, s) \<notin> dkim_key ` set gone"
      using that \<open>(d, s) \<notin> dkim_key ` set live\<close> gone_keys by (simp add: tbl_lookup_None)
    then show ?thesis using at [of "(d, s)"] none by (simp add: query_dkim_lookup)
  qed
  ultimately show ?thesis using report removed \<open>dkim_keyed db'\<close> by simp
qed

definition dkim_example :: "string \<Rightarrow> dkim_record" where
  "dkim_example domain = \<lparr> dk_domain = domain, dk_selector = ''mail'', dk_title = Some ''t'', dk_key_size = None,
     dk_created_at = None, dk_has_private_key = None, dk_has_public_key = None, dk_has_dns_record = None \<rparr>"

theorem sync_dkim_matches_live_witness:
  "query_dkim ''b'' ''mail'' (snd (sync_dkim [dkim_example ''b''] (upsert_dkim (dkim_example ''a'') (db_new empty_config))))
     = Some (dkim_example ''b'')
   \<and> query_dkim ''a'' ''mail'' (snd (sync_dkim [dkim_example ''b''] (upsert_dkim (dkim_example ''a'') (db_new empty_config)))) = None"
proof -
  let ?db = "upsert_dkim (dkim_example ''a'') (db_new empty_config)"
  have "dkim_keyed (db_new empty_config)" by (simp add: dkim_keyed_def db_new_def tbl_keyed_def)
  then have keyed: "dkim_keyed ?db" by (rule dkim_keyed_upsert)
  have none: "query_dkim ''b'' ''mail'' ?db = None"
    by (simp add: query_dkim_def upsert_dkim_def db_new_def tbl_upsert_def dkim_example_def)
  have dist: "distinct (map dkim_key [dkim_example ''b''])" by simp
  note matches = sync_dkim_matches_live [OF keyed dist, of "fst (sync_dkim [dkim_example ''b''] ?db)"
      "snd (sync_dkim [dkim_example ''b''] ?db)"]
  show ?thesis
    using matches none by (auto simp: dkim_key_def dkim_example_def)
qed

text \<open>
  a CRL batch that was recorded is read back unchanged, as long as the formatter reads back the
  start it printed; clearing the batch leaves none, and neither touches any other table.
\<close>

theorem crl_batch_roundtrip:
  assumes "reads_back lib Openssl (cb_t0 b)"
  shows "get_crl_batch lib (upsert_crl_batch lib b db) = Ok (Some b)
    \<and> get_crl_batch lib (clear_crl_batch (upsert_crl_batch lib b db)) = Ok None
    \<and> (upsert_crl_batch lib b db)\<lparr> t_crl_batch := t_crl_batch db \<rparr> = db"
  using assms by (simp add: get_crl_batch_def upsert_crl_batch_def clear_crl_batch_def reads_back_def)

theorem crl_batch_roundtrip_witness:
  "get_crl_batch seconds_chrono (upsert_crl_batch seconds_chrono (weekly_batch\<lparr> cb_t0 := 1700000000 * second_ns \<rparr>)
      (db_new empty_config)) = Ok (Some (weekly_batch\<lparr> cb_t0 := 1700000000 * second_ns \<rparr>))"
proof -
  have "reads_back seconds_chrono Openssl (1700000000 * second_ns)"
    by (rule seconds_chrono_reads_back) (simp add: i64_defs)
  then show ?thesis
    using crl_batch_roundtrip [of seconds_chrono "weekly_batch\<lparr> cb_t0 := 1700000000 * second_ns \<rparr>"] by simp
qed

text \<open>
  the life of a broker row: adding one returns a number no other row has and records it active
  with the given domains, joined with the common name and expiry of its subordinate's certificate;
  revoking the brokers of that serial makes it read as revoked and leaves the brokers of other
  serials alone.
\<close>

theorem broker_lifecycle:
  assumes "strings_from_json js (strings_to_json js domains) = Inr domains"
    and "brokers_keyed db" "add_broker js stamp serial domains db = (rid, db')"
  shows "rid \<notin> rw_id ` set (t_brokers db) \<and> brokers_keyed db'
    \<and> (\<exists>b. query_broker js rid db' = Ok (Some b) \<and> br_id b = rid \<and> br_state b = Active
        \<and> br_permitted_domains b = domains \<and> br_subordinate_serial b = serial \<and> br_url b = None
        \<and> br_cn b = Option.bind (cert_at db serial) cr_cn
        \<and> query_broker js rid (revoke_brokers_of stamp2 serial db')
            = Ok (Some (b\<lparr> br_state := RevokedBroker, br_updated_at := stamp2 \<rparr>)))
    \<and> (\<forall>other w. tbl_lookup rw_id (t_brokers db) other = Some w \<longrightarrow>
        query_broker js other db' = query_broker js other db
        \<and> (rw_subordinate_serial w \<noteq> serial \<longrightarrow>
             query_broker js other (revoke_brokers_of stamp2 serial db') = query_broker js other db))"
proof -
  define w0 where "w0 = \<lparr> rw_id = rid, rw_subordinate_serial = serial, rw_url = None, rw_pinned_key = None,
      rw_permitted_domains = strings_to_json js domains, rw_state = broker_state_as_str Active,
      rw_last_contact = None, rw_created_at = stamp, rw_updated_at = stamp, rw_issuer_state = None \<rparr>"
  have rid: "rid = next_rowid 0 (map rw_id (t_brokers db))" and db': "db' = db\<lparr> t_brokers := t_brokers db @ [w0] \<rparr>"
    using assms(3) by (auto simp: add_broker_def Let_def w0_def)
  have fresh: "rid \<notin> rw_id ` set (t_brokers db)"
    using next_rowid_above(1) [of rid "map rw_id (t_brokers db)" 0] rid by auto
  have keyed: "brokers_keyed db'"
    using assms(2) fresh by (auto simp: brokers_keyed_def tbl_keyed_def db' w0_def)
  have at: "tbl_lookup rw_id (t_brokers db') k = (if k = rid then Some w0 else tbl_lookup rw_id (t_brokers db) k)" for k
  proof -
    have "tbl_insert rw_id w0 (t_brokers db) = Some (t_brokers db')"
      using fresh by (simp add: tbl_insert_def db' w0_def)
    then show ?thesis using tbl_lookup_insert(2) [of rw_id w0] by (simp add: w0_def)
  qed
  have cert: "cert_at db' = cert_at db" by (simp add: cert_at_def db')
  then have same: "row_to_broker js db' w = row_to_broker js db w" for w
    unfolding row_to_broker_def by (simp only:)
  have rev_at: "tbl_lookup rw_id (t_brokers (revoke_brokers_of stamp2 serial db')) k =
      map_option (\<lambda>w. if rw_subordinate_serial w = serial
          then w\<lparr> rw_state := broker_state_as_str RevokedBroker, rw_updated_at := stamp2 \<rparr> else w)
        (tbl_lookup rw_id (t_brokers db') k)" for k
    unfolding revoke_brokers_of_def by (rule update_brokers_at) simp
  have cert_rev: "row_to_broker js (revoke_brokers_of stamp2 serial db') w = row_to_broker js db w" for w
    unfolding row_to_broker_def revoke_brokers_of_def cert_at_update_brokers cert by (rule refl)
  obtain b where b: "row_to_broker js db w0 = Ok b" "br_id b = rid" "br_state b = Active"
    "br_permitted_domains b = domains" "br_subordinate_serial b = serial" "br_url b = None"
    "br_cn b = Option.bind (cert_at db serial) cr_cn"
    "row_to_broker js db (w0\<lparr> rw_state := broker_state_as_str RevokedBroker, rw_updated_at := stamp2 \<rparr>)
       = Ok (b\<lparr> br_state := RevokedBroker, br_updated_at := stamp2 \<rparr>)"
    using assms(1) by (simp add: row_to_broker_def w0_def broker_state_from_str_def broker_state_as_str_def)
  have w0_serial: "rw_subordinate_serial w0 = serial" by (simp add: w0_def)
  have mine: "query_broker js rid db' = Ok (Some b)"
    "query_broker js rid (revoke_brokers_of stamp2 serial db')
       = Ok (Some (b\<lparr> br_state := RevokedBroker, br_updated_at := stamp2 \<rparr>))"
    using b(1,8) by (simp_all add: query_broker_def at rev_at same cert_rev w0_serial)
  have others: "query_broker js other db' = query_broker js other db
      \<and> (rw_subordinate_serial w \<noteq> serial \<longrightarrow>
           query_broker js other (revoke_brokers_of stamp2 serial db') = query_broker js other db)"
    if "tbl_lookup rw_id (t_brokers db) other = Some w" for other w
  proof -
    have "other \<noteq> rid" using that fresh by (auto dest: tbl_lookup_in)
    then show ?thesis using that by (simp add: query_broker_def at rev_at same cert_rev)
  qed
  show ?thesis using fresh keyed mine b(2-7) others by blast
qed

definition list_json :: serde_json where
  "list_json = \<lparr> strings_to_json = (\<lambda>xs. join ''|'' xs), strings_from_json = (\<lambda>s. Inr (split_char CHR ''|'' s)) \<rparr>"

theorem broker_lifecycle_witness:
  "\<exists>b. query_broker list_json 1 (snd (add_broker list_json ''T'' ''7'' [''home.arpa''] (db_new empty_config))) = Ok (Some b)
     \<and> br_state b = Active \<and> br_permitted_domains b = [''home.arpa'']"
proof -
  have "strings_from_json list_json (strings_to_json list_json [''home.arpa'']) = Inr [''home.arpa'']"
    by (simp add: list_json_def)
  moreover have "brokers_keyed (db_new empty_config)" by (simp add: brokers_keyed_def db_new_def tbl_keyed_def)
  moreover have "fst (add_broker list_json ''T'' ''7'' [''home.arpa''] (db_new empty_config)) = 1"
    by (simp add: add_broker_def db_new_def next_rowid_def)
  ultimately show ?thesis
    using broker_lifecycle [of list_json "[''home.arpa'']" "db_new empty_config" "''T''" "''7''" 1
        "snd (add_broker list_json ''T'' ''7'' [''home.arpa''] (db_new empty_config))"]
    by (metis prod.collapse)
qed

lemma replace_other_broker:
  assumes "cw_broker_id w = rid"
  shows "filter (\<lambda>q. cw_broker_id q \<noteq> rid) (tbl_replace broker_cert_key w rows) = filter (\<lambda>q. cw_broker_id q \<noteq> rid) rows"
  using assms by (auto simp: tbl_replace_def tbl_delete_def broker_cert_key_def intro!: filter_cong)

lemma record_rows_other:
  assumes "\<forall>c \<in> set certs. bc_broker_id c = rid"
  shows "filter (\<lambda>q. cw_broker_id q \<noteq> rid)
      (foldl (\<lambda>rows c. tbl_replace broker_cert_key (broker_cert_to_row js c) rows) rows certs)
      = filter (\<lambda>q. cw_broker_id q \<noteq> rid) rows"
  using assms
  by (induction certs arbitrary: rows) (simp_all add: replace_other_broker broker_cert_to_row_def)

lemma record_rows_from:
  "q \<in> set (foldl (\<lambda>rows c. tbl_replace broker_cert_key (broker_cert_to_row js c) rows) rows certs)
      \<Longrightarrow> q \<in> set rows \<or> (\<exists>c \<in> set certs. q = broker_cert_to_row js c)"
  by (induction certs arbitrary: rows rule: rev_induct) (auto simp: tbl_replace_def tbl_delete_def)

lemma record_rows_last:
  "certs \<noteq> [] \<Longrightarrow> broker_cert_to_row js (last certs)
      \<in> set (foldl (\<lambda>rows c. tbl_replace broker_cert_key (broker_cert_to_row js c) rows) rows certs)"
  by (cases certs rule: rev_cases) (simp_all add: tbl_replace_def)

text \<open>
  the sync cursor of a broker never goes back: recording a page of certificates, which the
  broker reports oldest change first and only past the cursor, moves it to the page's last change,
  and the cursors of the other brokers stay where they are.
\<close>

theorem broker_cursor_advances:
  assumes "certs \<noteq> []" "sorted (map bc_changed certs)"
    and "\<forall>c \<in> set certs. bc_broker_id c = rid \<and> broker_cursor rid db < bc_changed c"
  shows "broker_cursor rid (record_broker_certs js certs db) = bc_changed (last certs)
    \<and> (\<forall>other. other \<noteq> rid \<longrightarrow> broker_cursor other (record_broker_certs js certs db) = broker_cursor other db)"
proof
  define rows where "rows = t_broker_certs (record_broker_certs js certs db)"
  let ?new = "broker_cert_to_row js (last certs)"
  have rows: "rows = foldl (\<lambda>rows c. tbl_replace broker_cert_key (broker_cert_to_row js c) rows) (t_broker_certs db) certs"
    by (simp add: rows_def record_broker_certs_def)
  have new: "?new \<in> set rows" "cw_broker_id ?new = rid" "cw_changed ?new = bc_changed (last certs)"
    using record_rows_last [OF assms(1)] assms(1,3) by (auto simp: rows broker_cert_to_row_def)
  have le_last: "bc_changed c \<le> bc_changed (last certs)" if "c \<in> set certs" for c
    using assms(1,2) that by (induction certs) auto
  have "cw_changed q \<le> bc_changed (last certs)" if q: "q \<in> set rows" "cw_broker_id q = rid" for q
  proof (cases "q \<in> set (t_broker_certs db)")
    case True
    then have "cw_changed q \<le> broker_cursor rid db" using q(2) by (auto simp: cursor_max intro!: Max_ge)
    then show ?thesis using assms(1,3) by (meson last_in_set less_imp_le order_trans)
  next
    case False
    then obtain c where "c \<in> set certs" "q = broker_cert_to_row js c"
      using record_rows_from q(1) unfolding rows by blast
    then show ?thesis using le_last by (simp add: broker_cert_to_row_def)
  qed
  then have "Max (cw_changed ` {w \<in> set rows. cw_broker_id w = rid}) = bc_changed (last certs)"
    using new by (intro Max_eqI) (auto intro: rev_image_eqI)
  then show "broker_cursor rid (record_broker_certs js certs db) = bc_changed (last certs)"
    using new unfolding cursor_max rows_def [symmetric] by auto
  show "\<forall>other. other \<noteq> rid \<longrightarrow> broker_cursor other (record_broker_certs js certs db) = broker_cursor other db"
  proof (intro allI impI)
    fix other assume "other \<noteq> rid"
    then have "filter (\<lambda>w. cw_broker_id w = other) xs = filter (\<lambda>w. cw_broker_id w = other) (filter (\<lambda>q. cw_broker_id q \<noteq> rid) xs)" for xs
      by (auto intro!: filter_cong)
    moreover have "filter (\<lambda>q. cw_broker_id q \<noteq> rid) rows = filter (\<lambda>q. cw_broker_id q \<noteq> rid) (t_broker_certs db)"
      unfolding rows using assms(3) by (intro record_rows_other) auto
    ultimately have "filter (\<lambda>w. cw_broker_id w = other) rows = filter (\<lambda>w. cw_broker_id w = other) (t_broker_certs db)"
      by metis
    then show "broker_cursor other (record_broker_certs js certs db) = broker_cursor other db"
      by (simp add: broker_cursor_def flip: rows_def)
  qed
qed

definition broker_cert_example :: broker_cert where
  "broker_cert_example = \<lparr> bc_broker_id = 1, bc_serial = ''9'', bc_common_name = None, bc_sans = [],
     bc_not_before = ''a'', bc_not_after = ''b'', bc_issuer_serial = ''7'', bc_revoked_at = None,
     bc_revocation_reason = None, bc_changed = 4 \<rparr>"

theorem broker_cursor_advances_witness:
  "broker_cursor 1 (record_broker_certs list_json [broker_cert_example] (db_new empty_config)) = 4"
  using broker_cursor_advances [of "[broker_cert_example]" 1 "db_new empty_config" list_json]
  by (simp add: broker_cert_example_def broker_cursor_def db_new_def)

text \<open>
  a request that was added is found under a number that no request, present or deleted earlier
  in the same database, ever had, and deleting it by that number removes it and nothing else.
\<close>

theorem csr_numbers_fresh:
  assumes "db' = add_csr r db"
  shows "csr_sequence db < csr_sequence db'
    \<and> csr_sequence db' \<notin> set (csr_ids db)
    \<and> query_csr (CsrById (csr_sequence db')) db' = Some (r\<lparr> sr_id := Some (csr_sequence db') \<rparr>)
    \<and> delete_csr (csr_sequence db') db' = (True, db\<lparr> csr_sequence := csr_sequence db' \<rparr>)"
proof -
  define rid where "rid = next_rowid (csr_sequence db) (csr_ids db)"
  have seq: "csr_sequence db' = rid" and rows: "t_csr db' = t_csr db @ [r\<lparr> sr_id := Some rid \<rparr>]"
    using assms by (simp_all add: add_csr_def Let_def rid_def)
  have "csr_sequence db < rid" and fresh: "rid \<notin> set (csr_ids db)"
    using next_rowid_above(1) [of rid "csr_ids db" "csr_sequence db"] next_rowid_above(2) by (auto simp: rid_def)
  have no: "sr_id q \<noteq> Some rid" if "q \<in> set (t_csr db)" for q
    using fresh that by (force simp: csr_ids_def List.map_filter_def)
  then have "List.find (\<lambda>q. sr_id q = Some rid) (t_csr db) = None"
    and "filter (\<lambda>q. sr_id q \<noteq> Some rid) (t_csr db) = t_csr db"
    by (auto simp: find_None_iff filter_id_conv)
  moreover have "db' = db\<lparr> t_csr := t_csr db', csr_sequence := rid \<rparr>"
    using assms by (simp add: add_csr_def Let_def rid_def)
  ultimately show ?thesis
    using \<open>csr_sequence db < rid\<close> fresh
    by (simp add: seq rows query_csr_def find_append delete_csr_def tbl_count_def tbl_delete_def)
qed

theorem csr_numbers_fresh_witness:
  "query_csr (CsrById 1) (add_csr \<lparr> sr_id = None, sr_cn = Some ''web'', sr_title = None, sr_csr_type = None,
      sr_email = None, sr_subject = None, sr_status = Some ''Pending'', sr_created_date = None, sr_csr_pem = None \<rparr>
      (db_new empty_config)) \<noteq> None"
proof -
  let ?r = "\<lparr> sr_id = None, sr_cn = Some ''web'', sr_title = None, sr_csr_type = None,
      sr_email = None, sr_subject = None, sr_status = Some ''Pending'', sr_created_date = None, sr_csr_pem = None \<rparr> :: csr_record"
  have "csr_sequence (add_csr ?r (db_new empty_config)) = 1"
    by (simp add: add_csr_def next_rowid_def csr_ids_def db_new_def List.map_filter_def)
  then show ?thesis using csr_numbers_fresh [of _ ?r "db_new empty_config", OF refl] by simp
qed

end
