(* ===== verification/Acme_Store.thy ===== *)
theory Acme_Store
  imports Acme_Base Db_Misc
begin

text \<open>
  The ACME server's database, from \<^verbatim>\<open>crates/opca-acme-broker/src/acme/store.rs\<close> and its migrations: the
  rows of its tables and one definition for each transaction. A transaction that fails leaves the
  database as it was. Status columns hold the enums their \<^verbatim>\<open>CHECK\<close> admits; dates and JSON columns are
  text, written and read by the libraries of the environment. The table of external account keys is
  never written and is left out.
\<close>

section \<open>Rows\<close>

record account_row =
  ac_id :: int
  ac_jwk :: string
  ac_thumbprint :: string
  ac_status :: account_status
  ac_contacts :: string
  ac_created :: string

record order_row =
  or_id :: int
  or_account :: int
  or_status :: order_status
  or_identifiers :: string
  or_not_before :: "string option"
  or_not_after :: "string option"
  or_expires :: string
  or_error :: "string option"
  or_certificate :: "int option"
  or_created :: string

record authorisation_row =
  az_id :: int
  az_order :: int
  az_identifier :: string
  az_wildcard :: bool
  az_status :: authorisation_status
  az_expires :: string

record challenge_row =
  ch_id :: int
  ch_authorisation :: int
  ch_kind :: challenge_type
  ch_token :: string
  ch_status :: challenge_status
  ch_validated :: "string option"
  ch_error :: "string option"

record leaf_row =
  lf_id :: int
  lf_serial :: string
  lf_account :: int
  lf_order :: int
  lf_common_name :: "string option"
  lf_sans :: string
  lf_not_before :: string
  lf_not_after :: string
  lf_chain_pem :: string
  lf_issuer_serial :: string
  lf_revoked_at :: "string option"
  lf_reason :: "nat option"
  lf_created :: string
  lf_changed :: int

record acme_db =
  d_accounts :: "account_row list"
  d_orders :: "order_row list"
  d_authorisations :: "authorisation_row list"
  d_challenges :: "challenge_row list"
  d_leaves :: "leaf_row list"
  d_leaf_sequence :: int
  d_crl_number :: "int option"

text \<open>A new database, migrated.\<close>

definition acme_db_new :: acme_db where
  "acme_db_new = \<lparr> d_accounts = [], d_orders = [], d_authorisations = [], d_challenges = [], d_leaves = [],
     d_leaf_sequence = 0, d_crl_number = None \<rparr>"

section \<open>Values read back\<close>

record account =
  a_id :: int
  a_jwk :: string
  a_thumbprint :: string
  a_status :: account_status
  a_contacts :: "string list"
  a_created :: int

record new_authorisation =
  na_identifier :: string
  na_wildcard :: bool
  na_expires :: int
  na_challenges :: "challenge_type list"

record new_order =
  no_account :: int
  no_identifiers :: "string list"
  no_not_before :: "int option"
  no_not_after :: "int option"
  no_expires :: int
  no_authorisations :: "new_authorisation list"

record order =
  o_id :: int
  o_account :: int
  o_status :: order_status
  o_identifiers :: "string list"
  o_not_before :: "int option"
  o_not_after :: "int option"
  o_expires :: int
  o_error :: "problem option"
  o_certificate :: "int option"
  o_authorisations :: "int list"

record challenge =
  c_id :: int
  c_authorisation :: int
  c_kind :: challenge_type
  c_token :: string
  c_status :: challenge_status
  c_validated :: "int option"
  c_error :: "problem option"

record authorisation =
  z_id :: int
  z_order :: int
  z_identifier :: string
  z_wildcard :: bool
  z_status :: authorisation_status
  z_expires :: int
  z_challenges :: "challenge list"

record new_leaf =
  nl_serial :: string
  nl_common_name :: "string option"
  nl_sans :: "string list"
  nl_not_before :: int
  nl_not_after :: int
  nl_chain_pem :: string
  nl_issuer_serial :: string

record leaf =
  l_id :: int
  l_serial :: string
  l_account :: int
  l_order :: int
  l_common_name :: "string option"
  l_sans :: "string list"
  l_not_before :: int
  l_not_after :: int
  l_chain_pem :: string
  l_issuer_serial :: string
  l_revoked_at :: "int option"
  l_reason :: "nat option"
  l_created :: int
  l_changed :: int

record validation =
  vn_challenge :: int
  vn_kind :: challenge_type
  vn_identifier :: string
  vn_key_authorisation :: string

datatype store_error = Db_Error string | Random_Error string | Not_Found string string | Transition_Error string string string
  | Already_Revoked string | Key_In_Use int | Unrestorable string

text \<open>
  The libraries: how instants and JSON values are written to text columns and read back, one reading
  of the clock for a transaction, and the random bytes of the n-th token drawn in it.
\<close>

record acme_lib =
  al_format :: "int \<Rightarrow> string"
  al_parse :: "string \<Rightarrow> string + int"
  al_json_texts :: "string list \<Rightarrow> string"
  al_read_texts :: "string \<Rightarrow> string + string list"
  al_json_problem :: "problem \<Rightarrow> string"
  al_read_problem :: "string \<Rightarrow> string + problem"
  al_now :: int
  al_random :: "nat \<Rightarrow> string + bytes"

type_synonym 'a stored = "store_error + 'a"

definition sbind :: "'e + 'a \<Rightarrow> ('a \<Rightarrow> 'e + 'b) \<Rightarrow> 'e + 'b" where
  "sbind m f = (case m of Inl e \<Rightarrow> Inl e | Inr x \<Rightarrow> f x)"

fun smap_all :: "('a \<Rightarrow> 'e + 'b) \<Rightarrow> 'a list \<Rightarrow> 'e + 'b list" where
  "smap_all f [] = Inr []"
| "smap_all f (x # xs) = sbind (f x) (\<lambda>y. sbind (smap_all f xs) (\<lambda>ys. Inr (y # ys)))"

definition now_text :: "acme_lib \<Rightarrow> string" where
  "now_text lib = al_format lib (al_now lib)"

definition unreadable :: "string \<Rightarrow> string + 'a \<Rightarrow> 'a stored" where
  "unreadable column r = (case r of Inl e \<Rightarrow> Inl (Db_Error (column @ '': '' @ e)) | Inr x \<Rightarrow> Inr x)"

definition read_time :: "acme_lib \<Rightarrow> string \<Rightarrow> string \<Rightarrow> int stored" where
  "read_time lib column text = unreadable column (al_parse lib text)"

definition optional_time :: "acme_lib \<Rightarrow> string \<Rightarrow> string option \<Rightarrow> int option stored" where
  "optional_time lib column text =
     (case text of None \<Rightarrow> Inr None | Some s \<Rightarrow> sbind (read_time lib column s) (\<lambda>t. Inr (Some t)))"

definition optional_problem :: "acme_lib \<Rightarrow> string \<Rightarrow> string option \<Rightarrow> problem option stored" where
  "optional_problem lib column text =
     (case text of None \<Rightarrow> Inr None | Some s \<Rightarrow> sbind (unreadable column (al_read_problem lib s)) (\<lambda>p. Inr (Some p)))"

definition account_of_row :: "acme_lib \<Rightarrow> account_row \<Rightarrow> account stored" where
  "account_of_row lib r =
     sbind (unreadable ''contacts'' (al_read_texts lib (ac_contacts r))) (\<lambda>contacts.
     sbind (read_time lib ''created'' (ac_created r)) (\<lambda>created.
       Inr \<lparr> a_id = ac_id r, a_jwk = ac_jwk r, a_thumbprint = ac_thumbprint r, a_status = ac_status r,
             a_contacts = contacts, a_created = created \<rparr>))"

definition challenge_of_row :: "acme_lib \<Rightarrow> challenge_row \<Rightarrow> challenge stored" where
  "challenge_of_row lib r =
     sbind (optional_time lib ''validated'' (ch_validated r)) (\<lambda>validated.
     sbind (optional_problem lib ''error'' (ch_error r)) (\<lambda>err.
       Inr \<lparr> c_id = ch_id r, c_authorisation = ch_authorisation r, c_kind = ch_kind r, c_token = ch_token r,
             c_status = ch_status r, c_validated = validated, c_error = err \<rparr>))"

definition leaf_of_row :: "acme_lib \<Rightarrow> leaf_row \<Rightarrow> leaf stored" where
  "leaf_of_row lib r =
     sbind (unreadable ''sans'' (al_read_texts lib (lf_sans r))) (\<lambda>sans.
     sbind (read_time lib ''not_before'' (lf_not_before r)) (\<lambda>not_before.
     sbind (read_time lib ''not_after'' (lf_not_after r)) (\<lambda>not_after.
     sbind (optional_time lib ''revoked_at'' (lf_revoked_at r)) (\<lambda>revoked_at.
     sbind (read_time lib ''created'' (lf_created r)) (\<lambda>created.
       Inr \<lparr> l_id = lf_id r, l_serial = lf_serial r, l_account = lf_account r, l_order = lf_order r,
             l_common_name = lf_common_name r, l_sans = sans, l_not_before = not_before, l_not_after = not_after,
             l_chain_pem = lf_chain_pem r, l_issuer_serial = lf_issuer_serial r, l_revoked_at = revoked_at,
             l_reason = lf_reason r, l_created = created, l_changed = lf_changed r \<rparr>)))))"

section \<open>Life cycles\<close>

record ('r, 's) lifecycle =
  lc_table :: string
  lc_id :: "'r \<Rightarrow> int"
  lc_status :: "'r \<Rightarrow> 's"
  lc_set :: "'s \<Rightarrow> 'r \<Rightarrow> 'r"
  lc_may_become :: "'s \<Rightarrow> 's \<Rightarrow> bool"
  lc_as_str :: "'s \<Rightarrow> string"

definition account_life :: "(account_row, account_status) lifecycle" where
  "account_life = \<lparr> lc_table = ''accounts'', lc_id = ac_id, lc_status = ac_status, lc_set = (\<lambda>s r. r\<lparr> ac_status := s \<rparr>),
     lc_may_become = account_may_become, lc_as_str = account_status_str \<rparr>"

definition order_life :: "(order_row, order_status) lifecycle" where
  "order_life = \<lparr> lc_table = ''orders'', lc_id = or_id, lc_status = or_status, lc_set = (\<lambda>s r. r\<lparr> or_status := s \<rparr>),
     lc_may_become = order_may_become, lc_as_str = order_status_str \<rparr>"

definition authorisation_life :: "(authorisation_row, authorisation_status) lifecycle" where
  "authorisation_life = \<lparr> lc_table = ''authorisations'', lc_id = az_id, lc_status = az_status,
     lc_set = (\<lambda>s r. r\<lparr> az_status := s \<rparr>), lc_may_become = authorisation_may_become, lc_as_str = authorisation_status_str \<rparr>"

definition challenge_life :: "(challenge_row, challenge_status) lifecycle" where
  "challenge_life = \<lparr> lc_table = ''challenges'', lc_id = ch_id, lc_status = ch_status, lc_set = (\<lambda>s r. r\<lparr> ch_status := s \<rparr>),
     lc_may_become = challenge_may_become, lc_as_str = challenge_status_str \<rparr>"

definition read_status :: "('r, 's) lifecycle \<Rightarrow> int \<Rightarrow> 'r list \<Rightarrow> 's stored" where
  "read_status lc i rows =
     (case List.find (\<lambda>r. lc_id lc r = i) rows of
        None \<Rightarrow> Inl (Not_Found (lc_table lc) (int_to_string i)) | Some r \<Rightarrow> Inr (lc_status lc r))"

definition transition :: "('r, 's) lifecycle \<Rightarrow> int \<Rightarrow> 's \<Rightarrow> 'r list \<Rightarrow> 'r list stored" where
  "transition lc i to rows =
     sbind (read_status lc i rows) (\<lambda>from.
       if \<not> lc_may_become lc from to then Inl (Transition_Error (lc_table lc) (lc_as_str lc from) (lc_as_str lc to))
       else Inr (tbl_update (\<lambda>r. lc_id lc r = i) (lc_set lc to) rows))"

section \<open>Accounts\<close>

definition create_account ::
  "acme_lib \<Rightarrow> string \<Rightarrow> string \<Rightarrow> string list \<Rightarrow> acme_db \<Rightarrow> ((account \<times> bool) \<times> acme_db) stored" where
  "create_account lib jwk thumbprint contacts db =
     (case List.find (\<lambda>r. ac_thumbprint r = thumbprint) (d_accounts db) of
        Some r \<Rightarrow> sbind (account_of_row lib r) (\<lambda>a. Inr ((a, False), db))
      | None \<Rightarrow>
          (let r = \<lparr> ac_id = next_rowid 0 (map ac_id (d_accounts db)), ac_jwk = jwk, ac_thumbprint = thumbprint,
                     ac_status = AccountValid, ac_contacts = al_json_texts lib contacts, ac_created = now_text lib \<rparr>
           in sbind (account_of_row lib r) (\<lambda>a. Inr ((a, True), db\<lparr> d_accounts := d_accounts db @ [r] \<rparr>))))"

definition account_where :: "acme_lib \<Rightarrow> (account_row \<Rightarrow> bool) \<Rightarrow> acme_db \<Rightarrow> account option stored" where
  "account_where lib P db =
     (case List.find P (d_accounts db) of
        None \<Rightarrow> Inr None | Some r \<Rightarrow> sbind (account_of_row lib r) (\<lambda>a. Inr (Some a)))"

definition account_by_id :: "acme_lib \<Rightarrow> int \<Rightarrow> acme_db \<Rightarrow> account option stored" where
  "account_by_id lib i = account_where lib (\<lambda>r. ac_id r = i)"

definition account_by_thumbprint :: "acme_lib \<Rightarrow> string \<Rightarrow> acme_db \<Rightarrow> account option stored" where
  "account_by_thumbprint lib thumbprint = account_where lib (\<lambda>r. ac_thumbprint r = thumbprint)"

definition set_contacts :: "acme_lib \<Rightarrow> int \<Rightarrow> string list \<Rightarrow> acme_db \<Rightarrow> acme_db" where
  "set_contacts lib i contacts db =
     db\<lparr> d_accounts := tbl_update (\<lambda>r. ac_id r = i) (\<lambda>r. r\<lparr> ac_contacts := al_json_texts lib contacts \<rparr>) (d_accounts db) \<rparr>"

definition change_key :: "int \<Rightarrow> string \<Rightarrow> string \<Rightarrow> acme_db \<Rightarrow> acme_db stored" where
  "change_key i jwk thumbprint db =
     (let changed = Inr (db\<lparr> d_accounts := tbl_update (\<lambda>r. ac_id r = i)
                          (\<lambda>r. r\<lparr> ac_jwk := jwk, ac_thumbprint := thumbprint \<rparr>) (d_accounts db) \<rparr>)
      in case List.find (\<lambda>r. ac_thumbprint r = thumbprint) (d_accounts db) of
           Some holder \<Rightarrow> if ac_id holder \<noteq> i then Inl (Key_In_Use (ac_id holder)) else changed
         | None \<Rightarrow> changed)"

definition orders_of :: "int \<Rightarrow> acme_db \<Rightarrow> int list" where
  "orders_of a db = sort (map or_id (filter (\<lambda>r. or_account r = a) (d_orders db)))"

definition set_account_status :: "int \<Rightarrow> account_status \<Rightarrow> acme_db \<Rightarrow> acme_db stored" where
  "set_account_status i to db =
     sbind (transition account_life i to (d_accounts db)) (\<lambda>rows. Inr (db\<lparr> d_accounts := rows \<rparr>))"

section \<open>Orders, authorisations and challenges\<close>

definition order_by_id :: "acme_lib \<Rightarrow> int \<Rightarrow> acme_db \<Rightarrow> order option stored" where
  "order_by_id lib i db =
     (case List.find (\<lambda>r. or_id r = i) (d_orders db) of
        None \<Rightarrow> Inr None
      | Some r \<Rightarrow>
          sbind (unreadable ''identifiers'' (al_read_texts lib (or_identifiers r))) (\<lambda>identifiers.
          sbind (optional_time lib ''not_before'' (or_not_before r)) (\<lambda>not_before.
          sbind (optional_time lib ''not_after'' (or_not_after r)) (\<lambda>not_after.
          sbind (read_time lib ''expires'' (or_expires r)) (\<lambda>expires.
          sbind (optional_problem lib ''error'' (or_error r)) (\<lambda>err.
            Inr (Some \<lparr> o_id = i, o_account = or_account r, o_status = or_status r, o_identifiers = identifiers,
                        o_not_before = not_before, o_not_after = not_after, o_expires = expires, o_error = err,
                        o_certificate = or_certificate r,
                        o_authorisations = sort (map az_id (filter (\<lambda>z. az_order z = i) (d_authorisations db))) \<rparr>)))))))"

definition authorisation_by_id :: "acme_lib \<Rightarrow> int \<Rightarrow> acme_db \<Rightarrow> authorisation option stored" where
  "authorisation_by_id lib i db =
     (case List.find (\<lambda>r. az_id r = i) (d_authorisations db) of
        None \<Rightarrow> Inr None
      | Some r \<Rightarrow>
          sbind (smap_all (challenge_of_row lib) (sort_key ch_id (filter (\<lambda>c. ch_authorisation c = i) (d_challenges db)))) (\<lambda>cs.
          sbind (read_time lib ''expires'' (az_expires r)) (\<lambda>expires.
            Inr (Some \<lparr> z_id = i, z_order = az_order r, z_identifier = az_identifier r, z_wildcard = az_wildcard r,
                        z_status = az_status r, z_expires = expires, z_challenges = cs \<rparr>))))"

definition challenge_by_id :: "acme_lib \<Rightarrow> int \<Rightarrow> acme_db \<Rightarrow> challenge option stored" where
  "challenge_by_id lib i db =
     (case List.find (\<lambda>r. ch_id r = i) (d_challenges db) of
        None \<Rightarrow> Inr None | Some r \<Rightarrow> sbind (challenge_of_row lib r) (\<lambda>c. Inr (Some c)))"

text \<open>The challenges of one authorisation, drawing tokens from the \<open>n\<close>-th on.\<close>

fun insert_challenges :: "acme_lib \<Rightarrow> int \<Rightarrow> challenge_type list \<Rightarrow> nat \<Rightarrow> acme_db \<Rightarrow> (nat \<times> acme_db) stored" where
  "insert_challenges lib z [] n db = Inr (n, db)"
| "insert_challenges lib z (kind # kinds) n db =
     (case al_random lib n of
        Inl e \<Rightarrow> Inl (Random_Error e)
      | Inr raw \<Rightarrow>
          (let c = \<lparr> ch_id = next_rowid 0 (map ch_id (d_challenges db)), ch_authorisation = z, ch_kind = kind,
                     ch_token = base64url raw, ch_status = ChalPending, ch_validated = None, ch_error = None \<rparr>
           in if base64url raw \<in> ch_token ` set (d_challenges db)
              then Inl (Db_Error ''UNIQUE constraint failed: challenges.token'')
              else insert_challenges lib z kinds (Suc n) (db\<lparr> d_challenges := d_challenges db @ [c] \<rparr>)))"

fun insert_authorisations :: "acme_lib \<Rightarrow> int \<Rightarrow> new_authorisation list \<Rightarrow> nat \<Rightarrow> acme_db \<Rightarrow> acme_db stored" where
  "insert_authorisations lib o' [] n db = Inr db"
| "insert_authorisations lib o' (new # news) n db =
     (let i = next_rowid 0 (map az_id (d_authorisations db));
          z = \<lparr> az_id = i, az_order = o', az_identifier = na_identifier new, az_wildcard = na_wildcard new,
                az_status = AuthPending, az_expires = al_format lib (na_expires new) \<rparr>
      in sbind (insert_challenges lib i (na_challenges new) n (db\<lparr> d_authorisations := d_authorisations db @ [z] \<rparr>))
           (\<lambda>(n, db). insert_authorisations lib o' news n db))"

definition create_order :: "acme_lib \<Rightarrow> new_order \<Rightarrow> acme_db \<Rightarrow> (order \<times> acme_db) stored" where
  "create_order lib new db =
     (let i = next_rowid 0 (map or_id (d_orders db));
          r = \<lparr> or_id = i, or_account = no_account new, or_status = OrderPending,
                or_identifiers = al_json_texts lib (no_identifiers new),
                or_not_before = map_option (al_format lib) (no_not_before new),
                or_not_after = map_option (al_format lib) (no_not_after new), or_expires = al_format lib (no_expires new),
                or_error = None, or_certificate = None, or_created = now_text lib \<rparr>
      in if no_account new \<notin> ac_id ` set (d_accounts db) then Inl (Db_Error ''FOREIGN KEY constraint failed'')
         else sbind (insert_authorisations lib i (no_authorisations new) 0 (db\<lparr> d_orders := d_orders db @ [r] \<rparr>)) (\<lambda>db'.
              sbind (order_by_id lib i db') (\<lambda>o'. Inr (the o', db'))))"

text \<open>An order cannot be ready once any of its authorisations has failed or gone.\<close>

definition has_failed :: "acme_db \<Rightarrow> order_row \<Rightarrow> bool" where
  "has_failed db r \<longleftrightarrow> list_ex (\<lambda>z. az_order z = or_id r \<and> az_status z \<notin> {AuthPending, AuthValid}) (d_authorisations db)"

definition all_valid :: "acme_db \<Rightarrow> order_row \<Rightarrow> bool" where
  "all_valid db r \<longleftrightarrow> list_all (\<lambda>z. az_order z = or_id r \<longrightarrow> az_status z = AuthValid) (d_authorisations db)"

definition fail_orders :: "(order_row \<Rightarrow> bool) \<Rightarrow> acme_db \<Rightarrow> acme_db" where
  "fail_orders P db =
     db\<lparr> d_orders := tbl_update (\<lambda>r. or_status r \<in> {OrderPending, OrderReady} \<and> has_failed db r \<and> P r)
           (\<lambda>r. r\<lparr> or_status := OrderInvalid \<rparr>) (d_orders db) \<rparr>"

definition ready_orders :: "(order_row \<Rightarrow> bool) \<Rightarrow> acme_db \<Rightarrow> acme_db" where
  "ready_orders P db =
     db\<lparr> d_orders := tbl_update (\<lambda>r. P r \<and> or_status r = OrderPending \<and> all_valid db r)
           (\<lambda>r. r\<lparr> or_status := OrderReady \<rparr>) (d_orders db) \<rparr>"

definition settle_order_of :: "int \<Rightarrow> acme_db \<Rightarrow> acme_db stored" where
  "settle_order_of z db =
     (case List.find (\<lambda>r. az_id r = z) (d_authorisations db) of
        None \<Rightarrow> Inl (Db_Error ''no rows returned by a query that expected to return at least one row'')
      | Some r \<Rightarrow> Inr (ready_orders (\<lambda>q. or_id q = az_order r) (fail_orders (\<lambda>q. or_id q = az_order r) db)))"

definition set_order_status :: "acme_lib \<Rightarrow> int \<Rightarrow> order_status \<Rightarrow> problem option \<Rightarrow> acme_db \<Rightarrow> acme_db stored" where
  "set_order_status lib i to err db =
     sbind (transition order_life i to (d_orders db)) (\<lambda>rows.
       Inr (db\<lparr> d_orders := tbl_update (\<lambda>r. or_id r = i) (\<lambda>r. r\<lparr> or_error := map_option (al_json_problem lib) err \<rparr>) rows \<rparr>))"

definition set_authorisation_status :: "int \<Rightarrow> authorisation_status \<Rightarrow> acme_db \<Rightarrow> acme_db stored" where
  "set_authorisation_status i to db =
     sbind (transition authorisation_life i to (d_authorisations db)) (\<lambda>rows.
       settle_order_of i (db\<lparr> d_authorisations := rows \<rparr>))"

definition decide_authorisation :: "int \<Rightarrow> authorisation_status \<Rightarrow> acme_db \<Rightarrow> acme_db stored" where
  "decide_authorisation z decided db =
     settle_order_of z (db\<lparr> d_authorisations := tbl_update (\<lambda>r. az_id r = z \<and> az_status r = AuthPending)
       (\<lambda>r. r\<lparr> az_status := decided \<rparr>) (d_authorisations db) \<rparr>)"

definition set_challenge_status :: "acme_lib \<Rightarrow> int \<Rightarrow> challenge_status \<Rightarrow> problem option \<Rightarrow> acme_db \<Rightarrow> acme_db stored" where
  "set_challenge_status lib i to err db =
     sbind (transition challenge_life i to (d_challenges db)) (\<lambda>rows.
       let rows = tbl_update (\<lambda>r. ch_id r = i) (\<lambda>r. r\<lparr> ch_error := map_option (al_json_problem lib) err \<rparr>) rows;
           decide = (\<lambda>decided.
             let rows = tbl_update (\<lambda>r. ch_id r = i)
                   (\<lambda>r. r\<lparr> ch_validated := if ch_status r = ChalValid then Some (now_text lib) else None \<rparr>) rows
             in case List.find (\<lambda>r. ch_id r = i) rows of
                  None \<Rightarrow> Inl (Db_Error ''no rows returned by a query that expected to return at least one row'')
                | Some r \<Rightarrow> decide_authorisation (ch_authorisation r) decided (db\<lparr> d_challenges := rows \<rparr>))
       in case to of
            ChalValid \<Rightarrow> decide AuthValid
          | ChalInvalid \<Rightarrow> decide AuthInvalid
          | _ \<Rightarrow> Inr (db\<lparr> d_challenges := rows \<rparr>))"

section \<open>Certificates\<close>

definition next_change :: "acme_db \<Rightarrow> int" where
  "next_change db = foldl max 0 (map lf_changed (d_leaves db)) + 1"

definition record_certificate :: "acme_lib \<Rightarrow> int \<Rightarrow> new_leaf \<Rightarrow> acme_db \<Rightarrow> (leaf \<times> acme_db) stored" where
  "record_certificate lib i issued db =
     sbind (read_status order_life i (d_orders db)) (\<lambda>status.
     sbind (if status = OrderReady then transition order_life i OrderProcessing (d_orders db) else Inr (d_orders db)) (\<lambda>rows.
     sbind (transition order_life i OrderValid rows) (\<lambda>rows.
       case List.find (\<lambda>r. or_id r = i) rows of
         None \<Rightarrow> Inl (Db_Error ''no rows returned by a query that expected to return at least one row'')
       | Some r \<Rightarrow>
           (let k = next_rowid (d_leaf_sequence db) (map lf_id (d_leaves db));
                l = \<lparr> lf_id = k, lf_serial = nl_serial issued, lf_account = or_account r, lf_order = i,
                      lf_common_name = nl_common_name issued, lf_sans = al_json_texts lib (nl_sans issued),
                      lf_not_before = al_format lib (nl_not_before issued), lf_not_after = al_format lib (nl_not_after issued),
                      lf_chain_pem = nl_chain_pem issued, lf_issuer_serial = nl_issuer_serial issued,
                      lf_revoked_at = None, lf_reason = None, lf_created = now_text lib, lf_changed = next_change db \<rparr>;
                db' = db\<lparr> d_orders := tbl_update (\<lambda>r. or_id r = i) (\<lambda>r. r\<lparr> or_certificate := Some k \<rparr>) rows,
                          d_leaves := d_leaves db @ [l], d_leaf_sequence := k \<rparr>
            in if nl_serial issued \<in> lf_serial ` set (d_leaves db) then Inl (Db_Error ''UNIQUE constraint failed: certificates.serial'')
               else if i \<in> lf_order ` set (d_leaves db) then Inl (Db_Error ''UNIQUE constraint failed: certificates.order_id'')
               else sbind (leaf_of_row lib l) (\<lambda>recorded. Inr (recorded, db'))))))"

definition leaf_where :: "acme_lib \<Rightarrow> (leaf_row \<Rightarrow> bool) \<Rightarrow> acme_db \<Rightarrow> leaf option stored" where
  "leaf_where lib P db =
     (case List.find P (d_leaves db) of None \<Rightarrow> Inr None | Some r \<Rightarrow> sbind (leaf_of_row lib r) (\<lambda>l. Inr (Some l)))"

definition certificate_by_id :: "acme_lib \<Rightarrow> int \<Rightarrow> acme_db \<Rightarrow> leaf option stored" where
  "certificate_by_id lib i = leaf_where lib (\<lambda>r. lf_id r = i)"

definition certificate_by_serial :: "acme_lib \<Rightarrow> string \<Rightarrow> acme_db \<Rightarrow> leaf option stored" where
  "certificate_by_serial lib serial = leaf_where lib (\<lambda>r. lf_serial r = serial)"

text \<open>The codes the column's \<^verbatim>\<open>CHECK\<close> admits.\<close>

definition reason_admitted :: "nat option \<Rightarrow> bool" where
  "reason_admitted reason = (case reason of None \<Rightarrow> True | Some n \<Rightarrow> n \<le> 10 \<and> n \<noteq> 7)"

definition store_revoke :: "acme_lib \<Rightarrow> string \<Rightarrow> nat option \<Rightarrow> acme_db \<Rightarrow> (leaf \<times> acme_db) stored" where
  "store_revoke lib serial reason db =
     (let P = (\<lambda>r. lf_serial r = serial \<and> lf_revoked_at r = None);
          rows = tbl_update P (\<lambda>r. r\<lparr> lf_revoked_at := Some (now_text lib), lf_reason := reason, lf_changed := next_change db \<rparr>)
                   (d_leaves db);
          revoked = (tbl_count P (d_leaves db) = 1)
      in if tbl_count P (d_leaves db) \<noteq> 0 \<and> \<not> reason_admitted reason
         then Inl (Db_Error ''CHECK constraint failed: revocation_reason'')
         else case List.find (\<lambda>r. lf_serial r = serial) rows of
                None \<Rightarrow> Inl (Not_Found ''certificates'' serial)
              | Some r \<Rightarrow> sbind (leaf_of_row lib r) (\<lambda>l.
                  if \<not> revoked then Inl (Already_Revoked serial) else Inr (l, db\<lparr> d_leaves := rows \<rparr>)))"

definition issued_by :: "string list option \<Rightarrow> leaf_row \<Rightarrow> bool" where
  "issued_by issuers r = (case issuers of None \<Rightarrow> True | Some serials \<Rightarrow> lf_issuer_serial r \<in> set serials)"

definition revoked_unexpired :: "acme_lib \<Rightarrow> string list option \<Rightarrow> int \<Rightarrow> acme_db \<Rightarrow> leaf list stored" where
  "revoked_unexpired lib issuers now db =
     smap_all (leaf_of_row lib)
       (filter (\<lambda>r. lf_revoked_at r \<noteq> None \<and> lf_not_after r > al_format lib now \<and> issued_by issuers r) (d_leaves db))"

definition next_crl_number :: "acme_db \<Rightarrow> int \<times> acme_db" where
  "next_crl_number db =
     (let n = (case d_crl_number db of None \<Rightarrow> 1 | Some n \<Rightarrow> n + 1) in (n, db\<lparr> d_crl_number := Some n \<rparr>))"

record changes =
  cg_certificates :: "leaf list"
  cg_more :: bool

definition page_of :: "acme_lib \<Rightarrow> nat \<Rightarrow> leaf_row list \<Rightarrow> changes stored" where
  "page_of lib limit rows =
     sbind (smap_all (leaf_of_row lib) (take (limit + 1) rows)) (\<lambda>ls.
       Inr \<lparr> cg_certificates = take limit ls, cg_more = (length ls > limit) \<rparr>)"

definition changed_after :: "acme_lib \<Rightarrow> int \<Rightarrow> string list option \<Rightarrow> nat \<Rightarrow> acme_db \<Rightarrow> changes stored" where
  "changed_after lib cursor issuers limit db =
     page_of lib limit (sort_key lf_changed (filter (\<lambda>r. lf_changed r > cursor \<and> issued_by issuers r) (d_leaves db)))"

definition newest :: "acme_lib \<Rightarrow> int option \<Rightarrow> bool option \<Rightarrow> nat \<Rightarrow> acme_db \<Rightarrow> changes stored" where
  "newest lib before revoked limit db =
     page_of lib limit (rev (sort_key lf_id (filter (\<lambda>r.
         lf_id r < (case before of None \<Rightarrow> i64_max | Some i \<Rightarrow> i)
         \<and> (case revoked of None \<Rightarrow> True | Some b \<Rightarrow> (lf_revoked_at r \<noteq> None) = b)) (d_leaves db))))"

definition counts :: "string list option \<Rightarrow> acme_db \<Rightarrow> nat \<times> nat" where
  "counts issuers db =
     (let rows = filter (issued_by issuers) (d_leaves db) in (length rows, tbl_count (\<lambda>r. lf_revoked_at r \<noteq> None) rows))"

definition processing :: "acme_db \<Rightarrow> validation list" where
  "processing db =
     concat (map (\<lambda>c. concat (map (\<lambda>z. concat (map (\<lambda>q. map (\<lambda>k.
         \<lparr> vn_challenge = ch_id c, vn_kind = ch_kind c, vn_identifier = az_identifier z,
           vn_key_authorisation = ch_token c @ ''.'' @ ac_thumbprint k \<rparr>)
       (filter (\<lambda>k. ac_id k = or_account q) (d_accounts db)))
       (filter (\<lambda>q. or_id q = az_order z) (d_orders db))))
       (filter (\<lambda>z. az_id z = ch_authorisation c) (d_authorisations db))))
       (filter (\<lambda>c. ch_status c = ChalProcessing) (d_challenges db)))"

definition expire_stale :: "acme_lib \<Rightarrow> int \<Rightarrow> acme_db \<Rightarrow> (nat \<times> nat) \<times> acme_db" where
  "expire_stale lib now db =
     (let at = al_format lib now;
          due_z = (\<lambda>z. az_status z \<in> {AuthPending, AuthValid} \<and> az_expires z \<le> at);
          due_o = (\<lambda>r. or_status r \<in> {OrderPending, OrderReady} \<and> or_expires r \<le> at);
          db1 = db\<lparr> d_authorisations := tbl_update due_z (\<lambda>z. z\<lparr> az_status := AuthExpired \<rparr>) (d_authorisations db) \<rparr>;
          db2 = db1\<lparr> d_orders := tbl_update due_o (\<lambda>r. r\<lparr> or_status := OrderInvalid \<rparr>) (d_orders db1) \<rparr>;
          failing = (\<lambda>r. or_status r \<in> {OrderPending, OrderReady} \<and> has_failed db2 r)
      in ((tbl_count due_o (d_orders db1) + tbl_count failing (d_orders db2), tbl_count due_z (d_authorisations db)),
          fail_orders (\<lambda>r. True) db2))"

section \<open>Copies\<close>

definition snapshot :: "acme_lib \<Rightarrow> int \<Rightarrow> acme_db \<Rightarrow> acme_db" where
  "snapshot lib now db =
     db\<lparr> d_leaves := tbl_update (\<lambda>r. lf_not_after r \<le> al_format lib now) (\<lambda>r. r\<lparr> lf_chain_pem := [] \<rparr>) (d_leaves db) \<rparr>"

text \<open>\<^verbatim>\<open>PRAGMA foreign_key_check\<close>: every reference finds its row.\<close>

definition foreign_keys_ok :: "acme_db \<Rightarrow> bool" where
  "foreign_keys_ok db \<longleftrightarrow>
     list_all (\<lambda>r. or_account r \<in> ac_id ` set (d_accounts db)
                  \<and> (case or_certificate r of None \<Rightarrow> True | Some k \<Rightarrow> k \<in> lf_id ` set (d_leaves db))) (d_orders db)
     \<and> list_all (\<lambda>z. az_order z \<in> or_id ` set (d_orders db)) (d_authorisations db)
     \<and> list_all (\<lambda>c. ch_authorisation c \<in> az_id ` set (d_authorisations db)) (d_challenges db)
     \<and> list_all (\<lambda>l. lf_account l \<in> ac_id ` set (d_accounts db) \<and> lf_order l \<in> or_id ` set (d_orders db)) (d_leaves db)"

definition last_change :: "acme_db \<Rightarrow> int" where
  "last_change db = foldl max 0 (map lf_changed (d_leaves db))"

definition replaced :: "acme_db \<Rightarrow> acme_db \<Rightarrow> acme_db stored" where
  "replaced restored db =
     (let past = max (last_change db) (last_change restored);
          number = max (case d_crl_number db of None \<Rightarrow> 0 | Some n \<Rightarrow> n) (case d_crl_number restored of None \<Rightarrow> 0 | Some n \<Rightarrow> n);
          db' = restored\<lparr> d_leaves := map (\<lambda>l. l\<lparr> lf_changed := lf_changed l + past \<rparr>) (d_leaves restored),
                          d_crl_number := if number > 0 then Some number else d_crl_number restored \<rparr>
      in if foreign_keys_ok db' then Inr db' else Inl (Unrestorable ''a row in it refers to one that is not there''))"

text \<open>
  A copy may be restored when SQLite finds it whole and its tables are those of the live database;
  the two findings are given. Its certificates are counted.
\<close>

definition restorable_beside :: "string \<Rightarrow> bool \<Rightarrow> acme_db \<Rightarrow> nat stored" where
  "restorable_beside integrity same_schema copy =
     (if integrity \<noteq> ''ok'' then Inl (Unrestorable ''it is damaged'')
      else if \<not> foreign_keys_ok copy then Inl (Unrestorable ''a row in it refers to one that is not there'')
      else if \<not> same_schema then Inl (Unrestorable (''its tables are not this broker'' @ [CHR 0x27] @ ''s''))
      else Inr (fst (counts None copy)))"

text \<open>The replacement is one transaction, which the caller may still refuse.\<close>

definition replace_from :: "(store_error \<Rightarrow> 'e) \<Rightarrow> 'e + unit \<Rightarrow> acme_db \<Rightarrow> acme_db \<Rightarrow> ('e + unit) \<times> acme_db" where
  "replace_from from before_commit restored db =
     (case replaced restored db of
        Inl e \<Rightarrow> (Inl (from e), db)
      | Inr db' \<Rightarrow> (case before_commit of Inl e \<Rightarrow> (Inl e, db) | Inr u \<Rightarrow> (Inr u, db')))"

text \<open>The message of an error.\<close>

definition store_error_str :: "store_error \<Rightarrow> string" where
  "store_error_str e = (case e of
      Db_Error s \<Rightarrow> s
    | Random_Error s \<Rightarrow> ''minting a token: '' @ s
    | Not_Found table key \<Rightarrow> table @ '' has no row '' @ key
    | Transition_Error table from to \<Rightarrow> table @ '': '' @ from @ '' cannot become '' @ to
    | Already_Revoked serial \<Rightarrow> ''certificate '' @ serial @ '' is already revoked''
    | Key_In_Use account \<Rightarrow> ''account '' @ int_to_string account @ '' holds that key''
    | Unrestorable why \<Rightarrow> why)"

end
