(* ===== verification/Acme_Issuance.thy ===== *)
theory Acme_Issuance
  imports Acme_Store
begin

text \<open>
  What the transactions of the ACME store keep: no certificate without a validated challenge for every
  name of its order, final statuses that stay final, and changes a client following them never misses.
\<close>

lemma sbind_Inr_iff: "sbind m f = Inr y \<longleftrightarrow> (\<exists>x. m = Inr x \<and> f x = Inr y)"
  by (cases m) (auto simp: sbind_def)

section \<open>Status machines\<close>

text \<open>The contract of a status column: setting the status keeps the row's number and is read back.\<close>

locale status_machine =
  fixes lc :: "('r, 's) lifecycle"
  assumes set_id: "lc_id lc (lc_set lc s r) = lc_id lc r"
    and set_status: "lc_status lc (lc_set lc s r) = s"
begin

lemma transition_moves:
  assumes "transition lc i to rows = Inr rows'"
  shows "rows' = tbl_update (\<lambda>r. lc_id lc r = i) (lc_set lc to) rows"
    and "\<exists>r \<in> set rows. lc_id lc r = i \<and> lc_may_become lc (lc_status lc r) to"
  using assms
  by (auto simp: transition_def sbind_def read_status_def find_Some_iff split: sum.splits option.splits if_splits)

lemma transition_keyed:
  assumes "transition lc i to rows = Inr rows'" "tbl_keyed (lc_id lc) rows"
  shows "tbl_keyed (lc_id lc) rows'"
    and "r \<in> set rows \<Longrightarrow> lc_id lc r = i \<Longrightarrow> lc_may_become lc (lc_status lc r) to"
proof -
  note moved = transition_moves [OF assms(1)]
  show "tbl_keyed (lc_id lc) rows'"
    unfolding moved(1) using assms(2) set_id by (intro tbl_keyed_update) auto
  show "lc_may_become lc (lc_status lc r) to" if "r \<in> set rows" "lc_id lc r = i"
    using moved(2) that assms(2) by (auto simp: tbl_keyed_def distinct_map inj_on_def)
qed

text \<open>A status nothing may follow is final.\<close>

lemma transition_final:
  assumes "transition lc i to rows = Inr rows'" "tbl_keyed (lc_id lc) rows" "\<And>t. \<not> lc_may_become lc (lc_status lc r) t"
    and "r \<in> set rows"
  shows "r \<in> set rows'"
proof -
  have "lc_id lc r \<noteq> i" using transition_keyed(2) [OF assms(1,2,4)] assms(3) by blast
  then show ?thesis using transition_moves(1) [OF assms(1)] assms(4) by (auto simp: tbl_update_def)
qed

end

interpretation account_machine: status_machine account_life
  by unfold_locales (simp_all add: account_life_def)

interpretation order_machine: status_machine order_life
  by unfold_locales (simp_all add: order_life_def)

interpretation authorisation_machine: status_machine authorisation_life
  by unfold_locales (simp_all add: authorisation_life_def)

interpretation challenge_machine: status_machine challenge_life
  by unfold_locales (simp_all add: challenge_life_def)

section \<open>Validated names\<close>

definition valid_for :: "acme_db \<Rightarrow> int \<Rightarrow> bool" where
  "valid_for db z \<longleftrightarrow> (\<exists>c \<in> set (d_challenges db). ch_authorisation c = z \<and> ch_status c = ChalValid)"

definition proven :: "acme_db \<Rightarrow> int \<Rightarrow> bool" where
  "proven db i \<longleftrightarrow> (\<forall>z \<in> set (d_authorisations db). az_order z = i \<longrightarrow> valid_for db (az_id z))"

abbreviation past_ready :: "order_status \<Rightarrow> bool" where
  "past_ready s \<equiv> s \<in> {OrderReady, OrderProcessing, OrderValid}"

definition valid_backed :: "acme_db \<Rightarrow> bool" where
  "valid_backed db \<longleftrightarrow> (\<forall>z \<in> set (d_authorisations db). az_status z = AuthValid \<longrightarrow> valid_for db (az_id z))"

definition orders_proven :: "acme_db \<Rightarrow> bool" where
  "orders_proven db \<longleftrightarrow> (\<forall>r \<in> set (d_orders db). past_ready (or_status r) \<longrightarrow> proven db (or_id r))"

definition leaves_ordered :: "acme_db \<Rightarrow> bool" where
  "leaves_ordered db \<longleftrightarrow> (\<forall>l \<in> set (d_leaves db). \<exists>r \<in> set (d_orders db).
     or_id r = lf_order l \<and> or_account r = lf_account l \<and> or_status r = OrderValid \<and> or_certificate r = Some (lf_id l))"

definition acme_ok :: "acme_db \<Rightarrow> bool" where
  "acme_ok db \<longleftrightarrow> tbl_keyed or_id (d_orders db) \<and> tbl_keyed ch_id (d_challenges db) \<and> valid_backed db \<and> orders_proven db
     \<and> leaves_ordered db"

text \<open>How a transaction may change the rows for its proofs to carry over.\<close>

definition carries_over :: "acme_db \<Rightarrow> acme_db \<Rightarrow> bool" where
  "carries_over db db' \<longleftrightarrow>
     (\<forall>i. valid_for db i \<longrightarrow> valid_for db' i)
     \<and> (\<forall>z' \<in> set (d_authorisations db'). (az_status z' = AuthValid \<longrightarrow> valid_for db' (az_id z'))
          \<and> (az_order z' \<notin> or_id ` set (d_orders db)
             \<or> (\<exists>z \<in> set (d_authorisations db). az_id z = az_id z' \<and> az_order z = az_order z')))"

lemma proven_carries:
  assumes "carries_over db db'" "proven db i" "i \<in> or_id ` set (d_orders db)"
  shows "proven db' i"
  unfolding proven_def
proof (intro ballI impI)
  fix z'
  assume z': "z' \<in> set (d_authorisations db')" "az_order z' = i"
  then obtain z where "z \<in> set (d_authorisations db)" "az_id z = az_id z'" "az_order z = i"
    using assms(1,3) by (auto simp: carries_over_def)
  then have "valid_for db (az_id z')" using assms(2) by (auto simp: proven_def)
  then show "valid_for db' (az_id z')" using assms(1) by (simp add: carries_over_def)
qed

lemma orders_proven_carries:
  assumes "carries_over db db'" "orders_proven db"
    and "\<And>r'. r' \<in> set (d_orders db') \<Longrightarrow> past_ready (or_status r') \<Longrightarrow>
      (\<exists>r \<in> set (d_orders db). or_id r = or_id r' \<and> past_ready (or_status r)) \<or> proven db' (or_id r')"
  shows "valid_backed db' \<and> orders_proven db'"
proof
  show "valid_backed db'" using assms(1) by (simp add: carries_over_def valid_backed_def)
  show "orders_proven db'"
    unfolding orders_proven_def
  proof (intro ballI impI)
    fix r'
    assume "r' \<in> set (d_orders db')" "past_ready (or_status r')"
    then consider r where "r \<in> set (d_orders db)" "or_id r = or_id r'" "past_ready (or_status r)" | "proven db' (or_id r')"
      using assms(3) by blast
    then show "proven db' (or_id r')"
    proof cases
      case 1
      then have "proven db (or_id r')" using assms(2) by (auto simp: orders_proven_def)
      moreover have "or_id r' \<in> or_id ` set (d_orders db)" using 1 by (metis imageI)
      ultimately show ?thesis by (rule proven_carries [OF assms(1)])
    qed
  qed
qed

lemma acme_ok_carries:
  assumes "acme_ok db" "carries_over db db'" "tbl_keyed or_id (d_orders db')" "tbl_keyed ch_id (d_challenges db')"
    and "leaves_ordered db'"
    and "\<And>r'. r' \<in> set (d_orders db') \<Longrightarrow> past_ready (or_status r') \<Longrightarrow>
      (\<exists>r \<in> set (d_orders db). or_id r = or_id r' \<and> past_ready (or_status r)) \<or> proven db' (or_id r')"
  shows "acme_ok db'"
  using orders_proven_carries [OF assms(2) _ assms(6)] assms by (simp add: acme_ok_def)

text \<open>A transaction on columns the promise does not read.\<close>

abbreviation leaf_links :: "acme_db \<Rightarrow> (int \<times> int \<times> int) list" where
  "leaf_links db \<equiv> map (\<lambda>l. (lf_id l, lf_account l, lf_order l)) (d_leaves db)"

lemma leaves_ordered_links:
  "leaves_ordered db \<longleftrightarrow> (\<forall>(k, a, i) \<in> set (leaf_links db). \<exists>r \<in> set (d_orders db).
     or_id r = i \<and> or_account r = a \<and> or_status r = OrderValid \<and> or_certificate r = Some k)"
  by (simp add: leaves_ordered_def)

lemma acme_ok_same:
  assumes "acme_ok db" "d_orders db' = d_orders db" "d_authorisations db' = d_authorisations db"
    "d_challenges db' = d_challenges db" "leaf_links db' = leaf_links db"
  shows "acme_ok db'"
  using assms(1) unfolding acme_ok_def valid_backed_def orders_proven_def proven_def valid_for_def leaves_ordered_links
    assms(2-5) .

lemma acme_ok_fail: "acme_ok db \<Longrightarrow> acme_ok (fail_orders P db)"
proof (rule acme_ok_carries, assumption)
  assume ok: "acme_ok db"
  show "carries_over db (fail_orders P db)"
    using ok by (auto simp: carries_over_def fail_orders_def acme_ok_def valid_backed_def valid_for_def)
  show "tbl_keyed or_id (d_orders (fail_orders P db))"
    using ok by (auto simp: fail_orders_def acme_ok_def intro!: tbl_keyed_update)
  show "tbl_keyed ch_id (d_challenges (fail_orders P db))"
    using ok by (simp add: fail_orders_def acme_ok_def)
  show "leaves_ordered (fail_orders P db)"
    using ok by (fastforce simp: fail_orders_def acme_ok_def leaves_ordered_def tbl_update_def)
qed (auto simp: fail_orders_def tbl_update_def split: if_splits)

lemma acme_ok_ready: "acme_ok db \<Longrightarrow> acme_ok (ready_orders P db)"
proof (rule acme_ok_carries, assumption)
  assume ok: "acme_ok db"
  show "carries_over db (ready_orders P db)"
    using ok by (auto simp: carries_over_def ready_orders_def acme_ok_def valid_backed_def valid_for_def)
  show "tbl_keyed or_id (d_orders (ready_orders P db))"
    using ok by (auto simp: ready_orders_def acme_ok_def intro!: tbl_keyed_update)
  show "tbl_keyed ch_id (d_challenges (ready_orders P db))"
    using ok by (simp add: ready_orders_def acme_ok_def)
  show "leaves_ordered (ready_orders P db)"
    using ok by (fastforce simp: ready_orders_def acme_ok_def leaves_ordered_def tbl_update_def)
  have "proven (ready_orders P db) (or_id r)" if "all_valid db r" for r
    using that ok by (auto simp: ready_orders_def all_valid_def acme_ok_def valid_backed_def proven_def valid_for_def list_all_iff)
  then show "(\<exists>r\<in>set (d_orders db). or_id r = or_id r' \<and> past_ready (or_status r)) \<or> proven (ready_orders P db) (or_id r')"
    if "r' \<in> set (d_orders (ready_orders P db))" "past_ready (or_status r')" for r'
    using that by (auto simp: ready_orders_def tbl_update_def split: if_splits)
qed

lemma acme_ok_settle: "acme_ok db \<Longrightarrow> settle_order_of z db = Inr db' \<Longrightarrow> acme_ok db'"
  by (auto simp: settle_order_of_def intro: acme_ok_fail acme_ok_ready split: option.splits)

text \<open>Authorisations whose status changes, to valid only where a challenge backs it.\<close>

lemma acme_ok_authorisations:
  assumes "acme_ok db" "\<And>z. P z \<Longrightarrow> z \<in> set (d_authorisations db) \<Longrightarrow> f z = AuthValid \<Longrightarrow> valid_for db (az_id z)"
  shows "acme_ok (db\<lparr> d_authorisations := tbl_update P (\<lambda>z. z\<lparr> az_status := f z \<rparr>) (d_authorisations db) \<rparr>)" (is "acme_ok ?db'")
proof (rule acme_ok_carries [OF assms(1)])
  have ok: "acme_ok db" by fact
  have same: "valid_for ?db' = valid_for db" by (simp add: valid_for_def fun_eq_iff)
  have "valid_for db (az_id z')" if "z' \<in> set (d_authorisations ?db')" "az_status z' = AuthValid" for z'
    using that assms by (auto simp: tbl_update_def acme_ok_def valid_backed_def split: if_splits)
  moreover have "\<exists>z \<in> set (d_authorisations db). az_id z = az_id z' \<and> az_order z = az_order z'"
    if "z' \<in> set (d_authorisations ?db')" for z'
    using that by (auto simp: tbl_update_def)
  ultimately show "carries_over db ?db'" by (auto simp: carries_over_def same)
qed (use assms(1) in \<open>auto simp: acme_ok_def leaves_ordered_def\<close>)

lemma acme_ok_set_authorisation:
  assumes "acme_ok db" "set_authorisation_status i to db = Inr db'" "to \<noteq> AuthValid"
  shows "acme_ok db'"
proof -
  obtain rows where rows: "transition authorisation_life i to (d_authorisations db) = Inr rows"
    and settled: "settle_order_of i (db\<lparr> d_authorisations := rows \<rparr>) = Inr db'"
    using assms(2) by (auto simp: set_authorisation_status_def sbind_def split: sum.splits)
  have "acme_ok (db\<lparr> d_authorisations := rows \<rparr>)"
    using acme_ok_authorisations [OF assms(1), of "\<lambda>r. az_id r = i" "\<lambda>r. to"] assms(3)
      authorisation_machine.transition_moves(1) [OF rows] by (simp add: authorisation_life_def)
  then show ?thesis using settled by (rule acme_ok_settle)
qed

text \<open>Challenges whose columns change, while the valid ones stay valid.\<close>

lemma acme_ok_challenges:
  assumes "acme_ok db" "tbl_keyed ch_id rows"
    and "\<And>c. c \<in> set (d_challenges db) \<Longrightarrow> ch_status c = ChalValid \<Longrightarrow> \<exists>c' \<in> set rows. ch_authorisation c' = ch_authorisation c \<and> ch_status c' = ChalValid"
  shows "acme_ok (db\<lparr> d_challenges := rows \<rparr>)"
proof (rule acme_ok_carries [OF assms(1)])
  have "valid_for (db\<lparr> d_challenges := rows \<rparr>) z" if "valid_for db z" for z
    using that assms(3) by (fastforce simp: valid_for_def)
  then show "carries_over db (db\<lparr> d_challenges := rows \<rparr>)"
    using assms(1) by (auto simp: carries_over_def acme_ok_def valid_backed_def)
qed (use assms in \<open>auto simp: acme_ok_def leaves_ordered_def\<close>)

text \<open>What setting a challenge's status does: its own row, then, once it is decided, its authorisation's.\<close>

definition decided_by :: "challenge_status \<Rightarrow> authorisation_status option" where
  "decided_by to = (case to of ChalValid \<Rightarrow> Some AuthValid | ChalInvalid \<Rightarrow> Some AuthInvalid | _ \<Rightarrow> None)"

lemma set_challenge_status_effect:
  assumes "set_challenge_status lib i to err db = Inr db'"
  obtains f :: "challenge_row \<Rightarrow> challenge_row" and rows
  where "\<And>c. ch_id (f c) = ch_id c \<and> ch_authorisation (f c) = ch_authorisation c \<and> ch_kind (f c) = ch_kind c \<and> ch_status (f c) = to"
    and "transition challenge_life i to (d_challenges db) = Inr (tbl_update (\<lambda>c. ch_id c = i) (lc_set challenge_life to) (d_challenges db))"
    and "rows = tbl_update (\<lambda>c. ch_id c = i) f (d_challenges db)"
    and "decided_by to = None \<Longrightarrow> db' = db\<lparr> d_challenges := rows \<rparr>"
    and "\<And>decided. decided_by to = Some decided \<Longrightarrow> \<exists>c \<in> set rows. ch_id c = i
          \<and> decide_authorisation (ch_authorisation c) decided (db\<lparr> d_challenges := rows \<rparr>) = Inr db'"
proof -
  obtain moved where moved: "transition challenge_life i to (d_challenges db) = Inr moved"
    using assms by (auto simp: set_challenge_status_def sbind_def split: sum.splits)
  note moved_eq = challenge_machine.transition_moves(1) [OF moved]
  define e where "e = map_option (al_json_problem lib) err"
  define g where "g = (\<lambda>c :: challenge_row. c\<lparr> ch_validated := if ch_status c = ChalValid then Some (now_text lib) else None \<rparr>)"
  define f :: "challenge_row \<Rightarrow> challenge_row"
    where "f = (\<lambda>c. (if decided_by to = None then id else g) (c\<lparr> ch_status := to, ch_error := e \<rparr>))"
  have marked: "tbl_update (\<lambda>r. ch_id r = i) (\<lambda>r. r\<lparr> ch_error := e \<rparr>) moved
      = tbl_update (\<lambda>c. ch_id c = i) (\<lambda>c. c\<lparr> ch_status := to, ch_error := e \<rparr>) (d_challenges db)"
    by (auto simp: moved_eq tbl_update_def challenge_life_def)
  have dated: "tbl_update (\<lambda>r. ch_id r = i) g (tbl_update (\<lambda>c. ch_id c = i) (\<lambda>c. c\<lparr> ch_status := to, ch_error := e \<rparr>) (d_challenges db))
      = tbl_update (\<lambda>c. ch_id c = i) f (d_challenges db)" if "decided_by to \<noteq> None"
    using that by (auto simp: tbl_update_def f_def g_def)
  note body = assms [unfolded set_challenge_status_def moved sbind_def sum.case Let_def, folded e_def g_def, unfolded marked]
  show ?thesis
  proof (rule that [of f])
    show "transition challenge_life i to (d_challenges db) = Inr (tbl_update (\<lambda>c. ch_id c = i) (lc_set challenge_life to) (d_challenges db))"
      using moved moved_eq by (simp add: challenge_life_def)
    show "db' = db\<lparr> d_challenges := tbl_update (\<lambda>c. ch_id c = i) f (d_challenges db) \<rparr>" if "decided_by to = None"
      using that body by (cases to) (simp_all add: decided_by_def f_def)
    show "\<exists>c \<in> set (tbl_update (\<lambda>c. ch_id c = i) f (d_challenges db)). ch_id c = i
        \<and> decide_authorisation (ch_authorisation c) decided (db\<lparr> d_challenges := tbl_update (\<lambda>c. ch_id c = i) f (d_challenges db) \<rparr>) = Inr db'"
      if "decided_by to = Some decided" for decided
      using that body dated
      by (cases to) (auto simp: decided_by_def find_Some_iff split: option.splits intro!: bexI [OF _ nth_mem])
  qed (auto simp: f_def g_def)
qed

lemma acme_ok_set_challenge:
  assumes "acme_ok db" "set_challenge_status lib i to err db = Inr db'"
  shows "acme_ok db'"
proof -
  obtain f rows where f: "\<And>c. ch_id (f c) = ch_id c \<and> ch_authorisation (f c) = ch_authorisation c \<and> ch_kind (f c) = ch_kind c \<and> ch_status (f c) = to"
    and moved: "transition challenge_life i to (d_challenges db) = Inr (tbl_update (\<lambda>c. ch_id c = i) (lc_set challenge_life to) (d_challenges db))"
    and rows: "rows = tbl_update (\<lambda>c. ch_id c = i) f (d_challenges db)"
    and undecided: "decided_by to = None \<Longrightarrow> db' = db\<lparr> d_challenges := rows \<rparr>"
    and decided: "\<And>decided. decided_by to = Some decided \<Longrightarrow> \<exists>c \<in> set rows. ch_id c = i
          \<and> decide_authorisation (ch_authorisation c) decided (db\<lparr> d_challenges := rows \<rparr>) = Inr db'"
    by (rule set_challenge_status_effect [OF assms(2)]) (rule that)
  have keyed: "tbl_keyed ch_id (d_challenges db)" using assms(1) by (simp add: acme_ok_def)
  have ok: "acme_ok (db\<lparr> d_challenges := rows \<rparr>)"
  proof (rule acme_ok_challenges [OF assms(1)])
    show "tbl_keyed ch_id rows" unfolding rows using keyed f by (intro tbl_keyed_update) auto
  next
    fix c assume "c \<in> set (d_challenges db)" "ch_status c = ChalValid"
    then have "ch_id c \<noteq> i"
      using challenge_machine.transition_keyed(2) [OF moved, of c] keyed
      by (auto simp: challenge_life_def challenge_may_become_def)
    then show "\<exists>c' \<in> set rows. ch_authorisation c' = ch_authorisation c \<and> ch_status c' = ChalValid"
      using \<open>c \<in> set (d_challenges db)\<close> \<open>ch_status c = ChalValid\<close> by (auto simp: rows tbl_update_def intro!: bexI [of _ c])
  qed
  show ?thesis
  proof (cases "decided_by to")
    case None
    then show ?thesis using ok undecided by simp
  next
    case (Some d)
    then obtain c where c: "c \<in> set rows" "ch_id c = i"
      and settled: "decide_authorisation (ch_authorisation c) d (db\<lparr> d_challenges := rows \<rparr>) = Inr db'"
      using decided by blast
    have "d = AuthValid \<Longrightarrow> valid_for (db\<lparr> d_challenges := rows \<rparr>) (ch_authorisation c)"
      using Some c f by (auto simp: valid_for_def decided_by_def rows tbl_update_def split: challenge_status.splits if_splits)
    then have "acme_ok (db\<lparr> d_challenges := rows, d_authorisations := tbl_update (\<lambda>r. az_id r = ch_authorisation c \<and> az_status r = AuthPending)
        (\<lambda>r. r\<lparr> az_status := d \<rparr>) (d_authorisations db) \<rparr>)"
      using acme_ok_authorisations [OF ok, of "\<lambda>r. az_id r = ch_authorisation c \<and> az_status r = AuthPending" "\<lambda>z. d"] by simp
    then show ?thesis using settled by (auto simp: decide_authorisation_def dest: acme_ok_settle)
  qed
qed

text \<open>A new order brings authorisations and challenges of its own, all undecided.\<close>

lemma next_rowid_fresh: "next_rowid seq ids \<notin> set ids"
  using next_rowid_above(1) by blast

lemma tbl_keyed_append_fresh:
  "tbl_keyed key rows \<Longrightarrow> key r = next_rowid seq (map key rows) \<Longrightarrow> tbl_keyed key (rows @ [r])"
  using next_rowid_fresh [of seq "map key rows"] by (simp add: tbl_keyed_def)

lemma insert_challenges_effect:
  "insert_challenges lib z kinds n db = Inr (m, db') \<Longrightarrow> tbl_keyed ch_id (d_challenges db) \<Longrightarrow>
   \<exists>cs. db' = db\<lparr> d_challenges := d_challenges db @ cs \<rparr> \<and> tbl_keyed ch_id (d_challenges db @ cs)"
proof (induction lib z kinds n db rule: insert_challenges.induct)
  case (2 lib z kind kinds n db)
  from "2.prems" obtain raw where raw: "al_random lib n = Inr raw" by (auto split: sum.splits)
  define c where "c = \<lparr> ch_id = next_rowid 0 (map ch_id (d_challenges db)), ch_authorisation = z, ch_kind = kind,
    ch_token = base64url raw, ch_status = ChalPending, ch_validated = None, ch_error = None \<rparr>"
  have fresh: "base64url raw \<notin> ch_token ` set (d_challenges db)"
    and rest: "insert_challenges lib z kinds (Suc n) (db\<lparr> d_challenges := d_challenges db @ [c] \<rparr>) = Inr (m, db')"
    using "2.prems"(1) raw by (auto simp: c_def Let_def split: if_splits)
  have "tbl_keyed ch_id (d_challenges db @ [c])"
    using "2.prems"(2) by (rule tbl_keyed_append_fresh) (simp add: c_def)
  then obtain cs where "db' = db\<lparr> d_challenges := (d_challenges db @ [c]) @ cs \<rparr>" "tbl_keyed ch_id ((d_challenges db @ [c]) @ cs)"
    using "2.IH" [OF raw c_def fresh rest] by auto
  then show ?case by (intro exI [of _ "c # cs"]) simp
qed (auto intro: exI [of _ "[]"])

lemma insert_authorisations_effect:
  "insert_authorisations lib i news n db = Inr db' \<Longrightarrow> tbl_keyed ch_id (d_challenges db) \<Longrightarrow>
   \<exists>zs cs. db' = db\<lparr> d_authorisations := d_authorisations db @ zs, d_challenges := d_challenges db @ cs \<rparr>
     \<and> tbl_keyed ch_id (d_challenges db @ cs) \<and> (\<forall>z \<in> set zs. az_order z = i \<and> az_status z = AuthPending)
     \<and> map az_identifier zs = map na_identifier news"
proof (induction lib i news n db rule: insert_authorisations.induct)
  case (2 lib i new news n db)
  define k where "k = next_rowid 0 (map az_id (d_authorisations db))"
  define z where "z = \<lparr> az_id = k, az_order = i, az_identifier = na_identifier new, az_wildcard = na_wildcard new,
    az_status = AuthPending, az_expires = al_format lib (na_expires new) \<rparr>"
  from "2.prems"(1) obtain m db1
    where first: "insert_challenges lib k (na_challenges new) n (db\<lparr> d_authorisations := d_authorisations db @ [z] \<rparr>) = Inr (m, db1)"
      and rest: "insert_authorisations lib i news m db1 = Inr db'"
    by (auto simp: sbind_Inr_iff Let_def k_def z_def)
  obtain cs where cs: "db1 = db\<lparr> d_authorisations := d_authorisations db @ [z], d_challenges := d_challenges db @ cs \<rparr>"
      "tbl_keyed ch_id (d_challenges db @ cs)"
    using insert_challenges_effect [OF first] "2.prems"(2) by auto
  obtain zs ds where "db' = db1\<lparr> d_authorisations := d_authorisations db1 @ zs, d_challenges := d_challenges db1 @ ds \<rparr>"
      "tbl_keyed ch_id (d_challenges db1 @ ds)" "\<forall>z \<in> set zs. az_order z = i \<and> az_status z = AuthPending"
      "map az_identifier zs = map na_identifier news"
    using "2.IH" [OF k_def z_def rest] cs by auto
  then show ?case
    by (intro exI [of _ "z # zs"] exI [of _ "cs @ ds"]) (simp add: cs(1) z_def)
qed (auto intro: exI [of _ "[]"])

lemma acme_ok_create_order:
  assumes "acme_ok db" "create_order lib new db = Inr (o', db')"
  shows "acme_ok db'"
proof -
  define i where "i = next_rowid 0 (map or_id (d_orders db))"
  define r where "r = \<lparr> or_id = i, or_account = no_account new, or_status = OrderPending,
    or_identifiers = al_json_texts lib (no_identifiers new), or_not_before = map_option (al_format lib) (no_not_before new),
    or_not_after = map_option (al_format lib) (no_not_after new), or_expires = al_format lib (no_expires new),
    or_error = None, or_certificate = None, or_created = now_text lib \<rparr>"
  have r: "or_id r = i" "or_status r = OrderPending" by (simp_all add: r_def)
  have inserted: "insert_authorisations lib i (no_authorisations new) 0 (db\<lparr> d_orders := d_orders db @ [r] \<rparr>) = Inr db'"
    using assms(2) by (auto simp: create_order_def Let_def sbind_Inr_iff i_def r_def split: if_splits)
  have keyed: "tbl_keyed or_id (d_orders db @ [r])"
    using assms(1) r(1) i_def by (auto simp: acme_ok_def intro: tbl_keyed_append_fresh)
  obtain zs cs where db': "db' = db\<lparr> d_orders := d_orders db @ [r], d_authorisations := d_authorisations db @ zs,
        d_challenges := d_challenges db @ cs \<rparr>" "tbl_keyed ch_id (d_challenges db @ cs)"
      "\<forall>z \<in> set zs. az_order z = i \<and> az_status z = AuthPending"
    using insert_authorisations_effect [OF inserted] assms(1) by (auto simp: acme_ok_def)
  have "i \<notin> or_id ` set (d_orders db)" using next_rowid_fresh [of 0 "map or_id (d_orders db)"] by (simp add: i_def)
  then have "carries_over db db'"
    using assms(1) db'(3) by (auto simp: db'(1) carries_over_def valid_for_def acme_ok_def valid_backed_def)
  then show ?thesis
    by (rule acme_ok_carries [OF assms(1)])
       (use assms(1) r keyed db'(2) in \<open>auto simp: db'(1) acme_ok_def leaves_ordered_def\<close>)
qed

text \<open>Expiry takes away, and never makes valid.\<close>

lemma acme_ok_orders_failed:
  assumes "acme_ok db" "\<And>r. P r \<Longrightarrow> or_status r \<noteq> OrderValid"
  shows "acme_ok (db\<lparr> d_orders := tbl_update P (\<lambda>r. r\<lparr> or_status := OrderInvalid \<rparr>) (d_orders db) \<rparr>)" (is "acme_ok ?db'")
proof (rule acme_ok_carries [OF assms(1)])
  show "carries_over db ?db'" using assms(1) by (auto simp: carries_over_def acme_ok_def valid_backed_def valid_for_def)
  show "leaves_ordered ?db'" using assms by (fastforce simp: acme_ok_def leaves_ordered_def tbl_update_def)
qed (use assms(1) in \<open>auto simp: acme_ok_def tbl_update_def split: if_splits intro!: tbl_keyed_update [unfolded tbl_update_def]\<close>)

lemma acme_ok_expire: "acme_ok db \<Longrightarrow> acme_ok (snd (expire_stale lib now db))"
  unfolding expire_stale_def Let_def snd_conv
  by (intro acme_ok_fail acme_ok_orders_failed acme_ok_authorisations) auto

text \<open>
  Recording a certificate: its order was ready or being processed, becomes valid and names the new
  row, which carries a change after every earlier one.
\<close>

definition order_recorded :: "int \<Rightarrow> int \<Rightarrow> order_row list \<Rightarrow> order_row list" where
  "order_recorded i k rows = tbl_update (\<lambda>r. or_id r = i) (\<lambda>r. r\<lparr> or_status := OrderValid, or_certificate := Some k \<rparr>) rows"

lemma transition_chain:
  assumes "(if s = OrderReady then transition order_life i OrderProcessing rows else Inr rows) = Inr rows1"
    and "transition order_life i OrderValid rows1 = Inr rows2" "read_status order_life i rows = Inr s"
  shows "rows2 = tbl_update (\<lambda>r. or_id r = i) (\<lambda>r. r\<lparr> or_status := OrderValid \<rparr>) rows"
    and "s \<in> {OrderReady, OrderProcessing}"
proof -
  have rows1: "rows1 = rows \<and> s \<noteq> OrderReady \<or> rows1 = tbl_update (\<lambda>r. or_id r = i) (\<lambda>r. r\<lparr> or_status := OrderProcessing \<rparr>) rows \<and> s = OrderReady"
    using assms(1) order_machine.transition_moves(1) [of i OrderProcessing rows rows1]
    by (auto simp: order_life_def split: if_splits)
  show "rows2 = tbl_update (\<lambda>r. or_id r = i) (\<lambda>r. r\<lparr> or_status := OrderValid \<rparr>) rows"
    using order_machine.transition_moves(1) [OF assms(2)] rows1 by (auto simp: order_life_def tbl_update_def)
  show "s \<in> {OrderReady, OrderProcessing}"
  proof (cases "s = OrderReady")
    case False
    then show ?thesis using assms by (auto simp: transition_def sbind_def order_life_def order_may_become_def split: if_splits order_status.splits)
  qed simp
qed

lemma record_certificate_effect:
  assumes "record_certificate lib i issued db = Inr (l', db')"
  obtains r l where "List.find (\<lambda>r. or_id r = i) (d_orders db) = Some r" "or_status r \<in> {OrderReady, OrderProcessing}"
    and "db' = db\<lparr> d_orders := order_recorded i (lf_id l) (d_orders db), d_leaves := d_leaves db @ [l], d_leaf_sequence := lf_id l \<rparr>"
    and "lf_id l = next_rowid (d_leaf_sequence db) (map lf_id (d_leaves db))" "lf_order l = i" "lf_account l = or_account r"
    and "lf_serial l = nl_serial issued" "lf_sans l = al_json_texts lib (nl_sans issued)" "lf_changed l = next_change db" "lf_revoked_at l = None"
    and "nl_serial issued \<notin> lf_serial ` set (d_leaves db)" "i \<notin> lf_order ` set (d_leaves db)" "leaf_of_row lib l = Inr l'"
proof -
  from assms obtain s rows1 rows2 where s: "read_status order_life i (d_orders db) = Inr s"
    and moved: "(if s = OrderReady then transition order_life i OrderProcessing (d_orders db) else Inr (d_orders db)) = Inr rows1"
      "transition order_life i OrderValid rows1 = Inr rows2"
    unfolding record_certificate_def sbind_Inr_iff by blast
  note chain = transition_chain [OF moved s]
  obtain r where r: "List.find (\<lambda>r. or_id r = i) (d_orders db) = Some r" "or_status r = s"
    using s by (auto simp: read_status_def order_life_def split: option.splits)
  have found: "List.find (\<lambda>r. or_id r = i) rows2 = Some (r\<lparr> or_status := OrderValid \<rparr>)"
    using r(1) by (auto simp: chain(1) find_update_other find_Some_iff)
  define l where "l = \<lparr> lf_id = next_rowid (d_leaf_sequence db) (map lf_id (d_leaves db)), lf_serial = nl_serial issued,
    lf_account = or_account r, lf_order = i, lf_common_name = nl_common_name issued, lf_sans = al_json_texts lib (nl_sans issued),
    lf_not_before = al_format lib (nl_not_before issued), lf_not_after = al_format lib (nl_not_after issued),
    lf_chain_pem = nl_chain_pem issued, lf_issuer_serial = nl_issuer_serial issued,
    lf_revoked_at = None, lf_reason = None, lf_created = now_text lib, lf_changed = next_change db \<rparr>"
  have rows: "tbl_update (\<lambda>r. or_id r = i) (\<lambda>r. r\<lparr> or_certificate := Some k \<rparr>) rows2 = order_recorded i k (d_orders db)" for k
    by (auto simp: chain(1) order_recorded_def tbl_update_def)
  have "nl_serial issued \<notin> lf_serial ` set (d_leaves db) \<and> i \<notin> lf_order ` set (d_leaves db) \<and> leaf_of_row lib l = Inr l'
    \<and> db' = db\<lparr> d_orders := order_recorded i (lf_id l) (d_orders db), d_leaves := d_leaves db @ [l], d_leaf_sequence := lf_id l \<rparr>"
    using assms unfolding record_certificate_def s sbind_def sum.case moved found option.case Let_def rows
    by (simp add: l_def split: if_splits sum.splits)
  then show ?thesis using that [OF r(1), of l] r(2) chain(2) by (simp add: l_def)
qed

lemma acme_ok_record:
  assumes "acme_ok db" "record_certificate lib i issued db = Inr (l', db')"
  shows "acme_ok db'"
proof -
  obtain r l where r: "List.find (\<lambda>r. or_id r = i) (d_orders db) = Some r" "or_status r \<in> {OrderReady, OrderProcessing}"
    and db': "db' = db\<lparr> d_orders := order_recorded i (lf_id l) (d_orders db), d_leaves := d_leaves db @ [l], d_leaf_sequence := lf_id l \<rparr>"
    and l: "lf_order l = i" "lf_account l = or_account r"
    by (rule record_certificate_effect [OF assms(2)])
  have keyed: "tbl_keyed or_id (d_orders db)" using assms(1) by (simp add: acme_ok_def)
  have here: "r \<in> set (d_orders db)" "or_id r = i" using r(1) by (auto simp: find_Some_iff)
  have only: "q = r" if "q \<in> set (d_orders db)" "or_id q = i" for q
    using that here keyed by (auto simp: tbl_keyed_def distinct_map inj_on_def)
  show ?thesis
  proof (rule acme_ok_carries [OF assms(1)])
    show "carries_over db db'" using assms(1) by (auto simp: db' carries_over_def acme_ok_def valid_backed_def valid_for_def)
    show "tbl_keyed or_id (d_orders db')" using keyed by (auto simp: db' order_recorded_def intro!: tbl_keyed_update)
    show "tbl_keyed ch_id (d_challenges db')" using assms(1) by (simp add: db' acme_ok_def)
    have recorded: "r\<lparr> or_status := OrderValid, or_certificate := Some (lf_id l) \<rparr> \<in> set (d_orders db')"
      using here by (auto simp: db' order_recorded_def tbl_update_def intro!: image_eqI [of _ _ r])
    have kept: "q \<in> set (d_orders db')" if "q \<in> set (d_orders db)" "or_status q = OrderValid" for q
      using that only r(2) by (auto simp: db' order_recorded_def tbl_update_def intro!: image_eqI [of _ _ q])
    show "leaves_ordered db'"
      unfolding leaves_ordered_def
    proof
      fix m assume "m \<in> set (d_leaves db')"
      then consider "m = l" | "m \<in> set (d_leaves db)" by (auto simp: db')
      then show "\<exists>q \<in> set (d_orders db'). or_id q = lf_order m \<and> or_account q = lf_account m \<and> or_status q = OrderValid
          \<and> or_certificate q = Some (lf_id m)"
      proof cases
        case 1
        then show ?thesis using recorded here l by (intro bexI) auto
      next
        case 2
        then obtain q where "q \<in> set (d_orders db)" "or_id q = lf_order m \<and> or_account q = lf_account m
            \<and> or_status q = OrderValid \<and> or_certificate q = Some (lf_id m)"
          using assms(1) by (auto simp: acme_ok_def leaves_ordered_def)
        then show ?thesis using kept by blast
      qed
    qed
    show "(\<exists>q \<in> set (d_orders db). or_id q = or_id r' \<and> past_ready (or_status q)) \<or> proven db' (or_id r')"
      if "r' \<in> set (d_orders db')" "past_ready (or_status r')" for r'
      using that here r(2) by (auto simp: db' order_recorded_def tbl_update_def split: if_splits)
  qed
qed

text \<open>Revoking changes a row's revocation and its change number only.\<close>

definition leaf_revoked :: "acme_lib \<Rightarrow> string \<Rightarrow> nat option \<Rightarrow> acme_db \<Rightarrow> acme_db" where
  "leaf_revoked lib serial reason db =
     db\<lparr> d_leaves := tbl_update (\<lambda>r. lf_serial r = serial \<and> lf_revoked_at r = None)
       (\<lambda>r. r\<lparr> lf_revoked_at := Some (now_text lib), lf_reason := reason, lf_changed := next_change db \<rparr>) (d_leaves db) \<rparr>"

lemma store_revoke_effect:
  assumes "store_revoke lib serial reason db = Inr (l, db')"
  shows "db' = leaf_revoked lib serial reason db"
    and "\<exists>r \<in> set (d_leaves db). lf_serial r = serial \<and> lf_revoked_at r = None"
    and "reason_admitted reason"
proof -
  let ?P = "\<lambda>r. lf_serial r = serial \<and> lf_revoked_at r = None"
  have *: "tbl_count ?P (d_leaves db) = 1 \<and> reason_admitted reason \<and> db' = leaf_revoked lib serial reason db"
    using assms unfolding store_revoke_def Let_def
    by (auto simp: sbind_Inr_iff leaf_revoked_def split: if_splits option.splits)
  then show "db' = leaf_revoked lib serial reason db" "reason_admitted reason" by auto
  have "filter ?P (d_leaves db) \<noteq> []" using * by (auto simp: tbl_count_def)
  then show "\<exists>r \<in> set (d_leaves db). ?P r" by (auto simp: filter_empty_conv)
qed

lemma acme_ok_revoke: "acme_ok db \<Longrightarrow> acme_ok (leaf_revoked lib serial reason db)"
  by (erule acme_ok_same) (simp_all add: leaf_revoked_def tbl_update_def)

end
