(* ===== verification/Acme_Run.thy ===== *)
theory Acme_Run
  imports Acme_Issuance
begin

text \<open>
  The ACME store over its whole life: any sequence of the transactions the server makes, failed ones
  included, and of restores from a snapshot of an earlier state. No certificate without validated names, changes
  that a client following them never misses, CRL numbers that only grow.
\<close>

section \<open>Transactions\<close>

datatype acme_call =
    Create_Account string string "string list"
  | Set_Contacts int "string list"
  | Change_Key int string string
  | Set_Account_Status int account_status
  | Create_Order new_order
  | Set_Order_Status int order_status "problem option"
  | Set_Authorisation_Status int authorisation_status
  | Set_Challenge int challenge_status "problem option"
  | Record_Certificate int new_leaf
  | Revoke_Leaf string "nat option"
  | Next_Crl_Number
  | Expire_Stale int

definition committed :: "acme_db \<Rightarrow> 'e + acme_db \<Rightarrow> acme_db" where
  "committed db r = (case r of Inl e \<Rightarrow> db | Inr db' \<Rightarrow> db')"

fun acme_apply :: "acme_lib \<Rightarrow> acme_call \<Rightarrow> acme_db \<Rightarrow> acme_db" where
  "acme_apply lib (Create_Account jwk thumbprint contacts) db =
     committed db (map_sum id snd (create_account lib jwk thumbprint contacts db))"
| "acme_apply lib (Set_Contacts i contacts) db = set_contacts lib i contacts db"
| "acme_apply lib (Change_Key i jwk thumbprint) db = committed db (change_key i jwk thumbprint db)"
| "acme_apply lib (Set_Account_Status i to) db = committed db (set_account_status i to db)"
| "acme_apply lib (Create_Order new) db = committed db (map_sum id snd (create_order lib new db))"
| "acme_apply lib (Set_Order_Status i to err) db = committed db (set_order_status lib i to err db)"
| "acme_apply lib (Set_Authorisation_Status i to) db = committed db (set_authorisation_status i to db)"
| "acme_apply lib (Set_Challenge i to err) db = committed db (set_challenge_status lib i to err db)"
| "acme_apply lib (Record_Certificate i issued) db = committed db (map_sum id snd (record_certificate lib i issued db))"
| "acme_apply lib (Revoke_Leaf serial reason) db = committed db (map_sum id snd (store_revoke lib serial reason db))"
| "acme_apply lib Next_Crl_Number db = snd (next_crl_number db)"
| "acme_apply lib (Expire_Stale now) db = snd (expire_stale lib now db)"

text \<open>
  The transactions the server makes (\<^verbatim>\<open>acme/server.rs\<close>, \<^verbatim>\<open>broker.rs\<close>): of the calls that set a status it
  deactivates accounts and authorisations, and it leaves the status of orders to the other transactions.
  \<^verbatim>\<open>set_order_status\<close> has no caller but the tests, and through it an order could be made ready with nothing
  validated.
\<close>

fun server_call :: "acme_call \<Rightarrow> bool" where
  "server_call (Set_Account_Status i to) \<longleftrightarrow> to = AccountDeactivated"
| "server_call (Set_Authorisation_Status i to) \<longleftrightarrow> to = AuthDeactivated"
| "server_call (Set_Order_Status i to err) \<longleftrightarrow> False"
| "server_call call \<longleftrightarrow> True"

text \<open>A state the store can be in: such transactions, and restores of a snapshot of another such state.\<close>

inductive acme_reached :: "acme_db \<Rightarrow> bool" where
  Acme_New: "acme_reached acme_db_new"
| Acme_Call: "acme_reached db \<Longrightarrow> server_call call \<Longrightarrow> acme_reached (acme_apply lib call db)"
| Acme_Restore: "acme_reached db \<Longrightarrow> acme_reached old \<Longrightarrow> replaced (snapshot lib now old) db = Inr db' \<Longrightarrow> acme_reached db'"

inductive acme_step :: "acme_db \<Rightarrow> acme_db \<Rightarrow> bool" where
  Step_Call: "server_call call \<Longrightarrow> acme_step db (acme_apply lib call db)"
| Step_Restore: "acme_reached old \<Longrightarrow> replaced (snapshot lib now old) db = Inr db' \<Longrightarrow> acme_step db db'"

lemma acme_reached_step: "acme_reached db \<Longrightarrow> acme_step db db' \<Longrightarrow> acme_reached db'"
  by (auto elim!: acme_step.cases intro: acme_reached.intros)

lemma acme_reached_steps: "acme_step\<^sup>*\<^sup>* db db' \<Longrightarrow> acme_reached db \<Longrightarrow> acme_reached db'"
  by (induction rule: rtranclp_induct) (auto intro: acme_reached_step)

lemma committed_cases: "P db \<Longrightarrow> (\<And>db'. r = Inr db' \<Longrightarrow> P db') \<Longrightarrow> P (committed db r)"
  by (cases r) (simp_all add: committed_def)

lemma map_sum_Inr: "map_sum f g m = Inr y \<longleftrightarrow> (\<exists>x. m = Inr x \<and> y = g x)"
  by (cases m) auto

text \<open>The effect of restoring on the tables.\<close>

lemma replaced_snapshot:
  assumes "replaced (snapshot lib now old) db = Inr db'"
  shows "d_orders db' = d_orders old" "d_authorisations db' = d_authorisations old" "d_challenges db' = d_challenges old"
    and "leaf_links db' = leaf_links old" "d_leaf_sequence db' = d_leaf_sequence old"
    and "map lf_serial (d_leaves db') = map lf_serial (d_leaves old)"
    and "map lf_changed (d_leaves db') = map (\<lambda>l. lf_changed l + max (last_change db) (last_change old)) (d_leaves old)"
    and "d_crl_number db' = (let n = max (case d_crl_number db of None \<Rightarrow> 0 | Some n \<Rightarrow> n) (case d_crl_number old of None \<Rightarrow> 0 | Some n \<Rightarrow> n)
         in if n > 0 then Some n else d_crl_number old)"
proof -
  have "map lf_changed (d_leaves (snapshot lib now old)) = map lf_changed (d_leaves old)"
    by (simp add: snapshot_def tbl_update_def)
  then have last: "last_change (snapshot lib now old) = last_change old" by (simp add: last_change_def)
  show "d_orders db' = d_orders old" "d_authorisations db' = d_authorisations old" "d_challenges db' = d_challenges old"
    "leaf_links db' = leaf_links old" "d_leaf_sequence db' = d_leaf_sequence old" "map lf_serial (d_leaves db') = map lf_serial (d_leaves old)"
    "map lf_changed (d_leaves db') = map (\<lambda>l. lf_changed l + max (last_change db) (last_change old)) (d_leaves old)"
    "d_crl_number db' = (let n = max (case d_crl_number db of None \<Rightarrow> 0 | Some n \<Rightarrow> n) (case d_crl_number old of None \<Rightarrow> 0 | Some n \<Rightarrow> n)
         in if n > 0 then Some n else d_crl_number old)"
    using assms last by (auto simp: replaced_def snapshot_def Let_def tbl_update_def split: if_splits)
qed

section \<open>No certificate without validated names\<close>

lemma acme_ok_new: "acme_ok acme_db_new"
  by (simp add: acme_ok_def acme_db_new_def tbl_keyed_def valid_backed_def orders_proven_def leaves_ordered_def)

lemma acme_ok_apply:
  assumes ok: "acme_ok db" and made: "server_call call"
  shows "acme_ok (acme_apply lib call db)"
proof -
  have keep: "acme_ok (committed db r)" if "\<And>db'. r = Inr db' \<Longrightarrow> acme_ok db'" for r :: "store_error + acme_db"
    using ok that by (rule committed_cases)
  have out: "acme_ok (committed db (map_sum id snd r))" if "\<And>x db'. r = Inr (x, db') \<Longrightarrow> acme_ok db'" for r :: "store_error + 'x \<times> acme_db"
    using ok by (rule committed_cases) (use that in \<open>auto simp: map_sum_Inr\<close>)
  note same = acme_ok_same [OF ok]
  show ?thesis
  proof (cases call)
    case (Create_Account jwk thumbprint contacts)
    show ?thesis
      unfolding Create_Account acme_apply.simps
      by (rule out, rule same) (auto simp: create_account_def Let_def sbind_Inr_iff split: option.splits)
  next
    case (Set_Contacts i contacts)
    show ?thesis unfolding Set_Contacts acme_apply.simps by (rule same) (simp_all add: set_contacts_def)
  next
    case (Change_Key i jwk thumbprint)
    show ?thesis
      unfolding Change_Key acme_apply.simps
      by (rule keep, rule same) (auto simp: change_key_def Let_def split: option.splits if_splits)
  next
    case (Set_Account_Status i to)
    show ?thesis
      unfolding Set_Account_Status acme_apply.simps
      by (rule keep, rule same) (auto simp: set_account_status_def sbind_Inr_iff)
  next
    case (Create_Order new)
    show ?thesis unfolding Create_Order acme_apply.simps by (rule out, rule acme_ok_create_order [OF ok])
  next
    case (Set_Authorisation_Status i to)
    then have "to \<noteq> AuthValid" using made by simp
    then show ?thesis unfolding Set_Authorisation_Status acme_apply.simps by (intro keep) (erule acme_ok_set_authorisation [OF ok])
  next
    case (Set_Order_Status i to err)
    then show ?thesis using made by simp
  next
    case (Set_Challenge i to err)
    show ?thesis unfolding Set_Challenge acme_apply.simps by (rule keep, rule acme_ok_set_challenge [OF ok])
  next
    case (Record_Certificate i issued)
    show ?thesis unfolding Record_Certificate acme_apply.simps by (rule out, rule acme_ok_record [OF ok])
  next
    case (Revoke_Leaf serial reason)
    show ?thesis
      unfolding Revoke_Leaf acme_apply.simps
      by (rule out, drule store_revoke_effect(1)) (simp add: acme_ok_revoke ok)
  next
    case Next_Crl_Number
    show ?thesis unfolding Next_Crl_Number acme_apply.simps by (rule same) (simp_all add: next_crl_number_def Let_def)
  next
    case (Expire_Stale now)
    show ?thesis unfolding Expire_Stale acme_apply.simps using ok by (rule acme_ok_expire)
  qed
qed

lemma acme_reached_ok: "acme_reached db \<Longrightarrow> acme_ok db"
proof (induction rule: acme_reached.induct)
  case (Acme_Restore db old lib now db')
  show ?case using Acme_Restore.IH(2) by (rule acme_ok_same) (rule replaced_snapshot [OF Acme_Restore.hyps(3)])+
qed (auto intro: acme_ok_new acme_ok_apply)

text \<open>
  Every certificate the ACME server has recorded belongs to a valid order of the same account, and
  every authorisation of that order has a challenge that was validated, whatever transactions of the
  server and restores came before.
\<close>

theorem no_unproven_certificate:
  assumes "acme_reached db" "l \<in> set (d_leaves db)"
  shows "\<exists>r \<in> set (d_orders db). or_id r = lf_order l \<and> or_account r = lf_account l \<and> or_status r = OrderValid
    \<and> or_certificate r = Some (lf_id l)
    \<and> (\<forall>z \<in> set (d_authorisations db). az_order z = or_id r \<longrightarrow>
        (\<exists>c \<in> set (d_challenges db). ch_authorisation c = az_id z \<and> ch_status c = ChalValid))"
proof -
  have ok: "acme_ok db" using assms(1) by (rule acme_reached_ok)
  then obtain r where r: "r \<in> set (d_orders db)" "or_id r = lf_order l \<and> or_account r = lf_account l \<and> or_status r = OrderValid
      \<and> or_certificate r = Some (lf_id l)"
    using assms(2) by (auto simp: acme_ok_def leaves_ordered_def)
  then have "proven db (or_id r)" using ok by (auto simp: acme_ok_def orders_proven_def)
  then show ?thesis using r by (intro bexI [of _ r]) (auto simp: proven_def valid_for_def)
qed

section \<open>Changes\<close>

definition leaves_ok :: "acme_db \<Rightarrow> bool" where
  "leaves_ok db \<longleftrightarrow> tbl_keyed lf_serial (d_leaves db) \<and> tbl_keyed lf_changed (d_leaves db) \<and> (\<forall>l \<in> set (d_leaves db). 0 < lf_changed l)"

lemma foldl_max: "foldl max a xs = Max (set (a # xs))" for a :: int
proof (induction xs arbitrary: a)
  case (Cons x xs)
  have "Max (set (max a x # xs)) = Max (set (a # x # xs))" by (cases "xs = []") (simp_all add: max.assoc)
  then show ?case using Cons.IH [of "max a x"] by simp
qed simp

lemma last_change_le: "l \<in> set (d_leaves db) \<Longrightarrow> lf_changed l \<le> last_change db"
  by (auto simp: last_change_def foldl_max)

lemma last_change_bound: "0 \<le> b \<Longrightarrow> (\<And>l. l \<in> set (d_leaves db) \<Longrightarrow> lf_changed l \<le> b) \<Longrightarrow> last_change db \<le> b"
  by (auto simp: last_change_def foldl_max)

lemma last_change_nonneg: "0 \<le> last_change db"
  by (auto simp: last_change_def foldl_max)

lemma next_change_last: "next_change db = last_change db + 1"
  by (simp add: next_change_def last_change_def)

text \<open>The transactions on orders leave the certificates and the CRL number alone.\<close>

abbreviation issued_part :: "acme_db \<Rightarrow> leaf_row list \<times> int \<times> int option" where
  "issued_part db \<equiv> (d_leaves db, d_leaf_sequence db, d_crl_number db)"

lemma settle_issued: "settle_order_of z db = Inr db' \<Longrightarrow> issued_part db' = issued_part db"
  by (auto simp: settle_order_of_def ready_orders_def fail_orders_def split: option.splits)

lemma set_authorisation_issued: "set_authorisation_status i to db = Inr db' \<Longrightarrow> issued_part db' = issued_part db"
  by (auto simp: set_authorisation_status_def sbind_Inr_iff dest!: settle_issued)

lemma set_challenge_issued:
  assumes "set_challenge_status lib i to err db = Inr db'"
  shows "issued_part db' = issued_part db"
proof -
  obtain f :: "challenge_row \<Rightarrow> challenge_row" and rows
    where undecided: "decided_by to = None \<Longrightarrow> db' = db\<lparr> d_challenges := rows \<rparr>"
    and decided: "\<And>decided. decided_by to = Some decided \<Longrightarrow> \<exists>c \<in> set rows. ch_id c = i
          \<and> decide_authorisation (ch_authorisation c) decided (db\<lparr> d_challenges := rows \<rparr>) = Inr db'"
    by (rule set_challenge_status_effect [OF assms]) (rule that)
  then show ?thesis
    by (cases "decided_by to") (auto simp: decide_authorisation_def dest: settle_issued)
qed

lemma create_order_issued:
  assumes "create_order lib new db = Inr (o', db')" "tbl_keyed ch_id (d_challenges db)"
  shows "issued_part db' = issued_part db"
  using assms by (auto simp: create_order_def Let_def sbind_Inr_iff dest!: insert_authorisations_effect split: if_splits)

text \<open>What a transaction may do to the certificates: nothing, one more, or one revoked.\<close>

lemma apply_leaves:
  assumes "tbl_keyed ch_id (d_challenges db)"
  obtains (same) "d_leaves (acme_apply lib call db) = d_leaves db"
    | (recorded) l where "d_leaves (acme_apply lib call db) = d_leaves db @ [l]" "lf_changed l = next_change db"
        "lf_serial l \<notin> lf_serial ` set (d_leaves db)"
    | (revoked) serial reason where "acme_apply lib call db = leaf_revoked lib serial reason db"
proof -
  consider (quiet) "issued_part (acme_apply lib call db) = issued_part db" | (number) "call = Next_Crl_Number"
    | (recording) i issued where "call = Record_Certificate i issued" | (revoke) serial reason where "call = Revoke_Leaf serial reason"
  proof (cases call)
    case (Create_Account jwk thumbprint contacts)
    then show thesis
      by (intro quiet) (auto simp: committed_def map_sum_Inr create_account_def Let_def sbind_Inr_iff split: sum.splits option.splits)
  next
    case (Set_Contacts i contacts)
    then show thesis by (intro quiet) (simp add: set_contacts_def)
  next
    case (Change_Key i jwk thumbprint)
    then show thesis by (intro quiet) (auto simp: committed_def change_key_def Let_def split: sum.splits option.splits if_splits)
  next
    case (Set_Account_Status i to)
    then show thesis by (intro quiet) (auto simp: committed_def set_account_status_def sbind_Inr_iff split: sum.splits)
  next
    case (Create_Order new)
    then show thesis
      using create_order_issued [OF _ assms] by (intro quiet) (auto simp: committed_def map_sum_Inr split: sum.splits)
  next
    case (Set_Order_Status i to err)
    then show thesis by (intro quiet) (auto simp: committed_def set_order_status_def sbind_Inr_iff split: sum.splits)
  next
    case (Set_Authorisation_Status i to)
    then show thesis using set_authorisation_issued by (intro quiet) (auto simp: committed_def split: sum.splits)
  next
    case (Set_Challenge i to err)
    then show thesis using set_challenge_issued by (intro quiet) (auto simp: committed_def split: sum.splits)
  next
    case (Expire_Stale now)
    then show thesis by (intro quiet) (simp add: expire_stale_def Let_def fail_orders_def)
  qed (rule number recording revoke, assumption)+
  then show thesis
  proof cases
    case number
    then show thesis by (intro same) (simp add: next_crl_number_def Let_def)
  next
    case (recording i issued)
    show thesis
    proof (cases "record_certificate lib i issued db")
      case (Inr x)
      obtain l where "d_leaves (snd x) = d_leaves db @ [l]" "lf_changed l = next_change db" "lf_serial l \<notin> lf_serial ` set (d_leaves db)"
        using Inr by (cases x) (auto elim!: record_certificate_effect)
      then show thesis using recorded Inr recording by (simp add: committed_def)
    qed (use same recording in \<open>simp add: committed_def\<close>)
  next
    case (revoke serial reason)
    show thesis
    proof (cases "store_revoke lib serial reason db")
      case (Inr x)
      then show thesis using revoked revoke store_revoke_effect(1) [of lib serial reason db "fst x" "snd x"] by (simp add: committed_def)
    qed (use same revoke in \<open>simp add: committed_def\<close>)
  qed (use same in simp)
qed

text \<open>One row, found by a key, takes a new value under another key.\<close>

lemma tbl_keyed_bump:
  assumes "tbl_keyed k rows" "tbl_keyed s rows" "\<And>r. P r \<Longrightarrow> s r = v" "\<And>r. P r \<Longrightarrow> k (f r) = n" "n \<notin> k ` set rows"
  shows "tbl_keyed k (tbl_update P f rows)"
  using assms
proof (induction rows)
  case (Cons r rows)
  have rest: "tbl_keyed k (tbl_update P f rows)" using Cons by (simp add: tbl_keyed_def)
  show ?case
  proof (cases "P r")
    case True
    have "\<not> P q" if "q \<in> set rows" for q
      using Cons.prems(2) assms(3) True that by (force simp: tbl_keyed_def)
    then have "tbl_update P f (r # rows) = f r # rows" using True by (simp add: tbl_update_def map_idI)
    then show ?thesis using Cons.prems(1,5) assms(4) True by (simp add: tbl_keyed_def)
  next
    case False
    have "k ` set (tbl_update P f rows) \<subseteq> insert n (k ` set rows)" using assms(4) by (auto simp: tbl_update_def)
    then have "k r \<notin> k ` set (tbl_update P f rows)" using Cons.prems(1,5) by (auto simp: tbl_keyed_def)
    moreover have "tbl_update P f (r # rows) = r # tbl_update P f rows" using False by (simp add: tbl_update_def)
    ultimately show ?thesis using rest by (simp add: tbl_keyed_def)
  qed
qed (simp add: tbl_keyed_def tbl_update_def)

lemma leaves_ok_apply:
  assumes "tbl_keyed ch_id (d_challenges db)" "leaves_ok db"
  shows "leaves_ok (acme_apply lib call db)"
  using assms(1)
proof (cases rule: apply_leaves [of db lib call])
  case same
  then show ?thesis using assms(2) by (simp add: leaves_ok_def)
next
  case (recorded l)
  have "lf_changed l \<notin> lf_changed ` set (d_leaves db)" "0 < lf_changed l"
    using last_change_le last_change_nonneg [of db] recorded(2) by (fastforce simp: next_change_last)+
  then show ?thesis using recorded assms(2) by (auto simp: leaves_ok_def tbl_keyed_def)
next
  case (revoked serial reason)
  let ?P = "\<lambda>r. lf_serial r = serial \<and> lf_revoked_at r = None"
  have keyed: "tbl_keyed lf_serial (d_leaves db)" "tbl_keyed lf_changed (d_leaves db)" using assms(2) by (simp_all add: leaves_ok_def)
  have "tbl_keyed lf_serial (d_leaves (leaf_revoked lib serial reason db))"
    using keyed(1) by (auto simp: leaf_revoked_def intro!: tbl_keyed_update)
  moreover have "tbl_keyed lf_changed (d_leaves (leaf_revoked lib serial reason db))"
  proof -
    have "next_change db \<notin> lf_changed ` set (d_leaves db)" using last_change_le by (fastforce simp: next_change_last)
    then show ?thesis
      using tbl_keyed_bump [OF keyed(2,1), of ?P serial "\<lambda>r. r\<lparr> lf_revoked_at := Some (now_text lib), lf_reason := reason, lf_changed := next_change db \<rparr>" "next_change db"]
      by (simp add: leaf_revoked_def)
  qed
  moreover have "\<forall>l \<in> set (d_leaves (leaf_revoked lib serial reason db)). 0 < lf_changed l"
    using assms(2) last_change_nonneg [of db] by (auto simp: leaf_revoked_def tbl_update_def leaves_ok_def next_change_last)
  ultimately show ?thesis using revoked by (simp add: leaves_ok_def)
qed

lemma acme_reached_leaves: "acme_reached db \<Longrightarrow> leaves_ok db"
proof (induction rule: acme_reached.induct)
  case Acme_New
  show ?case by (simp add: leaves_ok_def acme_db_new_def tbl_keyed_def)
next
  case (Acme_Call db lib call)
  then show ?case using acme_reached_ok by (auto simp: acme_ok_def intro!: leaves_ok_apply)
next
  case (Acme_Restore db old lib now db')
  note r = replaced_snapshot [OF Acme_Restore.hyps(3)]
  let ?past = "max (last_change db) (last_change old)"
  have changed: "lf_changed ` set (d_leaves db') = (\<lambda>l. lf_changed l + ?past) ` set (d_leaves old)"
    using arg_cong [OF r(7), of set] by simp
  have "map (\<lambda>l. lf_changed l + ?past) (d_leaves old) = map (\<lambda>c. c + ?past) (map lf_changed (d_leaves old))" by simp
  then have "distinct (map lf_changed (d_leaves db'))"
    unfolding r(7) using Acme_Restore.IH(2) by (simp add: leaves_ok_def tbl_keyed_def distinct_map inj_on_def)
  moreover have "0 < lf_changed l" if "l \<in> set (d_leaves db')" for l
  proof -
    have "lf_changed l \<in> (\<lambda>l. lf_changed l + ?past) ` set (d_leaves old)" using that unfolding changed [symmetric] by simp
    then show ?thesis using Acme_Restore.IH(2) last_change_nonneg [of db] last_change_nonneg [of old] by (auto simp: leaves_ok_def)
  qed
  ultimately show ?case using Acme_Restore.IH(2) by (simp add: leaves_ok_def tbl_keyed_def r(6))
qed

text \<open>After a restore every certificate is numbered after everything from before it.\<close>

lemma restore_changes:
  assumes "acme_reached old" "replaced (snapshot lib now old) db = Inr db'" "l \<in> set (d_leaves db')"
  shows "last_change db < lf_changed l"
proof -
  have "lf_changed l \<in> set (map (\<lambda>l. lf_changed l + max (last_change db) (last_change old)) (d_leaves old))"
    using assms(3) replaced_snapshot(7) [OF assms(2)] by (metis image_eqI list.set_map)
  then show ?thesis using acme_reached_leaves [OF assms(1)] by (auto simp: leaves_ok_def)
qed

text \<open>After any step that holds for what is new or changed, and the numbers never fall back.\<close>

lemma step_changes:
  assumes "acme_reached db" "acme_step db db'"
  shows "l \<in> set (d_leaves db') \<Longrightarrow> l \<notin> set (d_leaves db) \<Longrightarrow> last_change db < lf_changed l"
    and "(d_leaves db' = [] \<Longrightarrow> d_leaves db = []) \<Longrightarrow> last_change db \<le> last_change db'"
proof -
  have "(l \<in> set (d_leaves db') \<longrightarrow> l \<notin> set (d_leaves db) \<longrightarrow> last_change db < lf_changed l)
    \<and> ((d_leaves db' = [] \<longrightarrow> d_leaves db = []) \<longrightarrow> last_change db \<le> last_change db')"
    using assms(2)
  proof cases
    case (Step_Call call lib)
    have "tbl_keyed ch_id (d_challenges db)" using acme_reached_ok [OF assms(1)] by (simp add: acme_ok_def)
    then show ?thesis
    proof (cases rule: apply_leaves [of db lib call])
      case same
      then show ?thesis using Step_Call by (simp add: last_change_def)
    next
      case (recorded l')
      have "last_change db' = lf_changed l'"
        using recorded Step_Call by (simp add: last_change_def next_change_def)
      then show ?thesis using recorded Step_Call by (auto simp: next_change_last)
    next
      case (revoked serial reason)
      have "lf_changed q \<le> last_change db'" if "q \<in> set (d_leaves db)" for q
      proof -
        let ?q = "if lf_serial q = serial \<and> lf_revoked_at q = None
          then q\<lparr> lf_revoked_at := Some (now_text lib), lf_reason := reason, lf_changed := next_change db \<rparr> else q"
        have "?q \<in> set (d_leaves db')" using that revoked Step_Call by (auto simp: leaf_revoked_def tbl_update_def)
        then have "lf_changed ?q \<le> last_change db'" by (rule last_change_le)
        then show ?thesis using last_change_le [OF that] by (auto simp: next_change_last split: if_splits)
      qed
      then have "last_change db \<le> last_change db'" by (intro last_change_bound last_change_nonneg)
      then show ?thesis using revoked Step_Call by (auto simp: leaf_revoked_def tbl_update_def next_change_last split: if_splits)
    qed
  next
    case (Step_Restore old lib now)
    note later = restore_changes [OF this]
    have "last_change db \<le> last_change db'" if "d_leaves db' \<noteq> []"
      using later [OF hd_in_set [OF that]] last_change_le [OF hd_in_set [OF that]] by simp
    then show ?thesis using later last_change_nonneg [of db'] by (auto simp: last_change_def [of db])
  qed
  then show "l \<in> set (d_leaves db') \<Longrightarrow> l \<notin> set (d_leaves db) \<Longrightarrow> last_change db < lf_changed l"
    "(d_leaves db' = [] \<Longrightarrow> d_leaves db = []) \<Longrightarrow> last_change db \<le> last_change db'" by blast+
qed

text \<open>The restores that a following client survives: not of a database without certificates over one with some.\<close>

inductive acme_steps :: "acme_db \<Rightarrow> acme_db \<Rightarrow> bool" where
  Steps_None: "acme_steps db db"
| Steps_More: "acme_steps db db' \<Longrightarrow> acme_step db' db'' \<Longrightarrow> (d_leaves db'' = [] \<Longrightarrow> d_leaves db' = []) \<Longrightarrow> acme_steps db db''"

lemma acme_reached_acme_steps: "acme_steps db db' \<Longrightarrow> acme_reached db \<Longrightarrow> acme_reached db'"
  by (induction rule: acme_steps.induct) (auto intro: acme_reached_step)

lemma steps_last_change: "acme_steps db db' \<Longrightarrow> acme_reached db \<Longrightarrow> last_change db \<le> last_change db'"
proof (induction rule: acme_steps.induct)
  case (Steps_More db db' db'')
  then show ?case using step_changes(2) [of db' db''] acme_reached_acme_steps by fastforce
qed simp

lemma steps_changes:
  "acme_steps db db' \<Longrightarrow> acme_reached db \<Longrightarrow> l \<in> set (d_leaves db') \<Longrightarrow> l \<notin> set (d_leaves db) \<Longrightarrow> last_change db < lf_changed l"
proof (induction rule: acme_steps.induct)
  case (Steps_More db db' db'')
  show ?case
  proof (cases "l \<in> set (d_leaves db')")
    case False
    then have "last_change db' < lf_changed l"
      using Steps_More step_changes(1) acme_reached_acme_steps by blast
    then show ?thesis using steps_last_change Steps_More by fastforce
  qed (use Steps_More in simp)
qed simp

section \<open>CRL numbers\<close>

definition crl_level :: "acme_db \<Rightarrow> int" where
  "crl_level db = (case d_crl_number db of None \<Rightarrow> 0 | Some n \<Rightarrow> n)"

lemma apply_crl_level:
  assumes "tbl_keyed ch_id (d_challenges db)"
  shows "crl_level (acme_apply lib call db) = (if call = Next_Crl_Number then crl_level db + 1 else crl_level db)"
proof (cases call)
  case (Create_Account jwk thumbprint contacts)
  then show ?thesis
    by (auto simp: crl_level_def committed_def map_sum_Inr create_account_def Let_def sbind_Inr_iff split: sum.splits option.splits)
next
  case (Change_Key i jwk thumbprint)
  then show ?thesis by (auto simp: crl_level_def committed_def change_key_def Let_def split: sum.splits option.splits if_splits)
next
  case (Record_Certificate i issued)
  then show ?thesis
    by (auto simp: crl_level_def committed_def map_sum_Inr elim!: record_certificate_effect split: sum.splits)
next
  case (Create_Order new)
  then show ?thesis using create_order_issued [OF _ assms] by (auto simp: crl_level_def committed_def map_sum_Inr split: sum.splits)
next
  case Next_Crl_Number
  then show ?thesis by (simp add: crl_level_def next_crl_number_def Let_def split: option.splits)
next
  case (Revoke_Leaf serial reason)
  then show ?thesis
    by (auto simp: crl_level_def committed_def map_sum_Inr leaf_revoked_def dest!: store_revoke_effect(1) split: sum.splits)
next
  case (Set_Account_Status i to)
  then show ?thesis by (auto simp: crl_level_def committed_def set_account_status_def sbind_Inr_iff split: sum.splits)
next
  case (Set_Order_Status i to err)
  then show ?thesis by (auto simp: crl_level_def committed_def set_order_status_def sbind_Inr_iff split: sum.splits)
next
  case (Set_Authorisation_Status i to)
  then show ?thesis using set_authorisation_issued by (auto simp: crl_level_def committed_def split: sum.splits)
next
  case (Set_Challenge i to err)
  then show ?thesis using set_challenge_issued by (auto simp: crl_level_def committed_def split: sum.splits)
qed (simp_all add: crl_level_def set_contacts_def expire_stale_def Let_def fail_orders_def)

lemma restore_crl_level:
  assumes "replaced (snapshot lib now old) db = Inr db'" "0 \<le> crl_level old" "0 \<le> crl_level db"
  shows "crl_level db' = max (crl_level db) (crl_level old)"
proof -
  have "d_crl_number db' = (if max (crl_level db) (crl_level old) > 0 then Some (max (crl_level db) (crl_level old)) else d_crl_number old)"
    using replaced_snapshot(8) [OF assms(1)] by (simp add: crl_level_def Let_def)
  then show ?thesis using assms(2,3) by (auto simp: crl_level_def [of db'] crl_level_def [of old])
qed

lemma acme_reached_crl: "acme_reached db \<Longrightarrow> 0 \<le> crl_level db"
proof (induction rule: acme_reached.induct)
  case (Acme_Call db lib call)
  then show ?case using apply_crl_level acme_reached_ok [of db] by (simp add: acme_ok_def)
qed (auto simp: crl_level_def [of acme_db_new] acme_db_new_def [THEN arg_cong [of _ _ d_crl_number]] restore_crl_level)

lemma steps_crl_level:
  assumes "acme_step\<^sup>*\<^sup>* db db'" "acme_reached db"
  shows "crl_level db \<le> crl_level db'"
  using assms
proof (induction rule: rtranclp_induct)
  case (step db' db'')
  have reached: "acme_reached db'" using acme_reached_steps step by blast
  have "crl_level db' \<le> crl_level db''"
    using step.hyps(2)
  proof cases
    case (Step_Call call lib)
    then show ?thesis using apply_crl_level acme_reached_ok [OF reached] by (simp add: acme_ok_def)
  next
    case (Step_Restore old lib now)
    then show ?thesis using restore_crl_level acme_reached_crl reached by simp
  qed
  then show ?case using step by simp
qed simp

text \<open>
  C20: The numbers given to CRLs increase strictly over any sequence of transactions and restores, an older
  database restored included.
\<close>

theorem crl_numbers_increase:
  assumes "acme_reached db" "acme_step\<^sup>*\<^sup>* (snd (next_crl_number db)) db'"
  shows "fst (next_crl_number db) < fst (next_crl_number db')"
proof -
  have step: "acme_step db (snd (next_crl_number db))"
    using Step_Call [where call = Next_Crl_Number] by simp
  have number: "fst (next_crl_number d) = crl_level d + 1" for d
    by (simp add: next_crl_number_def Let_def crl_level_def split: option.splits)
  have "crl_level (snd (next_crl_number db)) = fst (next_crl_number db)"
    by (simp add: next_crl_number_def Let_def crl_level_def)
  moreover have "crl_level (snd (next_crl_number db)) \<le> crl_level db'"
    using steps_crl_level [OF assms(2)] acme_reached_step [OF assms(1) step] by simp
  ultimately show ?thesis using number by simp
qed

section \<open>An example\<close>

definition example_lib :: acme_lib where
  "example_lib = \<lparr> al_format = int_to_string, al_parse = (\<lambda>s. Inr 0), al_json_texts = concat, al_read_texts = (\<lambda>s. Inr [s]),
     al_json_problem = pb_detail, al_read_problem = (\<lambda>s. Inr (problem_new Malformed s)), al_now = 7,
     al_random = (\<lambda>n. Inr (replicate n 0)) \<rparr>"

definition example_leaf :: new_leaf where
  "example_leaf = \<lparr> nl_serial = ''77'', nl_common_name = None, nl_sans = [''a.test''], nl_not_before = 0, nl_not_after = 9,
     nl_chain_pem = ''chain'', nl_issuer_serial = ''5'' \<rparr>"

definition example_order :: new_order where
  "example_order = \<lparr> no_account = 1, no_identifiers = [''a.test''], no_not_before = None, no_not_after = None, no_expires = 100,
     no_authorisations = [\<lparr> na_identifier = ''a.test'', na_wildcard = False, na_expires = 100, na_challenges = [Dns01] \<rparr>] \<rparr>"

definition example_calls :: "acme_call list" where
  "example_calls = [Create_Account ''key'' ''print'' [], Create_Order example_order, Set_Challenge 1 ChalProcessing None,
     Set_Challenge 1 ChalValid None, Record_Certificate 1 example_leaf]"

definition acme_run :: "acme_call list \<Rightarrow> acme_db \<Rightarrow> acme_db" where
  "acme_run calls db = foldl (\<lambda>d c. acme_apply example_lib c d) db calls"

lemma acme_run_reached: "acme_reached db \<Longrightarrow> list_all server_call calls \<Longrightarrow> acme_reached (acme_run calls db)"
  by (induction calls arbitrary: db) (auto simp: acme_run_def intro: Acme_Call)

definition example_db :: acme_db where
  "example_db = acme_run example_calls acme_db_new"

lemmas example_simps = acme_run_def example_calls_def example_order_def example_leaf_def example_lib_def acme_db_new_def
  committed_def create_account_def account_of_row_def create_order_def order_by_id_def set_challenge_status_def decide_authorisation_def
  settle_order_of_def record_certificate_def leaf_of_row_def read_time_def optional_time_def optional_problem_def unreadable_def
  sbind_def next_rowid_def now_text_def transition_def read_status_def challenge_life_def order_life_def challenge_may_become_def
  order_may_become_def fail_orders_def ready_orders_def has_failed_def all_valid_def tbl_update_def next_change_def Let_def

lemma example_leaves: "map lf_serial (d_leaves example_db) = [''77'']"
  by (simp add: example_db_def example_simps)

lemma example_db_reached: "acme_reached example_db"
  unfolding example_db_def by (intro acme_run_reached Acme_New) (simp add: example_calls_def)

theorem no_unproven_certificate_witness:
  "\<exists>l \<in> set (d_leaves example_db). \<exists>r \<in> set (d_orders example_db). or_id r = lf_order l \<and> or_account r = lf_account l
    \<and> or_status r = OrderValid \<and> or_certificate r = Some (lf_id l)
    \<and> (\<forall>z \<in> set (d_authorisations example_db). az_order z = or_id r \<longrightarrow>
        (\<exists>c \<in> set (d_challenges example_db). ch_authorisation c = az_id z \<and> ch_status c = ChalValid))"
proof -
  obtain l where l: "l \<in> set (d_leaves example_db)" using example_leaves by (cases "d_leaves example_db") auto
  show ?thesis using no_unproven_certificate [OF example_db_reached l] l by (rule bexI)
qed

theorem crl_numbers_increase_witness:
  "fst (next_crl_number example_db) < fst (next_crl_number (snd (next_crl_number example_db)))"
  by (rule crl_numbers_increase [OF example_db_reached rtranclp.rtrancl_refl])

text \<open>
  C21: Restoring a database without certificates over one that had some starts the change numbers again:
  whatever certificate is recorded first afterwards is numbered no higher than what a client has already
  followed, so the page of changes after that is empty and says that there is no more; the client never
  learns of the certificate from it.
\<close>

theorem restore_of_empty_hides_changes:
  assumes "acme_reached db" "d_leaves db \<noteq> []" "d_leaves old = []" "replaced (snapshot lib now old) db = Inr db'"
    and "record_certificate lib' i issued db' = Inr (l, db'')"
  shows "(\<exists>q \<in> set (d_leaves db''). lf_serial q = nl_serial issued \<and> lf_changed q \<le> last_change db)
    \<and> changed_after lib'' (last_change db) None limit db'' = Inr \<lparr> cg_certificates = [], cg_more = False \<rparr>"
proof -
  have empty: "d_leaves db' = []" using replaced_snapshot(6) [OF assms(4)] assms(3) by simp
  obtain q where q: "d_leaves db'' = d_leaves db' @ [q]" "lf_changed q = next_change db'" "lf_serial q = nl_serial issued"
    by (rule record_certificate_effect [OF assms(5)]) (use that in auto)
  have first: "lf_changed q = 1" using q(2) empty by (simp add: next_change_last last_change_def)
  obtain p where p: "p \<in> set (d_leaves db)" using assms(2) by (cases "d_leaves db") auto
  then have "0 < lf_changed p" using acme_reached_leaves [OF assms(1)] by (simp add: leaves_ok_def)
  then have past: "1 \<le> last_change db" using last_change_le [OF p] by simp
  have "changed_after lib'' (last_change db) None limit db'' = Inr \<lparr> cg_certificates = [], cg_more = False \<rparr>"
    using past first q(1) empty by (simp add: changed_after_def page_of_def Let_def sbind_def)
  then show ?thesis using past first q(1,3) by auto
qed

definition example_ready :: acme_db where
  "example_ready = acme_run (butlast example_calls) acme_db_new"

theorem restore_of_empty_hides_changes_witness:
  "\<exists>db' l db''. replaced (snapshot example_lib 7 example_ready) example_db = Inr db'
     \<and> record_certificate example_lib 1 example_leaf db' = Inr (l, db'') \<and> map lf_serial (d_leaves db'') = [''77'']
     \<and> changed_after example_lib (last_change example_db) None 100 db'' = Inr \<lparr> cg_certificates = [], cg_more = False \<rparr>"
proof -
  have "\<exists>db' l db''. replaced (snapshot example_lib 7 example_ready) example_db = Inr db'
      \<and> record_certificate example_lib 1 example_leaf db' = Inr (l, db'') \<and> map lf_serial (d_leaves db'') = [''77'']"
    by (simp add: replaced_def snapshot_def foreign_keys_ok_def example_ready_def example_db_def last_change_def example_simps)
  then obtain db' l db'' where restored: "replaced (snapshot example_lib 7 example_ready) example_db = Inr db'"
    and issued: "record_certificate example_lib 1 example_leaf db' = Inr (l, db'')" and "map lf_serial (d_leaves db'') = [''77'']" by (elim exE conjE) (rule that)
  moreover have "d_leaves example_db \<noteq> []" "d_leaves example_ready = []"
    using example_leaves by (auto simp: example_ready_def example_simps)
  ultimately show ?thesis
    using restore_of_empty_hides_changes [OF example_db_reached _ _ restored issued, of example_lib 100]
    by (intro exI [of _ db'] exI [of _ l] exI [of _ db'']) (simp add: restored issued)
qed

end
