(* ===== verification/San.thy ===== *)
theory San
  imports Rust_Text
begin

text \<open>
  Subject Alternative Names, from \<^verbatim>\<open>crates/opca-core/src/services/san.rs\<close>: the classification of
  user input as an address, an email, a URI or a DNS name, the two textual forms of a name, and the
  reading of names back out of certificates.
\<close>

datatype subject_alt_name = Dns string | Ip ip_addr | Email string | Uri string

definition tagged :: "subject_alt_name \<Rightarrow> string" where
  "tagged n = (case n of Dns v \<Rightarrow> ''DNS:'' @ v | Ip ip \<Rightarrow> ''IP:'' @ display_ip ip
      | Email v \<Rightarrow> ''email:'' @ v | Uri v \<Rightarrow> ''URI:'' @ v)"

definition display_san :: "subject_alt_name \<Rightarrow> string" where
  "display_san n = (case n of Dns v \<Rightarrow> v | Email v \<Rightarrow> v | Uri v \<Rightarrow> v | Ip ip \<Rightarrow> display_ip ip)"

text \<open>What the OpenSSL binding tells of one name of the extension.\<close>

record general_name =
  gn_dnsname :: "string option"
  gn_ipaddress :: "nat list option"
  gn_email :: "string option"
  gn_uri :: "string option"

fun bytes_to_groups :: "nat list \<Rightarrow> nat list" where
  "bytes_to_groups (a # b # bs) = (256 * a + b) # bytes_to_groups bs"
| "bytes_to_groups bs = []"

definition from_general_name :: "general_name \<Rightarrow> subject_alt_name option" where
  "from_general_name name =
     (case gn_dnsname name of Some v \<Rightarrow> Some (Dns v)
      | None \<Rightarrow>
          (case gn_ipaddress name of
             Some bytes \<Rightarrow>
               if length bytes = 4 then Some (Ip (V4 bytes))
               else if length bytes = 16 then Some (Ip (V6 (bytes_to_groups bytes)))
               else None
           | None \<Rightarrow>
               (case gn_email name of Some v \<Rightarrow> Some (Email v)
                | None \<Rightarrow> map_option Uri (gn_uri name))))"

definition of_certificate :: "general_name list option \<Rightarrow> subject_alt_name list" where
  "of_certificate names = (case names of Some ns \<Rightarrow> List.map_filter from_general_name ns | None \<Rightarrow> [])"

definition dns_label :: "string \<Rightarrow> bool" where
  "dns_label label \<longleftrightarrow>
     1 \<le> length label \<and> length label \<le> 63
     \<and> list_all (\<lambda>b. is_ascii_alphanumeric b \<or> b = CHR ''-'') label
     \<and> \<not> starts_with ''-'' label \<and> \<not> ends_with ''-'' label"

definition is_dns_name :: "string \<Rightarrow> bool \<Rightarrow> bool" where
  "is_dns_name v allow_wildcard =
     (let name = (case strip_prefix ''*.'' v of
                    Some rest \<Rightarrow> if allow_wildcard then rest else v | None \<Rightarrow> v)
      in length name \<le> 253
         \<and> \<not> list_all is_ascii_digit (last (split_char CHR ''.'' name))
         \<and> list_all dns_label (split_char CHR ''.'' name))"

definition valid_scheme :: "string \<Rightarrow> bool" where
  "valid_scheme scheme = (case scheme of [] \<Rightarrow> False
     | c # cs \<Rightarrow> is_ascii_alphabetic c
         \<and> list_all (\<lambda>c. is_ascii_alphanumeric c \<or> c \<in> set ''+-.'') cs)"

definition is_uri :: "string \<Rightarrow> bool res" where
  "is_uri v =
     (case split_once ''://'' v of
        Some (scheme, rest) \<Rightarrow>
          if \<not> valid_scheme scheme then Ok False
          else Ok (rest \<noteq> [] \<and> list_all is_ascii_graphic v)
      | None \<Rightarrow>
          if length v > 4
          then (case slice_to v 4 of
                  None \<Rightarrow> Panic ''byte index 4 is not a char boundary''
                | Some front \<Rightarrow>
                    if eq_ignore_ascii_case front ''urn:''
                    then Ok (drop 4 v \<noteq> [] \<and> list_all is_ascii_graphic v)
                    else Ok False)
          else Ok False)"

definition invalid_san :: "string \<Rightarrow> string \<Rightarrow> 'a res" where
  "invalid_san v why = Err (InvalidCertificate (''Invalid SAN '' @ quote v @ '': '' @ why))"

definition san_from_str :: "string \<Rightarrow> subject_alt_name res" where
  "san_from_str s =
     (let v = trim s in
      if v = [] then invalid_san v ''empty''
      else case parse_ip v of Some ip \<Rightarrow> Ok (Ip ip)
      | None \<Rightarrow>
          (case split_once ''@'' v of
             Some (local, domain) \<Rightarrow>
               if local = [] \<or> \<not> list_all (\<lambda>b. is_ascii_graphic b \<and> b \<noteq> CHR ''@'') local
               then invalid_san v ''not a valid email address''
               else if \<not> is_dns_name domain False
               then invalid_san v ''email domain is not a valid hostname''
               else Ok (Email v)
           | None \<Rightarrow>
               rbind (is_uri v) (\<lambda>uri.
                 if uri then Ok (Uri v)
                 else if is_dns_name v True then Ok (Dns v)
                 else invalid_san v ''not a valid hostname, IP address, email or URI'')))"

section \<open>Lemmas\<close>

definition host_char :: "char \<Rightarrow> bool" where
  "host_char c \<longleftrightarrow> is_ascii_alphanumeric c \<or> c = CHR ''-'' \<or> c = CHR ''.''"

lemma host_char_graphic: "host_char c \<Longrightarrow> is_ascii_graphic c"
  by (auto simp: host_char_def byte_defs)

lemma is_dns_name_chars:
  assumes "is_dns_name v False"
  shows "v \<noteq> [] \<and> length v \<le> 253 \<and> list_all host_char v"
proof -
  have name: "(case strip_prefix ''*.'' v of Some rest \<Rightarrow> if False then rest else v | None \<Rightarrow> v) = v"
    by (simp split: option.split)
  have labels: "list_all dns_label (split_char CHR ''.'' v)" and len: "length v \<le> 253"
    using assms unfolding is_dns_name_def name Let_def by blast+
  have "host_char c" if "c \<in> set v" for c
    using labels that set_split_char [of v "CHR ''.''"]
    by (fastforce simp: list_all_iff dns_label_def host_char_def)
  moreover have "v \<noteq> []" using labels by (auto simp: dns_label_def)
  ultimately show ?thesis using len by (simp add: list_all_iff)
qed

text \<open>
  What a name of each kind looks like: no name carries a control character, a space or a
  non-ASCII byte, host names are within the DNS length limit, and an email has one at sign.
\<close>

fun san_shape :: "subject_alt_name \<Rightarrow> bool" where
  "san_shape (Dns v) \<longleftrightarrow>
     (let h = (if starts_with ''*.'' v then drop 2 v else v)
      in h \<noteq> [] \<and> length h \<le> 253 \<and> list_all host_char h)"
| "san_shape (Ip (V4 octets)) \<longleftrightarrow> length octets = 4 \<and> list_all (\<lambda>b. b \<le> 255) octets"
| "san_shape (Ip (V6 groups)) \<longleftrightarrow> length groups = 8"
| "san_shape (Email v) \<longleftrightarrow>
     (\<exists>l d. v = l @ ''@'' @ d \<and> l \<noteq> [] \<and> CHR ''@'' \<notin> set l \<and> CHR ''@'' \<notin> set d
        \<and> list_all is_ascii_graphic l \<and> d \<noteq> [] \<and> list_all host_char d)"
| "san_shape (Uri v) \<longleftrightarrow> v \<noteq> [] \<and> list_all is_ascii_graphic v"

lemma is_uri_graphic: "is_uri v = Ok True \<Longrightarrow> v \<noteq> [] \<and> list_all is_ascii_graphic v"
  by (auto simp: is_uri_def split: option.splits if_splits)

lemma is_uri_ascii: "ascii_text v \<Longrightarrow> \<exists>b. is_uri v = Ok b"
  by (auto simp: is_uri_def slice_to_ascii split: option.split)

lemma is_dns_name_shape: "is_dns_name v True \<Longrightarrow> san_shape (Dns v)"
proof -
  assume dns: "is_dns_name v True"
  define h where "h = (if starts_with ''*.'' v then drop 2 v else v)"
  have "(case strip_prefix ''*.'' v of Some rest \<Rightarrow> if True then rest else v | None \<Rightarrow> v) = h"
    by (simp add: strip_prefix_def h_def numeral_2_eq_2)
  with dns have labels: "list_all dns_label (split_char CHR ''.'' h)" and len: "length h \<le> 253"
    unfolding is_dns_name_def Let_def by metis+
  have "host_char c" if "c \<in> set h" for c
    using labels that set_split_char [of h "CHR ''.''"]
    by (fastforce simp: list_all_iff dns_label_def host_char_def)
  moreover have "h \<noteq> []" using labels by (auto simp: dns_label_def)
  ultimately show ?thesis using len by (simp add: list_all_iff h_def [symmetric])
qed

lemma parse_ip_range: "parse_ip s = Some ip \<Longrightarrow> san_shape (Ip ip)"
  using parse_ip_shape [of s ip]
  by (cases ip) (auto simp: parse_ip_def read_ipv4_addr_def list_all_iff split: option.splits if_splits
       dest: read_octets_range)

text \<open>The cases of the parser, one for each kind of name it returns.\<close>

lemma san_from_str_cases:
  assumes "san_from_str s = Ok n"
  obtains ip where "parse_ip (trim s) = Some ip" "n = Ip ip"
  | l d where "trim s = l @ ''@'' @ d" "n = Email (trim s)" "l \<noteq> []" "CHR ''@'' \<notin> set l"
      "list_all is_ascii_graphic l" "is_dns_name d False"
  | "is_uri (trim s) = Ok True" "n = Uri (trim s)"
  | "is_dns_name (trim s) True" "n = Dns (trim s)"
proof -
  have "trim s \<noteq> []" using assms by (auto simp: san_from_str_def invalid_san_def)
  show ?thesis
  proof (cases "parse_ip (trim s)")
    case (Some ip)
    with assms \<open>trim s \<noteq> []\<close> have "n = Ip ip" by (simp add: san_from_str_def)
    with Some that(1) show ?thesis by blast
  next
    case no_ip: None
    show ?thesis
    proof (cases "split_once ''@'' (trim s)")
      case (Some p)
      obtain l d where p: "p = (l, d)" by (cases p)
      have "trim s = l @ ''@'' @ d" "CHR ''@'' \<notin> set l"
        using split_once_some [of "''@''" "trim s" l d] split_once_before [of "CHR ''@''" "trim s" l d]
          Some p by simp_all
      with assms no_ip \<open>trim s \<noteq> []\<close> Some p that(2) show ?thesis
        by (auto simp: san_from_str_def invalid_san_def list_all_iff Let_def split: if_splits)
    next
      case None
      with assms no_ip \<open>trim s \<noteq> []\<close> that(3,4) show ?thesis
        by (auto simp: san_from_str_def invalid_san_def Let_def split: if_splits)
    qed
  qed
qed

section \<open>Properties\<close>

text \<open>
  every name the parser accepts has the shape of its kind: DNS names within 253 bytes of
  letters, digits, hyphens and dots after at most one leading wildcard label, four octets or eight
  groups, one at sign with a host name behind it, and only graphic ASCII in a URI.
\<close>

theorem san_from_str_sound:
  assumes "san_from_str s = Ok n"
  shows "san_shape n"
  using assms
proof (cases rule: san_from_str_cases)
  case (2 l d)
  have "d \<noteq> []" and d: "list_all host_char d" using is_dns_name_chars [OF 2(6)] by auto
  moreover from d have "CHR ''@'' \<notin> set d" by (auto simp: list_all_iff host_char_def byte_defs)
  ultimately show ?thesis using 2 by auto
qed (auto dest: parse_ip_range is_uri_graphic is_dns_name_shape simp del: san_shape.simps(1))

theorem san_from_str_sound_witness:
  "san_from_str ''user@example.com'' = Ok (Email ''user@example.com'')
   \<and> san_shape (Email ''user@example.com'')"
proof -
  have parsed: "san_from_str ''user@example.com'' = Ok (Email ''user@example.com'')"
  proof -
    have "trim ''user@example.com'' = ''user@example.com''" by (rule trim_graphic) code_simp
    moreover have "parse_ip ''user@example.com'' = None"
      by (rule parse_ip_first) (simp_all add: to_digit_def byte_defs)
    moreover have "split_once ''@'' ''user@example.com'' = Some (''user'', ''example.com'')" by code_simp
    moreover have "is_dns_name ''example.com'' False" by code_simp
    moreover have "list_all (\<lambda>b. is_ascii_graphic b \<and> b \<noteq> CHR ''@'') ''user''" by code_simp
    ultimately show ?thesis by (simp add: san_from_str_def)
  qed
  then show ?thesis using san_from_str_sound by blast
qed

lemma display_san_reads_back:
  assumes "san_from_str s = Ok n" and "\<forall>groups. n \<noteq> Ip (V6 groups)"
  shows "san_from_str (display_san n) = Ok n"
proof -
  have same_text: "san_from_str (display_san n) = Ok n" if "display_san n = trim s"
    using assms(1) that by (simp add: san_from_str_def)
  from assms(1) show ?thesis
  proof (cases rule: san_from_str_cases)
    case (1 ip)
    obtain octets where v4: "ip = V4 octets" using 1 assms(2) by (cases ip) auto
    then obtain a b c d where o: "octets = [a, b, c, d]"
      using parse_ip_shape [OF 1(1)] by (auto simp: eval_nat_numeral length_Suc_conv)
    have small: "a \<le> 255" "b \<le> 255" "c \<le> 255" "d \<le> 255"
      using parse_ip_range [OF 1(1)] v4 o by simp_all
    have "list_all is_ascii_graphic (display_ip ip)"
      using nat_to_string_graphic by (simp add: v4 o display_ip_def byte_defs)
    moreover have "display_ip ip \<noteq> []" by (simp add: v4 o display_ip_def)
    moreover have "parse_ip (display_ip ip) = Some ip"
      unfolding v4 o using small by (rule parse_ip_display_v4)
    ultimately show ?thesis
      using 1 by (simp add: san_from_str_def display_san_def trim_graphic)
  next
    case (2 l d)
    then show ?thesis using same_text by (simp add: display_san_def)
  next
    case 3
    then show ?thesis using same_text by (simp add: display_san_def)
  next
    case 4
    then show ?thesis using same_text by (simp add: display_san_def)
  qed
qed

text \<open>
  a name of any kind but an IPv6 address reads back as itself from the text it is displayed
  with, so the \<^verbatim>\<open>alt_dns_names\<close> column reproduces the names a certificate was issued for.
\<close>

theorem san_display_roundtrip:
  assumes "san_from_str s = Ok n" and "\<forall>groups. n \<noteq> Ip (V6 groups)"
  shows "san_from_str (display_san n) = Ok n"
  using assms by (rule display_san_reads_back)

theorem san_display_roundtrip_witness:
  "san_from_str (display_san (Ip (V4 [10, 0, 0, 1]))) = Ok (Ip (V4 [10, 0, 0, 1]))"
proof -
  have "parse_ip ''10.0.0.1'' = Some (V4 [10, 0, 0, 1])" by code_simp
  then have "san_from_str ''10.0.0.1'' = Ok (Ip (V4 [10, 0, 0, 1]))"
    by (simp add: san_from_str_def trim_graphic byte_defs)
  then have "san_from_str (display_san (Ip (V4 [10, 0, 0, 1]))) = Ok (Ip (V4 [10, 0, 0, 1]))"
    by (rule san_display_roundtrip) simp
  then show ?thesis .
qed

text \<open>on ASCII input the parser always returns, with a name or with an error; it never panics.\<close>

theorem san_from_str_no_panic:
  assumes "ascii_text s"
  shows "san_from_str s \<noteq> Panic m"
proof -
  have "ascii_text (trim s)"
    using assms set_trim [of s] by (auto simp: ascii_text_def list_all_iff)
  then obtain b where "is_uri (trim s) = Ok b" using is_uri_ascii by blast
  then show ?thesis
    by (auto simp: san_from_str_def invalid_san_def Let_def split: option.split)
qed

theorem san_from_str_no_panic_witness:
  "ascii_text ''host name'' \<and> san_from_str ''host name'' \<noteq> Panic ''x''"
  using san_from_str_no_panic [of "''host name''" "''x''"] by (simp add: ascii_text_def byte_def)

text \<open>
  when the parser panics: exactly on a name of more than four bytes, with white space trimmed off, whose
  fifth byte continues a multi-byte character, unless it is an IP address, has an at sign or has a
  \<^verbatim>\<open>://\<close> in it; the check for \<^verbatim>\<open>urn:\<close> slices such a name off a character boundary.
\<close>

theorem san_from_str_panics:
  "(\<exists>m. san_from_str s = Panic m) \<longleftrightarrow>
     4 < length (trim s) \<and> 128 \<le> byte (trim s ! 4) \<and> byte (trim s ! 4) < 192
     \<and> parse_ip (trim s) = None \<and> split_once ''@'' (trim s) = None \<and> split_once ''://'' (trim s) = None"
proof -
  have uri: "(\<exists>m. is_uri v = Panic m) \<longleftrightarrow> split_once ''://'' v = None \<and> 4 < length v \<and> 128 \<le> byte (v ! 4) \<and> byte (v ! 4) < 192" for v
    by (auto simp: is_uri_def slice_to_def is_char_boundary_def split: option.splits)
  have bind: "(\<exists>m. rbind r f = Panic m) \<longleftrightarrow> (\<exists>m. r = Panic m) \<or> (\<exists>x m. r = Ok x \<and> f x = Panic m)" for r :: "bool res" and f :: "bool \<Rightarrow> subject_alt_name res"
    by (cases r) simp_all
  show ?thesis
    by (cases "trim s = []"; cases "parse_ip (trim s)"; cases "split_once ''@'' (trim s)")
      (auto simp: san_from_str_def invalid_san_def Let_def bind uri split: if_splits)
qed

text \<open>Such a name: three letters, an e-acute, a suffix.\<close>

lemma san_from_str_panics_example: "\<exists>m. san_from_str (''xyz'' @ [CHR 0xC3, CHR 0xA9] @ ''.com'') = Panic m"
proof -
  have "trim (''xyz'' @ [CHR 0xC3, CHR 0xA9] @ ''.com'') = ''xyz'' @ [CHR 0xC3, CHR 0xA9] @ ''.com''"
    by (rule trim_ends) (simp_all add: byte_defs)
  moreover have "parse_ip (''xyz'' @ [CHR 0xC3, CHR 0xA9] @ ''.com'') = None"
    unfolding append_Cons by (rule parse_ip_first) (simp_all add: to_digit_def byte_defs)
  moreover have "split_once ''@'' (''xyz'' @ [CHR 0xC3, CHR 0xA9] @ ''.com'') = None" by code_simp
  moreover have "is_uri (''xyz'' @ [CHR 0xC3, CHR 0xA9] @ ''.com'')
      = Panic ''byte index 4 is not a char boundary''" by code_simp
  ultimately show ?thesis by (simp add: san_from_str_def)
qed

end
