(* ===== verification/Cert_Bundle.thy ===== *)
theory Cert_Bundle
  imports San Db_Models
begin

text \<open>
  Certificate bundles, from \<^verbatim>\<open>crates/opca-core/src/services/cert.rs\<close>: a private key, a request, a
  certificate and its chain, made by generation or import and updated by signing and rekeying. What
  OpenSSL and the crypto crates do (parsing and printing PEM, making keys, signing) is a parameter, a
  record of functions; a certificate is the data OpenSSL shows of it. Times on certificates have whole
  seconds, and OpenSSL may have no time for a day too far off (\<open>days_from_now\<close>).
\<close>

section \<open>What OpenSSL shows\<close>

record name_entry =
  ne_short :: "string option"
  ne_text :: "string option"

record x509 =
  xc_subject :: "name_entry list"
  xc_issuer :: "name_entry list"
  xc_serial :: "string option"
  xc_not_before :: int
  xc_not_after :: int
  xc_public_key :: "string + public_key"
  xc_public_der :: "string + string"
  xc_alt_names :: "general_name list option"
  xc_text :: "string + string"
  xc_pem :: "string + string"

record pkey =
  ky_public :: public_key
  ky_public_der :: "string + string"
  ky_pem :: "string + string"

record x509_req =
  rq_subject :: "name_entry list"
  rq_pem :: "string option"

text \<open>The subject of a request, and what goes into a CA certificate before it is signed.\<close>

record subject =
  sj_common_name :: string
  sj_country :: "string option"
  sj_state :: "string option"
  sj_locality :: "string option"
  sj_organisation :: "string option"
  sj_organisational_unit :: "string option"
  sj_email :: "string option"

datatype ca_extension = SubjectKeyId | AuthorityKeyId | BasicConstraintsCa | KeyUsageCertCrlSign

record to_sign =
  ts_subject :: "name_entry list"
  ts_issuer :: "name_entry list"
  ts_public_key :: pkey
  ts_serial :: string
  ts_not_before :: int
  ts_not_after :: int
  ts_extensions :: "ca_extension list"
  ts_digest :: message_digest

record crypto =
  x509_from_pem :: "string \<Rightarrow> string + x509"
  stack_from_pem :: "string \<Rightarrow> string + x509 list"
  key_from_pem :: "string \<Rightarrow> string option \<Rightarrow> string + pkey"
  req_from_pem :: "string \<Rightarrow> string + x509_req"
  generate_key :: "nat \<Rightarrow> key_algorithm \<Rightarrow> pkey res"
  csr_of :: "pkey \<Rightarrow> subject \<Rightarrow> subject_alt_name list \<Rightarrow> x509_req res"
  sign_x509 :: "to_sign \<Rightarrow> pkey \<Rightarrow> string + x509"
  asn1_to_string :: "int \<Rightarrow> string"
  days_from_now :: "int \<Rightarrow> nat \<Rightarrow> string + int"
  pkcs12 :: "string \<Rightarrow> string \<Rightarrow> pkey \<Rightarrow> x509 \<Rightarrow> x509 list option \<Rightarrow> string + string"

section \<open>The bundle\<close>

record cert_bundle_config =
  bc_cn :: "string option"
  bc_key_algorithm :: "key_algorithm option"
  bc_org :: "string option"
  bc_ou :: "string option"
  bc_email :: "string option"
  bc_city :: "string option"
  bc_state :: "string option"
  bc_country :: "string option"
  bc_alt_names :: "string list option"
  bc_next_serial :: "int option"
  bc_ca_days :: "int option"

definition empty_bundle_config :: cert_bundle_config where
  "empty_bundle_config = \<lparr> bc_cn = None, bc_key_algorithm = None, bc_org = None, bc_ou = None, bc_email = None,
     bc_city = None, bc_state = None, bc_country = None, bc_alt_names = None, bc_next_serial = None, bc_ca_days = None \<rparr>"

record certificate_bundle =
  bd_cert_type :: cert_type
  bd_title :: string
  bd_config :: cert_bundle_config
  bd_csr :: "x509_req option"
  bd_private_key :: "pkey option"
  bd_certificate :: "x509 option"
  bd_chain :: "x509 list option"

definition crypto_err :: "string \<Rightarrow> string + 'a \<Rightarrow> 'a res" where
  "crypto_err what r = (case r of Inl e \<Rightarrow> Err (Crypto (what @ '': '' @ e)) | Inr x \<Rightarrow> Ok x)"

definition invalid_err :: "string \<Rightarrow> string + 'a \<Rightarrow> 'a res" where
  "invalid_err what r = (case r of Inl e \<Rightarrow> Err (InvalidCertificate (what @ '': '' @ e)) | Inr x \<Rightarrow> Ok x)"

text \<open>The time so many days after the clock's \<open>now\<close>, if OpenSSL can express it.\<close>

definition asn1_now :: "crypto \<Rightarrow> int \<Rightarrow> nat \<Rightarrow> int res" where
  "asn1_now cr now days = (case days_from_now cr now days of Inl e \<Rightarrow> Err (Crypto e) | Inr t \<Rightarrow> Ok t)"

definition get_subject_entry :: "x509 \<Rightarrow> string \<Rightarrow> string option" where
  "get_subject_entry cert short =
     (case filter (\<lambda>e. ne_short e = Some short) (xc_subject cert) of e # _ \<Rightarrow> ne_text e | [] \<Rightarrow> None)"

definition extract_cn :: "x509 \<Rightarrow> string option" where
  "extract_cn cert = get_subject_entry cert ''CN''"

definition get_san :: "x509 \<Rightarrow> string option" where
  "get_san cert =
     (let names = map tagged (of_certificate (xc_alt_names cert))
      in if names \<noteq> [] then Some (join '', '' names) else None)"

function trim_end_str :: "string \<Rightarrow> string \<Rightarrow> string" where
  "trim_end_str p s =
     (if p \<noteq> [] \<and> ends_with p s then trim_end_str p (take (length s - length p) s) else s)"
  by pat_completeness auto
termination by (relation "measure (length \<circ> snd)") (auto simp: ends_with_def)

declare trim_end_str.simps [simp del]

definition asn1_time_to_openssl_str :: "chrono \<Rightarrow> crypto \<Rightarrow> int \<Rightarrow> string option" where
  "asn1_time_to_openssl_str lib cr asn1 =
     (let printed = asn1_to_string cr asn1
      in case parse_from_str lib ''%b %e %H:%M:%S %Y'' (trim_end_str '' GMT'' printed) of
           Inr dt \<Rightarrow> Some (strftime lib ''%Y%m%d%H%M%SZ'' dt)
         | Inl _ \<Rightarrow> Some printed)"

definition generate_private_key :: "crypto \<Rightarrow> nat \<Rightarrow> key_algorithm \<Rightarrow> pkey res" where
  "generate_private_key cr seed algorithm = generate_key cr seed algorithm"

definition load_private_key :: "crypto \<Rightarrow> string \<Rightarrow> string option \<Rightarrow> pkey res" where
  "load_private_key cr pem passphrase = crypto_err ''Failed to load private key'' (key_from_pem cr pem passphrase)"

definition build_csr :: "crypto \<Rightarrow> string \<Rightarrow> pkey \<Rightarrow> cert_bundle_config \<Rightarrow> x509_req res" where
  "build_csr cr cn key config =
     (let subject = \<lparr> sj_common_name = cn, sj_country = bc_country config, sj_state = bc_state config,
            sj_locality = bc_city config, sj_organisation = bc_org config,
            sj_organisational_unit = bc_ou config, sj_email = bc_email config \<rparr>
      in rbind (rmap_all san_from_str (case bc_alt_names config of Some ns \<Rightarrow> ns | None \<Rightarrow> [])) (\<lambda>names.
           csr_of cr key subject names))"

definition generate_bundle :: "crypto \<Rightarrow> nat \<Rightarrow> cert_type \<Rightarrow> string \<Rightarrow> cert_bundle_config \<Rightarrow> certificate_bundle res" where
  "generate_bundle cr seed ct title config =
     (let algorithm = (case bc_key_algorithm config of Some a \<Rightarrow> a | None \<Rightarrow> default_key_algorithm ct)
      in rbind (ok_or (InvalidCertificate ''CN is required for generation'') (bc_cn config)) (\<lambda>cn.
         rbind (generate_private_key cr seed algorithm) (\<lambda>private_key.
         rbind (build_csr cr cn private_key config) (\<lambda>csr.
           Ok \<lparr> bd_cert_type = ct, bd_title = title, bd_config = config, bd_csr = Some csr,
                bd_private_key = Some private_key, bd_certificate = None, bd_chain = None \<rparr>))))"

definition fill_from :: "x509 \<Rightarrow> cert_bundle_config \<Rightarrow> cert_bundle_config" where
  "fill_from cert config = config\<lparr>
     bc_org := opt_or (bc_org config) (get_subject_entry cert ''O''),
     bc_ou := opt_or (bc_ou config) (get_subject_entry cert ''OU''),
     bc_email := opt_or (bc_email config) (get_subject_entry cert ''emailAddress''),
     bc_city := opt_or (bc_city config) (get_subject_entry cert ''L''),
     bc_state := opt_or (bc_state config) (get_subject_entry cert ''ST''),
     bc_country := opt_or (bc_country config) (get_subject_entry cert ''C'') \<rparr>"

definition import_bundle ::
  "crypto \<Rightarrow> cert_type \<Rightarrow> string \<Rightarrow> string \<Rightarrow> string option \<Rightarrow> string option \<Rightarrow> string option \<Rightarrow> cert_bundle_config
     \<Rightarrow> certificate_bundle res" where
  "import_bundle cr ct title cert_pem key_pem csr_pem passphrase config =
     rbind (invalid_err ''Failed to parse certificate PEM'' (x509_from_pem cr cert_pem)) (\<lambda>certificate.
     rbind (case key_pem of Some pem \<Rightarrow> rmap Some (load_private_key cr pem passphrase) | None \<Rightarrow> Ok None) (\<lambda>private_key.
     rbind (case csr_pem of
              Some pem \<Rightarrow> rmap Some (invalid_err ''Failed to parse CSR PEM'' (req_from_pem cr pem))
            | None \<Rightarrow> Ok None) (\<lambda>csr.
       Ok \<lparr> bd_cert_type = ct,
            bd_title = (if title = [] then (case extract_cn certificate of Some cn \<Rightarrow> cn | None \<Rightarrow> []) else title),
            bd_config = fill_from certificate config, bd_csr = csr, bd_private_key = private_key,
            bd_certificate = Some certificate, bd_chain = None \<rparr>)))"

definition ca_extensions :: "ca_extension list" where
  "ca_extensions = [SubjectKeyId, AuthorityKeyId, BasicConstraintsCa, KeyUsageCertCrlSign]"

definition self_sign_ca :: "crypto \<Rightarrow> int \<Rightarrow> certificate_bundle \<Rightarrow> certificate_bundle res" where
  "self_sign_ca cr now self =
     (if bd_cert_type self \<noteq> Ca then Err (InvalidCertificate ''self_sign_ca() called on non-CA bundle'')
      else rbind (ok_or (Crypto ''Cannot self-sign CA without a private key'') (bd_private_key self)) (\<lambda>key.
           rbind (ok_or (InvalidCertificate ''Cannot self-sign CA without a CSR'') (bd_csr self)) (\<lambda>csr.
           rbind (ok_or (InvalidCertificate ''ca_days is required'') (bc_ca_days (bd_config self))) (\<lambda>days.
           rbind (asn1_now cr now 0) (\<lambda>not_before.
           rbind (asn1_now cr now (nat (as_u32 days))) (\<lambda>not_after.
           let serial_num = (case bc_next_serial (bd_config self) of Some n \<Rightarrow> n | None \<Rightarrow> 1)
           in rbind (crypto_err ''Sign'' (sign_x509 cr
                \<lparr> ts_subject = rq_subject csr, ts_issuer = rq_subject csr, ts_public_key = key,
                  ts_serial = int_to_string serial_num, ts_not_before = not_before,
                  ts_not_after = not_after, ts_extensions = ca_extensions,
                  ts_digest = signing_digest (ky_public key) \<rparr> key)) (\<lambda>cert.
              Ok (self\<lparr> bd_certificate := Some cert \<rparr>))))))))"

definition re_sign_ca :: "crypto \<Rightarrow> int \<Rightarrow> int \<Rightarrow> certificate_bundle \<Rightarrow> certificate_bundle res" where
  "re_sign_ca cr now days self =
     (if bd_cert_type self \<noteq> Ca then Err (InvalidCertificate ''re_sign_ca() called on non-CA bundle'')
      else rbind (ok_or (Crypto ''Cannot re-sign CA without a private key'') (bd_private_key self)) (\<lambda>key.
           rbind (ok_or (InvalidCertificate ''Cannot re-sign CA without an existing certificate'')
                    (bd_certificate self)) (\<lambda>existing_cert.
           rbind (ok_or (Crypto ''Serial: '') (xc_serial existing_cert)) (\<lambda>serial.
           rbind (asn1_now cr now 0) (\<lambda>not_before.
           rbind (asn1_now cr now (nat (as_u32 days))) (\<lambda>not_after.
           rbind (crypto_err ''Sign'' (sign_x509 cr
                \<lparr> ts_subject = xc_subject existing_cert, ts_issuer = xc_subject existing_cert, ts_public_key = key,
                  ts_serial = serial, ts_not_before = not_before,
                  ts_not_after = not_after, ts_extensions = ca_extensions,
                  ts_digest = signing_digest (ky_public key) \<rparr> key)) (\<lambda>cert.
             Ok (self\<lparr> bd_certificate := Some cert \<rparr>))))))))"

definition update_certificate :: "x509 \<Rightarrow> certificate_bundle \<Rightarrow> certificate_bundle res" where
  "update_certificate certificate self =
     rbind (ok_or (InvalidCertificate ''Cannot update certificate: private key is not set'') (bd_private_key self)) (\<lambda>key.
     rbind (crypto_err ''Get cert pubkey'' (xc_public_key certificate)) (\<lambda>_.
     rbind (crypto_err ''Key pubkey DER'' (ky_public_der key)) (\<lambda>key_pub.
     rbind (crypto_err ''Cert pubkey DER'' (xc_public_der certificate)) (\<lambda>cert_pub_der.
       if key_pub \<noteq> cert_pub_der then Err (InvalidCertificate ''Signed certificate does not match the private key'')
       else Ok (self\<lparr> bd_certificate := Some certificate \<rparr>)))))"

definition export_pkcs12 ::
  "crypto \<Rightarrow> string option \<Rightarrow> string option \<Rightarrow> x509 list option \<Rightarrow> certificate_bundle \<Rightarrow> string res" where
  "export_pkcs12 cr password name chain self =
     rbind (ok_or (InvalidCertificate ''Cannot build PKCS#12: private key is missing'') (bd_private_key self)) (\<lambda>key.
     rbind (ok_or (InvalidCertificate ''Cannot build PKCS#12: certificate is missing'') (bd_certificate self)) (\<lambda>cert.
       let friendly_name = (case name of Some n \<Rightarrow> n | None \<Rightarrow> bd_title self);
           pw = (case password of Some p \<Rightarrow> p | None \<Rightarrow> [])
       in crypto_err ''PKCS12 build'' (pkcs12 cr friendly_name pw key cert chain)))"

definition the_certificate :: "certificate_bundle \<Rightarrow> x509 res" where
  "the_certificate self = ok_or (InvalidCertificate ''No certificate is set on this bundle'') (bd_certificate self)"

definition certificate_pem :: "certificate_bundle \<Rightarrow> string res" where
  "certificate_pem self = rbind (the_certificate self) (\<lambda>cert. crypto_err ''Cert to PEM'' (xc_pem cert))"

definition private_key_pem :: "certificate_bundle \<Rightarrow> string res" where
  "private_key_pem self =
     rbind (ok_or (InvalidCertificate ''No private key is set on this bundle'') (bd_private_key self))
       (\<lambda>key. crypto_err ''Key to PEM'' (ky_pem key))"

definition chain_pem :: "certificate_bundle \<Rightarrow> string option" where
  "chain_pem self =
     (case bd_chain self of
        None \<Rightarrow> None
      | Some chain \<Rightarrow>
          let pem = concat (map (\<lambda>c. case xc_pem c of Inr p \<Rightarrow> p | Inl _ \<Rightarrow> []) chain)
          in if chain = [] \<or> pem = [] then None else Some pem)"

definition set_chain_from_pem :: "crypto \<Rightarrow> string \<Rightarrow> certificate_bundle \<Rightarrow> certificate_bundle res" where
  "set_chain_from_pem cr pem self =
     rbind (invalid_err ''Failed to parse certificate chain PEM'' (stack_from_pem cr pem)) (\<lambda>certs.
       Ok (self\<lparr> bd_chain := (if certs = [] then None else Some certs) \<rparr>))"

definition csr_pem :: "certificate_bundle \<Rightarrow> string option" where
  "csr_pem self = Option.bind (bd_csr self) rq_pem"

definition public_key_type :: "x509 \<Rightarrow> string" where
  "public_key_type cert =
     (case xc_public_key cert of
        Inl _ \<Rightarrow> ''Unknown''
      | Inr pk \<Rightarrow> (case pk_id pk of RsaKey \<Rightarrow> ''RSA'' | EcKey \<Rightarrow> ''EC'' | DsaKey \<Rightarrow> ''DSA'' | OtherKey \<Rightarrow> ''Unknown''))"

text \<open>A distinguished name, last entry first.\<close>

definition name_text :: "name_entry list \<Rightarrow> string" where
  "name_text entries =
     join '','' (rev (List.map_filter (\<lambda>e. map_option (\<lambda>v. (case ne_short e of Some sn \<Rightarrow> sn | None \<Rightarrow> ''??'') @ ''='' @ v)
       (ne_text e)) entries))"

definition attrib_of :: "chrono \<Rightarrow> crypto \<Rightarrow> x509 \<Rightarrow> string \<Rightarrow> string option" where
  "attrib_of lib cr cert attrib =
     (if attrib = ''cn'' then get_subject_entry cert ''CN''
      else if attrib = ''org'' then get_subject_entry cert ''O''
      else if attrib = ''ou'' then get_subject_entry cert ''OU''
      else if attrib = ''email'' then get_subject_entry cert ''emailAddress''
      else if attrib = ''city'' then get_subject_entry cert ''L''
      else if attrib = ''state'' then get_subject_entry cert ''ST''
      else if attrib = ''country'' then get_subject_entry cert ''C''
      else if attrib = ''subject'' then Some (name_text (xc_subject cert))
      else if attrib = ''issuer'' then Some (name_text (xc_issuer cert))
      else if attrib = ''serial'' then xc_serial cert
      else if attrib = ''not_before'' then asn1_time_to_openssl_str lib cr (xc_not_before cert)
      else if attrib = ''not_after'' then asn1_time_to_openssl_str lib cr (xc_not_after cert)
      else if attrib = ''key_type'' then Some (public_key_type cert)
      else if attrib = ''key_size'' then Some (nat_to_string (case xc_public_key cert of Inr pk \<Rightarrow> pk_bits pk | Inl _ \<Rightarrow> 0))
      else if attrib = ''san'' then get_san cert
      else None)"

definition get_certificate_attrib :: "chrono \<Rightarrow> crypto \<Rightarrow> certificate_bundle \<Rightarrow> string \<Rightarrow> string option res" where
  "get_certificate_attrib lib cr self attrib = rmap (\<lambda>cert. attrib_of lib cr cert attrib) (the_certificate self)"

definition public_key_size :: "certificate_bundle \<Rightarrow> nat res" where
  "public_key_size self = rbind (the_certificate self) (\<lambda>cert. rmap pk_bits (crypto_err ''Get public key'' (xc_public_key cert)))"

definition public_key_type_str :: "certificate_bundle \<Rightarrow> string res" where
  "public_key_type_str self = rmap public_key_type (the_certificate self)"

definition backfill :: "certificate_bundle \<Rightarrow> cert_bundle_config" where
  "backfill self =
     (let config = bd_config self;
          config = (if bc_cn config = None then config\<lparr> bc_cn := Option.bind (bd_certificate self) extract_cn \<rparr> else config)
      in case (bc_alt_names config, bd_certificate self) of
           (None, Some cert) \<Rightarrow>
             (let names = map display_san (of_certificate (xc_alt_names cert))
              in if names \<noteq> [] then config\<lparr> bc_alt_names := Some names \<rparr> else config)
         | _ \<Rightarrow> config)"

text \<open>Rekeying: the backfilled configuration stays even when the new key or request fails.\<close>

definition regenerate_key_and_csr ::
  "crypto \<Rightarrow> nat \<Rightarrow> key_algorithm option \<Rightarrow> certificate_bundle \<Rightarrow> unit res \<times> certificate_bundle" where
  "regenerate_key_and_csr cr seed algorithm self =
     (let self = self\<lparr> bd_config := backfill self \<rparr>;
          current = Option.bind (bd_certificate self)
            (\<lambda>c. case xc_public_key c of Inr pk \<Rightarrow> matching pk | Inl _ \<Rightarrow> None);
          algorithm = (case opt_or algorithm current of Some a \<Rightarrow> a | None \<Rightarrow> default_key_algorithm (bd_cert_type self))
      in case rbind (ok_or (InvalidCertificate ''CN is required for rekeying'') (bc_cn (bd_config self))) (\<lambda>cn.
              rbind (generate_private_key cr seed algorithm) (\<lambda>new_key.
              rbind (build_csr cr cn new_key (bd_config self)) (\<lambda>new_csr. Ok (new_key, new_csr)))) of
           Ok (new_key, new_csr) \<Rightarrow> (Ok (), self\<lparr> bd_private_key := Some new_key, bd_csr := Some new_csr \<rparr>)
         | Err e \<Rightarrow> (Err e, self) | Panic p \<Rightarrow> (Panic p, self))"

definition text_contains :: "string \<Rightarrow> string \<Rightarrow> bool" where
  "text_contains p s \<longleftrightarrow> split_once p s \<noteq> None"

definition is_ca_certificate :: "certificate_bundle \<Rightarrow> bool res" where
  "is_ca_certificate self =
     rbind (the_certificate self) (\<lambda>cert. rmap (text_contains ''CA:TRUE'') (crypto_err ''Cert to text'' (xc_text cert)))"

definition bundle_is_valid :: "crypto \<Rightarrow> int \<Rightarrow> certificate_bundle \<Rightarrow> bool res" where
  "bundle_is_valid cr now self =
     rbind (the_certificate self) (\<lambda>cert.
     rbind (crypto_err ''Asn1Time'' (days_from_now cr now 0)) (\<lambda>now.
       if xc_not_before cert > now \<or> xc_not_after cert < now then Ok False
       else case bd_private_key self of
              None \<Rightarrow> Ok True
            | Some key \<Rightarrow>
                rbind (crypto_err ''Get cert pubkey'' (xc_public_key cert)) (\<lambda>_.
                rbind (crypto_err ''Key pubkey DER'' (ky_public_der key)) (\<lambda>key_pub_der.
                rbind (crypto_err ''Cert pubkey DER'' (xc_public_der cert)) (\<lambda>cert_pub_der.
                  if key_pub_der \<noteq> cert_pub_der then Ok False
                  else rmap (\<lambda>is_ca. (bd_cert_type self = Ca) = is_ca) (is_ca_certificate self))))))"

section \<open>Properties\<close>

lemma crypto_err_Ok [simp]: "crypto_err what r = Ok x \<longleftrightarrow> r = Inr x"
  by (auto simp: crypto_err_def split: sum.splits)

lemma invalid_err_Ok [simp]: "invalid_err what r = Ok x \<longleftrightarrow> r = Inr x"
  by (auto simp: invalid_err_def split: sum.splits)

lemma import_bundle_fields:
  assumes "import_bundle cr ct title pem key csr pass config = Ok b"
  shows "\<exists>c. bd_certificate b = Some c \<and> x509_from_pem cr pem = Inr c \<and> bd_config b = fill_from c config
    \<and> bd_cert_type b = ct"
  using assms by (auto simp: import_bundle_def rbind_eq_Ok)

lemma rmap_all_display:
  "\<forall>n \<in> set ns. \<exists>s. san_from_str s = Ok n \<and> (\<forall>g. n \<noteq> Ip (V6 g)) \<Longrightarrow> rmap_all san_from_str (map display_san ns) = Ok ns"
  by (induction ns) (auto simp: display_san_reads_back)

text \<open>The kind of key an algorithm makes: the closest algorithm to a key makes one of its kind.\<close>

definition algorithm_family :: "key_algorithm \<Rightarrow> key_id" where
  "algorithm_family a = (if a \<in> {Rsa2048, Rsa4096} then RsaKey else EcKey)"

lemma matching_family: "pk_id pk \<in> {RsaKey, EcKey} \<Longrightarrow> \<exists>a. matching pk = Some a \<and> algorithm_family a = pk_id pk"
  by (cases "pk_id pk") (simp_all add: matching_def algorithm_family_def)

lemma matching_other: "pk_id pk \<notin> {RsaKey, EcKey} \<Longrightarrow> matching pk = None"
  by (cases "pk_id pk") (simp_all add: matching_def)

text \<open>The subject a certificate has, as a request would state it.\<close>

definition subject_of :: "x509 \<Rightarrow> string \<Rightarrow> subject" where
  "subject_of c cn = \<lparr> sj_common_name = cn, sj_country = get_subject_entry c ''C'', sj_state = get_subject_entry c ''ST'',
     sj_locality = get_subject_entry c ''L'', sj_organisation = get_subject_entry c ''O'',
     sj_organisational_unit = get_subject_entry c ''OU'', sj_email = get_subject_entry c ''emailAddress'' \<rparr>"

text \<open>
  C39: rekeying a bundle read back from the vault keeps its identity. The new request has a new key, of the
  algorithm asked for or else the certificate key's own, and the common name, the other subject
  attributes and exactly the alternative names of the certificate, when those are names the parser
  accepts (IPv6 addresses apart); the certificate itself stays.
\<close>

theorem rekey_keeps_identity:
  assumes "import_bundle cr ct title pem key csr pass empty_bundle_config = Ok b"
    and "regenerate_key_and_csr cr seed alg b = (Ok (), b')" "x509_from_pem cr pem = Inr c"
    and "\<forall>n \<in> set (of_certificate (xc_alt_names c)). \<exists>s. san_from_str s = Ok n \<and> (\<forall>g. n \<noteq> Ip (V6 g))"
  shows "\<exists>cn a k req. get_subject_entry c ''CN'' = Some cn \<and> generate_key cr seed a = Ok k
     \<and> (\<forall>x. alg = Some x \<longrightarrow> a = x)
     \<and> (\<forall>pk. alg = None \<and> xc_public_key c = Inr pk \<longrightarrow>
          (if pk_id pk \<in> {RsaKey, EcKey} then matching pk = Some a \<and> algorithm_family a = pk_id pk
           else a = default_key_algorithm ct))
     \<and> csr_of cr k (subject_of c cn) (of_certificate (xc_alt_names c)) = Ok req
     \<and> b' = b\<lparr> bd_config := bd_config b', bd_private_key := Some k, bd_csr := Some req \<rparr>"
proof -
  have b: "bd_certificate b = Some c" "bd_config b = fill_from c empty_bundle_config" "bd_cert_type b = ct"
    using import_bundle_fields[OF assms(1)] assms(3) by auto
  let ?ns = "of_certificate (xc_alt_names c)"
  let ?a = "case opt_or alg (case xc_public_key c of Inr pk \<Rightarrow> matching pk | Inl _ \<Rightarrow> None) of
    Some a \<Rightarrow> a | None \<Rightarrow> default_key_algorithm ct"
  have cfg: "backfill b = (fill_from c empty_bundle_config)\<lparr> bc_cn := extract_cn c,
      bc_alt_names := (if ?ns \<noteq> [] then Some (map display_san ?ns) else None) \<rparr>"
    by (auto simp: backfill_def b fill_from_def empty_bundle_config_def Let_def)
  have names: "rmap_all san_from_str (case bc_alt_names (backfill b) of Some ns \<Rightarrow> ns | None \<Rightarrow> []) = Ok ?ns"
    using rmap_all_display[OF assms(4)] by (simp add: cfg)
  obtain cn k req where made: "extract_cn c = Some cn" "generate_key cr seed ?a = Ok k"
      "build_csr cr cn k (backfill b) = Ok req"
      "b' = b\<lparr> bd_config := backfill b, bd_private_key := Some k, bd_csr := Some req \<rparr>"
    using assms(2)
    by (auto simp: regenerate_key_and_csr_def Let_def b cfg generate_private_key_def rbind_eq_Ok cong: option.case_cong split: res.splits prod.splits)
  have asked: "?a = x" if "alg = Some x" for x using that by (simp add: opt_or_def)
  have kept: "if pk_id pk \<in> {RsaKey, EcKey} then matching pk = Some ?a \<and> algorithm_family ?a = pk_id pk
      else ?a = default_key_algorithm ct" if "alg = None" "xc_public_key c = Inr pk" for pk
    using that matching_family[of pk] matching_other[of pk] by (auto simp: opt_or_def)
  have csr: "csr_of cr k (subject_of c cn) ?ns = Ok req"
    using names made(3) by (auto simp: build_csr_def Let_def subject_of_def cfg fill_from_def empty_bundle_config_def opt_or_def)
  have "get_subject_entry c ''CN'' = Some cn" using made(1) by (simp add: extract_cn_def)
  then show ?thesis
    using made(2,4) asked kept csr by (intro exI[of _ cn] exI[of _ ?a] exI[of _ k] exI[of _ req] conjI allI impI) (simp_all add: cfg)
qed

text \<open>What the code relies on when it signs: the certificate carries what was put into it.\<close>

definition signs_as_asked :: "crypto \<Rightarrow> bool" where
  "signs_as_asked cr \<longleftrightarrow>
     (\<forall>t k c. sign_x509 cr t k = Inr c \<longrightarrow>
        xc_subject c = ts_subject t \<and> xc_issuer c = ts_issuer t \<and> xc_serial c = Some (ts_serial t)
        \<and> xc_not_before c = ts_not_before t \<and> xc_not_after c = ts_not_after t
        \<and> xc_public_der c = ky_public_der (ts_public_key t)
        \<and> (BasicConstraintsCa \<in> set (ts_extensions t) \<longrightarrow> (\<exists>text. xc_text c = Inr text \<and> text_contains ''CA:TRUE'' text)))"

text \<open>What it relies on of the clock: times of whole seconds, so many days on, when there is one at all.\<close>

definition counts_days :: "crypto \<Rightarrow> bool" where
  "counts_days cr \<longleftrightarrow>
     (\<forall>now days t. days_from_now cr now days = Inr t \<longrightarrow> t = now div second_ns * second_ns + int days * day_ns)"

lemma asn1_now_Ok: "counts_days cr \<Longrightarrow> asn1_now cr now days = Ok t \<Longrightarrow>
    days_from_now cr now days = Inr t \<and> t = now div second_ns * second_ns + int days * day_ns"
  by (auto simp: asn1_now_def counts_days_def split: sum.splits)

text \<open>
  C38: re-signing the CA asks for a self-signed certificate with the subject, the serial number and the key
  of the existing one and the four CA extensions, valid for the given number of days (taken modulo
  \<open>2 ^ 32\<close>) from the current second. The certificate that comes back replaces the old one and nothing
  else in the bundle, carries that subject (as its issuer too), serial, key and validity, and the bundle
  is then valid.
\<close>

theorem re_sign_keeps_identity:
  assumes "signs_as_asked cr" "counts_days cr" "re_sign_ca cr now days b = Ok b'" "bd_certificate b = Some c"
    and "bd_private_key b = Some key" "ky_public_der key = Inr der"
  shows "\<exists>c' s start. bd_certificate b' = Some c' \<and> b' = b\<lparr> bd_certificate := Some c' \<rparr> \<and> bd_cert_type b = Ca
     \<and> xc_serial c = Some s \<and> start = now div second_ns * second_ns
     \<and> sign_x509 cr \<lparr> ts_subject = xc_subject c, ts_issuer = xc_subject c, ts_public_key = key, ts_serial = s,
         ts_not_before = start, ts_not_after = start + as_u32 days * day_ns,
         ts_extensions = [SubjectKeyId, AuthorityKeyId, BasicConstraintsCa, KeyUsageCertCrlSign],
         ts_digest = signing_digest (ky_public key) \<rparr> key = Inr c'
     \<and> xc_subject c' = xc_subject c \<and> xc_issuer c' = xc_subject c \<and> xc_serial c' = xc_serial c \<and> xc_public_der c' = Inr der
     \<and> xc_not_before c' = start \<and> xc_not_after c' = start + as_u32 days * day_ns
     \<and> (\<forall>pk. xc_public_key c' = Inr pk \<longrightarrow> bundle_is_valid cr now b' = Ok True)"
proof -
  have u32: "0 \<le> as_u32 days" using as_u32_range by blast
  let ?start = "now div second_ns * second_ns"
  obtain s c' not_before not_after where s: "xc_serial c = Some s"
    and times: "asn1_now cr now 0 = Ok not_before" "asn1_now cr now (nat (as_u32 days)) = Ok not_after"
    and asked: "sign_x509 cr \<lparr> ts_subject = xc_subject c, ts_issuer = xc_subject c, ts_public_key = key, ts_serial = s,
       ts_not_before = not_before, ts_not_after = not_after, ts_extensions = ca_extensions,
       ts_digest = signing_digest (ky_public key) \<rparr> key = Inr c'"
    and b': "b' = b\<lparr> bd_certificate := Some c' \<rparr>" and ca: "bd_cert_type b = Ca"
    using assms(3-5) by (auto simp: re_sign_ca_def rbind_eq_Ok split: if_splits)
  have "days_from_now cr now 0 = Inr ?start" "not_before = ?start" "not_after = ?start + as_u32 days * day_ns"
    using asn1_now_Ok[OF assms(2) times(1)] asn1_now_Ok[OF assms(2) times(2)] u32 by simp_all
  note time = this
  note signed = asked[unfolded time ca_extensions_def]
  have law: "xc_subject c' = xc_subject c \<and> xc_issuer c' = xc_subject c \<and> xc_serial c' = Some s \<and> xc_not_before c' = ?start
      \<and> xc_not_after c' = ?start + as_u32 days * day_ns \<and> xc_public_der c' = ky_public_der key
      \<and> (\<exists>text. xc_text c' = Inr text \<and> text_contains ''CA:TRUE'' text)"
    using assms(1) signed unfolding signs_as_asked_def by fastforce
  have "0 \<le> as_u32 days * day_ns" using u32 by (simp add: day_ns_def)
  then have "bundle_is_valid cr now b' = Ok True" if "xc_public_key c' = Inr pk" for pk
    using law that assms(5,6) ca time(1)
    by (auto simp: bundle_is_valid_def the_certificate_def b' crypto_err_def is_ca_certificate_def)
  then show ?thesis using law b' s assms(6) ca signed by (intro exI[of _ c'] exI[of _ s] exI[of _ ?start]) auto
qed

text \<open>
  a bundle takes a signed certificate exactly when it has a private key and the certificate is made
  for its public half; the dates play no part, and nothing else in the bundle changes. The bundle's own
  validity check then looks at the dates and at whether the CA flag agrees with the bundle's type, and at
  nothing else.
\<close>

theorem update_certificate_matches:
  assumes "days_from_now cr now 0 = Inr t" "xc_text c = Inr text"
  shows "update_certificate c b = Ok b' \<longleftrightarrow>
      (\<exists>key pk der. bd_private_key b = Some key \<and> xc_public_key c = Inr pk \<and> ky_public_der key = Inr der \<and> xc_public_der c = Inr der)
      \<and> b' = b\<lparr> bd_certificate := Some c \<rparr>
      \<and> bundle_is_valid cr now b'
          = Ok (xc_not_before c \<le> t \<and> t \<le> xc_not_after c \<and> (bd_cert_type b = Ca) = text_contains ''CA:TRUE'' text)"
proof -
  have "update_certificate c b = Ok b' \<longleftrightarrow>
      (\<exists>key pk der. bd_private_key b = Some key \<and> xc_public_key c = Inr pk \<and> ky_public_der key = Inr der \<and> xc_public_der c = Inr der)
      \<and> b' = b\<lparr> bd_certificate := Some c \<rparr>"
    by (auto simp: update_certificate_def rbind_eq_Ok split: if_splits)
  moreover have "bundle_is_valid cr now (b\<lparr> bd_certificate := Some c \<rparr>)
      = Ok (xc_not_before c \<le> t \<and> t \<le> xc_not_after c \<and> (bd_cert_type b = Ca) = text_contains ''CA:TRUE'' text)"
    if "bd_private_key b = Some key" "xc_public_key c = Inr pk" "ky_public_der key = Inr der" "xc_public_der c = Inr der" for key pk der
    using assms that by (auto simp: bundle_is_valid_def the_certificate_def is_ca_certificate_def crypto_err_def)
  ultimately show ?thesis by blast
qed

text \<open>A small signing library and a CA bundle made with it.\<close>

definition example_key :: pkey where
  "example_key = \<lparr> ky_public = \<lparr> pk_id = EcKey, pk_bits = 256 \<rparr>, ky_public_der = Inr ''spki'', ky_pem = Inr ''key'' \<rparr>"

definition example_x509 :: "to_sign \<Rightarrow> x509" where
  "example_x509 t = \<lparr> xc_subject = ts_subject t, xc_issuer = ts_issuer t, xc_serial = Some (ts_serial t),
     xc_not_before = ts_not_before t, xc_not_after = ts_not_after t, xc_public_key = Inr (ky_public (ts_public_key t)),
     xc_public_der = ky_public_der (ts_public_key t), xc_alt_names = None,
     xc_text = Inr (if BasicConstraintsCa \<in> set (ts_extensions t) then ''CA:TRUE'' else ''CA:FALSE''),
     xc_pem = Inr ''pem'' \<rparr>"

definition example_cert :: x509 where
  "example_cert = example_x509 \<lparr> ts_subject = [\<lparr> ne_short = Some ''CN'', ne_text = Some ''ca'' \<rparr>], ts_issuer = [],
     ts_public_key = example_key, ts_serial = ''1'', ts_not_before = 0, ts_not_after = 365 * day_ns,
     ts_extensions = [], ts_digest = Sha256 \<rparr>"

definition example_crypto :: crypto where
  "example_crypto = \<lparr> x509_from_pem = (\<lambda>_. Inr example_cert), stack_from_pem = (\<lambda>_. Inr []),
     key_from_pem = (\<lambda>_ _. Inr example_key), req_from_pem = (\<lambda>_. Inl ''none''),
     generate_key = (\<lambda>_ _. Ok example_key),
     csr_of = (\<lambda>k s ns. Ok \<lparr> rq_subject = [\<lparr> ne_short = Some ''CN'', ne_text = Some (sj_common_name s) \<rparr>], rq_pem = Some ''csr'' \<rparr>),
     sign_x509 = (\<lambda>t k. Inr (example_x509 t)), asn1_to_string = (\<lambda>t. int_to_string (t div second_ns)),
     days_from_now = (\<lambda>now days. Inr (now div second_ns * second_ns + int days * day_ns)),
     pkcs12 = (\<lambda>_ _ _ _ _. Inr []) \<rparr>"

definition example_bundle :: certificate_bundle where
  "example_bundle = \<lparr> bd_cert_type = Ca, bd_title = ''CA'', bd_config = empty_bundle_config, bd_csr = None,
     bd_private_key = Some example_key, bd_certificate = Some example_cert, bd_chain = None \<rparr>"

lemmas example_bundle_defs = example_crypto_def example_bundle_def example_cert_def example_x509_def example_key_def

theorem re_sign_keeps_identity_witness:
  "\<exists>c'. re_sign_ca example_crypto 0 30 example_bundle = Ok (example_bundle\<lparr> bd_certificate := Some c' \<rparr>)
      \<and> xc_not_after c' = 30 * day_ns \<and> xc_issuer c' = xc_subject example_cert"
proof -
  have law: "signs_as_asked example_crypto" "counts_days example_crypto"
    by (simp_all add: signs_as_asked_def counts_days_def example_crypto_def example_x509_def text_contains_def starts_with_def)
  obtain b' where b': "re_sign_ca example_crypto 0 30 example_bundle = Ok b'"
    by (simp add: re_sign_ca_def example_bundle_defs crypto_err_def asn1_now_def)
  show ?thesis
    using re_sign_keeps_identity[OF law b', of example_cert example_key "''spki''"] b'
    by (auto simp: example_bundle_def example_key_def as_u32_def)
qed

text \<open>A certificate that has expired is taken all the same, and the bundle is then not valid.\<close>

theorem update_certificate_matches_witness:
  "\<exists>b'. update_certificate example_cert example_bundle = Ok b' \<and> bundle_is_valid example_crypto (400 * day_ns) b' = Ok False"
  using update_certificate_matches[of example_crypto "400 * day_ns" "400 * day_ns" example_cert "''CA:FALSE''" example_bundle
      "example_bundle\<lparr> bd_certificate := Some example_cert \<rparr>"]
  by (simp add: example_bundle_defs second_ns_def day_ns_def bundle_is_valid_def the_certificate_def crypto_err_def)

theorem rekey_keeps_identity_witness:
  "\<exists>b b' k req. import_bundle example_crypto Device ''t'' ''pem'' None None None empty_bundle_config = Ok b
      \<and> regenerate_key_and_csr example_crypto 0 None b = (Ok (), b')
      \<and> csr_of example_crypto k (subject_of example_cert ''ca'') [] = Ok req"
proof -
  obtain b where b: "import_bundle example_crypto Device ''t'' ''pem'' None None None empty_bundle_config = Ok b"
    by (simp add: import_bundle_def example_crypto_def invalid_err_def)
  have c: "x509_from_pem example_crypto ''pem'' = Inr example_cert" by (simp add: example_crypto_def)
  have names: "of_certificate (xc_alt_names example_cert) = []"
    by (simp add: example_cert_def example_x509_def of_certificate_def)
  have bc: "bd_certificate b = Some example_cert" using import_bundle_fields[OF b] c by auto
  have cfg: "bd_config b = fill_from example_cert empty_bundle_config" using import_bundle_fields[OF b] c by auto
  have cn: "get_subject_entry example_cert ''CN'' = Some ''ca''"
    by (simp add: get_subject_entry_def example_cert_def example_x509_def)
  have bf: "bc_cn (backfill b) = Some ''ca''" "bc_alt_names (backfill b) = None"
    using cn by (simp_all add: backfill_def bc cfg fill_from_def empty_bundle_config_def names extract_cn_def Let_def)
  obtain b' where b': "regenerate_key_and_csr example_crypto 0 None b = (Ok (), b')"
    by (simp add: regenerate_key_and_csr_def Let_def bf generate_private_key_def build_csr_def)
       (simp add: example_crypto_def)
  from rekey_keeps_identity[OF b b' c] obtain k req
    where "csr_of example_crypto k (subject_of example_cert ''ca'') [] = Ok req"
    by (auto simp: names cn)
  then show ?thesis using b b' by blast
qed

end
