(* ===== verification/Db_Status.thy ===== *)
theory Db_Status
  imports Db_Misc
begin

text \<open>
  Status processing (\<^verbatim>\<open>database/mod.rs\<close>): the scan that expires and revokes certificates and sorts
  them into the status sets, the entries of a CRL, and the derived status of an OpenVPN profile.
  The scan reads the clock once for its comparisons (\<open>now\<close>) and, when it revokes, once more for the
  revocation date (\<open>stamp\<close>). The iteration order of a hash set is a parameter (\<open>order\<close>).
\<close>

definition expiry_warning_days :: int where "expiry_warning_days = 30"
definition expiry_caution_days :: int where "expiry_caution_days = 183"

definition is_expiring_soon :: "chrono \<Rightarrow> int \<Rightarrow> string \<Rightarrow> bool" where
  "is_expiring_soon lib now expiry_date =
     (case res_ok (parse_datetime lib expiry_date Openssl) of
        None \<Rightarrow> False
      | Some expiry \<Rightarrow> now \<le> expiry \<and> expiry < now + expiry_warning_days * day_ns)"

datatype vpn_profile_status = Current | ExpiringSoon | NeedsRegen | RevokedProfile | ExpiredProfile

definition vpn_profile_status_as_str :: "vpn_profile_status \<Rightarrow> string" where
  "vpn_profile_status_as_str s = (case s of Current \<Rightarrow> ''current'' | ExpiringSoon \<Rightarrow> ''expiring_soon''
      | NeedsRegen \<Rightarrow> ''needs_regen'' | RevokedProfile \<Rightarrow> ''revoked'' | ExpiredProfile \<Rightarrow> ''expired'')"

section \<open>The scan\<close>

text \<open>The readable expiry of a row; a row without one is left out of every set.\<close>

definition readable_expiry :: "chrono \<Rightarrow> string option \<Rightarrow> int option" where
  "readable_expiry lib d =
     (case d of None \<Rightarrow> None
      | Some s \<Rightarrow> if s = [] then None else res_ok (parse_datetime lib s Openssl))"

definition marked_revoked :: "cert_record \<Rightarrow> bool" where
  "marked_revoked r \<longleftrightarrow>
     (case cr_revocation_date r of Some rd \<Rightarrow> rd \<noteq> [] | None \<Rightarrow> False) \<or> cr_status r = Some ''Revoked''"

text \<open>First pass: the current valid certificate of each common name.\<close>

definition serial_num :: "string \<Rightarrow> int" where
  "serial_num s = (case parse_i64 s of Some n \<Rightarrow> n | None \<Rightarrow> 0)"

definition candidate :: "chrono \<Rightarrow> int \<Rightarrow> string option \<Rightarrow> cert_record \<Rightarrow> bool" where
  "candidate lib now revoke_serial r \<longleftrightarrow>
     cr_ignored_at r = None
     \<and> revoke_serial \<noteq> Some (cr_serial r)
     \<and> (case readable_expiry lib (cr_expiry_date r) of None \<Rightarrow> False | Some e \<Rightarrow> \<not> now > e)
     \<and> \<not> marked_revoked r
     \<and> (case cr_cn r of None \<Rightarrow> False | Some cn \<Rightarrow> cn \<noteq> [])"

definition note_valid ::
  "chrono \<Rightarrow> int \<Rightarrow> string option \<Rightarrow> (string \<rightharpoonup> string) \<Rightarrow> cert_record \<Rightarrow> (string \<rightharpoonup> string)" where
  "note_valid lib now revoke_serial m r =
     (if \<not> candidate lib now revoke_serial r then m
      else (let cn = the (cr_cn r);
                existing = (case Option.bind (m cn) parse_i64 of Some n \<Rightarrow> n | None \<Rightarrow> i64_min)
            in if serial_num (cr_serial r) > existing then m(cn \<mapsto> cr_serial r) else m))"

definition valid_serials ::
  "chrono \<Rightarrow> int \<Rightarrow> string option \<Rightarrow> cert_record list \<Rightarrow> (string \<rightharpoonup> string)" where
  "valid_serials lib now revoke_serial certs = foldl (note_valid lib now revoke_serial) Map.empty certs"

text \<open>Second pass, one certificate: the state with its sets, and whether a row was written.\<close>

definition classify_cert ::
  "chrono \<Rightarrow> int \<Rightarrow> string \<Rightarrow> string option \<Rightarrow> (string \<rightharpoonup> string) \<Rightarrow> cert_record \<Rightarrow> ca_db \<times> bool
   \<Rightarrow> (ca_db \<times> bool) res" where
  "classify_cert lib now stamp revoke_serial valid_cn cert st =
     (case readable_expiry lib (cr_expiry_date cert) of
        None \<Rightarrow> Ok st
      | Some expiry_date \<Rightarrow>
          (let (db, db_changed) = st;
               serial = cr_serial cert;
               expired = now > expiry_date;
               expires_soon = now + expiry_warning_days * day_ns > expiry_date;
               expires_warning = now + expiry_caution_days * day_ns > expiry_date;
               revoke_now = (\<not> expired \<and> \<not> marked_revoked cert \<and> revoke_serial = Some serial);
               revoked = (marked_revoked cert \<or> revoke_now);
               cert = (if revoke_now then cert\<lparr> cr_revocation_date := Some stamp \<rparr> else cert);
               db = (if cr_ignored_at cert \<noteq> None
                     then db\<lparr> certs_ignored := insert serial (certs_ignored db) \<rparr> else db);
               (cert', changed, db) =
                 (if expired then
                    (if cr_status cert \<noteq> Some ''Expired'' then cert\<lparr> cr_status := Some ''Expired'' \<rparr> else cert,
                     revoke_now \<or> cr_status cert \<noteq> Some ''Expired'',
                     (case Option.bind (cr_cn cert) valid_cn of
                        Some replacement \<Rightarrow>
                          db\<lparr> certs_superseded := insert serial (certs_superseded db),
                              replacements := (replacements db)(serial \<mapsto> replacement) \<rparr>
                      | None \<Rightarrow> db\<lparr> certs_expired := insert serial (certs_expired db) \<rparr>))
                  else if revoked then
                    (if cr_status cert \<noteq> Some ''Revoked'' then cert\<lparr> cr_status := Some ''Revoked'' \<rparr> else cert,
                     revoke_now \<or> cr_status cert \<noteq> Some ''Revoked'',
                     db\<lparr> certs_revoked := insert serial (certs_revoked db) \<rparr>)
                  else if expires_soon then
                    (cert, revoke_now,
                     db\<lparr> certs_expires_soon := insert serial (certs_expires_soon db),
                         certs_expires_warning := insert serial (certs_expires_warning db) \<rparr>)
                  else if expires_warning then
                    (cert, revoke_now, db\<lparr> certs_expires_warning := insert serial (certs_expires_warning db) \<rparr>)
                  else (cert, revoke_now, db\<lparr> certs_valid := insert serial (certs_valid db) \<rparr>))
           in if changed then rmap (\<lambda>db. (db, True)) (update_cert cert' db)
              else Ok (db, db_changed)))"

definition classify_external ::
  "chrono \<Rightarrow> int \<Rightarrow> external_cert_record \<Rightarrow> ca_db \<times> bool \<Rightarrow> (ca_db \<times> bool) res" where
  "classify_external lib now ext st =
     (case readable_expiry lib (xr_expiry_date ext) of
        None \<Rightarrow> Ok st
      | Some expiry_date \<Rightarrow>
          (let (db, db_changed) = st; serial = xr_serial ext
           in if now > expiry_date then
                (let db = db\<lparr> ext_certs_expired := insert serial (ext_certs_expired db) \<rparr>
                 in if xr_status ext \<noteq> Some ''Expired''
                    then rmap (\<lambda>db. (db, True)) (update_external_cert (ext\<lparr> xr_status := Some ''Expired'' \<rparr>) db)
                    else Ok (db, db_changed))
              else if now + expiry_warning_days * day_ns > expiry_date then
                Ok (db\<lparr> ext_certs_expires_soon := insert serial (ext_certs_expires_soon db),
                        ext_certs_expires_warning := insert serial (ext_certs_expires_warning db) \<rparr>, db_changed)
              else if now + expiry_caution_days * day_ns > expiry_date then
                Ok (db\<lparr> ext_certs_expires_warning := insert serial (ext_certs_expires_warning db) \<rparr>, db_changed)
              else Ok (db\<lparr> ext_certs_valid := insert serial (ext_certs_valid db) \<rparr>, db_changed)))"

fun each :: "('a \<Rightarrow> 's \<Rightarrow> 's res) \<Rightarrow> 'a list \<Rightarrow> 's \<Rightarrow> 's res" where
  "each f [] s = Ok s"
| "each f (x # xs) s = rbind (f x s) (each f xs)"

definition clear_sets :: "ca_db \<Rightarrow> ca_db" where
  "clear_sets db =
     db\<lparr> certs_expired := {}, certs_expires_soon := {}, certs_expires_warning := {}, certs_revoked := {},
         certs_valid := {}, certs_ignored := {}, certs_superseded := {}, replacements := Map.empty,
         valid_cn_to_serial := Map.empty, ext_certs_expired := {}, ext_certs_expires_soon := {},
         ext_certs_expires_warning := {}, ext_certs_valid := {} \<rparr>"

definition process_ca_database ::
  "chrono \<Rightarrow> int \<Rightarrow> string \<Rightarrow> string option \<Rightarrow> bool \<Rightarrow> ca_db \<Rightarrow> (bool \<times> ca_db) res" where
  "process_ca_database lib now stamp revoke_serial force db =
     (if \<not> dirty db \<and> revoke_serial = None \<and> \<not> force then Ok (False, db)
      else
        (let db = clear_sets db;
             certs = query_all_certs_including_deleted db;
             valid_cn = valid_serials lib now revoke_serial certs;
             db = db\<lparr> valid_cn_to_serial := valid_cn \<rparr>
         in rbind (each (classify_cert lib now stamp revoke_serial valid_cn) certs (db, False)) (\<lambda>st.
            rbind (each (classify_external lib now) (fetch_all_external_certs (fst st)) st) (\<lambda>(db, db_changed).
              Ok (db_changed, db\<lparr> dirty := False \<rparr>)))))"

section \<open>CRL entries\<close>

definition crl_entries :: "(string set \<Rightarrow> string list) \<Rightarrow> ca_db \<Rightarrow> crl_entry list" where
  "crl_entries order db =
     List.map_filter (\<lambda>serial.
       case Option.bind (query_cert (BySerial serial) False db) cr_revocation_date of
         Some d \<Rightarrow> if d = [] then None else Some \<lparr> ce_serial = serial, ce_revocation_date = d \<rparr>
       | None \<Rightarrow> None) (order (certs_revoked db))"

section \<open>OpenVPN profile status\<close>

definition derive_vpn_profile_status ::
  "ca_db \<Rightarrow> string option \<Rightarrow> string \<Rightarrow> bool \<Rightarrow> vpn_profile_status \<times> string option" where
  "derive_vpn_profile_status db profile_serial profile_cn generated =
     (let current_valid = valid_cn_to_serial db profile_cn;
          pinned = (case profile_serial of Some s \<Rightarrow> if s = [] then None else Some s | None \<Rightarrow> None)
      in if \<not> generated then (NeedsRegen, opt_or current_valid pinned)
         else case pinned of
           None \<Rightarrow>
             (case current_valid of
                Some cur \<Rightarrow> if cur \<in> certs_expires_soon db then (ExpiringSoon, None) else (Current, None)
              | None \<Rightarrow> (ExpiredProfile, None))
         | Some serial \<Rightarrow>
             if serial \<in> certs_revoked db then (RevokedProfile, None)
             else if (case current_valid of Some cur \<Rightarrow> cur \<noteq> serial | None \<Rightarrow> False)
             then (NeedsRegen, current_valid)
             else (case replacements db serial of
                     Some replacement \<Rightarrow> (NeedsRegen, Some replacement)
                   | None \<Rightarrow>
                       if serial \<in> certs_expired db then (ExpiredProfile, None)
                       else if serial \<in> certs_expires_soon db then (ExpiringSoon, None)
                       else (Current, None)))"

section \<open>The scan as one function of each row\<close>

text \<open>
  The abstract reading of the scan: the class of a row, the row it leaves behind and the sets it
  enters, each depending on that row alone (and, for an expired one, on the map of valid serials).
\<close>

datatype cert_class = NoExpiry | IsExpired | IsRevoked | IsSoon | IsWarning | IsValid

definition class_of :: "chrono \<Rightarrow> int \<Rightarrow> string option \<Rightarrow> cert_record \<Rightarrow> cert_class" where
  "class_of lib now revoke_serial r =
     (case readable_expiry lib (cr_expiry_date r) of
        None \<Rightarrow> NoExpiry
      | Some e \<Rightarrow>
          if now > e then IsExpired
          else if marked_revoked r \<or> revoke_serial = Some (cr_serial r) then IsRevoked
          else if now + expiry_warning_days * day_ns > e then IsSoon
          else if now + expiry_caution_days * day_ns > e then IsWarning
          else IsValid)"

definition processed :: "chrono \<Rightarrow> int \<Rightarrow> string \<Rightarrow> string option \<Rightarrow> cert_record \<Rightarrow> cert_record" where
  "processed lib now stamp revoke_serial r =
     (case class_of lib now revoke_serial r of
        IsExpired \<Rightarrow> r\<lparr> cr_status := Some ''Expired'' \<rparr>
      | IsRevoked \<Rightarrow>
          (if marked_revoked r then r else r\<lparr> cr_revocation_date := Some stamp \<rparr>)\<lparr> cr_status := Some ''Revoked'' \<rparr>
      | _ \<Rightarrow> r)"

definition place :: "cert_class \<Rightarrow> (string \<rightharpoonup> string) \<Rightarrow> cert_record \<Rightarrow> ca_db \<Rightarrow> ca_db" where
  "place cls valid_cn r db =
     (let s = cr_serial r;
          db = (if cls \<noteq> NoExpiry \<and> cr_ignored_at r \<noteq> None
                then db\<lparr> certs_ignored := insert s (certs_ignored db) \<rparr> else db)
      in case cls of
           NoExpiry \<Rightarrow> db
         | IsExpired \<Rightarrow>
             (case Option.bind (cr_cn r) valid_cn of
                Some t \<Rightarrow> db\<lparr> certs_superseded := insert s (certs_superseded db),
                              replacements := (replacements db)(s \<mapsto> t) \<rparr>
              | None \<Rightarrow> db\<lparr> certs_expired := insert s (certs_expired db) \<rparr>)
         | IsRevoked \<Rightarrow> db\<lparr> certs_revoked := insert s (certs_revoked db) \<rparr>
         | IsSoon \<Rightarrow> db\<lparr> certs_expires_soon := insert s (certs_expires_soon db),
                           certs_expires_warning := insert s (certs_expires_warning db) \<rparr>
         | IsWarning \<Rightarrow> db\<lparr> certs_expires_warning := insert s (certs_expires_warning db) \<rparr>
         | IsValid \<Rightarrow> db\<lparr> certs_valid := insert s (certs_valid db) \<rparr>)"

lemma processed_serial [simp]: "cr_serial (processed lib now stamp rv r) = cr_serial r"
  by (simp add: processed_def split: cert_class.split)

lemma marked_status: "cr_status r = Some ''Revoked'' \<Longrightarrow> marked_revoked r"
  by (simp add: marked_revoked_def)

lemma status_update_same: "(r\<lparr> cr_status := v \<rparr> = r) \<longleftrightarrow> cr_status r = v" for r :: cert_record
proof
  assume "r\<lparr> cr_status := v \<rparr> = r"
  then have "cr_status (r\<lparr> cr_status := v \<rparr>) = cr_status r" by simp
  then show "cr_status r = v" by simp
qed auto

lemma processed_same:
  "processed lib now stamp rv r = r \<longleftrightarrow>
     (class_of lib now rv r = IsExpired \<longrightarrow> cr_status r = Some ''Expired'')
     \<and> (class_of lib now rv r = IsRevoked \<longrightarrow> cr_status r = Some ''Revoked'')"
proof (cases "class_of lib now rv r")
  case IsRevoked
  have "cr_status r = Some ''Revoked''" if "processed lib now stamp rv r = r"
  proof -
    have "cr_status (processed lib now stamp rv r) = Some ''Revoked''" by (simp add: processed_def IsRevoked)
    with that show ?thesis by simp
  qed
  moreover have "processed lib now stamp rv r = r" if "cr_status r = Some ''Revoked''"
  proof -
    have "processed lib now stamp rv r = r\<lparr> cr_status := Some ''Revoked'' \<rparr>"
      using marked_status [OF that] by (simp add: processed_def IsRevoked)
    with that status_update_same show ?thesis by metis
  qed
  ultimately have "processed lib now stamp rv r = r \<longleftrightarrow> cr_status r = Some ''Revoked''" by blast
  with IsRevoked show ?thesis by simp
qed (simp_all add: processed_def status_update_same)

lemma classify_cert_eq:
  "classify_cert lib now stamp rv vc c (db, ch) =
     (if processed lib now stamp rv c = c then Ok (place (class_of lib now rv c) vc c db, ch)
      else rmap (\<lambda>db. (db, True)) (update_cert (processed lib now stamp rv c) (place (class_of lib now rv c) vc c db)))"
proof (cases "readable_expiry lib (cr_expiry_date c)")
  case None
  then show ?thesis
    by (simp add: classify_cert_def processed_def class_of_def place_def)
next
  case (Some e)
  consider (expired) "now > e"
    | (revoked) "\<not> now > e" "marked_revoked c \<or> rv = Some (cr_serial c)"
    | (live) "\<not> now > e" "\<not> (marked_revoked c \<or> rv = Some (cr_serial c))"
    by blast
  then show ?thesis
  proof cases
    case expired
    with Some have cls: "class_of lib now rv c = IsExpired" by (simp add: class_of_def)
    have same: "processed lib now stamp rv c = c \<longleftrightarrow> cr_status c = Some ''Expired''"
      by (simp add: processed_same cls)
    have out: "processed lib now stamp rv c = c\<lparr> cr_status := Some ''Expired'' \<rparr>"
      by (simp add: processed_def cls)
    show ?thesis
      unfolding same unfolding out using expired Some
      by (cases "cr_ignored_at c") (simp_all add: classify_cert_def place_def Let_def cls split: option.split)
  next
    case revoked
    with Some have cls: "class_of lib now rv c = IsRevoked"
      and cls': "class_of lib now (Some (cr_serial c)) c = IsRevoked" by (simp_all add: class_of_def)
    have same: "processed lib now stamp rv c = c \<longleftrightarrow> cr_status c = Some ''Revoked''"
      by (simp add: processed_same cls)
    have out: "processed lib now stamp rv c =
        (if marked_revoked c then c else c\<lparr> cr_revocation_date := Some stamp \<rparr>)\<lparr> cr_status := Some ''Revoked'' \<rparr>"
      by (simp add: processed_def cls)
    show ?thesis
      unfolding same unfolding out using revoked Some marked_status [of c]
      by (cases "marked_revoked c") (auto simp: classify_cert_def place_def Let_def cls cls')
  next
    case live
    with Some have "class_of lib now rv c \<in> {IsSoon, IsWarning, IsValid}" by (simp add: class_of_def)
    then have same: "processed lib now stamp rv c = c" by (auto simp: processed_def)
    show ?thesis
      unfolding same using live Some by (auto simp: classify_cert_def class_of_def place_def Let_def)
  qed
qed


lemma place_frame [simp]:
  "t_certs (place cls vc r db) = t_certs db" "t_external (place cls vc r db) = t_external db"
  "dirty (place cls vc r db) = dirty db" "t_config (place cls vc r db) = t_config db"
  by (cases cls; cases "Option.bind (cr_cn r) vc"; simp add: place_def Let_def)+

lemma place_rows:
  "place cls vc r (db\<lparr> t_certs := rows, dirty := d \<rparr>) = (place cls vc r db)\<lparr> t_certs := rows, dirty := d \<rparr>"
  by (simp add: place_def Let_def split: cert_class.split option.split)

definition place_all ::
  "chrono \<Rightarrow> int \<Rightarrow> string option \<Rightarrow> (string \<rightharpoonup> string) \<Rightarrow> cert_record list \<Rightarrow> ca_db \<Rightarrow> ca_db" where
  "place_all lib now rv vc certs db = foldl (\<lambda>d c. place (class_of lib now rv c) vc c d) db certs"

lemma place_all_frame [simp]:
  "t_certs (place_all lib now rv vc certs db) = t_certs db"
  "t_external (place_all lib now rv vc certs db) = t_external db"
  "dirty (place_all lib now rv vc certs db) = dirty db"
  "t_config (place_all lib now rv vc certs db) = t_config db"
  unfolding place_all_def by (induction certs arbitrary: db) simp_all

lemma place_all_rows:
  "place_all lib now rv vc certs (db\<lparr> t_certs := rows, dirty := d \<rparr>) = (place_all lib now rv vc certs db)\<lparr> t_certs := rows, dirty := d \<rparr>"
  unfolding place_all_def by (induction certs arbitrary: db) (simp_all add: place_rows)

text \<open>The loop over the certificates rewrites each row by \<open>processed\<close> and fills the sets by \<open>place\<close>.\<close>

lemma classify_certs_loop:
  fixes lib now stamp rv
  assumes "certs_keyed db" "distinct (map cr_serial certs)" "set certs \<subseteq> set (t_certs db)"
  defines "row \<equiv> processed lib now stamp rv"
  defines "hit \<equiv> \<exists>c \<in> set certs. row c \<noteq> c"
  shows "each (classify_cert lib now stamp rv vc) certs (db, ch) =
    Ok ((place_all lib now rv vc certs db)
          \<lparr> t_certs := map (\<lambda>r. if cr_serial r \<in> cr_serial ` set certs then row r else r) (t_certs db),
             dirty := dirty db \<or> hit \<rparr>, ch \<or> hit)"
  using assms(1-3) unfolding hit_def
proof (induction certs arbitrary: db ch)
  case Nil
  show ?case by (simp add: place_all_def)
next
  case (Cons c certs)
  let ?cls = "class_of lib now rv c"
  let ?upd = "\<lambda>r. if cr_serial r = cr_serial c then row c else r"
  define db1 where "db1 = (place ?cls vc c db)\<lparr> t_certs := map ?upd (t_certs db), dirty := dirty db \<or> row c \<noteq> c \<rparr>"
  have c_in: "c \<in> set (t_certs db)" using Cons.prems(3) by simp
  have only: "r = c" if "r \<in> set (t_certs db)" "cr_serial r = cr_serial c" for r
    using Cons.prems(1) c_in that by (auto simp: certs_keyed_def tbl_keyed_def distinct_map inj_on_def)
  have step: "classify_cert lib now stamp rv vc c (db, ch) = Ok (db1, ch \<or> row c \<noteq> c)"
  proof (cases "row c = c")
    case True
    then have "map ?upd (t_certs db) = t_certs db" by (intro map_idI) (metis only)
    with True show ?thesis by (simp add: classify_cert_eq row_def db1_def)
  next
    case False
    have "tbl_count (\<lambda>r. cr_serial r = cr_serial c) (t_certs db) \<noteq> 0" using c_in by (auto simp: tbl_count_zero)
    then show ?thesis
      using False by (simp add: classify_cert_eq row_def db1_def update_cert_def update_certs_def tbl_update_def)
  qed
  have "map cr_serial (map ?upd (t_certs db)) = map cr_serial (t_certs db)" by (auto simp: row_def)
  moreover have "t_certs db1 = map ?upd (t_certs db)" by (simp add: db1_def)
  ultimately have keyed1: "certs_keyed db1"
    using Cons.prems(1) by (simp only: certs_keyed_def tbl_keyed_def)
  have sub1: "set certs \<subseteq> set (t_certs db1)"
  proof
    fix r assume "r \<in> set certs"
    then have "r \<in> set (t_certs db)" "cr_serial r \<noteq> cr_serial c" using Cons.prems(2,3) by (auto intro: rev_image_eqI)
    then show "r \<in> set (t_certs db1)" by (force simp: db1_def)
  qed
  have rows: "map (\<lambda>r. if cr_serial r \<in> cr_serial ` set certs then row r else r) (t_certs db1)
      = map (\<lambda>r. if cr_serial r \<in> cr_serial ` set (c # certs) then row r else r) (t_certs db)"
    using Cons.prems(2) only by (auto simp: db1_def row_def)
  have "place_all lib now rv vc (c # certs) db = place_all lib now rv vc certs (place ?cls vc c db)"
    by (simp add: place_all_def)
  then have placed: "(place_all lib now rv vc certs db1)\<lparr> t_certs := X, dirty := d \<rparr>
      = (place_all lib now rv vc (c # certs) db)\<lparr> t_certs := X, dirty := d \<rparr>" for X d
    by (simp add: db1_def place_all_rows)
  have "each (classify_cert lib now stamp rv vc) certs (db1, ch \<or> row c \<noteq> c) =
    Ok ((place_all lib now rv vc certs db1)
          \<lparr> t_certs := map (\<lambda>r. if cr_serial r \<in> cr_serial ` set certs then row r else r) (t_certs db1),
             dirty := dirty db1 \<or> (\<exists>c \<in> set certs. row c \<noteq> c) \<rparr>, (ch \<or> row c \<noteq> c) \<or> (\<exists>c \<in> set certs. row c \<noteq> c))"
    using keyed1 sub1 Cons.prems(2) by (intro Cons.IH) simp_all
  then show ?case
    unfolding rows placed by (simp add: step db1_def disj_assoc)
qed

text \<open>The same for the external certificates, which have no revocation and no replacement.\<close>

definition ext_class_of :: "chrono \<Rightarrow> int \<Rightarrow> external_cert_record \<Rightarrow> cert_class" where
  "ext_class_of lib now x =
     (case readable_expiry lib (xr_expiry_date x) of
        None \<Rightarrow> NoExpiry
      | Some e \<Rightarrow>
          if now > e then IsExpired
          else if now + expiry_warning_days * day_ns > e then IsSoon
          else if now + expiry_caution_days * day_ns > e then IsWarning
          else IsValid)"

definition ext_processed :: "chrono \<Rightarrow> int \<Rightarrow> external_cert_record \<Rightarrow> external_cert_record" where
  "ext_processed lib now x =
     (if ext_class_of lib now x = IsExpired then x\<lparr> xr_status := Some ''Expired'' \<rparr> else x)"

definition ext_place :: "cert_class \<Rightarrow> external_cert_record \<Rightarrow> ca_db \<Rightarrow> ca_db" where
  "ext_place cls x db =
     (let s = xr_serial x in
      case cls of
        IsExpired \<Rightarrow> db\<lparr> ext_certs_expired := insert s (ext_certs_expired db) \<rparr>
      | IsSoon \<Rightarrow> db\<lparr> ext_certs_expires_soon := insert s (ext_certs_expires_soon db),
                        ext_certs_expires_warning := insert s (ext_certs_expires_warning db) \<rparr>
      | IsWarning \<Rightarrow> db\<lparr> ext_certs_expires_warning := insert s (ext_certs_expires_warning db) \<rparr>
      | IsValid \<Rightarrow> db\<lparr> ext_certs_valid := insert s (ext_certs_valid db) \<rparr>
      | _ \<Rightarrow> db)"

definition ext_place_all :: "chrono \<Rightarrow> int \<Rightarrow> external_cert_record list \<Rightarrow> ca_db \<Rightarrow> ca_db" where
  "ext_place_all lib now xs db = foldl (\<lambda>d x. ext_place (ext_class_of lib now x) x d) db xs"

lemma ext_processed_serial [simp]: "xr_serial (ext_processed lib now x) = xr_serial x"
  by (simp add: ext_processed_def)

lemma ext_status_update_same: "(x\<lparr> xr_status := v \<rparr> = x) \<longleftrightarrow> xr_status x = v" for x :: external_cert_record
proof
  assume "x\<lparr> xr_status := v \<rparr> = x"
  then have "xr_status (x\<lparr> xr_status := v \<rparr>) = xr_status x" by simp
  then show "xr_status x = v" by simp
qed auto

lemma ext_place_frame [simp]:
  "t_certs (ext_place cls x db) = t_certs db" "t_external (ext_place cls x db) = t_external db"
  by (simp_all add: ext_place_def Let_def split: cert_class.split)

lemma ext_place_rows: "ext_place cls x (db\<lparr> t_external := rows \<rparr>) = (ext_place cls x db)\<lparr> t_external := rows \<rparr>"
  by (simp add: ext_place_def Let_def split: cert_class.split)

lemma ext_place_all_frame [simp]:
  "t_certs (ext_place_all lib now xs db) = t_certs db" "t_external (ext_place_all lib now xs db) = t_external db"
  unfolding ext_place_all_def by (induction xs arbitrary: db) simp_all

lemma ext_place_all_rows:
  "ext_place_all lib now xs (db\<lparr> t_external := rows \<rparr>) = (ext_place_all lib now xs db)\<lparr> t_external := rows \<rparr>"
  unfolding ext_place_all_def by (induction xs arbitrary: db) (simp_all add: ext_place_rows)

lemma classify_external_eq:
  "classify_external lib now x (db, ch) =
     (if ext_processed lib now x = x then Ok (ext_place (ext_class_of lib now x) x db, ch)
      else rmap (\<lambda>db. (db, True)) (update_external_cert (ext_processed lib now x) (ext_place (ext_class_of lib now x) x db)))"
proof (cases "readable_expiry lib (xr_expiry_date x)")
  case None
  then show ?thesis by (simp add: classify_external_def ext_processed_def ext_class_of_def ext_place_def)
next
  case (Some e)
  show ?thesis
  proof (cases "now > e")
    case True
    with Some have cls: "ext_class_of lib now x = IsExpired" by (simp add: ext_class_of_def)
    have same: "ext_processed lib now x = x \<longleftrightarrow> xr_status x = Some ''Expired''"
      by (simp add: ext_processed_def cls ext_status_update_same)
    have out: "ext_processed lib now x = x\<lparr> xr_status := Some ''Expired'' \<rparr>" by (simp add: ext_processed_def cls)
    show ?thesis
      unfolding same unfolding out using True Some by (simp add: classify_external_def ext_place_def Let_def cls)
  next
    case False
    with Some have "ext_class_of lib now x \<noteq> IsExpired" by (simp add: ext_class_of_def)
    then have same: "ext_processed lib now x = x" by (simp add: ext_processed_def)
    show ?thesis
      unfolding same using False Some by (auto simp: classify_external_def ext_class_of_def ext_place_def Let_def)
  qed
qed

lemma classify_external_loop:
  fixes lib now
  assumes "external_keyed db" "distinct (map xr_serial xs)" "set xs \<subseteq> set (t_external db)"
  defines "row \<equiv> ext_processed lib now"
  shows "each (classify_external lib now) xs (db, ch) =
    Ok ((ext_place_all lib now xs db)
          \<lparr> t_external := map (\<lambda>r. if xr_serial r \<in> xr_serial ` set xs then row r else r) (t_external db) \<rparr>,
        ch \<or> (\<exists>x \<in> set xs. row x \<noteq> x))"
  using assms(1-3)
proof (induction xs arbitrary: db ch)
  case Nil
  show ?case by (simp add: ext_place_all_def)
next
  case (Cons c xs)
  let ?cls = "ext_class_of lib now c"
  let ?upd = "\<lambda>r. if xr_serial r = xr_serial c then row c else r"
  define db1 where "db1 = (ext_place ?cls c db)\<lparr> t_external := map ?upd (t_external db) \<rparr>"
  have c_in: "c \<in> set (t_external db)" using Cons.prems(3) by simp
  have only: "r = c" if "r \<in> set (t_external db)" "xr_serial r = xr_serial c" for r
    using Cons.prems(1) c_in that by (auto simp: external_keyed_def tbl_keyed_def distinct_map inj_on_def)
  have step: "classify_external lib now c (db, ch) = Ok (db1, ch \<or> row c \<noteq> c)"
  proof (cases "row c = c")
    case True
    then have "map ?upd (t_external db) = t_external db" by (intro map_idI) (metis only)
    with True show ?thesis by (simp add: classify_external_eq row_def db1_def)
  next
    case False
    have "tbl_count (\<lambda>r. xr_serial r = xr_serial c) (t_external db) \<noteq> 0" using c_in by (auto simp: tbl_count_zero)
    then show ?thesis
      using False by (simp add: classify_external_eq row_def db1_def update_external_cert_def tbl_update_def)
  qed
  have "map xr_serial (map ?upd (t_external db)) = map xr_serial (t_external db)" by (auto simp: row_def)
  moreover have rows1: "t_external db1 = map ?upd (t_external db)" by (simp add: db1_def)
  ultimately have keyed1: "external_keyed db1"
    using Cons.prems(1) by (simp only: external_keyed_def tbl_keyed_def)
  have sub1: "set xs \<subseteq> set (t_external db1)"
  proof
    fix r assume "r \<in> set xs"
    then have "r \<in> set (t_external db)" "xr_serial r \<noteq> xr_serial c" using Cons.prems(2,3) by (auto intro: rev_image_eqI)
    then show "r \<in> set (t_external db1)" by (force simp: db1_def)
  qed
  have rows: "map (\<lambda>r. if xr_serial r \<in> xr_serial ` set xs then row r else r) (t_external db1)
      = map (\<lambda>r. if xr_serial r \<in> xr_serial ` set (c # xs) then row r else r) (t_external db)"
    using Cons.prems(2) only by (auto simp: db1_def row_def)
  have "ext_place_all lib now (c # xs) db = ext_place_all lib now xs (ext_place ?cls c db)"
    by (simp add: ext_place_all_def)
  then have placed: "(ext_place_all lib now xs db1)\<lparr> t_external := X \<rparr> = (ext_place_all lib now (c # xs) db)\<lparr> t_external := X \<rparr>" for X
    by (simp add: db1_def ext_place_all_rows)
  have "each (classify_external lib now) xs (db1, ch \<or> row c \<noteq> c) =
    Ok ((ext_place_all lib now xs db1)
          \<lparr> t_external := map (\<lambda>r. if xr_serial r \<in> xr_serial ` set xs then row r else r) (t_external db1) \<rparr>,
        (ch \<or> row c \<noteq> c) \<or> (\<exists>x \<in> set xs. row x \<noteq> x))"
    using keyed1 sub1 Cons.prems(2) by (intro Cons.IH) simp_all
  then show ?case unfolding rows placed by (simp add: step disj_assoc)
qed

section \<open>The outcome of the scan\<close>

definition serials_where :: "(cert_record \<Rightarrow> bool) \<Rightarrow> cert_record list \<Rightarrow> string set" where
  "serials_where P certs = cr_serial ` {c \<in> set certs. P c}"

lemma serials_where_Cons: "serials_where P (c # cs) = (if P c then insert (cr_serial c) (serials_where P cs) else serials_where P cs)"
  by (auto simp: serials_where_def)

lemma place_all_sets:
  fixes lib now rv
  defines "cls \<equiv> class_of lib now rv"
  shows "certs_expired (place_all lib now rv vc certs db) =
      serials_where (\<lambda>c. cls c = IsExpired \<and> Option.bind (cr_cn c) vc = None) certs \<union> certs_expired db
    \<and> certs_superseded (place_all lib now rv vc certs db) =
      serials_where (\<lambda>c. cls c = IsExpired \<and> Option.bind (cr_cn c) vc \<noteq> None) certs \<union> certs_superseded db
    \<and> certs_revoked (place_all lib now rv vc certs db) = serials_where (\<lambda>c. cls c = IsRevoked) certs \<union> certs_revoked db
    \<and> certs_expires_soon (place_all lib now rv vc certs db) = serials_where (\<lambda>c. cls c = IsSoon) certs \<union> certs_expires_soon db
    \<and> certs_expires_warning (place_all lib now rv vc certs db) =
      serials_where (\<lambda>c. cls c = IsSoon \<or> cls c = IsWarning) certs \<union> certs_expires_warning db
    \<and> certs_valid (place_all lib now rv vc certs db) = serials_where (\<lambda>c. cls c = IsValid) certs \<union> certs_valid db
    \<and> certs_ignored (place_all lib now rv vc certs db) =
      serials_where (\<lambda>c. cls c \<noteq> NoExpiry \<and> cr_ignored_at c \<noteq> None) certs \<union> certs_ignored db
    \<and> valid_cn_to_serial (place_all lib now rv vc certs db) = valid_cn_to_serial db"
proof (induction certs arbitrary: db)
  case Nil
  show ?case by (simp add: place_all_def serials_where_def)
next
  case (Cons c certs)
  have "place_all lib now rv vc (c # certs) db = place_all lib now rv vc certs (place (cls c) vc c db)"
    by (simp add: place_all_def cls_def)
  then show ?case
    using Cons.IH [of "place (cls c) vc c db"]
    by (cases "cls c") (simp_all add: serials_where_Cons place_def Let_def split: option.split)
qed

lemma place_all_replacements:
  assumes "distinct (map cr_serial certs)"
  shows "replacements (place_all lib now rv vc certs db) s = Some t \<longleftrightarrow>
    (\<exists>c \<in> set certs. cr_serial c = s \<and> class_of lib now rv c = IsExpired \<and> Option.bind (cr_cn c) vc = Some t)
    \<or> ((\<forall>c \<in> set certs. cr_serial c = s \<longrightarrow> class_of lib now rv c \<noteq> IsExpired \<or> Option.bind (cr_cn c) vc = None)
       \<and> replacements db s = Some t)"
  using assms
proof (induction certs arbitrary: db)
  case Nil
  show ?case by (simp add: place_all_def)
next
  case (Cons c certs)
  let ?cls = "class_of lib now rv c"
  have fold: "place_all lib now rv vc (c # certs) db = place_all lib now rv vc certs (place ?cls vc c db)"
    by (simp add: place_all_def)
  have repl: "replacements (place ?cls vc c db) =
      (case Option.bind (cr_cn c) vc of
         Some t \<Rightarrow> if ?cls = IsExpired then (replacements db)(cr_serial c \<mapsto> t) else replacements db
       | None \<Rightarrow> replacements db)"
    by (simp add: place_def Let_def split: cert_class.split option.split)
  have other: "cr_serial x \<noteq> cr_serial c" if "x \<in> set certs" for x
    using Cons.prems that by (auto intro: rev_image_eqI)
  show ?case
  proof (cases "s = cr_serial c")
    case True
    then have "\<not> (\<exists>x \<in> set certs. cr_serial x = s)" using other by auto
    with True show ?thesis
      unfolding fold using Cons.IH [of "place ?cls vc c db"] Cons.prems
      by (auto simp: repl split: option.splits)
  next
    case False
    then have "replacements (place ?cls vc c db) s = replacements db s" by (simp add: repl split: option.split)
    with False show ?thesis
      unfolding fold using Cons.IH [of "place ?cls vc c db"] Cons.prems by auto
  qed
qed

definition ext_serials_where :: "(external_cert_record \<Rightarrow> bool) \<Rightarrow> external_cert_record list \<Rightarrow> string set" where
  "ext_serials_where P xs = xr_serial ` {x \<in> set xs. P x}"

lemma ext_serials_where_Cons:
  "ext_serials_where P (x # xs) = (if P x then insert (xr_serial x) (ext_serials_where P xs) else ext_serials_where P xs)"
  by (auto simp: ext_serials_where_def)

lemma ext_place_all_sets:
  fixes lib now
  defines "cls \<equiv> ext_class_of lib now"
  shows "ext_certs_expired (ext_place_all lib now xs db) = ext_serials_where (\<lambda>x. cls x = IsExpired) xs \<union> ext_certs_expired db
    \<and> ext_certs_expires_soon (ext_place_all lib now xs db) = ext_serials_where (\<lambda>x. cls x = IsSoon) xs \<union> ext_certs_expires_soon db
    \<and> ext_certs_expires_warning (ext_place_all lib now xs db) =
        ext_serials_where (\<lambda>x. cls x = IsSoon \<or> cls x = IsWarning) xs \<union> ext_certs_expires_warning db
    \<and> ext_certs_valid (ext_place_all lib now xs db) = ext_serials_where (\<lambda>x. cls x = IsValid) xs \<union> ext_certs_valid db"
proof (induction xs arbitrary: db)
  case Nil
  show ?case by (simp add: ext_place_all_def ext_serials_where_def)
next
  case (Cons x xs)
  have "ext_place_all lib now (x # xs) db = ext_place_all lib now xs (ext_place (cls x) x db)"
    by (simp add: ext_place_all_def cls_def)
  then show ?case
    using Cons.IH [of "ext_place (cls x) x db"]
    by (cases "cls x") (simp_all add: ext_serials_where_Cons ext_place_def Let_def)
qed

text \<open>The scan keeps the certificate sets apart from the external ones and from every other table.\<close>

lemma ext_place_all_keeps [simp]:
  "certs_expired (ext_place_all lib now xs db) = certs_expired db"
  "certs_superseded (ext_place_all lib now xs db) = certs_superseded db"
  "certs_revoked (ext_place_all lib now xs db) = certs_revoked db"
  "certs_expires_soon (ext_place_all lib now xs db) = certs_expires_soon db"
  "certs_expires_warning (ext_place_all lib now xs db) = certs_expires_warning db"
  "certs_valid (ext_place_all lib now xs db) = certs_valid db"
  "certs_ignored (ext_place_all lib now xs db) = certs_ignored db"
  "valid_cn_to_serial (ext_place_all lib now xs db) = valid_cn_to_serial db"
  "replacements (ext_place_all lib now xs db) = replacements db"
  unfolding ext_place_all_def
  by (induction xs arbitrary: db) (simp_all add: ext_place_def Let_def split: cert_class.split)

lemma place_all_keeps_ext [simp]:
  "ext_certs_expired (place_all lib now rv vc cs db) = ext_certs_expired db"
  "ext_certs_expires_soon (place_all lib now rv vc cs db) = ext_certs_expires_soon db"
  "ext_certs_expires_warning (place_all lib now rv vc cs db) = ext_certs_expires_warning db"
  "ext_certs_valid (place_all lib now rv vc cs db) = ext_certs_valid db"
  unfolding place_all_def
  by (induction cs arbitrary: db) (simp_all add: place_def Let_def split: cert_class.split option.split)

definition current_serials :: "chrono \<Rightarrow> int \<Rightarrow> string option \<Rightarrow> ca_db \<Rightarrow> (string \<rightharpoonup> string)" where
  "current_serials lib now rv db = valid_serials lib now rv (query_all_certs_including_deleted db)"

text \<open>What a scan that runs leaves behind, set by set.\<close>

definition scan_outcome :: "chrono \<Rightarrow> int \<Rightarrow> string \<Rightarrow> string option \<Rightarrow> ca_db \<Rightarrow> ca_db \<Rightarrow> bool" where
  "scan_outcome lib now stamp rv db db' \<longleftrightarrow>
     (let cls = class_of lib now rv; ecls = ext_class_of lib now; vc = current_serials lib now rv db;
          certs = t_certs db; xs = t_external db
      in t_certs db' = map (processed lib now stamp rv) certs
       \<and> t_external db' = map (ext_processed lib now) xs
       \<and> \<not> dirty db'
       \<and> valid_cn_to_serial db' = vc
       \<and> certs_expired db' = serials_where (\<lambda>c. cls c = IsExpired \<and> Option.bind (cr_cn c) vc = None) certs
       \<and> certs_superseded db' = serials_where (\<lambda>c. cls c = IsExpired \<and> Option.bind (cr_cn c) vc \<noteq> None) certs
       \<and> certs_revoked db' = serials_where (\<lambda>c. cls c = IsRevoked) certs
       \<and> certs_expires_soon db' = serials_where (\<lambda>c. cls c = IsSoon) certs
       \<and> certs_expires_warning db' = serials_where (\<lambda>c. cls c = IsSoon \<or> cls c = IsWarning) certs
       \<and> certs_valid db' = serials_where (\<lambda>c. cls c = IsValid) certs
       \<and> certs_ignored db' = serials_where (\<lambda>c. cls c \<noteq> NoExpiry \<and> cr_ignored_at c \<noteq> None) certs
       \<and> (\<forall>s t. replacements db' s = Some t \<longleftrightarrow>
            (\<exists>c \<in> set certs. cr_serial c = s \<and> cls c = IsExpired \<and> Option.bind (cr_cn c) vc = Some t))
       \<and> ext_certs_expired db' = ext_serials_where (\<lambda>x. ecls x = IsExpired) xs
       \<and> ext_certs_expires_soon db' = ext_serials_where (\<lambda>x. ecls x = IsSoon) xs
       \<and> ext_certs_expires_warning db' = ext_serials_where (\<lambda>x. ecls x = IsSoon \<or> ecls x = IsWarning) xs
       \<and> ext_certs_valid db' = ext_serials_where (\<lambda>x. ecls x = IsValid) xs)"

lemma serials_where_select: "serials_where P (select_certs (\<lambda>r. True) db) = serials_where P (t_certs db)"
  by (simp add: serials_where_def)

lemma clear_sets_frame [simp]:
  "t_certs (clear_sets db) = t_certs db" "t_external (clear_sets db) = t_external db"
  "select_certs P (clear_sets db) = select_certs P db" "t_config (clear_sets db) = t_config db"
  by (simp_all add: clear_sets_def select_certs_def)

lemma process_scan:
  assumes "certs_keyed db" "external_keyed db" "dirty db \<or> rv \<noteq> None \<or> force"
  shows "\<exists>db'. process_ca_database lib now stamp rv force db =
      Ok ((\<exists>c \<in> set (t_certs db). processed lib now stamp rv c \<noteq> c)
          \<or> (\<exists>x \<in> set (t_external db). ext_processed lib now x \<noteq> x), db')
    \<and> scan_outcome lib now stamp rv db db'"
proof -
  define certs where "certs = query_all_certs_including_deleted db"
  define vc where "vc = valid_serials lib now rv certs"
  define db0 where "db0 = (clear_sets db)\<lparr> valid_cn_to_serial := vc \<rparr>"
  let ?row = "processed lib now stamp rv"
  let ?hit = "\<exists>c \<in> set (t_certs db). ?row c \<noteq> c"
  let ?db1 = "(place_all lib now rv vc certs db0)\<lparr> t_certs := map ?row (t_certs db), dirty := dirty db0 \<or> ?hit \<rparr>"
  let ?xhit = "\<exists>x \<in> set (t_external db). ext_processed lib now x \<noteq> x"
  define db' where "db' = (ext_place_all lib now (t_external db) ?db1)\<lparr> t_external := map (ext_processed lib now) (t_external db), dirty := False \<rparr>"
  have set_certs: "set certs = set (t_certs db)" by (simp add: certs_def query_all_certs_including_deleted_def)
  have dist: "distinct (map cr_serial certs)"
    using assms(1) by (simp add: certs_def query_all_certs_including_deleted_def distinct_select_certs)
  have db0: "t_certs db0 = t_certs db" "t_external db0 = t_external db" "certs_keyed db0"
    using assms(1) by (simp_all add: db0_def certs_keyed_def)
  have "map (\<lambda>r. if cr_serial r \<in> cr_serial ` set certs then ?row r else r) (t_certs db0) = map ?row (t_certs db)"
    by (simp add: db0 set_certs)
  then have loop1: "each (classify_cert lib now stamp rv vc) certs (db0, False) = Ok (?db1, ?hit)"
    using classify_certs_loop [OF db0(3) dist, of lib now stamp rv vc False] by (simp add: db0 set_certs)
  have ext: "external_keyed ?db1" "t_external ?db1 = t_external db" "distinct (map xr_serial (t_external db))"
    using assms(2) by (simp_all add: external_keyed_def tbl_keyed_def db0)
  have loop2: "each (classify_external lib now) (t_external db) (?db1, ?hit)
      = Ok ((ext_place_all lib now (t_external db) ?db1)\<lparr> t_external := map (ext_processed lib now) (t_external db) \<rparr>, ?hit \<or> ?xhit)"
    using classify_external_loop [OF ext(1) ext(3), of lib now ?hit] ext(2) by simp
  have q: "query_all_certs_including_deleted (clear_sets db) = certs"
    by (simp add: certs_def query_all_certs_including_deleted_def)
  have guard: "\<not> (\<not> dirty db \<and> rv = None \<and> \<not> force)" using assms(3) by blast
  have "process_ca_database lib now stamp rv force db = Ok (?hit \<or> ?xhit, db')"
    unfolding process_ca_database_def if_not_P [OF guard] Let_def q vc_def [symmetric] db0_def [symmetric] loop1
      rbind.simps fst_conv fetch_all_external_certs_def ext(2) loop2 prod.case
    by (simp add: db'_def)
  moreover have "scan_outcome lib now stamp rv db db'"
  proof -
    have sw: "serials_where P certs = serials_where P (t_certs db)" for P by (simp add: serials_where_def set_certs)
    have vc: "current_serials lib now rv db = vc" by (simp add: current_serials_def vc_def certs_def)
    have empty: "certs_expired db0 = {}" "certs_superseded db0 = {}" "certs_revoked db0 = {}"
      "certs_expires_soon db0 = {}" "certs_expires_warning db0 = {}" "certs_valid db0 = {}" "certs_ignored db0 = {}"
      "replacements db0 = Map.empty" "valid_cn_to_serial db0 = vc" "ext_certs_expired db0 = {}"
      "ext_certs_expires_soon db0 = {}" "ext_certs_expires_warning db0 = {}" "ext_certs_valid db0 = {}"
      by (simp_all add: db0_def clear_sets_def)
    show ?thesis
      unfolding scan_outcome_def Let_def vc
      by (simp add: db'_def place_all_sets ext_place_all_sets place_all_replacements [OF dist] empty sw set_certs)
  qed
  ultimately show ?thesis by blast
qed

text \<open>The first pass: what the map of valid serials holds.\<close>

definition numbered :: "cert_record \<Rightarrow> bool" where
  "numbered c \<longleftrightarrow> (\<exists>n > 0. parse_i64 (cr_serial c) = Some n)"

lemma note_valid_cases:
  "note_valid lib now rv m c cn =
     (if candidate lib now rv c \<and> cr_cn c = Some cn
         \<and> serial_num (cr_serial c) > (case Option.bind (m cn) parse_i64 of Some n \<Rightarrow> n | None \<Rightarrow> i64_min)
      then Some (cr_serial c) else m cn)"
  by (auto simp: note_valid_def Let_def candidate_def split: option.splits)

lemma valid_serials_sound:
  "valid_serials lib now rv certs cn = Some s \<Longrightarrow>
   \<exists>c \<in> set certs. candidate lib now rv c \<and> cr_cn c = Some cn \<and> cr_serial c = s"
proof (induction certs arbitrary: s rule: rev_induct)
  case Nil
  then show ?case by (simp add: valid_serials_def)
next
  case (snoc c certs)
  then show ?case by (auto simp: valid_serials_def note_valid_cases split: if_splits)
qed

lemma valid_serials_max:
  assumes "\<forall>c \<in> set certs. candidate lib now rv c \<longrightarrow> numbered c"
    and "c \<in> set certs" "candidate lib now rv c" "cr_cn c = Some cn"
  shows "\<exists>s. valid_serials lib now rv certs cn = Some s \<and> serial_num (cr_serial c) \<le> serial_num s"
  using assms
proof (induction certs rule: rev_induct)
  case Nil
  then show ?case by simp
next
  case (snoc d certs)
  define m where "m = valid_serials lib now rv certs"
  have step: "valid_serials lib now rv (certs @ [d]) cn = note_valid lib now rv m d cn"
    by (simp add: valid_serials_def m_def)
  have num: "(case Option.bind (m cn) parse_i64 of Some n \<Rightarrow> n | None \<Rightarrow> i64_min) = serial_num s" if ms: "m cn = Some s" for s
  proof -
    obtain e where "e \<in> set certs" "candidate lib now rv e" "cr_serial e = s"
      using valid_serials_sound ms unfolding m_def by blast
    then have "numbered e" using snoc.prems(1) by auto
    with \<open>cr_serial e = s\<close> ms show ?thesis by (auto simp: numbered_def serial_num_def)
  qed
  show ?case
  proof (cases "c \<in> set certs")
    case True
    then obtain s where s: "m cn = Some s" "serial_num (cr_serial c) \<le> serial_num s"
      using snoc by (auto simp: m_def)
    then show ?thesis using num [OF s(1)] by (auto simp: step note_valid_cases)
  next
    case False
    then have dc: "d = c" using snoc.prems(2) by simp
    have "numbered c" using snoc.prems dc by simp
    then have "i64_min < serial_num (cr_serial c)" by (auto simp: numbered_def serial_num_def i64_defs)
    then show ?thesis
      using snoc.prems(3,4) num by (cases "m cn") (auto simp: step [unfolded dc] dc note_valid_cases)
  qed
qed

text \<open>A scan changes only the status and, when it revokes, the revocation date.\<close>

lemma processed_keeps [simp]:
  "cr_cn (processed lib now stamp rv r) = cr_cn r"
  "cr_expiry_date (processed lib now stamp rv r) = cr_expiry_date r"
  "cr_ignored_at (processed lib now stamp rv r) = cr_ignored_at r"
  "cr_deleted_at (processed lib now stamp rv r) = cr_deleted_at r"
  by (simp_all add: processed_def split: cert_class.split)

lemma processed_only:
  "(processed lib now stamp rv r)\<lparr> cr_status := cr_status r, cr_revocation_date := cr_revocation_date r \<rparr> = r"
  by (simp add: processed_def split: cert_class.split)

lemma class_processed:
  assumes "stamp \<noteq> []"
  shows "class_of lib now None (processed lib now stamp rv r) = class_of lib now rv r"
proof (cases "class_of lib now rv r = IsRevoked")
  case True
  then obtain e where e: "readable_expiry lib (cr_expiry_date r) = Some e" "\<not> now > e"
    by (auto simp: class_of_def split: option.splits if_splits)
  have "marked_revoked (processed lib now stamp rv r)"
    by (simp add: processed_def True marked_revoked_def)
  with e True show ?thesis by (simp add: class_of_def)
next
  case False
  have "class_of lib now None r = class_of lib now rv r"
    using False by (auto simp: class_of_def split: option.splits)
  moreover have "marked_revoked (r\<lparr> cr_status := Some ''Expired'' \<rparr>) \<Longrightarrow> marked_revoked r"
    by (auto simp: marked_revoked_def)
  ultimately show ?thesis
    using False by (auto simp: processed_def class_of_def split: option.splits if_splits)
qed

text \<open>Everything but the two certificate tables, the dirty flag and the status sets.\<close>

definition same_frame :: "ca_db \<Rightarrow> ca_db \<Rightarrow> bool" where
  "same_frame a b \<longleftrightarrow>
     t_config a = t_config b \<and> t_csr a = t_csr b \<and> csr_sequence a = csr_sequence b
     \<and> t_crl_metadata a = t_crl_metadata b \<and> t_crl_batch a = t_crl_batch b
     \<and> t_templates a = t_templates b \<and> template_sequence a = template_sequence b
     \<and> t_profiles a = t_profiles b \<and> profile_sequence a = profile_sequence b
     \<and> t_dkim a = t_dkim b \<and> t_brokers a = t_brokers b \<and> t_broker_certs a = t_broker_certs b
     \<and> download_fingerprint a = download_fingerprint b"

lemma same_frame_trans: "same_frame a b \<Longrightarrow> same_frame b c \<Longrightarrow> same_frame a c"
  by (simp add: same_frame_def)

lemma place_same_frame: "same_frame (place cls vc r db) db"
  by (simp add: same_frame_def place_def Let_def split: cert_class.split option.split)

lemma ext_place_same_frame: "same_frame (ext_place cls x db) db"
  by (simp add: same_frame_def ext_place_def Let_def split: cert_class.split)

lemma classify_same_frame:
  "classify_cert lib now stamp rv vc c (db, ch) = Ok (db', ch') \<Longrightarrow> same_frame db' db"
  using place_same_frame [of "class_of lib now rv c" vc c db]
  by (auto simp: classify_cert_eq update_cert_def update_certs_def no_cert_def same_frame_def split: if_splits)

lemma classify_external_same_frame:
  "classify_external lib now x (db, ch) = Ok (db', ch') \<Longrightarrow> same_frame db' db"
  using ext_place_same_frame [of "ext_class_of lib now x" x db]
  by (auto simp: classify_external_eq update_external_cert_def same_frame_def split: if_splits)

lemma each_same_frame:
  assumes "\<And>x db ch db' ch'. f x (db, ch) = Ok (db', ch') \<Longrightarrow> same_frame db' db"
  shows "each f xs (db, ch) = Ok (db', ch') \<Longrightarrow> same_frame db' db"
proof (induction xs arbitrary: db ch)
  case Nil
  then show ?case by (simp add: same_frame_def)
next
  case (Cons x xs)
  then obtain d c where "f x (db, ch) = Ok (d, c)" "each f xs (d, c) = Ok (db', ch')" by auto
  then show ?case using Cons.IH assms same_frame_trans by blast
qed

lemma process_same_frame:
  assumes "process_ca_database lib now stamp rv force db = Ok (ch, db')"
  shows "same_frame db' db"
proof (cases "\<not> dirty db \<and> rv = None \<and> \<not> force")
  case True
  then have "db' = db" using assms by (simp add: process_ca_database_def)
  then show ?thesis by (simp add: same_frame_def)
next
  case False
  define db0 where "db0 = (clear_sets db)\<lparr> valid_cn_to_serial := valid_serials lib now rv
      (query_all_certs_including_deleted (clear_sets db)) \<rparr>"
  obtain d1 c1 d2 where certs: "each (classify_cert lib now stamp rv (valid_serials lib now rv
      (query_all_certs_including_deleted (clear_sets db)))) (query_all_certs_including_deleted (clear_sets db)) (db0, False) = Ok (d1, c1)"
    and exts: "each (classify_external lib now) (fetch_all_external_certs d1) (d1, c1) = Ok (d2, ch)"
    and db': "db' = d2\<lparr> dirty := False \<rparr>"
    using assms False by (auto simp: process_ca_database_def Let_def db0_def)
  have "same_frame d1 db0" by (rule each_same_frame [OF classify_same_frame certs])
  moreover have "same_frame d2 d1" by (rule each_same_frame [OF classify_external_same_frame exts])
  ultimately show ?thesis
    using db' by (simp add: same_frame_def db0_def clear_sets_def)
qed

section \<open>Properties\<close>

lemma scan_ran:
  assumes "certs_keyed db" "external_keyed db" "dirty db \<or> rv \<noteq> None \<or> force"
    and "process_ca_database lib now stamp rv force db = Ok (ch, db')"
  shows "scan_outcome lib now stamp rv db db'"
  using process_scan [OF assms(1-3), of lib now stamp] assms(4) by auto

text \<open>
  C5: the scan always succeeds on a database whose tables are keyed by serial, and what it does is a
  function of each row: it rewrites every certificate by the class of its own dates, changes nothing
  of a row but its status and revocation date, fills every status set exactly with the serials of its
  class, and reports a change exactly when a row of the two tables changed.
\<close>

theorem process_refines_row_classes:
  assumes "certs_keyed db" "external_keyed db" "dirty db \<or> rv \<noteq> None \<or> force"
  shows "\<exists>ch db'. process_ca_database lib now stamp rv force db = Ok (ch, db')
    \<and> scan_outcome lib now stamp rv db db'
    \<and> (ch \<longleftrightarrow> t_certs db' \<noteq> t_certs db \<or> t_external db' \<noteq> t_external db)
    \<and> certs_keyed db' \<and> external_keyed db'
    \<and> list_all2 (\<lambda>r r'. r'\<lparr> cr_status := cr_status r, cr_revocation_date := cr_revocation_date r \<rparr> = r)
        (t_certs db) (t_certs db')"
proof -
  obtain db' where run: "process_ca_database lib now stamp rv force db =
      Ok ((\<exists>c \<in> set (t_certs db). processed lib now stamp rv c \<noteq> c)
          \<or> (\<exists>x \<in> set (t_external db). ext_processed lib now x \<noteq> x), db')"
    and out: "scan_outcome lib now stamp rv db db'"
    using process_scan [OF assms] by blast
  have rows: "t_certs db' = map (processed lib now stamp rv) (t_certs db)"
    "t_external db' = map (ext_processed lib now) (t_external db)"
    using out by (simp_all add: scan_outcome_def Let_def)
  have "map f xs \<noteq> xs \<longleftrightarrow> (\<exists>x \<in> set xs. f x \<noteq> x)" for f :: "'z \<Rightarrow> 'z" and xs
    by (induction xs) auto
  then have "(\<exists>c \<in> set (t_certs db). processed lib now stamp rv c \<noteq> c) \<longleftrightarrow> t_certs db' \<noteq> t_certs db"
    "(\<exists>x \<in> set (t_external db). ext_processed lib now x \<noteq> x) \<longleftrightarrow> t_external db' \<noteq> t_external db"
    by (auto simp: rows map_idI)
  moreover have "certs_keyed db'" "external_keyed db'"
    using assms(1,2) by (simp_all add: certs_keyed_def external_keyed_def tbl_keyed_def rows comp_def)
  moreover have "list_all2 (\<lambda>r r'. r'\<lparr> cr_status := cr_status r, cr_revocation_date := cr_revocation_date r \<rparr> = r)
      (t_certs db) (t_certs db')"
    by (simp add: rows list_all2_conv_all_nth processed_only)
  ultimately show ?thesis using run out by blast
qed

lemma in_serials_where:
  assumes "certs_keyed db" "c \<in> set (t_certs db)"
  shows "cr_serial c \<in> serials_where P (t_certs db) \<longleftrightarrow> P c"
proof
  assume "cr_serial c \<in> serials_where P (t_certs db)"
  then obtain d where "d \<in> set (t_certs db)" "P d" "cr_serial d = cr_serial c" by (auto simp: serials_where_def)
  then show "P c" using assms by (auto simp: certs_keyed_def tbl_keyed_def distinct_map inj_on_def)
next
  assume "P c"
  then show "cr_serial c \<in> serials_where P (t_certs db)" using assms(2) by (auto simp: serials_where_def)
qed

lemmas scan_facts = scan_outcome_def Let_def

lemma scan_cert_at:
  assumes "certs_keyed db" "scan_outcome lib now stamp rv db db'"
  shows "cert_at db' s = map_option (processed lib now stamp rv) (cert_at db s)"
proof -
  have rows: "t_certs db' = map (processed lib now stamp rv) (t_certs db)"
    using assms(2) by (simp add: scan_facts)
  have "List.find (\<lambda>r. cr_serial r = s) (map (processed lib now stamp rv) rs)
      = map_option (processed lib now stamp rv) (List.find (\<lambda>r. cr_serial r = s) rs)" for rs
    by (induction rs) auto
  then show ?thesis by (simp add: cert_at_def tbl_lookup_def rows)
qed

text \<open>
  the status sets are a partition: every certificate with a readable expiry date is in exactly
  one of expired, superseded, revoked, expiring soon, the rest of the caution window, and valid; a
  certificate without one is in none of them.
\<close>

theorem status_sets_partition:
  assumes "certs_keyed db" "external_keyed db" "dirty db \<or> rv \<noteq> None \<or> force"
    and "process_ca_database lib now stamp rv force db = Ok (ch, db')" "c \<in> set (t_certs db)"
  shows "length (filter (\<lambda>b. b)
      [cr_serial c \<in> certs_expired db', cr_serial c \<in> certs_superseded db', cr_serial c \<in> certs_revoked db',
       cr_serial c \<in> certs_expires_soon db', cr_serial c \<in> certs_expires_warning db' - certs_expires_soon db',
       cr_serial c \<in> certs_valid db'])
    = (if readable_expiry lib (cr_expiry_date c) = None then 0 else 1)"
proof -
  have "class_of lib now rv c = NoExpiry \<longleftrightarrow> readable_expiry lib (cr_expiry_date c) = None"
    by (simp add: class_of_def split: option.split)
  then show ?thesis
    using scan_ran [OF assms(1-4)] in_serials_where [OF assms(1,5)]
    by (cases "class_of lib now rv c") (auto simp: scan_facts)
qed

text \<open>A small database for the examples: an expired certificate, its replacement, and a third one.\<close>

definition sample_db :: ca_db where
  "sample_db = (db_new empty_config)\<lparr> t_certs :=
     [(blank_cert ''1'')\<lparr> cr_cn := Some ''web'', cr_status := Some ''Valid'', cr_expiry_date := Some ''1000'' \<rparr>,
      (blank_cert ''2'')\<lparr> cr_cn := Some ''web'', cr_status := Some ''Valid'', cr_expiry_date := Some ''900000000'' \<rparr>,
      (blank_cert ''3'')\<lparr> cr_cn := Some ''vpn'', cr_status := Some ''Valid'', cr_expiry_date := Some ''900000000'',
         cr_deleted_at := Some ''900'' \<rparr>] \<rparr>"

definition sample_now :: int where "sample_now = 5000 * second_ns"

lemma sample_keyed: "certs_keyed sample_db" "external_keyed sample_db" "dirty sample_db"
  by (simp_all add: sample_db_def certs_keyed_def external_keyed_def tbl_keyed_def db_new_def blank_cert_def)

lemma sample_expiry:
  "readable_expiry seconds_chrono (Some ''1000'') = Some (1000 * second_ns)"
  "readable_expiry seconds_chrono (Some ''900000000'') = Some (900000000 * second_ns)"
proof -
  have "parse_i64 ''1000'' = Some 1000" "parse_i64 ''900000000'' = Some 900000000"
    by (simp_all add: parse_i64_def parse_digits_def digits_val_def digit_val_def is_ascii_digit_def byte_def i64_defs)
  then show "readable_expiry seconds_chrono (Some ''1000'') = Some (1000 * second_ns)"
    "readable_expiry seconds_chrono (Some ''900000000'') = Some (900000000 * second_ns)"
    by (simp_all add: readable_expiry_def parse_datetime_def seconds_chrono_def)
qed

lemma sample_run:
  "\<exists>ch db'. process_ca_database seconds_chrono sample_now ''5000'' rv force sample_db = Ok (ch, db')"
  using process_scan [OF sample_keyed(1,2), of rv force seconds_chrono sample_now "''5000''"] sample_keyed(3) by blast

theorem process_refines_row_classes_witness:
  "\<exists>ch db'. process_ca_database seconds_chrono sample_now ''5000'' None False sample_db = Ok (ch, db')
     \<and> scan_outcome seconds_chrono sample_now ''5000'' None sample_db db'"
  using process_refines_row_classes [OF sample_keyed(1,2), of None False seconds_chrono sample_now "''5000''"]
    sample_keyed(3) by blast

theorem status_sets_partition_witness:
  "\<exists>ch db'. process_ca_database seconds_chrono sample_now ''5000'' None False sample_db = Ok (ch, db')
     \<and> length (filter (\<lambda>b. b)
      [''1'' \<in> certs_expired db', ''1'' \<in> certs_superseded db', ''1'' \<in> certs_revoked db',
       ''1'' \<in> certs_expires_soon db', ''1'' \<in> certs_expires_warning db' - certs_expires_soon db', ''1'' \<in> certs_valid db']) = 1"
proof -
  let ?c = "(blank_cert ''1'')\<lparr> cr_cn := Some ''web'', cr_status := Some ''Valid'', cr_expiry_date := Some ''1000'' \<rparr>"
  obtain ch db' where run: "process_ca_database seconds_chrono sample_now ''5000'' None False sample_db = Ok (ch, db')"
    using sample_run by blast
  have "?c \<in> set (t_certs sample_db)" by (simp add: sample_db_def)
  from status_sets_partition [OF sample_keyed(1,2) _ run this] run show ?thesis
    using sample_keyed(3) sample_expiry(1) by (simp add: blank_cert_def)
qed

text \<open>
  revoking works on a live certificate: when its expiry is readable and has not passed, the scan
  asked to revoke it stores the status \<^verbatim>\<open>Revoked\<close>, stamps a certificate that was not revoked before
  with the time of the call, lists it among the revoked and never offers it as a replacement.
\<close>

theorem revoke_takes_effect:
  assumes "certs_keyed db" "external_keyed db"
    and "process_ca_database lib now stamp (Some (cr_serial r)) force db = Ok (ch, db')"
    and "r \<in> set (t_certs db)" "readable_expiry lib (cr_expiry_date r) = Some e" "now \<le> e"
  shows "\<exists>r'. cert_at db' (cr_serial r) = Some r' \<and> cr_status r' = Some ''Revoked''
    \<and> (\<not> marked_revoked r \<longrightarrow> cr_revocation_date r' = Some stamp \<and> ch)
    \<and> (marked_revoked r \<longrightarrow> cr_revocation_date r' = cr_revocation_date r)
    \<and> cr_serial r \<in> certs_revoked db' \<and> (\<forall>cn. valid_cn_to_serial db' cn \<noteq> Some (cr_serial r))"
proof -
  let ?rv = "Some (cr_serial r)"
  have out: "scan_outcome lib now stamp ?rv db db'" using scan_ran [OF assms(1,2) _ assms(3)] by simp
  have cls: "class_of lib now ?rv r = IsRevoked" using assms(5,6) by (simp add: class_of_def)
  have at: "cert_at db' (cr_serial r) = Some (processed lib now stamp ?rv r)"
    using scan_cert_at [OF assms(1) out] tbl_lookup_self [of cr_serial "t_certs db" r] assms(1,4)
    by (simp add: cert_at_def certs_keyed_def)
  have "cr_serial r \<in> certs_revoked db'"
    using out in_serials_where [OF assms(1,4)] cls by (simp add: scan_facts)
  moreover have "valid_cn_to_serial db' cn \<noteq> Some (cr_serial r)" for cn
  proof
    assume "valid_cn_to_serial db' cn = Some (cr_serial r)"
    then have "current_serials lib now ?rv db cn = Some (cr_serial r)" using out by (simp add: scan_facts)
    then obtain c where "candidate lib now ?rv c" "cr_serial c = cr_serial r"
      unfolding current_serials_def using valid_serials_sound by blast
    then show False by (simp add: candidate_def)
  qed
  moreover have "ch" if "\<not> marked_revoked r"
  proof -
    have "processed lib now stamp ?rv r \<noteq> r" using that cls marked_status by (auto simp: processed_same)
    then show ?thesis using process_scan [OF assms(1,2), of ?rv force lib now stamp] assms(3,4) by auto
  qed
  ultimately show ?thesis using at cls by (simp add: processed_def)
qed

theorem revoke_takes_effect_witness:
  "\<exists>ch db'. process_ca_database seconds_chrono sample_now ''5000'' (Some ''3'') False sample_db = Ok (ch, db')
     \<and> ''3'' \<in> certs_revoked db'"
proof -
  let ?c = "(blank_cert ''3'')\<lparr> cr_cn := Some ''vpn'', cr_status := Some ''Valid'', cr_expiry_date := Some ''900000000'',
         cr_deleted_at := Some ''900'' \<rparr>"
  obtain ch db' where run: "process_ca_database seconds_chrono sample_now ''5000'' (Some ''3'') False sample_db = Ok (ch, db')"
    using sample_run by blast
  have "?c \<in> set (t_certs sample_db)" by (simp add: sample_db_def)
  then show ?thesis
    using revoke_takes_effect [OF sample_keyed(1,2), of seconds_chrono sample_now "''5000''" ?c False ch db' "900000000 * second_ns"]
      run sample_expiry by (auto simp: blank_cert_def sample_now_def second_ns_def)
qed

text \<open>
  revoking an expired certificate, or one without a readable expiry date, has no effect: it is
  not listed as revoked and its revocation date stays as it was.
\<close>

theorem revoke_expired_no_effect:
  assumes "certs_keyed db" "external_keyed db"
    and "process_ca_database lib now stamp (Some (cr_serial r)) force db = Ok (ch, db')"
    and "r \<in> set (t_certs db)" "\<forall>e. readable_expiry lib (cr_expiry_date r) = Some e \<longrightarrow> e < now"
  shows "cr_serial r \<notin> certs_revoked db'
    \<and> map_option cr_revocation_date (cert_at db' (cr_serial r)) = Some (cr_revocation_date r)"
proof -
  let ?rv = "Some (cr_serial r)"
  have out: "scan_outcome lib now stamp ?rv db db'" using scan_ran [OF assms(1,2) _ assms(3)] by simp
  have cls: "class_of lib now ?rv r \<noteq> IsRevoked" using assms(5) by (auto simp: class_of_def split: option.split)
  then have "cr_serial r \<notin> certs_revoked db'"
    using out in_serials_where [OF assms(1,4)] by (simp add: scan_facts)
  moreover have "cr_revocation_date (processed lib now stamp ?rv r) = cr_revocation_date r"
    using cls by (simp add: processed_def split: cert_class.split)
  ultimately show ?thesis
    using scan_cert_at [OF assms(1) out] tbl_lookup_self [of cr_serial "t_certs db" r] assms(1,4)
    by (simp add: cert_at_def certs_keyed_def)
qed

theorem revoke_expired_no_effect_witness:
  "\<exists>ch db'. process_ca_database seconds_chrono sample_now ''5000'' (Some ''1'') False sample_db = Ok (ch, db')
     \<and> ''1'' \<notin> certs_revoked db'"
proof -
  let ?c = "(blank_cert ''1'')\<lparr> cr_cn := Some ''web'', cr_status := Some ''Valid'', cr_expiry_date := Some ''1000'' \<rparr>"
  obtain ch db' where run: "process_ca_database seconds_chrono sample_now ''5000'' (Some ''1'') False sample_db = Ok (ch, db')"
    using sample_run by blast
  have "?c \<in> set (t_certs sample_db)" by (simp add: sample_db_def)
  then show ?thesis
    using revoke_expired_no_effect [OF sample_keyed(1,2), of seconds_chrono sample_now "''5000''" ?c False ch db']
      run sample_expiry by (auto simp: blank_cert_def sample_now_def second_ns_def)
qed

text \<open>A hash set is iterated in some order that lists each element once.\<close>

definition enumerates :: "(string set \<Rightarrow> string list) \<Rightarrow> bool" where
  "enumerates order \<longleftrightarrow> (\<forall>S. finite S \<longrightarrow> set (order S) = S \<and> distinct (order S))"

lemma enumerates_sorted: "enumerates sorted_list_of_set"
  by (simp add: enumerates_def)

lemma serials_where_map:
  assumes "\<And>c. cr_serial (f c) = cr_serial c"
  shows "serials_where Q (map f cs) = serials_where (\<lambda>c. Q (f c)) cs"
  by (induction cs) (simp_all add: serials_where_Cons assms, simp add: serials_where_def)

lemma set_map_filter: "set (List.map_filter f xs) = {y. \<exists>x \<in> set xs. f x = Some y}"
  by (force simp: List.map_filter_def)

lemma distinct_map_filter_key:
  "distinct xs \<Longrightarrow> (\<And>x y. f x = Some y \<Longrightarrow> g y = x) \<Longrightarrow> distinct (map g (List.map_filter f xs))"
proof (induction xs)
  case Nil
  then show ?case by (simp add: List.map_filter_def)
next
  case (Cons x xs)
  then show ?case
    by (cases "f x") (auto simp: map_filter_simps set_map_filter)
qed

text \<open>
  C6: after a scan the CRL lists exactly the certificates that are unexpired and carry a revocation
  date, deleted ones included, each once and under its own date.
\<close>

theorem crl_lists_revoked_exactly:
  assumes "certs_keyed db" "external_keyed db" "dirty db \<or> rv \<noteq> None \<or> force" "stamp \<noteq> []"
    and "process_ca_database lib now stamp rv force db = Ok (ch, db')" "enumerates order"
  shows "distinct (map ce_serial (crl_entries order db'))
    \<and> set (crl_entries order db') =
        {\<lparr> ce_serial = cr_serial r, ce_revocation_date = d \<rparr> | r d e. r \<in> set (t_certs db')
           \<and> cr_revocation_date r = Some d \<and> d \<noteq> [] \<and> readable_expiry lib (cr_expiry_date r) = Some e \<and> now \<le> e}"
proof -
  have out: "scan_outcome lib now stamp rv db db'" by (rule scan_ran [OF assms(1-3,5)])
  have rows: "t_certs db' = map (processed lib now stamp rv) (t_certs db)"
    and revoked: "certs_revoked db' = serials_where (\<lambda>c. class_of lib now rv c = IsRevoked) (t_certs db)"
    using out by (simp_all add: scan_facts)
  have keyed: "certs_keyed db'"
    using assms(1) by (simp add: certs_keyed_def tbl_keyed_def rows comp_def)
  have revoked': "certs_revoked db' = serials_where (\<lambda>r. class_of lib now None r = IsRevoked) (t_certs db')"
    by (simp add: revoked rows serials_where_map class_processed [OF assms(4)])
  have fin: "finite (certs_revoked db')" by (simp add: revoked serials_where_def)
  have cls: "class_of lib now None r = IsRevoked \<longleftrightarrow>
      marked_revoked r \<and> (\<exists>e. readable_expiry lib (cr_expiry_date r) = Some e \<and> now \<le> e)" for r
    by (auto simp: class_of_def split: option.splits)
  have mark: "marked_revoked r" if "cr_revocation_date r = Some d" "d \<noteq> []" for r d
    using that by (simp add: marked_revoked_def)
  have at: "cert_at db' (cr_serial r) = Some r" if "r \<in> set (t_certs db')" for r
    using keyed that by (simp add: certs_keyed_def cert_at_def tbl_lookup_self)
  have "distinct (map ce_serial (crl_entries order db'))"
    unfolding crl_entries_def using assms(6) fin
    by (intro distinct_map_filter_key) (auto simp: enumerates_def split: option.splits if_splits)
  moreover have "en \<in> set (crl_entries order db') \<longleftrightarrow>
      (\<exists>r d e. en = \<lparr> ce_serial = cr_serial r, ce_revocation_date = d \<rparr> \<and> r \<in> set (t_certs db')
        \<and> cr_revocation_date r = Some d \<and> d \<noteq> [] \<and> readable_expiry lib (cr_expiry_date r) = Some e \<and> now \<le> e)" for en
  proof -
    have "en \<in> set (crl_entries order db') \<longleftrightarrow> (\<exists>s \<in> certs_revoked db'. \<exists>d. d \<noteq> []
        \<and> Option.bind (cert_at db' s) cr_revocation_date = Some d \<and> en = \<lparr> ce_serial = s, ce_revocation_date = d \<rparr>)"
      using assms(6) fin by (auto simp: crl_entries_def set_map_filter query_by_serial enumerates_def
          split: option.splits if_splits)
    also have "\<dots> \<longleftrightarrow> (\<exists>r \<in> set (t_certs db'). class_of lib now None r = IsRevoked \<and> (\<exists>d. d \<noteq> []
        \<and> cr_revocation_date r = Some d \<and> en = \<lparr> ce_serial = cr_serial r, ce_revocation_date = d \<rparr>))"
      unfolding revoked' serials_where_def using at by auto
    also have "\<dots> \<longleftrightarrow> (\<exists>r d e. en = \<lparr> ce_serial = cr_serial r, ce_revocation_date = d \<rparr> \<and> r \<in> set (t_certs db')
        \<and> cr_revocation_date r = Some d \<and> d \<noteq> [] \<and> readable_expiry lib (cr_expiry_date r) = Some e \<and> now \<le> e)"
      unfolding cls using mark by blast
    finally show ?thesis .
  qed
  ultimately show ?thesis by blast
qed

theorem crl_lists_revoked_exactly_witness:
  "\<exists>ch db'. process_ca_database seconds_chrono sample_now ''5000'' (Some ''3'') False sample_db = Ok (ch, db')
     \<and> distinct (map ce_serial (crl_entries sorted_list_of_set db'))"
proof -
  obtain ch db' where run: "process_ca_database seconds_chrono sample_now ''5000'' (Some ''3'') False sample_db = Ok (ch, db')"
    using sample_run by blast
  then show ?thesis
    using crl_lists_revoked_exactly [OF sample_keyed(1,2) _ _ run enumerates_sorted] by auto
qed

text \<open>
  C34: a replacement is real and the best one: the serial the scan gives as current for a common name
  belongs to a certificate of that name that is unexpired, unrevoked, not ignored and not the one
  being revoked, and among all such certificates it has the highest number; an expired certificate
  counts as superseded exactly when its name has such a certificate, and is then mapped to it.
\<close>

theorem replacement_is_current:
  assumes "certs_keyed db" "external_keyed db" "dirty db \<or> rv \<noteq> None \<or> force"
    and "process_ca_database lib now stamp rv force db = Ok (ch, db')"
    and "\<forall>c \<in> set (t_certs db). numbered c"
  shows "(\<forall>cn. case valid_cn_to_serial db' cn of
        Some s \<Rightarrow> (\<exists>c \<in> set (t_certs db). candidate lib now rv c \<and> cr_cn c = Some cn \<and> cr_serial c = s
           \<and> (\<forall>d \<in> set (t_certs db). candidate lib now rv d \<and> cr_cn d = Some cn
                \<longrightarrow> serial_num (cr_serial d) \<le> serial_num s))
      | None \<Rightarrow> \<not> (\<exists>c \<in> set (t_certs db). candidate lib now rv c \<and> cr_cn c = Some cn))
    \<and> (\<forall>c \<in> set (t_certs db). class_of lib now rv c = IsExpired \<longrightarrow>
        replacements db' (cr_serial c) = Option.bind (cr_cn c) (valid_cn_to_serial db'))"
proof
  have out: "scan_outcome lib now stamp rv db db'" by (rule scan_ran [OF assms(1-4)])
  have cur: "current_serials lib now rv db = valid_cn_to_serial db'" using out by (simp add: scan_facts)
  define certs where "certs = select_certs (\<lambda>r. True) db"
  have vc: "valid_cn_to_serial db' = valid_serials lib now rv certs"
    using out by (simp add: scan_facts current_serials_def query_all_certs_including_deleted_def certs_def)
  have rs: "set certs = set (t_certs db)" by (simp add: certs_def)
  have max: "\<exists>s. valid_serials lib now rv certs cn = Some s \<and> serial_num (cr_serial d) \<le> serial_num s"
    if "d \<in> set (t_certs db)" "candidate lib now rv d" "cr_cn d = Some cn" for d cn
    using valid_serials_max [of certs lib now rv d cn] that assms(5) by (simp add: rs)
  show "\<forall>cn. case valid_cn_to_serial db' cn of
        Some s \<Rightarrow> (\<exists>c \<in> set (t_certs db). candidate lib now rv c \<and> cr_cn c = Some cn \<and> cr_serial c = s
           \<and> (\<forall>d \<in> set (t_certs db). candidate lib now rv d \<and> cr_cn d = Some cn
                \<longrightarrow> serial_num (cr_serial d) \<le> serial_num s))
      | None \<Rightarrow> \<not> (\<exists>c \<in> set (t_certs db). candidate lib now rv c \<and> cr_cn c = Some cn)"
  proof
    fix cn
    show "case valid_cn_to_serial db' cn of
        Some s \<Rightarrow> (\<exists>c \<in> set (t_certs db). candidate lib now rv c \<and> cr_cn c = Some cn \<and> cr_serial c = s
           \<and> (\<forall>d \<in> set (t_certs db). candidate lib now rv d \<and> cr_cn d = Some cn
                \<longrightarrow> serial_num (cr_serial d) \<le> serial_num s))
      | None \<Rightarrow> \<not> (\<exists>c \<in> set (t_certs db). candidate lib now rv c \<and> cr_cn c = Some cn)"
    proof (cases "valid_cn_to_serial db' cn")
      case None
      then show ?thesis using max [of _ cn] by (auto simp: vc)
    next
      case (Some s)
      then obtain c where "c \<in> set (t_certs db)" "candidate lib now rv c" "cr_cn c = Some cn" "cr_serial c = s"
        using valid_serials_sound [of lib now rv certs cn s] by (auto simp: vc rs)
      then show ?thesis using Some max [of _ cn] by (auto simp: vc)
    qed
  qed
  show "\<forall>c \<in> set (t_certs db). class_of lib now rv c = IsExpired \<longrightarrow>
      replacements db' (cr_serial c) = Option.bind (cr_cn c) (valid_cn_to_serial db')"
  proof (intro ballI impI)
    fix c assume c: "c \<in> set (t_certs db)" "class_of lib now rv c = IsExpired"
    have repl: "replacements db' s = Some t \<longleftrightarrow> (\<exists>c \<in> set (t_certs db). cr_serial c = s
        \<and> class_of lib now rv c = IsExpired \<and> Option.bind (cr_cn c) (valid_cn_to_serial db') = Some t)" for s t
      using out unfolding scan_facts cur by blast
    have "replacements db' (cr_serial c) = Some t \<longleftrightarrow> Option.bind (cr_cn c) (valid_cn_to_serial db') = Some t" for t
      using c assms(1) unfolding repl by (auto simp: certs_keyed_def tbl_keyed_def distinct_map inj_on_def)
    then show "replacements db' (cr_serial c) = Option.bind (cr_cn c) (valid_cn_to_serial db')"
      by (metis not_None_eq)
  qed
qed

lemma sample_numbered: "\<forall>c \<in> set (t_certs sample_db). numbered c"
proof -
  have "parse_i64 ''1'' = Some 1" "parse_i64 ''2'' = Some 2" "parse_i64 ''3'' = Some 3"
    by (simp_all add: parse_i64_def parse_digits_def digits_val_def digit_val_def is_ascii_digit_def byte_def i64_defs)
  then show ?thesis by (simp add: sample_db_def numbered_def blank_cert_def)
qed

theorem replacement_is_current_witness:
  "\<exists>ch db'. process_ca_database seconds_chrono sample_now ''5000'' None False sample_db = Ok (ch, db')
     \<and> replacements db' ''1'' = Option.bind (Some ''web'') (valid_cn_to_serial db')"
proof -
  obtain ch db' where run: "process_ca_database seconds_chrono sample_now ''5000'' None False sample_db = Ok (ch, db')"
    using sample_run by blast
  let ?c = "(blank_cert ''1'')\<lparr> cr_cn := Some ''web'', cr_status := Some ''Valid'', cr_expiry_date := Some ''1000'' \<rparr>"
  have c: "?c \<in> set (t_certs sample_db)" by (simp add: sample_db_def)
  have "class_of seconds_chrono sample_now None ?c = IsExpired"
    by (simp add: class_of_def sample_expiry sample_now_def second_ns_def)
  moreover have "dirty sample_db \<or> None \<noteq> None \<or> False" using sample_keyed(3) by simp
  ultimately have "replacements db' (cr_serial ?c) = Option.bind (cr_cn ?c) (valid_cn_to_serial db')"
    using replacement_is_current [OF sample_keyed(1,2) _ run sample_numbered] c by blast
  then show ?thesis using run by (simp add: blank_cert_def)
qed

lemma sort_key_map: "(\<And>x. k (f x) = k x) \<Longrightarrow> sort_key k (map f xs) = map f (sort_key k xs)"
proof (induction xs)
  case Nil
  show ?case by simp
next
  case (Cons x xs)
  have "insort_key k (f x) (map f ys) = map f (insort_key k x ys)" for ys
    using Cons.prems by (induction ys) auto
  with Cons show ?case by simp
qed

lemma candidate_processed:
  assumes "stamp \<noteq> []"
  shows "candidate lib now None (processed lib now stamp rv c) \<longleftrightarrow> candidate lib now rv c"
proof (cases "class_of lib now rv c")
  case IsRevoked
  have "marked_revoked (processed lib now stamp rv c)" by (simp add: processed_def IsRevoked marked_revoked_def)
  moreover have "\<not> candidate lib now rv c"
    using IsRevoked by (auto simp: candidate_def class_of_def split: option.splits if_splits)
  ultimately show ?thesis by (simp add: candidate_def)
next
  case IsExpired
  then show ?thesis by (auto simp: candidate_def class_of_def split: option.splits if_splits)
qed (auto simp: processed_def candidate_def class_of_def split: option.splits if_splits)

lemma current_serials_processed:
  assumes "stamp \<noteq> []" "t_certs db' = map (processed lib now stamp rv) (t_certs db)"
  shows "current_serials lib now None db' = current_serials lib now rv db"
proof -
  let ?f = "processed lib now stamp rv"
  have noted: "note_valid lib now None m (?f c) = note_valid lib now rv m c" for m c
    by (simp add: note_valid_def candidate_processed [OF assms(1)] Let_def)
  have "foldl (note_valid lib now None) m (map ?f cs) = foldl (note_valid lib now rv) m cs" for m cs
    by (induction cs arbitrary: m) (simp_all add: noted)
  moreover have "select_certs (\<lambda>r. True) db' = map ?f (select_certs (\<lambda>r. True) db)"
    by (simp add: select_certs_def assms(2) sort_key_map)
  ultimately show ?thesis
    by (simp add: current_serials_def query_all_certs_including_deleted_def valid_serials_def)
qed

lemma processed_idem:
  assumes "stamp \<noteq> []"
  shows "processed lib now stamp2 None (processed lib now stamp rv c) = processed lib now stamp rv c"
  unfolding processed_same class_processed [OF assms]
  by (simp add: processed_def)

lemma ext_class_processed: "ext_class_of lib now (ext_processed lib now x) = ext_class_of lib now x"
  by (simp add: ext_processed_def ext_class_of_def)

lemma ext_serials_where_map:
  assumes "\<And>x. xr_serial (f x) = xr_serial x"
  shows "ext_serials_where Q (map f xs) = ext_serials_where (\<lambda>x. Q (f x)) xs"
  by (induction xs) (simp_all add: ext_serials_where_Cons assms, simp add: ext_serials_where_def)

text \<open>
  the scan is idempotent: scanning again at the same instant, with nothing to revoke, reports no
  change and leaves the whole database, status sets included, as it was.
\<close>

theorem process_idempotent:
  assumes "certs_keyed db" "external_keyed db" "dirty db \<or> rv \<noteq> None \<or> force" "stamp \<noteq> []"
    and "process_ca_database lib now stamp rv force db = Ok (ch, db')"
  shows "process_ca_database lib now stamp2 None True db' = Ok (False, db')"
proof -
  let ?f = "processed lib now stamp rv" and ?g = "ext_processed lib now"
  have out: "scan_outcome lib now stamp rv db db'" by (rule scan_ran [OF assms(1-3,5)])
  have rows: "t_certs db' = map ?f (t_certs db)" "t_external db' = map ?g (t_external db)"
    using out by (simp_all add: scan_facts)
  have keyed: "certs_keyed db'" "external_keyed db'"
    using assms(1,2) by (simp_all add: certs_keyed_def external_keyed_def tbl_keyed_def rows comp_def)
  obtain db'' where run: "process_ca_database lib now stamp2 None True db' =
      Ok ((\<exists>c \<in> set (t_certs db'). processed lib now stamp2 None c \<noteq> c)
          \<or> (\<exists>x \<in> set (t_external db'). ?g x \<noteq> x), db'')"
    and out2: "scan_outcome lib now stamp2 None db' db''"
    using process_scan [OF keyed, of None True lib now stamp2] by blast
  have same: "map (processed lib now stamp2 None) (t_certs db') = t_certs db'" "map ?g (t_external db') = t_external db'"
    by (simp_all add: rows processed_idem [OF assms(4)] ext_processed_def ext_class_of_def)
  have frame: "same_frame db'' db'" by (rule process_same_frame [OF run])
  note moved = serials_where_map ext_serials_where_map class_processed [OF assms(4)] ext_class_processed
    current_serials_processed [OF assms(4) rows(1)]
  have cs: "certs_expired db'' = certs_expired db'" "certs_superseded db'' = certs_superseded db'"
    "certs_revoked db'' = certs_revoked db'" "certs_expires_soon db'' = certs_expires_soon db'"
    "certs_expires_warning db'' = certs_expires_warning db'" "certs_valid db'' = certs_valid db'"
    "certs_ignored db'' = certs_ignored db'" "valid_cn_to_serial db'' = valid_cn_to_serial db'"
    "ext_certs_expired db'' = ext_certs_expired db'" "ext_certs_expires_soon db'' = ext_certs_expires_soon db'"
    "ext_certs_expires_warning db'' = ext_certs_expires_warning db'" "ext_certs_valid db'' = ext_certs_valid db'"
    "dirty db'' = dirty db'" "t_certs db'' = t_certs db'" "t_external db'' = t_external db'"
    using out out2 same by (simp_all add: scan_facts rows(1,2) moved del: map_map)
  have "replacements db'' s = Some t \<longleftrightarrow> replacements db' s = Some t" for s t
    using out out2 by (simp add: scan_facts rows moved)
  then have "replacements db'' = replacements db'" by (metis ext not_None_eq)
  then have "db'' = db'" using cs frame by (simp add: same_frame_def)
  moreover have "\<forall>c \<in> set (t_certs db'). processed lib now stamp2 None c = c" "\<forall>x \<in> set (t_external db'). ?g x = x"
    using same by (metis map_eq_conv map_ident)+
  ultimately show ?thesis using run by simp
qed

theorem process_idempotent_witness:
  "\<exists>ch db'. process_ca_database seconds_chrono sample_now ''5000'' (Some ''3'') False sample_db = Ok (ch, db')
     \<and> process_ca_database seconds_chrono sample_now ''5001'' None True db' = Ok (False, db')"
proof -
  obtain ch db' where run: "process_ca_database seconds_chrono sample_now ''5000'' (Some ''3'') False sample_db = Ok (ch, db')"
    using sample_run by blast
  then show ?thesis
    using process_idempotent [OF sample_keyed(1,2) _ _ run] by auto
qed

text \<open>
  the status of a generated profile pinned to a certificate of the table, in the order the code
  promises: revoked if the certificate is revoked; else to be regenerated against the current
  certificate of its name when that is another one; else, with no current certificate for the name,
  expired, expiring soon or current by the certificate's own dates. A profile of an expired
  certificate is never reported current.
\<close>

theorem vpn_status_precedence:
  assumes "certs_keyed db" "external_keyed db" "dirty db \<or> rv \<noteq> None \<or> force"
    and "process_ca_database lib now stamp rv force db = Ok (ch, db')"
    and "c \<in> set (t_certs db)" "cr_cn c = Some cn" "cr_serial c \<noteq> []"
  shows "derive_vpn_profile_status db' (Some (cr_serial c)) cn True =
    (if class_of lib now rv c = IsRevoked then (RevokedProfile, None)
     else case valid_cn_to_serial db' cn of
       Some cur \<Rightarrow>
         if cur \<noteq> cr_serial c then (NeedsRegen, Some cur)
         else if class_of lib now rv c = IsSoon then (ExpiringSoon, None) else (Current, None)
     | None \<Rightarrow>
         if class_of lib now rv c = IsExpired then (ExpiredProfile, None)
         else if class_of lib now rv c = IsSoon then (ExpiringSoon, None) else (Current, None))"
proof -
  have out: "scan_outcome lib now stamp rv db db'" by (rule scan_ran [OF assms(1-4)])
  have cur: "current_serials lib now rv db = valid_cn_to_serial db'" using out by (simp add: scan_facts)
  note mem = in_serials_where [OF assms(1,5)]
  have sets: "cr_serial c \<in> certs_revoked db' \<longleftrightarrow> class_of lib now rv c = IsRevoked"
    "cr_serial c \<in> certs_expires_soon db' \<longleftrightarrow> class_of lib now rv c = IsSoon"
    "cr_serial c \<in> certs_expired db' \<longleftrightarrow> class_of lib now rv c = IsExpired \<and> valid_cn_to_serial db' cn = None"
    using out assms(6) by (simp_all add: scan_facts mem cur)
  have repl: "replacements db' (cr_serial c) = Some t \<longleftrightarrow> class_of lib now rv c = IsExpired \<and> valid_cn_to_serial db' cn = Some t" for t
  proof -
    have "replacements db' (cr_serial c) = Some t \<longleftrightarrow> (\<exists>d \<in> set (t_certs db). cr_serial d = cr_serial c
        \<and> class_of lib now rv d = IsExpired \<and> Option.bind (cr_cn d) (valid_cn_to_serial db') = Some t)"
      using out unfolding scan_facts cur by blast
    also have "\<dots> \<longleftrightarrow> class_of lib now rv c = IsExpired \<and> valid_cn_to_serial db' cn = Some t"
      using assms(1,5,6) by (auto simp: certs_keyed_def tbl_keyed_def distinct_map inj_on_def)
    finally show ?thesis .
  qed
  have live: "class_of lib now rv c \<noteq> IsExpired" if cnc: "valid_cn_to_serial db' cn = Some (cr_serial c)"
  proof -
    obtain d where "d \<in> set (t_certs db)" "candidate lib now rv d" "cr_serial d = cr_serial c"
      using valid_serials_sound [of lib now rv "query_all_certs_including_deleted db" cn "cr_serial c"] cnc cur
      by (auto simp: current_serials_def query_all_certs_including_deleted_def)
    then have "d = c" using assms(1,5) by (auto simp: certs_keyed_def tbl_keyed_def distinct_map inj_on_def)
    with \<open>candidate lib now rv d\<close> show ?thesis
      by (auto simp: candidate_def class_of_def split: option.splits if_splits)
  qed
  show ?thesis
    using assms(7) sets repl live
    by (cases "valid_cn_to_serial db' cn"; cases "replacements db' (cr_serial c)")
       (auto simp: derive_vpn_profile_status_def Let_def)
qed

theorem vpn_status_precedence_witness:
  "\<exists>ch db'. process_ca_database seconds_chrono sample_now ''5000'' (Some ''3'') False sample_db = Ok (ch, db')
     \<and> derive_vpn_profile_status db' (Some ''3'') ''vpn'' True = (RevokedProfile, None)"
proof -
  let ?c = "(blank_cert ''3'')\<lparr> cr_cn := Some ''vpn'', cr_status := Some ''Valid'', cr_expiry_date := Some ''900000000'',
         cr_deleted_at := Some ''900'' \<rparr>"
  obtain ch db' where run: "process_ca_database seconds_chrono sample_now ''5000'' (Some ''3'') False sample_db = Ok (ch, db')"
    using sample_run by blast
  have c: "?c \<in> set (t_certs sample_db)" by (simp add: sample_db_def)
  have cls: "class_of seconds_chrono sample_now (Some ''3'') ?c = IsRevoked"
    by (simp add: class_of_def sample_expiry sample_now_def second_ns_def blank_cert_def)
  show ?thesis
    using vpn_status_precedence [OF sample_keyed(1,2) _ run c] cls run by (simp add: blank_cert_def)
qed

text \<open>
  the single-certificate test for the detail page agrees with the scan: for a certificate that is
  not revoked and has a non-blank expiry text, it says \<^emph>\<open>expiring soon\<close> exactly when the scan at the
  same instant puts it among the certificates that expire soon.
\<close>

theorem is_expiring_soon_agrees:
  assumes "certs_keyed db" "external_keyed db" "dirty db \<or> rv \<noteq> None \<or> force"
    and "process_ca_database lib now stamp rv force db = Ok (ch, db')"
    and "c \<in> set (t_certs db)" "\<not> marked_revoked c" "rv \<noteq> Some (cr_serial c)"
    and "cr_expiry_date c = Some s" "s \<noteq> []"
  shows "is_expiring_soon lib now s \<longleftrightarrow> cr_serial c \<in> certs_expires_soon db'"
proof -
  have "cr_serial c \<in> certs_expires_soon db' \<longleftrightarrow> class_of lib now rv c = IsSoon"
    using scan_ran [OF assms(1-4)] in_serials_where [OF assms(1,5)] by (simp add: scan_facts)
  then show ?thesis
    using assms(6-9) by (auto simp: class_of_def is_expiring_soon_def readable_expiry_def split: option.splits)
qed

theorem is_expiring_soon_agrees_witness:
  "\<exists>ch db'. process_ca_database seconds_chrono sample_now ''5000'' None False sample_db = Ok (ch, db')
     \<and> (is_expiring_soon seconds_chrono sample_now ''900000000'' \<longleftrightarrow> ''2'' \<in> certs_expires_soon db')"
proof -
  let ?c = "(blank_cert ''2'')\<lparr> cr_cn := Some ''web'', cr_status := Some ''Valid'', cr_expiry_date := Some ''900000000'' \<rparr>"
  obtain ch db' where run: "process_ca_database seconds_chrono sample_now ''5000'' None False sample_db = Ok (ch, db')"
    using sample_run by blast
  have c: "?c \<in> set (t_certs sample_db)" by (simp add: sample_db_def)
  show ?thesis
    using is_expiring_soon_agrees [OF sample_keyed(1,2) _ run c, of "''900000000''"] sample_keyed(3) run
    by (simp add: blank_cert_def marked_revoked_def)
qed

end
