(* ===== verification/Permitted_Domains.thy ===== *)
theory Permitted_Domains
  imports San "HOL-Library.List_Lexorder" "HOL-Library.Char_ord" "HOL-Library.Multiset"
begin

text \<open>
  The domains a subordinate CA may issue for, from the head of
  \<^verbatim>\<open>crates/opca-core/src/services/ca/subordinate.rs\<close>: their normalisation, the test that a name
  lies within them, the check of a signing request against them, and the name constraints
  written into the certificate.
\<close>

definition refuse_domain :: "string \<Rightarrow> string \<Rightarrow> 'a res" where
  "refuse_domain raw why = Err (InvalidCertificate (''Permitted domain '' @ quote raw @ '': '' @ why))"

text \<open>The loop body for one domain: the normalised text or the refusal.\<close>

definition permitted_domain :: "string \<Rightarrow> string res" where
  "permitted_domain raw =
     (let domain = to_ascii_lowercase (trim raw) in
      if parse_ip domain \<noteq> None then refuse_domain raw ''an IP address, not a domain''
      else if CHR ''*'' \<in> set domain
      then refuse_domain raw ''a wildcard; the domain already covers every name below it''
      else if \<not> is_dns_name domain False then refuse_domain raw ''not a valid DNS name''
      else Ok domain)"

fun permitted_domains_loop :: "string list \<Rightarrow> string list \<Rightarrow> string list res" where
  "permitted_domains_loop [] out = Ok out"
| "permitted_domains_loop (raw # rest) out =
     rbind (permitted_domain raw) (\<lambda>domain.
       permitted_domains_loop rest (if domain \<in> set out then out else out @ [domain]))"

definition permitted_domains :: "string list \<Rightarrow> string list res" where
  "permitted_domains domains =
     rbind (permitted_domains_loop domains []) (\<lambda>out.
       if out = []
       then Err (InvalidCertificate ''A subordinate CA needs at least one permitted domain'')
       else Ok out)"

definition same_domains :: "string list \<Rightarrow> string list \<Rightarrow> bool" where
  "same_domains a b \<longleftrightarrow> sort a = sort b"

definition within :: "string list \<Rightarrow> string \<Rightarrow> bool" where
  "within domains name =
     (let name = to_ascii_lowercase name
      in list_ex (\<lambda>d. name = d \<or> ends_with (''.'' @ d) name) domains)"

text \<open>What the CSR parser tells of a request: its names and its common name.\<close>

record csr_view =
  csr_names :: "subject_alt_name list"
  csr_common_name :: "string option"

definition outside_domains :: "string list \<Rightarrow> string \<Rightarrow> unit res" where
  "outside_domains domains name =
     Err (InvalidCertificate (''The CSR names '' @ name @ '', outside the permitted domains ''
            @ join '', '' domains))"

fun check_csr_names :: "string list \<Rightarrow> subject_alt_name list \<Rightarrow> unit res" where
  "check_csr_names domains [] = Ok ()"
| "check_csr_names domains (n # ns) =
     (case n of
        Dns host \<Rightarrow> if within domains host then check_csr_names domains ns
                    else outside_domains domains (display_san n)
      | _ \<Rightarrow> outside_domains domains (display_san n))"

definition host_like :: "string \<Rightarrow> bool" where
  "host_like cn \<longleftrightarrow> parse_ip cn \<noteq> None \<or> (CHR ''.'' \<in> set cn \<and> is_dns_name cn True)"

definition check_requested_names :: "csr_view \<Rightarrow> string list \<Rightarrow> unit res" where
  "check_requested_names csr domains =
     rbind (check_csr_names domains (csr_names csr)) (\<lambda>_.
       (case csr_common_name csr of
          Some cn \<Rightarrow> if host_like cn \<and> \<not> within domains cn then outside_domains domains cn else Ok ()
        | None \<Rightarrow> Ok ()))"

datatype name_subtree = DnsTree string | IpTree ip_addr nat

record name_constraints =
  nc_permitted :: "name_subtree list"
  nc_excluded :: "name_subtree list"

definition name_constraints_of :: "string list \<Rightarrow> name_constraints" where
  "name_constraints_of domains =
     \<lparr> nc_permitted = map DnsTree domains,
       nc_excluded = [IpTree (V4 (replicate 4 0)) 0, IpTree (V6 (replicate 8 0)) 0] \<rparr>"

section \<open>Lemmas\<close>

lemma within_iff:
  "within domains name \<longleftrightarrow>
     (\<exists>d \<in> set domains. to_ascii_lowercase name = d \<or> (\<exists>p. to_ascii_lowercase name = p @ ''.'' @ d))"
  by (auto simp: within_def Let_def list_ex_iff ends_with_iff)

lemma permitted_domain_ok:
  "permitted_domain raw = Ok d \<longleftrightarrow>
     d = to_ascii_lowercase (trim raw) \<and> parse_ip d = None \<and> CHR ''*'' \<notin> set d \<and> is_dns_name d False"
  by (auto simp: permitted_domain_def refuse_domain_def Let_def)

text \<open>A normalised domain is a fixed point of the normalisation.\<close>

lemma permitted_domain_fixed:
  assumes "permitted_domain raw = Ok d"
  shows "permitted_domain d = Ok d"
proof -
  have "list_all host_char d"
    using assms is_dns_name_chars by (auto simp: permitted_domain_ok)
  then have "trim d = d"
    by (auto simp: list_all_iff host_char_graphic intro!: trim_graphic)
  moreover have "to_ascii_lowercase d = d"
    using assms by (auto simp: permitted_domain_ok)
  ultimately show ?thesis using assms unfolding permitted_domain_ok by (metis)
qed

lemma permitted_domains_loop_ok:
  "permitted_domains_loop ds out = Ok res \<Longrightarrow> distinct out \<Longrightarrow>
     distinct res \<and> set res = set out \<union> (\<lambda>r. to_ascii_lowercase (trim r)) ` set ds
     \<and> (\<forall>raw \<in> set ds. permitted_domain raw = Ok (to_ascii_lowercase (trim raw)))"
proof (induction ds arbitrary: out)
  case Nil
  then show ?case by simp
next
  case (Cons raw ds)
  define out' where "out' = (let d = to_ascii_lowercase (trim raw) in if d \<in> set out then out else out @ [d])"
  obtain d where d: "permitted_domain raw = Ok d" and "d = to_ascii_lowercase (trim raw)"
    using Cons.prems(1) by (auto simp: permitted_domain_ok)
  then have "permitted_domains_loop ds out' = Ok res"
    using Cons.prems(1) by (simp add: out'_def Let_def)
  moreover have "distinct out'" and "set out' = insert d (set out)"
    using Cons.prems(2) \<open>d = _\<close> by (auto simp: out'_def Let_def)
  ultimately show ?case using Cons.IH [of out'] d \<open>d = _\<close> by auto
qed

lemma permitted_domains_loop_fixed:
  "\<forall>d \<in> set ds. permitted_domain d = Ok d \<Longrightarrow> distinct (out @ ds) \<Longrightarrow>
   permitted_domains_loop ds out = Ok (out @ ds)"
  by (induction ds arbitrary: out) auto

lemma check_csr_names_ok:
  "check_csr_names domains ns = Ok () \<longleftrightarrow> (\<forall>n \<in> set ns. \<exists>h. n = Dns h \<and> within domains h)"
  by (induction ns) (auto simp: outside_domains_def split: subject_alt_name.split)

section \<open>Properties\<close>

text \<open>
  the normalised list of permitted domains is exactly the set of the trimmed, lower-cased
  inputs, without duplicates, never empty, and every entry is a lower-case host name without a
  wildcard that is no IP address; normalising it again changes nothing.
\<close>

theorem permitted_domains_normal:
  assumes "permitted_domains domains = Ok out"
  shows "out \<noteq> [] \<and> distinct out \<and> set out = (\<lambda>r. to_ascii_lowercase (trim r)) ` set domains
    \<and> (\<forall>d \<in> set out. is_dns_name d False \<and> to_ascii_lowercase d = d \<and> CHR ''*'' \<notin> set d \<and> parse_ip d = None)
    \<and> permitted_domains out = Ok out"
proof -
  have loop: "permitted_domains_loop domains [] = Ok out" and "out \<noteq> []"
    using assms by (auto simp: permitted_domains_def split: if_splits)
  have dist: "distinct out" and dom: "set out = (\<lambda>r. to_ascii_lowercase (trim r)) ` set domains"
    and each: "\<forall>raw \<in> set domains. permitted_domain raw = Ok (to_ascii_lowercase (trim raw))"
    using permitted_domains_loop_ok [OF loop] by simp_all
  have ok: "\<exists>raw. permitted_domain raw = Ok d" if "d \<in> set out" for d
    using that dom each by auto
  then have "permitted_domains_loop out [] = Ok out"
    using dist permitted_domain_fixed permitted_domains_loop_fixed [of out "[]"] by auto
  moreover have "\<forall>d \<in> set out. is_dns_name d False \<and> to_ascii_lowercase d = d \<and> CHR ''*'' \<notin> set d
      \<and> parse_ip d = None"
    using ok unfolding permitted_domain_ok by (metis to_ascii_lowercase_idem)
  ultimately show ?thesis
    using dist dom \<open>out \<noteq> []\<close> by (simp add: permitted_domains_def)
qed

lemma permitted_domains_example:
  "permitted_domains [''Home.ARPA'', ''home.arpa''] = Ok [''home.arpa'']"
proof -
  have "trim ''Home.ARPA'' = ''Home.ARPA''" "trim ''home.arpa'' = ''home.arpa''"
    by (rule trim_graphic; code_simp)+
  moreover have "to_ascii_lowercase ''Home.ARPA'' = ''home.arpa''"
    "to_ascii_lowercase ''home.arpa'' = ''home.arpa''" by code_simp+
  moreover have "parse_ip ''home.arpa'' = None"
    by (rule parse_ip_first) (simp_all add: to_digit_def byte_defs)
  moreover have "is_dns_name ''home.arpa'' False" by code_simp
  ultimately have "permitted_domain ''Home.ARPA'' = Ok ''home.arpa''"
    "permitted_domain ''home.arpa'' = Ok ''home.arpa''"
    unfolding permitted_domain_ok by simp_all
  then show ?thesis by (simp add: permitted_domains_def)
qed

theorem permitted_domains_normal_witness:
  "permitted_domains [''Home.ARPA'', ''home.arpa''] = Ok [''home.arpa'']
   \<and> permitted_domains [''home.arpa''] = Ok [''home.arpa'']"
  using permitted_domains_normal [OF permitted_domains_example] permitted_domains_example by blast

text \<open>
  C35: a request that passes the check asks only for DNS names that are one of the permitted domains
  or end in a dot and a permitted domain, and its common name, when it reads as a host or an
  address, is such a name too.
\<close>

theorem check_requested_names_sound:
  assumes "check_requested_names csr domains = Ok ()"
  shows "(\<forall>n \<in> set (csr_names csr). \<exists>h. n = Dns h \<and>
      (\<exists>d \<in> set domains. to_ascii_lowercase h = d \<or> (\<exists>p. to_ascii_lowercase h = p @ ''.'' @ d)))
    \<and> (\<forall>cn. csr_common_name csr = Some cn \<longrightarrow> host_like cn \<longrightarrow>
      (\<exists>d \<in> set domains. to_ascii_lowercase cn = d \<or> (\<exists>p. to_ascii_lowercase cn = p @ ''.'' @ d)))"
proof -
  have "\<forall>n \<in> set (csr_names csr). \<exists>h. n = Dns h \<and> within domains h"
    using assms by (auto simp: check_requested_names_def check_csr_names_ok)
  moreover have "\<forall>cn. csr_common_name csr = Some cn \<longrightarrow> host_like cn \<longrightarrow> within domains cn"
    using assms by (auto simp: check_requested_names_def outside_domains_def split: if_splits)
  ultimately show ?thesis unfolding within_iff by blast
qed

theorem check_requested_names_sound_witness:
  "check_requested_names \<lparr> csr_names = [Dns ''A.home.arpa''], csr_common_name = Some ''Home'' \<rparr> [''home.arpa''] = Ok ()
   \<and> (\<exists>d \<in> {''home.arpa''}. \<exists>p. to_ascii_lowercase ''A.home.arpa'' = p @ ''.'' @ d)"
proof -
  have ok: "check_requested_names \<lparr> csr_names = [Dns ''A.home.arpa''], csr_common_name = Some ''Home'' \<rparr>
      [''home.arpa''] = Ok ()"
  proof -
    have "within [''home.arpa''] ''A.home.arpa''" by code_simp
    moreover have "\<not> host_like ''Home''"
      unfolding host_like_def by (simp add: parse_ip_first to_digit_def byte_defs)
    ultimately show ?thesis by (simp add: check_requested_names_def)
  qed
  have "to_ascii_lowercase ''A.home.arpa'' \<noteq> ''home.arpa''" by code_simp
  with check_requested_names_sound [OF ok] ok show ?thesis by auto
qed

text \<open>
  comparing two lists of permitted domains compares them as multisets: the order in which they
  were written does not matter and the number of occurrences does.
\<close>

theorem same_domains_iff: "same_domains a b \<longleftrightarrow> mset a = mset b"
  unfolding same_domains_def by (metis mset_sort properties_for_sort sorted_sort)

end
