(* ===== verification/Op_Vault.thy ===== *)
theory Op_Vault
  imports Datetime
begin

text \<open>
  opCA's side of the 1Password client, from \<^verbatim>\<open>crates/opca-core/src/op.rs\<close> and the error conversion of
  \<^verbatim>\<open>error.rs\<close>. The client itself (\<^verbatim>\<open>wslib_1password\<close>) and the service behind it are a parameter: a
  record of operations on a vault state of any type. A computation takes the vault state and gives
  a result and the state after it, an error included.
\<close>

text \<open>The errors of the client, each carrying the text it displays.\<close>

datatype op_error = OpCliNotFound | OpNotSignedIn string | OpNotApproved string
  | OpNoAccountsConfigured string | OpPermissionDenied string | OpVaultNotFound string
  | OpItemNotFound string | OpItemConflict string | OpAmbiguous string "string list"
  | OpCli string | OpTimedOut string | OpIo string | OpOther string

definition opca_error_from_op :: "op_error \<Rightarrow> opca_error" where
  "opca_error_from_op e = (case e of
      OpCliNotFound \<Rightarrow> CliNotFound
    | OpNotSignedIn m \<Rightarrow> AuthenticationFailed | OpNotApproved m \<Rightarrow> AuthenticationFailed
    | OpNoAccountsConfigured m \<Rightarrow> NoAccountsConfigured m
    | OpPermissionDenied m \<Rightarrow> PermissionDenied m
    | OpVaultNotFound m \<Rightarrow> VaultNotFound m
    | OpItemNotFound m \<Rightarrow> ItemNotFound m
    | OpItemConflict m \<Rightarrow> ItemConflict m
    | OpAmbiguous title ids \<Rightarrow> AmbiguousItem title ids
    | OpCli m \<Rightarrow> CliError m
    | OpTimedOut m \<Rightarrow> IoErr m | OpIo m \<Rightarrow> IoErr m
    | OpOther m \<Rightarrow> CliError m)"

datatype item_ref = ItemTitle string | ItemId string

record op_item =
  it_id :: string
  it_title :: string
  it_created_at :: string
  it_fields :: "(string \<times> string option) list"

record op_user =
  us_email :: string
  us_name :: string

text \<open>A field to write: its label, with section and type as written, and its value.\<close>

type_synonym assignment = "string \<times> string"

type_synonym ('v, 'a) op_call = "'v \<Rightarrow> (op_error + 'a) \<times> 'v"

record 'v vault_ops =
  v_current_user :: "('v, op_user) op_call"
  v_item :: "item_ref \<Rightarrow> ('v, op_item) op_call"
  v_item_exists :: "item_ref \<Rightarrow> ('v, bool) op_call"
  v_items_titled :: "string \<Rightarrow> ('v, op_item list) op_call"
  v_create_item :: "string \<Rightarrow> string \<Rightarrow> assignment list \<Rightarrow> ('v, op_item) op_call"
  v_edit_item :: "item_ref \<Rightarrow> assignment list \<Rightarrow> ('v, unit) op_call"
  v_rename_item :: "item_ref \<Rightarrow> string \<Rightarrow> ('v, unit) op_call"
  v_delete_item :: "item_ref \<Rightarrow> ('v, unit) op_call"
  v_delete_item_permanently :: "item_ref \<Rightarrow> ('v, unit) op_call"
  v_parse_assignment :: "string \<Rightarrow> op_error + assignment"
  v_read :: "string \<Rightarrow> ('v, string) op_call"
  v_document :: "item_ref \<Rightarrow> ('v, string) op_call"
  v_create_document :: "string \<Rightarrow> string \<Rightarrow> string \<Rightarrow> ('v, unit) op_call"
  v_edit_document :: "item_ref \<Rightarrow> string \<Rightarrow> string \<Rightarrow> ('v, unit) op_call"

text \<open>Computations over a vault, with the \<^verbatim>\<open>?\<close> of the code as \<open>vbind\<close>.\<close>

type_synonym ('v, 'a) comp = "'v \<Rightarrow> 'a res \<times> 'v"

definition vret :: "'a \<Rightarrow> ('v, 'a) comp" where
  "vret x v = (Ok x, v)"

definition vfail :: "opca_error \<Rightarrow> ('v, 'a) comp" where
  "vfail e v = (Err e, v)"

definition vlift :: "'a res \<Rightarrow> ('v, 'a) comp" where
  "vlift r v = (r, v)"

definition vbind :: "('v, 'a) comp \<Rightarrow> ('a \<Rightarrow> ('v, 'b) comp) \<Rightarrow> ('v, 'b) comp" where
  "vbind m f v = (case m v of (Ok x, v') \<Rightarrow> f x v' | (Err e, v') \<Rightarrow> (Err e, v') | (Panic p, v') \<Rightarrow> (Panic p, v'))"

definition call :: "('v, 'a) op_call \<Rightarrow> ('v, 'a) comp" where
  "call f v = (case f v of (Inl e, v') \<Rightarrow> (Err (opca_error_from_op e), v') | (Inr x, v') \<Rightarrow> (Ok x, v'))"

text \<open>\<^verbatim>\<open>RetryOnConflict::run\<close>: a call that failed with a retryable error is made once more.\<close>

definition retry_run ::
  "('out \<Rightarrow> bool) \<Rightarrow> ('out \<Rightarrow> bool) \<Rightarrow> ('v \<Rightarrow> (string + 'out) \<times> 'v) \<Rightarrow> 'v \<Rightarrow> (string + 'out) \<times> 'v" where
  "retry_run success retryable run v =
     (case run v of
        (Inl e, v') \<Rightarrow> (Inl e, v')
      | (Inr out, v') \<Rightarrow> if success out \<or> \<not> retryable out then (Inr out, v') else run v')"

definition put_document :: "'v vault_ops \<Rightarrow> string \<Rightarrow> string \<Rightarrow> string \<Rightarrow> ('v, unit) comp" where
  "put_document ops title file_name content v =
     (case v_edit_document ops (ItemTitle title) file_name content v of
        (Inl (OpItemNotFound m), v') \<Rightarrow> call (v_create_document ops title file_name content) v'
      | (Inl e, v') \<Rightarrow> (Err (opca_error_from_op e), v')
      | (Inr u, v') \<Rightarrow> (Ok u, v'))"

definition put_item :: "'v vault_ops \<Rightarrow> string \<Rightarrow> string \<Rightarrow> assignment list \<Rightarrow> ('v, unit) comp" where
  "put_item ops title category flds v =
     (case v_edit_item ops (ItemTitle title) flds v of
        (Inl (OpItemNotFound m), v') \<Rightarrow> vbind (call (v_create_item ops title category flds)) (\<lambda>_. vret ()) v'
      | (Inl e, v') \<Rightarrow> (Err (opca_error_from_op e), v')
      | (Inr u, v') \<Rightarrow> (Ok u, v'))"

text \<open>\<^verbatim>\<open>assign\<close>: a field by its configured label; reading a document and a secret reference as text.\<close>

definition op_result :: "op_error + 'a \<Rightarrow> 'a res" where
  "op_result r = (case r of Inl e \<Rightarrow> Err (opca_error_from_op e) | Inr x \<Rightarrow> Ok x)"

definition assign :: "'v vault_ops \<Rightarrow> string \<Rightarrow> string \<Rightarrow> assignment res" where
  "assign ops label value = op_result (v_parse_assignment ops (label @ ''='' @ value))"

definition document_text :: "'v vault_ops \<Rightarrow> string \<Rightarrow> ('v, string) comp" where
  "document_text ops title = call (v_document ops (ItemTitle title))"

definition read_text :: "'v vault_ops \<Rightarrow> string \<Rightarrow> ('v, string) comp" where
  "read_text ops reference = call (v_read ops reference)"

section \<open>Error messages\<close>

text \<open>
  How the standard library prints a string with \<^verbatim>\<open>{:?}\<close>: in double quotes, with quotes, backslashes and
  control characters escaped. Every character beyond ASCII is taken to be printable.
\<close>

definition hex_lower :: "nat \<Rightarrow> string" where
  "hex_lower n = (let d = (\<lambda>k. char_of (if k < 10 then 48 + k else 87 + k))
                  in if n < 16 then [d n] else [d (n div 16), d (n mod 16)])"

definition escape_debug :: "char \<Rightarrow> string" where
  "escape_debug c =
     (let n = (of_char c :: nat)
      in if n = 0 then [CHR 0x5C, CHR ''0''] else if n = 9 then [CHR 0x5C, CHR ''t'']
         else if n = 10 then [CHR 0x5C, CHR ''n''] else if n = 13 then [CHR 0x5C, CHR ''r'']
         else if n = 34 \<or> n = 92 then [CHR 0x5C, c]
         else if n < 32 \<or> n = 127 then [CHR 0x5C] @ ''u{'' @ hex_lower n @ ''}'' else [c])"

definition debug_str :: "string \<Rightarrow> string" where
  "debug_str s = [CHR 0x22] @ concat (map escape_debug s) @ [CHR 0x22]"

fun display_broker_error :: "broker_error \<Rightarrow> string" where
  "display_broker_error (Broker_Unreachable m) = m"
| "display_broker_error (Broker_Wrong_Key m) = m"
| "display_broker_error (Broker_Refused k m) = ''the broker refused: '' @ m"
| "display_broker_error (Broker_Status n) = ''the broker answered HTTP '' @ nat_to_string n"
| "display_broker_error (Broker_Malformed m) = ''the broker'' @ [CHR 0x27] @ ''s answer is not understood: '' @ m"

fun display_error :: "opca_error \<Rightarrow> string" where
  "display_error CaAlreadyExists = ''CA already exists in vault''"
| "display_error CaNotFound = ''CA not found in vault''"
| "display_error (CertificateNotFound m) = ''Certificate not found: '' @ m"
| "display_error (DuplicateCertificate m) = ''Duplicate certificate: '' @ m"
| "display_error (InvalidCertificate m) = ''Invalid certificate: '' @ m"
| "display_error (CertificateRevoked m) = ''Certificate has been revoked: '' @ m"
| "display_error (CertificateExpired m) = ''Certificate has expired: '' @ m"
| "display_error (CsrNotFound m) = ''CSR not found: '' @ m"
| "display_error (Database m) = ''Database error: '' @ m"
| "display_error (SchemaMigration m) = ''Schema migration failed: '' @ m"
| "display_error (DatabaseUnreadable m) = ''CA database is unreadable: '' @ m"
| "display_error (VaultNotFound m) = ''Vault not found: '' @ m"
| "display_error (VaultAlreadyExists m) = ''Vault already exists: '' @ m"
| "display_error AuthenticationFailed = ''1Password authentication failed''"
| "display_error (NoAccountsConfigured m) = ''1Password CLI has no accounts it can use: '' @ m"
| "display_error (PermissionDenied m) = ''1Password permission denied: '' @ m"
| "display_error (ItemConflict m) = ''Item conflict: '' @ m"
| "display_error (ItemNotFound m) = ''Item not found: '' @ m"
| "display_error (AmbiguousItem title ids) =
     nat_to_string (length ids) @ '' items are titled '' @ debug_str title @ '': '' @ join '', '' ids"
| "display_error (VaultLocked holder_email holder_name acquired_at operation hostname) =
     ''Vault is locked by '' @ holder_email @ '' ('' @ holder_name @ '') since '' @ acquired_at
     @ '' for '' @ operation @ '' (on '' @ hostname @ '')''"
| "display_error (CliError m) = ''1Password CLI error: '' @ m"
| "display_error CliNotFound = ''1Password CLI not found''"
| "display_error (Storage m) = ''Storage error: '' @ m"
| "display_error (CrlBatchUpload m) = ''The re-signed CRL batch was not uploaded to the private store: '' @ m"
| "display_error (BackupFormat m) = ''Invalid backup format: '' @ m"
| "display_error BackupDecryption =
     ''Backup decryption failed '' @ [CHR 0xE2, CHR 0x80, CHR 0x94] @ '' wrong password or corrupted file''"
| "display_error (Route53 m) = ''Route53 error: '' @ m"
| "display_error (Dns m) = ''DNS lookup failed: '' @ m"
| "display_error (Crypto m) = ''Cryptographic operation failed: '' @ m"
| "display_error (BrokerErr e) = ''ACME broker: '' @ display_broker_error e"
| "display_error (IoErr m) = ''I/O error: '' @ m"
| "display_error (OtherErr m) = m"

section \<open>Lemmas\<close>

lemma vbind_simps [simp]:
  "m v = (Ok x, v') \<Longrightarrow> vbind m f v = f x v'"
  "m v = (Err e, v') \<Longrightarrow> vbind m f v = (Err e, v')"
  by (simp_all add: vbind_def)

lemma vbind_vret [simp]: "vbind (vret x) f = f x"
  by (simp add: vbind_def vret_def fun_eq_iff)

lemma vbind_Ok_iff: "vbind m f v = (Ok y, v'') \<longleftrightarrow> (\<exists>x v'. m v = (Ok x, v') \<and> f x v' = (Ok y, v''))"
  by (auto simp: vbind_def split: prod.splits res.splits)

lemma call_simps [simp]:
  "f v = (Inr x, v') \<Longrightarrow> call f v = (Ok x, v')"
  "f v = (Inl e, v') \<Longrightarrow> call f v = (Err (opca_error_from_op e), v')"
  by (simp_all add: call_def)

section \<open>A vault in memory\<close>

text \<open>
  A concrete vault for the examples: titles with a document text and fields, ids the same as titles.
\<close>

type_synonym memory = "string \<rightharpoonup> string \<times> assignment list"

fun ref_title :: "item_ref \<Rightarrow> string" where
  "ref_title (ItemTitle t) = t"
| "ref_title (ItemId i) = i"

definition memory_item :: "string \<Rightarrow> string \<times> assignment list \<Rightarrow> op_item" where
  "memory_item t x = \<lparr> it_id = t, it_title = t, it_created_at = [], it_fields = map (\<lambda>(l, y). (l, Some y)) (snd x) \<rparr>"

definition memory_change :: "item_ref \<Rightarrow> (string \<times> assignment list \<Rightarrow> (string \<times> assignment list) option) \<Rightarrow> (memory, unit) op_call" where
  "memory_change r f m = (case m (ref_title r) of
      None \<Rightarrow> (Inl (OpItemNotFound (ref_title r)), m) | Some x \<Rightarrow> (Inr (), m(ref_title r := f x)))"

definition memory_vault :: "memory vault_ops" where
  "memory_vault =
     \<lparr> v_current_user = (\<lambda>m. (Inr \<lparr> us_email = ''ca@example.com'', us_name = ''CA'' \<rparr>, m)),
       v_item = (\<lambda>r m. (case m (ref_title r) of None \<Rightarrow> Inl (OpItemNotFound (ref_title r))
                         | Some x \<Rightarrow> Inr (memory_item (ref_title r) x), m)),
       v_item_exists = (\<lambda>r m. (Inr (m (ref_title r) \<noteq> None), m)),
       v_items_titled = (\<lambda>t m. (Inr (case m t of None \<Rightarrow> [] | Some x \<Rightarrow> [memory_item t x]), m)),
       v_create_item = (\<lambda>t category flds m. (Inr (memory_item t ([], flds)), m(t \<mapsto> ([], flds)))),
       v_edit_item = (\<lambda>r flds. memory_change r (\<lambda>x. Some (fst x, flds @ snd x))),
       v_rename_item = (\<lambda>r dst m. case m (ref_title r) of
          None \<Rightarrow> (Inl (OpItemNotFound (ref_title r)), m) | Some x \<Rightarrow> (Inr (), m(ref_title r := None, dst \<mapsto> x))),
       v_delete_item = (\<lambda>r. memory_change r (\<lambda>x. None)),
       v_delete_item_permanently = (\<lambda>r. memory_change r (\<lambda>x. None)),
       v_parse_assignment = (\<lambda>token. case split_once ''='' token of
          Some (l, x) \<Rightarrow> Inr (l, x) | None \<Rightarrow> Inl (OpOther token)),
       v_read = (\<lambda>reference m. (Inl (OpItemNotFound reference), m)),
       v_document = (\<lambda>r m. (case m (ref_title r) of None \<Rightarrow> Inl (OpItemNotFound (ref_title r)) | Some x \<Rightarrow> Inr (fst x), m)),
       v_create_document = (\<lambda>t file text m. (Inr (), m(t \<mapsto> (text, [])))),
       v_edit_document = (\<lambda>r file text. memory_change r (\<lambda>x. Some (text, snd x))) \<rparr>"

end
