(* ===== verification/Ca_Policy.thy ===== *)
theory Ca_Policy
  imports Cert_Bundle Db_Status Permitted_Domains Op_Vault
begin

text \<open>
  The rules of the certificate authority that need no state, from
  \<^verbatim>\<open>crates/opca-core/src/services/ca.rs\<close>, \<^verbatim>\<open>ca/publish.rs\<close>, \<^verbatim>\<open>storage/mod.rs\<close> and \<^verbatim>\<open>constants.rs\<close>: expiry
  warnings, CRL batches, the profile each certificate type is signed with, the database row of a
  certificate, the metadata of a CRL, where things are published, and the choice of a storage backend.
\<close>

section \<open>Constants\<close>

definition category_item :: string where "category_item = ''Secure Note''"
definition ca_title :: string where "ca_title = ''CA''"
definition ca_database_title :: string where "ca_database_title = ''CA_Database''"
definition ca_database_filename :: string where "ca_database_filename = ''ca-db-export.sql''"
definition crl_title :: string where "crl_title = ''CRL''"
definition crl_filename :: string where "crl_filename = ''crl.pem''"
definition ca_cert_file :: string where "ca_cert_file = ''ca.crt''"
definition crl_file :: string where "crl_file = ''crl.pem''"
definition crl_batch_file :: string where "crl_batch_file = ''pending-crl/crl-batch.pem''"
definition published_cert_dir :: string where "published_cert_dir = ''certs''"
definition crl_batch_period_days :: int where "crl_batch_period_days = 7"
definition crl_batch_window_days :: int where "crl_batch_window_days = 10"
definition crl_batch_size :: int where "crl_batch_size = 5"
definition default_aws_region :: string where "default_aws_region = ''ap-southeast-2''"

section \<open>Expiry warnings\<close>

text \<open>Whole days of a difference of instants, towards zero.\<close>

definition num_days :: "int \<Rightarrow> int" where
  "num_days d = (if 0 \<le> d then d div day_ns else - ((- d) div day_ns))"

datatype ca_expiry_warning = NoCaWarning | CertLifetimeExceedsCa int int | ProminentCa int | CriticalCa int

datatype crl_expiry_warning = NoCrlWarning | ProminentCrl int | CriticalCrl int | ExpiredCrl int

definition assess_crl_expiry :: "int \<Rightarrow> int \<Rightarrow> crl_expiry_warning" where
  "assess_crl_expiry next_update now =
     (let days_remaining = num_days (next_update - now)
      in if next_update \<le> now then ExpiredCrl (num_days (now - next_update))
         else if days_remaining < 7 then CriticalCrl days_remaining
         else if days_remaining < 14 then ProminentCrl days_remaining
         else NoCrlWarning)"

definition assess_ca_expiry :: "int \<Rightarrow> int \<Rightarrow> int \<Rightarrow> ca_expiry_warning" where
  "assess_ca_expiry ca_not_after cert_lifetime_days now =
     (let days_remaining = num_days (ca_not_after - now)
      in if days_remaining < 30 then CriticalCa days_remaining
         else if days_remaining < 183 then ProminentCa days_remaining
         else if days_remaining < cert_lifetime_days then CertLifetimeExceedsCa days_remaining cert_lifetime_days
         else NoCaWarning)"

definition assess_cert_issuance :: "chrono \<Rightarrow> int \<Rightarrow> int \<Rightarrow> int \<Rightarrow> string option" where
  "assess_cert_issuance lib ca_not_after cert_days now =
     (let cert_not_after = now + cert_days * day_ns
      in if cert_not_after > ca_not_after then
           Some (''This certificate will expire on '' @ format_datetime lib cert_not_after TextFormat
             @ '' but the CA expires on '' @ format_datetime lib ca_not_after TextFormat
             @ ''. The certificate will become invalid when the CA expires.'')
         else None)"

definition assess_apple_tls_limit :: "cert_type \<Rightarrow> int \<Rightarrow> string option" where
  "assess_apple_tls_limit ct days =
     (if is_tls_server ct \<and> days > apple_tls_max_days then
        Some (int_to_string days @ '' days exceeds the '' @ int_to_string apple_tls_max_days
          @ ''-day limit macOS and iOS enforce on TLS server certificates; Apple devices will reject it.'')
      else None)"

section \<open>CRL batches\<close>

definition crl_batch_uri :: "ca_config \<Rightarrow> string option res" where
  "crl_batch_uri config =
     (case (cf_crl_batch_enabled config, cf_ca_private_store config) of
        (Some True, Some store) \<Rightarrow> Ok (Some (trim_end_matches CHR ''/'' store @ ''/'' @ crl_batch_file))
      | (Some True, None) \<Rightarrow> Err (Storage ''CRL batches need a private store: set one or turn CRL batches off'')
      | _ \<Rightarrow> Ok None)"

definition check_crl_batch_update :: "ca_config \<Rightarrow> ca_config \<Rightarrow> unit res" where
  "check_crl_batch_update current updates =
     rmap (\<lambda>_. ()) (crl_batch_uri (empty_config\<lparr>
       cf_crl_batch_enabled := opt_or (cf_crl_batch_enabled updates) (cf_crl_batch_enabled current),
       cf_ca_private_store := (case cf_ca_private_store updates of
          Some store \<Rightarrow> (if trim store \<noteq> [] then Some store else None) | None \<Rightarrow> cf_ca_private_store current) \<rparr>))"

section \<open>Profiles\<close>

datatype basic_constraints = Authority "nat option" | EndEntity

datatype key_usage = KeyCertSign | CrlSign | DigitalSignature | KeyEncipherment

datatype extended_key_usage = ClientAuth | ServerAuth | CodeSigningUsage

text \<open>\<open>None\<close> is the policy of \<^verbatim>\<open>Profile::default()\<close>.\<close>

datatype san_policy = CommonNameAndRequested | Requested

text \<open>An extension is its critical flag and its value.\<close>

record profile =
  pf_basic_constraints :: "(bool \<times> basic_constraints) option"
  pf_key_usage :: "(bool \<times> key_usage list) option"
  pf_extended_key_usage :: "(bool \<times> extended_key_usage list) option"
  pf_names :: "san_policy option"
  pf_name_constraints :: "(bool \<times> name_constraints) option"
  pf_crl_distribution_points :: "string list"
  pf_ca_issuers :: "string list"

definition default_profile :: profile where
  "default_profile = \<lparr> pf_basic_constraints = None, pf_key_usage = None, pf_extended_key_usage = None, pf_names = None,
     pf_name_constraints = None, pf_crl_distribution_points = [], pf_ca_issuers = [] \<rparr>"

definition leaf_key_usage :: "bool \<Rightarrow> (bool \<times> key_usage list) option" where
  "leaf_key_usage key_encipherment = Some (True, DigitalSignature # (if key_encipherment then [KeyEncipherment] else []))"

definition option_list :: "'a option \<Rightarrow> 'a list" where
  "option_list x = (case x of Some v \<Rightarrow> [v] | None \<Rightarrow> [])"

definition profile_for :: "cert_type \<Rightarrow> bool \<Rightarrow> ca_config \<Rightarrow> profile" where
  "profile_for ct rsa_subject config =
     (let authority = (True, [KeyCertSign, CrlSign]);
          leaf = default_profile\<lparr> pf_basic_constraints := Some (False, EndEntity) \<rparr>
      in case ct of
           Ca \<Rightarrow> default_profile\<lparr> pf_basic_constraints := Some (True, Authority None), pf_key_usage := Some authority \<rparr>
         | Device \<Rightarrow> leaf\<lparr> pf_key_usage := leaf_key_usage rsa_subject,
             pf_extended_key_usage := Some (False, [ClientAuth]), pf_names := Some CommonNameAndRequested \<rparr>
         | VpnClient \<Rightarrow> leaf\<lparr> pf_key_usage := leaf_key_usage False,
             pf_extended_key_usage := Some (True, [ClientAuth]), pf_names := Some Requested \<rparr>
         | VpnServer \<Rightarrow> leaf\<lparr> pf_key_usage := leaf_key_usage rsa_subject,
             pf_extended_key_usage := Some (True, [ServerAuth]) \<rparr>
         | CodeSigning \<Rightarrow> leaf\<lparr> pf_key_usage := leaf_key_usage False,
             pf_extended_key_usage := Some (True, [CodeSigningUsage]) \<rparr>
         | WebServer \<Rightarrow> leaf\<lparr> pf_key_usage := leaf_key_usage rsa_subject,
             pf_extended_key_usage := Some (False, [ServerAuth, ClientAuth]),
             pf_names := Some CommonNameAndRequested,
             pf_crl_distribution_points := option_list (cf_crl_url config),
             pf_ca_issuers := option_list (cf_ca_url config) \<rparr>
         | SubordinateCa \<Rightarrow> default_profile\<lparr> pf_basic_constraints := Some (True, Authority (Some 0)),
             pf_key_usage := Some authority, pf_extended_key_usage := Some (False, [ServerAuth]),
             pf_crl_distribution_points := option_list (cf_crl_url config),
             pf_ca_issuers := option_list (cf_ca_url config) \<rparr>
         | _ \<Rightarrow> leaf)"

section \<open>Conversions\<close>

definition ca_config_to_bundle :: "ca_config \<Rightarrow> cert_bundle_config" where
  "ca_config_to_bundle config =
     \<lparr> bc_cn = cf_cn config, bc_key_algorithm = cf_key_algorithm config, bc_org = cf_org config, bc_ou = cf_ou config,
       bc_email = cf_email config, bc_city = cf_city config, bc_state = cf_state config,
       bc_country = cf_country config, bc_alt_names = None, bc_next_serial = cf_next_serial config,
       bc_ca_days = opt_or (cf_ca_days config) (cf_days config) \<rparr>"

definition openssl_to_text :: "chrono \<Rightarrow> string \<Rightarrow> string" where
  "openssl_to_text lib s =
     (case parse_datetime lib s Openssl of Ok dt \<Rightarrow> format_datetime lib dt TextFormat | _ \<Rightarrow> s)"

definition or_empty :: "string option \<Rightarrow> string" where
  "or_empty v = (case v of Some s \<Rightarrow> s | None \<Rightarrow> [])"

definition row_of_cert :: "chrono \<Rightarrow> crypto \<Rightarrow> int \<Rightarrow> certificate_bundle \<Rightarrow> string \<Rightarrow> x509 \<Rightarrow> cert_record" where
  "row_of_cert lib cr now bundle item_title cert =
     (let attrib = attrib_of lib cr cert;
          status = (if xc_not_after cert < now then ''Expired'' else ''Valid'')
      in \<lparr> cr_serial = or_empty (attrib ''serial''), cr_cn = Some (or_empty (attrib ''cn'')), cr_title = Some item_title,
           cr_status = Some status, cr_expiry_date = attrib ''not_after'', cr_revocation_date = None,
           cr_subject = Some (or_empty (attrib ''subject'')),
           cr_cert_type = Some (display_cert_type (bd_cert_type bundle)), cr_not_before = attrib ''not_before'',
           cr_key_type = attrib ''key_type'', cr_key_size = Option.bind (attrib ''key_size'') parse_i64,
           cr_issuer = attrib ''issuer'', cr_san = attrib ''san'', cr_ignored_at = None, cr_ignored_by = None,
           cr_ignored_reason = None, cr_ignored_note = None,
           cr_has_private_key = Some (bd_private_key bundle \<noteq> None),
           cr_has_chain = Some (case bd_chain bundle of Some c \<Rightarrow> c \<noteq> [] | None \<Rightarrow> False),
           cr_deleted_at = None, cr_published_at = None \<rparr>)"

definition format_db_item :: "chrono \<Rightarrow> crypto \<Rightarrow> int \<Rightarrow> certificate_bundle \<Rightarrow> string \<Rightarrow> cert_record res" where
  "format_db_item lib cr now bundle item_title =
     rbind (ok_or (InvalidCertificate ''No certificate'') (bd_certificate bundle)) (\<lambda>cert.
       rmap (\<lambda>now. row_of_cert lib cr now bundle item_title cert) (asn1_now cr now 0))"

definition into_external :: "string \<Rightarrow> string option \<Rightarrow> string option \<Rightarrow> cert_record \<Rightarrow> external_cert_record" where
  "into_external stamp issuer issuer_subject r =
     \<lparr> xr_serial = cr_serial r, xr_cn = cr_cn r, xr_title = cr_title r, xr_status = cr_status r,
       xr_expiry_date = cr_expiry_date r, xr_subject = cr_subject r, xr_issuer = issuer,
       xr_issuer_subject = issuer_subject, xr_import_date = Some stamp, xr_cert_type = Some ''external'',
       xr_not_before = cr_not_before r, xr_key_type = cr_key_type r, xr_key_size = cr_key_size r, xr_san = cr_san r,
       xr_has_private_key = cr_has_private_key r, xr_has_chain = cr_has_chain r \<rparr>"

section \<open>CRL metadata\<close>

text \<open>What the CRL parser shows; a name attribute is its object identifier and its text, when it is text.\<close>

record crl_view =
  cv_issuer :: "(string \<times> string option) list option"
  cv_this_update :: int
  cv_next_update :: "int option"
  cv_number :: "nat option"
  cv_revoked :: "string list"

definition short_name :: "string \<Rightarrow> string" where
  "short_name oid =
     (if oid = ''2.5.4.3'' then ''CN'' else if oid = ''2.5.4.6'' then ''C'' else if oid = ''2.5.4.8'' then ''ST''
      else if oid = ''2.5.4.7'' then ''L'' else if oid = ''2.5.4.10'' then ''O'' else if oid = ''2.5.4.11'' then ''OU''
      else if oid = ''1.2.840.113549.1.9.1'' then ''emailAddress'' else oid)"

definition issuer_text :: "(string \<times> string option) list option \<Rightarrow> string option" where
  "issuer_text name =
     map_option (\<lambda>attributes. join '', '' (List.map_filter
       (\<lambda>(oid, value). map_option (\<lambda>v. short_name oid @ ''='' @ v) value) attributes)) name"

definition crl_metadata_of :: "chrono \<Rightarrow> crl_view \<Rightarrow> crl_metadata" where
  "crl_metadata_of lib view =
     \<lparr> cm_issuer = issuer_text (cv_issuer view),
       cm_last_update = Some (format_datetime lib (cv_this_update view) Openssl),
       cm_next_update = map_option (\<lambda>t. format_datetime lib t Openssl) (cv_next_update view),
       cm_crl_number = Option.bind (cv_number view) (\<lambda>n. if int n \<le> i64_max then Some (int n) else None),
       cm_revoked_count = Some (int (length (cv_revoked view))), cm_revoked_json = None \<rparr>"

section \<open>Publishing and storage\<close>

text \<open>A character beyond ASCII becomes one underscore: its continuation bytes are dropped.\<close>

definition published_cert_key :: "string \<Rightarrow> string" where
  "published_cert_key cn =
     published_cert_dir @ ''/''
     @ map (\<lambda>c. if is_ascii_alphanumeric c \<or> c = CHR ''.'' \<or> c = CHR ''-'' then c else CHR ''_'')
         (filter (\<lambda>c. \<not> (128 \<le> byte c \<and> byte c < 192)) cn) @ ''.pem''"

datatype visibility = Public | Private

definition file_mode :: "visibility \<Rightarrow> nat" where
  "file_mode v = (case v of Public \<Rightarrow> 420 | Private \<Rightarrow> 384)"

definition uri_scheme :: "string \<Rightarrow> string" where
  "uri_scheme uri = (case split_once ''://'' uri of Some (s, _) \<Rightarrow> s | None \<Rightarrow> uri)"

definition needs_aws_credentials :: "string \<Rightarrow> bool" where
  "needs_aws_credentials uri = eq_ignore_ascii_case (uri_scheme uri) ''s3''"

record aws_credentials =
  aw_access_key_id :: string
  aw_secret_access_key :: string
  aw_session_token :: "string option"
  aw_region :: "string option"

definition region_or_default :: "aws_credentials \<Rightarrow> string" where
  "region_or_default c = (case aw_region c of Some r \<Rightarrow> r | None \<Rightarrow> default_aws_region)"

datatype storage_backend = Rsync | Sftp | S3 aws_credentials

definition storage_from_uri_with_creds :: "string \<Rightarrow> aws_credentials option \<Rightarrow> storage_backend res" where
  "storage_from_uri_with_creds uri creds =
     (let scheme = to_ascii_lowercase (uri_scheme uri)
      in if scheme = ''rsync'' then Ok Rsync
         else if scheme = ''sftp'' \<or> scheme = ''scp'' then Ok Sftp
         else if scheme = ''s3'' then rmap S3 (ok_or (Storage ''AWS credentials required for S3 stores'') creds)
         else Err (Storage (''Unsupported storage scheme: '' @ scheme)))"

text \<open>The credential fields of an item, the last non-empty one of each label.\<close>

definition aws_field :: "string list \<Rightarrow> op_item \<Rightarrow> string option" where
  "aws_field labels item =
     fold (\<lambda>(l, v) acc. case v of Some t \<Rightarrow> (if to_ascii_lowercase l \<in> set labels \<and> t \<noteq> [] then Some t else acc)
             | None \<Rightarrow> acc) (it_fields item) None"

definition aws_credentials_of :: "op_item \<Rightarrow> aws_credentials res" where
  "aws_credentials_of item =
     rbind (ok_or (Storage (quote ''access key id'' @ '' field not found in item'')) (aws_field [''access key id''] item)) (\<lambda>key.
     rbind (ok_or (Storage (quote ''secret access key'' @ '' field not found in item'')) (aws_field [''secret access key''] item))
       (\<lambda>secret. Ok \<lparr> aw_access_key_id = key, aw_secret_access_key = secret,
          aw_session_token = aws_field [''session token''] item,
          aw_region = aws_field [''default region'', ''region''] item \<rparr>))"

definition with_region :: "string option \<Rightarrow> aws_credentials \<Rightarrow> aws_credentials" where
  "with_region region c =
     (case map_option trim region of Some r \<Rightarrow> (if r \<noteq> [] then c\<lparr> aw_region := Some r \<rparr> else c) | None \<Rightarrow> c)"

end
