(* ===== verification/Broker_Api.thy ===== *)
theory Broker_Api
  imports Acme_Base Db_Models
begin

text \<open>
  The API opCA calls on a broker: the messages both ends build against
  (\<^verbatim>\<open>crates/opca-acme-api/src/lib.rs\<close>). Cursors and change numbers keep their 64 bits. Writing and reading
  them as JSON is \<^verbatim>\<open>serde_json\<close>, a parameter of the ends.
\<close>

section \<open>Paths\<close>

definition api_version :: nat where "api_version = 1"
definition pairing_scheme :: string where "pairing_scheme = ''opca-enrol''"

definition path_enrolment :: string where "path_enrolment = ''/v1/enrolment''"
definition path_status :: string where "path_status = ''/v1/status''"
definition path_csr :: string where "path_csr = ''/v1/csr''"
definition path_chain :: string where "path_chain = ''/v1/chain''"
definition path_revoke :: string where "path_revoke = ''/v1/revoke''"
definition path_pause :: string where "path_pause = ''/v1/pause''"
definition path_resume :: string where "path_resume = ''/v1/resume''"
definition path_issued :: string where "path_issued = ''/v1/issued''"

text \<open>The path of one issued certificate's revocation, its serial put in the place kept for it.\<close>

definition path_revoke_issued :: "string \<Rightarrow> string" where
  "path_revoke_issued serial = ''/v1/issued/'' @ serial @ ''/revoke''"

section \<open>Messages\<close>

record issuance_config =
  ic_permitted_domains :: "string list"
  ic_leaf_days :: nat
  ic_leaf_max_days :: nat
  ic_challenges :: "challenge_type list"

record versions =
  vs_api :: nat
  vs_broker :: string

record enrolment_offer =
  eo_csr_pem :: string
  eo_host :: string
  eo_configured_domains :: "string list"
  eo_versions :: versions

record enrolment =
  en_code :: string
  en_chain_pem :: string
  en_operator_pin :: string
  en_config :: issuance_config

record issued_counts =
  ct_total :: nat
  ct_revoked :: nat

record api_status =
  st_state :: issuer_state
  st_subordinate_serial :: string
  st_subordinate_not_after :: string
  st_config :: issuance_config
  st_versions :: versions
  st_issued :: "issued_counts option"

record fresh_csr =
  fc_csr_pem :: string
  fc_configured_domains :: "string list"

record chain_update =
  cu_chain_pem :: string
  cu_config :: issuance_config

record issued_certificate =
  it_serial :: string
  it_common_name :: "string option"
  it_sans :: "string list"
  it_not_before :: string
  it_not_after :: string
  it_issuer_serial :: string
  it_revoked_at :: "string option"
  it_revocation_reason :: "nat option"
  it_changed :: "64 word"

record issued_page =
  ip_certificates :: "issued_certificate list"
  ip_next :: "64 word"
  ip_more :: bool

record error_body =
  eb_kind :: error_kind
  eb_message :: string

definition http_status :: "error_kind \<Rightarrow> nat" where
  "http_status k = (case k of Bad_Request \<Rightarrow> 400 | Wrong_Code n \<Rightarrow> 403 | Not_Found_Kind \<Rightarrow> 404 | Revoked_Kind \<Rightarrow> 409
      | Code_Spent \<Rightarrow> 410 | Internal_Kind \<Rightarrow> 500)"

text \<open>A refusal never looks like an answer, and its status tells the kinds apart.\<close>

lemma http_status_refuses: "400 \<le> http_status k" "http_status k = http_status k' \<Longrightarrow> k = k' \<or> (\<exists>n m. k = Wrong_Code n \<and> k' = Wrong_Code m)"
  by (cases k; cases k'; simp add: http_status_def)+

end
