(* ===== verification/Acme_Issue.thy ===== *)
theory Acme_Issue
  imports Acme_Run Ca_Policy Broker_Api
begin

text \<open>
  Finalising an order, from \<^verbatim>\<open>crates/opca-acme-broker/src/acme/issue.rs\<close>: the request checked against the
  order and the permitted domains, then a leaf certificate signed by the subordinate. The X.509 and DNS
  libraries are parameters.
\<close>

section \<open>Requests\<close>

text \<open>What the code reads of a certificate request, with the text of the values it prints.\<close>

datatype requested_name = Dns_Name string | Ip_Name string | Other_Name string

datatype key_description = Rsa_Key "nat option" | Ecdsa_Key "string option" | Other_Key

record leaf_request =
  cv_spki :: bytes
  cv_key :: key_description
  cv_key_text :: string
  cv_has_rsa_key :: bool
  cv_names :: "requested_name list"
  cv_common_name :: "string option"

record validity =
  vd_not_before :: int
  vd_not_after :: int

text \<open>
  The libraries: reading a request and checking its signature, host names, and signing. A subject is
  its common name or empty.
\<close>

record issue_lib =
  il_csr :: "bytes \<Rightarrow> string + leaf_request"
  il_validate_hostname :: "string \<Rightarrow> string + unit"
  il_to_ascii :: "string \<Rightarrow> string option"
  il_subject :: "string \<Rightarrow> string + bytes"
  il_serial :: "string + string"
  il_issue :: "leaf_request \<Rightarrow> bytes \<Rightarrow> profile \<Rightarrow> string \<Rightarrow> validity \<Rightarrow> string + bytes"
  il_pem :: "bytes \<Rightarrow> string"
  il_chain :: "string \<Rightarrow> string + bytes list"
  il_certificate :: "bytes \<Rightarrow> string + (string \<times> int)"

record issuer =
  is_subordinate :: bytes
  is_chain_pem :: string
  is_subordinate_serial :: string
  is_subordinate_not_after :: int
  is_config :: issuance_config
  is_pki_origin :: "string option"

text \<open>
  From the enrolled chain, the subordinate first and the root last; the root is not served. The
  certificates are encoded again by the library.
\<close>

definition issuer_new :: "issue_lib \<Rightarrow> string \<Rightarrow> issuance_config \<Rightarrow> string + issuer" where
  "issuer_new lib chain_text config =
     sbind (il_chain lib chain_text) (\<lambda>certs.
       let chain = butlast certs in
       case chain of
         [] \<Rightarrow> Inl ''the chain holds no subordinate''
       | subordinate # _ \<Rightarrow>
           sbind (il_certificate lib subordinate) (\<lambda>(serial, not_after).
             Inr \<lparr> is_subordinate = subordinate, is_chain_pem = concat (map (il_pem lib) chain),
                   is_subordinate_serial = decimal serial, is_subordinate_not_after = not_after,
                   is_config = config, is_pki_origin = None \<rparr>))"

definition published_at :: "string \<Rightarrow> issuer \<Rightarrow> issuer" where
  "published_at origin i = i\<lparr> is_pki_origin := Some origin \<rparr>"

section \<open>Checks\<close>

definition backdate :: int where "backdate = 60 * second_ns"
definition common_name_max :: nat where "common_name_max = 64"
definition ca_path :: string where "ca_path = ''/ca.crt''"
definition crl_path :: string where "crl_path = ''/crl''"

definition bad_csr :: "string \<Rightarrow> problem" where "bad_csr = problem_new BadCsr"
definition rejected :: "string \<Rightarrow> problem" where "rejected = problem_new RejectedIdentifier"
definition issue_internal :: "string \<Rightarrow> problem" where "issue_internal = problem_new ServerInternal"

text \<open>A \<^verbatim>\<open>BTreeSet\<close> of names is a sorted list without repetitions.\<close>

definition name_set :: "string list \<Rightarrow> string list" where
  "name_set xs = sort (remdups xs)"

definition debug_names :: "string list \<Rightarrow> string" where
  "debug_names xs = ''{'' @ join '', '' (map debug_str xs) @ ''}''"

definition check_identifier :: "issue_lib \<Rightarrow> string \<Rightarrow> string list \<Rightarrow> problem + unit" where
  "check_identifier lib name permitted =
     (let refuse = (\<lambda>why. Inl (rejected (debug_str name @ '' '' @ why)));
          base = (case strip_prefix ''*.'' name of Some b \<Rightarrow> b | None \<Rightarrow> name)
      in if parse_ip name \<noteq> None then refuse ''is an IP address, and only DNS names are issued''
         else if CHR ''*'' \<in> set base then refuse ''has a wildcard other than as its whole leftmost label''
         else if ends_with ''.'' base \<or> to_ascii_lowercase name \<noteq> name
         then refuse ''is not a lower-case name without a trailing dot''
         else case il_validate_hostname lib base of
                Inl e \<Rightarrow> refuse (''is not a host name: '' @ e)
              | Inr _ \<Rightarrow>
                  if il_to_ascii lib base \<noteq> Some base then refuse ''is not in A-label form''
                  else if \<not> host_within base permitted then refuse ''is outside the permitted domains''
                  else Inr ())"

definition check_key :: "leaf_request \<Rightarrow> problem + unit" where
  "check_key csr =
     (let refuse = Inl (bad_csr (''an '' @ cv_key_text csr @ '' key is not issued for: RSA of 2048 to 8192 bits, P-256 or P-384''))
      in case cv_key csr of
           Rsa_Key (Some bits) \<Rightarrow> if 2048 \<le> bits \<and> bits \<le> 8192 then Inr () else refuse
         | Ecdsa_Key (Some curve) \<Rightarrow> if curve = ''P-256'' \<or> curve = ''P-384'' then Inr () else refuse
         | _ \<Rightarrow> refuse)"

definition leaf_common_name :: "leaf_request \<Rightarrow> string option" where
  "leaf_common_name csr =
     (let fitting = List.map_filter (\<lambda>name. case name of
            Dns_Name dns \<Rightarrow> if length dns \<le> common_name_max then Some (to_ascii_lowercase dns) else None
          | _ \<Rightarrow> None) (cv_names csr);
          own = (case map_option to_ascii_lowercase (cv_common_name csr) of
            Some cn \<Rightarrow> if cn \<in> set fitting then Some cn else None | None \<Rightarrow> None)
      in case own of Some cn \<Rightarrow> Some cn | None \<Rightarrow> (case fitting of [] \<Rightarrow> None | f # _ \<Rightarrow> Some f))"

fun collect_names :: "issue_lib \<Rightarrow> string list \<Rightarrow> requested_name list \<Rightarrow> problem + string list" where
  "collect_names lib permitted [] = Inr []"
| "collect_names lib permitted (Dns_Name dns # names) =
     (let dns = to_ascii_lowercase dns in
      sbind (check_identifier lib dns permitted) (\<lambda>_. sbind (collect_names lib permitted names) (\<lambda>rest. Inr (dns # rest))))"
| "collect_names lib permitted (Ip_Name ip # names) =
     Inl (rejected (ip @ '' is an IP address, and only DNS names are issued''))"
| "collect_names lib permitted (Other_Name other # names) = Inl (bad_csr (other @ '' is not a DNS name''))"

definition requested_names :: "issue_lib \<Rightarrow> issuer \<Rightarrow> leaf_request \<Rightarrow> problem + string list" where
  "requested_names lib self csr =
     sbind (collect_names lib (ic_permitted_domains (is_config self)) (cv_names csr)) (\<lambda>names.
       if names = [] then Inl (bad_csr ''the CSR names no DNS names'') else Inr (name_set names))"

definition leaf_validity :: "issuer \<Rightarrow> order \<Rightarrow> int \<Rightarrow> problem + validity" where
  "leaf_validity self ord now =
     (let earliest = now - backdate;
          not_before = (case o_not_before ord of None \<Rightarrow> earliest | Some at \<Rightarrow> max at earliest);
          days = (\<lambda>n. not_before + day_ns * int n);
          asked = (case o_not_after ord of Some at \<Rightarrow> at | None \<Rightarrow> days (ic_leaf_days (is_config self)));
          not_after = min (min asked (days (ic_leaf_max_days (is_config self)))) (is_subordinate_not_after self)
      in if not_after \<le> not_before then Inl (problem_new Malformed ''the certificate would end before it begins'')
         else Inr \<lparr> vd_not_before = not_before, vd_not_after = not_after \<rparr>)"

section \<open>Signing\<close>

definition leaf_profile :: "issuer \<Rightarrow> leaf_request \<Rightarrow> profile" where
  "leaf_profile self csr =
     (let at = (\<lambda>path. map (\<lambda>o'. o' @ path) (option_list (is_pki_origin self)))
      in default_profile\<lparr> pf_basic_constraints := Some (False, EndEntity),
           pf_key_usage := Some (True, DigitalSignature # (if cv_has_rsa_key csr then [KeyEncipherment] else [])),
           pf_extended_key_usage := Some (False, [ServerAuth]), pf_names := Some Requested,
           pf_crl_distribution_points := at crl_path, pf_ca_issuers := at ca_path \<rparr>)"

definition sign_leaf :: "issue_lib \<Rightarrow> issuer \<Rightarrow> leaf_request \<Rightarrow> string option \<Rightarrow> validity \<Rightarrow> string + (string \<times> string)" where
  "sign_leaf lib self csr common_name validity =
     sbind (case common_name of Some cn \<Rightarrow> il_subject lib cn | None \<Rightarrow> Inr [0x30, 0x00]) (\<lambda>subject.
     sbind (il_serial lib) (\<lambda>serial.
     sbind (il_issue lib csr subject (leaf_profile self csr) serial validity) (\<lambda>leaf.
       Inr (serial, il_pem lib leaf @ is_chain_pem self))))"

definition internally :: "string + 'a \<Rightarrow> problem + 'a" where
  "internally r = (case r of Inl e \<Rightarrow> Inl (issue_internal e) | Inr x \<Rightarrow> Inr x)"

definition issue_leaf :: "issue_lib \<Rightarrow> issuer \<Rightarrow> order \<Rightarrow> bytes \<Rightarrow> bytes \<Rightarrow> int \<Rightarrow> problem + new_leaf" where
  "issue_leaf lib self ord csr_der account_key now =
     sbind (case il_csr lib csr_der of
              Inl e \<Rightarrow> Inl (bad_csr (''the CSR is unreadable or its signature fails: '' @ e)) | Inr csr \<Rightarrow> Inr csr) (\<lambda>csr.
     if cv_spki csr = account_key then Inl (bad_csr (''the CSR'' @ [CHR 0x27] @ ''s key is the account'' @ [CHR 0x27] @ ''s key''))
     else
     sbind (check_key csr) (\<lambda>_.
     sbind (requested_names lib self csr) (\<lambda>names.
       let ordered = name_set (map to_ascii_lowercase (o_identifiers ord)) in
       if names \<noteq> ordered then Inl (bad_csr (''the CSR names '' @ debug_names names @ '', and the order '' @ debug_names ordered))
       else
     sbind (leaf_validity self ord now) (\<lambda>validity.
       let common_name = leaf_common_name csr in
     sbind (internally (sign_leaf lib self csr common_name validity)) (\<lambda>(serial, chain_text).
       Inr \<lparr> nl_serial = serial, nl_common_name = common_name, nl_sans = names, nl_not_before = vd_not_before validity,
             nl_not_after = vd_not_after validity, nl_chain_pem = chain_text,
             nl_issuer_serial = is_subordinate_serial self \<rparr>)))))"

definition finalise_order ::
  "issue_lib \<Rightarrow> acme_lib \<Rightarrow> issuer \<Rightarrow> order \<Rightarrow> bytes \<Rightarrow> bytes \<Rightarrow> acme_db \<Rightarrow> (problem + leaf) \<times> acme_db" where
  "finalise_order lib alib self ord csr_der account_key db =
     (case issue_leaf lib self ord csr_der account_key (al_now alib) of
        Inl p \<Rightarrow> (Inl p, db)
      | Inr issued \<Rightarrow>
          (case record_certificate alib (o_id ord) issued db of
             Inl e \<Rightarrow> (Inl (issue_internal (store_error_str e)), db)
           | Inr (l, db') \<Rightarrow> (Inr l, db')))"

section \<open>What is issued\<close>

lemma set_name_set [simp]: "set (name_set xs) = set xs"
  by (simp add: name_set_def)

lemma name_set_normal: "sorted (name_set xs)" "distinct (name_set xs)"
  by (simp_all add: name_set_def)

definition name_base :: "string \<Rightarrow> string" where
  "name_base name = (case strip_prefix ''*.'' name of Some b \<Rightarrow> b | None \<Rightarrow> name)"

lemma check_identifier_accepts:
  assumes "check_identifier lib name permitted = Inr u"
  shows "parse_ip name = None" "CHR ''*'' \<notin> set (name_base name)" "to_ascii_lowercase name = name"
    and "il_validate_hostname lib (name_base name) = Inr ()" "il_to_ascii lib (name_base name) = Some (name_base name)"
    and "host_within (name_base name) permitted"
  using assms by (auto simp: check_identifier_def name_base_def Let_def split: if_splits sum.splits)

lemma collect_names_accepts:
  "collect_names lib permitted names = Inr ns \<Longrightarrow>
   (\<forall>n \<in> set ns. check_identifier lib n permitted = Inr ()) \<and> names = map Dns_Name (map (case_requested_name id id id) names)
   \<and> ns = map (\<lambda>n. to_ascii_lowercase (case_requested_name id id id n)) names"
  by (induction lib permitted names arbitrary: ns rule: collect_names.induct) (auto simp: sbind_Inr_iff Let_def)

text \<open>An accepted request, taken apart.\<close>

lemma issue_parts:
  assumes "issue_leaf lib self ord csr_der account_key now = Inr new"
  obtains csr ns v where "il_csr lib csr_der = Inr csr" "cv_spki csr \<noteq> account_key" "check_key csr = Inr ()"
    and "collect_names lib (ic_permitted_domains (is_config self)) (cv_names csr) = Inr ns" "ns \<noteq> []" "nl_sans new = name_set ns"
    and "nl_sans new = name_set (map to_ascii_lowercase (o_identifiers ord))"
    and "leaf_validity self ord now = Inr v" "nl_not_before new = vd_not_before v" "nl_not_after new = vd_not_after v"
    and "nl_common_name new = leaf_common_name csr" "nl_issuer_serial new = is_subordinate_serial self"
  using assms by (fastforce simp: issue_leaf_def requested_names_def sbind_Inr_iff Let_def split: sum.splits if_splits)

lemma leaf_common_name_among:
  assumes "leaf_common_name csr = Some cn"
  shows "\<exists>dns. Dns_Name dns \<in> set (cv_names csr) \<and> cn = to_ascii_lowercase dns \<and> length dns \<le> common_name_max"
proof -
  define fitting where "fitting = List.map_filter (\<lambda>name. case name of
      Dns_Name dns \<Rightarrow> if length dns \<le> common_name_max then Some (to_ascii_lowercase dns) else None | _ \<Rightarrow> None) (cv_names csr)"
  have "cn \<in> set fitting"
    using assms unfolding leaf_common_name_def fitting_def [symmetric] Let_def by (auto split: option.splits list.splits if_splits)
  then obtain n where "n \<in> set (cv_names csr)" "(case n of
      Dns_Name dns \<Rightarrow> if length dns \<le> common_name_max then Some (to_ascii_lowercase dns) else None | _ \<Rightarrow> None) = Some cn"
    unfolding fitting_def set_map_filter by blast
  then show ?thesis by - (cases n, auto split: if_splits)
qed

lemma issue_names_facts:
  assumes "issue_leaf lib self ord csr_der account_key now = Inr new"
  shows "\<exists>csr. il_csr lib csr_der = Inr csr \<and> cv_spki csr \<noteq> account_key
      \<and> ((\<exists>bits. cv_key csr = Rsa_Key (Some bits) \<and> 2048 \<le> bits \<and> bits \<le> 8192)
         \<or> cv_key csr \<in> {Ecdsa_Key (Some ''P-256''), Ecdsa_Key (Some ''P-384'')})"
    and "set (nl_sans new) = to_ascii_lowercase ` set (o_identifiers ord)" "nl_sans new \<noteq> []" "sorted (nl_sans new)" "distinct (nl_sans new)"
    and "\<forall>name \<in> set (nl_sans new). parse_ip name = None \<and> to_ascii_lowercase name = name \<and> CHR ''*'' \<notin> set (name_base name)
      \<and> il_validate_hostname lib (name_base name) = Inr () \<and> host_within (name_base name) (ic_permitted_domains (is_config self))"
    and "case nl_common_name new of None \<Rightarrow> True | Some cn \<Rightarrow> cn \<in> set (nl_sans new) \<and> length cn \<le> 64"
proof -
  obtain csr ns v where csr: "il_csr lib csr_der = Inr csr" "cv_spki csr \<noteq> account_key" "check_key csr = Inr ()"
    and ns: "collect_names lib (ic_permitted_domains (is_config self)) (cv_names csr) = Inr ns" "ns \<noteq> []" "nl_sans new = name_set ns"
    and ordered: "nl_sans new = name_set (map to_ascii_lowercase (o_identifiers ord))"
    and cn: "nl_common_name new = leaf_common_name csr"
    by (rule issue_parts [OF assms]) (rule that)
  note accepted = collect_names_accepts [OF ns(1)]
  show "\<exists>csr. il_csr lib csr_der = Inr csr \<and> cv_spki csr \<noteq> account_key
      \<and> ((\<exists>bits. cv_key csr = Rsa_Key (Some bits) \<and> 2048 \<le> bits \<and> bits \<le> 8192)
         \<or> cv_key csr \<in> {Ecdsa_Key (Some ''P-256''), Ecdsa_Key (Some ''P-384'')})"
    using csr by (auto simp: check_key_def Let_def split: key_description.splits option.splits if_splits)
  show "set (nl_sans new) = to_ascii_lowercase ` set (o_identifiers ord)" using ordered by simp
  show "nl_sans new \<noteq> []" using ns(2,3) set_name_set [of ns] by (metis set_empty)
  show "sorted (nl_sans new)" "distinct (nl_sans new)" using ns(3) name_set_normal by simp_all
  show "\<forall>name \<in> set (nl_sans new). parse_ip name = None \<and> to_ascii_lowercase name = name \<and> CHR ''*'' \<notin> set (name_base name)
      \<and> il_validate_hostname lib (name_base name) = Inr () \<and> host_within (name_base name) (ic_permitted_domains (is_config self))"
    unfolding ns(3) set_name_set
  proof
    fix name assume "name \<in> set ns"
    then have "check_identifier lib name (ic_permitted_domains (is_config self)) = Inr ()" using accepted by simp
    then show "parse_ip name = None \<and> to_ascii_lowercase name = name \<and> CHR ''*'' \<notin> set (name_base name)
        \<and> il_validate_hostname lib (name_base name) = Inr () \<and> host_within (name_base name) (ic_permitted_domains (is_config self))"
      by (simp add: check_identifier_accepts)
  qed
  show "case nl_common_name new of None \<Rightarrow> True | Some cn \<Rightarrow> cn \<in> set (nl_sans new) \<and> length cn \<le> 64"
  proof (cases "nl_common_name new")
    case (Some cn')
    then obtain dns where dns: "Dns_Name dns \<in> set (cv_names csr)" "cn' = to_ascii_lowercase dns" "length dns \<le> 64"
      using leaf_common_name_among cn by (auto simp: common_name_max_def)
    have "cn' \<in> set ns" using accepted dns(1,2) by (force simp: image_iff)
    then show ?thesis using Some dns ns(3) by (simp add: to_ascii_lowercase_def)
  qed simp
qed

text \<open>
  C18: A certificate is issued only for a readable request over a strong key that is not the account's,
  which asks for exactly the names of the order; each name is a lower-case host name, or a wildcard
  directly over one, within the permitted domains; the common name is one of the names and short.
\<close>

theorem issue_names_sound:
  assumes "issue_leaf lib self ord csr_der account_key now = Inr new"
  shows "(\<exists>csr. il_csr lib csr_der = Inr csr \<and> cv_spki csr \<noteq> account_key
      \<and> ((\<exists>bits. cv_key csr = Rsa_Key (Some bits) \<and> 2048 \<le> bits \<and> bits \<le> 8192)
         \<or> cv_key csr \<in> {Ecdsa_Key (Some ''P-256''), Ecdsa_Key (Some ''P-384'')}))
    \<and> set (nl_sans new) = to_ascii_lowercase ` set (o_identifiers ord) \<and> nl_sans new \<noteq> [] \<and> sorted (nl_sans new) \<and> distinct (nl_sans new)
    \<and> (\<forall>name \<in> set (nl_sans new). parse_ip name = None \<and> to_ascii_lowercase name = name \<and> CHR ''*'' \<notin> set (name_base name)
      \<and> il_validate_hostname lib (name_base name) = Inr () \<and> host_within (name_base name) (ic_permitted_domains (is_config self)))
    \<and> (case nl_common_name new of None \<Rightarrow> True | Some cn \<Rightarrow> cn \<in> set (nl_sans new) \<and> length cn \<le> 64)"
  by (intro conjI issue_names_facts [OF assms])

lemma issue_validity_facts:
  assumes "issue_leaf lib self ord csr_der account_key now = Inr new"
  shows "now - 60 * second_ns \<le> nl_not_before new" "nl_not_before new < nl_not_after new"
    and "nl_not_after new \<le> is_subordinate_not_after self"
    and "nl_not_after new \<le> nl_not_before new + int (ic_leaf_max_days (is_config self)) * day_ns"
    and "case o_not_after ord of None \<Rightarrow> nl_not_after new \<le> nl_not_before new + int (ic_leaf_days (is_config self)) * day_ns
         | Some at \<Rightarrow> nl_not_after new \<le> at"
proof -
  obtain v where v: "leaf_validity self ord now = Inr v" "nl_not_before new = vd_not_before v" "nl_not_after new = vd_not_after v"
    by (rule issue_parts [OF assms]) (rule that)
  define nb where "nb = (case o_not_before ord of None \<Rightarrow> now - backdate | Some at \<Rightarrow> max at (now - backdate))"
  define asked where "asked = (case o_not_after ord of Some at \<Rightarrow> at | None \<Rightarrow> nb + day_ns * int (ic_leaf_days (is_config self)))"
  define na where "na = min (min asked (nb + day_ns * int (ic_leaf_max_days (is_config self)))) (is_subordinate_not_after self)"
  have begins: "nl_not_before new = nb" and ends: "nl_not_after new = na" and "nb < na"
    using v unfolding leaf_validity_def Let_def nb_def [symmetric] asked_def [symmetric] na_def [symmetric]
    by (auto split: if_splits)
  then show "nl_not_before new < nl_not_after new" by simp
  show "now - 60 * second_ns \<le> nl_not_before new" by (simp add: begins nb_def backdate_def split: option.split)
  show "nl_not_after new \<le> is_subordinate_not_after self" by (simp add: ends na_def)
  show "nl_not_after new \<le> nl_not_before new + int (ic_leaf_max_days (is_config self)) * day_ns"
    by (simp add: begins ends na_def mult.commute min_le_iff_disj)
  have "na \<le> asked" by (simp add: na_def min_le_iff_disj)
  then show "case o_not_after ord of None \<Rightarrow> nl_not_after new \<le> nl_not_before new + int (ic_leaf_days (is_config self)) * day_ns
      | Some at \<Rightarrow> nl_not_after new \<le> at"
    by (simp add: begins ends asked_def mult.commute split: option.splits)
qed

text \<open>
  C19: A certificate begins no earlier than a minute before now, ends after it begins, within the longest
  lifetime configured, and never outlives the subordinate; an end the order asks for is not exceeded.
\<close>

theorem issue_validity_bounded:
  assumes "issue_leaf lib self ord csr_der account_key now = Inr new"
  shows "now - 60 * second_ns \<le> nl_not_before new \<and> nl_not_before new < nl_not_after new
    \<and> nl_not_after new \<le> is_subordinate_not_after self
    \<and> nl_not_after new \<le> nl_not_before new + int (ic_leaf_max_days (is_config self)) * day_ns
    \<and> (case o_not_after ord of None \<Rightarrow> nl_not_after new \<le> nl_not_before new + int (ic_leaf_days (is_config self)) * day_ns
         | Some at \<Rightarrow> nl_not_after new \<le> at)"
  by (intro conjI issue_validity_facts [OF assms])

definition example_csr :: leaf_request where
  "example_csr = \<lparr> cv_spki = [2], cv_key = Ecdsa_Key (Some ''P-256''), cv_key_text = ''P-256'', cv_has_rsa_key = False,
     cv_names = [Dns_Name ''Home.test''], cv_common_name = None \<rparr>"

definition example_issue_lib :: issue_lib where
  "example_issue_lib = \<lparr> il_csr = (\<lambda>der. if der = [1] then Inr example_csr else Inl ''unreadable''), il_validate_hostname = (\<lambda>s. Inr ()),
     il_to_ascii = Some, il_subject = (\<lambda>cn. Inr [3]), il_serial = Inr ''77'', il_issue = (\<lambda>csr subject profile serial validity. Inr [4]),
     il_pem = (\<lambda>der. ''pem''), il_chain = (\<lambda>s. Inr [[5], [6]]), il_certificate = (\<lambda>der. Inr (''5'', 1000 * day_ns)) \<rparr>"

definition example_issuer :: issuer where
  "example_issuer = \<lparr> is_subordinate = [5], is_chain_pem = ''pem'', is_subordinate_serial = ''5'', is_subordinate_not_after = 1000 * day_ns,
     is_config = \<lparr> ic_permitted_domains = [''test''], ic_leaf_days = 90, ic_leaf_max_days = 397, ic_challenges = [Http01, Dns01] \<rparr>,
     is_pki_origin = None \<rparr>"

definition example_ready_order :: order where
  "example_ready_order = \<lparr> o_id = 1, o_account = 1, o_status = OrderReady, o_identifiers = [''home.test''], o_not_before = None,
     o_not_after = None, o_expires = 100, o_error = None, o_certificate = None, o_authorisations = [1] \<rparr>"

lemma example_host: "parse_ip ''home.test'' = None" "host_within ''home.test'' [''test'']"
  "to_ascii_lowercase ''Home.test'' = ''home.test''" "to_ascii_lowercase ''home.test'' = ''home.test''"
proof -
  show ip: "parse_ip ''home.test'' = None" by (rule parse_ip_first) (simp_all add: to_digit_def byte_defs)
  show lower: "to_ascii_lowercase ''Home.test'' = ''home.test''" "to_ascii_lowercase ''home.test'' = ''home.test''" by code_simp+
  have "trim_end_matches CHR ''.'' ''home.test'' = ''home.test''" "to_ascii_lowercase ''test'' = ''test''" "ends_with ''.test'' ''home.test''"
    by code_simp+
  then show "host_within ''home.test'' [''test'']" by (simp add: host_within_def lower ip)
qed

lemma example_issues:
  "\<exists>new. issue_leaf example_issue_lib example_issuer example_ready_order [1] [9] day_ns = Inr new"
proof -
  have "strip_prefix ''*.'' ''home.test'' = None" "ends_with ''.'' ''home.test'' = False" by code_simp+
  then have checked: "check_identifier example_issue_lib ''home.test'' [''test''] = Inr ()"
    by (simp add: check_identifier_def example_host example_issue_lib_def)
  have valid: "\<exists>v. leaf_validity example_issuer example_ready_order day_ns = Inr v"
    by (simp add: leaf_validity_def example_issuer_def example_ready_order_def backdate_def day_ns_def second_ns_def)
  have lib: "il_csr example_issue_lib [1] = Inr example_csr" "\<exists>s c. sign_leaf example_issue_lib i csr cn v = Inr (s, c)" for i csr cn v
    by (simp_all add: example_issue_lib_def sign_leaf_def sbind_def split: option.split)
  obtain v where v: "leaf_validity example_issuer example_ready_order day_ns = Inr v" using valid by blast
  obtain s c where s: "sign_leaf example_issue_lib example_issuer example_csr (leaf_common_name example_csr) v = Inr (s, c)" using lib(2) by blast
  have csr: "check_key example_csr = Inr ()" "cv_spki example_csr \<noteq> [9]" by (simp_all add: example_csr_def check_key_def)
  have names: "requested_names example_issue_lib example_issuer example_csr = Inr [''home.test'']"
    by (simp add: requested_names_def example_issuer_def example_csr_def example_host sbind_def checked name_set_def)
  have ordered: "name_set (map to_ascii_lowercase (o_identifiers example_ready_order)) = [''home.test'']"
    by (simp add: example_ready_order_def example_host name_set_def)
  show ?thesis by (simp add: issue_leaf_def lib(1) csr names ordered v s sbind_def internally_def)
qed

theorem issue_names_sound_witness:
  "\<exists>new. issue_leaf example_issue_lib example_issuer example_ready_order [1] [9] day_ns = Inr new \<and> set (nl_sans new) = {''home.test''}
    \<and> (\<forall>name \<in> set (nl_sans new). host_within (name_base name) [''test''])"
proof -
  obtain new where new: "issue_leaf example_issue_lib example_issuer example_ready_order [1] [9] day_ns = Inr new" using example_issues by blast
  show ?thesis
    using new issue_names_sound [OF new] by (auto simp: example_ready_order_def example_issuer_def example_host)
qed

theorem issue_validity_bounded_witness:
  "\<exists>new. issue_leaf example_issue_lib example_issuer example_ready_order [1] [9] day_ns = Inr new \<and> nl_not_after new \<le> 1000 * day_ns"
proof -
  obtain new where new: "issue_leaf example_issue_lib example_issuer example_ready_order [1] [9] day_ns = Inr new" using example_issues by blast
  show ?thesis using new issue_validity_bounded [OF new] by (auto simp: example_issuer_def)
qed

end
