(* ===== verification/Acme_Request.thy ===== *)
theory Acme_Request
  imports Acme_Issue
begin

text \<open>
  The ACME server's state, its answers, and the checking of signed requests, from
  \<^verbatim>\<open>crates/opca-acme-broker/src/acme/request.rs\<close> and \<^verbatim>\<open>server.rs\<close>. JSON Web Signatures, JSON payloads
  and HTTP are libraries, given in the environment; a handler runs its transactions one after another.
\<close>

section \<open>Keys and signed requests\<close>

text \<open>What the code reads of a key and of a parsed signature.\<close>

record jwk =
  jk_thumbprint :: string
  jk_canonical :: string
  jk_spki :: bytes

datatype key_ref = By_Jwk jwk | By_Kid string

record jws =
  jw_url :: string
  jw_nonce :: "string option"
  jw_key :: key_ref
  jw_payload :: bytes

datatype jose_kind = Bad_Signature_Algorithm | Bad_Public_Key | Server_Configuration | Other_Kind

record jose_error =
  je_kind :: jose_kind
  je_text :: string

datatype key_rule = Rule_Jwk | Rule_Kid | Rule_Either

datatype signer = Signer_Account account jwk | Signer_Key jwk

fun signer_key :: "signer \<Rightarrow> jwk" where
  "signer_key (Signer_Account a key) = key"
| "signer_key (Signer_Key key) = key"

record verified =
  vf_signer :: signer
  vf_payload :: bytes

record key_change_request =
  kc_account :: account
  kc_new_key :: jwk

section \<open>Payloads\<close>

record account_request =
  ar_contact :: "string list option"
  ar_only_return_existing :: bool
  ar_status :: "string option"

record order_identifier =
  id_kind :: string
  id_value :: string

record order_request =
  oq_identifiers :: "order_identifier list"
  oq_not_before :: "string option"
  oq_not_after :: "string option"

record revocation_request =
  rv_certificate :: string
  rv_reason :: "nat option"

section \<open>State and environment\<close>

record server =
  sv_db :: acme_db
  sv_nonces :: nonce_state
  sv_issuer :: "issuer option"
  sv_paused :: bool
  sv_resumed :: bool
  sv_tasks :: "validation list"
  sv_stale :: bool

text \<open>
  The environment of one request: the store's and the issuer's libraries, signatures, the reading of
  payloads, and the clock at each expiry of the request.
\<close>

record server_env =
  se_store :: acme_lib
  se_issue :: issue_lib
  se_parse :: "bytes \<Rightarrow> jose_error + jws"
  se_verify :: "jws \<Rightarrow> jwk \<Rightarrow> jose_error + unit"
  se_key_change :: "jws \<Rightarrow> jwk \<Rightarrow> jose_error + (string \<times> jwk)"
  se_jwk :: "string \<Rightarrow> string + jwk"
  se_account_request :: "bytes \<Rightarrow> string + account_request"
  se_order_request :: "bytes \<Rightarrow> string + order_request"
  se_finalise_request :: "bytes \<Rightarrow> string + string"
  se_deactivation :: "bytes \<Rightarrow> string + string"
  se_object :: "bytes \<Rightarrow> string + unit"
  se_revocation :: "bytes \<Rightarrow> string + revocation_request"
  se_inspect :: "bytes \<Rightarrow> string + (string \<times> bytes)"
  se_authority :: "string \<Rightarrow> string option"
  se_clock :: "nat \<Rightarrow> int"
  se_lifetime :: int

definition order_lifetime :: int where "order_lifetime = 86400 * second_ns"
definition nonce_capacity :: nat where "nonce_capacity = 4096"
definition max_identifiers :: nat where "max_identifiers = 100"

definition server_new :: "acme_db \<Rightarrow> server" where
  "server_new db = \<lparr> sv_db = db, sv_nonces = nonces_new, sv_issuer = None, sv_paused = False, sv_resumed = False,
     sv_tasks = [], sv_stale = False \<rparr>"

definition set_issuer :: "issuer \<Rightarrow> server \<Rightarrow> server" where
  "set_issuer i s = s\<lparr> sv_issuer := Some i \<rparr>"

definition set_paused :: "bool \<Rightarrow> server \<Rightarrow> server" where
  "set_paused p s = s\<lparr> sv_paused := p \<rparr>"

section \<open>Answers\<close>

datatype json = JBool bool | JString string | JList "json list" | JObject "(string \<times> json) list" | JProblem problem

datatype response_body = Empty_Body | Json_Body json | Pem_Body string

record response =
  rs_status :: nat
  rs_location :: "string option"
  rs_link :: "string option"
  rs_retry_after :: bool
  rs_body :: response_body

record refusal =
  rf_problem :: problem
  rf_status :: nat
  rf_location :: "string option"

definition refuse :: "problem \<Rightarrow> refusal" where
  "refuse p = \<lparr> rf_problem = p,
     rf_status = (if pb_kind p \<in> {Unauthorized, OrderNotReady, UserActionRequired, Caa, ExternalAccountRequired} then 403
                  else if pb_kind p = RateLimited then 429 else if pb_kind p = ServerInternal then 500 else 400),
     rf_location = None \<rparr>"

definition malformed :: "string \<Rightarrow> problem" where "malformed = problem_new Malformed"
definition unauthorized :: "string \<Rightarrow> problem" where "unauthorized = problem_new Unauthorized"

definition not_found :: "string \<Rightarrow> refusal" where
  "not_found what = (refuse (malformed (''no such '' @ what)))\<lparr> rf_status := 404 \<rparr>"

definition found :: "'a option \<Rightarrow> string \<Rightarrow> refusal + 'a" where
  "found row what = (case row of None \<Rightarrow> Inl (not_found what) | Some x \<Rightarrow> Inr x)"

definition owned_by :: "account \<Rightarrow> int \<Rightarrow> problem + unit" where
  "owned_by a owner = (if a_id a = owner then Inr () else Inl (unauthorized ''that belongs to another account''))"

definition stored_refusal :: "store_error \<Rightarrow> refusal" where
  "stored_refusal e = (case e of
      Not_Found table key \<Rightarrow> not_found table
    | Transition_Error table from to \<Rightarrow> refuse (malformed (store_error_str e))
    | Already_Revoked serial \<Rightarrow> refuse (problem_new AlreadyRevoked (store_error_str e))
    | _ \<Rightarrow> refuse (problem_new ServerInternal (store_error_str e)))"

definition as_get :: "bytes \<Rightarrow> problem + unit" where
  "as_get payload = (if payload = [] then Inr () else Inl (malformed ''a POST-as-GET has an empty payload''))"

definition parse_payload :: "(bytes \<Rightarrow> string + 'a) \<Rightarrow> bytes \<Rightarrow> problem + 'a" where
  "parse_payload read payload = (case read payload of Inl e \<Rightarrow> Inl (malformed (''the payload: '' @ e)) | Inr x \<Rightarrow> Inr x)"

definition one_address :: "string \<Rightarrow> bool" where
  "one_address address \<longleftrightarrow>
     (case split_once ''@'' address of None \<Rightarrow> False | Some (user, host) \<Rightarrow> user \<noteq> [] \<and> host \<noteq> [])
     \<and> set address \<inter> {CHR '','', CHR ''?'', CHR '' ''} = {}"

fun contacts :: "string list \<Rightarrow> problem + string list" where
  "contacts [] = Inr []"
| "contacts (contact # rest) =
     (case strip_prefix ''mailto:'' contact of
        None \<Rightarrow> Inl (problem_new UnsupportedContact (debug_str contact @ '' is not a mailto: URL''))
      | Some address \<Rightarrow>
          if \<not> one_address address then Inl (problem_new InvalidContact (debug_str contact @ '' is not one email address''))
          else sbind (contacts rest) (\<lambda>cs. Inr (contact # cs)))"

section \<open>Handlers\<close>

type_synonym 'a handler = "server \<Rightarrow> (refusal + 'a) \<times> server"

definition hret :: "'a \<Rightarrow> 'a handler" where "hret x s = (Inr x, s)"

definition hbind :: "'a handler \<Rightarrow> ('a \<Rightarrow> 'b handler) \<Rightarrow> 'b handler" where
  "hbind m f s = (case m s of (Inl e, s') \<Rightarrow> (Inl e, s') | (Inr x, s') \<Rightarrow> f x s')"

definition hlift :: "refusal + 'a \<Rightarrow> 'a handler" where "hlift r s = (r, s)"

definition hproblem :: "problem + 'a \<Rightarrow> 'a handler" where
  "hproblem r s = ((case r of Inl p \<Rightarrow> Inl (refuse p) | Inr x \<Rightarrow> Inr x), s)"

text \<open>A query, and a transaction, of the store, its errors answered by the given refusal.\<close>

definition hquery :: "(store_error \<Rightarrow> refusal) \<Rightarrow> (acme_db \<Rightarrow> 'a stored) \<Rightarrow> 'a handler" where
  "hquery err q s = ((case q (sv_db s) of Inl e \<Rightarrow> Inl (err e) | Inr x \<Rightarrow> Inr x), s)"

definition htx :: "(store_error \<Rightarrow> refusal) \<Rightarrow> (acme_db \<Rightarrow> ('a \<times> acme_db) stored) \<Rightarrow> 'a handler" where
  "htx err t s = (case t (sv_db s) of Inl e \<Rightarrow> (Inl (err e), s) | Inr (x, db) \<Rightarrow> (Inr x, s\<lparr> sv_db := db \<rparr>))"

definition changed :: "(acme_db \<Rightarrow> acme_db stored) \<Rightarrow> acme_db \<Rightarrow> (unit \<times> acme_db) stored" where
  "changed t db = sbind (t db) (\<lambda>db'. Inr ((), db'))"

definition hget :: "(server \<Rightarrow> 'a) \<Rightarrow> 'a handler" where "hget f s = (Inr (f s), s)"

definition hset :: "(server \<Rightarrow> server) \<Rightarrow> unit handler" where "hset f s = (Inr (), f s)"

definition issuing :: "issuer handler" where
  "issuing = hbind (hget (\<lambda>s. (sv_paused s, sv_issuer s))) (\<lambda>(paused, issuer).
     hlift (if paused then Inl ((refuse (problem_new ServerInternal ''the operator paused issuance''))\<lparr> rf_status := 503 \<rparr>)
            else case issuer of None \<Rightarrow> Inl (refuse (problem_new ServerInternal ''not issuing yet'')) | Some i \<Rightarrow> Inr i))"

section \<open>Checking a request\<close>

record post =
  po_base :: string
  po_url :: string
  po_accounts :: string
  po_body :: bytes

definition account_url :: "post \<Rightarrow> int \<Rightarrow> string" where
  "account_url p i = po_accounts p @ int_to_string i"

definition refused :: "jose_error \<Rightarrow> problem" where
  "refused e = problem_new (case je_kind e of Bad_Signature_Algorithm \<Rightarrow> BadSignatureAlgorithm | Bad_Public_Key \<Rightarrow> BadPublicKey
      | Server_Configuration \<Rightarrow> ServerInternal | Other_Kind \<Rightarrow> Malformed) (je_text e)"

definition request_internal :: "string \<Rightarrow> problem" where
  "request_internal = problem_new ServerInternal"

definition jose_check :: "jose_error + 'a \<Rightarrow> 'a handler" where
  "jose_check r = hproblem (case r of Inl e \<Rightarrow> Inl (refused e) | Inr x \<Rightarrow> Inr x)"

text \<open>An account named by its URL; the number is the one the URL is made from.\<close>

definition signing_account :: "server_env \<Rightarrow> post \<Rightarrow> string \<Rightarrow> signer handler" where
  "signing_account env p kid =
     (let unknown = problem_new AccountDoesNotExist (debug_str kid @ '' is no account'') in
      hbind (hproblem (case Option.bind (strip_prefix (po_accounts p) kid) parse_i64 of
          Some i \<Rightarrow> if account_url p i = kid then Inr i else Inl unknown | None \<Rightarrow> Inl unknown)) (\<lambda>i.
      hbind (hquery (\<lambda>e. refuse (request_internal (store_error_str e))) (account_by_id (se_store env) i)) (\<lambda>row.
      hbind (hproblem (case row of None \<Rightarrow> Inl unknown | Some a \<Rightarrow> Inr a)) (\<lambda>a.
      hbind (hproblem (if a_status a \<noteq> AccountValid then Inl (unauthorized (''the account is '' @ account_status_str (a_status a))) else Inr ())) (\<lambda>_.
      hproblem (case se_jwk env (a_jwk a) of Inl e \<Rightarrow> Inl (request_internal e) | Inr key \<Rightarrow> Inr (Signer_Account a key)))))))"

definition redeem_nonce :: "string \<Rightarrow> bool handler" where
  "redeem_nonce nonce s = (case nonce_redeem nonce (sv_nonces s) of (ok, nonces) \<Rightarrow> (Inr ok, s\<lparr> sv_nonces := nonces \<rparr>))"

definition verified_jws :: "server_env \<Rightarrow> post \<Rightarrow> key_rule \<Rightarrow> (jws \<times> signer) handler" where
  "verified_jws env p rule =
     hbind (jose_check (se_parse env (po_body p))) (\<lambda>jws.
     if jw_url jws \<noteq> po_url p
     then hproblem (Inl (unauthorized (''the JWS is for '' @ debug_str (jw_url jws) @ '', not '' @ debug_str (po_url p))))
     else
     hbind (hproblem (case jw_nonce jws of None \<Rightarrow> Inl (problem_new BadNonce ''the JWS has no nonce'') | Some n \<Rightarrow> Inr n)) (\<lambda>nonce.
     hbind (case (jw_key jws, rule) of
              (By_Jwk key, Rule_Kid) \<Rightarrow> hproblem (Inl (malformed ''the JWS must name its account by kid''))
            | (By_Jwk key, _) \<Rightarrow> hret (Signer_Key key)
            | (By_Kid kid, Rule_Jwk) \<Rightarrow> hproblem (Inl (malformed ''the JWS must carry its key as jwk''))
            | (By_Kid kid, _) \<Rightarrow> signing_account env p kid) (\<lambda>signer.
     hbind (jose_check (se_verify env jws (signer_key signer))) (\<lambda>_.
     hbind (redeem_nonce nonce) (\<lambda>ok.
       if ok then hret (jws, signer)
       else hproblem (Inl (problem_new BadNonce ''JWS has an invalid anti-replay nonce: it is unknown or used'')))))))"

definition verify :: "server_env \<Rightarrow> post \<Rightarrow> key_rule \<Rightarrow> verified handler" where
  "verify env p rule = hbind (verified_jws env p rule) (\<lambda>(jws, signer). hret \<lparr> vf_signer = signer, vf_payload = jw_payload jws \<rparr>)"

text \<open>Only \<open>Rule_Kid\<close> is asked for here, which yields an account; the other case is unreachable.\<close>

definition by_account :: "server_env \<Rightarrow> post \<Rightarrow> (account \<times> jwk \<times> bytes) handler" where
  "by_account env p = hbind (verify env p Rule_Kid) (\<lambda>v. case vf_signer v of
     Signer_Account a key \<Rightarrow> hret (a, key, vf_payload v)
   | Signer_Key key \<Rightarrow> hproblem (Inl (request_internal ''unreachable'')))"

definition verify_key_change :: "server_env \<Rightarrow> post \<Rightarrow> key_change_request handler" where
  "verify_key_change env p =
     hbind (verified_jws env p Rule_Kid) (\<lambda>(outer, signer). case signer of
       Signer_Key key \<Rightarrow> hproblem (Inl (request_internal ''unreachable''))
     | Signer_Account a key \<Rightarrow>
         hbind (jose_check (se_key_change env outer key)) (\<lambda>(account, new_key).
         if account \<noteq> account_url p (a_id a) then hproblem (Inl (malformed ''the key change names another account''))
         else hret \<lparr> kc_account = a, kc_new_key = new_key \<rparr>))"

text \<open>The request as HTTP brings it: its content type, the authority it names, its path and its body.\<close>

record http_request =
  hr_content_type :: "string option"
  hr_authority :: "string option"
  hr_host :: "string option"
  hr_path :: string
  hr_body :: "string + bytes"

definition request_base :: "server_env \<Rightarrow> http_request \<Rightarrow> problem + string" where
  "request_base env r =
     (let authority = (case hr_authority r of Some a \<Rightarrow> Some a | None \<Rightarrow> Option.bind (hr_host r) (se_authority env))
      in case authority of
           Some a \<Rightarrow> if CHR ''@'' \<in> set a then Inl (malformed ''the request names no host'') else Inr (''https://'' @ a)
         | None \<Rightarrow> Inl (malformed ''the request names no host''))"

definition post_of :: "server_env \<Rightarrow> http_request \<Rightarrow> refusal + post" where
  "post_of env r =
     (if map_option (\<lambda>v. trim (hd (split_char CHR '';'' v))) (hr_content_type r) \<noteq> Some ''application/jose+json''
      then Inl ((refuse (malformed ''a request must be application/jose+json''))\<lparr> rf_status := 415 \<rparr>)
      else sbind (map_sum refuse id (request_base env r)) (\<lambda>base.
           sbind (map_sum (refuse \<circ> malformed) id (hr_body r)) (\<lambda>body.
             Inr \<lparr> po_base = base, po_url = base @ hr_path r, po_accounts = base @ ''/acme/account/'', po_body = body \<rparr>)))"

section \<open>What a checked request is\<close>

lemma hbind_Inr_iff: "hbind m f s = (Inr y, s'') \<longleftrightarrow> (\<exists>x s'. m s = (Inr x, s') \<and> f x s' = (Inr y, s''))"
  by (auto simp: hbind_def split: prod.splits sum.splits)

lemma handler_simps [simp]:
  "hret x s = (Inr x, s)" "hlift r s = (r, s)" "hget f s = (Inr (f s), s)" "hset f s = (Inr (), f s)"
  by (simp_all add: hret_def hlift_def hget_def hset_def)

lemma hproblem_iff [simp]:
  "hproblem r s = (Inr y, s') \<longleftrightarrow> r = Inr y \<and> s' = s" "hproblem (Inl p) s = (Inl (refuse p), s)" "hproblem (Inr x) s = (Inr x, s)"
  by (auto simp: hproblem_def split: sum.splits)

lemma jose_check_iff [simp]: "jose_check r s = (Inr y, s') \<longleftrightarrow> r = Inr y \<and> s' = s"
  by (auto simp: jose_check_def split: sum.splits)

lemma hquery_iff [simp]: "hquery err q s = (Inr y, s') \<longleftrightarrow> q (sv_db s) = Inr y \<and> s' = s"
  by (auto simp: hquery_def split: sum.splits)

lemma htx_iff [simp]: "htx err t s = (Inr y, s') \<longleftrightarrow> (\<exists>db. t (sv_db s) = Inr (y, db) \<and> s' = s\<lparr> sv_db := db \<rparr>)"
  by (auto simp: htx_def split: sum.splits)

text \<open>An account that signs is valid, is the one its URL names, and signs with the key it is stored with.\<close>

definition account_signs :: "server_env \<Rightarrow> post \<Rightarrow> acme_db \<Rightarrow> string \<Rightarrow> account \<Rightarrow> jwk \<Rightarrow> bool" where
  "account_signs env p db kid a key \<longleftrightarrow> account_by_id (se_store env) (a_id a) db = Inr (Some a) \<and> a_status a = AccountValid
     \<and> kid = account_url p (a_id a) \<and> se_jwk env (a_jwk a) = Inr key"

lemma account_by_id_id: "account_by_id lib i db = Inr (Some a) \<Longrightarrow> a_id a = i"
  by (auto simp: account_by_id_def account_where_def account_of_row_def sbind_Inr_iff find_Some_iff split: option.splits)

lemma signing_account_iff:
  "signing_account env p kid s = (Inr signer, s') \<Longrightarrow>
   s' = s \<and> (\<exists>a key. signer = Signer_Account a key \<and> account_signs env p (sv_db s) kid a key)"
  by (auto simp: signing_account_def Let_def hbind_Inr_iff account_signs_def dest: account_by_id_id
      split: option.splits if_splits sum.splits)

lemma redeem_nonce_iff:
  "redeem_nonce n s = (Inr ok, s') \<longleftrightarrow> ok = (n \<in> nc_live (sv_nonces s)) \<and> s' = s\<lparr> sv_nonces := (sv_nonces s)\<lparr> nc_live := nc_live (sv_nonces s) - {n} \<rparr> \<rparr>"
  by (auto simp: redeem_nonce_def nonce_redeem_def)

lemma verified_jws_iff:
  assumes "verified_jws env p rule s = (Inr (jws, signer), s')"
  shows "\<exists>nonce. se_parse env (po_body p) = Inr jws \<and> jw_url jws = po_url p \<and> jw_nonce jws = Some nonce
      \<and> nonce \<in> nc_live (sv_nonces s) \<and> s' = s\<lparr> sv_nonces := (sv_nonces s)\<lparr> nc_live := nc_live (sv_nonces s) - {nonce} \<rparr> \<rparr>
      \<and> se_verify env jws (signer_key signer) = Inr ()
      \<and> (case signer of Signer_Key key \<Rightarrow> jw_key jws = By_Jwk key \<and> rule \<noteq> Rule_Kid
         | Signer_Account a key \<Rightarrow> rule \<noteq> Rule_Jwk \<and> (\<exists>kid. jw_key jws = By_Kid kid \<and> account_signs env p (sv_db s) kid a key))"
proof -
  obtain nonce s1 where parsed: "se_parse env (po_body p) = Inr jws" "jw_url jws = po_url p" "jw_nonce jws = Some nonce"
    and signed: "(case (jw_key jws, rule) of
              (By_Jwk key, Rule_Kid) \<Rightarrow> hproblem (Inl (malformed ''the JWS must name its account by kid''))
            | (By_Jwk key, _) \<Rightarrow> hret (Signer_Key key)
            | (By_Kid kid, Rule_Jwk) \<Rightarrow> hproblem (Inl (malformed ''the JWS must carry its key as jwk''))
            | (By_Kid kid, _) \<Rightarrow> signing_account env p kid) s = (Inr signer, s1)"
    and rest: "se_verify env jws (signer_key signer) = Inr ()" "nonce \<in> nc_live (sv_nonces s1)"
      "s' = s1\<lparr> sv_nonces := (sv_nonces s1)\<lparr> nc_live := nc_live (sv_nonces s1) - {nonce} \<rparr> \<rparr>"
    using assms by (auto simp: verified_jws_def hbind_Inr_iff redeem_nonce_iff split: if_splits option.splits)
  have "s1 = s \<and> (case signer of Signer_Key key \<Rightarrow> jw_key jws = By_Jwk key \<and> rule \<noteq> Rule_Kid
         | Signer_Account a key \<Rightarrow> rule \<noteq> Rule_Jwk \<and> (\<exists>kid. jw_key jws = By_Kid kid \<and> account_signs env p (sv_db s) kid a key))"
    using signed by (cases "jw_key jws"; cases rule) (auto dest: signing_account_iff)
  then show ?thesis using parsed rest by blast
qed

end
