(* ===== verification/Acme_Server.thy ===== *)
theory Acme_Server
  imports Acme_Request
begin

text \<open>
  The handlers of the ACME API, from \<^verbatim>\<open>crates/opca-acme-broker/src/acme/server.rs\<close>, each as the sequence
  of checks and store transactions the code makes, and the validations they start in the background.
\<close>

section \<open>Answers\<close>

definition url_of :: "post \<Rightarrow> string \<Rightarrow> int \<Rightarrow> string" where
  "url_of p kind i = po_base p @ ''/acme/'' @ kind @ ''/'' @ int_to_string i"

definition json_answer :: "nat \<Rightarrow> json \<Rightarrow> response" where
  "json_answer status body = \<lparr> rs_status = status, rs_location = None, rs_link = None, rs_retry_after = False, rs_body = Json_Body body \<rparr>"

definition account_json :: "post \<Rightarrow> account \<Rightarrow> json" where
  "account_json p a = JObject [(''status'', JString (account_status_str (a_status a))), (''contact'', JList (map JString (a_contacts a))),
     (''orders'', JString (account_url p (a_id a) @ ''/orders''))]"

definition optional :: "string \<Rightarrow> ('a \<Rightarrow> json) \<Rightarrow> 'a option \<Rightarrow> (string \<times> json) list" where
  "optional key f x = (case x of None \<Rightarrow> [] | Some v \<Rightarrow> [(key, f v)])"

definition order_json :: "acme_lib \<Rightarrow> post \<Rightarrow> order \<Rightarrow> json" where
  "order_json lib p ord = JObject ([(''status'', JString (order_status_str (o_status ord))),
     (''expires'', JString (al_format lib (o_expires ord))),
     (''identifiers'', JList (map (\<lambda>name. JObject [(''type'', JString ''dns''), (''value'', JString name)]) (o_identifiers ord))),
     (''authorizations'', JList (map (\<lambda>i. JString (url_of p ''authz'' i)) (o_authorisations ord))),
     (''finalize'', JString (url_of p ''order'' (o_id ord) @ ''/finalize''))]
     @ optional ''notBefore'' (\<lambda>at. JString (al_format lib at)) (o_not_before ord)
     @ optional ''notAfter'' (\<lambda>at. JString (al_format lib at)) (o_not_after ord)
     @ optional ''error'' JProblem (o_error ord)
     @ optional ''certificate'' (\<lambda>i. JString (url_of p ''cert'' i)) (o_certificate ord))"

definition challenge_json :: "acme_lib \<Rightarrow> post \<Rightarrow> challenge \<Rightarrow> json" where
  "challenge_json lib p c = JObject ([(''type'', JString (challenge_name (c_kind c))), (''url'', JString (url_of p ''challenge'' (c_id c))),
     (''status'', JString (challenge_status_str (c_status c))), (''token'', JString (c_token c))]
     @ optional ''validated'' (\<lambda>at. JString (al_format lib at)) (c_validated c) @ optional ''error'' JProblem (c_error c))"

definition authorisation_json :: "acme_lib \<Rightarrow> post \<Rightarrow> authorisation \<Rightarrow> json" where
  "authorisation_json lib p z = JObject ([(''identifier'', JObject [(''type'', JString ''dns''), (''value'', JString (z_identifier z))]),
     (''status'', JString (authorisation_status_str (z_status z))), (''expires'', JString (al_format lib (z_expires z))),
     (''challenges'', JList (map (challenge_json lib p) (z_challenges z)))]
     @ (if z_wildcard z then [(''wildcard'', JBool True)] else []))"

definition directory :: "server_env \<Rightarrow> http_request \<Rightarrow> refusal + response" where
  "directory env r = sbind (map_sum refuse id (request_base env r)) (\<lambda>base.
     let url = (\<lambda>path. JString (base @ ''/acme/'' @ path)) in
     Inr (json_answer 200 (JObject [(''newNonce'', url ''new-nonce''), (''newAccount'', url ''new-account''), (''newOrder'', url ''new-order''),
       (''revokeCert'', url ''revoke-cert''), (''keyChange'', url ''key-change'')])))"

text \<open>Every answer carries a fresh nonce, when one can be drawn.\<close>

definition stamp :: "string + bytes \<Rightarrow> server \<Rightarrow> string option \<times> server" where
  "stamp raw s = (case raw of
      Inl e \<Rightarrow> (None, s)
    | Inr b \<Rightarrow> (Some (base64url b), s\<lparr> sv_nonces := nonce_issue nonce_capacity (base64url b) (sv_nonces s) \<rparr>))"

section \<open>Rows of an account\<close>

abbreviation query :: "(acme_db \<Rightarrow> 'a stored) \<Rightarrow> 'a handler" where "query \<equiv> hquery stored_refusal"
abbreviation tx :: "(acme_db \<Rightarrow> ('a \<times> acme_db) stored) \<Rightarrow> 'a handler" where "tx \<equiv> htx stored_refusal"

definition server_expire :: "server_env \<Rightarrow> nat \<Rightarrow> unit handler" where
  "server_expire env k = tx (\<lambda>db. Inr ((), snd (expire_stale (se_store env) (se_clock env k) db)))"

definition owned_order :: "server_env \<Rightarrow> int \<Rightarrow> account \<Rightarrow> order handler" where
  "owned_order env i a =
     hbind (query (order_by_id (se_store env) i)) (\<lambda>row.
     hbind (hlift (found row ''order'')) (\<lambda>ord.
     hbind (hproblem (owned_by a (o_account ord))) (\<lambda>_. hret ord)))"

definition order_of :: "server_env \<Rightarrow> nat \<Rightarrow> int \<Rightarrow> account \<Rightarrow> order handler" where
  "order_of env k i a = hbind (server_expire env k) (\<lambda>_. owned_order env i a)"

definition authorisation_of :: "server_env \<Rightarrow> nat \<Rightarrow> int \<Rightarrow> account \<Rightarrow> authorisation handler" where
  "authorisation_of env k i a =
     hbind (server_expire env k) (\<lambda>_.
     hbind (query (authorisation_by_id (se_store env) i)) (\<lambda>row.
     hbind (hlift (found row ''authorisation'')) (\<lambda>z.
     hbind (owned_order env (z_order z) a) (\<lambda>_. hret z))))"

section \<open>Accounts\<close>

definition account_answer :: "post \<Rightarrow> nat \<Rightarrow> account \<Rightarrow> response" where
  "account_answer p status a = (json_answer status (account_json p a))\<lparr> rs_location := Some (account_url p (a_id a)) \<rparr>"

definition new_account :: "server_env \<Rightarrow> post \<Rightarrow> response handler" where
  "new_account env p =
     hbind (verify env p Rule_Jwk) (\<lambda>v.
     hbind (hproblem (parse_payload (se_account_request env) (vf_payload v))) (\<lambda>request.
     let key = signer_key (vf_signer v) in
     hbind (query (account_by_thumbprint (se_store env) (jk_thumbprint key))) (\<lambda>existing.
     hbind (case existing of
              Some a \<Rightarrow> hret (a, False)
            | None \<Rightarrow>
                if ar_only_return_existing request then hproblem (Inl (problem_new AccountDoesNotExist ''no account has this key''))
                else hbind (hproblem (contacts (case ar_contact request of None \<Rightarrow> [] | Some cs \<Rightarrow> cs))) (\<lambda>cs.
                     tx (create_account (se_store env) (jk_canonical key) (jk_thumbprint key) cs))) (\<lambda>(a, made).
     if a_status a \<noteq> AccountValid then hproblem (Inl (unauthorized (''the account is '' @ account_status_str (a_status a))))
     else hret (account_answer p (if made then 201 else 200) a)))))"

definition read_account :: "server_env \<Rightarrow> post \<Rightarrow> int \<Rightarrow> response handler" where
  "read_account env p i =
     hbind (query (account_by_id (se_store env) i)) (\<lambda>row.
     hbind (hlift (found row ''account'')) (\<lambda>a. hret (json_answer 200 (account_json p a))))"

definition account_handler :: "server_env \<Rightarrow> int \<Rightarrow> post \<Rightarrow> response handler" where
  "account_handler env i p =
     hbind (by_account env p) (\<lambda>(a, _, payload).
     hbind (hproblem (owned_by a i)) (\<lambda>_.
     hbind (if payload = [] then hret ()
            else
              hbind (hproblem (parse_payload (se_account_request env) payload)) (\<lambda>request.
              hbind (case ar_contact request of
                       None \<Rightarrow> hret ()
                     | Some cs \<Rightarrow> hbind (hproblem (contacts cs)) (\<lambda>cs. tx (\<lambda>db. Inr ((), set_contacts (se_store env) i cs db)))) (\<lambda>_.
              case ar_status request of
                None \<Rightarrow> hret ()
              | Some status \<Rightarrow>
                  if status = ''valid'' then hret ()
                  else if status = ''deactivated'' then tx (changed (set_account_status i AccountDeactivated))
                  else hproblem (Inl (malformed (''an account can'' @ [CHR 0x27] @ ''t become '' @ debug_str status)))))) (\<lambda>_.
     read_account env p i)))"

definition orders_handler :: "server_env \<Rightarrow> int \<Rightarrow> post \<Rightarrow> response handler" where
  "orders_handler env i p =
     hbind (by_account env p) (\<lambda>(a, _, payload).
     hbind (hproblem (as_get payload)) (\<lambda>_.
     hbind (hproblem (owned_by a i)) (\<lambda>_.
     hbind (query (\<lambda>db. Inr (orders_of i db))) (\<lambda>ids.
     hret (json_answer 200 (JObject [(''orders'', JList (map (\<lambda>o'. JString (url_of p ''order'' o')) ids))]))))))"

definition key_change_handler :: "server_env \<Rightarrow> post \<Rightarrow> response handler" where
  "key_change_handler env p =
     hbind (verify_key_change env p) (\<lambda>change.
     let i = a_id (kc_account change); key = kc_new_key change;
         err = (\<lambda>e. case e of Key_In_Use account \<Rightarrow>
                    \<lparr> rf_problem = malformed ''another account holds the new key'', rf_status = 409, rf_location = Some (account_url p account) \<rparr>
                  | _ \<Rightarrow> stored_refusal e) in
     hbind (htx err (changed (change_key i (jk_canonical key) (jk_thumbprint key)))) (\<lambda>_.
     read_account env p i))"

section \<open>Orders\<close>

fun names_of :: "issue_lib \<Rightarrow> string list \<Rightarrow> order_identifier list \<Rightarrow> problem + string list" where
  "names_of lib permitted [] = Inr []"
| "names_of lib permitted (identifier # rest) =
     sbind (if id_kind identifier = ''dns'' then
              let name = to_ascii_lowercase (id_value identifier) in sbind (check_identifier lib name permitted) (\<lambda>_. Inr name)
            else if id_kind identifier = ''ip'' then
              Inl (rejected (id_value identifier @ '' is an IP address, and only DNS names are issued''))
            else Inl (problem_new UnsupportedIdentifier (debug_str (id_kind identifier) @ '' identifiers are not issued''))) (\<lambda>name.
     sbind (names_of lib permitted rest) (\<lambda>names. Inr (name # names)))"

definition names :: "issue_lib \<Rightarrow> string list \<Rightarrow> order_identifier list \<Rightarrow> problem + string list" where
  "names lib permitted identifiers =
     (if identifiers = [] \<or> length identifiers > max_identifiers
      then Inl (malformed (''an order names 1 to '' @ nat_to_string max_identifiers @ '' identifiers''))
      else sbind (names_of lib permitted identifiers) (\<lambda>ns. Inr (name_set ns)))"

definition authorisation_for :: "challenge_type list \<Rightarrow> int \<Rightarrow> string \<Rightarrow> problem + new_authorisation" where
  "authorisation_for offered expires name =
     (let (identifier, wildcard) = (case strip_prefix ''*.'' name of Some base \<Rightarrow> (base, True) | None \<Rightarrow> (name, False));
          challenges = filter (\<lambda>kind. \<not> wildcard \<or> kind = Dns01) offered
      in if challenges = [] then Inl (problem_new RejectedIdentifier (name @ '' needs dns-01, which is not offered''))
         else Inr \<lparr> na_identifier = identifier, na_wildcard = wildcard, na_expires = expires, na_challenges = challenges \<rparr>)"

definition instant :: "acme_lib \<Rightarrow> string option \<Rightarrow> string \<Rightarrow> problem + int option" where
  "instant lib text what = (case text of
      None \<Rightarrow> Inr None
    | Some t \<Rightarrow> (case al_parse lib t of Inl _ \<Rightarrow> Inl (malformed (what @ '' '' @ debug_str t @ '' is not an RFC 3339 time'')) | Inr at \<Rightarrow> Inr (Some at)))"

definition new_order_handler :: "server_env \<Rightarrow> post \<Rightarrow> response handler" where
  "new_order_handler env p =
     hbind (by_account env p) (\<lambda>(a, _, payload).
     hbind (hproblem (parse_payload (se_order_request env) payload)) (\<lambda>request.
     hbind issuing (\<lambda>issuer.
     hbind (hproblem (names (se_issue env) (ic_permitted_domains (is_config issuer)) (oq_identifiers request))) (\<lambda>ns.
     let expires = al_now (se_store env) + se_lifetime env in
     hbind (hproblem (smap_all (authorisation_for (ic_challenges (is_config issuer)) expires) ns)) (\<lambda>zs.
     hbind (hproblem (instant (se_store env) (oq_not_before request) ''notBefore'')) (\<lambda>not_before.
     hbind (hproblem (instant (se_store env) (oq_not_after request) ''notAfter'')) (\<lambda>not_after.
     hbind (tx (create_order (se_store env) \<lparr> no_account = a_id a, no_identifiers = ns, no_not_before = not_before,
              no_not_after = not_after, no_expires = expires, no_authorisations = zs \<rparr>)) (\<lambda>ord.
     hret ((json_answer 201 (order_json (se_store env) p ord))\<lparr> rs_location := Some (url_of p ''order'' (o_id ord)) \<rparr>)))))))))"

definition order_handler :: "server_env \<Rightarrow> int \<Rightarrow> post \<Rightarrow> response handler" where
  "order_handler env i p =
     hbind (by_account env p) (\<lambda>(a, _, payload).
     hbind (hproblem (as_get payload)) (\<lambda>_.
     hbind (order_of env 0 i a) (\<lambda>ord.
     hret ((json_answer 200 (order_json (se_store env) p ord))\<lparr> rs_retry_after := (o_status ord = OrderProcessing) \<rparr>))))"

definition finalise_leaf :: "server_env \<Rightarrow> issuer \<Rightarrow> order \<Rightarrow> bytes \<Rightarrow> bytes \<Rightarrow> leaf handler" where
  "finalise_leaf env issuer ord csr key s =
     (case finalise_order (se_issue env) (se_store env) issuer ord csr key (sv_db s) of
        (Inl p, db) \<Rightarrow> (Inl (refuse p), s\<lparr> sv_db := db \<rparr>) | (Inr l, db) \<Rightarrow> (Inr l, s\<lparr> sv_db := db \<rparr>))"

text \<open>From the order that was read to the answer.\<close>

definition finalise_read :: "server_env \<Rightarrow> int \<Rightarrow> post \<Rightarrow> account \<Rightarrow> jwk \<Rightarrow> bytes \<Rightarrow> order \<Rightarrow> response handler" where
  "finalise_read env i p a key payload ord =
     hbind (hproblem (if o_status ord \<noteq> OrderReady then Inl (problem_new OrderNotReady (''the order is '' @ order_status_str (o_status ord))) else Inr ())) (\<lambda>_.
     hbind (hproblem (parse_payload (se_finalise_request env) payload)) (\<lambda>text.
     hbind (hproblem (case from_base64url text of None \<Rightarrow> Inl (problem_new BadCsr ''the CSR is not base64url'') | Some csr \<Rightarrow> Inr csr)) (\<lambda>csr.
     hbind issuing (\<lambda>issuer.
     hbind (finalise_leaf env issuer ord csr (jk_spki key)) (\<lambda>_.
     hbind (order_of env 1 i a) (\<lambda>ord.
     hret ((json_answer 200 (order_json (se_store env) p ord))\<lparr> rs_location := Some (url_of p ''order'' i) \<rparr>)))))))"

definition finalise_handler :: "server_env \<Rightarrow> int \<Rightarrow> post \<Rightarrow> response handler" where
  "finalise_handler env i p =
     hbind (by_account env p) (\<lambda>(a, key, payload).
     hbind (order_of env 0 i a) (\<lambda>ord. finalise_read env i p a key payload ord))"

section \<open>Authorisations and challenges\<close>

definition authorisation_handler :: "server_env \<Rightarrow> int \<Rightarrow> post \<Rightarrow> response handler" where
  "authorisation_handler env i p =
     hbind (by_account env p) (\<lambda>(a, _, payload).
     hbind (authorisation_of env 0 i a) (\<lambda>z.
     hbind (if payload = [] then hret z
            else
              hbind (hproblem (parse_payload (se_deactivation env) payload)) (\<lambda>status.
              if status \<noteq> ''deactivated'' then hproblem (Inl (malformed ''an authorisation can only be deactivated''))
              else hbind (tx (changed (set_authorisation_status i AuthDeactivated))) (\<lambda>_. authorisation_of env 1 i a))) (\<lambda>z.
     hret ((json_answer 200 (authorisation_json (se_store env) p z))
             \<lparr> rs_retry_after := list_ex (\<lambda>c. c_status c = ChalProcessing) (z_challenges z) \<rparr>))))"

definition validate_in_background :: "validation \<Rightarrow> server \<Rightarrow> server" where
  "validate_in_background v s = s\<lparr> sv_tasks := sv_tasks s @ [v] \<rparr>"

definition read_challenge :: "server_env \<Rightarrow> int \<Rightarrow> challenge handler" where
  "read_challenge env i = hbind (query (challenge_by_id (se_store env) i)) (\<lambda>row. hlift (found row ''challenge''))"

definition challenge_handler :: "server_env \<Rightarrow> int \<Rightarrow> post \<Rightarrow> response handler" where
  "challenge_handler env i p =
     hbind (by_account env p) (\<lambda>(a, _, payload).
     hbind (read_challenge env i) (\<lambda>c.
     hbind (authorisation_of env 0 (c_authorisation c) a) (\<lambda>z.
     hbind (if payload \<noteq> [] \<and> c_status c = ChalPending \<and> z_status z = AuthPending then
              hbind (hproblem (parse_payload (se_object env) payload)) (\<lambda>_.
              hbind (tx (changed (set_challenge_status (se_store env) i ChalProcessing None))) (\<lambda>_.
              hbind (hset (validate_in_background \<lparr> vn_challenge = i, vn_kind = c_kind c, vn_identifier = z_identifier z,
                       vn_key_authorisation = c_token c @ ''.'' @ a_thumbprint a \<rparr>)) (\<lambda>_.
              read_challenge env i)))
            else hret c) (\<lambda>c.
     hret ((json_answer 200 (challenge_json (se_store env) p c))
             \<lparr> rs_link := Some (''<'' @ url_of p ''authz'' (z_id z) @ ''>;rel='' @ [CHR 0x22] @ ''up'' @ [CHR 0x22]),
               rs_retry_after := (c_status c = ChalProcessing) \<rparr>)))))"

text \<open>
  A validation that ends: the validator's verdict decides the challenge. A store error is only logged.
  After a restart the challenges left processing are validated again, once.
\<close>

definition validation_ends :: "acme_lib \<Rightarrow> validation \<Rightarrow> problem + unit \<Rightarrow> server \<Rightarrow> server" where
  "validation_ends lib v outcome s =
     (let (status, err) = (case outcome of Inr _ \<Rightarrow> (ChalValid, None) | Inl p \<Rightarrow> (ChalInvalid, Some p))
      in s\<lparr> sv_tasks := remove1 v (sv_tasks s),
            sv_db := (case set_challenge_status lib (vn_challenge v) status err (sv_db s) of Inl _ \<Rightarrow> sv_db s | Inr db \<Rightarrow> db) \<rparr>)"

definition resume :: "server \<Rightarrow> server" where
  "resume s = (if sv_resumed s then s else s\<lparr> sv_resumed := True, sv_tasks := sv_tasks s @ processing (sv_db s) \<rparr>)"

section \<open>Certificates\<close>

definition certificate_handler :: "server_env \<Rightarrow> int \<Rightarrow> post \<Rightarrow> response handler" where
  "certificate_handler env i p =
     hbind (by_account env p) (\<lambda>(a, _, payload).
     hbind (hproblem (as_get payload)) (\<lambda>_.
     hbind (query (certificate_by_id (se_store env) i)) (\<lambda>row.
     hbind (hlift (found row ''certificate'')) (\<lambda>l.
     hbind (hproblem (owned_by a (l_account l))) (\<lambda>_.
     hret \<lparr> rs_status = 200, rs_location = None, rs_link = None, rs_retry_after = False, rs_body = Pem_Body (l_chain_pem l) \<rparr>)))))"

definition revocation_reasons :: "nat list" where
  "revocation_reasons = [0, 1, 2, 3, 4, 5, 6, 9, 10]"

definition revocation_reason :: "nat option \<Rightarrow> problem + nat option" where
  "revocation_reason reason = (case reason of
      None \<Rightarrow> Inr None
    | Some n \<Rightarrow> if n = 0 then Inr None else if n \<in> set revocation_reasons then Inr (Some n)
        else Inl (problem_new BadRevocationReason (nat_to_string n @ '' is not a revocation reason'')))"

definition first_is :: "issue_lib \<Rightarrow> bytes \<Rightarrow> leaf \<Rightarrow> bool" where
  "first_is lib der l = (case il_chain lib (l_chain_pem l) of Inr (c # _) \<Rightarrow> c = der | _ \<Rightarrow> False)"

definition revoke_handler :: "server_env \<Rightarrow> post \<Rightarrow> response handler" where
  "revoke_handler env p =
     hbind (verify env p Rule_Either) (\<lambda>v.
     hbind (hproblem (parse_payload (se_revocation env) (vf_payload v))) (\<lambda>request.
     hbind (hproblem (case from_base64url (rv_certificate request) of None \<Rightarrow> Inl (malformed ''the certificate is not base64url'') | Some der \<Rightarrow> Inr der)) (\<lambda>der.
     hbind (hproblem (case se_inspect env der of Inl e \<Rightarrow> Inl (malformed e) | Inr view \<Rightarrow> Inr view)) (\<lambda>(hex, spki).
     let serial = decimal hex in
     hbind (query (certificate_by_serial (se_store env) serial)) (\<lambda>row.
     hbind (hlift (found (case row of Some l \<Rightarrow> if first_is (se_issue env) der l then Some l else None | None \<Rightarrow> None) ''certificate'')) (\<lambda>l.
     if \<not> (case vf_signer v of Signer_Account a _ \<Rightarrow> a_id a = l_account l | Signer_Key key \<Rightarrow> jk_spki key = spki)
     then hproblem (Inl (unauthorized ''neither its account nor its key signed this''))
     else
     hbind (hproblem (revocation_reason (rv_reason request))) (\<lambda>reason.
     hbind (tx (store_revoke (se_store env) serial reason)) (\<lambda>_.
     hbind (hset (\<lambda>s. s\<lparr> sv_stale := True \<rparr>)) (\<lambda>_.
     hret \<lparr> rs_status = 200, rs_location = None, rs_link = None, rs_retry_after = False, rs_body = Empty_Body \<rparr>)))))))))"

section \<open>Routes\<close>

text \<open>A path's numeric id; anything else names nothing.\<close>

definition id_of :: "string \<Rightarrow> refusal + int" where
  "id_of text = (case parse_i64 text of Some i \<Rightarrow> Inr i | None \<Rightarrow> Inl (not_found ''resource''))"

datatype route = New_Account_Route | Account_Route string | Orders_Route string | Key_Change_Route | New_Order_Route
  | Order_Route string | Finalise_Route string | Authorisation_Route string | Challenge_Route string
  | Certificate_Route string | Revoke_Route

definition with_id :: "string \<Rightarrow> (int \<Rightarrow> post \<Rightarrow> response handler) \<Rightarrow> server_env \<Rightarrow> http_request \<Rightarrow> response handler" where
  "with_id text f env r = hbind (hlift (id_of text)) (\<lambda>i. hbind (hlift (post_of env r)) (f i))"

definition handle :: "server_env \<Rightarrow> route \<Rightarrow> http_request \<Rightarrow> response handler" where
  "handle env route r = (case route of
      New_Account_Route \<Rightarrow> hbind (hlift (post_of env r)) (new_account env)
    | Account_Route i \<Rightarrow> with_id i (account_handler env) env r
    | Orders_Route i \<Rightarrow> with_id i (orders_handler env) env r
    | Key_Change_Route \<Rightarrow> hbind (hlift (post_of env r)) (key_change_handler env)
    | New_Order_Route \<Rightarrow> hbind (hlift (post_of env r)) (new_order_handler env)
    | Order_Route i \<Rightarrow> with_id i (order_handler env) env r
    | Finalise_Route i \<Rightarrow> with_id i (finalise_handler env) env r
    | Authorisation_Route i \<Rightarrow> with_id i (authorisation_handler env) env r
    | Challenge_Route i \<Rightarrow> with_id i (challenge_handler env) env r
    | Certificate_Route i \<Rightarrow> with_id i (certificate_handler env) env r
    | Revoke_Route \<Rightarrow> hbind (hlift (post_of env r)) (revoke_handler env))"

end
