(* ===== verification/Acme_Served.thy ===== *)
theory Acme_Served
  imports Acme_Server
begin

text \<open>
  The ACME server over its whole life: every name on a certificate it has issued was validated for the
  order, wildcards by DNS. Handlers are composed of transactions, so what they do to the database is
  proved once for the composition and for each transaction.
\<close>

section \<open>Names in the database\<close>

abbreviation wild :: "string \<Rightarrow> bool" where "wild name \<equiv> strip_prefix ''*.'' name \<noteq> None"

text \<open>
  The columns that names depend on: an order's names, an authorisation's order, name and whether it is
  for a wildcard, a challenge's authorisation and kind, a certificate's order and names.
\<close>

type_synonym skeleton = "(int \<times> string) list \<times> (int \<times> int \<times> string \<times> bool) list \<times> (int \<times> challenge_type) list \<times> (int \<times> string) list"

definition order_names :: "acme_db \<Rightarrow> (int \<times> string) list" where
  "order_names db = map (\<lambda>r. (or_id r, or_identifiers r)) (d_orders db)"

definition authorised_names :: "acme_db \<Rightarrow> (int \<times> int \<times> string \<times> bool) list" where
  "authorised_names db = map (\<lambda>z. (az_id z, az_order z, az_identifier z, az_wildcard z)) (d_authorisations db)"

definition challenge_kinds :: "acme_db \<Rightarrow> (int \<times> challenge_type) list" where
  "challenge_kinds db = map (\<lambda>c. (ch_authorisation c, ch_kind c)) (d_challenges db)"

definition leaf_names :: "acme_db \<Rightarrow> (int \<times> string) list" where
  "leaf_names db = map (\<lambda>l. (lf_order l, lf_sans l)) (d_leaves db)"

lemmas skeleton_defs = order_names_def authorised_names_def challenge_kinds_def leaf_names_def

abbreviation skeleton :: "acme_db \<Rightarrow> skeleton" where
  "skeleton db \<equiv> (order_names db, authorised_names db, challenge_kinds db, leaf_names db)"

text \<open>Wildcards are challenged by DNS only, and every challenge has its authorisation.\<close>

definition challenges_ok :: "(int \<times> int \<times> string \<times> bool) list \<Rightarrow> (int \<times> challenge_type) list \<Rightarrow> bool" where
  "challenges_ok zs cs \<longleftrightarrow> (\<forall>k i base kind. (k, i, base, True) \<in> set zs \<longrightarrow> (k, kind) \<in> set cs \<longrightarrow> kind = Dns01)
     \<and> fst ` set cs \<subseteq> fst ` set zs"

text \<open>Lists of names are kept as text, written by \<open>jt\<close>.\<close>

definition orders_ok :: "(string list \<Rightarrow> string) \<Rightarrow> (int \<times> string) list \<Rightarrow> (int \<times> int \<times> string \<times> bool) list \<Rightarrow> bool" where
  "orders_ok jt os zs \<longleftrightarrow> (\<forall>i text. (i, text) \<in> set os \<longrightarrow> (\<exists>ns. text = jt ns
     \<and> (\<forall>n \<in> set ns. to_ascii_lowercase n = n \<and> (\<exists>k. (k, i, name_base n, wild n) \<in> set zs))))"

definition covered :: "(int \<times> int \<times> string \<times> bool) list \<Rightarrow> int \<Rightarrow> string list \<Rightarrow> bool" where
  "covered zs i ns \<longleftrightarrow> (\<forall>n \<in> set ns. \<exists>k. (k, i, name_base n, wild n) \<in> set zs)"

definition leaves_ok_in :: "(string list \<Rightarrow> string) \<Rightarrow> (int \<times> int \<times> string \<times> bool) list \<Rightarrow> (int \<times> string) list \<Rightarrow> bool" where
  "leaves_ok_in jt zs ls \<longleftrightarrow> (\<forall>i text. (i, text) \<in> set ls \<longrightarrow> (\<exists>sans. text = jt sans \<and> covered zs i sans))"

definition names_ok :: "(string list \<Rightarrow> string) \<Rightarrow> acme_db \<Rightarrow> bool" where
  "names_ok jt db \<longleftrightarrow> orders_ok jt (order_names db) (authorised_names db) \<and> challenges_ok (authorised_names db) (challenge_kinds db)
     \<and> leaves_ok_in jt (authorised_names db) (leaf_names db)"

lemma skeleton_names: "skeleton db' = skeleton db \<Longrightarrow> names_ok jt db \<Longrightarrow> names_ok jt db'"
  by (simp add: names_ok_def)

section \<open>Transactions\<close>

lemma tbl_update_view: "(\<And>r. g (f r) = g r) \<Longrightarrow> map g (tbl_update P f rows) = map g rows"
  by (simp add: tbl_update_def)

lemma settle_skeleton: "settle_order_of z db = Inr db' \<Longrightarrow> skeleton db' = skeleton db"
  by (auto simp: settle_order_of_def ready_orders_def fail_orders_def skeleton_defs tbl_update_view split: option.splits)

lemma set_authorisation_skeleton:
  assumes "set_authorisation_status i to db = Inr db'"
  shows "skeleton db' = skeleton db"
proof -
  obtain rows where rows: "transition authorisation_life i to (d_authorisations db) = Inr rows"
    and settled: "settle_order_of i (db\<lparr> d_authorisations := rows \<rparr>) = Inr db'"
    using assms by (auto simp: set_authorisation_status_def sbind_Inr_iff)
  show ?thesis
    using settle_skeleton [OF settled] authorisation_machine.transition_moves(1) [OF rows]
    by (simp add: skeleton_defs tbl_update_view authorisation_life_def)
qed

lemma set_challenge_skeleton:
  assumes "set_challenge_status lib i to err db = Inr db'"
  shows "skeleton db' = skeleton db"
proof -
  obtain f rows where f: "\<And>c. ch_id (f c) = ch_id c \<and> ch_authorisation (f c) = ch_authorisation c \<and> ch_kind (f c) = ch_kind c \<and> ch_status (f c) = to"
    and rows: "rows = tbl_update (\<lambda>c. ch_id c = i) f (d_challenges db)"
    and undecided: "decided_by to = None \<Longrightarrow> db' = db\<lparr> d_challenges := rows \<rparr>"
    and decided: "\<And>decided. decided_by to = Some decided \<Longrightarrow> \<exists>c \<in> set rows. ch_id c = i
          \<and> decide_authorisation (ch_authorisation c) decided (db\<lparr> d_challenges := rows \<rparr>) = Inr db'"
    by (rule set_challenge_status_effect [OF assms]) (rule that)
  have same: "skeleton (db\<lparr> d_challenges := rows \<rparr>) = skeleton db" using f by (simp add: rows skeleton_defs tbl_update_view)
  show ?thesis
  proof (cases "decided_by to")
    case (Some d)
    then obtain c :: challenge_row where "decide_authorisation (ch_authorisation c) d (db\<lparr> d_challenges := rows \<rparr>) = Inr db'" using decided by blast
    then show ?thesis
      unfolding decide_authorisation_def using settle_skeleton same by (fastforce simp: skeleton_defs tbl_update_view)
  qed (use undecided same in simp)
qed

lemma expire_skeleton: "skeleton (snd (expire_stale lib now db)) = skeleton db"
  by (simp add: expire_stale_def Let_def fail_orders_def skeleton_defs tbl_update_view)

lemma revoke_skeleton: "store_revoke lib serial reason db = Inr (l, db') \<Longrightarrow> skeleton db' = skeleton db"
  by (auto dest!: store_revoke_effect(1) simp: leaf_revoked_def skeleton_defs tbl_update_view)

text \<open>A new order whose names are covered by its authorisations.\<close>

definition covers :: "new_order \<Rightarrow> bool" where
  "covers new \<longleftrightarrow> (\<forall>n \<in> set (no_identifiers new). to_ascii_lowercase n = n
       \<and> (\<exists>z \<in> set (no_authorisations new). na_identifier z = name_base n \<and> na_wildcard z = wild n))
     \<and> (\<forall>z \<in> set (no_authorisations new). na_wildcard z \<longrightarrow> set (na_challenges z) \<subseteq> {Dns01})"

lemma challenges_okD: "challenges_ok zs cs \<Longrightarrow> (k, i, base, True) \<in> set zs \<Longrightarrow> (k, kind) \<in> set cs \<Longrightarrow> kind = Dns01"
  unfolding challenges_ok_def by blast

lemma challenges_ok_insert:
  "challenges_ok zs cs \<Longrightarrow> k \<in> fst ` set zs \<Longrightarrow> (\<And>i base. (k, i, base, True) \<in> set zs \<Longrightarrow> kind = Dns01) \<Longrightarrow> challenges_ok zs (cs @ [(k, kind)])"
  unfolding challenges_ok_def by auto

lemma challenges_ok_fresh:
  assumes "challenges_ok zs cs" "k \<notin> fst ` set zs"
  shows "challenges_ok (zs @ [(k, i, base, w)]) cs"
proof -
  have "(k, kind) \<notin> set cs" for kind using assms by (force simp: challenges_ok_def)
  then show ?thesis using assms(1) unfolding challenges_ok_def by auto
qed

lemma insert_challenges_names:
  "insert_challenges lib k kinds n db = Inr (m, db') \<Longrightarrow> challenges_ok (authorised_names db) (challenge_kinds db) \<Longrightarrow>
   k \<in> fst ` set (authorised_names db) \<Longrightarrow> (\<And>i base. (k, i, base, True) \<in> set (authorised_names db) \<Longrightarrow> set kinds \<subseteq> {Dns01}) \<Longrightarrow>
   challenges_ok (authorised_names db') (challenge_kinds db') \<and> order_names db' = order_names db \<and> authorised_names db' = authorised_names db
     \<and> leaf_names db' = leaf_names db"
proof (induction lib k kinds n db rule: insert_challenges.induct)
  case (2 lib k kind kinds n db)
  from "2.prems" obtain raw where raw: "al_random lib n = Inr raw" by (auto split: sum.splits)
  define c where "c = \<lparr> ch_id = next_rowid 0 (map ch_id (d_challenges db)), ch_authorisation = k, ch_kind = kind,
    ch_token = base64url raw, ch_status = ChalPending, ch_validated = None, ch_error = None \<rparr>"
  let ?db = "db\<lparr> d_challenges := d_challenges db @ [c] \<rparr>"
  have fresh: "base64url raw \<notin> ch_token ` set (d_challenges db)" and rest: "insert_challenges lib k kinds (Suc n) ?db = Inr (m, db')"
    using "2.prems"(1) raw by (auto simp: c_def Let_def split: if_splits)
  have names: "authorised_names ?db = authorised_names db" "challenge_kinds ?db = challenge_kinds db @ [(k, kind)]"
    "order_names ?db = order_names db" "leaf_names ?db = leaf_names db"
    by (simp_all add: skeleton_defs c_def)
  have "challenges_ok (authorised_names ?db) (challenge_kinds ?db)"
    unfolding names using "2.prems"(2-4) by (intro challenges_ok_insert) auto
  then have "challenges_ok (authorised_names db') (challenge_kinds db') \<and> order_names db' = order_names ?db
      \<and> authorised_names db' = authorised_names ?db \<and> leaf_names db' = leaf_names ?db"
    by (rule "2.IH" [OF raw c_def fresh rest]) (use "2.prems"(3,4) in \<open>auto simp: names\<close>)
  then show ?case unfolding names .
qed auto

lemma insert_authorisations_names:
  "insert_authorisations lib i news n db = Inr db' \<Longrightarrow> challenges_ok (authorised_names db) (challenge_kinds db) \<Longrightarrow>
   (\<And>z. z \<in> set news \<Longrightarrow> na_wildcard z \<Longrightarrow> set (na_challenges z) \<subseteq> {Dns01}) \<Longrightarrow>
   challenges_ok (authorised_names db') (challenge_kinds db') \<and> order_names db' = order_names db \<and> leaf_names db' = leaf_names db
     \<and> (\<exists>zs. authorised_names db' = authorised_names db @ zs \<and> map snd zs = map (\<lambda>z. (i, na_identifier z, na_wildcard z)) news)"
proof (induction lib i news n db rule: insert_authorisations.induct)
  case (2 lib i new news n db)
  define k where "k = next_rowid 0 (map az_id (d_authorisations db))"
  define z where "z = \<lparr> az_id = k, az_order = i, az_identifier = na_identifier new, az_wildcard = na_wildcard new,
    az_status = AuthPending, az_expires = al_format lib (na_expires new) \<rparr>"
  let ?db = "db\<lparr> d_authorisations := d_authorisations db @ [z] \<rparr>"
  from "2.prems"(1) obtain m db1 where first: "insert_challenges lib k (na_challenges new) n ?db = Inr (m, db1)"
    and rest: "insert_authorisations lib i news m db1 = Inr db'"
    by (auto simp: sbind_Inr_iff Let_def k_def z_def)
  have names: "authorised_names ?db = authorised_names db @ [(k, i, na_identifier new, na_wildcard new)]" "challenge_kinds ?db = challenge_kinds db"
    "order_names ?db = order_names db" "leaf_names ?db = leaf_names db"
    by (simp_all add: skeleton_defs z_def)
  have fresh: "k \<notin> fst ` set (authorised_names db)"
    using next_rowid_fresh [of 0 "map az_id (d_authorisations db)"] by (auto simp: k_def skeleton_defs image_iff)
  have ok: "challenges_ok (authorised_names ?db) (challenge_kinds ?db)"
    unfolding names using "2.prems"(2) fresh by (rule challenges_ok_fresh)
  have only: "set (na_challenges new) \<subseteq> {Dns01}" if "(k, i', base, True) \<in> set (authorised_names ?db)" for i' base
    using that fresh "2.prems"(3) [of new] unfolding names by force
  have added: "challenges_ok (authorised_names db1) (challenge_kinds db1)" "order_names db1 = order_names db" "leaf_names db1 = leaf_names db"
    "authorised_names db1 = authorised_names db @ [(k, i, na_identifier new, na_wildcard new)]"
  proof -
    have "k \<in> fst ` set (authorised_names ?db)" by (simp add: names)
    then have effect: "challenges_ok (authorised_names db1) (challenge_kinds db1) \<and> order_names db1 = order_names ?db
        \<and> authorised_names db1 = authorised_names ?db \<and> leaf_names db1 = leaf_names ?db"
      using only by (rule insert_challenges_names [OF first ok])
    show "challenges_ok (authorised_names db1) (challenge_kinds db1)" using effect by blast
    show "order_names db1 = order_names db" "leaf_names db1 = leaf_names db"
      "authorised_names db1 = authorised_names db @ [(k, i, na_identifier new, na_wildcard new)]"
      using effect unfolding names by blast+
  qed
  obtain zs where "authorised_names db' = authorised_names db1 @ zs" "map snd zs = map (\<lambda>z. (i, na_identifier z, na_wildcard z)) news"
    "challenges_ok (authorised_names db') (challenge_kinds db')" "order_names db' = order_names db1" "leaf_names db' = leaf_names db1"
    using "2.IH" [OF k_def z_def rest added(1)] "2.prems"(3) by auto
  then show ?case by (intro conjI exI [of _ "(k, i, na_identifier new, na_wildcard new) # zs"]) (simp_all add: added)
qed auto

lemma orders_ok_append:
  assumes "orders_ok jt os zs" "\<forall>n \<in> set ns. to_ascii_lowercase n = n \<and> (\<exists>k. (k, i, name_base n, wild n) \<in> set zs')"
  shows "orders_ok jt (os @ [(i, jt ns)]) (zs @ zs')"
  unfolding orders_ok_def
proof (intro allI impI)
  fix j u assume "(j, u) \<in> set (os @ [(i, jt ns)])"
  then consider "(j, u) \<in> set os" | "j = i" "u = jt ns" by auto
  then show "\<exists>ns. u = jt ns \<and> (\<forall>n \<in> set ns. to_ascii_lowercase n = n \<and> (\<exists>k. (k, j, name_base n, wild n) \<in> set (zs @ zs')))"
  proof cases
    case 1
    then obtain ms where "u = jt ms" "\<forall>n \<in> set ms. to_ascii_lowercase n = n \<and> (\<exists>k. (k, j, name_base n, wild n) \<in> set zs)"
      using assms(1) unfolding orders_ok_def by blast
    then show ?thesis by (intro exI [of _ ms]) auto
  next
    case 2
    then show ?thesis using assms(2) by (intro exI [of _ ns]) auto
  qed
qed

lemma covered_mono: "covered zs i ns \<Longrightarrow> covered (zs @ zs') i ns"
  by (auto simp: covered_def)

lemma leaves_ok_more: "leaves_ok_in jt zs ls \<Longrightarrow> leaves_ok_in jt (zs @ zs') ls"
  unfolding leaves_ok_in_def using covered_mono by blast

lemma leaves_ok_append: "leaves_ok_in jt zs ls \<Longrightarrow> covered zs i sans \<Longrightarrow> leaves_ok_in jt zs (ls @ [(i, jt sans)])"
  unfolding leaves_ok_in_def by auto

lemma create_order_names:
  assumes "create_order lib new db = Inr (o', db')" "covers new" "names_ok (al_json_texts lib) db"
  shows "names_ok (al_json_texts lib) db'"
proof -
  let ?jt = "al_json_texts lib"
  define i where "i = next_rowid 0 (map or_id (d_orders db))"
  define r where "r = \<lparr> or_id = i, or_account = no_account new, or_status = OrderPending,
    or_identifiers = ?jt (no_identifiers new), or_not_before = map_option (al_format lib) (no_not_before new),
    or_not_after = map_option (al_format lib) (no_not_after new), or_expires = al_format lib (no_expires new),
    or_error = None, or_certificate = None, or_created = now_text lib \<rparr>"
  let ?db = "db\<lparr> d_orders := d_orders db @ [r] \<rparr>"
  have inserted: "insert_authorisations lib i (no_authorisations new) 0 ?db = Inr db'"
    using assms(1) by (auto simp: create_order_def Let_def sbind_Inr_iff i_def r_def split: if_splits)
  have names: "order_names ?db = order_names db @ [(i, ?jt (no_identifiers new))]" "authorised_names ?db = authorised_names db"
    "challenge_kinds ?db = challenge_kinds db" "leaf_names ?db = leaf_names db"
    by (simp_all add: skeleton_defs r_def)
  have ok: "challenges_ok (authorised_names ?db) (challenge_kinds ?db)" using assms(3) by (simp add: names names_ok_def)
  have by_dns: "set (na_challenges z) \<subseteq> {Dns01}" if "z \<in> set (no_authorisations new)" "na_wildcard z" for z
    using assms(2) that by (auto simp: covers_def)
  obtain zs where zs: "authorised_names db' = authorised_names db @ zs"
      "map snd zs = map (\<lambda>z. (i, na_identifier z, na_wildcard z)) (no_authorisations new)"
    and effect: "challenges_ok (authorised_names db') (challenge_kinds db')" "order_names db' = order_names db @ [(i, ?jt (no_identifiers new))]"
      "leaf_names db' = leaf_names db"
    using insert_authorisations_names [OF inserted ok by_dns] unfolding names by blast
  have "\<exists>k. (k, i, name_base n, wild n) \<in> set zs" if n: "n \<in> set (no_identifiers new)" for n
  proof -
    obtain z where "z \<in> set (no_authorisations new)" "na_identifier z = name_base n" "na_wildcard z = wild n"
      using assms(2) n by (auto simp: covers_def)
    then have "(i, name_base n, wild n) \<in> set (map snd zs)" unfolding zs(2) by force
    then show ?thesis by force
  qed
  then have "orders_ok ?jt (order_names db') (authorised_names db')"
    using assms(2,3) unfolding effect zs(1) by (intro orders_ok_append) (auto simp: names_ok_def covers_def)
  moreover have "leaves_ok_in ?jt (authorised_names db') (leaf_names db')"
    using assms(3) unfolding names_ok_def effect zs(1) by (intro leaves_ok_more) simp
  ultimately show ?thesis using effect(1) by (simp add: names_ok_def)
qed

lemma record_names:
  assumes "record_certificate lib i issued db = Inr (l', db')" "names_ok (al_json_texts lib) db"
    and "covered (authorised_names db) i (nl_sans issued)"
  shows "names_ok (al_json_texts lib) db'"
proof -
  obtain l where db': "db' = db\<lparr> d_orders := order_recorded i (lf_id l) (d_orders db), d_leaves := d_leaves db @ [l], d_leaf_sequence := lf_id l \<rparr>"
    and l: "lf_order l = i" and sans: "lf_sans l = al_json_texts lib (nl_sans issued)"
    by (rule record_certificate_effect [OF assms(1)]) (rule that)
  have names: "order_names db' = order_names db" "authorised_names db' = authorised_names db" "challenge_kinds db' = challenge_kinds db"
    "leaf_names db' = leaf_names db @ [(i, al_json_texts lib (nl_sans issued))]"
    by (simp_all add: db' skeleton_defs order_recorded_def tbl_update_view l sans)
  show ?thesis using assms(2,3) unfolding names_ok_def names by (simp add: leaves_ok_append)
qed

section \<open>Relations every handler respects\<close>

named_theorems hobeys_rules \<open>introduction rules for the relations handlers respect\<close>

definition hobeys :: "(acme_db \<Rightarrow> acme_db \<Rightarrow> bool) \<Rightarrow> 'a handler \<Rightarrow> bool" where
  "hobeys R m \<longleftrightarrow> (\<forall>s. R (sv_db s) (sv_db (snd (m s))))"

locale database_relation =
  fixes R :: "acme_db \<Rightarrow> acme_db \<Rightarrow> bool"
  assumes same: "R d d" and compose: "R a b \<Longrightarrow> R b c \<Longrightarrow> R a c"
begin

lemma hbind_at:
  assumes "R (sv_db s) (sv_db (snd (m s)))" "\<And>x s'. m s = (Inr x, s') \<Longrightarrow> R (sv_db s') (sv_db (snd (f x s')))"
  shows "R (sv_db s) (sv_db (snd (hbind m f s)))"
proof -
  obtain r s' where m: "m s = (r, s')" by fastforce
  show ?thesis
  proof (cases r)
    case (Inr x)
    then show ?thesis using assms m compose by (simp add: hbind_def)
  qed (use assms(1) m in \<open>simp add: hbind_def\<close>)
qed

lemma obeys_bind: "hobeys R m \<Longrightarrow> (\<And>x. hobeys R (f x)) \<Longrightarrow> hobeys R (hbind m f)"
  unfolding hobeys_def by (intro allI hbind_at) blast+

lemma obeys_pure:
  "hobeys R (hret x)" "hobeys R (hlift r)" "hobeys R (hproblem q)" "hobeys R (hget g)" "hobeys R (hquery err ask)" "hobeys R (redeem_nonce n)"
  by (simp_all add: hobeys_def hret_def hlift_def hproblem_def hget_def hquery_def redeem_nonce_def same split: prod.split)

lemma obeys_set: "(\<And>s. sv_db (f s) = sv_db s) \<Longrightarrow> hobeys R (hset f)"
  by (simp add: hobeys_def hset_def same)

lemma obeys_tx: "(\<And>db x db'. t db = Inr (x, db') \<Longrightarrow> R db db') \<Longrightarrow> hobeys R (htx err t)"
  by (auto simp: hobeys_def htx_def same split: sum.split prod.split)

end

text \<open>From states of the database where \<open>P\<close> holds.\<close>

definition hobeys_from :: "(acme_db \<Rightarrow> bool) \<Rightarrow> (acme_db \<Rightarrow> acme_db \<Rightarrow> bool) \<Rightarrow> 'a handler \<Rightarrow> bool" where
  "hobeys_from P R m \<longleftrightarrow> (\<forall>s. P (sv_db s) \<longrightarrow> R (sv_db s) (sv_db (snd (m s))))"

interpretation unchanged: database_relation "(=)"
  by unfold_locales auto

lemma hobeys_from_quiet:
  assumes "hobeys (=) m" "\<And>x. hobeys_from P R (f x)" "\<And>d. R d d"
  shows "hobeys_from P R (hbind m f)"
  unfolding hobeys_from_def
proof (intro allI impI)
  fix s :: server
  assume "P (sv_db s)"
  obtain r s' where m: "m s = (r, s')" by fastforce
  then have "sv_db s' = sv_db s" using assms(1) by (auto simp: hobeys_def dest: spec [of _ s])
  moreover have "R (sv_db s') (sv_db (snd (f x s')))" for x
    using assms(2) [of x] \<open>P (sv_db s)\<close> \<open>sv_db s' = sv_db s\<close> unfolding hobeys_from_def by metis
  ultimately show "R (sv_db s) (sv_db (snd (hbind m f s)))"
    using assms(3) m by (cases r) (simp_all add: hbind_def)
qed

lemma hobeys_cases:
  "hobeys R a \<Longrightarrow> hobeys R b \<Longrightarrow> hobeys R (if c then a else b)"
  "hobeys R a \<Longrightarrow> (\<And>x. hobeys R (f x)) \<Longrightarrow> hobeys R (case_option a f v)"
  "(\<And>x y. hobeys R (g x y)) \<Longrightarrow> hobeys R (case_prod g p)"
  "(\<And>a key. hobeys R (h1 a key)) \<Longrightarrow> (\<And>key. hobeys R (h2 key)) \<Longrightarrow> hobeys R (case_signer h1 h2 signer)"
  "hobeys R (h v') \<Longrightarrow> hobeys R (Let v' h)"
  by (simp_all split: option.split prod.split signer.split)

text \<open>The states of the database that the server keeps to, and keeping to them.\<close>

definition served_ok :: "(string list \<Rightarrow> string) \<Rightarrow> acme_db \<Rightarrow> bool" where
  "served_ok jt db \<longleftrightarrow> acme_reached db \<and> names_ok jt db"

definition serves :: "(string list \<Rightarrow> string) \<Rightarrow> acme_db \<Rightarrow> acme_db \<Rightarrow> bool" where
  "serves jt db db' \<longleftrightarrow> (served_ok jt db \<longrightarrow> served_ok jt db')"

interpretation serving: database_relation "serves jt"
  by unfold_locales (simp_all add: serves_def)

lemmas serving_rules = serving.obeys_pure serving.obeys_set serving.obeys_bind hobeys_cases

declare serving_rules [hobeys_rules]

lemma serves_apply: "skeleton (acme_apply lib c db) = skeleton db \<Longrightarrow> server_call c \<Longrightarrow> serves jt db (acme_apply lib c db)"
  by (auto simp: serves_def served_ok_def intro: Acme_Call skeleton_names)

lemma serves_call: "db' = acme_apply lib c db \<Longrightarrow> skeleton db' = skeleton db \<Longrightarrow> server_call c \<Longrightarrow> serves jt db db'"
  by (simp add: serves_apply)

lemma create_account_serves: "create_account lib jwk thumbprint cs db = Inr (x, db') \<Longrightarrow> serves jt db db'"
  by (rule serves_call [of _ lib "Create_Account jwk thumbprint cs"])
     (auto simp: committed_def create_account_def Let_def sbind_Inr_iff skeleton_defs split: option.splits)

lemma set_contacts_serves: "serves jt db (set_contacts lib i cs db)"
  by (rule serves_call [of _ lib "Set_Contacts i cs"]) (simp_all add: set_contacts_def skeleton_defs)

lemma change_key_serves: "change_key i jwk thumbprint db = Inr db' \<Longrightarrow> serves jt db db'"
  by (rule serves_call [of _ undefined "Change_Key i jwk thumbprint"])
     (auto simp: committed_def change_key_def Let_def skeleton_defs split: option.splits if_splits)

lemma set_account_status_serves: "set_account_status i AccountDeactivated db = Inr db' \<Longrightarrow> serves jt db db'"
  by (rule serves_call [of _ undefined "Set_Account_Status i AccountDeactivated"], simp add: committed_def)
     (auto simp: set_account_status_def sbind_Inr_iff skeleton_defs)

lemma set_authorisation_serves: "set_authorisation_status i AuthDeactivated db = Inr db' \<Longrightarrow> serves jt db db'"
  by (rule serves_call [of _ undefined "Set_Authorisation_Status i AuthDeactivated"]) (simp_all add: committed_def set_authorisation_skeleton)

lemma set_challenge_serves: "set_challenge_status lib i to err db = Inr db' \<Longrightarrow> serves jt db db'"
  by (rule serves_call [of _ lib "Set_Challenge i to err"]) (simp_all add: committed_def set_challenge_skeleton)

lemma expire_serves: "serves jt db (snd (expire_stale lib now db))"
  by (rule serves_call [of _ lib "Expire_Stale now"]) (simp_all add: expire_skeleton)

lemma revoke_serves: "store_revoke lib serial reason db = Inr (l, db') \<Longrightarrow> serves jt db db'"
  by (rule serves_call [of _ lib "Revoke_Leaf serial reason"]) (simp_all add: committed_def revoke_skeleton)

lemma create_order_serves:
  assumes "create_order lib new db = Inr (o', db')" "covers new" "al_json_texts lib = jt"
  shows "serves jt db db'"
proof -
  have "acme_apply lib (Create_Order new) db = db'" "server_call (Create_Order new)" using assms(1) by (simp_all add: committed_def)
  then show ?thesis using create_order_names [OF assms(1,2)] assms(3) Acme_Call unfolding serves_def served_ok_def by metis
qed

lemma record_serves:
  assumes "record_certificate lib i issued db = Inr (l, db')" "al_json_texts lib = jt" "covered (authorised_names db) i (nl_sans issued)"
  shows "serves jt db db'"
proof -
  have "acme_apply lib (Record_Certificate i issued) db = db'" "server_call (Record_Certificate i issued)"
    using assms(1) by (simp_all add: committed_def)
  then show ?thesis
    using record_names [OF assms(1)] assms(2,3) Acme_Call unfolding serves_def served_ok_def by metis
qed

section \<open>Handlers\<close>

text \<open>An environment that keeps lists of names as \<open>jt\<close> does, and reads back what it keeps.\<close>

definition keeps_texts :: "(string list \<Rightarrow> string) \<Rightarrow> server_env \<Rightarrow> bool" where
  "keeps_texts jt env \<longleftrightarrow> al_json_texts (se_store env) = jt \<and> (\<forall>ns. al_read_texts (se_store env) (jt ns) = Inr ns)"

lemma obeys_changed: "(\<And>db db'. t db = Inr db' \<Longrightarrow> serves jt db db') \<Longrightarrow> hobeys (serves jt) (htx err (changed t))"
  by (rule serving.obeys_tx) (auto simp: changed_def sbind_Inr_iff)

lemma obeys_verified: "hobeys (serves jt) (verified_jws env p rule)"
  unfolding verified_jws_def jose_check_def signing_account_def
  by (intro hobeys_rules) (auto split: key_ref.split key_rule.split intro!: hobeys_rules)

lemma obeys_verify: "hobeys (serves jt) (verify env p rule)" "hobeys (serves jt) (by_account env p)" "hobeys (serves jt) (verify_key_change env p)"
  unfolding verify_def by_account_def verify_key_change_def jose_check_def by (intro hobeys_rules obeys_verified)+

lemma obeys_expire: "hobeys (serves jt) (server_expire env k)"
  unfolding server_expire_def by (rule serving.obeys_tx) (auto intro: expire_serves)

lemma obeys_reads:
  "hobeys (serves jt) (owned_order env i a)" "hobeys (serves jt) (order_of env k i a)" "hobeys (serves jt) (authorisation_of env k i a)"
  "hobeys (serves jt) (read_account env p i)" "hobeys (serves jt) (read_challenge env i)" "hobeys (serves jt) issuing"
  unfolding owned_order_def order_of_def authorisation_of_def read_account_def read_challenge_def issuing_def
  by (intro hobeys_rules obeys_expire)+

lemmas obeys_parts = obeys_verify obeys_reads obeys_expire

lemma obeys_new_account: "hobeys (serves jt) (new_account env p)"
  unfolding new_account_def by (intro hobeys_rules obeys_parts serving.obeys_tx) (auto intro: create_account_serves)

lemma obeys_account: "hobeys (serves jt) (account_handler env i p)"
  unfolding account_handler_def
  by (intro hobeys_rules obeys_parts obeys_changed serving.obeys_tx) (auto intro: set_contacts_serves set_account_status_serves)

lemma obeys_orders: "hobeys (serves jt) (orders_handler env i p)" "hobeys (serves jt) (order_handler env i p)"
  "hobeys (serves jt) (certificate_handler env i p)"
  unfolding orders_handler_def order_handler_def certificate_handler_def by (intro hobeys_rules obeys_parts)+

lemma obeys_key_change: "hobeys (serves jt) (key_change_handler env p)"
  unfolding key_change_handler_def by (intro hobeys_rules obeys_parts obeys_changed) (auto intro: change_key_serves)

lemma obeys_authorisation: "hobeys (serves jt) (authorisation_handler env i p)"
  unfolding authorisation_handler_def by (intro hobeys_rules obeys_parts obeys_changed) (auto intro: set_authorisation_serves)

lemma obeys_challenge: "hobeys (serves jt) (challenge_handler env i p)"
  unfolding challenge_handler_def
  by (intro hobeys_rules obeys_parts obeys_changed) (auto simp: validate_in_background_def intro: set_challenge_serves)

lemma obeys_revoke: "hobeys (serves jt) (revoke_handler env p)"
  unfolding revoke_handler_def
  by (intro hobeys_rules obeys_parts serving.obeys_tx) (auto intro: revoke_serves)

text \<open>A new order covers the names it was asked for.\<close>

lemma names_of_lower: "names_of lib permitted ids = Inr ns \<Longrightarrow> n \<in> set ns \<Longrightarrow> to_ascii_lowercase n = n"
  by (induction lib permitted ids arbitrary: ns rule: names_of.induct)
     (auto simp: sbind_Inr_iff Let_def dest: check_identifier_accepts(3) split: if_splits)

lemma smap_all_iff: "smap_all f xs = Inr ys \<Longrightarrow> length ys = length xs \<and> (\<forall>y \<in> set ys. \<exists>x \<in> set xs. f x = Inr y) \<and> (\<forall>x \<in> set xs. \<exists>y \<in> set ys. f x = Inr y)"
  by (induction f xs arbitrary: ys rule: smap_all.induct) (fastforce simp: sbind_Inr_iff)+

lemma authorisation_for_iff:
  "authorisation_for offered expires n = Inr z \<Longrightarrow>
   na_identifier z = name_base n \<and> na_wildcard z = wild n \<and> (na_wildcard z \<longrightarrow> set (na_challenges z) \<subseteq> {Dns01}) \<and> na_challenges z \<noteq> []"
  by (auto simp: authorisation_for_def name_base_def Let_def split: option.splits if_splits)

lemma order_covered:
  assumes "names lib permitted ids = Inr ns" "smap_all (authorisation_for offered expires) ns = Inr zs"
    and "no_identifiers new = ns" "no_authorisations new = zs"
  shows "covers new"
proof -
  obtain ms where "names_of lib permitted ids = Inr ms" "ns = name_set ms"
    using assms(1) by (auto simp: names_def sbind_Inr_iff split: if_splits)
  then have "\<forall>n \<in> set ns. to_ascii_lowercase n = n" using names_of_lower by auto
  then show ?thesis
    using smap_all_iff [OF assms(2)] authorisation_for_iff unfolding covers_def assms(3,4) by blast
qed

lemma obeys_new_order:
  assumes "keeps_texts jt env"
  shows "hobeys (serves jt) (new_order_handler env p)"
proof -
  have step: "serves jt db db'" if "names (se_issue env) permitted ids = Inr ns" "smap_all (authorisation_for offered expires) ns = Inr zs"
      "create_order (se_store env) \<lparr> no_account = a, no_identifiers = ns, no_not_before = nb, no_not_after = na, no_expires = expires,
         no_authorisations = zs \<rparr> db = Inr (o', db')" for db db' permitted ids ns offered expires zs a nb na o'
    using that assms by (auto simp: keeps_texts_def intro!: create_order_serves [OF that(3)] order_covered)
  have placed: "hobeys (serves jt) (htx err (create_order (se_store env) \<lparr> no_account = a, no_identifiers = ns, no_not_before = nb,
      no_not_after = na, no_expires = expires, no_authorisations = zs \<rparr>))"
    if "names (se_issue env) permitted ids = Inr ns" "smap_all (authorisation_for offered expires) ns = Inr zs"
    for permitted ids ns offered expires zs a nb na err
    using step [OF that] by (intro serving.obeys_tx) blast
  have after: "hobeys (serves jt) (hbind (hproblem r) f)" if "\<And>x. r = Inr x \<Longrightarrow> hobeys (serves jt) (f x)" for r :: "problem + 'x" and f :: "'x \<Rightarrow> 'y handler"
    using that by (cases r) (auto simp: hobeys_def hbind_def serves_def)
  show ?thesis
    unfolding new_order_handler_def Let_def
    by (rule serving.obeys_bind [OF obeys_parts(2)], rule hobeys_cases(3), rule hobeys_cases(3), rule after,
        rule serving.obeys_bind [OF obeys_reads(6)], rule after, rule after, rule after, rule after,
        rule serving.obeys_bind [OF placed], assumption, assumption, rule serving.obeys_pure(1))
qed

text \<open>A certificate is recorded for the names of its order.\<close>

lemma find_found: "List.find P xs = Some x \<Longrightarrow> x \<in> set xs \<and> P x"
  by (induction xs) (auto split: if_splits)

lemma order_by_id_names:
  assumes "order_by_id lib i db = Inr (Some ord)" "al_json_texts lib = jt" "\<And>ns. al_read_texts lib (jt ns) = Inr ns" "names_ok jt db"
  shows "o_id ord = i" "covered (authorised_names db) i (o_identifiers ord)" "\<forall>n \<in> set (o_identifiers ord). to_ascii_lowercase n = n"
proof -
  obtain r where r: "r \<in> set (d_orders db)" "or_id r = i" and read: "al_read_texts lib (or_identifiers r) = Inr (o_identifiers ord)" "o_id ord = i"
    using assms(1) by (auto simp: order_by_id_def sbind_Inr_iff unreadable_def split: option.splits sum.splits dest!: find_found)
  then have "(i, or_identifiers r) \<in> set (order_names db)" by (auto simp: order_names_def)
  then obtain ns where "or_identifiers r = jt ns" "\<forall>n \<in> set ns. to_ascii_lowercase n = n" "covered (authorised_names db) i ns"
    using assms(4) unfolding names_ok_def orders_ok_def covered_def by metis
  then show "o_id ord = i" "covered (authorised_names db) i (o_identifiers ord)" "\<forall>n \<in> set (o_identifiers ord). to_ascii_lowercase n = n"
    using read assms(3) by auto
qed

lemma finalise_order_serves:
  assumes "keeps_texts jt env" "order_by_id (se_store env) i db = Inr (Some ord)"
    and "finalise_order (se_issue env) (se_store env) issuer ord csr key db = (r, db')"
  shows "serves jt db db'"
proof (cases "issue_leaf (se_issue env) issuer ord csr key (al_now (se_store env))")
  case (Inl p)
  then show ?thesis using assms(3) by (simp add: finalise_order_def serves_def)
next
  case (Inr issued)
  show ?thesis
  proof (cases "record_certificate (se_store env) (o_id ord) issued db")
    case (Inl e)
    then show ?thesis using assms(3) Inr by (simp add: finalise_order_def serves_def)
  next
    case recorded: (Inr x)
    then have db': "record_certificate (se_store env) (o_id ord) issued db = Inr (fst x, db')"
      using assms(3) Inr by (auto simp: finalise_order_def split: prod.splits)
    show ?thesis
    proof (cases "names_ok jt db")
      case True
      have texts: "al_json_texts (se_store env) = jt" "\<And>ns. al_read_texts (se_store env) (jt ns) = Inr ns"
        using assms(1) by (simp_all add: keeps_texts_def)
      note ord = order_by_id_names [OF assms(2) texts True]
      have "set (nl_sans issued) = set (o_identifiers ord)"
        using issue_names_facts(2) [OF Inr] ord(3) by force
      then show ?thesis using record_serves [OF db' texts(1)] ord(1,2) by (simp add: covered_def)
    qed (simp add: serves_def served_ok_def)
  qed
qed

lemma owned_order_iff:
  "owned_order env i a s = (Inr ord, s') \<longleftrightarrow> order_by_id (se_store env) i (sv_db s) = Inr (Some ord) \<and> o_account ord = a_id a \<and> s' = s"
  by (auto simp: owned_order_def hbind_Inr_iff found_def owned_by_def split: option.splits if_splits)

lemma order_of_iff:
  "order_of env k i a s = (Inr ord, s') \<Longrightarrow> order_by_id (se_store env) i (sv_db s') = Inr (Some ord) \<and> o_account ord = a_id a"
  by (auto simp: order_of_def hbind_Inr_iff owned_order_iff)

lemma issuing_unchanged: "hobeys (=) issuing"
  unfolding issuing_def by (intro unchanged.obeys_bind unchanged.obeys_pure hobeys_cases)

lemma obeys_finalise_read:
  assumes "keeps_texts jt env"
  shows "hobeys_from (\<lambda>db. order_by_id (se_store env) i db = Inr (Some ord)) (serves jt) (finalise_read env i p a key payload ord)"
proof -
  have "serves jt (sv_db s) (sv_db (snd (finalise_leaf env issuer ord csr k s)))"
    if "order_by_id (se_store env) i (sv_db s) = Inr (Some ord)" for s issuer csr k
    using finalise_order_serves [OF assms that] by (auto simp: finalise_leaf_def split: prod.splits sum.splits)
  moreover have "hobeys (serves jt) (hbind (order_of env 1 i a) (\<lambda>ord. hret (f ord)))" for f :: "order \<Rightarrow> response"
    by (intro hobeys_rules obeys_parts)
  ultimately have "hobeys_from (\<lambda>db. order_by_id (se_store env) i db = Inr (Some ord)) (serves jt)
      (hbind (finalise_leaf env issuer ord csr k) (\<lambda>_. hbind (order_of env 1 i a) (\<lambda>ord. hret (f ord))))"
    for issuer csr k and f :: "order \<Rightarrow> response"
    unfolding hobeys_from_def hobeys_def by (metis serving.hbind_at)
  then show ?thesis
    unfolding finalise_read_def
    by (intro hobeys_from_quiet [OF unchanged.obeys_pure(3) _ serving.same] hobeys_from_quiet [OF issuing_unchanged _ serving.same])
qed

lemma obeys_finalise:
  assumes "keeps_texts jt env"
  shows "hobeys (serves jt) (finalise_handler env i p)"
proof -
  have "hobeys (serves jt) (hbind (order_of env 0 i a) (\<lambda>ord. finalise_read env i p a key payload ord))" for a key payload
    unfolding hobeys_def
  proof (intro allI serving.hbind_at)
    show "serves jt (sv_db s) (sv_db (snd (order_of env 0 i a s)))" for s using obeys_reads(2) by (simp add: hobeys_def)
    show "serves jt (sv_db s') (sv_db (snd (finalise_read env i p a key payload ord s')))"
      if "order_of env 0 i a s = (Inr ord, s')" for s ord s'
      using obeys_finalise_read [OF assms] order_of_iff [OF that] unfolding hobeys_from_def by blast
  qed
  then show ?thesis unfolding finalise_handler_def by (intro serving.obeys_bind [OF obeys_verify(2)] hobeys_cases(3))
qed

text \<open>Every request, whatever its route and outcome.\<close>

lemma obeys_handle:
  assumes "keeps_texts jt env"
  shows "hobeys (serves jt) (handle env route r)"
proof (cases route)
qed (auto simp: handle_def with_id_def intro!: hobeys_rules obeys_new_account obeys_account obeys_orders obeys_key_change
      obeys_authorisation obeys_challenge obeys_revoke obeys_new_order [OF assms] obeys_finalise [OF assms])

section \<open>The life of the server\<close>

text \<open>
  Requests with any outcome, validations that end, the operator's and opCA's calls, restarts, and
  restores of a snapshot of another state of the server.
\<close>

inductive server_reached :: "(string list \<Rightarrow> string) \<Rightarrow> server \<Rightarrow> bool" for jt where
  Server_New: "server_reached jt (server_new acme_db_new)"
| Server_Request: "server_reached jt s \<Longrightarrow> keeps_texts jt env \<Longrightarrow> server_reached jt (snd (handle env route r s))"
| Server_Stamp: "server_reached jt s \<Longrightarrow> server_reached jt (snd (stamp raw s))"
| Server_Validated: "server_reached jt s \<Longrightarrow> v \<in> set (sv_tasks s) \<Longrightarrow> server_reached jt (validation_ends lib v outcome s)"
| Server_Resume: "server_reached jt s \<Longrightarrow> server_reached jt (resume s)"
| Server_Issuer: "server_reached jt s \<Longrightarrow> server_reached jt (set_issuer issuer s)"
| Server_Paused: "server_reached jt s \<Longrightarrow> server_reached jt (set_paused p s)"
| Server_Restart: "server_reached jt s \<Longrightarrow> server_reached jt (server_new (sv_db s))"
| Server_Revoked: "server_reached jt s \<Longrightarrow> store_revoke lib serial reason (sv_db s) = Inr (l, db) \<Longrightarrow> server_reached jt (s\<lparr> sv_db := db \<rparr>)"
| Server_Crl: "server_reached jt s \<Longrightarrow> server_reached jt (s\<lparr> sv_db := snd (next_crl_number (sv_db s)) \<rparr>)"
| Server_Restore: "server_reached jt s \<Longrightarrow> server_reached jt old \<Longrightarrow> replaced (snapshot lib now (sv_db old)) (sv_db s) = Inr db \<Longrightarrow>
    server_reached jt (s\<lparr> sv_db := db \<rparr>)"

lemma restore_skeleton:
  assumes "replaced (snapshot lib now old) db = Inr db'"
  shows "skeleton db' = skeleton old"
  using assms by (auto simp: replaced_def snapshot_def Let_def skeleton_defs tbl_update_def split: if_splits)

lemma names_ok_new: "names_ok jt acme_db_new"
  by (simp add: names_ok_def skeleton_defs acme_db_new_def orders_ok_def challenges_ok_def leaves_ok_in_def)

lemma server_reached_ok: "server_reached jt s \<Longrightarrow> served_ok jt (sv_db s)"
proof (induction rule: server_reached.induct)
  case Server_New
  show ?case by (simp add: served_ok_def server_new_def names_ok_new Acme_New)
next
  case (Server_Request s env route r)
  then show ?case using obeys_handle unfolding hobeys_def serves_def by blast
next
  case (Server_Validated s v lib outcome)
  have "serves jt (sv_db s) (sv_db (validation_ends lib v outcome s))"
    by (auto simp: validation_ends_def serving.same intro: set_challenge_serves split: sum.splits)
  then show ?case using Server_Validated by (simp add: serves_def)
next
  case (Server_Revoked s lib serial reason l db)
  then show ?case using revoke_serves unfolding serves_def by fastforce
next
  case (Server_Crl s)
  have "serves jt (sv_db s) (snd (next_crl_number (sv_db s)))"
    by (rule serves_call [of _ undefined Next_Crl_Number]) (simp_all add: next_crl_number_def Let_def skeleton_defs)
  then show ?case using Server_Crl by (simp add: serves_def)
next
  case (Server_Restore s old lib now db)
  then show ?case using Acme_Restore skeleton_names restore_skeleton unfolding served_ok_def by simp blast
qed (simp_all add: stamp_def resume_def set_issuer_def set_paused_def server_new_def split: sum.split)

end
