(* ===== verification/Acme_Guarantees.thy ===== *)
theory Acme_Guarantees
  imports Acme_Served
begin

text \<open>
  What the ACME server promises after any life: every name on a certificate was validated, and a
  revocation was asked for by who may. A complete exchange, from a new account to a certificate, shows
  that such a life exists.
\<close>

section \<open>Validated names\<close>

text \<open>What the invariants of the store and the names kept in it say together.\<close>

lemma validated_names:
  assumes "server_reached jt s" "l \<in> set (d_leaves (sv_db s))"
  shows "\<exists>sans. lf_sans l = jt sans \<and> (\<forall>n \<in> set sans. \<exists>z \<in> set (d_authorisations (sv_db s)).
    az_order z = lf_order l \<and> az_identifier z = name_base n \<and> az_wildcard z = wild n
    \<and> (\<exists>c \<in> set (d_challenges (sv_db s)). ch_authorisation c = az_id z \<and> ch_status c = ChalValid \<and> (wild n \<longrightarrow> ch_kind c = Dns01)))"
proof -
  have ok: "acme_ok (sv_db s)" "names_ok jt (sv_db s)"
    using server_reached_ok [OF assms(1)] acme_reached_ok by (auto simp: served_ok_def)
  have "(lf_order l, lf_sans l) \<in> set (leaf_names (sv_db s))" using assms(2) by (auto simp: leaf_names_def)
  then obtain sans where sans: "lf_sans l = jt sans" "covered (authorised_names (sv_db s)) (lf_order l) sans"
    using ok(2) unfolding names_ok_def leaves_ok_in_def by blast
  have proven: "proven (sv_db s) (lf_order l)"
    using ok(1) assms(2) unfolding acme_ok_def leaves_ordered_def orders_proven_def by fastforce
  have "\<exists>z \<in> set (d_authorisations (sv_db s)). az_order z = lf_order l \<and> az_identifier z = name_base n \<and> az_wildcard z = wild n
    \<and> (\<exists>c \<in> set (d_challenges (sv_db s)). ch_authorisation c = az_id z \<and> ch_status c = ChalValid \<and> (wild n \<longrightarrow> ch_kind c = Dns01))"
    if n: "n \<in> set sans" for n
  proof -
    obtain k where k: "(k, lf_order l, name_base n, wild n) \<in> set (authorised_names (sv_db s))" using sans(2) n by (auto simp: covered_def)
    then obtain z where z: "z \<in> set (d_authorisations (sv_db s))" "az_id z = k" "az_order z = lf_order l" "az_identifier z = name_base n" "az_wildcard z = wild n"
      by (auto simp: authorised_names_def)
    then obtain c where c: "c \<in> set (d_challenges (sv_db s))" "ch_authorisation c = az_id z" "ch_status c = ChalValid"
      using proven by (auto simp: proven_def valid_for_def)
    then have "(k, ch_kind c) \<in> set (challenge_kinds (sv_db s))" using z(2) by (auto simp: challenge_kinds_def)
    moreover have "challenges_ok (authorised_names (sv_db s)) (challenge_kinds (sv_db s))" using ok(2) by (simp add: names_ok_def)
    ultimately have "ch_kind c = Dns01" if "wild n" using k that by (auto intro: challenges_okD)
    then have "ch_authorisation c = az_id z \<and> ch_status c = ChalValid \<and> (wild n \<longrightarrow> ch_kind c = Dns01)" using c by simp
    then have "\<exists>c \<in> set (d_challenges (sv_db s)). ch_authorisation c = az_id z \<and> ch_status c = ChalValid \<and> (wild n \<longrightarrow> ch_kind c = Dns01)"
      using c(1) by (rule bexI)
    then show ?thesis by (intro bexI [OF _ z(1)] conjI z)
  qed
  then show ?thesis by (intro exI [of _ sans] conjI ballI sans(1))
qed

text \<open>
  C3: Whatever requests, validations, restarts and restores the server has been through, every name on a
  certificate it has recorded has an authorisation in the certificate's order with a challenge that
  was validated; for a wildcard, a DNS challenge of the name below the wildcard.
\<close>

theorem issued_names_validated:
  assumes "server_reached jt s" "l \<in> set (d_leaves (sv_db s))"
  shows "\<exists>sans. lf_sans l = jt sans \<and> (\<forall>n \<in> set sans. \<exists>z \<in> set (d_authorisations (sv_db s)).
    az_order z = lf_order l \<and> az_identifier z = name_base n \<and> az_wildcard z = wild n
    \<and> (\<exists>c \<in> set (d_challenges (sv_db s)). ch_authorisation c = az_id z \<and> ch_status c = ChalValid \<and> (wild n \<longrightarrow> ch_kind c = Dns01)))"
  by (rule validated_names [OF assms])

section \<open>Authentic requests\<close>

lemma accepted_request_facts:
  assumes "by_account env p s = (Inr (a, key, payload), s')"
  shows "\<exists>jws nonce. se_parse env (po_body p) = Inr jws \<and> jw_url jws = po_url p \<and> jw_payload jws = payload
      \<and> jw_key jws = By_Kid (account_url p (a_id a)) \<and> se_verify env jws key = Inr ()
      \<and> jw_nonce jws = Some nonce \<and> nonce \<in> nc_live (sv_nonces s) \<and> nonce \<notin> nc_live (sv_nonces s')"
    and "account_by_id (se_store env) (a_id a) (sv_db s) = Inr (Some a)" "a_status a = AccountValid" "se_jwk env (a_jwk a) = Inr key"
    and "sv_db s' = sv_db s"
proof -
  obtain jws where jws: "verified_jws env p Rule_Kid s = (Inr (jws, Signer_Account a key), s')" "jw_payload jws = payload"
  proof -
    obtain v s1 where v: "verify env p Rule_Kid s = (Inr v, s1)" "(case vf_signer v of
        Signer_Account a key \<Rightarrow> hret (a, key, vf_payload v)
      | Signer_Key key \<Rightarrow> hproblem (Inl (request_internal ''unreachable''))) s1 = (Inr (a, key, payload), s')"
      using assms by (auto simp: by_account_def hbind_Inr_iff)
    then have "vf_signer v = Signer_Account a key" "vf_payload v = payload" "s1 = s'" by (auto split: signer.splits)
    then show ?thesis using v(1) that by (auto simp: verify_def hbind_Inr_iff)
  qed
  note v = verified_jws_iff [OF jws(1)]
  then show "account_by_id (se_store env) (a_id a) (sv_db s) = Inr (Some a)" "a_status a = AccountValid" "se_jwk env (a_jwk a) = Inr key"
    "sv_db s' = sv_db s"
    by (auto simp: account_signs_def)
  show "\<exists>jws nonce. se_parse env (po_body p) = Inr jws \<and> jw_url jws = po_url p \<and> jw_payload jws = payload
      \<and> jw_key jws = By_Kid (account_url p (a_id a)) \<and> se_verify env jws key = Inr ()
      \<and> jw_nonce jws = Some nonce \<and> nonce \<in> nc_live (sv_nonces s) \<and> nonce \<notin> nc_live (sv_nonces s')"
    using v jws(2) by (auto simp: account_signs_def)
qed

text \<open>
  C15: A request accepted for an account was signed, over this URL and a nonce the server had given out and
  now has taken back, by the key stored with that account, which exists and is valid.
\<close>

theorem accepted_request_authentic:
  assumes "by_account env p s = (Inr (a, key, payload), s')"
  shows "(\<exists>jws nonce. se_parse env (po_body p) = Inr jws \<and> jw_url jws = po_url p \<and> jw_payload jws = payload
      \<and> jw_key jws = By_Kid (account_url p (a_id a)) \<and> se_verify env jws key = Inr ()
      \<and> jw_nonce jws = Some nonce \<and> nonce \<in> nc_live (sv_nonces s) \<and> nonce \<notin> nc_live (sv_nonces s'))
    \<and> account_by_id (se_store env) (a_id a) (sv_db s) = Inr (Some a) \<and> a_status a = AccountValid
    \<and> se_jwk env (a_jwk a) = Inr key \<and> sv_db s' = sv_db s"
  by (intro conjI accepted_request_facts [OF assms])

lemma verify_iff:
  "verify env p rule s = (Inr v, s') \<Longrightarrow> \<exists>jws. verified_jws env p rule s = (Inr (jws, vf_signer v), s') \<and> jw_payload jws = vf_payload v"
  by (auto simp: verify_def hbind_Inr_iff)

text \<open>
  C17: A certificate is revoked through the API only by a request signed by the account that ordered it, or
  by the certificate's own key; the request names that certificate, byte for byte, and the CRL is due.
\<close>

theorem revocation_authorised:
  assumes "revoke_handler env p s = (Inr answer, s')"
  shows "\<exists>jws signer request der hex spki l reason. verified_jws env p Rule_Either s = (Inr (jws, signer), s'\<lparr> sv_db := sv_db s, sv_stale := sv_stale s \<rparr>)
    \<and> se_revocation env (jw_payload jws) = Inr request \<and> from_base64url (rv_certificate request) = Some der
    \<and> se_verify env jws (signer_key signer) = Inr () \<and> se_inspect env der = Inr (hex, spki)
    \<and> certificate_by_serial (se_store env) (decimal hex) (sv_db s) = Inr (Some l) \<and> first_is (se_issue env) der l
    \<and> (case signer of Signer_Account a key \<Rightarrow> a_id a = l_account l \<and> a_status a = AccountValid \<and> se_jwk env (a_jwk a) = Inr key
        | Signer_Key key \<Rightarrow> jk_spki key = spki)
    \<and> reason_admitted reason \<and> sv_db s' = leaf_revoked (se_store env) (decimal hex) reason (sv_db s) \<and> sv_stale s'"
proof -
  obtain v s1 request der hex spki l reason l' db where v: "verify env p Rule_Either s = (Inr v, s1)"
    and asked: "se_revocation env (vf_payload v) = Inr request" "from_base64url (rv_certificate request) = Some der"
    and found: "se_inspect env der = Inr (hex, spki)" "certificate_by_serial (se_store env) (decimal hex) (sv_db s1) = Inr (Some l)"
      "first_is (se_issue env) der l"
    and right: "case vf_signer v of Signer_Account a _ \<Rightarrow> a_id a = l_account l | Signer_Key key \<Rightarrow> jk_spki key = spki"
    and revoked: "store_revoke (se_store env) (decimal hex) reason (sv_db s1) = Inr (l', db)" "s' = s1\<lparr> sv_db := db, sv_stale := True \<rparr>"
    using assms
    by (auto simp: revoke_handler_def hbind_Inr_iff Let_def found_def parse_payload_def split: if_splits option.splits sum.splits)
  obtain jws where jws: "verified_jws env p Rule_Either s = (Inr (jws, vf_signer v), s1)" "jw_payload jws = vf_payload v" using verify_iff [OF v] by blast
  note signed = verified_jws_iff [OF jws(1)]
  then have db: "sv_db s1 = sv_db s" "sv_stale s1 = sv_stale s" by auto
  have "s1 = s'\<lparr> sv_db := sv_db s, sv_stale := sv_stale s \<rparr>" using revoked(2) db by simp
  moreover have "case vf_signer v of Signer_Account a key \<Rightarrow> a_id a = l_account l \<and> a_status a = AccountValid \<and> se_jwk env (a_jwk a) = Inr key
        | Signer_Key key \<Rightarrow> jk_spki key = spki"
    using right signed by (auto simp: account_signs_def split: signer.splits)
  moreover have "sv_db s' = leaf_revoked (se_store env) (decimal hex) reason (sv_db s)" "reason_admitted reason" "sv_stale s'"
    using store_revoke_effect(1,3) [OF revoked(1)] revoked(2) db by simp_all
  ultimately show ?thesis
    using jws signed found db asked
    by (intro exI [of _ jws] exI [of _ "vf_signer v"] exI [of _ request] exI [of _ der] exI [of _ hex] exI [of _ spki] exI [of _ l] exI [of _ reason]) auto
qed

section \<open>An example\<close>

text \<open>Lists of texts, each character marked and each text ended.\<close>

definition write_texts :: "string list \<Rightarrow> string" where
  "write_texts ns = concat (map (\<lambda>n. concat (map (\<lambda>c. [CHR ''x'', c]) n) @ ''e'') ns)"

fun split_texts :: "string \<Rightarrow> string \<Rightarrow> string list" where
  "split_texts acc [] = []"
| "split_texts acc [m] = [acc]"
| "split_texts acc (m # c # rest) = (if m = CHR ''x'' then split_texts (acc @ [c]) rest else acc # split_texts [] (c # rest))"

lemma split_one: "split_texts acc (concat (map (\<lambda>c. [CHR ''x'', c]) n) @ CHR ''e'' # rest) = (acc @ n) # split_texts [] rest"
proof (induction n arbitrary: acc)
  case Nil
  show ?case by (cases rest) simp_all
qed simp

lemma write_texts_back: "split_texts [] (write_texts ns) = ns"
  by (induction ns) (simp_all add: write_texts_def split_one)

definition example_jwk :: jwk where
  "example_jwk = \<lparr> jk_thumbprint = ''print'', jk_canonical = ''key'', jk_spki = [9] \<rparr>"

definition example_server_env :: server_env where
  "example_server_env = \<lparr> se_store = example_lib\<lparr> al_json_texts := write_texts, al_read_texts := (\<lambda>t. Inr (split_texts [] t)), al_now := day_ns,
       al_format := (\<lambda>t. if t \<le> 0 then [] else ''1'') \<rparr>,
     se_issue = example_issue_lib,
     se_parse = (\<lambda>b. Inr \<lparr> jw_url = ''https://h/x'', jw_nonce = Some [],
       jw_key = (if b = [0] then By_Jwk example_jwk else By_Kid ''https://h/acme/account/1''), jw_payload = b \<rparr>),
     se_verify = (\<lambda>jws key. Inr ()), se_key_change = (\<lambda>jws key. Inl \<lparr> je_kind = Other_Kind, je_text = [] \<rparr>),
     se_jwk = (\<lambda>text. Inr example_jwk),
     se_account_request = (\<lambda>b. Inr \<lparr> ar_contact = None, ar_only_return_existing = False, ar_status = None \<rparr>),
     se_order_request = (\<lambda>b. Inr \<lparr> oq_identifiers = [\<lparr> id_kind = ''dns'', id_value = ''home.test'' \<rparr>], oq_not_before = None, oq_not_after = None \<rparr>),
     se_finalise_request = (\<lambda>b. Inr ''AQ''), se_deactivation = (\<lambda>b. Inl []), se_object = (\<lambda>b. Inr ()), se_revocation = (\<lambda>b. Inl []),
     se_inspect = (\<lambda>der. Inl []), se_authority = Some, se_clock = (\<lambda>k. 0), se_lifetime = order_lifetime \<rparr>"

definition example_request :: "bytes \<Rightarrow> http_request" where
  "example_request body = \<lparr> hr_content_type = Some ''application/jose+json'', hr_authority = Some ''h'', hr_host = None, hr_path = ''/x'', hr_body = Inr body \<rparr>"

lemma example_keeps_texts: "keeps_texts write_texts example_server_env"
  by (simp add: keeps_texts_def example_server_env_def write_texts_back)

lemma example_post: "post_of example_server_env (example_request b)
   = Inr \<lparr> po_base = ''https://h'', po_url = ''https://h/x'', po_accounts = ''https://h/acme/account/'', po_body = b \<rparr>"
proof -
  have "hd (split_char CHR '';'' ''application/jose+json'') = ''application/jose+json''" "list_all is_ascii_graphic ''application/jose+json''"
    by code_simp+
  then have "trim (hd (split_char CHR '';'' ''application/jose+json'')) = ''application/jose+json''" using trim_graphic by metis
  then show ?thesis by (simp add: post_of_def example_request_def request_base_def sbind_def)
qed

definition example_server :: server where
  "example_server = set_issuer example_issuer (server_new acme_db_new)"


lemma example_words: "parse_i64 ''1'' = Some 1" "int_to_string 1 = ''1''" "from_base64url ''AQ'' = Some [1]"
  "strip_prefix ''https://h/acme/account/'' ''https://h/acme/account/1'' = Some ''1''"
proof -
  have "sextet CHR ''A'' = Some 0" "sextet CHR ''Q'' = Some 16" by code_simp+
  then show "from_base64url ''AQ'' = Some [1]" by (simp add: from_base64url_def)
qed code_simp+

lemma example_env_simps:
  "se_parse example_server_env b = Inr \<lparr> jw_url = ''https://h/x'', jw_nonce = Some [],
     jw_key = (if b = [0] then By_Jwk example_jwk else By_Kid ''https://h/acme/account/1''), jw_payload = b \<rparr>"
  "se_verify example_server_env jws key = Inr ()" "se_jwk example_server_env text = Inr example_jwk"
  "se_account_request example_server_env b = Inr \<lparr> ar_contact = None, ar_only_return_existing = False, ar_status = None \<rparr>"
  "se_order_request example_server_env b = Inr \<lparr> oq_identifiers = [\<lparr> id_kind = ''dns'', id_value = ''home.test'' \<rparr>], oq_not_before = None, oq_not_after = None \<rparr>"
  "se_finalise_request example_server_env b = Inr ''AQ''" "se_object example_server_env b = Inr ()" "se_clock example_server_env k = 0"
  "se_issue example_server_env = example_issue_lib" "se_lifetime example_server_env = order_lifetime"
  "al_json_texts (se_store example_server_env) = write_texts" "al_read_texts (se_store example_server_env) text = Inr (split_texts [] text)"
  "al_parse (se_store example_server_env) text = Inr 0" "al_now (se_store example_server_env) = day_ns"
  "al_format (se_store example_server_env) t = (if t \<le> 0 then [] else ''1'')" "al_random (se_store example_server_env) n = Inr (replicate n 0)"
  by (simp_all add: example_server_env_def example_lib_def)

abbreviation example_po :: "bytes \<Rightarrow> post" where
  "example_po b \<equiv> \<lparr> po_base = ''https://h'', po_url = ''https://h/x'', po_accounts = ''https://h/acme/account/'', po_body = b \<rparr>"

lemmas handler_eval = hbind_def hret_def hlift_def hproblem_def hquery_def htx_def hget_def hset_def jose_check_def changed_def sbind_def Let_def

text \<open>Each request is stamped with the empty nonce first, and signed.\<close>

lemma example_verify:
  assumes "nc_live (sv_nonces s) = {[]}"
  shows "b \<noteq> [0] \<Longrightarrow> account_by_id (se_store example_server_env) 1 (sv_db s) = Inr (Some a) \<Longrightarrow> a_status a = AccountValid \<Longrightarrow>
      by_account example_server_env (example_po b) s = (Inr (a, example_jwk, b), s\<lparr> sv_nonces := (sv_nonces s)\<lparr> nc_live := {} \<rparr> \<rparr>)"
    and "verify example_server_env (example_po [0]) Rule_Jwk s
      = (Inr \<lparr> vf_signer = Signer_Key example_jwk, vf_payload = [0] \<rparr>, s\<lparr> sv_nonces := (sv_nonces s)\<lparr> nc_live := {} \<rparr> \<rparr>)"
  using assms by (simp_all add: by_account_def verify_def verified_jws_def signing_account_def handler_eval redeem_nonce_def nonce_redeem_def
      example_env_simps account_url_def example_words)

definition stamped :: "server \<Rightarrow> server" where
  "stamped s = snd (stamp (Inr []) s)"

lemma stamped_simps:
  "sv_nonces s = \<lparr> nc_live = {}, nc_issued = ns \<rparr> \<Longrightarrow> length ns < 4096 \<Longrightarrow>
   stamped s = s\<lparr> sv_nonces := \<lparr> nc_live = {[]}, nc_issued = ns @ [[]] \<rparr> \<rparr>"
  by (cases ns) (simp_all add: stamped_def stamp_def nonce_issue_def nonce_capacity_def)

definition example_row :: account_row where
  "example_row = \<lparr> ac_id = 1, ac_jwk = ''key'', ac_thumbprint = ''print'', ac_status = AccountValid, ac_contacts = write_texts [], ac_created = ''1'' \<rparr>"

definition db_1 :: acme_db where "db_1 = acme_db_new\<lparr> d_accounts := [example_row] \<rparr>"

abbreviation example_state :: "acme_db \<Rightarrow> string list \<Rightarrow> validation list \<Rightarrow> server" where
  "example_state db ns tasks \<equiv> \<lparr> sv_db = db, sv_nonces = \<lparr> nc_live = {[]}, nc_issued = ns \<rparr>, sv_issuer = Some example_issuer,
     sv_paused = False, sv_resumed = False, sv_tasks = tasks, sv_stale = False \<rparr>"

abbreviation spent :: "server \<Rightarrow> server" where
  "spent s \<equiv> s\<lparr> sv_nonces := (sv_nonces s)\<lparr> nc_live := {} \<rparr> \<rparr>"

lemmas store_eval = account_by_thumbprint_def account_by_id_def account_where_def create_account_def account_of_row_def
  next_rowid_def now_text_def unreadable_def read_time_def optional_time_def optional_problem_def write_texts_back
  create_order_def order_by_id_def authorisation_by_id_def challenge_by_id_def challenge_of_row_def
  set_challenge_status_def transition_def read_status_def challenge_life_def order_life_def challenge_may_become_def order_may_become_def
  decide_authorisation_def settle_order_of_def fail_orders_def ready_orders_def has_failed_def all_valid_def tbl_update_def
  expire_stale_def record_certificate_def leaf_of_row_def next_change_def day_ns_def second_ns_def order_lifetime_def

lemma step_account: "snd (handle example_server_env New_Account_Route (example_request [0]) (example_state acme_db_new ns []))
   = spent (example_state db_1 ns [])"
  by (simp add: handle_def handler_eval example_post new_account_def example_verify parse_payload_def example_env_simps
      store_eval db_1_def example_row_def acme_db_new_def example_jwk_def)

definition example_order_row :: "order_status \<Rightarrow> order_row" where
  "example_order_row st = \<lparr> or_id = 1, or_account = 1, or_status = st, or_identifiers = write_texts [''home.test''], or_not_before = None,
     or_not_after = None, or_expires = ''1'', or_error = None, or_certificate = None, or_created = ''1'' \<rparr>"

definition example_auth_row :: "authorisation_status \<Rightarrow> authorisation_row" where
  "example_auth_row st = \<lparr> az_id = 1, az_order = 1, az_identifier = ''home.test'', az_wildcard = False, az_status = st, az_expires = ''1'' \<rparr>"

definition example_challenge_row :: "int \<Rightarrow> challenge_type \<Rightarrow> string \<Rightarrow> challenge_status \<Rightarrow> string option \<Rightarrow> challenge_row" where
  "example_challenge_row i kind token st at = \<lparr> ch_id = i, ch_authorisation = 1, ch_kind = kind, ch_token = token, ch_status = st, ch_validated = at, ch_error = None \<rparr>"

definition db_2 :: "order_status \<Rightarrow> authorisation_status \<Rightarrow> challenge_status \<Rightarrow> string option \<Rightarrow> acme_db" where
  "db_2 o' z c at = db_1\<lparr> d_orders := [example_order_row o'], d_authorisations := [example_auth_row z],
     d_challenges := [example_challenge_row 1 Http01 [] c at, example_challenge_row 2 Dns01 ''AA'' ChalPending None] \<rparr>"

lemma example_token: "encode_chunk [0] = ''AA''"
  by (simp add: encode_chunk_def alphabet_def)

lemma example_checked: "check_identifier example_issue_lib ''home.test'' [''test''] = Inr ()"
proof -
  have "strip_prefix ''*.'' ''home.test'' = None" "ends_with ''.'' ''home.test'' = False" by code_simp+
  then show ?thesis by (simp add: check_identifier_def example_host example_issue_lib_def)
qed

lemma example_names: "names example_issue_lib [''test''] [\<lparr> id_kind = ''dns'', id_value = ''home.test'' \<rparr>] = Inr [''home.test'']"
  by (simp add: names_def max_identifiers_def sbind_def example_host example_checked name_set_def)

lemma example_authorisation: "authorisation_for [Http01, Dns01] e ''home.test'' = Inr \<lparr> na_identifier = ''home.test'', na_wildcard = False,
    na_expires = e, na_challenges = [Http01, Dns01] \<rparr>"
proof -
  have "strip_prefix ''*.'' ''home.test'' = None" by code_simp
  then show ?thesis by (simp add: authorisation_for_def)
qed

lemma example_read_account: "account_by_id (se_store example_server_env) 1 (db\<lparr> d_accounts := [example_row] \<rparr>) = Inr (Some
    \<lparr> a_id = 1, a_jwk = ''key'', a_thumbprint = ''print'', a_status = AccountValid, a_contacts = [], a_created = 0 \<rparr>)"
  by (simp add: account_by_id_def account_where_def account_of_row_def sbind_def unreadable_def read_time_def example_env_simps example_row_def write_texts_back)

lemma example_issuing: "issuing (example_state db ns ts) = (Inr example_issuer, example_state db ns ts)"
  "issuing (spent (example_state db ns ts)) = (Inr example_issuer, spent (example_state db ns ts))"
  by (simp_all add: issuing_def handler_eval)

lemma example_config: "ic_permitted_domains (is_config example_issuer) = [''test'']" "ic_challenges (is_config example_issuer) = [Http01, Dns01]"
  by (simp_all add: example_issuer_def)

abbreviation example_account :: account where
  "example_account \<equiv> \<lparr> a_id = 1, a_jwk = ''key'', a_thumbprint = ''print'', a_status = AccountValid, a_contacts = [], a_created = 0 \<rparr>"

lemma example_signed:
  assumes "account_by_id (se_store example_server_env) 1 db = Inr (Some example_account)" "b \<noteq> [0]"
  shows "by_account example_server_env (example_po b) (example_state db ns ts) = (Inr (example_account, example_jwk, b), spent (example_state db ns ts))"
  using example_verify(1) [of "example_state db ns ts" b example_account] assms by simp

lemmas example_rows = db_2_def db_1_def example_row_def acme_db_new_def example_order_row_def example_auth_row_def example_challenge_row_def

lemma example_created:
  "\<exists>ord. create_order (se_store example_server_env) \<lparr> no_account = 1, no_identifiers = [''home.test''], no_not_before = None, no_not_after = None,
     no_expires = day_ns + order_lifetime, no_authorisations = [\<lparr> na_identifier = ''home.test'', na_wildcard = False,
     na_expires = day_ns + order_lifetime, na_challenges = [Http01, Dns01] \<rparr>] \<rparr> db_1 = Inr (ord, db_2 OrderPending AuthPending ChalPending None)"
  by (simp add: create_order_def example_rows example_env_simps next_rowid_def now_text_def order_lifetime_def Let_def sbind_def
      order_by_id_def unreadable_def read_time_def optional_time_def optional_problem_def write_texts_back day_ns_def second_ns_def example_token)

lemma step_order: "snd (handle example_server_env New_Order_Route (example_request [1]) (example_state db_1 ns []))
   = spent (example_state (db_2 OrderPending AuthPending ChalPending None) ns [])"
proof -
  have account: "account_by_id (se_store example_server_env) 1 db_1 = Inr (Some example_account)"
    unfolding db_1_def by (rule example_read_account)
  note signed = example_signed [OF account, of "[1]" ns "[]", simplified]
  obtain ord where created: "create_order (se_store example_server_env) \<lparr> no_account = 1, no_identifiers = [''home.test''], no_not_before = None, no_not_after = None,
     no_expires = day_ns + order_lifetime, no_authorisations = [\<lparr> na_identifier = ''home.test'', na_wildcard = False,
     na_expires = day_ns + order_lifetime, na_challenges = [Http01, Dns01] \<rparr>] \<rparr> db_1 = Inr (ord, db_2 OrderPending AuthPending ChalPending None)"
    using example_created by blast
  show ?thesis
    by (simp add: handle_def handler_eval example_post new_order_handler_def signed parse_payload_def example_env_simps
        example_issuing [simplified] example_config example_names example_authorisation instant_def created)
qed

lemma example_reads:
  "account_by_id (se_store example_server_env) 1 (db_2 o' z c at) = Inr (Some example_account)"
  "snd (expire_stale (se_store example_server_env) 0 (db_2 OrderPending AuthPending c at)) = db_2 OrderPending AuthPending c at"
  "snd (expire_stale (se_store example_server_env) 0 (db_2 OrderReady AuthValid c at)) = db_2 OrderReady AuthValid c at"
  by (simp_all add: example_rows account_by_id_def account_where_def account_of_row_def sbind_def unreadable_def read_time_def
      example_env_simps write_texts_back expire_stale_def Let_def tbl_update_def fail_orders_def has_failed_def)

lemma example_read_order:
  "\<exists>ord. order_by_id (se_store example_server_env) 1 (db_2 o' z c at) = Inr (Some ord) \<and> o_account ord = 1 \<and> o_status ord = o' \<and> o_id ord = 1
     \<and> o_identifiers ord = [''home.test''] \<and> o_not_before ord = None \<and> o_not_after ord = None"
  by (simp add: example_rows order_by_id_def sbind_def unreadable_def read_time_def optional_time_def optional_problem_def example_env_simps write_texts_back)

definition example_read :: "int \<Rightarrow> challenge_type \<Rightarrow> string \<Rightarrow> challenge_status \<Rightarrow> string option \<Rightarrow> challenge" where
  "example_read i kind token st at = \<lparr> c_id = i, c_authorisation = 1, c_kind = kind, c_token = token, c_status = st, c_validated = map_option (\<lambda>_. 0) at, c_error = None \<rparr>"

lemma example_read_challenge: "challenge_by_id (se_store example_server_env) 1 (db_2 o' z c at) = Inr (Some (example_read 1 Http01 [] c at))"
  by (cases at) (simp_all add: example_rows example_read_def challenge_by_id_def challenge_of_row_def sbind_def unreadable_def read_time_def
      optional_time_def optional_problem_def example_env_simps)

lemma example_read_authorisation:
  "\<exists>y. authorisation_by_id (se_store example_server_env) 1 (db_2 o' z c None) = Inr (Some y) \<and> z_order y = 1 \<and> z_status y = z \<and> z_identifier y = ''home.test''"
  by (simp add: example_rows authorisation_by_id_def challenge_of_row_def sbind_def unreadable_def read_time_def
      optional_time_def optional_problem_def example_env_simps)

lemma example_processing: "set_challenge_status (se_store example_server_env) 1 ChalProcessing None (db_2 OrderPending AuthPending ChalPending None)
   = Inr (db_2 OrderPending AuthPending ChalProcessing None)"
  by (simp add: example_rows set_challenge_status_def transition_def read_status_def challenge_life_def challenge_may_become_def sbind_def
      tbl_update_def Let_def)

definition example_validation :: validation where
  "example_validation = \<lparr> vn_challenge = 1, vn_kind = Http01, vn_identifier = ''home.test'', vn_key_authorisation = ''.print'' \<rparr>"

lemma step_challenge: "snd (handle example_server_env (Challenge_Route ''1'') (example_request [2]) (example_state (db_2 OrderPending AuthPending ChalPending None) ns []))
   = spent (example_state (db_2 OrderPending AuthPending ChalProcessing None) ns [example_validation])"
proof -
  note signed = example_signed [OF example_reads(1), of "[2]" _ _ _ _ ns "[]", simplified]
  obtain ord where ord: "order_by_id (se_store example_server_env) 1 (db_2 OrderPending AuthPending ChalPending None) = Inr (Some ord)" "o_account ord = 1"
    using example_read_order by blast
  obtain y where y: "authorisation_by_id (se_store example_server_env) 1 (db_2 OrderPending AuthPending ChalPending None) = Inr (Some y)"
    "z_order y = 1" "z_status y = AuthPending" "z_identifier y = ''home.test''"
    using example_read_authorisation by blast
  show ?thesis
    by (simp add: handle_def with_id_def id_of_def example_words handler_eval example_post challenge_handler_def signed read_challenge_def
        example_read_challenge example_read_def found_def authorisation_of_def server_expire_def example_env_simps example_reads owned_order_def
        owned_by_def ord y parse_payload_def example_processing validate_in_background_def example_validation_def)
qed

lemma step_validated: "validation_ends (se_store example_server_env) example_validation (Inr ())
     (example_state (db_2 OrderPending AuthPending ChalProcessing None) ns [example_validation])
   = example_state (db_2 OrderReady AuthValid ChalValid (Some ''1'')) ns []"
  by (simp add: validation_ends_def example_validation_def example_rows set_challenge_status_def transition_def read_status_def challenge_life_def
      challenge_may_become_def sbind_def tbl_update_def Let_def decide_authorisation_def settle_order_of_def fail_orders_def ready_orders_def
      has_failed_def all_valid_def now_text_def example_env_simps day_ns_def second_ns_def)

lemma example_issues_for:
  assumes "o_identifiers ord = [''home.test'']" "o_not_before ord = None" "o_not_after ord = None"
  shows "\<exists>new. issue_leaf example_issue_lib example_issuer ord [1] [9] day_ns = Inr new"
proof -
  have same: "issue_leaf example_issue_lib example_issuer ord [1] [9] day_ns = issue_leaf example_issue_lib example_issuer example_ready_order [1] [9] day_ns"
  proof -
    have asked: "leaf_validity i ord now = leaf_validity i example_ready_order now" "o_identifiers ord = o_identifiers example_ready_order" for i now
      by (simp_all add: leaf_validity_def assms example_ready_order_def)
    show ?thesis unfolding issue_leaf_def asked ..
  qed
  show ?thesis unfolding same by (rule example_issues)
qed

lemma example_recorded:
  "\<exists>l db'. record_certificate (se_store example_server_env) 1 new (db_2 OrderReady AuthValid ChalValid at) = Inr (l, db') \<and> d_leaves db' \<noteq> []"
  by (simp add: example_rows record_certificate_def transition_def read_status_def order_life_def order_may_become_def sbind_def Let_def tbl_update_def
      leaf_of_row_def unreadable_def read_time_def optional_time_def example_env_simps)

lemma step_finalise:
  "d_leaves (sv_db (snd (handle example_server_env (Finalise_Route ''1'') (example_request [3])
     (example_state (db_2 OrderReady AuthValid ChalValid (Some ''1'')) ns [])))) \<noteq> []"
proof -
  let ?db = "db_2 OrderReady AuthValid ChalValid (Some ''1'')"
  let ?s = "spent (example_state ?db ns [])"
  note signed = example_signed [OF example_reads(1), of "[3]" _ _ _ _ ns "[]", simplified]
  obtain ord where ord: "order_by_id (se_store example_server_env) 1 ?db = Inr (Some ord)" "o_account ord = 1" "o_status ord = OrderReady"
      "o_id ord = 1" and asked: "o_identifiers ord = [''home.test'']" "o_not_before ord = None" "o_not_after ord = None"
    using example_read_order by blast
  obtain new where new: "issue_leaf example_issue_lib example_issuer ord [1] [9] day_ns = Inr new" using example_issues_for [OF asked] by blast
  obtain l db' where recorded: "record_certificate (se_store example_server_env) 1 new ?db = Inr (l, db')" "d_leaves db' \<noteq> []"
    using example_recorded by blast
  have again: "sv_db (snd (hbind (order_of example_server_env k i a) (\<lambda>ord. hret (f ord)) s)) = snd (expire_stale (se_store example_server_env) 0 (sv_db s))"
    for k i a s and f :: "order \<Rightarrow> response"
    by (simp add: order_of_def server_expire_def owned_order_def handler_eval example_env_simps split: prod.splits sum.splits)
  have kept: "d_leaves (snd (expire_stale lib now d)) = d_leaves d" for lib now d
    by (simp add: expire_stale_def Let_def fail_orders_def)
  have leaf: "finalise_leaf example_server_env example_issuer ord [1] [9] ?s = (Inr l, ?s\<lparr> sv_db := db' \<rparr>)"
    by (simp add: finalise_leaf_def finalise_order_def example_env_simps new ord recorded)
  have read: "order_of example_server_env 0 1 example_account ?s = (Inr ord, ?s)"
    by (simp add: order_of_def server_expire_def owned_order_def handler_eval example_env_simps example_reads found_def owned_by_def ord)
  have "finalise_read example_server_env 1 (example_po [3]) example_account example_jwk [3] ord ?s
      = hbind (order_of example_server_env 1 1 example_account) (\<lambda>ord. hret ((json_answer 200 (order_json (se_store example_server_env) (example_po [3]) ord))
          \<lparr> rs_location := Some (url_of (example_po [3]) ''order'' 1) \<rparr>)) (?s\<lparr> sv_db := db' \<rparr>)"
    by (simp add: finalise_read_def handler_eval ord parse_payload_def example_env_simps example_words example_issuing [simplified] leaf [simplified] example_jwk_def)
  then have "sv_db (snd (finalise_read example_server_env 1 (example_po [3]) example_account example_jwk [3] ord ?s))
      = snd (expire_stale (se_store example_server_env) 0 db')"
    using again by simp
  then have "d_leaves (sv_db (snd (finalise_read example_server_env 1 (example_po [3]) example_account example_jwk [3] ord ?s))) \<noteq> []"
    using kept recorded(2) by simp
  then show ?thesis
    by (simp add: handle_def with_id_def id_of_def example_words handler_eval example_post finalise_handler_def signed read [simplified])
qed

lemma example_restamped:
  assumes "server_reached jt (spent (example_state db ns ts))" "length ns < 4096"
  shows "server_reached jt (example_state db (ns @ [[]]) ts)"
  using Server_Stamp [OF assms(1), of "Inr []"] stamped_simps [of "spent (example_state db ns ts)" ns] assms(2) by (simp add: stamped_def)

lemma example_life:
  "server_reached write_texts (example_state (db_2 OrderReady AuthValid ChalValid (Some ''1'')) (replicate 4 []) [])"
proof -
  let ?R = "server_reached write_texts"
  have "?R (spent (example_state acme_db_new [] []))"
    using Server_Issuer [OF Server_New, of write_texts example_issuer] by (simp add: set_issuer_def server_new_def nonces_new_def)
  note start = example_restamped [OF this, simplified]
  have "?R (spent (example_state db_1 [[]] []))"
    using Server_Request [OF start example_keeps_texts, of New_Account_Route "example_request [0]"] unfolding step_account .
  note account = example_restamped [OF this, simplified]
  have "?R (spent (example_state (db_2 OrderPending AuthPending ChalPending None) [[], []] []))"
    using Server_Request [OF account example_keeps_texts, of New_Order_Route "example_request [1]"] unfolding step_order .
  note order = example_restamped [OF this, simplified]
  have "?R (spent (example_state (db_2 OrderPending AuthPending ChalProcessing None) [[], [], []] [example_validation]))"
    using Server_Request [OF order example_keeps_texts, of "Challenge_Route ''1''" "example_request [2]"] unfolding step_challenge .
  note challenge = example_restamped [OF this, simplified]
  show ?thesis
    using Server_Validated [OF challenge, of example_validation "se_store example_server_env" "Inr ()"] step_validated [of "[[], [], [], []]"]
    by (simp add: numeral_eq_Suc)
qed

theorem issued_names_validated_witness:
  "\<exists>(s :: server) (l :: leaf_row) sans. l \<in> set (d_leaves (sv_db s)) \<and> lf_sans l = write_texts sans \<and> (\<forall>n \<in> set sans. \<exists>z \<in> set (d_authorisations (sv_db s)).
    az_order z = lf_order l \<and> az_identifier z = name_base n \<and> az_wildcard z = wild n
    \<and> (\<exists>c \<in> set (d_challenges (sv_db s)). ch_authorisation c = az_id z \<and> ch_status c = ChalValid \<and> (wild n \<longrightarrow> ch_kind c = Dns01)))"
proof -
  let ?s = "snd (handle example_server_env (Finalise_Route ''1'') (example_request [3])
     (example_state (db_2 OrderReady AuthValid ChalValid (Some ''1'')) (replicate 4 []) []))"
  have reached: "server_reached write_texts ?s" by (rule Server_Request [OF example_life example_keeps_texts])
  obtain l where l: "l \<in> set (d_leaves (sv_db ?s))" using step_finalise by (metis list.set_sel(1))
  show ?thesis
    by (rule exI [of _ ?s], rule exI [of _ l]) (use issued_names_validated [OF reached l] l in simp)
qed

lemma example_accepted:
  "by_account example_server_env (example_po [1]) (example_state db_1 [[]] []) = (Inr (example_account, example_jwk, [1]), spent (example_state db_1 [[]] []))"
  by (rule example_signed) (simp_all add: db_1_def example_read_account)

theorem accepted_request_authentic_witness:
  "\<exists>jws nonce. se_parse example_server_env [1] = Inr jws \<and> jw_url jws = ''https://h/x'' \<and> jw_payload jws = [1]
      \<and> jw_key jws = By_Kid (account_url (example_po [1]) 1) \<and> se_verify example_server_env jws example_jwk = Inr () \<and> jw_nonce jws = Some nonce \<and> nonce \<in> {[]}"
proof -
  note signed = accepted_request_authentic [OF example_accepted]
  show ?thesis using signed by simp
qed

lemma example_verified: "\<exists>x. verified_jws example_server_env (example_po [0]) Rule_Jwk (example_state db ns ts) = (Inr x, spent (example_state db ns ts))"
  by (simp add: verified_jws_def handler_eval redeem_nonce_def nonce_redeem_def example_env_simps)

definition example_revoking_env :: server_env where
  "example_revoking_env = example_server_env\<lparr> se_revocation := (\<lambda>b. Inr \<lparr> rv_certificate = ''BQ'', rv_reason = Some 1 \<rparr>),
     se_inspect := (\<lambda>der. Inr (''4d'', [9])) \<rparr>"

definition example_leaf_row :: leaf_row where
  "example_leaf_row = \<lparr> lf_id = 1, lf_serial = ''77'', lf_account = 1, lf_order = 1, lf_common_name = None, lf_sans = write_texts [''home.test''],
     lf_not_before = ''1'', lf_not_after = ''1'', lf_chain_pem = ''pem'', lf_issuer_serial = ''5'', lf_revoked_at = None, lf_reason = None,
     lf_created = ''1'', lf_changed = 1 \<rparr>"

definition db_3 :: acme_db where "db_3 = acme_db_new\<lparr> d_leaves := [example_leaf_row] \<rparr>"

lemma example_hex: "decimal ''4d'' = ''77''"
  by code_simp

lemma example_certificate: "from_base64url ''BQ'' = Some [5]"
  using base64_text.dec_enc [of "[5]"] by (simp add: encode_chunk_def alphabet_def)

lemma example_revoking_simps:
  "se_store example_revoking_env = se_store example_server_env" "se_issue example_revoking_env = example_issue_lib"
  "se_revocation example_revoking_env b = Inr \<lparr> rv_certificate = ''BQ'', rv_reason = Some 1 \<rparr>"
  "se_inspect example_revoking_env der = Inr (''4d'', [9])"
  by (simp_all add: example_revoking_env_def example_env_simps)

lemma example_revoking_verify:
  "verify example_revoking_env (example_po [0]) Rule_Either (example_state db ns ts)
    = (Inr \<lparr> vf_signer = Signer_Key example_jwk, vf_payload = [0] \<rparr>, spent (example_state db ns ts))"
  by (simp add: verify_def verified_jws_def handler_eval redeem_nonce_def nonce_redeem_def example_revoking_env_def example_env_simps)

lemma example_leaf_read:
  "\<exists>l. certificate_by_serial (se_store example_server_env) ''77'' db_3 = Inr (Some l) \<and> l_chain_pem l = ''pem''"
  "\<exists>l. store_revoke (se_store example_server_env) ''77'' (Some 1) db_3 = Inr (l, leaf_revoked (se_store example_server_env) ''77'' (Some 1) db_3)"
  by (simp_all add: certificate_by_serial_def leaf_where_def store_revoke_def leaf_revoked_def db_3_def example_leaf_row_def leaf_of_row_def sbind_def
      unreadable_def read_time_def optional_time_def example_env_simps write_texts_back tbl_count_def tbl_update_def reason_admitted_def Let_def acme_db_new_def)

lemma example_revoked: "\<exists>answer s'. revoke_handler example_revoking_env (example_po [0]) (example_state db_3 [[]] []) = (Inr answer, s')"
proof -
  obtain l l' where l: "certificate_by_serial (se_store example_server_env) ''77'' db_3 = Inr (Some l)"
    "store_revoke (se_store example_server_env) ''77'' (Some 1) db_3 = Inr (l', leaf_revoked (se_store example_server_env) ''77'' (Some 1) db_3)"
    using example_leaf_read by blast
  have "first_is example_issue_lib [5] l" by (simp add: first_is_def example_issue_lib_def)
  then show ?thesis
    by (simp add: revoke_handler_def handler_eval example_revoking_verify [simplified] parse_payload_def example_revoking_simps example_certificate
        example_hex l [simplified] found_def example_jwk_def revocation_reason_def revocation_reasons_def)
qed

theorem revocation_authorised_witness:
  "\<exists>der l. from_base64url ''BQ'' = Some der \<and> certificate_by_serial (se_store example_revoking_env) ''77'' db_3 = Inr (Some l)
     \<and> first_is (se_issue example_revoking_env) der l"
proof -
  obtain answer s' where "revoke_handler example_revoking_env (example_po [0]) (example_state db_3 [[]] []) = (Inr answer, s')"
    using example_revoked by blast
  note authorised = revocation_authorised [OF this]
  have hex: "hex = ''4d''" if "se_inspect example_revoking_env der = Inr (hex, spki)" for der hex spki
    using that by (simp add: example_revoking_simps)
  show ?thesis using authorised by (auto dest!: hex simp: example_hex example_revoking_simps(3))
qed

end
