(* ===== verification/Acme_Validate.thy ===== *)
theory Acme_Validate
  imports Acme_Served
begin

text \<open>
  Validating a challenge, from \<^verbatim>\<open>crates/opca-acme-broker/src/acme/validate.rs\<close>: http-01, dns-01 and
  tls-alpn-01. The network is a parameter whose answers may depend on everything sent before; what is
  sent is kept as a history, the newest last. A wait that the timeout cuts short is \<open>None\<close>.
\<close>

section \<open>The network\<close>

record target =
  tg_https :: bool
  tg_host :: string
  tg_port :: nat
  tg_path :: string

record ports =
  po_http :: nat
  po_https :: nat

definition ports_default :: ports where
  "ports_default = \<lparr> po_http = 80, po_https = 443 \<rparr>"

datatype exchange = Look_Up string | Look_Up_Txt string | Connecting string nat | Tls_Hello string string
  | Get_Request target

record dns_failure =
  df_absent :: bool
  df_text :: string

text \<open>
  A body arrives in frames; one that never comes is \<open>Stalled\<close>. The Location header is there when it is text.
\<close>

datatype frame = Data string | Trailers | Broken string | Stalled

record http_response =
  hp_status :: nat
  hp_location :: "string option"
  hp_body :: "frame list"

record tls_session =
  ts_alpn :: "string option"
  ts_chain :: "bytes list option"

datatype san_name = San_Dns string | San_Other string

record extension =
  ex_oid :: string
  ex_critical :: bool
  ex_value :: bytes

record presented =
  pr_sans :: "string + san_name list option"
  pr_extensions :: "extension list"

record uri =
  ur_path :: "string option"
  ur_scheme :: "string option"
  ur_port :: "nat option"
  ur_host :: "string option"

text \<open>
  The resolver, TCP, TLS and HTTP answer by the history; the other fields are the parsers and texts of
  the libraries. A certificate is parsed from its bytes; \<open>nt_request\<close> refuses what is no HTTP request.
\<close>

record net =
  nt_ip :: "exchange list \<Rightarrow> string \<Rightarrow> (dns_failure + string list) option"
  nt_txt :: "exchange list \<Rightarrow> string \<Rightarrow> (dns_failure + string list) option"
  nt_tcp :: "exchange list \<Rightarrow> string \<Rightarrow> nat \<Rightarrow> (string + unit) option"
  nt_tls :: "exchange list \<Rightarrow> string \<Rightarrow> string \<Rightarrow> (string + tls_session) option"
  nt_http :: "exchange list \<Rightarrow> target \<Rightarrow> (string + http_response) option"
  nt_request :: "target \<Rightarrow> string option"
  nt_server_name :: "string \<Rightarrow> string option"
  nt_uri :: "string \<Rightarrow> uri option"
  nt_status_text :: "nat \<Rightarrow> string"
  nt_certificate :: "bytes \<Rightarrow> string + presented"
  nt_names_text :: "san_name list \<Rightarrow> string"
  nt_sha256 :: "string \<Rightarrow> bytes"

section \<open>Attempts\<close>

type_synonym 'a attempt = "exchange list \<Rightarrow> (problem + 'a) option \<times> exchange list"

definition aret :: "'a \<Rightarrow> 'a attempt" where "aret x h = (Some (Inr x), h)"

definition afail :: "problem_type \<Rightarrow> string \<Rightarrow> 'a attempt" where
  "afail kind detail h = (Some (Inl (problem_new kind detail)), h)"

definition abind :: "'a attempt \<Rightarrow> ('a \<Rightarrow> 'b attempt) \<Rightarrow> 'b attempt" where
  "abind m f h = (case m h of
      (None, h') \<Rightarrow> (None, h')
    | (Some (Inl p), h') \<Rightarrow> (Some (Inl p), h')
    | (Some (Inr x), h') \<Rightarrow> f x h')"

definition exchanged :: "exchange \<Rightarrow> (exchange list \<Rightarrow> 'a option) \<Rightarrow> 'a attempt" where
  "exchanged e answer h = (map_option Inr (answer h), h @ [e])"

definition waited :: "'a option \<Rightarrow> 'a attempt" where
  "waited r h = (map_option Inr r, h)"

section \<open>Text\<close>

text \<open>
  \<^verbatim>\<open>String::from_utf8_lossy\<close>: the ranges of the bytes that may follow a first byte; the longest start
  of a sequence that goes wrong becomes one replacement character.
\<close>

definition seq_ranges :: "nat \<Rightarrow> (nat \<times> nat) list option" where
  "seq_ranges b =
     (if b < 128 then Some []
      else if 194 \<le> b \<and> b \<le> 223 then Some [(128, 191)]
      else if b = 224 then Some [(160, 191), (128, 191)]
      else if b = 237 then Some [(128, 159), (128, 191)]
      else if 225 \<le> b \<and> b \<le> 239 then Some [(128, 191), (128, 191)]
      else if b = 240 then Some [(144, 191), (128, 191), (128, 191)]
      else if 241 \<le> b \<and> b \<le> 243 then Some [(128, 191), (128, 191), (128, 191)]
      else if b = 244 then Some [(128, 143), (128, 191), (128, 191)]
      else None)"

fun cont_run :: "(nat \<times> nat) list \<Rightarrow> string \<Rightarrow> nat" where
  "cont_run ((a, b) # rs) (c # s) = (if a \<le> byte c \<and> byte c \<le> b then Suc (cont_run rs s) else 0)"
| "cont_run _ _ = 0"

definition replacement :: string where
  "replacement = map char_of [239, 191, 189 :: nat]"

function from_utf8_lossy :: "string \<Rightarrow> string" where
  "from_utf8_lossy [] = []"
| "from_utf8_lossy (c # s) = (case seq_ranges (byte c) of
      None \<Rightarrow> replacement @ from_utf8_lossy s
    | Some rs \<Rightarrow> (if cont_run rs s = length rs then (c # take (length rs) s) @ from_utf8_lossy (drop (length rs) s)
                else replacement @ from_utf8_lossy (drop (cont_run rs s) s)))"
  by pat_completeness auto
termination
  by (relation "measure length") auto

declare from_utf8_lossy.simps(2) [simp del]

definition debug_texts :: "string list \<Rightarrow> string" where
  "debug_texts xs = ''['' @ join '', '' (map debug_str xs) @ '']''"

definition display_target :: "target \<Rightarrow> string" where
  "display_target t = (if tg_https t then ''https'' else ''http'') @ ''://'' @ tg_host t @ '':'' @ nat_to_string (tg_port t) @ tg_path t"

section \<open>The validator\<close>

definition acme_tls_1 :: string where "acme_tls_1 = ''acme-tls/1''"
definition acme_identifier :: string where "acme_identifier = ''1.3.6.1.5.5.7.1.31''"
definition max_redirects :: nat where "max_redirects = 10"
definition max_body :: nat where "max_body = 1024"
definition timeout_secs :: nat where "timeout_secs = 10"

text \<open>The timeout in whole seconds, as the default is.\<close>

record validator =
  vd_ports :: ports
  vd_timeout :: nat

definition validator_new :: validator where
  "validator_new = \<lparr> vd_ports = ports_default, vd_timeout = timeout_secs \<rparr>"

definition with_ports :: "ports \<Rightarrow> validator \<Rightarrow> validator" where "with_ports p v = v\<lparr> vd_ports := p \<rparr>"
definition with_timeout :: "nat \<Rightarrow> validator \<Rightarrow> validator" where "with_timeout t v = v\<lparr> vd_timeout := t \<rparr>"

text \<open>The addresses of a host are tried in order.\<close>

fun connect_first :: "net \<Rightarrow> string \<Rightarrow> nat \<Rightarrow> string option \<Rightarrow> string list \<Rightarrow> unit attempt" where
  "connect_first net host port failure [] =
     afail Connection (''connecting to '' @ host @ '' on port '' @ nat_to_string port @ '': ''
       @ (case failure of None \<Rightarrow> ''no address'' | Some e \<Rightarrow> e))"
| "connect_first net host port failure (address # rest) =
     abind (exchanged (Connecting address port) (\<lambda>h. nt_tcp net h address port)) (\<lambda>r. case r of
       Inr _ \<Rightarrow> aret ()
     | Inl e \<Rightarrow> connect_first net host port (Some e) rest)"

definition connect :: "net \<Rightarrow> string \<Rightarrow> nat \<Rightarrow> unit attempt" where
  "connect net host port =
     abind (exchanged (Look_Up host) (\<lambda>h. nt_ip net h host)) (\<lambda>r. case r of
       Inl e \<Rightarrow> afail Dns_Problem (''looking up '' @ host @ '': '' @ df_text e)
     | Inr addresses \<Rightarrow> connect_first net host port None addresses)"

definition server_name :: "net \<Rightarrow> string \<Rightarrow> unit attempt" where
  "server_name net host = (case nt_server_name net host of
      Some e \<Rightarrow> afail Connection (host @ '' is not a name TLS can send: '' @ e)
    | None \<Rightarrow> aret ())"

definition get :: "net \<Rightarrow> target \<Rightarrow> http_response attempt" where
  "get net t =
     abind (connect net (tg_host t) (tg_port t)) (\<lambda>_.
     abind (case nt_request net t of
              Some e \<Rightarrow> afail Connection (display_target t @ '': '' @ e) | None \<Rightarrow> aret ()) (\<lambda>_.
     abind (if tg_https t then
              abind (server_name net (tg_host t)) (\<lambda>_.
              abind (exchanged (Tls_Hello ''http/1.1'' (tg_host t)) (\<lambda>h. nt_tls net h ''http/1.1'' (tg_host t))) (\<lambda>r. case r of
                Inl e \<Rightarrow> afail Tls_Problem (display_target t @ '': '' @ e)
              | Inr session \<Rightarrow> aret ()))
            else aret ()) (\<lambda>_.
     abind (exchanged (Get_Request t) (\<lambda>h. nt_http net h t)) (\<lambda>r. case r of
       Inl e \<Rightarrow> afail Connection (display_target t @ '': '' @ e)
     | Inr response \<Rightarrow> aret response))))"

text \<open>Only to a DNS name over http on the http port, or https on the https port.\<close>

definition redirect :: "net \<Rightarrow> ports \<Rightarrow> target \<Rightarrow> string \<Rightarrow> problem + target" where
  "redirect net ports from location =
     (let refuse = (\<lambda>why. Inl (problem_new Connection
            (display_target from @ '' redirected to '' @ debug_str location @ '', '' @ why)))
      in case nt_uri net location of
           None \<Rightarrow> refuse ''which is not a URL''
         | Some uri \<Rightarrow>
             let path = (case ur_path uri of None \<Rightarrow> ''/'' | Some p \<Rightarrow> p)
             in case ur_scheme uri of
                  None \<Rightarrow> if starts_with ''/'' location then Inr (from\<lparr> tg_path := path \<rparr>) else refuse ''a relative path''
                | Some scheme \<Rightarrow>
                    (case (if scheme = ''http'' then Some (False, po_http ports)
                           else if scheme = ''https'' then Some (True, po_https ports) else None) of
                       None \<Rightarrow> refuse ''which is neither http nor https''
                     | Some (https, port) \<Rightarrow>
                         if (case ur_port uri of None \<Rightarrow> False | Some asked \<Rightarrow> asked \<noteq> port)
                         then refuse (''a port other than '' @ nat_to_string port)
                         else let host = to_ascii_lowercase (case ur_host uri of None \<Rightarrow> [] | Some h \<Rightarrow> h)
                              in if host = [] \<or> starts_with ''['' host \<or> parse_ip host \<noteq> None
                                 then refuse ''which does not name a DNS host''
                                 else Inr \<lparr> tg_https = https, tg_host = host, tg_port = port, tg_path = path \<rparr>))"

text \<open>Reading a body of at most so many bytes.\<close>

datatype body_error = Too_Long | Body_Failed string

fun collected :: "nat \<Rightarrow> frame list \<Rightarrow> (body_error + string) option" where
  "collected left [] = Some (Inr [])"
| "collected left (Data d # rest) =
     (if length d > left then Some (Inl Too_Long)
      else map_option (map_sum id (\<lambda>s. d @ s)) (collected (left - length d) rest))"
| "collected left (Trailers # rest) = collected left rest"
| "collected left (Broken e # rest) = Some (Inl (Body_Failed e))"
| "collected left (Stalled # rest) = None"

definition http_answer :: "net \<Rightarrow> string \<Rightarrow> target \<Rightarrow> http_response \<Rightarrow> unit attempt" where
  "http_answer net ka t response =
     (if hp_status response \<noteq> 200
      then afail Unauthorized (display_target t @ '' answered '' @ nt_status_text net (hp_status response))
      else abind (waited (collected max_body (hp_body response))) (\<lambda>r. case r of
          Inl Too_Long \<Rightarrow> afail IncorrectResponse (display_target t @ '' answered more than '' @ nat_to_string max_body @ '' bytes'')
        | Inl (Body_Failed e) \<Rightarrow> afail Connection (''reading '' @ display_target t @ '': '' @ e)
        | Inr body \<Rightarrow>
            let text = from_utf8_lossy body
            in if trim_end text = ka then aret ()
               else afail IncorrectResponse (display_target t @ '' answered '' @ debug_str text @ '', not the key authorisation'')))"

fun http_turns :: "net \<Rightarrow> ports \<Rightarrow> string \<Rightarrow> string \<Rightarrow> nat \<Rightarrow> target \<Rightarrow> unit attempt" where
  "http_turns net ports name ka 0 t =
     afail Connection (name @ '' redirected more than '' @ nat_to_string max_redirects @ '' times'')"
| "http_turns net ports name ka (Suc n) t =
     abind (get net t) (\<lambda>response.
       if 300 \<le> hp_status response \<and> hp_status response < 400
       then (case hp_location response of
               None \<Rightarrow> afail Connection (display_target t @ '' redirected nowhere'')
             | Some location \<Rightarrow> (case redirect net ports t location of
                 Inl p \<Rightarrow> (\<lambda>h. (Some (Inl p), h))
               | Inr t' \<Rightarrow> http_turns net ports name ka n t'))
       else http_answer net ka t response)"

definition first_target :: "ports \<Rightarrow> string \<Rightarrow> string \<Rightarrow> target" where
  "first_target ports name ka =
     \<lparr> tg_https = False, tg_host = name, tg_port = po_http ports,
       tg_path = ''/.well-known/acme-challenge/'' @ hd (split_char CHR ''.'' ka) \<rparr>"

definition http_01 :: "net \<Rightarrow> ports \<Rightarrow> string \<Rightarrow> string \<Rightarrow> unit attempt" where
  "http_01 net ports name ka = http_turns net ports name ka (Suc max_redirects) (first_target ports name ka)"

text \<open>What a dns-01 TXT record holds.\<close>

definition digest :: "net \<Rightarrow> string \<Rightarrow> string" where
  "digest net ka = base64url (nt_sha256 net ka)"

definition dns_record :: "string \<Rightarrow> string" where
  "dns_record name = ''_acme-challenge.'' @ (case strip_prefix ''*.'' name of None \<Rightarrow> name | Some base \<Rightarrow> base)"

definition dns_01 :: "net \<Rightarrow> string \<Rightarrow> string \<Rightarrow> unit attempt" where
  "dns_01 net name ka =
     (let asked = dns_record name; expected = digest net ka
      in abind (exchanged (Look_Up_Txt asked) (\<lambda>h. nt_txt net h asked)) (\<lambda>r. case r of
           Inr records \<Rightarrow> if expected \<in> set records then aret ()
             else afail IncorrectResponse (asked @ '' holds '' @ debug_texts records @ '', not '' @ debug_str expected)
         | Inl e \<Rightarrow> if df_absent e then afail Unauthorized (asked @ '' has no TXT record: '' @ df_text e)
             else afail Dns_Problem (''looking up '' @ asked @ '': '' @ df_text e)))"

text \<open>
  Exactly one name, and the critical acmeIdentifier with the digest of the key authorisation.
\<close>

definition check_validation_certificate :: "net \<Rightarrow> bytes \<Rightarrow> string \<Rightarrow> string \<Rightarrow> string + unit" where
  "check_validation_certificate net der name ka =
     (case nt_certificate net der of
        Inl e \<Rightarrow> Inl (''does not decode: '' @ e)
      | Inr certificate \<Rightarrow> (case pr_sans certificate of
          Inl e \<Rightarrow> Inl (''has an unreadable SAN: '' @ e)
        | Inr listed \<Rightarrow>
            let sans = (case listed of None \<Rightarrow> [] | Some ns \<Rightarrow> ns)
            in if \<not> (case sans of [San_Dns only] \<Rightarrow> eq_ignore_ascii_case only name | _ \<Rightarrow> False)
               then Inl (''names '' @ nt_names_text net sans @ '', not just '' @ name)
               else (case List.find (\<lambda>e. ex_oid e = acme_identifier) (pr_extensions certificate) of
                  None \<Rightarrow> Inl ''has no acmeIdentifier''
                | Some e \<Rightarrow>
                    if \<not> ex_critical e then Inl ''has an acmeIdentifier that is not critical''
                    else if ex_value e \<noteq> [4, 32] @ nt_sha256 net ka
                    then Inl (''has an acmeIdentifier that is not the key authorisation'' @ [CHR 0x27] @ ''s digest'')
                    else Inr ())))"

definition tls_alpn_01 :: "net \<Rightarrow> ports \<Rightarrow> string \<Rightarrow> string \<Rightarrow> unit attempt" where
  "tls_alpn_01 net ports name ka =
     (let port = po_https ports; place = name @ '':'' @ nat_to_string port
      in abind (connect net name port) (\<lambda>_.
         abind (server_name net name) (\<lambda>_.
         abind (exchanged (Tls_Hello acme_tls_1 name) (\<lambda>h. nt_tls net h acme_tls_1 name)) (\<lambda>r. case r of
           Inl e \<Rightarrow> afail Tls_Problem (place @ '': '' @ e)
         | Inr session \<Rightarrow>
             if ts_alpn session \<noteq> Some acme_tls_1 then afail Tls_Problem (place @ '' did not negotiate acme-tls/1'')
             else (case ts_chain session of
                 Some (certificate # _) \<Rightarrow> (case check_validation_certificate net certificate name ka of
                     Inl why \<Rightarrow> afail Unauthorized (place @ [CHR 0x27] @ ''s certificate '' @ why)
                   | Inr _ \<Rightarrow> aret ())
               | _ \<Rightarrow> afail Tls_Problem (place @ '' sent no certificate''))))))"

definition validate_kind :: "net \<Rightarrow> validator \<Rightarrow> challenge_type \<Rightarrow> string \<Rightarrow> string \<Rightarrow> unit attempt" where
  "validate_kind net vd kind name ka = (case kind of
      Http01 \<Rightarrow> http_01 net (vd_ports vd) name ka
    | Dns01 \<Rightarrow> dns_01 net name ka
    | TlsAlpn01 \<Rightarrow> tls_alpn_01 net (vd_ports vd) name ka)"

definition validate :: "net \<Rightarrow> validator \<Rightarrow> challenge_type \<Rightarrow> string \<Rightarrow> string \<Rightarrow> (problem + unit) \<times> exchange list" where
  "validate net vd kind name ka = (case validate_kind net vd kind name ka [] of
      (Some r, h) \<Rightarrow> (r, h)
    | (None, h) \<Rightarrow> (Inl (problem_new Connection (name @ '' did not answer within '' @ nat_to_string (vd_timeout vd) @ '' s'')), h))"


section \<open>What an attempt sends\<close>

text \<open>A relation between the histories before and after, kept by every attempt that is made of parts keeping it.\<close>

definition sends :: "(exchange list \<Rightarrow> exchange list \<Rightarrow> bool) \<Rightarrow> 'a attempt \<Rightarrow> bool" where
  "sends R m \<longleftrightarrow> (\<forall>h. R h (snd (m h)))"

locale history_relation =
  fixes R :: "exchange list \<Rightarrow> exchange list \<Rightarrow> bool"
  assumes same: "R h h" and compose: "R a b \<Longrightarrow> R b c \<Longrightarrow> R a c"
begin

lemma sends_pure: "sends R (aret x)" "sends R (afail k d)" "sends R (waited r)" "sends R (\<lambda>h. (q, h))"
  by (simp_all add: sends_def aret_def afail_def waited_def same)

lemma sends_bind:
  assumes "sends R m" "\<And>x. sends R (f x)"
  shows "sends R (abind m f)"
  unfolding sends_def
proof
  fix h
  obtain r h' where m: "m h = (r, h')" by fastforce
  then have first: "R h h'" using assms(1) unfolding sends_def by (metis snd_conv)
  then have "R h (snd (f x h'))" for x using assms(2) [of x] compose unfolding sends_def by blast
  then show "R h (snd (abind m f h))" using first m by (auto simp: abind_def split: option.split sum.split)
qed

lemma sends_cases:
  "sends R a \<Longrightarrow> sends R b \<Longrightarrow> sends R (if c then a else b)"
  "sends R a \<Longrightarrow> (\<And>x. sends R (g x)) \<Longrightarrow> sends R (case_option a g v)"
  "(\<And>x. sends R (g1 x)) \<Longrightarrow> (\<And>y. sends R (g2 y)) \<Longrightarrow> sends R (case_sum g1 g2 q')"
  "sends R a \<Longrightarrow> (\<And>x. sends R (g3 x)) \<Longrightarrow> sends R (case_body_error a g3 be)"
  "sends R a \<Longrightarrow> (\<And>x xs. sends R (gg x xs)) \<Longrightarrow> sends R (case_list a gg l)"
  by (simp_all split: option.split sum.split body_error.split list.split)

lemma sends_exchanged: "(\<And>h. R h (h @ [e])) \<Longrightarrow> sends R (exchanged e answer)"
  by (simp add: sends_def exchanged_def)

lemmas sends_rules = sends_pure sends_bind sends_cases

end

text \<open>The hosts a validation may turn to: the one validated, and DNS names that redirects lead to.\<close>

definition contactable :: "string \<Rightarrow> string \<Rightarrow> bool" where
  "contactable name host \<longleftrightarrow> host = name \<or> (host \<noteq> [] \<and> \<not> starts_with ''['' host \<and> parse_ip host = None)"

definition target_ok :: "ports \<Rightarrow> string \<Rightarrow> target \<Rightarrow> bool" where
  "target_ok ports name t \<longleftrightarrow> contactable name (tg_host t) \<and> tg_port t = (if tg_https t then po_https ports else po_http ports)"

definition allowed :: "net \<Rightarrow> ports \<Rightarrow> string \<Rightarrow> exchange \<Rightarrow> bool" where
  "allowed net ports name e = (case e of
      Look_Up host \<Rightarrow> contactable name host
    | Look_Up_Txt asked \<Rightarrow> asked = dns_record name
    | Connecting address port \<Rightarrow> port \<in> {po_http ports, po_https ports}
        \<and> (\<exists>h host addresses. contactable name host \<and> nt_ip net h host = Some (Inr addresses) \<and> address \<in> set addresses)
    | Tls_Hello alpn host \<Rightarrow> contactable name host
    | Get_Request t \<Rightarrow> target_ok ports name t)"

definition only_allowed :: "net \<Rightarrow> ports \<Rightarrow> string \<Rightarrow> exchange list \<Rightarrow> exchange list \<Rightarrow> bool" where
  "only_allowed net ports name h h' \<longleftrightarrow> (\<forall>e \<in> set h'. e \<in> set h \<or> allowed net ports name e)"

interpretation permitted: history_relation "only_allowed net ports name"
  by unfold_locales (auto simp: only_allowed_def)

definition gets :: "exchange list \<Rightarrow> nat" where
  "gets h = length (filter (\<lambda>e. case e of Get_Request t \<Rightarrow> True | _ \<Rightarrow> False) h)"

abbreviation keeps_gets :: "exchange list \<Rightarrow> exchange list \<Rightarrow> bool" where
  "keeps_gets h h' \<equiv> gets h' \<le> gets h"

interpretation quiet: history_relation keeps_gets
  by unfold_locales auto

lemma permitted_exchanged: "allowed net ports name e \<Longrightarrow> sends (only_allowed net ports name) (exchanged e answer)"
  by (rule permitted.sends_exchanged) (auto simp: only_allowed_def)

lemma permitted_connect_first:
  assumes "contactable name host" "port \<in> {po_http ports, po_https ports}" "nt_ip net h0 host = Some (Inr addresses)"
  shows "set rest \<subseteq> set addresses \<Longrightarrow> sends (only_allowed net ports name) (connect_first net host port failure rest)"
proof (induction rest arbitrary: failure)
  case (Cons address rest)
  have "allowed net ports name (Connecting address port)" using assms Cons.prems unfolding allowed_def by auto
  then show ?case using Cons by (auto intro!: permitted.sends_rules permitted_exchanged)
qed (simp add: permitted.sends_rules)

text \<open>An exchange whose answer the next step may use.\<close>

lemma permitted_answered:
  assumes "allowed net ports name e" "\<And>h x. answer h = Some x \<Longrightarrow> sends (only_allowed net ports name) (f x)"
  shows "sends (only_allowed net ports name) (abind (exchanged e answer) f)"
  unfolding sends_def
proof
  fix h
  have step: "only_allowed net ports name h (h @ [e])" using assms(1) by (auto simp: only_allowed_def)
  show "only_allowed net ports name h (snd (abind (exchanged e answer) f h))"
  proof (cases "answer h")
    case (Some x)
    then have "only_allowed net ports name (h @ [e]) (snd (f x (h @ [e])))" using assms(2) by (simp add: sends_def)
    then show ?thesis using Some permitted.compose [OF step] by (simp add: abind_def exchanged_def)
  qed (simp add: abind_def exchanged_def step)
qed

lemma permitted_connect:
  assumes "contactable name host" "port \<in> {po_http ports, po_https ports}"
  shows "sends (only_allowed net ports name) (connect net host port)"
  unfolding connect_def
  by (rule permitted_answered)
     (auto simp: allowed_def assms intro!: permitted.sends_rules permitted_connect_first [OF assms] split: sum.split)

lemma permitted_server_name: "sends (only_allowed net ports name) (server_name net host)"
  unfolding server_name_def by (intro permitted.sends_rules)

lemma permitted_get: "target_ok ports name t \<Longrightarrow> sends (only_allowed net ports name) (get net t)"
  unfolding get_def
  by (intro permitted.sends_rules permitted_connect permitted_exchanged permitted_server_name)
     (auto simp: allowed_def target_ok_def split: if_splits)

lemma permitted_http_answer: "sends (only_allowed net ports name) (http_answer net ka t response)"
  unfolding http_answer_def Let_def by (intro permitted.sends_rules)

lemma redirect_ok: "redirect net ports from location = Inr t \<Longrightarrow> target_ok ports name from \<Longrightarrow> target_ok ports name t"
proof -
  assume t: "redirect net ports from location = Inr t" and start: "target_ok ports name from"
  obtain uri where uri: "nt_uri net location = Some uri" using t by (cases "nt_uri net location") (simp_all add: redirect_def)
  show "target_ok ports name t"
  proof (cases "ur_scheme uri")
    case None
    then have "\<exists>path. t = from\<lparr> tg_path := path \<rparr>" using t uri by (cases "starts_with ''/'' location") (auto simp: redirect_def Let_def)
    then show ?thesis using start by (auto simp: target_ok_def)
  next
    case (Some scheme)
    have "scheme = ''http'' \<or> scheme = ''https''" using t uri Some by (rule_tac ccontr) (simp add: redirect_def)
    then show ?thesis
    proof
      assume "scheme = ''http''"
      then show ?thesis using t uri Some
        by (simp add: redirect_def Let_def split: if_split_asm) (auto simp: target_ok_def contactable_def)
    next
      assume "scheme = ''https''"
      then show ?thesis using t uri Some
        by (simp add: redirect_def Let_def split: if_split_asm) (auto simp: target_ok_def contactable_def)
    qed
  qed
qed

lemma permitted_turns: "target_ok ports name t \<Longrightarrow> sends (only_allowed net ports name) (http_turns net ports name ka n t)"
proof (induction n arbitrary: t)
  case (Suc n)
  have "sends (only_allowed net ports name) (case redirect net ports t location of
      Inl p \<Rightarrow> (\<lambda>h. (Some (Inl p), h)) | Inr t' \<Rightarrow> http_turns net ports name ka n t')" for location
    using Suc.IH redirect_ok [OF _ Suc.prems] by (auto intro: permitted.sends_rules split: sum.split)
  then show ?case
    by (auto intro!: permitted.sends_bind permitted_get [OF Suc.prems] permitted_http_answer permitted.sends_pure split: option.split)
qed (simp add: permitted.sends_rules)

lemma permitted_kind: "sends (only_allowed net (vd_ports vd) name) (validate_kind net vd kind name ka)"
proof (cases kind)
  case Http01
  have "target_ok (vd_ports vd) name (first_target (vd_ports vd) name ka)" by (simp add: target_ok_def first_target_def contactable_def)
  then show ?thesis using Http01 by (simp add: validate_kind_def http_01_def permitted_turns del: http_turns.simps)
next
  case Dns01
  then show ?thesis
    by (auto simp: validate_kind_def dns_01_def Let_def allowed_def intro!: permitted.sends_rules permitted_exchanged)
next
  case TlsAlpn01
  have "sends (only_allowed net (vd_ports vd) name) (tls_alpn_01 net (vd_ports vd) name ka)"
    unfolding tls_alpn_01_def Let_def
    by (intro permitted.sends_rules permitted_connect permitted_exchanged permitted_server_name)
       (simp_all add: allowed_def contactable_def)
  then show ?thesis using TlsAlpn01 by (simp add: validate_kind_def)
qed

text \<open>Requests.\<close>

lemma quiet_exchanged:
  "sends keeps_gets (exchanged (Look_Up host) a1)" "sends keeps_gets (exchanged (Look_Up_Txt asked) a2)"
  "sends keeps_gets (exchanged (Connecting address port) a3)" "sends keeps_gets (exchanged (Tls_Hello alpn host) a4)"
  by (simp_all add: sends_def exchanged_def gets_def)

lemma quiet_connect_first: "sends keeps_gets (connect_first net host port failure addresses)"
proof (induction net host port failure addresses rule: connect_first.induct)
  case (2 net host port failure address rest)
  show ?case unfolding connect_first.simps by (intro quiet.sends_rules quiet_exchanged 2)
qed (simp add: quiet.sends_rules)

lemma quiet_connect: "sends keeps_gets (connect net host port)"
  unfolding connect_def by (intro quiet.sends_rules quiet_exchanged quiet_connect_first)

lemma gets_bind:
  assumes "\<And>h. gets (snd (m h)) \<le> gets h + k" "\<And>x h. gets (snd (f x h)) \<le> gets h + n"
  shows "gets (snd (abind m f h)) \<le> gets h + (k + n)"
proof -
  obtain r h' where m: "m h = (r, h')" by fastforce
  then have k: "gets h' \<le> gets h + k" using assms(1) [of h] by simp
  have "gets (snd (f x h')) \<le> gets h + (k + n)" for x using k assms(2) [of x h'] by linarith
  then show ?thesis using m k by (simp add: abind_def split: option.split sum.split)
qed

lemma gets_quiet: "sends keeps_gets m \<Longrightarrow> gets (snd (m h)) \<le> gets h + 0"
  by (simp add: sends_def)

lemma gets_get: "gets (snd (get net t h)) \<le> gets h + 1"
proof -
  have last: "gets (snd (abind (exchanged (Get_Request t) answer) f h)) \<le> gets h + (1 + 0)" if "\<And>x. sends keeps_gets (f x)"
    for answer and f :: "string + http_response \<Rightarrow> http_response attempt" and h
    by (rule gets_bind) (use that in \<open>auto simp: exchanged_def gets_def sends_def\<close>)
  have "gets (snd (get net t h)) \<le> gets h + (0 + (0 + (0 + (1 + 0))))"
    unfolding get_def server_name_def
    by (intro gets_bind gets_quiet quiet_connect last quiet.sends_rules quiet_exchanged)
  then show ?thesis by simp
qed

lemma quiet_http_answer: "sends keeps_gets (http_answer net ka t response)"
  unfolding http_answer_def Let_def by (intro quiet.sends_rules)

lemma gets_turns: "gets (snd (http_turns net ports name ka n t h)) \<le> gets h + n"
proof (induction n arbitrary: t h)
  case (Suc n)
  have "gets (snd ((if 300 \<le> hp_status response \<and> hp_status response < 400
       then (case hp_location response of
               None \<Rightarrow> afail Connection (display_target t @ '' redirected nowhere'')
             | Some location \<Rightarrow> (case redirect net ports t location of
                 Inl p \<Rightarrow> (\<lambda>h. (Some (Inl p), h))
               | Inr t' \<Rightarrow> http_turns net ports name ka n t'))
       else http_answer net ka t response) h)) \<le> gets h + n" for response h
    using Suc.IH quiet_http_answer [of net ka t response] by (auto simp: sends_def afail_def intro: trans_le_add1 split: option.split sum.split)
  then have "gets (snd (http_turns net ports name ka (Suc n) t h)) \<le> gets h + (1 + n)"
    unfolding http_turns.simps using gets_get by (intro gets_bind) blast+
  then show ?case by simp
qed (simp add: afail_def)



section \<open>What a success proves\<close>

text \<open>The targets the first one leads to, by redirects the hosts answered with.\<close>

inductive leads :: "net \<Rightarrow> ports \<Rightarrow> string \<Rightarrow> string \<Rightarrow> target \<Rightarrow> bool" for net ports name ka where
  Leads_First: "leads net ports name ka (first_target ports name ka)"
| Leads_Redirect: "leads net ports name ka t \<Longrightarrow> nt_http net h t = Some (Inr response) \<Longrightarrow> 300 \<le> hp_status response \<Longrightarrow> hp_status response < 400 \<Longrightarrow>
    hp_location response = Some location \<Longrightarrow> redirect net ports t location = Inr t' \<Longrightarrow> leads net ports name ka t'"

definition answers_http :: "net \<Rightarrow> ports \<Rightarrow> string \<Rightarrow> string \<Rightarrow> bool" where
  "answers_http net ports name ka \<longleftrightarrow> (\<exists>h t response body. leads net ports name ka t \<and> nt_http net h t = Some (Inr response)
     \<and> hp_status response = 200 \<and> collected max_body (hp_body response) = Some (Inr body) \<and> trim_end (from_utf8_lossy body) = ka)"

definition answers_dns :: "net \<Rightarrow> string \<Rightarrow> string \<Rightarrow> bool" where
  "answers_dns net name ka \<longleftrightarrow> (\<exists>h records. nt_txt net h (dns_record name) = Some (Inr records) \<and> digest net ka \<in> set records)"

definition answers_tls :: "net \<Rightarrow> string \<Rightarrow> string \<Rightarrow> bool" where
  "answers_tls net name ka \<longleftrightarrow> (\<exists>h session der rest certificate only e.
     nt_tls net h acme_tls_1 name = Some (Inr session) \<and> ts_alpn session = Some acme_tls_1 \<and> ts_chain session = Some (der # rest)
     \<and> nt_certificate net der = Inr certificate \<and> pr_sans certificate = Inr (Some [San_Dns only]) \<and> eq_ignore_ascii_case only name
     \<and> e \<in> set (pr_extensions certificate) \<and> ex_oid e = acme_identifier \<and> ex_critical e \<and> ex_value e = [4, 32] @ nt_sha256 net ka)"

definition answered :: "net \<Rightarrow> ports \<Rightarrow> challenge_type \<Rightarrow> string \<Rightarrow> string \<Rightarrow> bool" where
  "answered net ports kind name ka = (case kind of
      Http01 \<Rightarrow> answers_http net ports name ka
    | Dns01 \<Rightarrow> answers_dns net name ka
    | TlsAlpn01 \<Rightarrow> answers_tls net name ka)"

lemma attempt_iff [simp]:
  "aret x h = (Some (Inr y), h') \<longleftrightarrow> x = y \<and> h' = h"
  "afail k d h = (Some (Inr y), h') \<longleftrightarrow> False"
  "waited r h = (Some (Inr z), h') \<longleftrightarrow> r = Some z \<and> h' = h"
  "exchanged e answer h = (Some (Inr z), h') \<longleftrightarrow> answer h = Some z \<and> h' = h @ [e]"
  by (auto simp: aret_def afail_def waited_def exchanged_def)

lemma abind_iff: "abind m f h = (Some (Inr y), h'') \<longleftrightarrow> (\<exists>x h'. m h = (Some (Inr x), h') \<and> f x h' = (Some (Inr y), h''))"
  by (auto simp: abind_def split: prod.split option.split sum.split)

text \<open>Which branch was taken.\<close>

lemma branch_iff:
  "case_sum f g x h = r \<longleftrightarrow> (\<exists>e. x = Inl e \<and> f e h = r) \<or> (\<exists>y. x = Inr y \<and> g y h = r)"
  "case_body_error a b be h = r \<longleftrightarrow> be = Too_Long \<and> a h = r \<or> (\<exists>e. be = Body_Failed e \<and> b e h = r)"
  by (cases x; auto) (cases be; auto)

lemma get_answered: "get net t h = (Some (Inr response), h') \<Longrightarrow> \<exists>h0. nt_http net h0 t = Some (Inr response)"
  by (auto simp: get_def abind_iff branch_iff)

lemma http_answer_ok:
  assumes "http_answer net ka t response h = (Some (Inr ()), h')"
  shows "hp_status response = 200" "\<exists>body. collected max_body (hp_body response) = Some (Inr body) \<and> trim_end (from_utf8_lossy body) = ka"
proof -
  show ok: "hp_status response = 200" using assms by (simp add: http_answer_def split: if_splits)
  show "\<exists>body. collected max_body (hp_body response) = Some (Inr body) \<and> trim_end (from_utf8_lossy body) = ka"
    using assms ok by (auto simp: http_answer_def abind_iff branch_iff Let_def split: if_splits)
qed

lemma turns_answered:
  "leads net ports name ka t \<Longrightarrow> http_turns net ports name ka n t h = (Some (Inr ()), h') \<Longrightarrow> answers_http net ports name ka"
proof (induction n arbitrary: t h)
  case (Suc n)
  obtain response h1 where got: "get net t h = (Some (Inr response), h1)"
    and after: "(if 300 \<le> hp_status response \<and> hp_status response < 400
       then (case hp_location response of
               None \<Rightarrow> afail Connection (display_target t @ '' redirected nowhere'')
             | Some location \<Rightarrow> (case redirect net ports t location of
                 Inl p \<Rightarrow> (\<lambda>h. (Some (Inl p), h))
               | Inr t' \<Rightarrow> http_turns net ports name ka n t'))
       else http_answer net ka t response) h1 = (Some (Inr ()), h')"
    using Suc.prems(2) by (auto simp: abind_iff)
  obtain h0 where h0: "nt_http net h0 t = Some (Inr response)" using get_answered [OF got] by blast
  show ?case
  proof (cases "300 \<le> hp_status response \<and> hp_status response < 400")
    case True
    then obtain location t' where to: "hp_location response = Some location" "redirect net ports t location = Inr t'"
        "http_turns net ports name ka n t' h1 = (Some (Inr ()), h')"
      using after by (auto split: option.splits sum.splits)
    have "leads net ports name ka t'" using True by (intro Leads_Redirect [OF Suc.prems(1) h0 _ _ to(1,2)]) simp_all
    then show ?thesis using Suc.IH to(3) by blast
  next
    case False
    then have "http_answer net ka t response h1 = (Some (Inr ()), h')" using after by (simp only: if_False)
    from http_answer_ok [OF this] show ?thesis unfolding answers_http_def using Suc.prems(1) h0 by blast
  qed
qed simp

lemma check_certificate_ok:
  assumes "check_validation_certificate net der name ka = Inr ()"
  shows "\<exists>certificate only e. nt_certificate net der = Inr certificate \<and> pr_sans certificate = Inr (Some [San_Dns only])
    \<and> eq_ignore_ascii_case only name \<and> e \<in> set (pr_extensions certificate) \<and> ex_oid e = acme_identifier \<and> ex_critical e
    \<and> ex_value e = [4, 32] @ nt_sha256 net ka"
proof -
  obtain certificate listed where c: "nt_certificate net der = Inr certificate" "pr_sans certificate = Inr listed"
    using assms by (auto simp: check_validation_certificate_def split: sum.splits)
  define sans where "sans = (case listed of None \<Rightarrow> [] | Some ns \<Rightarrow> ns)"
  have rest: "(if \<not> (case sans of [San_Dns only] \<Rightarrow> eq_ignore_ascii_case only name | _ \<Rightarrow> False)
               then Inl (''names '' @ nt_names_text net sans @ '', not just '' @ name)
               else (case List.find (\<lambda>e. ex_oid e = acme_identifier) (pr_extensions certificate) of
                  None \<Rightarrow> Inl ''has no acmeIdentifier''
                | Some e \<Rightarrow>
                    if \<not> ex_critical e then Inl ''has an acmeIdentifier that is not critical''
                    else if ex_value e \<noteq> [4, 32] @ nt_sha256 net ka
                    then Inl (''has an acmeIdentifier that is not the key authorisation'' @ [CHR 0x27] @ ''s digest'')
                    else Inr ())) = Inr ()"
    using assms c unfolding sans_def by (simp add: check_validation_certificate_def Let_def)
  then have just: "case sans of [San_Dns only] \<Rightarrow> eq_ignore_ascii_case only name | _ \<Rightarrow> False" by (meson Inl_Inr_False)
  then obtain only where only: "sans = [San_Dns only]" "eq_ignore_ascii_case only name" by (cases sans rule: list.exhaust; cases "tl sans"; cases "hd sans") auto
  then have listed: "listed = Some [San_Dns only]" unfolding sans_def by (cases listed) auto
  obtain e where e: "List.find (\<lambda>e. ex_oid e = acme_identifier) (pr_extensions certificate) = Some e" "ex_critical e"
      "ex_value e = [4, 32] @ nt_sha256 net ka"
    using rest just by (auto split: option.splits if_splits)
  with find_found [OF e(1)] c listed only(2) show ?thesis by blast
qed

lemma validated_means:
  assumes "fst (validate net vd kind name ka) = Inr ()"
  shows "answered net (vd_ports vd) kind name ka"
proof -
  obtain h where ok: "validate_kind net vd kind name ka [] = (Some (Inr ()), h)"
    using assms by (auto simp: validate_def split: prod.splits option.splits)
  show ?thesis
  proof (cases kind)
    case Http01
    then show ?thesis using ok turns_answered [OF Leads_First] by (auto simp: validate_kind_def http_01_def answered_def simp del: http_turns.simps)
  next
    case Dns01
    then show ?thesis using ok
      by (auto simp: validate_kind_def dns_01_def Let_def abind_iff branch_iff answered_def answers_dns_def split: if_splits)
  next
    case TlsAlpn01
    then obtain h0 session der rest where s: "nt_tls net h0 acme_tls_1 name = Some (Inr session)" "ts_alpn session = Some acme_tls_1"
        "ts_chain session = Some (der # rest)" "check_validation_certificate net der name ka = Inr ()"
      using ok by (auto simp: validate_kind_def tls_alpn_01_def Let_def abind_iff branch_iff split: if_splits option.splits list.splits sum.splits)
    show ?thesis using check_certificate_ok [OF s(4)] s(1-3)
      by (simp only: TlsAlpn01 answered_def answers_tls_def challenge_type.case) blast
  qed
qed


text \<open>
  A validation succeeds only if the name answered the challenge with the key authorisation: over HTTP at
  the well-known place or where it redirects, in its TXT record, or with a self-signed certificate for
  the name alone holding the digest.
\<close>

theorem validated_answered:
  assumes "fst (validate net vd kind name ka) = Inr ()"
  shows "answered net (vd_ports vd) kind name ka"
  using assms by (rule validated_means)

section \<open>The bytes of an answer\<close>

lemma lossy_ascii: "ascii_text s \<Longrightarrow> from_utf8_lossy s = s"
  by (induction s) (simp_all add: ascii_text_def from_utf8_lossy.simps(2) seq_ranges_def)

lemma lossy_head:
  assumes "from_utf8_lossy s = a # w" "byte a < 128"
  obtains t where "s = a # t" "from_utf8_lossy t = w"
proof (cases s)
  case (Cons c t)
  have high: "\<not> byte (hd replacement) < 128" "replacement \<noteq> []" by (simp_all add: replacement_def byte_def of_char_of)
  then have "hd (replacement @ x) \<noteq> a" for x using assms(2) by auto
  then have other: "replacement @ x \<noteq> a # w" for x by (metis list.sel(1))
  obtain rs where rs: "seq_ranges (byte c) = Some rs" using assms(1) Cons other by (cases "seq_ranges (byte c)") (auto simp: from_utf8_lossy.simps(2))
  then have run: "cont_run rs t = length rs" using assms(1) Cons other by (auto simp: from_utf8_lossy.simps(2) split: if_splits)
  then have "c = a" using assms(1) Cons rs by (simp add: from_utf8_lossy.simps(2))
  then have "rs = []" using rs assms(2) by (simp add: seq_ranges_def)
  then show thesis using that assms(1) Cons rs run \<open>c = a\<close> by (simp add: from_utf8_lossy.simps(2))
qed (use assms(1) in simp)

lemma lossy_prefix: "from_utf8_lossy s = a @ w \<Longrightarrow> ascii_text a \<Longrightarrow> \<exists>t. s = a @ t \<and> from_utf8_lossy t = w"
proof (induction a arbitrary: s)
  case (Cons c a)
  then have ascii: "byte c < 128" "ascii_text a" by (simp_all add: ascii_text_def)
  obtain t where "s = c # t" "from_utf8_lossy t = a @ w" using lossy_head [of s c "a @ w"] Cons.prems ascii(1) by auto
  then show ?case using Cons.IH ascii(2) by auto
qed simp

text \<open>An answer that validates starts with the bytes of the key authorisation.\<close>

lemma answer_bytes:
  assumes "trim_end (from_utf8_lossy body) = ka" "ascii_text ka"
  shows "take (length ka) body = ka"
proof -
  obtain w where "from_utf8_lossy body = ka @ w" using trim_end_prefix [of "from_utf8_lossy body"] assms(1) by auto
  from lossy_prefix [OF this assms(2)] show ?thesis by auto
qed

section \<open>Hosts that answer\<close>

text \<open>A host that answers at the well-known place is validated: none of the checks refuses it.\<close>

theorem answering_host_validated:
  assumes "nt_ip net [] name = Some (Inr (address # others))"
    and "\<And>h. nt_tcp net h address (po_http (vd_ports vd)) = Some (Inr ())"
    and "nt_request net (first_target (vd_ports vd) name ka) = None"
    and "\<And>h. nt_http net h (first_target (vd_ports vd) name ka) = Some (Inr \<lparr> hp_status = 200, hp_location = loc, hp_body = [Data (ka @ spaces)] \<rparr>)"
    and "ascii_text (ka @ spaces)" "trim_end (ka @ spaces) = ka" "length (ka @ spaces) \<le> 1024"
  shows "fst (validate net vd Http01 name ka) = Inr ()"
proof -
  let ?t = "first_target (vd_ports vd) name ka"
  have t: "tg_host ?t = name" "tg_port ?t = po_http (vd_ports vd)" "tg_https ?t = False" by (simp_all add: first_target_def)
  have got: "get net ?t [] = (Some (Inr \<lparr> hp_status = 200, hp_location = loc, hp_body = [Data (ka @ spaces)] \<rparr>),
      [Look_Up name, Connecting address (po_http (vd_ports vd)), Get_Request ?t])"
    using assms(1-4) by (simp add: get_def connect_def abind_def exchanged_def aret_def t)
  have "http_answer net ka ?t \<lparr> hp_status = 200, hp_location = loc, hp_body = [Data (ka @ spaces)] \<rparr> h = (Some (Inr ()), h)" for h
    using assms(6,7) lossy_ascii [OF assms(5)] by (simp add: http_answer_def abind_def waited_def max_body_def aret_def Let_def)
  then have "http_01 net (vd_ports vd) name ka [] = (Some (Inr ()), [Look_Up name, Connecting address (po_http (vd_ports vd)), Get_Request ?t])"
    by (simp add: http_01_def abind_def got)
  then show ?thesis by (simp add: validate_def validate_kind_def)
qed

text \<open>A network where the name redirects to another host that answers over HTTPS.\<close>

definition example_net :: net where
  "example_net = \<lparr> nt_ip = (\<lambda>h host. Some (Inr [''192.0.2.1''])), nt_txt = (\<lambda>h asked. Some (Inl \<lparr> df_absent = True, df_text = ''none'' \<rparr>)),
     nt_tcp = (\<lambda>h address port. Some (Inr ())),
     nt_tls = (\<lambda>h alpn host. Some (Inr \<lparr> ts_alpn = Some alpn, ts_chain = Some [[1]] \<rparr>)),
     nt_http = (\<lambda>h t. Some (Inr (if tg_https t then \<lparr> hp_status = 200, hp_location = None, hp_body = [Data ''.print''] \<rparr>
        else \<lparr> hp_status = 302, hp_location = Some ''https://www.home.test/a'', hp_body = [] \<rparr>))),
     nt_request = (\<lambda>t. None), nt_server_name = (\<lambda>host. None),
     nt_uri = (\<lambda>u. Some \<lparr> ur_path = Some ''/a'', ur_scheme = Some ''https'', ur_port = None, ur_host = Some ''www.home.test'' \<rparr>),
     nt_status_text = (\<lambda>n. nat_to_string n), nt_certificate = (\<lambda>der. Inl ''not a certificate''), nt_names_text = (\<lambda>ns. []),
     nt_sha256 = (\<lambda>s. []) \<rparr>"

lemma example_text: "to_ascii_lowercase ''www.home.test'' = ''www.home.test''" "starts_with ''['' ''www.home.test'' = False"
  "trim_end ''.print'' = ''.print''" "from_utf8_lossy ''.print'' = ''.print''" "hd (split_char CHR ''.'' ''.print'') = []"
  "parse_ip ''www.home.test'' = None" "ascii_text ''.print''"
proof -
  show "parse_ip ''www.home.test'' = None" by (rule parse_ip_first) (simp_all add: to_digit_def byte_defs)
  show ascii: "ascii_text ''.print''" by code_simp
  show "from_utf8_lossy ''.print'' = ''.print''" using ascii by (rule lossy_ascii)
qed code_simp+

abbreviation example_answer :: target where
  "example_answer \<equiv> \<lparr> tg_https = True, tg_host = ''www.home.test'', tg_port = 443, tg_path = ''/a'' \<rparr>"

lemma example_validates:
  "validate example_net validator_new Http01 ''home.test'' ''.print'' = (Inr (),
     [Look_Up ''home.test'', Connecting ''192.0.2.1'' 80, Get_Request (first_target ports_default ''home.test'' ''.print''),
      Look_Up ''www.home.test'', Connecting ''192.0.2.1'' 443, Tls_Hello ''http/1.1'' ''www.home.test'', Get_Request example_answer])"
proof -
  let ?first = "first_target ports_default ''home.test'' ''.print''"
  have first: "get example_net ?first h = (Some (Inr \<lparr> hp_status = 302, hp_location = Some ''https://www.home.test/a'', hp_body = [] \<rparr>),
      h @ [Look_Up ''home.test'', Connecting ''192.0.2.1'' 80, Get_Request ?first])" for h
    by (simp add: get_def connect_def abind_def exchanged_def aret_def example_net_def first_target_def ports_default_def)
  have second: "get example_net example_answer h = (Some (Inr \<lparr> hp_status = 200, hp_location = None, hp_body = [Data ''.print''] \<rparr>),
      h @ [Look_Up ''www.home.test'', Connecting ''192.0.2.1'' 443, Tls_Hello ''http/1.1'' ''www.home.test'', Get_Request example_answer])" for h
    by (simp add: get_def connect_def server_name_def abind_def exchanged_def aret_def example_net_def)
  have to: "redirect example_net ports_default ?first ''https://www.home.test/a'' = Inr example_answer"
    by (simp add: redirect_def example_net_def example_text ports_default_def)
  have turns: "max_redirects = Suc 9" by (simp add: max_redirects_def)
  have answer: "http_answer example_net ''.print'' example_answer \<lparr> hp_status = 200, hp_location = None, hp_body = [Data ''.print''] \<rparr> h = (Some (Inr ()), h)" for h
    by (simp add: http_answer_def abind_def waited_def max_body_def aret_def example_text)
  have "http_01 example_net ports_default ''home.test'' ''.print'' [] = (Some (Inr ()),
     [Look_Up ''home.test'', Connecting ''192.0.2.1'' 80, Get_Request ?first,
      Look_Up ''www.home.test'', Connecting ''192.0.2.1'' 443, Tls_Hello ''http/1.1'' ''www.home.test'', Get_Request example_answer])"
    unfolding http_01_def turns http_turns.simps abind_def first by (simp add: abind_def second to answer)
  then show ?thesis by (simp add: validate_def validate_kind_def validator_new_def)
qed

theorem validated_answered_witness: "answered example_net (vd_ports validator_new) Http01 ''home.test'' ''.print''"
  by (rule validated_answered) (simp add: example_validates)


theorem answering_host_validated_witness: "fst (validate (example_net\<lparr> nt_http := \<lambda>h t. Some (Inr \<lparr> hp_status = 200, hp_location = None, hp_body = [Data ''.print''] \<rparr>) \<rparr>)
    validator_new Http01 ''home.test'' ''.print'') = Inr ()"
  by (rule answering_host_validated [where spaces = "[]" and loc = None and address = "''192.0.2.1''" and others = "[]"])
     (simp_all add: example_net_def example_text)

end
