(* ===== verification/Acme_Proof.thy ===== *)
theory Acme_Proof
  imports Acme_Guarantees Acme_Validate
begin

text \<open>
  What a certificate of the ACME server proves of the network: every name on it answered a challenge
  with its key authorisation. The server's life (\<open>Acme_Served\<close>) is put together with the validator
  (\<open>Acme_Validate\<close>): each validation in the background asks for the challenge it decides.
\<close>

section \<open>What the database keeps of a challenge\<close>

definition challenge_facts :: "acme_db \<Rightarrow> (int \<times> int \<times> challenge_type \<times> string) list" where
  "challenge_facts db = map (\<lambda>c. (ch_id c, ch_authorisation c, ch_kind c, ch_token c)) (d_challenges db)"

definition authorisation_facts :: "acme_db \<Rightarrow> (int \<times> string) list" where
  "authorisation_facts db = map (\<lambda>z. (az_id z, az_identifier z)) (d_authorisations db)"

definition validated_ids :: "acme_db \<Rightarrow> int set" where
  "validated_ids db = ch_id ` {c \<in> set (d_challenges db). ch_status c = ChalValid}"

definition matches :: "validation \<Rightarrow> acme_db \<Rightarrow> bool" where
  "matches v db \<longleftrightarrow> (\<exists>k token print. (vn_challenge v, k, vn_kind v, token) \<in> set (challenge_facts db)
     \<and> (k, vn_identifier v) \<in> set (authorisation_facts db) \<and> vn_key_authorisation v = token @ ''.'' @ print)"

definition grows :: "acme_db \<Rightarrow> acme_db \<Rightarrow> bool" where
  "grows db db' \<longleftrightarrow> set (challenge_facts db) \<subseteq> set (challenge_facts db') \<and> set (authorisation_facts db) \<subseteq> set (authorisation_facts db')
     \<and> validated_ids db' \<subseteq> validated_ids db
     \<and> (distinct (map fst (authorisation_facts db)) \<longrightarrow> distinct (map fst (authorisation_facts db')))"

lemmas facts_defs = challenge_facts_def authorisation_facts_def validated_ids_def

lemma grows_trans: "grows a b \<Longrightarrow> grows b c \<Longrightarrow> grows a c"
  unfolding grows_def by blast

lemma grows_same:
  assumes "challenge_facts db' = challenge_facts db" "authorisation_facts db' = authorisation_facts db" "validated_ids db' \<subseteq> validated_ids db"
  shows "grows db db'"
  using assms by (simp add: grows_def)

lemma grows_rows: "d_challenges db' = d_challenges db \<Longrightarrow> d_authorisations db' = d_authorisations db \<Longrightarrow> grows db db'"
  by (rule grows_same) (simp_all add: facts_defs)

lemma grows_refl: "grows db db"
  by (simp add: grows_rows)

lemma matches_grows: "matches v db \<Longrightarrow> grows db db' \<Longrightarrow> matches v db'"
  unfolding matches_def grows_def by blast

section \<open>Transactions\<close>

lemma create_account_grows: "create_account lib jwk thumbprint cs db = Inr (x, db') \<Longrightarrow> grows db db'"
  by (rule grows_rows) (auto simp: create_account_def Let_def sbind_Inr_iff split: option.splits)

lemma set_contacts_grows: "grows db (set_contacts lib i cs db)"
  by (rule grows_rows) (simp_all add: set_contacts_def)

lemma change_key_grows: "change_key i jwk thumbprint db = Inr db' \<Longrightarrow> grows db db'"
  by (rule grows_rows) (auto simp: change_key_def Let_def split: option.splits if_splits)

lemma set_account_grows: "set_account_status i to db = Inr db' \<Longrightarrow> grows db db'"
  by (rule grows_rows) (auto simp: set_account_status_def sbind_Inr_iff)

lemma record_grows: "record_certificate lib i issued db = Inr (l, db') \<Longrightarrow> grows db db'"
  by (rule grows_rows) (auto simp: record_certificate_def sbind_Inr_iff Let_def split: option.splits if_splits)

lemma revoke_grows: "store_revoke lib serial reason db = Inr (l, db') \<Longrightarrow> grows db db'"
  by (rule grows_rows) (auto dest!: store_revoke_effect(1) simp: leaf_revoked_def)

lemma crl_number_grows: "grows db (snd (next_crl_number db))"
  by (rule grows_rows) (simp_all add: next_crl_number_def Let_def)

lemma authorisation_update_facts: "map (\<lambda>z. (az_id z, az_identifier z)) (tbl_update P (\<lambda>z. z\<lparr> az_status := st \<rparr>) rows)
    = map (\<lambda>z. (az_id z, az_identifier z)) rows"
  by (rule tbl_update_view) simp

lemma settle_rows: "settle_order_of z db = Inr db' \<Longrightarrow> d_challenges db' = d_challenges db \<and> d_authorisations db' = d_authorisations db"
  by (auto simp: settle_order_of_def ready_orders_def fail_orders_def split: option.splits)

lemma expire_grows: "grows db (snd (expire_stale lib now db))"
  by (rule grows_same) (simp_all add: expire_stale_def Let_def fail_orders_def facts_defs authorisation_update_facts)

lemma set_authorisation_grows:
  assumes "set_authorisation_status i to db = Inr db'"
  shows "grows db db'"
proof -
  obtain rows where rows: "transition authorisation_life i to (d_authorisations db) = Inr rows"
    and settled: "settle_order_of i (db\<lparr> d_authorisations := rows \<rparr>) = Inr db'"
    using assms by (auto simp: set_authorisation_status_def sbind_Inr_iff)
  show ?thesis
    using settle_rows [OF settled] authorisation_machine.transition_moves(1) [OF rows]
    by (intro grows_same) (simp_all add: facts_defs authorisation_life_def authorisation_update_facts)
qed

lemma decide_rows:
  assumes "decide_authorisation k decided db = Inr db'"
  shows "d_challenges db' = d_challenges db" "authorisation_facts db' = authorisation_facts db"
proof -
  have settled: "settle_order_of k (db\<lparr> d_authorisations := tbl_update (\<lambda>r. az_id r = k \<and> az_status r = AuthPending)
      (\<lambda>r. r\<lparr> az_status := decided \<rparr>) (d_authorisations db) \<rparr>) = Inr db'"
    using assms by (simp add: decide_authorisation_def)
  from settle_rows [OF settled] show "d_challenges db' = d_challenges db" "authorisation_facts db' = authorisation_facts db"
    by (simp_all add: authorisation_facts_def authorisation_update_facts)
qed

text \<open>A challenge's token, once minted, stays; only a verdict makes a challenge valid, and that challenge only.\<close>

lemma set_challenge_facts:
  assumes "set_challenge_status lib i to err db = Inr db'"
  shows "challenge_facts db' = challenge_facts db" "authorisation_facts db' = authorisation_facts db"
proof -
  let ?facts = "map (\<lambda>c :: challenge_row. (ch_id c, ch_authorisation c, ch_kind c, ch_token c))"
  obtain moved where "transition challenge_life i to (d_challenges db) = Inr moved"
    using assms by (auto simp: set_challenge_status_def sbind_Inr_iff)
  note moved = this challenge_machine.transition_moves(1) [OF this]
  have start: "?facts moved = challenge_facts db"
    unfolding moved(2) challenge_facts_def by (rule tbl_update_view) (simp add: challenge_life_def)
  define rows where "rows = tbl_update (\<lambda>r. ch_id r = i) (\<lambda>r. r\<lparr> ch_error := map_option (al_json_problem lib) err \<rparr>) moved"
  define dated where "dated = tbl_update (\<lambda>r. ch_id r = i) (\<lambda>r. r\<lparr> ch_validated := if ch_status r = ChalValid then Some (now_text lib) else None \<rparr>) rows"
  have same: "?facts rows = challenge_facts db" "?facts dated = challenge_facts db"
    unfolding start [symmetric] by (simp_all add: rows_def dated_def tbl_update_view)
  have "db' = db\<lparr> d_challenges := rows \<rparr> \<or> (\<exists>k d. decide_authorisation k d (db\<lparr> d_challenges := dated \<rparr>) = Inr db')"
    using assms moved(1) by (cases to) (auto simp: set_challenge_status_def sbind_Inr_iff Let_def rows_def dated_def split: option.splits)
  then show "challenge_facts db' = challenge_facts db" "authorisation_facts db' = authorisation_facts db"
    using same by (auto simp: facts_defs dest: decide_rows)
qed

lemma set_challenge_rows:
  assumes "set_challenge_status lib i to err db = Inr db'"
  obtains f where "d_challenges db' = tbl_update (\<lambda>c. ch_id c = i) f (d_challenges db)" "\<And>c. ch_id (f c) = ch_id c \<and> ch_status (f c) = to"
proof -
  obtain f rows where f: "\<And>c. ch_id (f c) = ch_id c \<and> ch_authorisation (f c) = ch_authorisation c \<and> ch_kind (f c) = ch_kind c \<and> ch_status (f c) = to"
    and rows: "rows = tbl_update (\<lambda>c. ch_id c = i) f (d_challenges db)"
    and undecided: "decided_by to = None \<Longrightarrow> db' = db\<lparr> d_challenges := rows \<rparr>"
    and decided: "\<And>decided. decided_by to = Some decided \<Longrightarrow> \<exists>c \<in> set rows. ch_id c = i
          \<and> decide_authorisation (ch_authorisation c) decided (db\<lparr> d_challenges := rows \<rparr>) = Inr db'"
    by (rule set_challenge_status_effect [OF assms]) (rule that)
  have "d_challenges db' = rows"
  proof (cases "decided_by to")
    case (Some d)
    from decided [OF this] show ?thesis by (auto dest: decide_rows)
  qed (simp add: undecided)
  then show thesis using that [of f] f rows by blast
qed

lemma set_challenge_validated:
  assumes "set_challenge_status lib i to err db = Inr db'"
  shows "validated_ids db' \<subseteq> (if to = ChalValid then insert i (validated_ids db) else validated_ids db)"
proof -
  obtain f where rows: "d_challenges db' = tbl_update (\<lambda>c. ch_id c = i) f (d_challenges db)" and f: "\<And>c. ch_id (f c) = ch_id c \<and> ch_status (f c) = to"
    by (rule set_challenge_rows [OF assms]) (rule that)
  show ?thesis using f by (auto simp: validated_ids_def rows tbl_update_def)
qed

lemma set_challenge_grows: "set_challenge_status lib i to err db = Inr db' \<Longrightarrow> to \<noteq> ChalValid \<Longrightarrow> grows db db'"
  using set_challenge_facts set_challenge_validated [of lib i to err db db'] by (intro grows_same) auto

text \<open>New rows take numbers not in use.\<close>

lemma insert_challenges_grows: "insert_challenges lib k kinds n db = Inr (m, db') \<Longrightarrow> grows db db'"
proof (induction lib k kinds n db rule: insert_challenges.induct)
  case (2 lib k kind kinds n db)
  from "2.prems" obtain raw where raw: "al_random lib n = Inr raw" by (auto split: sum.splits)
  define c where "c = \<lparr> ch_id = next_rowid 0 (map ch_id (d_challenges db)), ch_authorisation = k, ch_kind = kind,
    ch_token = base64url raw, ch_status = ChalPending, ch_validated = None, ch_error = None \<rparr>"
  have fresh: "base64url raw \<notin> ch_token ` set (d_challenges db)"
    and rest: "insert_challenges lib k kinds (Suc n) (db\<lparr> d_challenges := d_challenges db @ [c] \<rparr>) = Inr (m, db')"
    using "2.prems" raw by (auto simp: c_def Let_def split: if_splits)
  have "grows db (db\<lparr> d_challenges := d_challenges db @ [c] \<rparr>)" by (auto simp: grows_def facts_defs c_def)
  then show ?case using "2.IH" [OF raw c_def fresh rest] by (rule grows_trans)
qed (auto simp: grows_refl)

lemma insert_authorisations_grows: "insert_authorisations lib i news n db = Inr db' \<Longrightarrow> grows db db'"
proof (induction lib i news n db rule: insert_authorisations.induct)
  case (2 lib i new news n db)
  define k where "k = next_rowid 0 (map az_id (d_authorisations db))"
  define z where "z = \<lparr> az_id = k, az_order = i, az_identifier = na_identifier new, az_wildcard = na_wildcard new,
    az_status = AuthPending, az_expires = al_format lib (na_expires new) \<rparr>"
  let ?db = "db\<lparr> d_authorisations := d_authorisations db @ [z] \<rparr>"
  from "2.prems" obtain m db1 where first: "insert_challenges lib k (na_challenges new) n ?db = Inr (m, db1)"
    and rest: "insert_authorisations lib i news m db1 = Inr db'"
    by (auto simp: sbind_Inr_iff Let_def k_def z_def)
  have "k \<notin> set (map az_id (d_authorisations db))" unfolding k_def by (rule next_rowid_fresh)
  then have "grows db ?db" by (auto simp: grows_def facts_defs z_def comp_def)
  moreover have "grows ?db db1" by (rule insert_challenges_grows [OF first])
  moreover have "grows db1 db'" by (rule "2.IH" [OF k_def z_def rest])
  ultimately show ?case by (blast intro: grows_trans)
qed (auto simp: grows_refl)

lemma create_order_grows:
  assumes "create_order lib new db = Inr (o', db')"
  shows "grows db db'"
proof -
  obtain r i where "insert_authorisations lib i (no_authorisations new) 0 (db\<lparr> d_orders := d_orders db @ [r] \<rparr>) = Inr db'"
    using assms by (auto simp: create_order_def Let_def sbind_Inr_iff split: if_splits)
  moreover have "grows db (db\<lparr> d_orders := d_orders db @ [r] \<rparr>)" by (rule grows_rows) simp_all
  ultimately show ?thesis by (blast intro: grows_trans insert_authorisations_grows)
qed

section \<open>Requests\<close>

text \<open>
  What a handler does to the server: the facts grow, and a validation it starts is of a challenge in
  the database.
\<close>

definition carries :: "server \<Rightarrow> server \<Rightarrow> bool" where
  "carries s s' \<longleftrightarrow> grows (sv_db s) (sv_db s') \<and> (\<forall>v \<in> set (sv_tasks s'). v \<in> set (sv_tasks s) \<or> matches v (sv_db s'))"

definition hcarries :: "(server \<Rightarrow> server \<Rightarrow> bool) \<Rightarrow> 'a handler \<Rightarrow> bool" where
  "hcarries R m \<longleftrightarrow> (\<forall>s. R s (snd (m s)))"

lemma hcarriesD: "hcarries R m \<Longrightarrow> R s (snd (m s))"
  by (simp add: hcarries_def)

lemma carries_if: "(c \<Longrightarrow> R s (snd (a s))) \<Longrightarrow> (\<not> c \<Longrightarrow> R s (snd (b s))) \<Longrightarrow> R s (snd ((if c then a else b) s))"
  by simp

locale server_relation =
  fixes R :: "server \<Rightarrow> server \<Rightarrow> bool"
  assumes quiet: "sv_db s' = sv_db s \<Longrightarrow> sv_tasks s' = sv_tasks s \<Longrightarrow> R s s'" and compose: "R a b \<Longrightarrow> R b c \<Longrightarrow> R a c"
begin

lemma bind_at:
  assumes "R s (snd (m s))" "\<And>x s'. m s = (Inr x, s') \<Longrightarrow> R s' (snd (f x s'))"
  shows "R s (snd (hbind m f s))"
proof -
  obtain r s' where m: "m s = (r, s')" by fastforce
  then show ?thesis using assms compose by (cases r) (auto simp: hbind_def)
qed

lemma carries_bind: "hcarries R m \<Longrightarrow> (\<And>x. hcarries R (f x)) \<Longrightarrow> hcarries R (hbind m f)"
  unfolding hcarries_def by (intro allI bind_at) blast+

lemma carries_pure:
  "hcarries R (hret x)" "hcarries R (hlift r)" "hcarries R (hproblem q)" "hcarries R (hget g)" "hcarries R (hquery err ask)" "hcarries R (redeem_nonce n)"
  by (simp_all add: hcarries_def hret_def hlift_def hproblem_def hget_def hquery_def redeem_nonce_def quiet split: prod.split)

lemma carries_set: "(\<And>s. sv_db (f s) = sv_db s \<and> sv_tasks (f s) = sv_tasks s) \<Longrightarrow> hcarries R (hset f)"
  by (simp add: hcarries_def hset_def quiet)

lemma carries_tx: "(\<And>s x db. t (sv_db s) = Inr (x, db) \<Longrightarrow> R s (s\<lparr> sv_db := db \<rparr>)) \<Longrightarrow> hcarries R (htx err t)"
  by (auto simp: hcarries_def htx_def quiet split: sum.split prod.split)

lemma carries_cases:
  "hcarries R a \<Longrightarrow> hcarries R b \<Longrightarrow> hcarries R (if c then a else b)"
  "hcarries R a \<Longrightarrow> (\<And>x. hcarries R (f x)) \<Longrightarrow> hcarries R (case_option a f v)"
  "(\<And>x y. hcarries R (g x y)) \<Longrightarrow> hcarries R (case_prod g p)"
  "(\<And>a key. hcarries R (h1 a key)) \<Longrightarrow> (\<And>key. hcarries R (h2 key)) \<Longrightarrow> hcarries R (case_signer h1 h2 signer)"
  "hcarries R (h v') \<Longrightarrow> hcarries R (Let v' h)"
  by (simp_all split: option.split prod.split signer.split)

lemmas carries_rules = carries_pure carries_bind carries_cases

end

interpretation kept: server_relation carries
proof
  show "carries s s'" if "sv_db s' = sv_db s" "sv_tasks s' = sv_tasks s" for s s' :: server
    using that by (simp add: carries_def grows_refl)
  show "carries a c" if "carries a b" "carries b c" for a b c
    using that grows_trans matches_grows unfolding carries_def by blast
qed

lemma kept_tx: "(\<And>db x db'. t db = Inr (x, db') \<Longrightarrow> grows db db') \<Longrightarrow> hcarries carries (htx err t)"
  by (rule kept.carries_tx) (simp add: carries_def)

lemma kept_changed: "(\<And>db db'. t db = Inr db' \<Longrightarrow> grows db db') \<Longrightarrow> hcarries carries (htx err (changed t))"
  by (rule kept_tx) (auto simp: changed_def sbind_Inr_iff)

lemma kept_verified: "hcarries carries (verified_jws env p rule)"
  unfolding verified_jws_def jose_check_def signing_account_def
  by (intro kept.carries_rules) (auto split: key_ref.split key_rule.split intro!: kept.carries_rules)

lemma kept_verify: "hcarries carries (verify env p rule)" "hcarries carries (by_account env p)" "hcarries carries (verify_key_change env p)"
  unfolding verify_def by_account_def verify_key_change_def jose_check_def by (intro kept.carries_rules kept_verified)+

lemma kept_expire: "hcarries carries (server_expire env k)"
  unfolding server_expire_def by (rule kept_tx) (auto intro: expire_grows)

lemma kept_reads:
  "hcarries carries (owned_order env i a)" "hcarries carries (order_of env k i a)" "hcarries carries (authorisation_of env k i a)"
  "hcarries carries (read_account env p i)" "hcarries carries (read_challenge env i)" "hcarries carries issuing"
  unfolding owned_order_def order_of_def authorisation_of_def read_account_def read_challenge_def issuing_def
  by (intro kept.carries_rules kept_expire)+

lemmas kept_parts = kept_verify kept_reads kept_expire kept.carries_rules

lemma kept_accounts: "hcarries carries (new_account env p)" "hcarries carries (account_handler env i p)" "hcarries carries (key_change_handler env p)"
  unfolding new_account_def account_handler_def key_change_handler_def
  by (intro kept_parts kept_changed kept_tx;
      auto intro: create_account_grows set_contacts_grows set_account_grows change_key_grows)+

lemma kept_orders: "hcarries carries (orders_handler env i p)" "hcarries carries (order_handler env i p)"
  "hcarries carries (certificate_handler env i p)" "hcarries carries (new_order_handler env p)"
  unfolding orders_handler_def order_handler_def certificate_handler_def new_order_handler_def
  by (intro kept_parts kept_tx; auto intro: create_order_grows)+

lemma kept_authorisation: "hcarries carries (authorisation_handler env i p)"
  unfolding authorisation_handler_def by (intro kept_parts kept_changed) (auto intro: set_authorisation_grows)

lemma kept_revoke: "hcarries carries (revoke_handler env p)"
  unfolding revoke_handler_def by (intro kept_parts kept_tx kept.carries_set) (auto intro: revoke_grows)

lemma finalise_order_grows: "finalise_order ilib lib issuer ord csr key db = (r, db') \<Longrightarrow> grows db db'"
  by (auto simp: finalise_order_def grows_refl intro: record_grows split: sum.splits prod.splits)

lemma kept_finalise: "hcarries carries (finalise_handler env i p)"
proof -
  have "hcarries carries (finalise_leaf env issuer ord csr key)" for issuer ord csr key
    unfolding hcarries_def finalise_leaf_def using finalise_order_grows
    by (fastforce simp: carries_def split: prod.split sum.split)
  then show ?thesis unfolding finalise_handler_def finalise_read_def by (intro kept_parts)
qed

text \<open>A challenge that is started: the validation asks for the row that was read.\<close>

lemma read_challenge_facts:
  assumes "read_challenge env i s = (Inr c, s')"
  shows "(i, c_authorisation c, c_kind c, c_token c) \<in> set (challenge_facts (sv_db s'))"
proof -
  have "challenge_by_id (se_store env) i (sv_db s) = Inr (Some c)" "s' = s"
    using assms by (auto simp: read_challenge_def hbind_Inr_iff found_def split: option.splits)
  then show ?thesis
    by (force simp: challenge_by_id_def challenge_of_row_def sbind_Inr_iff facts_defs split: option.splits dest!: find_found)
qed

lemma authorisation_of_facts:
  assumes "authorisation_of env k i a s = (Inr z, s')"
  shows "(i, z_identifier z) \<in> set (authorisation_facts (sv_db s'))"
proof -
  obtain s1 where "authorisation_by_id (se_store env) i (sv_db s1) = Inr (Some z)" "s' = s1"
    using assms by (auto simp: authorisation_of_def hbind_Inr_iff owned_order_iff found_def split: option.splits)
  then show ?thesis
    by (force simp: authorisation_by_id_def sbind_Inr_iff facts_defs split: option.splits dest!: find_found)
qed

lemma kept_started:
  assumes "matches v (sv_db s)"
  shows "carries s (snd (hbind (hproblem q) (\<lambda>_. hbind (tx (changed (set_challenge_status lib i ChalProcessing None)))
    (\<lambda>_. hbind (hset (validate_in_background v)) (\<lambda>_. read_challenge env i))) s))"
proof (intro kept.bind_at)
  fix x s1
  assume "hproblem q s = (Inr x, s1)"
  then have s1: "matches v (sv_db s1)" using assms by simp
  have moved: "hcarries carries (tx (changed (set_challenge_status lib i ChalProcessing None)))"
    by (rule kept_changed) (auto intro: set_challenge_grows)
  then show "carries s1 (snd (tx (changed (set_challenge_status lib i ChalProcessing None)) s1))" by (simp add: hcarries_def)
  fix y s2
  assume step: "tx (changed (set_challenge_status lib i ChalProcessing None)) s1 = (Inr y, s2)"
  have "carries s1 s2" using moved step unfolding hcarries_def by (metis snd_conv)
  then have "matches v (sv_db s2)" using matches_grows [OF s1] by (simp add: carries_def)
  then show "carries s2 (snd (hset (validate_in_background v) s2))" by (simp add: carries_def validate_in_background_def grows_refl)
  show "carries s3 (snd (read_challenge env i s3))" for s3 using kept_reads(5) by (simp add: hcarries_def)
qed (rule hcarriesD [OF kept.carries_pure(3)])

lemma kept_challenge: "hcarries carries (challenge_handler env i p)"
proof -
  let ?start = "\<lambda>a payload c z. if payload \<noteq> [] \<and> c_status c = ChalPending \<and> z_status z = AuthPending then
      hbind (hproblem (parse_payload (se_object env) payload)) (\<lambda>_.
      hbind (tx (changed (set_challenge_status (se_store env) i ChalProcessing None))) (\<lambda>_.
      hbind (hset (validate_in_background \<lparr> vn_challenge = i, vn_kind = c_kind c, vn_identifier = z_identifier z,
               vn_key_authorisation = c_token c @ ''.'' @ a_thumbprint a \<rparr>)) (\<lambda>_.
      read_challenge env i)))
    else hret c"
  have started: "carries s (snd (?start a payload c z s))"
    if "(i, c_authorisation c, c_kind c, c_token c) \<in> set (challenge_facts (sv_db s))"
      "(c_authorisation c, z_identifier z) \<in> set (authorisation_facts (sv_db s))" for s a payload c z
  proof -
    have "matches \<lparr> vn_challenge = i, vn_kind = c_kind c, vn_identifier = z_identifier z,
        vn_key_authorisation = c_token c @ ''.'' @ a_thumbprint a \<rparr> (sv_db s)"
      using that by (auto simp: matches_def)
    from kept_started [OF this] show ?thesis by (rule carries_if) (rule hcarriesD [OF kept.carries_pure(1)])
  qed
  have answered: "hcarries carries (hbind (read_challenge env i) (\<lambda>c. hbind (authorisation_of env 0 (c_authorisation c) a) (\<lambda>z.
      hbind (?start a payload c z) (\<lambda>c. hret (f z c)))))" for a payload and f :: "authorisation \<Rightarrow> challenge \<Rightarrow> response"
    unfolding hcarries_def
  proof (intro allI kept.bind_at)
    fix s
    show "carries s (snd (read_challenge env i s))" using kept_reads(5) by (simp add: hcarries_def)
    fix c s1
    assume c: "read_challenge env i s = (Inr c, s1)"
    show owned: "carries s1 (snd (authorisation_of env 0 (c_authorisation c) a s1))" using kept_reads(3) by (simp add: hcarries_def)
    fix z s2
    assume z: "authorisation_of env 0 (c_authorisation c) a s1 = (Inr z, s2)"
    have "(i, c_authorisation c, c_kind c, c_token c) \<in> set (challenge_facts (sv_db s2))"
      using read_challenge_facts [OF c] owned z by (auto simp: carries_def grows_def)
    then show "carries s2 (snd (?start a payload c z s2))" using authorisation_of_facts [OF z] by (rule started)
    show "carries s3 (snd (hret (f z c') s3))" for c' s3 using kept.carries_pure(1) by (simp add: hcarries_def)
  qed
  show ?thesis
    unfolding challenge_handler_def
    by (rule kept.carries_bind [OF kept_verify(2)], rule kept.carries_cases(3), rule kept.carries_cases(3), rule answered)
qed

lemma kept_handle: "hcarries carries (handle env route r)"
proof (cases route)
qed (auto simp: handle_def with_id_def intro!: kept.carries_rules kept_accounts kept_orders kept_authorisation kept_revoke
      kept_finalise kept_challenge)

section \<open>The life of the server, with the networks it validated over\<close>

text \<open>
  As \<open>server_reached\<close>, with the validations whose verdicts were successes. Here a snapshot is restored
  only while no validation is running.
\<close>

type_synonym evidence = "(net \<times> validator \<times> validation) set"

definition verdict :: "net \<Rightarrow> validator \<Rightarrow> validation \<Rightarrow> problem + unit" where
  "verdict net vd v = fst (validate net vd (vn_kind v) (vn_identifier v) (vn_key_authorisation v))"

inductive evidenced :: "(string list \<Rightarrow> string) \<Rightarrow> server \<Rightarrow> evidence \<Rightarrow> bool" for jt where
  Evidenced_New: "evidenced jt (server_new acme_db_new) {}"
| Evidenced_Request: "evidenced jt s E \<Longrightarrow> keeps_texts jt env \<Longrightarrow> evidenced jt (snd (handle env route r s)) E"
| Evidenced_Stamp: "evidenced jt s E \<Longrightarrow> evidenced jt (snd (stamp raw s)) E"
| Evidenced_Validated: "evidenced jt s E \<Longrightarrow> v \<in> set (sv_tasks s) \<Longrightarrow>
    evidenced jt (validation_ends lib v (verdict net vd v) s) (if verdict net vd v = Inr () then insert (net, vd, v) E else E)"
| Evidenced_Resume: "evidenced jt s E \<Longrightarrow> evidenced jt (resume s) E"
| Evidenced_Issuer: "evidenced jt s E \<Longrightarrow> evidenced jt (set_issuer issuer s) E"
| Evidenced_Paused: "evidenced jt s E \<Longrightarrow> evidenced jt (set_paused p s) E"
| Evidenced_Restart: "evidenced jt s E \<Longrightarrow> evidenced jt (server_new (sv_db s)) E"
| Evidenced_Revoked: "evidenced jt s E \<Longrightarrow> store_revoke lib serial reason (sv_db s) = Inr (l, db) \<Longrightarrow> evidenced jt (s\<lparr> sv_db := db \<rparr>) E"
| Evidenced_Crl: "evidenced jt s E \<Longrightarrow> evidenced jt (s\<lparr> sv_db := snd (next_crl_number (sv_db s)) \<rparr>) E"
| Evidenced_Restore: "evidenced jt s E \<Longrightarrow> sv_tasks s = [] \<Longrightarrow> evidenced jt old E' \<Longrightarrow>
    replaced (snapshot lib now (sv_db old)) (sv_db s) = Inr db \<Longrightarrow> evidenced jt (s\<lparr> sv_db := db \<rparr>) (E \<union> E')"

lemma evidenced_reached: "evidenced jt s E \<Longrightarrow> server_reached jt s"
proof (induction rule: evidenced.induct)
  case (Evidenced_Restore s E old E' lib now db)
  then show ?case by (blast intro: Server_Restore)
qed (auto intro: server_reached.intros)

definition backed :: "server \<Rightarrow> evidence \<Rightarrow> bool" where
  "backed s E \<longleftrightarrow> distinct (map fst (authorisation_facts (sv_db s))) \<and> (\<forall>v \<in> set (sv_tasks s). matches v (sv_db s))
     \<and> (\<forall>i \<in> validated_ids (sv_db s). \<exists>(net, vd, v) \<in> E. vn_challenge v = i \<and> matches v (sv_db s) \<and> verdict net vd v = Inr ())"

lemma backed_carries:
  assumes "backed s E" "carries s s'"
  shows "backed s' E"
proof -
  have grown: "grows (sv_db s) (sv_db s')" using assms(2) by (simp add: carries_def)
  have "\<exists>(net, vd, v) \<in> E. vn_challenge v = i \<and> matches v (sv_db s') \<and> verdict net vd v = Inr ()" if i: "i \<in> validated_ids (sv_db s')" for i
  proof -
    have "i \<in> validated_ids (sv_db s)" using i grown unfolding grows_def by blast
    then obtain net vd v where "(net, vd, v) \<in> E" "vn_challenge v = i" "matches v (sv_db s)" "verdict net vd v = Inr ()"
      using assms(1) unfolding backed_def by blast
    then show ?thesis using matches_grows [OF _ grown] by blast
  qed
  moreover have "\<forall>v \<in> set (sv_tasks s'). matches v (sv_db s')"
    using assms matches_grows [OF _ grown] unfolding backed_def carries_def by blast
  moreover have "distinct (map fst (authorisation_facts (sv_db s')))" using assms(1) grown by (simp add: backed_def grows_def)
  ultimately show ?thesis by (simp add: backed_def)
qed

lemma restore_rows:
  assumes "replaced (snapshot lib now old) db = Inr db'"
  shows "d_challenges db' = d_challenges old" "d_authorisations db' = d_authorisations old"
  using assms by (auto simp: replaced_def snapshot_def Let_def split: if_split_asm)

lemma restore_facts:
  assumes "replaced (snapshot lib now old) db = Inr db'"
  shows "challenge_facts db' = challenge_facts old" "authorisation_facts db' = authorisation_facts old" "validated_ids db' = validated_ids old"
  by (simp_all add: facts_defs restore_rows [OF assms])

lemma processing_matches:
  assumes "v \<in> set (processing db)"
  shows "matches v db"
proof -
  have "\<exists>c \<in> set (d_challenges db). \<exists>z \<in> set (d_authorisations db). az_id z = ch_authorisation c \<and> (\<exists>print. v = \<lparr> vn_challenge = ch_id c, vn_kind = ch_kind c,
      vn_identifier = az_identifier z, vn_key_authorisation = ch_token c @ ''.'' @ print \<rparr>)"
    using assms unfolding processing_def by clarsimp blast
  then obtain c z print where c: "c \<in> set (d_challenges db)" and z: "z \<in> set (d_authorisations db)" "az_id z = ch_authorisation c"
    and v: "v = \<lparr> vn_challenge = ch_id c, vn_kind = ch_kind c, vn_identifier = az_identifier z, vn_key_authorisation = ch_token c @ ''.'' @ print \<rparr>"
    by blast
  have "(ch_id c, az_id z, ch_kind c, ch_token c) \<in> set (challenge_facts db)" using c z(2) by (auto simp: facts_defs)
  moreover have "(az_id z, az_identifier z) \<in> set (authorisation_facts db)" using z(1) by (auto simp: facts_defs)
  ultimately show ?thesis unfolding matches_def v by auto
qed

lemma backed_verdict:
  assumes "backed s E" "v \<in> set (sv_tasks s)"
  shows "backed (validation_ends lib v (verdict net vd v) s) (if verdict net vd v = Inr () then insert (net, vd, v) E else E)"
proof -
  define to where "to = (if verdict net vd v = Inr () then ChalValid else ChalInvalid)"
  define E' where "E' = (if verdict net vd v = Inr () then insert (net, vd, v) E else E)"
  let ?s = "validation_ends lib v (verdict net vd v) s"
  obtain err where ends: "?s = s\<lparr> sv_tasks := remove1 v (sv_tasks s),
      sv_db := (case set_challenge_status lib (vn_challenge v) to err (sv_db s) of Inl _ \<Rightarrow> sv_db s | Inr db \<Rightarrow> db) \<rparr>"
    by (cases "verdict net vd v") (auto simp: validation_ends_def to_def)
  have facts: "challenge_facts (sv_db ?s) = challenge_facts (sv_db s)" "authorisation_facts (sv_db ?s) = authorisation_facts (sv_db s)"
    unfolding ends by (auto dest: set_challenge_facts split: sum.split)
  have valid: "validated_ids (sv_db ?s) \<subseteq> (if to = ChalValid then insert (vn_challenge v) (validated_ids (sv_db s)) else validated_ids (sv_db s))"
    using set_challenge_validated [of lib "vn_challenge v" to err "sv_db s"]
    unfolding ends by (cases "set_challenge_status lib (vn_challenge v) to err (sv_db s)") auto
  have same: "matches w (sv_db ?s) = matches w (sv_db s)" for w by (simp add: matches_def facts)
  have asked: "matches v (sv_db s)" using assms by (simp add: backed_def)
  have "\<exists>(net, vd, w) \<in> E'. vn_challenge w = i \<and> matches w (sv_db s) \<and> verdict net vd w = Inr ()" if i: "i \<in> validated_ids (sv_db ?s)" for i
  proof (cases "i \<in> validated_ids (sv_db s)")
    case True
    then show ?thesis using assms(1) unfolding backed_def E'_def by auto
  next
    case False
    then have "i = vn_challenge v" "to = ChalValid" using i valid by (auto split: if_splits)
    then have ok: "verdict net vd v = Inr ()" by (auto simp: to_def split: if_splits)
    then have "(net, vd, v) \<in> E'" by (simp add: E'_def)
    then show ?thesis using asked ok \<open>i = vn_challenge v\<close> by blast
  qed
  moreover have "\<forall>w \<in> set (sv_tasks ?s). matches w (sv_db s)"
    using assms(1) set_remove1_subset unfolding ends backed_def by fastforce
  ultimately have "backed ?s E'" using assms(1) by (simp add: backed_def facts same)
  then show ?thesis by (simp add: E'_def)
qed

lemma backed_restored:
  assumes "backed s E" "sv_tasks s = []" "backed old E'" "replaced (snapshot lib now (sv_db old)) (sv_db s) = Inr db"
  shows "backed (s\<lparr> sv_db := db \<rparr>) (E \<union> E')"
proof -
  note facts = restore_facts [OF assms(4)]
  have same: "matches v db = matches v (sv_db old)" for v by (simp add: matches_def facts)
  have "\<exists>(net, vd, v) \<in> E \<union> E'. vn_challenge v = i \<and> matches v db \<and> verdict net vd v = Inr ()" if "i \<in> validated_ids db" for i
    using that assms(3) unfolding facts same backed_def by blast
  then show ?thesis using assms(2,3) by (simp add: backed_def facts)
qed

lemma backed_quiet: "sv_db s' = sv_db s \<Longrightarrow> set (sv_tasks s') \<subseteq> set (sv_tasks s) \<Longrightarrow> backed s E \<Longrightarrow> backed s' E"
  by (auto simp: backed_def)

lemma evidenced_backed: "evidenced jt s E \<Longrightarrow> backed s E"
proof (induction rule: evidenced.induct)
  case Evidenced_New
  show ?case by (simp add: backed_def server_new_def acme_db_new_def facts_defs)
next
  case (Evidenced_Request s E env route r)
  then show ?case by (blast intro: backed_carries hcarriesD [OF kept_handle])
next
  case (Evidenced_Validated s E v lib net vd)
  then show ?case by (intro backed_verdict)
next
  case (Evidenced_Resume s E)
  have "carries s (resume s)" using processing_matches by (auto simp: carries_def resume_def grows_refl)
  with Evidenced_Resume.IH show ?case by (rule backed_carries)
next
  case (Evidenced_Revoked s E lib serial reason l db)
  have "carries s (s\<lparr> sv_db := db \<rparr>)" using revoke_grows [OF Evidenced_Revoked.hyps(2)] by (simp add: carries_def)
  with Evidenced_Revoked.IH show ?case by (rule backed_carries)
next
  case (Evidenced_Crl s E)
  have "carries s (s\<lparr> sv_db := snd (next_crl_number (sv_db s)) \<rparr>)" using crl_number_grows by (simp add: carries_def)
  with Evidenced_Crl.IH show ?case by (rule backed_carries)
next
  case (Evidenced_Restore s E old E' lib now db)
  then show ?case by (intro backed_restored)
next
  case (Evidenced_Stamp s E raw)
  then show ?case by (auto simp: stamp_def intro: backed_quiet split: sum.split)
next
  case (Evidenced_Issuer s E issuer)
  then show ?case by (auto simp: set_issuer_def intro: backed_quiet)
next
  case (Evidenced_Paused s E p)
  then show ?case by (auto simp: set_paused_def intro: backed_quiet)
next
  case (Evidenced_Restart s E)
  then show ?case by (auto simp: server_new_def intro: backed_quiet)
qed


section \<open>Certificates and the network\<close>

text \<open>The one row a validation asks for, and the authorisation it belongs to.\<close>

lemma matches_row:
  assumes "distinct (map ch_id (d_challenges db))" "distinct (map fst (authorisation_facts db))" "matches v db"
    and "c \<in> set (d_challenges db)" "vn_challenge v = ch_id c" "z \<in> set (d_authorisations db)" "ch_authorisation c = az_id z"
  shows "\<exists>print. vn_kind v = ch_kind c \<and> vn_identifier v = az_identifier z \<and> vn_key_authorisation v = ch_token c @ ''.'' @ print"
proof -
  obtain c' z' print where c': "c' \<in> set (d_challenges db)" "ch_id c' = vn_challenge v" "ch_kind c' = vn_kind v"
    and z': "z' \<in> set (d_authorisations db)" "az_id z' = ch_authorisation c'" "az_identifier z' = vn_identifier v"
    and key: "vn_key_authorisation v = ch_token c' @ ''.'' @ print"
    using assms(3) unfolding matches_def facts_defs by auto
  have "c' = c" using assms(1,4,5) c'(1,2) by (auto dest: inj_onD simp: distinct_map)
  moreover have "map fst (authorisation_facts db) = map az_id (d_authorisations db)" by (simp add: facts_defs comp_def)
  then have "z' = z" using assms(2,6,7) z'(1,2) \<open>c' = c\<close> by (auto dest: inj_onD simp: distinct_map)
  ultimately show ?thesis using c' z' key by auto
qed


text \<open>A certificate of such a life, validated over the network of \<open>Acme_Validate\<close>.\<close>

lemma example_restamped_evidence:
  assumes "evidenced jt (spent (example_state db ns ts)) E" "length ns < 4096"
  shows "evidenced jt (example_state db (ns @ [[]]) ts) E"
  using Evidenced_Stamp [OF assms(1), of "Inr []"] stamped_simps [of "spent (example_state db ns ts)" ns] assms(2) by (simp add: stamped_def)

lemma example_verdict: "verdict example_net validator_new example_validation = Inr ()"
  by (simp add: verdict_def example_validation_def example_validates)

lemma example_evidenced:
  "evidenced write_texts (example_state (db_2 OrderReady AuthValid ChalValid (Some ''1'')) (replicate 4 []) [])
     {(example_net, validator_new, example_validation)}"
proof -
  let ?R = "\<lambda>s. evidenced write_texts s {}"
  have "?R (spent (example_state acme_db_new [] []))"
    using Evidenced_Issuer [OF Evidenced_New, of write_texts example_issuer] by (simp add: set_issuer_def server_new_def nonces_new_def)
  note start = example_restamped_evidence [OF this, simplified]
  have "?R (spent (example_state db_1 [[]] []))"
    using Evidenced_Request [OF start example_keeps_texts, of New_Account_Route "example_request [0]"] unfolding step_account .
  note account = example_restamped_evidence [OF this, simplified]
  have "?R (spent (example_state (db_2 OrderPending AuthPending ChalPending None) [[], []] []))"
    using Evidenced_Request [OF account example_keeps_texts, of New_Order_Route "example_request [1]"] unfolding step_order .
  note order = example_restamped_evidence [OF this, simplified]
  have "?R (spent (example_state (db_2 OrderPending AuthPending ChalProcessing None) [[], [], []] [example_validation]))"
    using Evidenced_Request [OF order example_keeps_texts, of "Challenge_Route ''1''" "example_request [2]"] unfolding step_challenge .
  note challenge = example_restamped_evidence [OF this, simplified]
  show ?thesis
    using Evidenced_Validated [OF challenge, of example_validation "se_store example_server_env" example_net validator_new]
      step_validated [of "[[], [], [], []]"]
    by (simp add: numeral_eq_Suc example_verdict)
qed


section \<open>A restore while a validation runs\<close>

text \<open>A success is recorded whenever the row is processing and its authorisation is there.\<close>

lemma success_recorded:
  assumes "distinct (map ch_id (d_challenges db))" "foreign_keys_ok db" "c \<in> set (d_challenges db)" "ch_status c = ChalProcessing"
  shows "\<exists>db'. set_challenge_status lib (ch_id c) ChalValid err db = Inr db'"
proof -
  let ?i = "ch_id c"
  have unique: "c' = c" if "c' \<in> set (d_challenges db)" "ch_id c' = ?i" for c'
    using that assms(1,3) by (auto dest: inj_onD simp: distinct_map)
  obtain c' where "List.find (\<lambda>r. ch_id r = ?i) (d_challenges db) = Some c'"
    using assms(3) by (cases "List.find (\<lambda>r. ch_id r = ?i) (d_challenges db)") (auto simp: find_None_iff)
  with unique find_found [OF this] have row: "List.find (\<lambda>r. ch_id r = ?i) (d_challenges db) = Some c" by blast
  define moved where "moved = tbl_update (\<lambda>r. ch_id r = ?i) (\<lambda>r. r\<lparr> ch_status := ChalValid \<rparr>) (d_challenges db)"
  have transition: "transition challenge_life ?i ChalValid (d_challenges db) = Inr moved"
    using row assms(4) by (simp add: transition_def read_status_def sbind_def challenge_life_def challenge_may_become_def moved_def)
  define rows where "rows = tbl_update (\<lambda>r. ch_id r = ?i) (\<lambda>r. r\<lparr> ch_validated := if ch_status r = ChalValid then Some (now_text lib) else None \<rparr>)
     (tbl_update (\<lambda>r. ch_id r = ?i) (\<lambda>r. r\<lparr> ch_error := map_option (al_json_problem lib) err \<rparr>) moved)"
  have views: "map ch_id rows = map ch_id (d_challenges db)" "map ch_authorisation rows = map ch_authorisation (d_challenges db)"
    by (simp_all add: rows_def moved_def tbl_update_view)
  have "?i \<in> set (map ch_id rows)" using assms(3) unfolding views by simp
  then have "\<exists>r \<in> set rows. ch_id r = ?i" by auto
  then obtain r where r: "List.find (\<lambda>r. ch_id r = ?i) rows = Some r"
    by (cases "List.find (\<lambda>r. ch_id r = ?i) rows") (auto simp: find_None_iff)
  have "ch_authorisation r \<in> set (map ch_authorisation rows)" using find_found [OF r] by simp
  then have owner: "ch_authorisation r \<in> az_id ` set (d_authorisations db)"
    using assms(2) unfolding views by (auto simp: foreign_keys_ok_def list_all_iff)
  define auths where "auths = tbl_update (\<lambda>z. az_id z = ch_authorisation r \<and> az_status z = AuthPending) (\<lambda>z. z\<lparr> az_status := AuthValid \<rparr>) (d_authorisations db)"
  have "map az_id auths = map az_id (d_authorisations db)" by (simp add: auths_def tbl_update_view)
  then have "ch_authorisation r \<in> set (map az_id auths)" using owner by simp
  then have "\<exists>z \<in> set auths. az_id z = ch_authorisation r" by auto
  then obtain z where "List.find (\<lambda>z. az_id z = ch_authorisation r) auths = Some z"
    by (cases "List.find (\<lambda>z. az_id z = ch_authorisation r) auths") (auto simp: find_None_iff)
  then have "\<exists>db'. decide_authorisation (ch_authorisation r) AuthValid (db\<lparr> d_challenges := rows \<rparr>) = Inr db'"
    by (simp add: decide_authorisation_def settle_order_of_def auths_def)
  then show ?thesis using transition r by (simp add: set_challenge_status_def sbind_def rows_def)
qed

text \<open>
  A validation decides the challenge of its number, whatever that row has become. When a snapshot is
  restored while one runs, the verdict on its name makes a challenge of the snapshot valid.
\<close>

theorem verdict_outlives_restore:
  assumes "server_reached jt s" "v \<in> set (sv_tasks s)" "server_reached jt old" "c \<in> set (d_challenges (sv_db old))"
    and "ch_id c = vn_challenge v" "ch_status c = ChalProcessing"
    and "replaced (snapshot lib now (sv_db old)) (sv_db s) = Inr db"
  shows "\<exists>s'. server_reached jt s' \<and> s' = validation_ends lib v (Inr ()) (s\<lparr> sv_db := db \<rparr>)
    \<and> authorisation_facts (sv_db s') = authorisation_facts (sv_db old) \<and> ch_id c \<in> validated_ids (sv_db s')"
proof -
  let ?s = "s\<lparr> sv_db := db \<rparr>"
  let ?ended = "validation_ends lib v (Inr ()) ?s"
  note rows = restore_rows [OF assms(7)]
  have "distinct (map ch_id (d_challenges db))"
    using acme_reached_ok server_reached_ok [OF assms(3)] by (auto simp: served_ok_def acme_ok_def tbl_keyed_def rows)
  moreover have "foreign_keys_ok db" using assms(7) by (auto simp: replaced_def Let_def split: if_split_asm)
  ultimately obtain db' where db': "set_challenge_status lib (ch_id c) ChalValid None db = Inr db'"
    using success_recorded assms(4,6) unfolding rows [symmetric] by blast
  have ended: "sv_db ?ended = db'" using db' assms(5) by (simp add: validation_ends_def)
  obtain f where f: "d_challenges db' = tbl_update (\<lambda>r. ch_id r = ch_id c) f (d_challenges db)" "\<And>r. ch_id (f r) = ch_id r \<and> ch_status (f r) = ChalValid"
    by (rule set_challenge_rows [OF db']) (rule that)
  have "f c \<in> set (d_challenges db')" using assms(4) unfolding f(1) rows tbl_update_def by force
  then have "ch_id (f c) \<in> validated_ids db'" using f(2) unfolding validated_ids_def by blast
  then have "ch_id c \<in> validated_ids db'" using f(2) by simp
  moreover have "server_reached jt ?ended"
    by (rule Server_Validated [OF Server_Restore [OF assms(1,3,7)]]) (simp add: assms(2))
  ultimately show ?thesis
    using set_challenge_facts(2) [OF db'] restore_facts(2) [OF assms(7)] by (intro exI [of _ ?ended]) (simp add: ended)
qed

lemma example_pending: "server_reached write_texts (example_state (db_2 OrderPending AuthPending ChalProcessing None) (replicate 4 []) [example_validation])"
proof -
  let ?R = "server_reached write_texts"
  have "?R (spent (example_state acme_db_new [] []))"
    using Server_Issuer [OF Server_New, of write_texts example_issuer] by (simp add: set_issuer_def server_new_def nonces_new_def)
  note start = example_restamped [OF this, simplified]
  have "?R (spent (example_state db_1 [[]] []))"
    using Server_Request [OF start example_keeps_texts, of New_Account_Route "example_request [0]"] unfolding step_account .
  note account = example_restamped [OF this, simplified]
  have "?R (spent (example_state (db_2 OrderPending AuthPending ChalPending None) [[], []] []))"
    using Server_Request [OF account example_keeps_texts, of New_Order_Route "example_request [1]"] unfolding step_order .
  note order = example_restamped [OF this, simplified]
  have "?R (spent (example_state (db_2 OrderPending AuthPending ChalProcessing None) [[], [], []] [example_validation]))"
    using Server_Request [OF order example_keeps_texts, of "Challenge_Route ''1''" "example_request [2]"] unfolding step_challenge .
  from example_restamped [OF this, simplified] show ?thesis by (simp add: numeral_eq_Suc)
qed

lemma example_replaced: "\<exists>db. replaced (snapshot (se_store example_server_env) 0 (db_2 OrderPending AuthPending ChalProcessing None))
    (db_2 OrderPending AuthPending ChalProcessing None) = Inr db"
  by (simp add: replaced_def snapshot_def example_rows foreign_keys_ok_def last_change_def tbl_update_def Let_def)

theorem verdict_outlives_restore_witness:
  "\<exists>(s' :: server). server_reached write_texts s' \<and> authorisation_facts (sv_db s') = [(1, ''home.test'')] \<and> 1 \<in> validated_ids (sv_db s')"
proof -
  let ?old = "example_state (db_2 OrderPending AuthPending ChalProcessing None) (replicate 4 []) [example_validation]"
  let ?c = "example_challenge_row 1 Http01 [] ChalProcessing None"
  obtain db where db: "replaced (snapshot (se_store example_server_env) 0 (sv_db ?old)) (sv_db ?old) = Inr db" using example_replaced by auto
  have c: "?c \<in> set (d_challenges (sv_db ?old))" "ch_id ?c = vn_challenge example_validation" "ch_status ?c = ChalProcessing"
    by (simp_all add: db_2_def example_challenge_row_def example_validation_def)
  from verdict_outlives_restore [OF example_pending _ example_pending c db]
  show ?thesis by (auto simp: facts_defs db_2_def example_auth_row_def example_challenge_row_def)
qed

end
