(* ===== verification/Acme_Nonces.thy ===== *)
theory Acme_Nonces
  imports Acme_Guarantees
begin

text \<open>
  Replayed requests: no handler of the server gives out a nonce, only the answer's stamp does, so a
  request that was accepted once is refused by every route until its nonce happens to be drawn anew.
\<close>

section \<open>What handlers do to the nonces\<close>

named_theorems spends_rules \<open>introduction rules for handlers that give out no nonce\<close>

definition spends :: "'a handler \<Rightarrow> bool" where
  "spends m \<longleftrightarrow> (\<forall>s. nc_live (sv_nonces (snd (m s))) \<subseteq> nc_live (sv_nonces s))"

lemma spendsD: "spends m \<Longrightarrow> m s = (r, s') \<Longrightarrow> nc_live (sv_nonces s') \<subseteq> nc_live (sv_nonces s)"
  by (metis spends_def snd_conv)

lemma spends_parts [spends_rules]:
  "spends (hret x)" "spends (hlift r)" "spends (hproblem q)" "spends (hget g)" "spends (hquery err ask)" "spends (htx err t)"
  "spends (redeem_nonce n)" "spends (jose_check j)" "spends (hset (validate_in_background v))" "spends (hset (\<lambda>s. s\<lparr> sv_stale := stale \<rparr>))"
  "spends (finalise_leaf env i ord csr key)"
  by (auto simp: spends_def hret_def hlift_def hproblem_def hget_def hquery_def htx_def redeem_nonce_def nonce_redeem_def jose_check_def
      hset_def validate_in_background_def finalise_leaf_def split: sum.split prod.split)

lemma spends_bind [spends_rules]:
  assumes "spends m" "\<And>x. spends (f x)"
  shows "spends (hbind m f)"
  unfolding spends_def
proof
  fix s :: server
  obtain r s' where m: "m s = (r, s')" by fastforce
  have "nc_live (sv_nonces s') \<subseteq> nc_live (sv_nonces s)" by (rule spendsD [OF assms(1) m])
  moreover have "nc_live (sv_nonces (snd (f x s'))) \<subseteq> nc_live (sv_nonces s')" for x using assms(2) by (simp add: spends_def)
  ultimately show "nc_live (sv_nonces (snd (hbind m f s))) \<subseteq> nc_live (sv_nonces s)"
    using m by (cases r) (fastforce simp: hbind_def)+
qed

lemma spends_cases [spends_rules]:
  "spends a \<Longrightarrow> spends b \<Longrightarrow> spends (if c then a else b)"
  "spends a \<Longrightarrow> (\<And>x. spends (f x)) \<Longrightarrow> spends (case_option a f v)"
  "(\<And>x y. spends (g x y)) \<Longrightarrow> spends (case_prod g p)"
  "(\<And>a key. spends (h1 a key)) \<Longrightarrow> (\<And>key. spends (h2 key)) \<Longrightarrow> spends (case_signer h1 h2 signer)"
  "spends (h v') \<Longrightarrow> spends (Let v' h)"
  by (simp_all split: option.split prod.split signer.split)

lemma spends_verified: "spends (verified_jws env p rule)"
  unfolding verified_jws_def signing_account_def
  by (intro spends_rules) (auto split: key_ref.split key_rule.split intro!: spends_rules)

lemma spends_verify [spends_rules]: "spends (verify env p rule)" "spends (by_account env p)" "spends (verify_key_change env p)"
  unfolding verify_def by_account_def verify_key_change_def by (intro spends_rules spends_verified)+

lemma spends_reads [spends_rules]:
  "spends (order_of env k i a)" "spends (authorisation_of env k i a)" "spends (read_account env p i)" "spends (read_challenge env i)"
  "spends issuing"
  unfolding order_of_def owned_order_def server_expire_def authorisation_of_def read_account_def read_challenge_def issuing_def
  by (intro spends_rules)+

lemma spends_handlers:
  "spends (new_account env p)" "spends (account_handler env i p)" "spends (orders_handler env i p)" "spends (key_change_handler env p)"
  "spends (new_order_handler env p)" "spends (order_handler env i p)" "spends (finalise_handler env i p)"
  "spends (authorisation_handler env i p)" "spends (challenge_handler env i p)" "spends (certificate_handler env i p)"
  "spends (revoke_handler env p)"
  unfolding new_account_def account_handler_def orders_handler_def key_change_handler_def new_order_handler_def order_handler_def
    finalise_handler_def finalise_read_def authorisation_handler_def challenge_handler_def certificate_handler_def
    revoke_handler_def
  by (intro spends_rules)+

lemma spends_handle: "spends (handle env route r)"
proof (cases route)
qed (auto simp: handle_def with_id_def intro!: spends_rules spends_handlers)

section \<open>The life of the server after a request\<close>

text \<open>
  Anything the server does without drawing the nonce \<open>n\<close>: requests of any kind with any outcome, answers
  stamped with other nonces or with none, validations, restarts, the operator's and opCA's calls, and
  whatever changes only the database (revocations, CRL numbers, restores).
\<close>

inductive goes_on :: "string \<Rightarrow> server \<Rightarrow> server \<Rightarrow> bool" for n where
  On_Request: "goes_on n s (snd (handle env route r s))"
| On_Answer: "(\<And>b. raw = Inr b \<Longrightarrow> base64url b \<noteq> n) \<Longrightarrow> goes_on n s (snd (stamp raw s))"
| On_Validated: "goes_on n s (validation_ends lib v outcome s)"
| On_Resume: "goes_on n s (resume s)"
| On_Issuer: "goes_on n s (set_issuer issuer s)"
| On_Paused: "goes_on n s (set_paused p s)"
| On_Crl: "goes_on n s (s\<lparr> sv_stale := stale \<rparr>)"
| On_Restart: "goes_on n s (server_new (sv_db s))"
| On_Database: "goes_on n s (s\<lparr> sv_db := db \<rparr>)"

lemma goes_on_spent: "goes_on n s s' \<Longrightarrow> n \<notin> nc_live (sv_nonces s) \<Longrightarrow> n \<notin> nc_live (sv_nonces s')"
proof (induction rule: goes_on.induct)
  case (On_Request s env route r)
  then show ?case using spends_handle unfolding spends_def by blast
next
  case (On_Answer raw s)
  show ?case
  proof (cases raw)
    case (Inr b)
    then have other: "base64url b \<noteq> n" using On_Answer.hyps by blast
    then show ?thesis
      using live_step [of n nonce_capacity "Issue (base64url b)" "sv_nonces s"] On_Answer.prems Inr by (auto simp: stamp_def)
  qed (use On_Answer.prems in \<open>simp add: stamp_def\<close>)
qed (simp_all add: validation_ends_def resume_def set_issuer_def set_paused_def server_new_def nonces_new_def Let_def split: sum.split)

lemma goes_on_steps: "(goes_on n)\<^sup>*\<^sup>* s s' \<Longrightarrow> n \<notin> nc_live (sv_nonces s) \<Longrightarrow> n \<notin> nc_live (sv_nonces s')"
  by (induction rule: rtranclp_induct) (auto dest: goes_on_spent)

section \<open>The refusal\<close>

text \<open>A handler that fails at a state and leaves it as it is.\<close>

definition refuses :: "'a handler \<Rightarrow> server \<Rightarrow> bool" where
  "refuses m s \<longleftrightarrow> (\<exists>e. m s = (Inl e, s))"

lemma refuses_first: "refuses m s \<Longrightarrow> refuses (hbind m f) s"
  by (auto simp: refuses_def hbind_def)

lemma signing_account_reads: "snd (signing_account env p kid s) = s"
  by (auto simp: signing_account_def hbind_def hproblem_def hquery_def Let_def split: sum.split prod.split option.split)

lemma verified_refuses:
  assumes "se_parse env (po_body p) = Inr jws" "jw_nonce jws = Some n" "n \<notin> nc_live (sv_nonces s)"
  shows "refuses (verified_jws env p rule) s"
proof -
  have spent: "s\<lparr> sv_nonces := (sv_nonces s)\<lparr> nc_live := nc_live (sv_nonces s) - {n} \<rparr> \<rparr> = s" using assms(3) by simp
  obtain signer s1 where signer: "(case (jw_key jws, rule) of
              (By_Jwk key, Rule_Kid) \<Rightarrow> hproblem (Inl (malformed ''the JWS must name its account by kid''))
            | (By_Jwk key, _) \<Rightarrow> hret (Signer_Key key)
            | (By_Kid kid, Rule_Jwk) \<Rightarrow> hproblem (Inl (malformed ''the JWS must carry its key as jwk''))
            | (By_Kid kid, _) \<Rightarrow> signing_account env p kid) s = (signer, s1)" by fastforce
  then have "s1 = s"
    using signing_account_reads by (auto simp: hproblem_def hret_def split: key_ref.splits key_rule.splits) (metis snd_conv)+
  then show ?thesis
    using signer assms spent
    by (auto simp: refuses_def verified_jws_def jose_check_def hproblem_def hbind_def redeem_nonce_def nonce_redeem_def
        split: sum.splits)
qed

lemma verify_refuses:
  assumes "se_parse env (po_body p) = Inr jws" "jw_nonce jws = Some n" "n \<notin> nc_live (sv_nonces s)"
  shows "refuses (verify env p rule) s" "refuses (by_account env p) s" "refuses (verify_key_change env p) s"
  unfolding verify_def by_account_def verify_key_change_def by (intro refuses_first verified_refuses [OF assms])+

lemma handlers_refuse:
  assumes "se_parse env (po_body p) = Inr jws" "jw_nonce jws = Some n" "n \<notin> nc_live (sv_nonces s)"
  shows "refuses (new_account env p) s" "refuses (account_handler env i p) s" "refuses (orders_handler env i p) s"
    "refuses (key_change_handler env p) s" "refuses (new_order_handler env p) s" "refuses (order_handler env i p) s"
    "refuses (finalise_handler env i p) s" "refuses (authorisation_handler env i p) s" "refuses (challenge_handler env i p) s"
    "refuses (certificate_handler env i p) s" "refuses (revoke_handler env p) s"
  unfolding new_account_def account_handler_def orders_handler_def key_change_handler_def new_order_handler_def order_handler_def
    finalise_handler_def authorisation_handler_def challenge_handler_def certificate_handler_def revoke_handler_def
  by (intro refuses_first verify_refuses [OF assms])+

lemma posted_refuses: "(\<And>p. post_of env r = Inr p \<Longrightarrow> refuses (f p) s) \<Longrightarrow> refuses (hbind (hlift (post_of env r)) f) s"
  by (cases "post_of env r") (auto simp: refuses_def hbind_def hlift_def)

lemma with_id_refuses: "(\<And>i p. post_of env r = Inr p \<Longrightarrow> refuses (f i p) s) \<Longrightarrow> refuses (with_id text f env r) s"
  by (cases "id_of text"; cases "post_of env r") (auto simp: refuses_def with_id_def hbind_def hlift_def)

lemma handle_refuses:
  assumes "\<And>p. post_of env r = Inr p \<Longrightarrow> se_parse env (po_body p) = Inr jws" "jw_nonce jws = Some n" "n \<notin> nc_live (sv_nonces s)"
  shows "refuses (handle env route r) s"
  using handlers_refuse [OF assms(1) assms(2,3)]
  by (cases route) (simp_all add: handle_def posted_refuses with_id_refuses)

text \<open>
  C16: A signed request that was accepted is refused when it is sent again, at any route, and changes
  nothing, whatever the server has done since: other requests of anyone's, answers with nonces of
  their own, validations, restarts, restores. The one thing that could bring it back is that its nonce
  is drawn again.
\<close>

theorem replay_refused:
  assumes "verified_jws env p rule s = (Inr (jws, signer), s')" "jw_nonce jws = Some n" "(goes_on n)\<^sup>*\<^sup>* s' s''"
    and "\<And>p'. post_of env' r = Inr p' \<Longrightarrow> se_parse env' (po_body p') = Inr jws"
  shows "\<exists>e. handle env' route r s'' = (Inl e, s'')"
proof -
  have "n \<notin> nc_live (sv_nonces s')" using verified_jws_iff [OF assms(1)] assms(2) by auto
  then have "n \<notin> nc_live (sv_nonces s'')" by (rule goes_on_steps [OF assms(3)])
  then show ?thesis using handle_refuses [OF assms(4,2)] by (simp add: refuses_def)
qed

text \<open>The request for an account of the example, and the same one again after an answer with another nonce.\<close>

theorem replay_refused_witness:
  "\<exists>x e. verified_jws example_server_env (example_po [0]) Rule_Jwk (example_state db_1 [[]] []) = (Inr x, spent (example_state db_1 [[]] []))
    \<and> handle example_server_env New_Account_Route (example_request [0]) (snd (stamp (Inr [1]) (spent (example_state db_1 [[]] []))))
        = (Inl e, snd (stamp (Inr [1]) (spent (example_state db_1 [[]] []))))"
proof -
  obtain x where x: "verified_jws example_server_env (example_po [0]) Rule_Jwk (example_state db_1 [[]] []) = (Inr x, spent (example_state db_1 [[]] []))"
    using example_verified by blast
  have parsed: "se_parse example_server_env [0] = Inr (fst x)" "po_body (example_po [0]) = [0]"
    using x verified_jws_iff [of example_server_env "example_po [0]" Rule_Jwk _ "fst x" "snd x"] by auto
  then have nonce: "jw_nonce (fst x) = Some []" by (auto simp: example_server_env_def dest!: sym [of _ "fst x"])
  have "base64url [1] \<noteq> []" by (simp add: encode_chunk_def)
  then have on: "(goes_on [])\<^sup>*\<^sup>* (spent (example_state db_1 [[]] [])) (snd (stamp (Inr [1]) (spent (example_state db_1 [[]] []))))"
    by (intro r_into_rtranclp On_Answer) blast
  have posted: "post_of example_server_env (example_request [0]) = Inr p' \<Longrightarrow> se_parse example_server_env (po_body p') = Inr (fst x)" for p'
    using parsed by (auto simp: post_of_def example_request_def sbind_Inr_iff Let_def split: if_splits sum.splits)
  show ?thesis
    using replay_refused [of example_server_env "example_po [0]" Rule_Jwk _ "fst x" "snd x", OF _ nonce on posted, where route = New_Account_Route] x
    by auto
qed

end
