(* ===== verification/Backup_File.thy ===== *)
theory Backup_File
  imports Rust_Text
begin

text \<open>
  The encrypted backup file, from \<^verbatim>\<open>crates/opca-core/src/services/backup.rs\<close>: a header of 49 bytes (magic, version,
  salt, nonce, tag) and the ciphertext. The key derivation and the cipher are parameters; the random salt
  and nonce of a new file are arguments. Bytes are characters.
\<close>

definition backup_magic :: string where "backup_magic = ''OPCA''"
definition backup_version :: char where "backup_version = CHR 0x01"
definition salt_length :: nat where "salt_length = 16"
definition nonce_length :: nat where "nonce_length = 12"
definition tag_length :: nat where "tag_length = 16"
definition pbkdf2_iterations :: nat where "pbkdf2_iterations = 600000"
definition key_length :: nat where "key_length = 32"
definition header_length :: nat where "header_length = 4 + 1 + salt_length + nonce_length + tag_length"

lemmas backup_lengths = salt_length_def nonce_length_def tag_length_def header_length_def

text \<open>
  PBKDF2-HMAC-SHA256 of a password and a salt, its iterations and the length of the key; the cipher of a
  key; encryption, the tag after the ciphertext, and decryption, both with a nonce and associated data.
\<close>

record 'k cipher_lib =
  cl_pbkdf2 :: "string \<Rightarrow> string \<Rightarrow> nat \<Rightarrow> nat \<Rightarrow> string"
  cl_cipher :: "string \<Rightarrow> string + 'k"
  cl_encrypt :: "'k \<Rightarrow> string \<Rightarrow> string \<Rightarrow> string \<Rightarrow> string + string"
  cl_decrypt :: "'k \<Rightarrow> string \<Rightarrow> string \<Rightarrow> string \<Rightarrow> string option"

definition derive_key :: "'k cipher_lib \<Rightarrow> string \<Rightarrow> string \<Rightarrow> string" where
  "derive_key lib password salt = cl_pbkdf2 lib password salt pbkdf2_iterations key_length"

definition cipher_for :: "'k cipher_lib \<Rightarrow> string \<Rightarrow> string \<Rightarrow> 'k res" where
  "cipher_for lib password salt =
     (case cl_cipher lib (derive_key lib password salt) of
        Inl e \<Rightarrow> Err (Crypto (''Failed to create cipher: '' @ e)) | Inr k \<Rightarrow> Ok k)"

text \<open>A cipher text shorter than a tag is no slice of the code's: it panics.\<close>

definition encrypt_payload :: "'k cipher_lib \<Rightarrow> string \<Rightarrow> string \<Rightarrow> string \<Rightarrow> string \<Rightarrow> string res" where
  "encrypt_payload lib salt nonce plaintext password =
     rbind (cipher_for lib password salt) (\<lambda>cipher.
       case cl_encrypt lib cipher nonce [] plaintext of
         Inl e \<Rightarrow> Err (Crypto (''Encryption failed: '' @ e))
       | Inr sealed \<Rightarrow>
           if length sealed < tag_length then Panic ''attempt to subtract with overflow''
           else let n = length sealed - tag_length
                in Ok (backup_magic @ [backup_version] @ salt @ nonce @ drop n sealed @ take n sealed))"

text \<open>Bytes as the standard library prints them with \<^verbatim>\<open>{:?}\<close>.\<close>

definition debug_bytes :: "string \<Rightarrow> string" where
  "debug_bytes bs = ''['' @ join '', '' (map (\<lambda>c. nat_to_string (byte c)) bs) @ '']''"

definition slice :: "nat \<Rightarrow> nat \<Rightarrow> 'a list \<Rightarrow> 'a list" where
  "slice i j xs = take (j - i) (drop i xs)"

definition decrypt_payload :: "'k cipher_lib \<Rightarrow> string \<Rightarrow> string \<Rightarrow> string res" where
  "decrypt_payload lib data password =
     (if length data < header_length then Err (BackupFormat ''File is too small to be a valid OPCA backup.'')
      else if take 4 data \<noteq> backup_magic
      then Err (BackupFormat (''Invalid file: expected magic '' @ debug_bytes backup_magic @ '', got '' @ debug_bytes (take 4 data) @ ''.''))
      else if data ! 4 \<noteq> backup_version
      then Err (BackupFormat (''Unsupported backup version '' @ nat_to_string (byte (data ! 4))
             @ ''; this tool supports version '' @ nat_to_string (byte backup_version) @ ''.''))
      else
        let salt = slice 5 21 data; nonce = slice 21 33 data; tag = slice 33 49 data; ciphertext = drop 49 data
        in rbind (cipher_for lib password salt) (\<lambda>cipher.
             case cl_decrypt lib cipher nonce [] (ciphertext @ tag) of
               None \<Rightarrow> Err BackupDecryption | Some plaintext \<Rightarrow> Ok plaintext))"

section \<open>The format\<close>

text \<open>
  What an authenticated cipher with a fixed key and nonce does (GCM appends a tag of 16 bytes): it
  decrypts exactly what it encrypts.
\<close>

definition authenticated :: "'k cipher_lib \<Rightarrow> bool" where
  "authenticated lib \<longleftrightarrow>
     (\<forall>k n a m c. cl_encrypt lib k n a m = Inr c \<longrightarrow> length c = length m + tag_length)
     \<and> (\<forall>k n a m c. cl_decrypt lib k n a c = Some m \<longleftrightarrow> cl_encrypt lib k n a m = Inr c)"

lemma slice_length: "j \<le> length xs \<Longrightarrow> length (slice i j xs) = j - i"
  by (simp add: slice_def)

text \<open>A file with a good header is its parts in order, and parts of the right lengths are read back.\<close>

lemma header_parts:
  assumes "header_length \<le> length data" "take 4 data = backup_magic" "data ! 4 = backup_version"
  shows "data = backup_magic @ [backup_version] @ slice 5 21 data @ slice 21 33 data @ slice 33 49 data @ drop 49 data"
proof -
  have step: "drop i xs = slice i j xs @ drop j xs" if "i \<le> j" for i j and xs :: string
    using that append_take_drop_id [of "j - i" "drop i xs"] by (simp add: slice_def)
  have "4 < length data" using assms(1) by (simp add: backup_lengths)
  then have "drop 4 data = backup_version # drop 5 data" using assms(3) Cons_nth_drop_Suc [of 4 data] by simp
  then have "data = backup_magic @ backup_version # drop 5 data" using append_take_drop_id [of 4 data] assms(2) by simp
  then show ?thesis using step [of 5 21 data] step [of 21 33 data] step [of 33 49 data] by simp
qed

lemma parts_read:
  assumes "length salt = 16" "length nonce = 12" "length tag = 16"
    and "data = backup_magic @ [backup_version] @ salt @ nonce @ tag @ ciphertext"
  shows "header_length \<le> length data" "take 4 data = backup_magic" "data ! 4 = backup_version"
    "slice 5 21 data = salt" "slice 21 33 data = nonce" "slice 33 49 data = tag" "drop 49 data = ciphertext"
  using assms by (simp_all add: backup_lengths slice_def backup_magic_def nth_append)

lemma encrypt_payload_Ok:
  "encrypt_payload lib salt nonce m password = Ok data \<longleftrightarrow>
     (\<exists>k c. cipher_for lib password salt = Ok k \<and> cl_encrypt lib k nonce [] m = Inr c \<and> tag_length \<le> length c
       \<and> data = backup_magic @ [backup_version] @ salt @ nonce @ drop (length c - tag_length) c @ take (length c - tag_length) c)"
proof (cases "cipher_for lib password salt")
  case (Ok k)
  then show ?thesis
    by (cases "cl_encrypt lib k nonce [] m") (auto simp: encrypt_payload_def Let_def)
qed (simp_all add: encrypt_payload_def)

lemma decrypt_payload_Ok:
  "decrypt_payload lib data password = Ok m \<longleftrightarrow>
     header_length \<le> length data \<and> take 4 data = backup_magic \<and> data ! 4 = backup_version
     \<and> (\<exists>k. cipher_for lib password (slice 5 21 data) = Ok k
          \<and> cl_decrypt lib k (slice 21 33 data) [] (drop 49 data @ slice 33 49 data) = Some m)"
  by (auto simp: decrypt_payload_def Let_def split: option.splits)

text \<open>
  C24: A file decrypts under a password exactly when it is what encrypting the result under that password gives
  for some salt and nonce: a backup reads back, and a file changed anywhere else is refused.
\<close>

theorem backup_exact:
  assumes "authenticated lib"
  shows "decrypt_payload lib data password = Ok m \<longleftrightarrow>
    (\<exists>salt nonce. length salt = salt_length \<and> length nonce = nonce_length
      \<and> encrypt_payload lib salt nonce m password = Ok data)"
proof
  assume ok: "decrypt_payload lib data password = Ok m"
  let ?salt = "slice 5 21 data" and ?nonce = "slice 21 33 data" and ?tag = "slice 33 49 data" and ?text = "drop 49 data"
  obtain k where header: "header_length \<le> length data" "take 4 data = backup_magic" "data ! 4 = backup_version"
    and k: "cipher_for lib password ?salt = Ok k" and open_text: "cl_decrypt lib k ?nonce [] (?text @ ?tag) = Some m"
    using ok by (auto simp: decrypt_payload_Ok)
  have lengths: "length ?salt = 16" "length ?nonce = 12" "length ?tag = 16"
    using header(1) by (simp_all add: slice_length backup_lengths)
  have "cl_encrypt lib k ?nonce [] m = Inr (?text @ ?tag)" using open_text assms by (simp add: authenticated_def)
  moreover have "length (?text @ ?tag) - tag_length = length ?text" "tag_length \<le> length (?text @ ?tag)"
    using lengths(3) by (simp_all add: tag_length_def)
  ultimately have "encrypt_payload lib ?salt ?nonce m password = Ok data"
    unfolding encrypt_payload_Ok using k header_parts [OF header]
    by (intro exI [of _ k] exI [of _ "?text @ ?tag"]) simp
  then show "\<exists>salt nonce. length salt = salt_length \<and> length nonce = nonce_length \<and> encrypt_payload lib salt nonce m password = Ok data"
    using lengths by (auto simp: backup_lengths)
next
  assume "\<exists>salt nonce. length salt = salt_length \<and> length nonce = nonce_length \<and> encrypt_payload lib salt nonce m password = Ok data"
  then obtain salt nonce k c where lengths: "length salt = 16" "length nonce = 12"
    and k: "cipher_for lib password salt = Ok k" and c: "cl_encrypt lib k nonce [] m = Inr c"
    and data: "data = backup_magic @ [backup_version] @ salt @ nonce @ drop (length c - tag_length) c @ take (length c - tag_length) c"
    by (auto simp: encrypt_payload_Ok backup_lengths)
  have "length c = length m + tag_length" using c assms by (simp add: authenticated_def)
  then have tag: "length (drop (length c - tag_length) c) = 16" by (simp add: tag_length_def)
  have "cl_decrypt lib k nonce [] c = Some m" using c assms by (simp add: authenticated_def)
  then show "decrypt_payload lib data password = Ok m"
    using parts_read [OF lengths tag data] k by (simp add: decrypt_payload_Ok)
qed

text \<open>A cipher for the example: the tag is the start of the key, the text is left as it is.\<close>

definition example_tag :: "string \<Rightarrow> string" where
  "example_tag k = take 16 (k @ replicate 16 CHR ''0'')"

definition example_cipher :: "string cipher_lib" where
  "example_cipher =
     \<lparr> cl_pbkdf2 = (\<lambda>password salt i n. take 32 (password @ salt @ replicate 32 CHR ''0'')),
       cl_cipher = (\<lambda>k. if length k = 32 then Inr k else Inl ''invalid length''),
       cl_encrypt = (\<lambda>k n a m. Inr (m @ example_tag k)),
       cl_decrypt = (\<lambda>k n a c. let i = length c - 16 in if drop i c = example_tag k then Some (take i c) else None) \<rparr>"

lemma example_tag_length: "length (example_tag k) = 16"
  by (simp add: example_tag_def)

lemma tagged_iff:
  assumes "length t = 16"
  shows "(drop (length c - 16) c = t \<and> take (length c - 16) c = m) \<longleftrightarrow> c = m @ t"
proof
  assume "drop (length c - 16) c = t \<and> take (length c - 16) c = m"
  then show "c = m @ t" using append_take_drop_id [of "length c - 16" c] by simp
qed (use assms in simp)

lemma example_authenticated: "authenticated example_cipher"
proof -
  have "(let i = length c - 16 in if drop i c = example_tag k then Some (take i c) else None) = Some m \<longleftrightarrow> m @ example_tag k = c"
    for k c m
    using tagged_iff [OF example_tag_length, of c k m] by (auto simp: Let_def)
  then show ?thesis by (simp add: authenticated_def example_cipher_def tag_length_def example_tag_length)
qed

lemma example_file:
  "encrypt_payload example_cipher (replicate 16 CHR ''s'') (replicate 12 CHR ''n'') ''vault'' ''pass''
     = Ok (backup_magic @ [backup_version] @ replicate 16 CHR ''s'' @ replicate 12 CHR ''n'' @ ''passssssssssssss'' @ ''vault'')"
  by (simp add: encrypt_payload_def cipher_for_def derive_key_def example_cipher_def example_tag_def Let_def tag_length_def numeral_eq_Suc)

theorem backup_exact_witness:
  "decrypt_payload example_cipher
     (backup_magic @ [backup_version] @ replicate 16 CHR ''s'' @ replicate 12 CHR ''n'' @ ''passssssssssssss'' @ ''vault'') ''pass'' = Ok ''vault''"
  unfolding backup_exact [OF example_authenticated]
  using example_file by (intro exI [of _ "replicate 16 CHR ''s''"] exI [of _ "replicate 12 CHR ''n''"]) (simp add: backup_lengths)

end
