(* ===== verification/Ca_State.thy ===== *)
theory Ca_State
  imports Ca_Policy
begin

text \<open>
  The certificate authority itself, from \<^verbatim>\<open>crates/opca-core/src/services/ca.rs\<close>: its state (the CA bundle,
  the database, the last CRL) beside the outside world, and its operations on both. The outside is one
  state of any type, reached through the vault operations and the uploads of the environment; the
  environment also holds the crates the code calls (chrono, OpenSSL and the signing library, SQLite's
  reading and writing of dumps, SHA-256) and one reading of the clock for an operation. A failed
  operation keeps what it changed before the failure.
\<close>

section \<open>State and environment\<close>

record 'v ca_state =
  s_bundle :: "certificate_bundle option"
  s_db :: "ca_db option"
  s_crl :: "string option"
  s_backup :: bool
  s_out :: 'v

text \<open>A request whose signature has been verified.\<close>

record signing_request =
  sr_view :: csr_view
  sr_rsa_key :: bool

record 'v ca_env =
  e_chrono :: chrono
  e_crypto :: crypto
  e_json :: serde_json
  e_ops :: "'v vault_ops"
  e_items :: "string \<Rightarrow> ('v, op_item list) op_call"
  e_field :: "op_item \<Rightarrow> string \<Rightarrow> string option"
  e_now :: int
  e_user :: string
  e_seed :: nat
  e_order :: "string set \<Rightarrow> string list"
  e_dump :: "ca_db \<Rightarrow> string"
  e_dump_binary :: "ca_db \<Rightarrow> string"
  e_load :: "string \<Rightarrow> ca_db res"
  e_sha256 :: "string \<Rightarrow> string"
  e_explicit_curve :: "x509_req \<Rightarrow> bool"
  e_verify_csr :: "x509_req \<Rightarrow> string + signing_request"
  e_req_from_der :: "string \<Rightarrow> string + x509_req"
  e_issue :: "x509 \<Rightarrow> pkey \<Rightarrow> signing_request \<Rightarrow> profile \<Rightarrow> int \<Rightarrow> int \<Rightarrow> int \<Rightarrow> x509 res"
  e_verified_by :: "x509 \<Rightarrow> x509 \<Rightarrow> bool"
  e_serial :: "string \<Rightarrow> string res"
  e_crl :: "x509 \<Rightarrow> pkey \<Rightarrow> nat \<Rightarrow> int \<Rightarrow> int \<Rightarrow> (string \<times> int) list \<Rightarrow> string res"
  e_crl_view :: "string \<Rightarrow> string + crl_view"
  e_upload :: "storage_backend \<Rightarrow> string \<Rightarrow> string \<Rightarrow> visibility \<Rightarrow> ('v, unit) comp"
  e_test_connection :: "storage_backend \<Rightarrow> string \<Rightarrow> ('v, unit) comp"
  e_aws_setting :: "string option"
  e_op_item :: "string \<Rightarrow> ('v, op_item) op_call"
  e_backup :: "string \<Rightarrow> 'v \<Rightarrow> 'v"
  e_vault_name :: string
  e_lowercase :: "string \<Rightarrow> string"
  e_account :: "string option"

type_synonym ('v, 'a) ca_comp = "('v ca_state, 'a) comp"

definition stamp_of :: "('v, 'm) ca_env_scheme \<Rightarrow> string" where
  "stamp_of env = format_datetime (e_chrono env) (e_now env) Openssl"

definition outside :: "('v, 'a) comp \<Rightarrow> ('v, 'a) ca_comp" where
  "outside m s = (case m (s_out s) of (r, v) \<Rightarrow> (r, s\<lparr> s_out := v \<rparr>))"

definition gets :: "('v ca_state \<Rightarrow> 'a res) \<Rightarrow> ('v, 'a) ca_comp" where
  "gets f s = (f s, s)"

definition attempt :: "('s, 'a) comp \<Rightarrow> ('s, 'a res) comp" where
  "attempt m s = (case m s of (Panic p, s') \<Rightarrow> (Panic p, s') | (r, s') \<Rightarrow> (Ok r, s'))"

definition not_initialised :: opca_error where
  "not_initialised = OtherErr ''CA not initialised''"

definition the_db :: "('v, ca_db) ca_comp" where
  "the_db = gets (\<lambda>s. ok_or not_initialised (s_db s))"

definition put_db :: "ca_db \<Rightarrow> ('v, unit) ca_comp" where
  "put_db db s = (Ok (), s\<lparr> s_db := Some db \<rparr>)"

definition on_db :: "(ca_db \<Rightarrow> ca_db res) \<Rightarrow> ('v, unit) ca_comp" where
  "on_db f = vbind the_db (\<lambda>db. vbind (vlift (f db)) put_db)"

text \<open>As \<open>on_db\<close>, where the operation also returns a value.\<close>

definition run_db :: "(ca_db \<Rightarrow> ('a \<times> ca_db) res) \<Rightarrow> ('v, 'a) ca_comp" where
  "run_db f = vbind the_db (\<lambda>db. vbind (vlift (f db)) (\<lambda>(x, db'). vbind (put_db db') (\<lambda>_. vret x)))"

definition the_config :: "('v, ca_config) ca_comp" where
  "the_config = vbind the_db (\<lambda>db. vlift (get_config db))"

fun each_comp :: "('a \<Rightarrow> ('s, unit) comp) \<Rightarrow> 'a list \<Rightarrow> ('s, unit) comp" where
  "each_comp f [] = vret ()"
| "each_comp f (x # xs) = vbind (f x) (\<lambda>_. each_comp f xs)"

section \<open>The database and its copies\<close>

text \<open>What SQLite holds of the database: the tables, without the flags and the status sets.\<close>

definition tables_of :: "ca_db \<Rightarrow> ca_db" where
  "tables_of db = (clear_sets db)\<lparr> dirty := False, download_fingerprint := None \<rparr>"

definition export_database :: "('v, 'm) ca_env_scheme \<Rightarrow> ca_db \<Rightarrow> string" where
  "export_database env db = e_dump env (tables_of db)"

definition from_sql_dump :: "('v, 'm) ca_env_scheme \<Rightarrow> string \<Rightarrow> ca_db res" where
  "from_sql_dump env data = rmap (\<lambda>db. (tables_of db)\<lparr> dirty := True \<rparr>) (e_load env data)"

definition update_db_fingerprint :: "('v, 'm) ca_env_scheme \<Rightarrow> ('v, unit) ca_comp" where
  "update_db_fingerprint env s =
     (Ok (), s\<lparr> s_db := map_option (\<lambda>db. db\<lparr> download_fingerprint := Some (e_sha256 env (export_database env db)) \<rparr>) (s_db s) \<rparr>)"

definition write_backup :: "('v, 'm) ca_env_scheme \<Rightarrow> string \<Rightarrow> ('v, unit) ca_comp" where
  "write_backup env sql s = (Ok (), if s_backup s then s\<lparr> s_out := e_backup env sql (s_out s) \<rparr> else s)"

definition store_ca_database :: "('v, 'm) ca_env_scheme \<Rightarrow> ('v, unit) ca_comp" where
  "store_ca_database env =
     vbind (update_db_fingerprint env) (\<lambda>_.
     vbind the_db (\<lambda>db.
       let sql_text = export_database env db
       in vbind (write_backup env sql_text) (\<lambda>_.
            outside (put_document (e_ops env) ca_database_title ca_database_filename sql_text))))"

section \<open>Bundles in the vault\<close>

definition retrieve_certbundle :: "('v, 'm) ca_env_scheme \<Rightarrow> string \<Rightarrow> ('v, certificate_bundle option) ca_comp" where
  "retrieve_certbundle env item_title s =
     (case v_item (e_ops env) (ItemTitle item_title) (s_out s) of
        (Inl e, v) \<Rightarrow> (Ok None, s\<lparr> s_out := v \<rparr>)
      | (Inr item, v) \<Rightarrow>
          (let text = e_field env item; s' = s\<lparr> s_out := v \<rparr>
           in case text ''certificate'' of
                None \<Rightarrow> (Ok None, s')
              | Some cert_data \<Rightarrow>
                  (let ct = (case Option.bind (text ''type'') (\<lambda>t. res_ok (cert_type_from_str t)) of
                               Some ct \<Rightarrow> ct | None \<Rightarrow> Device)
                   in (rbind (import_bundle (e_crypto env) ct item_title cert_data (text ''private_key'')
                                (text ''certificate_signing_request'') None empty_bundle_config) (\<lambda>bundle.
                        case text ''certificate_chain'' of
                          Some cp \<Rightarrow> rmap Some (set_chain_from_pem (e_crypto env) cp bundle)
                        | None \<Rightarrow> Ok (Some bundle)), s'))))"

text \<open>The fields of a certificate's item.\<close>

definition attrib :: "('v, 'm) ca_env_scheme \<Rightarrow> certificate_bundle \<Rightarrow> string \<Rightarrow> string res" where
  "attrib env bundle a = rmap or_empty (get_certificate_attrib (e_chrono env) (e_crypto env) bundle a)"

definition bundle_fields :: "('v, 'm) ca_env_scheme \<Rightarrow> certificate_bundle \<Rightarrow> assignment list res" where
  "bundle_fields env bundle =
     rbind (certificate_pem bundle) (\<lambda>cert_pem.
     rbind (rmap_all (attrib env bundle) [''cn'', ''subject'', ''not_before'', ''not_after'', ''serial'']) (\<lambda>as.
     rbind (case bd_private_key bundle of Some _ \<Rightarrow> rmap Some (private_key_pem bundle) | None \<Rightarrow> Ok None) (\<lambda>key_pem.
       rmap_all (\<lambda>(l, x). assign (e_ops env) l x)
         ([(''type[text]'', display_cert_type (bd_cert_type bundle)), (''cn[text]'', as ! 0), (''subject[text]'', as ! 1),
           (''certificate'', cert_pem), (''not_before[text]'', openssl_to_text (e_chrono env) (as ! 2)),
           (''not_after[text]'', openssl_to_text (e_chrono env) (as ! 3)), (''serial[text]'', as ! 4),
           (''certificate_signing_request'', or_empty (csr_pem bundle))]
          @ map (Pair ''private_key'') (option_list key_pem)
          @ map (Pair ''certificate_chain'') (option_list (chain_pem bundle))))))"

definition add_to_db ::
  "('v, 'm) ca_env_scheme \<Rightarrow> string option \<Rightarrow> string option \<Rightarrow> cert_record \<Rightarrow> ca_db \<Rightarrow> ca_db res" where
  "add_to_db env issuer issuer_subject item db =
     (case issuer of Some _ \<Rightarrow> add_external_cert (into_external (stamp_of env) issuer issuer_subject item) db
      | None \<Rightarrow> add_cert item db)"

definition op_title_of :: "string option \<Rightarrow> string \<Rightarrow> string" where
  "op_title_of issuer title = (case issuer of Some _ \<Rightarrow> ''EXT_'' @ title | None \<Rightarrow> title)"

definition store_certbundle_for ::
  "('v, 'm) ca_env_scheme \<Rightarrow> certificate_bundle \<Rightarrow> string option \<Rightarrow> string option \<Rightarrow> bool \<Rightarrow> ('v, unit) ca_comp" where
  "store_certbundle_for env bundle issuer issuer_subject persist =
     vbind (vlift (bundle_fields env bundle)) (\<lambda>flds.
     vbind (outside (call (v_create_item (e_ops env) (op_title_of issuer (bd_title bundle)) category_item flds))) (\<lambda>_.
     vbind (vlift (format_db_item (e_chrono env) (e_crypto env) (e_now env) bundle (bd_title bundle))) (\<lambda>db_item.
     vbind (on_db (add_to_db env issuer issuer_subject db_item)) (\<lambda>_.
       if persist then store_ca_database env else vret ()))))"

text \<open>The CA's own bundle, at its creation: the row is made before the item.\<close>

definition store_certbundle_internal :: "('v, 'm) ca_env_scheme \<Rightarrow> ('v, unit) ca_comp" where
  "store_certbundle_internal env =
     vbind (gets (\<lambda>s. ok_or (OtherErr ''No CA bundle'') (s_bundle s))) (\<lambda>bundle.
     vbind (vlift (bundle_fields env bundle)) (\<lambda>flds.
     vbind (vlift (format_db_item (e_chrono env) (e_crypto env) (e_now env) bundle (bd_title bundle))) (\<lambda>db_item.
     vbind (outside (call (v_create_item (e_ops env) (bd_title bundle) category_item flds))) (\<lambda>_.
     vbind (on_db (add_cert db_item)) (\<lambda>_. store_ca_database env)))))"

section \<open>Constructors\<close>

definition exists_item :: "('v, 'm) ca_env_scheme \<Rightarrow> string \<Rightarrow> ('v, bool) ca_comp" where
  "exists_item env title = outside (call (v_item_exists (e_ops env) (ItemTitle title)))"

definition become :: "certificate_bundle \<Rightarrow> ca_db \<Rightarrow> ('v, unit) ca_comp" where
  "become bundle db s = (Ok (), s\<lparr> s_bundle := Some bundle, s_db := Some db, s_crl := None, s_backup := False \<rparr>)"

definition ca_init :: "('v, 'm) ca_env_scheme \<Rightarrow> ca_config \<Rightarrow> ('v, unit) ca_comp" where
  "ca_init env config =
     vbind (exists_item env ca_title) (\<lambda>exists.
       if exists then vfail CaAlreadyExists
       else
         vbind (vlift (generate_bundle (e_crypto env) (e_seed env) Ca ca_title (ca_config_to_bundle config))) (\<lambda>bundle.
         vbind (vlift (self_sign_ca (e_crypto env) (e_now env) bundle)) (\<lambda>bundle.
         vbind (vlift (increment_serial CertSerial None (db_new config))) (\<lambda>(_, db).
         vbind (become bundle db) (\<lambda>_. store_certbundle_internal env)))))"

definition import_ca :: "('v, 'm) ca_env_scheme \<Rightarrow> string \<Rightarrow> string option \<Rightarrow> ca_config \<Rightarrow> ('v, unit) ca_comp" where
  "import_ca env cert_pem key_pem config =
     vbind (exists_item env ca_title) (\<lambda>exists.
       if exists then vfail CaAlreadyExists
       else
         vbind (vlift (import_bundle (e_crypto env) Ca ca_title cert_pem key_pem None None (ca_config_to_bundle config)))
           (\<lambda>bundle. vbind (become bundle (db_new config)) (\<lambda>_. store_certbundle_internal env)))"

definition ca_retrieve :: "('v, 'm) ca_env_scheme \<Rightarrow> ('v, unit) ca_comp" where
  "ca_retrieve env =
     vbind (attempt (outside (document_text (e_ops env) ca_database_title))) (\<lambda>r.
     vbind (vlift (case r of Err (ItemNotFound m) \<Rightarrow> Err CaNotFound | _ \<Rightarrow> r)) (\<lambda>sql.
     vbind (vlift (from_sql_dump env sql)) (\<lambda>db.
     vbind (retrieve_certbundle env ca_title) (\<lambda>b.
     vbind (vlift (ok_or CaNotFound b)) (\<lambda>bundle.
       become bundle (db\<lparr> download_fingerprint := Some (e_sha256 env sql) \<rparr>))))))"

section \<open>Signing\<close>

definition verified_csr :: "('v, 'm) ca_env_scheme \<Rightarrow> x509_req \<Rightarrow> signing_request res" where
  "verified_csr env csr =
     (if e_explicit_curve env csr then Err (InvalidCertificate ''CSR: EC keys must use a named curve'')
      else invalid_err ''CSR'' (e_verify_csr env csr))"

definition issue :: "('v, 'm) ca_env_scheme \<Rightarrow> signing_request \<Rightarrow> profile \<Rightarrow> int \<Rightarrow> ('v, x509) ca_comp" where
  "issue env csr profile days =
     vbind the_db (\<lambda>_.
     vbind (gets (\<lambda>s. ok_or not_initialised (s_bundle s))) (\<lambda>ca_bundle.
     vbind (vlift (ok_or (Crypto ''CA private key not available'') (bd_private_key ca_bundle))) (\<lambda>ca_key.
     vbind (vlift (ok_or CaNotFound (bd_certificate ca_bundle))) (\<lambda>ca_cert.
     vbind (run_db (increment_serial CertSerial None)) (\<lambda>serial.
       vlift (e_issue env ca_cert ca_key csr profile serial (e_now env) (e_now env + days * day_ns)))))))"

definition sign_certificate :: "('v, 'm) ca_env_scheme \<Rightarrow> x509_req \<Rightarrow> cert_type \<Rightarrow> int \<Rightarrow> ('v, x509) ca_comp" where
  "sign_certificate env csr ct days =
     (if ct = SubordinateCa then
        vfail (OtherErr ''A subordinate CA is signed with its permitted domains, not as a certificate type'')
      else if ct = AppleDev then
        vfail (OtherErr ''Apple issues Apple Development certificates: upload the CSR to the Apple Developer portal'')
      else
        vbind (vlift (verified_csr env csr)) (\<lambda>csr.
        vbind the_config (\<lambda>ca_config.
          issue env csr (profile_for ct (sr_rsa_key csr) ca_config) days)))"

definition cert_days :: "cert_type \<Rightarrow> int option \<Rightarrow> ('v, int) ca_comp" where
  "cert_days ct requested =
     (case requested of
        Some days \<Rightarrow> if days = 0 then vfail (OtherErr ''Certificate lifetime must be at least 1 day'') else vret days
      | None \<Rightarrow> vbind the_config (\<lambda>config.
          vret (default_days ct (as_u32 (case type_days config ct of Some d \<Rightarrow> d | None \<Rightarrow> 365)))))"

definition ca_not_after :: "('v, 'm) ca_env_scheme \<Rightarrow> ('v, int) ca_comp" where
  "ca_not_after env =
     vbind (gets (\<lambda>s. ok_or CaNotFound (s_bundle s))) (\<lambda>bundle.
     vbind (vlift (get_certificate_attrib (e_chrono env) (e_crypto env) bundle ''not_after'')) (\<lambda>a.
     vbind (vlift (ok_or (InvalidCertificate ''CA has no not_after'') a)) (\<lambda>not_after.
       vlift (parse_datetime (e_chrono env) not_after Openssl))))"

definition issuance_warnings :: "('v, 'm) ca_env_scheme \<Rightarrow> cert_type \<Rightarrow> int \<Rightarrow> ('v, string list) ca_comp" where
  "issuance_warnings env ct days =
     vbind (attempt (ca_not_after env)) (\<lambda>r.
       vret (option_list (case r of Ok t \<Rightarrow> assess_cert_issuance (e_chrono env) t days (e_now env) | _ \<Rightarrow> None)
             @ option_list (assess_apple_tls_limit ct days)))"

definition issue_certificate ::
  "('v, 'm) ca_env_scheme \<Rightarrow> x509_req \<Rightarrow> cert_type \<Rightarrow> int option \<Rightarrow> ('v, x509 \<times> string list) ca_comp" where
  "issue_certificate env csr ct requested =
     vbind (cert_days ct requested) (\<lambda>days.
     vbind (sign_certificate env csr ct days) (\<lambda>cert.
     vbind (issuance_warnings env ct days) (\<lambda>warnings. vret (cert, warnings))))"

end
