(* ===== verification/Local_Backup.thy ===== *)
theory Local_Backup
  imports Ca_State
begin

text \<open>
  Rolling local copies of the database, from \<^verbatim>\<open>crates/opca-core/src/services/local_backup.rs\<close>, and the restore from
  one in \<^verbatim>\<open>services/ca.rs\<close>. The disk is a list of directories and of files with their contents, any access to
  it may fail as the environment says; chrono, JSON and Unicode's lower case are parameters.
\<close>

section \<open>The disk\<close>

type_synonym path = "string list"

record disk =
  dk_dirs :: "path list"
  dk_files :: "(path \<times> string) list"

datatype fs_action = Listing path | Reading path | Saving path | Removing path

record backup_source =
  bs_vault :: string
  bs_vault_id :: "string option"

record backup_lib =
  bk_fault :: "fs_action \<Rightarrow> string option"
  bk_no_file :: "path \<Rightarrow> string"
  bk_show :: "path \<Rightarrow> string"
  bk_canonical :: "path \<Rightarrow> path option"
  bk_lowercase :: "string \<Rightarrow> string"
  bk_format_time :: "int \<Rightarrow> string"
  bk_parse_time :: "string \<Rightarrow> int option"
  bk_header :: "string \<Rightarrow> backup_source \<Rightarrow> int \<Rightarrow> string + string"
  bk_read_header :: "string \<Rightarrow> backup_source option"

definition content :: "path \<Rightarrow> disk \<Rightarrow> string option" where
  "content p d = map_of (dk_files d) p"

definition in_dir :: "path \<Rightarrow> path \<Rightarrow> bool" where
  "in_dir dir p \<longleftrightarrow> p \<noteq> [] \<and> butlast p = dir"

definition read_dir :: "path \<Rightarrow> disk \<Rightarrow> path list" where
  "read_dir dir d = remdups (filter (in_dir dir) (map fst (dk_files d) @ dk_dirs d))"

definition read_to_string :: "backup_lib \<Rightarrow> path \<Rightarrow> disk \<Rightarrow> string option" where
  "read_to_string lib p d = (if bk_fault lib (Reading p) = None then content p d else None)"

definition remove_file :: "backup_lib \<Rightarrow> path \<Rightarrow> (disk, unit) comp" where
  "remove_file lib p d =
     (case bk_fault lib (Removing p) of
        Some e \<Rightarrow> (Err (IoErr e), d)
      | None \<Rightarrow>
          if content p d = None then (Err (IoErr (bk_no_file lib p)), d)
          else (Ok (), d\<lparr> dk_files := filter (\<lambda>f. fst f \<noteq> p) (dk_files d) \<rparr>))"

text \<open>
  \<^verbatim>\<open>write_bytes\<close> as it is called here: the parents are made, an existing file is replaced whole. It fails where a
  directory has the name, or a file the name of a parent.
\<close>

definition parents :: "path \<Rightarrow> path list" where
  "parents p = map (\<lambda>n. take n p) [1..<length p]"

definition blocked :: "path \<Rightarrow> disk \<Rightarrow> bool" where
  "blocked p d \<longleftrightarrow> p \<in> set (dk_dirs d) \<or> list_ex (\<lambda>q. content q d \<noteq> None) (parents p)"

definition write_bytes :: "backup_lib \<Rightarrow> path \<Rightarrow> string \<Rightarrow> (disk, path) comp" where
  "write_bytes lib p data d =
     (case (if blocked p d then Some (bk_no_file lib p) else bk_fault lib (Saving p)) of
        Some e \<Rightarrow> (Err (IoErr (''Failed to write '' @ quote (bk_show lib p) @ '': '' @ e)), d)
      | None \<Rightarrow> (Ok p, d\<lparr> dk_dirs := List.union (parents p) (dk_dirs d),
                          dk_files := (p, data) # filter (\<lambda>f. fst f \<noteq> p) (dk_files d) \<rparr>))"

section \<open>Names\<close>

definition keep_local_backups :: nat where "keep_local_backups = 30"
definition backup_prefix :: string where "backup_prefix = ''ca-database-''"
definition unreadable_suffix :: string where "unreadable_suffix = ''-unreadable''"
definition header_prefix :: string where "header_prefix = ''-- opca-backup ''"

text \<open>A character other than an ASCII letter, a digit or one of three marks becomes one underscore, whatever its bytes.\<close>

definition continues_char :: "char \<Rightarrow> bool" where
  "continues_char c \<longleftrightarrow> 128 \<le> byte c \<and> byte c < 192"

definition path_safe :: "string \<Rightarrow> string" where
  "path_safe segment =
     (let cleaned = map (\<lambda>c. if is_ascii_alphanumeric c \<or> c \<in> set ''-_.'' then c else CHR ''_'')
                        (filter (\<lambda>c. \<not> continues_char c) segment)
      in case trim_start_matches CHR ''.'' cleaned of [] \<Rightarrow> ''_'' | c # cs \<Rightarrow> c # cs)"

definition dir_name :: "backup_lib \<Rightarrow> backup_source \<Rightarrow> string" where
  "dir_name lib source =
     path_safe (case bs_vault_id source of Some i \<Rightarrow> i | None \<Rightarrow> ''name-'' @ bk_lowercase lib (trim (bs_vault source)))"

record local_backup =
  lb_root :: path
  lb_account :: string
  lb_keep :: nat

definition dir_for :: "backup_lib \<Rightarrow> local_backup \<Rightarrow> backup_source \<Rightarrow> path" where
  "dir_for lib self source = lb_root self @ [path_safe (lb_account self), dir_name lib source]"

text \<open>When a backup was taken, from its name.\<close>

definition backup_time :: "backup_lib \<Rightarrow> path \<Rightarrow> int option" where
  "backup_time lib p =
     (if p = [] then None
      else Option.bind (Option.bind (strip_prefix backup_prefix (last p)) (strip_suffix ''.sql'')) (bk_parse_time lib))"

section \<open>Contents\<close>

definition strip_header :: "string \<Rightarrow> string" where
  "strip_header contents =
     (case strip_prefix header_prefix contents of
        None \<Rightarrow> contents
      | Some rest \<Rightarrow> (case split_once [CHR 0x0A] rest of None \<Rightarrow> [] | Some (_, sql) \<Rightarrow> sql))"

text \<open>The first of a text's \<^verbatim>\<open>lines()\<close>.\<close>

definition first_line :: "string \<Rightarrow> string option" where
  "first_line s =
     (if s = [] then None
      else Some (case split_once [CHR 0x0A] s of
                   None \<Rightarrow> s
                 | Some (line, _) \<Rightarrow> (case strip_suffix [CHR 0x0D] line of None \<Rightarrow> line | Some l \<Rightarrow> l)))"

definition read_source :: "backup_lib \<Rightarrow> string \<Rightarrow> backup_source option" where
  "read_source lib contents =
     Option.bind (Option.bind (strip_prefix header_prefix contents) first_line) (bk_read_header lib)"

definition age_phrase :: "int \<Rightarrow> int \<Rightarrow> string" where
  "age_phrase taken_at now =
     (let secs = max 0 ((now - taken_at) div second_ns);
          ago = (\<lambda>n unit. int_to_string n @ '' '' @ unit @ (if n = 1 then [] else ''s'') @ '' ago'')
      in if secs \<le> 59 then ''just now''
         else if secs \<le> 3599 then ago (secs div 60) ''minute''
         else if secs \<le> 86399 then ago (secs div 3600) ''hour''
         else ago (secs div 86400) ''day'')"

section \<open>Writing, listing, pruning\<close>

text \<open>Regular backup files, oldest first; unreadable copies are none.\<close>

definition is_backup :: "backup_lib \<Rightarrow> path \<Rightarrow> bool" where
  "is_backup lib p \<longleftrightarrow> backup_time lib p \<noteq> None"

definition backup_files :: "backup_lib \<Rightarrow> local_backup \<Rightarrow> backup_source \<Rightarrow> disk \<Rightarrow> path list res" where
  "backup_files lib self source d =
     (let dir = dir_for lib self source
      in if dir \<notin> set (dk_dirs d) then Ok []
         else case bk_fault lib (Listing dir) of
                Some e \<Rightarrow> Err (IoErr e)
              | None \<Rightarrow> Ok (sort (filter (is_backup lib) (read_dir dir d))))"

definition backup_path :: "backup_lib \<Rightarrow> local_backup \<Rightarrow> backup_source \<Rightarrow> int \<Rightarrow> string \<Rightarrow> path" where
  "backup_path lib self source taken_at suffix =
     dir_for lib self source @ [backup_prefix @ bk_format_time lib taken_at @ suffix @ ''.sql'']"

definition write_file ::
  "backup_lib \<Rightarrow> local_backup \<Rightarrow> backup_source \<Rightarrow> int \<Rightarrow> string \<Rightarrow> string \<Rightarrow> (disk, path) comp" where
  "write_file lib self source taken_at sql suffix d =
     (case bk_header lib (lb_account self) source taken_at of
        Inl e \<Rightarrow> (Err (OtherErr (''backup header: '' @ e)), d)
      | Inr header \<Rightarrow>
          write_bytes lib (backup_path lib self source taken_at suffix)
            (header_prefix @ header @ [CHR 0x0A] @ sql) d)"

definition prune :: "backup_lib \<Rightarrow> local_backup \<Rightarrow> backup_source \<Rightarrow> (disk, unit) comp" where
  "prune lib self source =
     vbind (\<lambda>d. (backup_files lib self source d, d)) (\<lambda>files.
       each_comp (remove_file lib) (take (length files - lb_keep self) files))"

definition write_backup_file ::
  "backup_lib \<Rightarrow> local_backup \<Rightarrow> backup_source \<Rightarrow> int \<Rightarrow> string \<Rightarrow> (disk, path option) comp" where
  "write_backup_file lib self source now sql =
     vbind (\<lambda>d. (backup_files lib self source d, d)) (\<lambda>files d.
       if files \<noteq> [] \<and> map_option strip_header (read_to_string lib (last files) d) = Some sql then (Ok None, d)
       else vbind (write_file lib self source now sql []) (\<lambda>p. vbind (prune lib self source) (\<lambda>_. vret (Some p))) d)"

definition write_unreadable ::
  "backup_lib \<Rightarrow> local_backup \<Rightarrow> backup_source \<Rightarrow> int \<Rightarrow> string \<Rightarrow> (disk, path) comp" where
  "write_unreadable lib self source now sql = write_file lib self source now sql unreadable_suffix"

record backup_entry =
  be_path :: path
  be_taken_at :: int
  be_size :: nat
  be_source :: "backup_source option"
  be_cert_count :: "int option"

definition read_entry :: "('v, 'm) ca_env_scheme \<Rightarrow> backup_lib \<Rightarrow> disk \<Rightarrow> path \<Rightarrow> backup_entry option" where
  "read_entry env lib d p =
     Option.bind (backup_time lib p) (\<lambda>taken_at.
     Option.bind (read_to_string lib p d) (\<lambda>contents.
       Some \<lparr> be_path = p, be_taken_at = taken_at, be_size = length contents, be_source = read_source lib contents,
              be_cert_count = map_option count_certs (res_ok (from_sql_dump env (strip_header contents))) \<rparr>))"

text \<open>Backups of a vault, newest first.\<close>

definition list_backups ::
  "('v, 'm) ca_env_scheme \<Rightarrow> backup_lib \<Rightarrow> local_backup \<Rightarrow> backup_source \<Rightarrow> disk \<Rightarrow> backup_entry list res" where
  "list_backups env lib self source d =
     rmap (\<lambda>files. rev (List.map_filter (read_entry env lib d) files)) (backup_files lib self source d)"

definition owns :: "backup_lib \<Rightarrow> local_backup \<Rightarrow> backup_source \<Rightarrow> path \<Rightarrow> bool" where
  "owns lib self source p \<longleftrightarrow>
     (case (bk_canonical lib p, bk_canonical lib (dir_for lib self source)) of
        (Some q, Some dir) \<Rightarrow> in_dir dir q \<and> backup_time lib q \<noteq> None
      | _ \<Rightarrow> False)"

section \<open>Lemmas\<close>

lemma map_of_removed: "map_of (filter (\<lambda>f. fst f \<noteq> p) fs) q = (if q = p then None else map_of fs q)"
  by (induction fs) auto

lemma content_None: "content p d = None \<longleftrightarrow> p \<notin> fst ` set (dk_files d)"
  by (simp add: content_def map_of_eq_None_iff)

lemma remove_file_Ok:
  "remove_file lib p d = (Ok (), d') \<Longrightarrow>
     dk_dirs d' = dk_dirs d \<and> content p d \<noteq> None \<and> content q d' = (if q = p then None else content q d)"
  by (auto simp: remove_file_def content_def map_of_removed split: option.splits if_splits)

lemma remove_file_any:
  "remove_file lib p d = (r, d') \<Longrightarrow> dk_dirs d' = dk_dirs d \<and> (q \<noteq> p \<longrightarrow> content q d' = content q d)"
  by (auto simp: remove_file_def content_def map_of_removed split: option.splits if_splits)

lemma remove_each_Ok:
  "each_comp (remove_file lib) ps d = (Ok (), d') \<Longrightarrow>
     dk_dirs d' = dk_dirs d \<and> (\<forall>p \<in> set ps. content p d \<noteq> None) \<and> content q d' = (if q \<in> set ps then None else content q d)"
proof (induction ps arbitrary: d q)
  case Nil
  then show ?case by (simp add: vret_def)
next
  case (Cons p ps)
  then obtain d1 where step: "remove_file lib p d = (Ok (), d1)" and rest: "each_comp (remove_file lib) ps d1 = (Ok (), d')"
    by (auto simp: vbind_Ok_iff)
  have first: "dk_dirs d1 = dk_dirs d" "content p d \<noteq> None" "content x d1 = (if x = p then None else content x d)" for x
    using remove_file_Ok [OF step] by blast+
  have "\<forall>x \<in> set ps. content x d \<noteq> None" using Cons.IH [OF rest] first(3) by (metis option.distinct(1))
  then show ?case using Cons.IH [OF rest, of q] first by auto
qed

lemma remove_each_any:
  "each_comp (remove_file lib) ps d = (r, d') \<Longrightarrow> q \<notin> set ps \<Longrightarrow> content q d' = content q d"
proof (induction ps arbitrary: d)
  case Nil
  then show ?case by (simp add: vret_def)
next
  case (Cons p ps)
  obtain r1 d1 where step: "remove_file lib p d = (r1, d1)" by fastforce
  show ?case
    using Cons remove_file_any [OF step, of q] step by (cases r1) (auto simp: vbind_def)
qed

lemma write_bytes_Ok:
  "write_bytes lib p data d = (Ok p', d') \<Longrightarrow>
     p' = p \<and> \<not> blocked p d \<and> set (dk_dirs d') = set (parents p) \<union> set (dk_dirs d)
     \<and> content q d' = (if q = p then Some data else content q d)"
  by (auto simp: write_bytes_def content_def map_of_removed split: option.splits if_splits)

lemma write_bytes_any: "write_bytes lib p data d = (r, d') \<Longrightarrow> q \<noteq> p \<Longrightarrow> content q d' = content q d"
  by (auto simp: write_bytes_def content_def map_of_removed split: option.splits if_splits)

text \<open>A path names a file or a directory, and what is above it are directories.\<close>

definition disk_ok :: "disk \<Rightarrow> bool" where
  "disk_ok d \<longleftrightarrow> (\<forall>p \<in> set (dk_dirs d). content p d = None \<and> set (parents p) \<subseteq> set (dk_dirs d))
     \<and> (\<forall>p \<in> fst ` set (dk_files d). set (parents p) \<subseteq> set (dk_dirs d))"

lemma distinct_read_dir: "distinct (read_dir dir d)"
  by (simp add: read_dir_def)

lemma parents_other: "p \<notin> set (parents p)"
proof
  assume "p \<in> set (parents p)"
  then obtain n where "n < length p" "p = take n p" by (auto simp: parents_def)
  then have "length p = n" by (metis length_take min.absorb4)
  with \<open>n < length p\<close> show False by simp
qed

lemma parents_trans: "q \<in> set (parents p) \<Longrightarrow> set (parents q) \<subseteq> set (parents p)"
  by (force simp: parents_def min_def)

lemma disk_ok_parents: "disk_ok d \<Longrightarrow> content p d \<noteq> None \<or> p \<in> set (dk_dirs d) \<Longrightarrow> set (parents p) \<subseteq> set (dk_dirs d)"
  unfolding disk_ok_def content_None by blast

lemma disk_ok_dir: "disk_ok d \<Longrightarrow> p \<in> set (dk_dirs d) \<Longrightarrow> content p d = None"
  by (simp add: disk_ok_def)

lemma disk_okI:
  assumes "\<And>p. p \<in> set (dk_dirs d) \<Longrightarrow> content p d = None"
    and "\<And>p. content p d \<noteq> None \<or> p \<in> set (dk_dirs d) \<Longrightarrow> set (parents p) \<subseteq> set (dk_dirs d)"
  shows "disk_ok d"
  unfolding disk_ok_def using assms by (metis content_None)

lemma write_bytes_keeps:
  assumes "write_bytes lib p data d = (Ok p', d')" "disk_ok d"
  shows "disk_ok d'"
proof (rule disk_okI)
  note after = write_bytes_Ok [OF assms(1)]
  fix q
  show "content q d' = None" if "q \<in> set (dk_dirs d')"
  proof -
    have "q \<in> set (parents p) \<or> q \<in> set (dk_dirs d)" using that after [of q] by blast
    then have "content q d = None" "q \<noteq> p"
      using disk_ok_dir [OF assms(2), of q] after [of q] parents_other [of p]
      by (auto simp: blocked_def list_ex_iff)
    then show ?thesis using after [of q] by simp
  qed
  show "set (parents q) \<subseteq> set (dk_dirs d')" if "content q d' \<noteq> None \<or> q \<in> set (dk_dirs d')"
  proof -
    have "q = p \<or> q \<in> set (parents p) \<or> content q d \<noteq> None \<or> q \<in> set (dk_dirs d)"
      using that after [of q] by (auto split: if_splits)
    then show ?thesis using after [of q] parents_trans [of q p] disk_ok_parents [OF assms(2), of q] by blast
  qed
qed

lemma set_read_dir: "set (read_dir dir d) = {p. in_dir dir p \<and> (content p d \<noteq> None \<or> p \<in> set (dk_dirs d))}"
  by (auto simp: read_dir_def content_None)

lemma backup_files_Ok:
  "backup_files lib self source d = Ok ps \<Longrightarrow>
     set ps = {p. in_dir (dir_for lib self source) p \<and> is_backup lib p
                \<and> dir_for lib self source \<in> set (dk_dirs d) \<and> (content p d \<noteq> None \<or> p \<in> set (dk_dirs d))}
     \<and> sorted ps \<and> distinct ps"
  by (auto simp: backup_files_def Let_def set_read_dir distinct_read_dir split: if_splits option.splits)

lemma sorted_listing: "sorted ps \<Longrightarrow> distinct ps \<Longrightarrow> set ps = A \<Longrightarrow> ps = sorted_list_of_set A"
  by (metis sorted_list_of_set_unique distinct_card finite_set sorted_list_of_set.distinct_sorted_key_list_of_set
      sorted_list_of_set.idem_if_sorted_distinct)

lemma backup_path_in: "in_dir (dir_for lib self source) (backup_path lib self source now suffix)"
  by (simp add: in_dir_def backup_path_def)

lemma backup_path_parent: "dir_for lib self source \<in> set (parents (backup_path lib self source now suffix))"
proof -
  let ?dir = "dir_for lib self source" and ?p = "backup_path lib self source now suffix"
  have "length ?dir \<in> set [1..<length ?p]" "take (length ?dir) ?p = ?dir"
    by (simp_all add: dir_for_def backup_path_def)
  then show ?thesis unfolding parents_def by (metis image_eqI list.set_map)
qed

lemma prune_Ok:
  assumes "prune lib self source d = (Ok (), d')"
  shows "\<exists>files. backup_files lib self source d = Ok files \<and> dk_dirs d' = dk_dirs d
    \<and> (\<forall>q. content q d' = (if q \<in> set (take (length files - lb_keep self) files) then None else content q d))
    \<and> (\<forall>q \<in> set (take (length files - lb_keep self) files). content q d \<noteq> None)"
proof -
  obtain files where files: "backup_files lib self source d = Ok files"
    and run: "each_comp (remove_file lib) (take (length files - lb_keep self) files) d = (Ok (), d')"
    using assms by (auto simp: prune_def vbind_Ok_iff)
  show ?thesis using files remove_each_Ok [OF run] by (intro exI [of _ files]) blast
qed

text \<open>What a new backup does: it is listed with the others, and of them all the newest are kept.\<close>

lemma write_file_Ok:
  assumes "write_file lib self source now sql suffix d = (Ok p, d')"
  shows "\<exists>header. bk_header lib (lb_account self) source now = Inr header \<and> p = backup_path lib self source now suffix
    \<and> dir_for lib self source \<in> set (dk_dirs d')
    \<and> set (dk_dirs d') = set (parents p) \<union> set (dk_dirs d) \<and> p \<notin> set (dk_dirs d)
    \<and> (\<forall>q. content q d' = (if q = p then Some (header_prefix @ header @ [CHR 0x0A] @ sql) else content q d))"
proof -
  obtain header where header: "bk_header lib (lb_account self) source now = Inr header"
    and run: "write_bytes lib (backup_path lib self source now suffix) (header_prefix @ header @ [CHR 0x0A] @ sql) d = (Ok p, d')"
    using assms by (auto simp: write_file_def split: sum.splits)
  show ?thesis
    using header write_bytes_Ok [OF run] backup_path_parent [of lib self source now suffix] by (auto simp: blocked_def)
qed

lemma in_dir_length: "in_dir dir p \<Longrightarrow> length p = Suc (length dir)"
  unfolding in_dir_def by (metis append_butlast_last_id length_append_singleton)

lemma parents_not_in: "in_dir dir p \<Longrightarrow> q \<in> set (parents p) \<Longrightarrow> \<not> in_dir dir q"
  using in_dir_length [of dir p] in_dir_length [of dir q] by (auto simp: parents_def)

lemma in_dir_parent: "in_dir dir p \<Longrightarrow> dir \<noteq> [] \<Longrightarrow> dir \<in> set (parents p)"
proof -
  assume p: "in_dir dir p" "dir \<noteq> []"
  then have "take (length dir) p = dir" "length dir \<in> set [1..<length p]"
    using in_dir_length [OF p(1)] by (auto simp: in_dir_def butlast_conv_take Suc_leI)
  then show ?thesis unfolding parents_def by (metis image_eqI list.set_map)
qed

text \<open>On a well-formed disk the listing is the sorted set of the directory's backups.\<close>

definition backups_on :: "backup_lib \<Rightarrow> local_backup \<Rightarrow> backup_source \<Rightarrow> disk \<Rightarrow> path set" where
  "backups_on lib self source d =
     {p. in_dir (dir_for lib self source) p \<and> is_backup lib p \<and> (content p d \<noteq> None \<or> p \<in> set (dk_dirs d))}"

lemma backup_files_set:
  assumes "backup_files lib self source d = Ok ps" "disk_ok d"
  shows "ps = sorted_list_of_set (backups_on lib self source d)" "finite (backups_on lib self source d)"
proof -
  let ?dir = "dir_for lib self source"
  have "?dir \<noteq> []" by (simp add: dir_for_def)
  then have "?dir \<in> set (dk_dirs d)" if "p \<in> backups_on lib self source d" for p
    using that in_dir_parent [of ?dir p] disk_ok_parents [OF assms(2), of p] by (auto simp: backups_on_def)
  then have "set ps = backups_on lib self source d"
    using backup_files_Ok [OF assms(1)] by (auto simp: backups_on_def)
  moreover from this show "finite (backups_on lib self source d)" by (metis finite_set)
  ultimately show "ps = sorted_list_of_set (backups_on lib self source d)"
    using backup_files_Ok [OF assms(1)] sorted_listing [of ps] by simp
qed

lemma backup_files_listed:
  assumes "dir_for lib self source \<in> set (dk_dirs d)" "bk_fault lib (Listing (dir_for lib self source)) = None"
  shows "backup_files lib self source d = Ok (sorted_list_of_set (backups_on lib self source d))"
proof -
  let ?files = "sort (filter (is_backup lib) (read_dir (dir_for lib self source) d))"
  have "set ?files = backups_on lib self source d" by (auto simp: set_read_dir backups_on_def)
  moreover have "sorted ?files" "distinct ?files" by (simp_all add: distinct_read_dir)
  ultimately show ?thesis using assms sorted_listing [of ?files] by (simp add: backup_files_def)
qed

lemma drop_sorted_set:
  assumes "finite A"
  shows "drop n (sorted_list_of_set A) = sorted_list_of_set (A - set (take n (sorted_list_of_set A)))"
proof (rule sorted_listing)
  let ?xs = "sorted_list_of_set A"
  have "set (drop n ?xs) \<inter> set (take n ?xs) = {}" "set (take n ?xs) \<union> set (drop n ?xs) = A"
    using assms set_take_disj_set_drop_if_distinct [of ?xs n n] by (auto simp flip: set_append)
  then show "set (drop n ?xs) = A - set (take n ?xs)" by blast
qed (simp_all add: sorted_wrt_drop)

text \<open>
  C25: The copies are a window over the newest: after a new copy is written, those listed are the newest of the
  ones before and the new one, as many as are to be kept; the others are gone, no other file has changed,
  and the new copy, when kept, holds its header and the dump.
\<close>

theorem backups_roll:
  assumes "write_backup_file lib self source now sql d = (Ok (Some p), d')" "disk_ok d" "is_backup lib p"
  shows "\<exists>old header. backup_files lib self source d = Ok old \<and> bk_header lib (lb_account self) source now = Inr header
    \<and> (let every = sorted_list_of_set (insert p (set old)); excess = length every - lb_keep self
       in backup_files lib self source d' = Ok (drop excess every)
        \<and> (\<forall>q. content q d' = (if q \<in> set (take excess every) then None
                 else if q = p then Some (header_prefix @ header @ [CHR 0x0A] @ sql) else content q d)))"
proof -
  let ?dir = "dir_for lib self source"
  obtain old d1 where old: "backup_files lib self source d = Ok old"
    and written: "write_file lib self source now sql [] d = (Ok p, d1)" and pruned: "prune lib self source d1 = (Ok (), d')"
    using assms(1) by (auto simp: write_backup_file_def vbind_Ok_iff vret_def split: if_splits)
  obtain header where header: "bk_header lib (lb_account self) source now = Inr header" "p = backup_path lib self source now []"
      "?dir \<in> set (dk_dirs d1)" "set (dk_dirs d1) = set (parents p) \<union> set (dk_dirs d)" "p \<notin> set (dk_dirs d)"
      "\<And>q. content q d1 = (if q = p then Some (header_prefix @ header @ [CHR 0x0A] @ sql) else content q d)"
    using write_file_Ok [OF written] by blast
  obtain files where files: "backup_files lib self source d1 = Ok files" "dk_dirs d' = dk_dirs d1"
      "\<And>q. content q d' = (if q \<in> set (take (length files - lb_keep self) files) then None else content q d1)"
      "\<forall>q \<in> set (take (length files - lb_keep self) files). content q d1 \<noteq> None"
    using prune_Ok [OF pruned] by blast
  let ?old = "backups_on lib self source d" and ?now = "backups_on lib self source d1"
  note before = backup_files_set [OF old assms(2)]
  have "disk_ok d1"
    using written write_bytes_keeps [OF _ assms(2)] header(1) by (auto simp: write_file_def)
  note between = backup_files_set [OF files(1) this]
  have p: "in_dir ?dir p" using backup_path_in by (simp add: header(2))
  have "?now = insert p ?old"
    using header(4,6) parents_not_in [OF p] p assms(3) by (auto simp: backups_on_def)
  then have every: "files = sorted_list_of_set (insert p (set old))" using before between by simp
  have gone: "q \<notin> set (dk_dirs d1)" if "content q d1 \<noteq> None" for q
    using that disk_ok_dir [OF \<open>disk_ok d1\<close>, of q] by auto
  let ?excess = "length files - lb_keep self"
  have "backups_on lib self source d' = ?now - set (take ?excess files)"
    using files(2-4) gone by (auto simp: backups_on_def)
  moreover have "bk_fault lib (Listing ?dir) = None"
    using files(1) header(3) by (auto simp: backup_files_def Let_def split: option.splits)
  ultimately have "backup_files lib self source d' = Ok (drop ?excess files)"
    using backup_files_listed [of lib self source d'] drop_sorted_set [OF between(2), of ?excess] files(2) header(3) between(1)
    by simp
  then have "let every = files; excess = length every - lb_keep self
       in backup_files lib self source d' = Ok (drop excess every)
        \<and> (\<forall>q. content q d' = (if q \<in> set (take excess every) then None
                 else if q = p then Some (header_prefix @ header @ [CHR 0x0A] @ sql) else content q d))"
    unfolding Let_def using header(6) files(3) by simp
  then show ?thesis unfolding every using old header(1) by blast
qed

text \<open>
  A dump is not written twice in a row: when the copy just written is the newest and can be read, writing
  the same dump again, at any time, changes nothing.
\<close>

lemma strip_prefix_append [simp]: "strip_prefix p (p @ s) = Some s"
  by (simp add: strip_prefix_def starts_with_def)

lemma split_once_first: "c \<notin> set a \<Longrightarrow> split_once [c] (a @ c # b) = Some (a, b)"
  by (induction a) (auto simp: starts_with_def)

lemma strip_header_written: "CHR 0x0A \<notin> set header \<Longrightarrow> strip_header (header_prefix @ header @ [CHR 0x0A] @ sql) = sql"
  using split_once_first [of "CHR 0x0A" header sql] by (simp add: strip_header_def)

lemma last_sorted_set:
  assumes "finite A" "a \<in> A" "\<forall>b \<in> A. b \<le> a"
  shows "last (sorted_list_of_set A) = a"
proof -
  let ?xs = "sorted_list_of_set A"
  have xs: "set ?xs = A" "sorted ?xs" "?xs \<noteq> []" using assms by auto
  obtain ys y where split: "?xs = ys @ [y]" using xs(3) by (cases ?xs rule: rev_cases) auto
  then have "\<forall>b \<in> A. b \<le> last ?xs" using xs(1,2) by (auto simp: sorted_append)
  moreover have "last ?xs \<in> A" using xs by (metis last_in_set)
  ultimately show ?thesis using assms(2,3) by (metis antisym)
qed

theorem backup_not_repeated:
  assumes "write_backup_file lib self source now sql d = (Ok (Some p), d')" "disk_ok d" "is_backup lib p" "0 < lb_keep self"
    and "\<forall>old \<in> backups_on lib self source d. old \<le> p"
    and "\<forall>h. bk_header lib (lb_account self) source now = Inr h \<longrightarrow> CHR 0x0A \<notin> set h" "bk_fault lib (Reading p) = None"
  shows "write_backup_file lib self source later sql d' = (Ok None, d')"
proof -
  obtain old header every where old: "backup_files lib self source d = Ok old"
    and header: "bk_header lib (lb_account self) source now = Inr header"
    and every: "every = sorted_list_of_set (insert p (set old))"
    and after: "backup_files lib self source d' = Ok (drop (length every - lb_keep self) every)"
      "\<And>q. content q d' = (if q \<in> set (take (length every - lb_keep self) every) then None
         else if q = p then Some (header_prefix @ header @ [CHR 0x0A] @ sql) else content q d)"
    using backups_roll [OF assms(1-3)] unfolding Let_def by blast
  let ?excess = "length every - lb_keep self"
  have "set old = backups_on lib self source d" using backup_files_set [OF old assms(2)] by simp
  then have "\<forall>b \<in> insert p (set old). b \<le> p" using assms(5) by simp
  then have newest: "last every = p" unfolding every by (intro last_sorted_set) simp_all
  have "every \<noteq> []" unfolding every by (subst sorted_list_of_set_eq_Nil_iff) simp_all
  have "distinct every" unfolding every by (rule sorted_list_of_set.distinct_sorted_key_list_of_set)
  have some: "?excess < length every" using assms(4) \<open>every \<noteq> []\<close> by (cases every) auto
  then have last: "last (drop ?excess every) = p" "drop ?excess every \<noteq> []" using newest by (simp_all add: last_drop)
  then have "p \<notin> set (take ?excess every)"
    using set_take_disj_set_drop_if_distinct [OF \<open>distinct every\<close>, of ?excess ?excess] last_in_set [OF last(2)] by auto
  then have "content p d' = Some (header_prefix @ header @ [CHR 0x0A] @ sql)" using after(2) by simp
  then have "map_option strip_header (read_to_string lib p d') = Some sql"
    using assms(7) strip_header_written assms(6) header by (simp add: read_to_string_def)
  then show ?thesis
    using after(1) last by (simp add: write_backup_file_def vbind_def)
qed

section \<open>Where copies are kept\<close>

definition safe_segment :: "string \<Rightarrow> bool" where
  "safe_segment s \<longleftrightarrow> s \<noteq> [] \<and> hd s \<noteq> CHR ''.'' \<and> list_all (\<lambda>c. is_ascii_alphanumeric c \<or> c \<in> set ''-_.'') s"

lemma dropped_dots_safe:
  assumes "list_all (\<lambda>c. is_ascii_alphanumeric c \<or> c \<in> set ''-_.'') s"
  shows "safe_segment (case trim_start_matches CHR ''.'' s of [] \<Rightarrow> ''_'' | c # cs \<Rightarrow> c # cs)"
proof (cases "trim_start_matches CHR ''.'' s")
  case Nil
  then show ?thesis by (simp add: safe_segment_def)
next
  case (Cons c cs)
  then have "c \<noteq> CHR ''.''" unfolding trim_start_matches_def by (metis (mono_tags) dropWhile_eq_Cons_conv)
  moreover have "set (c # cs) \<subseteq> set s"
    using Cons set_dropWhileD by (metis subsetI trim_start_matches_def)
  then have "list_all (\<lambda>c. is_ascii_alphanumeric c \<or> c \<in> set ''-_.'') (c # cs)"
    using assms unfolding list_all_iff by blast
  ultimately show ?thesis unfolding Cons safe_segment_def by simp
qed

lemma path_safe_safe: "safe_segment (path_safe s)"
  unfolding path_safe_def Let_def by (rule dropped_dots_safe) (auto simp: list_all_iff)

definition inside_store :: "local_backup \<Rightarrow> path \<Rightarrow> bool" where
  "inside_store self q \<longleftrightarrow>
     (\<exists>a b name. q = lb_root self @ [a, b, name] \<and> safe_segment a \<and> safe_segment b \<and> starts_with backup_prefix name)"

lemma in_store:
  assumes "in_dir (dir_for lib self source) q" "starts_with backup_prefix (last q)"
  shows "inside_store self q"
proof -
  have "q = dir_for lib self source @ [last q]" using assms(1) unfolding in_dir_def by (metis append_butlast_last_id)
  then have "q = lb_root self @ [path_safe (lb_account self), dir_name lib source, last q]" by (simp add: dir_for_def)
  then show ?thesis
    unfolding inside_store_def using assms(2) path_safe_safe by (metis dir_name_def)
qed

lemma backup_starts: "is_backup lib q \<Longrightarrow> starts_with backup_prefix (last q)"
  by (auto simp: is_backup_def backup_time_def strip_prefix_def split: if_splits)

lemma write_file_inside:
  "write_file lib self source now sql suffix d = (r, d') \<Longrightarrow> content q d' \<noteq> content q d \<Longrightarrow> inside_store self q"
proof -
  assume run: "write_file lib self source now sql suffix d = (r, d')" "content q d' \<noteq> content q d"
  then have "q = backup_path lib self source now suffix"
    using write_bytes_any [of lib "backup_path lib self source now suffix" _ d r d' q]
    by (cases "bk_header lib (lb_account self) source now") (auto simp: write_file_def)
  then show ?thesis
    using in_store [OF backup_path_in] by (simp add: backup_path_def starts_with_def)
qed

lemma prune_inside:
  "prune lib self source d = (r, d') \<Longrightarrow> content q d' \<noteq> content q d \<Longrightarrow> inside_store self q"
proof (cases "backup_files lib self source d")
  case (Ok files)
  assume run: "prune lib self source d = (r, d')" "content q d' \<noteq> content q d"
  then have "q \<in> set files"
    using Ok remove_each_any [of lib "take (length files - lb_keep self) files" d r d' q]
    by (auto simp: prune_def vbind_def dest: in_set_takeD)
  then show ?thesis using backup_files_Ok [OF Ok] in_store [of lib self source q] backup_starts [of lib q] by blast
qed (auto simp: prune_def vbind_def)

lemma write_backup_file_run:
  "backup_files lib self source d = Ok files \<Longrightarrow>
   \<not> (files \<noteq> [] \<and> map_option strip_header (read_to_string lib (last files) d) = Some sql) \<Longrightarrow>
   write_backup_file lib self source now sql d =
     vbind (write_file lib self source now sql []) (\<lambda>p. vbind (prune lib self source) (\<lambda>_. vret (Some p))) d"
  by (auto simp: write_backup_file_def vbind_def)

text \<open>
  C26: Whatever an account or a vault is called and however the disk fails, writing a copy changes only files
  named as backups two directories below the root, whose names are plain: no separator, not empty, not
  beginning with a dot.
\<close>

theorem backups_stay_inside:
  assumes "content q (snd (write_backup_file lib self source now sql d)) \<noteq> content q d
    \<or> content q (snd (write_unreadable lib self source now sql d)) \<noteq> content q d"
  shows "inside_store self q"
proof (cases "content q (snd (write_unreadable lib self source now sql d)) \<noteq> content q d")
  case True
  then show ?thesis using write_file_inside [OF surjective_pairing] by (simp add: write_unreadable_def)
next
  case False
  then have changed: "content q (snd (write_backup_file lib self source now sql d)) \<noteq> content q d" using assms by blast
  then obtain files where files: "backup_files lib self source d = Ok files"
    and not_same: "\<not> (files \<noteq> [] \<and> map_option strip_header (read_to_string lib (last files) d) = Some sql)"
    by (cases "backup_files lib self source d") (auto simp: write_backup_file_def vbind_def split: if_splits)
  obtain r d1 where written: "write_file lib self source now sql [] d = (r, d1)" by fastforce
  note run = write_backup_file_run [OF files not_same, of now]
  show ?thesis
  proof (cases r)
    case (Ok p)
    obtain u d2 where pruned: "prune lib self source d1 = (u, d2)" by fastforce
    have "snd (write_backup_file lib self source now sql d) = d2"
      using written Ok pruned run by (cases u) (simp_all add: vbind_def vret_def)
    then show ?thesis using changed write_file_inside [OF written, of q] prune_inside [OF pruned, of q] by metis
  qed (use changed run written write_file_inside [OF written, of q] in \<open>simp_all add: vbind_def\<close>)
qed

section \<open>An example\<close>

text \<open>A store that keeps one copy, on a disk that never fails and holds an older copy.\<close>

definition example_files :: backup_lib where
  "example_files =
     \<lparr> bk_fault = (\<lambda>a. None), bk_no_file = (\<lambda>p. ''not a file''), bk_show = join ''/'', bk_canonical = Some, bk_lowercase = to_ascii_lowercase,
       bk_format_time = (\<lambda>n. if n = 1 then ''1'' else ''2''),
       bk_parse_time = (\<lambda>s. if s = ''1'' then Some 1 else if s = ''2'' then Some 2 else None),
       bk_header = (\<lambda>account source now. Inr (bs_vault source)), bk_read_header = (\<lambda>s. Some \<lparr> bs_vault = s, bs_vault_id = None \<rparr>) \<rparr>"

definition example_store :: local_backup where
  "example_store = \<lparr> lb_root = [''root''], lb_account = ''../a'', lb_keep = 1 \<rparr>"

definition example_source :: backup_source where
  "example_source = \<lparr> bs_vault = ''vault'', bs_vault_id = Some ''v'' \<rparr>"

definition example_old_copy :: path where
  "example_old_copy = [''root'', ''_a'', ''v'', ''ca-database-1.sql'']"

definition example_new_copy :: path where
  "example_new_copy = [''root'', ''_a'', ''v'', ''ca-database-2.sql'']"

definition example_disk :: disk where
  "example_disk = \<lparr> dk_dirs = parents example_old_copy, dk_files = [(example_old_copy, ''old'')] \<rparr>"

lemma example_path: "backup_path example_files example_store example_source 2 [] = example_new_copy"
  by code_simp

lemma example_written:
  "fst (write_backup_file example_files example_store example_source 2 ''dump'' example_disk) = Ok (Some example_new_copy)"
  by code_simp

lemma example_run:
  obtains d' where "write_backup_file example_files example_store example_source 2 ''dump'' example_disk = (Ok (Some example_new_copy), d')"
  using example_written by (metis prod.collapse)

lemma example_disk_ok: "disk_ok example_disk"
  by code_simp

lemma example_is_backup: "is_backup example_files example_new_copy"
  unfolding is_backup_def by code_simp

lemma example_listed: "backup_files example_files example_store example_source example_disk = Ok [example_old_copy]"
  by code_simp

theorem backups_roll_witness:
  "\<exists>d'. write_backup_file example_files example_store example_source 2 ''dump'' example_disk = (Ok (Some example_new_copy), d')
     \<and> backup_files example_files example_store example_source d' = Ok [example_new_copy] \<and> content example_old_copy d' = None"
proof -
  obtain d' where run: "write_backup_file example_files example_store example_source 2 ''dump'' example_disk = (Ok (Some example_new_copy), d')"
    by (rule example_run)
  have sorted: "sorted_list_of_set (insert example_new_copy (set [example_old_copy])) = [example_old_copy, example_new_copy]"
    by code_simp
  have keep: "lb_keep example_store = 1" by (simp add: example_store_def)
  obtain old where old: "backup_files example_files example_store example_source example_disk = Ok old"
    and after: "let every = sorted_list_of_set (insert example_new_copy (set old)); excess = length every - lb_keep example_store
       in backup_files example_files example_store example_source d' = Ok (drop excess every)
        \<and> (\<forall>q. q \<in> set (take excess every) \<longrightarrow> content q d' = None)"
    using backups_roll [OF run example_disk_ok example_is_backup] unfolding Let_def by auto
  have "old = [example_old_copy]" using old example_listed by simp
  then have "backup_files example_files example_store example_source d' = Ok [example_new_copy]" "content example_old_copy d' = None"
    using after unfolding \<open>old = _\<close> sorted Let_def keep by simp_all
  with run show ?thesis by blast
qed

theorem backup_not_repeated_witness:
  "\<exists>d'. write_backup_file example_files example_store example_source 2 ''dump'' example_disk = (Ok (Some example_new_copy), d')
     \<and> write_backup_file example_files example_store example_source 3 ''dump'' d' = (Ok None, d')"
proof -
  obtain d' where run: "write_backup_file example_files example_store example_source 2 ''dump'' example_disk = (Ok (Some example_new_copy), d')"
    by (rule example_run)
  have "set [example_old_copy] = backups_on example_files example_store example_source example_disk"
    using backup_files_set [OF example_listed example_disk_ok] by (metis set_sorted_list_of_set)
  moreover have "example_old_copy \<le> example_new_copy" by code_simp
  ultimately have "\<forall>old \<in> backups_on example_files example_store example_source example_disk. old \<le> example_new_copy"
    by (metis empty_iff empty_set insert_iff list.simps(15))
  then have "write_backup_file example_files example_store example_source 3 ''dump'' d' = (Ok None, d')"
    using backup_not_repeated [OF run example_disk_ok example_is_backup, of 3]
    by (simp add: example_files_def example_store_def example_source_def)
  with run show ?thesis by blast
qed

theorem backups_stay_inside_witness:
  "inside_store example_store example_new_copy"
  by (rule backups_stay_inside [of _ example_files example_store example_source 2 "''dump''" example_disk], rule disjI1) code_simp

end
