(* ===== verification/Ca_Ops.thy ===== *)
theory Ca_Ops
  imports Ca_State
begin

text \<open>
  The operations of the certificate authority on certificates, from
  \<^verbatim>\<open>crates/opca-core/src/services/ca.rs\<close> and \<^verbatim>\<open>ca/publish.rs\<close>: generating, importing, renewing, rekeying,
  revoking, ignoring, deleting and renaming them, the CRL, re-signing the CA, rebuilding the database,
  uploads and publishing.
\<close>

definition debug_lookup :: "cert_lookup \<Rightarrow> string" where
  "debug_lookup l = (case l of BySerial s \<Rightarrow> ''Serial('' @ debug_str s @ '')''
      | ByCn s \<Rightarrow> ''Cn('' @ debug_str s @ '')'' | ByTitle s \<Rightarrow> ''Title('' @ debug_str s @ '')'')"

definition crt_title :: "string \<Rightarrow> string \<Rightarrow> string" where
  "crt_title serial name = ''CRT_'' @ serial @ ''_'' @ name"

definition req_of_bundle :: "('v, 'm) ca_env_scheme \<Rightarrow> opca_error \<Rightarrow> certificate_bundle \<Rightarrow> x509_req res" where
  "req_of_bundle env missing bundle =
     rbind (ok_or missing (csr_pem bundle)) (\<lambda>pem. crypto_err ''Parse CSR'' (req_from_pem (e_crypto env) pem))"

section \<open>Uploads\<close>

definition aws_region :: "('v, string option) ca_comp" where
  "aws_region = vbind the_config (\<lambda>c. vret (cf_ca_aws_region c))"

definition get_aws_credentials :: "('v, 'm) ca_env_scheme \<Rightarrow> string option \<Rightarrow> ('v, aws_credentials) ca_comp" where
  "get_aws_credentials env region =
     (case e_aws_setting env of
        None \<Rightarrow> vfail (Storage (''No AWS credential selected. Pick the 1Password item holding your AWS access key under CA ''
                  @ [CHR 0xE2, CHR 0x86, CHR 0x92] @ '' Stores.''))
      | Some item_id \<Rightarrow>
          vbind (outside (call (e_op_item env item_id))) (\<lambda>item.
          vbind (vlift (aws_credentials_of item)) (\<lambda>creds. vret (with_region region creds))))"

definition the_aws_credentials :: "('v, 'm) ca_env_scheme \<Rightarrow> ('v, aws_credentials) ca_comp" where
  "the_aws_credentials env = vbind aws_region (get_aws_credentials env)"

definition upload_content :: "('v, 'm) ca_env_scheme \<Rightarrow> string \<Rightarrow> string \<Rightarrow> visibility \<Rightarrow> ('v, unit) ca_comp" where
  "upload_content env text uri vis =
     vbind (if needs_aws_credentials uri then vbind (the_aws_credentials env) (\<lambda>c. vret (Some c)) else vret None) (\<lambda>creds.
     vbind (vlift (storage_from_uri_with_creds uri creds)) (\<lambda>backend.
       outside (e_upload env backend text uri vis)))"

definition under_store :: "string \<Rightarrow> string \<Rightarrow> string" where
  "under_store store path = trim_end_matches CHR ''/'' store @ ''/'' @ path"

definition private_store_uri :: "('v, 'm) ca_env_scheme \<Rightarrow> ('v, string option) ca_comp" where
  "private_store_uri env =
     vbind the_config (\<lambda>c. vret (map_option
       (\<lambda>store. under_store store (e_lowercase env (trim (e_vault_name env)) @ ''.sqlite'')) (cf_ca_private_store c)))"

record private_store_job =
  pj_bytes :: string
  pj_uri :: string
  pj_account :: "string option"
  pj_region :: "string option"
  pj_fingerprint :: string

definition private_store_upload_job :: "('v, 'm) ca_env_scheme \<Rightarrow> ('v, private_store_job option) ca_comp" where
  "private_store_upload_job env =
     vbind (private_store_uri env) (\<lambda>u. case u of
        None \<Rightarrow> vret None
      | Some uri \<Rightarrow>
          vbind the_db (\<lambda>db.
          vbind aws_region (\<lambda>region.
            let bytes = e_dump_binary env (tables_of db)
            in vret (Some \<lparr> pj_bytes = bytes, pj_uri = uri, pj_account = e_account env, pj_region = region,
                            pj_fingerprint = e_sha256 env bytes \<rparr>))))"

definition upload_ca_database :: "('v, 'm) ca_env_scheme \<Rightarrow> string \<Rightarrow> ('v, unit) ca_comp" where
  "upload_ca_database env store_uri =
     vbind (if store_uri = [] then vbind (private_store_uri env) (\<lambda>u. vlift (ok_or (Storage ''No private store configured'') u))
            else vret store_uri) (\<lambda>uri.
     vbind the_db (\<lambda>db. upload_content env (e_dump_binary env (tables_of db)) uri Private))"

definition public_uri :: "string \<Rightarrow> string \<Rightarrow> ('v, string) ca_comp" where
  "public_uri store_uri file =
     (if store_uri = [] then
        vbind the_config (\<lambda>c.
        vbind (vlift (ok_or (Storage ''No public store configured'') (cf_ca_public_store c))) (\<lambda>store.
          vret (under_store store file)))
      else vret store_uri)"

definition get_certificate :: "('v, string) ca_comp" where
  "get_certificate = vbind (gets (\<lambda>s. ok_or CaNotFound (s_bundle s))) (\<lambda>b. vlift (certificate_pem b))"

definition get_private_key :: "('v, string) ca_comp" where
  "get_private_key = vbind (gets (\<lambda>s. ok_or CaNotFound (s_bundle s))) (\<lambda>b. vlift (private_key_pem b))"

definition upload_ca_cert :: "('v, 'm) ca_env_scheme \<Rightarrow> string \<Rightarrow> ('v, unit) ca_comp" where
  "upload_ca_cert env store_uri =
     vbind (public_uri store_uri ca_cert_file) (\<lambda>uri.
     vbind get_certificate (\<lambda>cert_pem. upload_content env cert_pem uri Public))"

definition upload_crl :: "('v, 'm) ca_env_scheme \<Rightarrow> string \<Rightarrow> ('v, unit) ca_comp" where
  "upload_crl env store_uri =
     vbind (public_uri store_uri crl_file) (\<lambda>uri.
     vbind (gets (\<lambda>s. ok_or (CertificateNotFound ''CRL not found'') (s_crl s))) (\<lambda>crl.
       upload_content env crl uri Public))"

section \<open>Publishing\<close>

definition parse_u128_or_0 :: "string \<Rightarrow> nat" where
  "parse_u128_or_0 s =
     (case parse_digits (case s of c # cs \<Rightarrow> if c = CHR ''+'' then cs else s | [] \<Rightarrow> s) of
        Some n \<Rightarrow> if n < 2 ^ 128 then n else 0 | None \<Rightarrow> 0)"

text \<open>\<^verbatim>\<open>max_by_key\<close>: of equal keys the last wins.\<close>

fun max_by_key :: "('a \<Rightarrow> nat) \<Rightarrow> 'a list \<Rightarrow> 'a option" where
  "max_by_key k [] = None"
| "max_by_key k (x # xs) = (case max_by_key k xs of None \<Rightarrow> Some x | Some y \<Rightarrow> if k y < k x then Some x else Some y)"

definition publishable :: "cert_lookup \<Rightarrow> ca_db \<Rightarrow> cert_record res" where
  "publishable l db =
     rbind (ok_or (CertificateNotFound (debug_lookup l))
              (case l of ByCn cn \<Rightarrow> max_by_key (\<lambda>c. parse_u128_or_0 (cr_serial c))
                                       (filter (\<lambda>c. cr_cn c = Some cn) (query_all_certs db))
               | _ \<Rightarrow> query_cert l False db)) (\<lambda>r.
       if cr_cert_type r = Some ''ca'' \<or> cr_cert_type r = Some ''subordinateca''
       then Err (InvalidCertificate (cr_serial r @ '' is a CA certificate, which is not published''))
       else if cr_cn r = None \<or> cr_cn r = Some []
       then Err (InvalidCertificate (cr_serial r @ '' has no CN to publish it under''))
       else if cr_status r = Some ''Revoked'' then Err (CertificateRevoked (cr_serial r))
       else Ok r)"

definition upload_published :: "('v, 'm) ca_env_scheme \<Rightarrow> string \<Rightarrow> string \<Rightarrow> string \<Rightarrow> ('v, string) ca_comp" where
  "upload_published env serial cn pem =
     vbind the_config (\<lambda>c.
     vbind (vlift (ok_or (Storage ''No public store configured'') (cf_ca_public_store c))) (\<lambda>store.
       let uri = under_store store (published_cert_key cn)
       in vbind (upload_content env pem uri Public) (\<lambda>_.
          vbind (on_db (mark_cert_published (stamp_of env) serial cn)) (\<lambda>_. vret uri))))"

definition publish_certificate :: "('v, 'm) ca_env_scheme \<Rightarrow> cert_lookup \<Rightarrow> ('v, string) ca_comp" where
  "publish_certificate env l =
     vbind the_db (\<lambda>db.
     vbind (vlift (publishable l db)) (\<lambda>r.
       let title = (case cr_title r of Some t \<Rightarrow> t | None \<Rightarrow> cr_serial r)
       in vbind (retrieve_certbundle env title) (\<lambda>b.
          vbind (vlift (ok_or (CertificateNotFound title) b)) (\<lambda>bundle.
          vbind (vlift (ok_or (CertificateNotFound title) (bd_certificate bundle))) (\<lambda>cert.
          vbind (vlift (asn1_now (e_crypto env) (e_now env) 0)) (\<lambda>now.
            if xc_not_after cert < now then vfail (CertificateExpired (cr_serial r))
            else
              vbind (vlift (certificate_pem bundle)) (\<lambda>pem.
              vbind (upload_published env (cr_serial r) (or_empty (cr_cn r)) pem) (\<lambda>uri.
              vbind (store_ca_database env) (\<lambda>_. vret uri)))))))))"

section \<open>Generating and importing\<close>

definition generate_certificate_bundle ::
  "('v, 'm) ca_env_scheme \<Rightarrow> cert_type \<Rightarrow> string \<Rightarrow> cert_bundle_config \<Rightarrow> int option
     \<Rightarrow> ('v, certificate_bundle \<times> string list) ca_comp" where
  "generate_certificate_bundle env ct item_title config days =
     vbind (vlift (generate_bundle (e_crypto env) (e_seed env) ct item_title config)) (\<lambda>bundle.
     vbind (vlift (req_of_bundle env (InvalidCertificate ''CSR not generated'') bundle)) (\<lambda>csr.
     vbind (issue_certificate env csr ct days) (\<lambda>(cert, warnings).
     vbind (vlift (update_certificate cert bundle)) (\<lambda>bundle.
     vbind (vlift (attrib env bundle ''serial'')) (\<lambda>serial.
       let bundle = bundle\<lparr> bd_title := crt_title serial item_title \<rparr>
       in vbind (store_certbundle_for env bundle None None True) (\<lambda>_. vret (bundle, warnings)))))))"

definition is_cert_valid :: "('v, 'm) ca_env_scheme \<Rightarrow> x509 \<Rightarrow> ('v, bool) ca_comp" where
  "is_cert_valid env cert =
     vbind (gets (\<lambda>s. ok_or CaNotFound (s_bundle s))) (\<lambda>ca_bundle.
     vbind (vlift (ok_or CaNotFound (bd_certificate ca_bundle))) (\<lambda>ca_cert.
     vbind (vlift (crypto_err ''Get CA public key'' (xc_public_key ca_cert))) (\<lambda>_.
       if \<not> e_verified_by env ca_cert cert then vret False
       else vbind (vlift (crypto_err ''Asn1Time'' (days_from_now (e_crypto env) (e_now env) 0))) (\<lambda>now.
         vret (\<not> (xc_not_before cert > now \<or> xc_not_after cert < now))))))"

lemma starts_with_nonempty: "starts_with p s \<Longrightarrow> p \<noteq> [] \<Longrightarrow> s \<noteq> []"
  by (auto simp: starts_with_def)

text \<open>The common name in an issuer's text, or \<^verbatim>\<open>Unknown\<close>.\<close>

function strip_prefixes :: "string \<Rightarrow> string \<Rightarrow> string" where
  "strip_prefixes p s = (if p \<noteq> [] \<and> starts_with p s then strip_prefixes p (drop (length p) s) else s)"
  by pat_completeness auto
termination by (relation "measure (length \<circ> snd)") (auto dest: starts_with_nonempty)

declare strip_prefixes.simps [simp del]

definition issuer_common_name :: "string option \<Rightarrow> string" where
  "issuer_common_name issuer =
     (case Option.bind issuer (\<lambda>s. List.find (\<lambda>part. starts_with ''CN='' (trim part)) (split_char CHR '','' s)) of
        Some part \<Rightarrow> strip_prefixes ''CN='' (trim part) | None \<Rightarrow> ''Unknown'')"

definition import_certificate_bundle ::
  "('v, 'm) ca_env_scheme \<Rightarrow> string \<Rightarrow> string option \<Rightarrow> string option \<Rightarrow> string option \<Rightarrow> string option
     \<Rightarrow> ('v, certificate_bundle) ca_comp" where
  "import_certificate_bundle env cert_pem key_pem chain passphrase item_title =
     vbind (vlift (invalid_err ''Failed to parse certificate PEM'' (x509_from_pem (e_crypto env) cert_pem))) (\<lambda>cert.
     vbind (is_cert_valid env cert) (\<lambda>is_local.
     vbind (vlift (import_bundle (e_crypto env) (if is_local then Imported else External) (or_empty item_title) cert_pem
              key_pem None passphrase empty_bundle_config)) (\<lambda>bundle.
     vbind (vlift (case chain of Some cp \<Rightarrow> set_chain_from_pem (e_crypto env) cp bundle | None \<Rightarrow> Ok bundle)) (\<lambda>bundle.
     vbind (if is_local then
              vbind (vlift (attrib env bundle ''serial'')) (\<lambda>s. case parse_i64 s of
                 Some n \<Rightarrow> vbind (run_db (increment_serial CertSerial (Some n))) (\<lambda>_. vret ()) | None \<Rightarrow> vret ())
            else vret ()) (\<lambda>_.
     vbind (if is_local then vret (None, None)
            else vbind (vlift (get_certificate_attrib (e_chrono env) (e_crypto env) bundle ''issuer'')) (\<lambda>issuer_name.
              vret (Some (issuer_common_name issuer_name), Some (case issuer_name of Some s \<Rightarrow> s | None \<Rightarrow> ''Unknown''))))
       (\<lambda>(issuer, issuer_subject).
     vbind (store_certbundle_for env bundle issuer issuer_subject True) (\<lambda>_. vret bundle)))))))"

section \<open>Renewing and rekeying\<close>

definition auto_ignore_predecessor ::
  "('v, 'm) ca_env_scheme \<Rightarrow> string \<Rightarrow> string \<Rightarrow> ignore_reason \<Rightarrow> ('v, unit) ca_comp" where
  "auto_ignore_predecessor env old_serial new_serial reason s =
     (case s_db s of
        Some db \<Rightarrow> on_db (ignore_cert (stamp_of env) old_serial reason (e_user env) (Some (''replaced by '' @ new_serial))) s
      | None \<Rightarrow> vret () s)"

record renewal =
  rn_pem :: string
  rn_serial :: string
  rn_warnings :: "string list"
  rn_republished :: "string res option"

text \<open>Signing a request for a bundle and naming it by its new serial number: what renewing and rekeying share.\<close>

definition sign_bundle ::
  "('v, 'm) ca_env_scheme \<Rightarrow> x509_req \<Rightarrow> int option \<Rightarrow> certificate_bundle
     \<Rightarrow> ('v, certificate_bundle \<times> string \<times> string \<times> string list) ca_comp" where
  "sign_bundle env csr days bundle =
     vbind (issue_certificate env csr (bd_cert_type bundle) days) (\<lambda>(cert, warnings).
     vbind (vlift (update_certificate cert bundle)) (\<lambda>bundle.
     vbind (vlift (attrib env bundle ''serial'')) (\<lambda>new_serial.
     vbind (vlift (attrib env bundle ''cn'')) (\<lambda>cn.
       vret (bundle\<lparr> bd_title := crt_title new_serial cn \<rparr>, new_serial, cn, warnings)))))"

definition find_cert :: "cert_lookup \<Rightarrow> bool \<Rightarrow> ('v, cert_record) ca_comp" where
  "find_cert l valid_only =
     vbind the_db (\<lambda>db. vlift (ok_or (CertificateNotFound (debug_lookup l)) (query_cert l valid_only db)))"

definition bundle_of_row :: "('v, 'm) ca_env_scheme \<Rightarrow> string \<Rightarrow> ('v, certificate_bundle) ca_comp" where
  "bundle_of_row env title = vbind (retrieve_certbundle env title) (\<lambda>b. vlift (ok_or (CertificateNotFound title) b))"

definition renew_certificate_bundle :: "('v, 'm) ca_env_scheme \<Rightarrow> cert_lookup \<Rightarrow> int option \<Rightarrow> ('v, renewal) ca_comp" where
  "renew_certificate_bundle env l days =
     vbind (find_cert l True) (\<lambda>r.
     vbind (vlift (ok_or (CertificateNotFound ''No title'') (cr_title r))) (\<lambda>item_title.
       if cr_status r = Some ''Revoked'' then vfail (OtherErr ''Cannot renew a revoked certificate'')
       else
         vbind (bundle_of_row env item_title) (\<lambda>bundle.
         vbind (vlift (req_of_bundle env (OtherErr (''CSR not found for certificate '' @ quote item_title @ ''; cannot renew.''))
                  bundle)) (\<lambda>csr.
         vbind (sign_bundle env csr days bundle) (\<lambda>(bundle, new_serial, cn, warnings).
         vbind (store_certbundle_for env bundle None None False) (\<lambda>_.
         vbind (auto_ignore_predecessor env (cr_serial r) new_serial Renewed) (\<lambda>_.
         vbind (vlift (certificate_pem bundle)) (\<lambda>pem.
         vbind (if cr_published_at r \<noteq> None
                then vbind (attempt (upload_published env new_serial cn pem)) (\<lambda>x. vret (Some x)) else vret None) (\<lambda>republished.
         vbind (store_ca_database env) (\<lambda>_.
           vret \<lparr> rn_pem = pem, rn_serial = new_serial, rn_warnings = warnings, rn_republished = republished \<rparr>))))))))))"

definition rekey_certificate_bundle ::
  "('v, 'm) ca_env_scheme \<Rightarrow> cert_lookup \<Rightarrow> key_algorithm option \<Rightarrow> int option
     \<Rightarrow> ('v, string \<times> string \<times> string list) ca_comp" where
  "rekey_certificate_bundle env l algorithm days =
     vbind (find_cert l False) (\<lambda>r.
     vbind (vlift (ok_or (CertificateNotFound ''No title'') (cr_title r))) (\<lambda>item_title.
     vbind (bundle_of_row env item_title) (\<lambda>bundle.
     vbind (vlift (case regenerate_key_and_csr (e_crypto env) (e_seed env) algorithm bundle of
              (Ok _, b) \<Rightarrow> Ok b | (Err e, b) \<Rightarrow> Err e | (Panic p, b) \<Rightarrow> Panic p)) (\<lambda>bundle.
     vbind (vlift (req_of_bundle env (OtherErr ''CSR not available after rekeying'') bundle)) (\<lambda>csr.
     vbind (sign_bundle env csr days bundle) (\<lambda>(bundle, new_serial, cn, warnings).
     vbind (store_certbundle_for env bundle None None False) (\<lambda>_.
     vbind (auto_ignore_predecessor env (cr_serial r) new_serial Rekeyed) (\<lambda>_.
     vbind (store_ca_database env) (\<lambda>_.
     vbind (vlift (certificate_pem bundle)) (\<lambda>pem. vret (pem, new_serial, warnings)))))))))))"

section \<open>Revoking, ignoring, deleting\<close>

definition scan_db :: "('v, 'm) ca_env_scheme \<Rightarrow> string option \<Rightarrow> bool \<Rightarrow> ca_db \<Rightarrow> ca_db res" where
  "scan_db env revoke force db =
     rmap snd (process_ca_database (e_chrono env) (e_now env) (stamp_of env) revoke force db)"

definition revoke_certificate :: "('v, 'm) ca_env_scheme \<Rightarrow> cert_lookup \<Rightarrow> ('v, bool) ca_comp" where
  "revoke_certificate env l =
     vbind (find_cert l True) (\<lambda>cert.
     vbind (on_db (scan_db env (Some (cr_serial cert)) False)) (\<lambda>_.
     vbind (on_db (\<lambda>db. Ok (revoke_brokers_of (stamp_of env) (cr_serial cert) db))) (\<lambda>_.
     vbind (store_ca_database env) (\<lambda>_. vret True))))"

definition ignore_certificate :: "('v, 'm) ca_env_scheme \<Rightarrow> string \<Rightarrow> string option \<Rightarrow> ('v, unit) ca_comp" where
  "ignore_certificate env serial reason_note =
     vbind (on_db (ignore_cert (stamp_of env) serial Manual (e_user env) reason_note)) (\<lambda>_. store_ca_database env)"

definition unignore_certificate :: "('v, 'm) ca_env_scheme \<Rightarrow> string \<Rightarrow> ('v, unit) ca_comp" where
  "unignore_certificate env serial = vbind (on_db (unignore_cert serial)) (\<lambda>_. store_ca_database env)"

text \<open>Archiving an item: one that is not there is no failure.\<close>

definition archive_item :: "('v, 'm) ca_env_scheme \<Rightarrow> string \<Rightarrow> ('v, unit) ca_comp" where
  "archive_item env title s =
     (case v_delete_item (e_ops env) (ItemTitle title) (s_out s) of
        (Inr _, v) \<Rightarrow> (Ok (), s\<lparr> s_out := v \<rparr>)
      | (Inl (OpItemNotFound m), v) \<Rightarrow> (Ok (), s\<lparr> s_out := v \<rparr>)
      | (Inl e, v) \<Rightarrow> (Err (opca_error_from_op e), s\<lparr> s_out := v \<rparr>))"

definition delete_certificate :: "('v, 'm) ca_env_scheme \<Rightarrow> string \<Rightarrow> ('v, cert_record) ca_comp" where
  "delete_certificate env serial =
     vbind (gets (\<lambda>s. ok_or CaNotFound (s_db s))) (\<lambda>_.
     vbind (on_db (scan_db env None True)) (\<lambda>_.
     vbind the_db (\<lambda>db.
     vbind (vlift (ok_or (CertificateNotFound serial)
              (case query_cert (BySerial serial) False db of
                 Some c \<Rightarrow> if cr_deleted_at c = None then Some c else None | None \<Rightarrow> None))) (\<lambda>cert.
       if cr_cert_type cert = Some ''ca'' then vfail (OtherErr ''The CA certificate cannot be deleted'')
       else if cr_status cert \<noteq> Some ''Revoked'' \<and> cr_status cert \<noteq> Some ''Expired''
       then vfail (OtherErr (''Certificate '' @ serial @ '' is still valid; revoke it before deleting''))
       else
         vbind (case cr_title cert of Some title \<Rightarrow> archive_item env title | None \<Rightarrow> vret ()) (\<lambda>_.
         vbind (if cr_ignored_at cert = None
                then on_db (ignore_cert (stamp_of env) serial Deleted (e_user env) None) else vret ()) (\<lambda>_.
         vbind (on_db (mark_cert_deleted (stamp_of env) serial)) (\<lambda>_.
         vbind (store_ca_database env) (\<lambda>_. vret cert))))))))"

definition ca_delete_csr :: "('v, 'm) ca_env_scheme \<Rightarrow> int \<Rightarrow> ('v, csr_record) ca_comp" where
  "ca_delete_csr env i =
     vbind (gets (\<lambda>s. ok_or CaNotFound (s_db s))) (\<lambda>db.
     vbind (vlift (ok_or (CsrNotFound (int_to_string i)) (query_csr (CsrById i) db))) (\<lambda>r.
       let title = (case sr_title r of Some t \<Rightarrow> t | None \<Rightarrow> ''CSR_'' @ or_empty (sr_cn r))
       in vbind (if sr_status r = Some ''Pending'' then archive_item env title else vret ()) (\<lambda>_.
          vbind (on_db (\<lambda>db. Ok (snd (delete_csr i db)))) (\<lambda>_.
          vbind (store_ca_database env) (\<lambda>_. vret r)))))"

definition rename_certbundle :: "('v, 'm) ca_env_scheme \<Rightarrow> string \<Rightarrow> string \<Rightarrow> bool \<Rightarrow> ('v, unit) ca_comp" where
  "rename_certbundle env src_title dst_title persist =
     vbind the_db (\<lambda>db.
     vbind (vlift (ok_or (CertificateNotFound src_title) (query_cert (ByTitle src_title) False db))) (\<lambda>r.
     vbind (outside (call (v_rename_item (e_ops env) (ItemTitle src_title) dst_title))) (\<lambda>_.
     vbind (on_db (update_cert (r\<lparr> cr_title := Some dst_title \<rparr>))) (\<lambda>_.
       if persist then store_ca_database env else vret ()))))"

section \<open>The CRL\<close>

definition build_crl ::
  "('v, 'm) ca_env_scheme \<Rightarrow> x509 \<Rightarrow> pkey \<Rightarrow> int \<Rightarrow> int \<Rightarrow> int \<Rightarrow> crl_entry list \<Rightarrow> string res" where
  "build_crl env ca_cert ca_key crl_number this_upd next_upd entries =
     rbind (rmap_all (\<lambda>entry.
              rbind (parse_datetime (e_chrono env) (ce_revocation_date entry) Openssl) (\<lambda>revoked_at.
                rmap (\<lambda>serial. (serial, revoked_at)) (e_serial env (ce_serial entry)))) entries) (\<lambda>revoked.
       if crl_number < 0 then Err (Crypto (''CRL number '' @ int_to_string crl_number @ '' is negative''))
       else e_crl env ca_cert ca_key (nat crl_number) this_upd next_upd revoked)"

definition parse_crl_metadata :: "('v, 'm) ca_env_scheme \<Rightarrow> string \<Rightarrow> crl_metadata res" where
  "parse_crl_metadata env pem =
     rmap (crl_metadata_of (e_chrono env)) (crypto_err ''Failed to parse CRL PEM'' (e_crl_view env pem))"

definition crl_plan :: "('v, 'm) ca_env_scheme \<Rightarrow> ca_config \<Rightarrow> string option \<Rightarrow> int \<Rightarrow> crl_batch" where
  "crl_plan env config batch_uri first_number =
     \<lparr> cb_t0 = e_now env div second_ns * second_ns, cb_period_days = crl_batch_period_days,
       cb_window_days = (if batch_uri \<noteq> None then crl_batch_window_days
                         else (case cf_crl_days config of Some d \<Rightarrow> d | None \<Rightarrow> 30)),
       cb_count = (if batch_uri \<noteq> None then crl_batch_size else 1), cb_first_number = first_number \<rparr>"

definition build_batch :: "('v, 'm) ca_env_scheme \<Rightarrow> x509 \<Rightarrow> pkey \<Rightarrow> crl_batch \<Rightarrow> crl_entry list \<Rightarrow> string list res" where
  "build_batch env ca_cert ca_key batch entries =
     rmap_all (\<lambda>i. build_crl env ca_cert ca_key (wrap_i64 (cb_first_number batch + i)) (batch_this_update batch i)
                 (batch_next_update batch i) entries) [0 .. cb_count batch - 1]"

text \<open>What signing a CRL leaves in the database: the counter past the batch, the batch itself, the metadata.\<close>

definition record_crl :: "('v, 'm) ca_env_scheme \<Rightarrow> string option \<Rightarrow> crl_batch \<Rightarrow> ca_db \<Rightarrow> ca_db" where
  "record_crl env batch_uri batch db =
     (if batch_uri \<noteq> None then
        upsert_crl_batch (e_chrono env) batch
          (update_config (empty_config\<lparr> cf_next_crl_serial := Some (wrap_i64 (cb_first_number batch + cb_count batch)) \<rparr>) db)
      else clear_crl_batch db)"

definition upload_batch :: "('v, 'm) ca_env_scheme \<Rightarrow> string option \<Rightarrow> string list \<Rightarrow> ('v, unit) ca_comp" where
  "upload_batch env batch_uri crls =
     (case batch_uri of
        None \<Rightarrow> vret ()
      | Some uri \<Rightarrow>
          vbind (attempt (upload_content env (concat crls) uri Private)) (\<lambda>r. case r of
             Err e \<Rightarrow> vfail (CrlBatchUpload (display_error e)) | _ \<Rightarrow> vlift r))"

definition generate_crl :: "('v, 'm) ca_env_scheme \<Rightarrow> ('v, string) ca_comp" where
  "generate_crl env =
     vbind (on_db (scan_db env None False)) (\<lambda>_.
     vbind the_config (\<lambda>config.
     vbind (vlift (crl_batch_uri config)) (\<lambda>batch_uri.
     vbind (gets (\<lambda>s. ok_or CaNotFound (s_bundle s))) (\<lambda>ca_bundle.
     vbind (vlift (ok_or CaNotFound (bd_certificate ca_bundle))) (\<lambda>ca_cert.
     vbind (vlift (ok_or (Crypto ''CA private key not available'') (bd_private_key ca_bundle))) (\<lambda>ca_key.
     vbind the_db (\<lambda>db.
       let entries = crl_entries (e_order env) db
       in vbind (run_db (increment_serial CrlSerial None)) (\<lambda>first_number.
          let batch = crl_plan env config batch_uri first_number
          in vbind (vlift (build_batch env ca_cert ca_key batch entries)) (\<lambda>crls.
             vbind (on_db (\<lambda>db. Ok (record_crl env batch_uri batch db))) (\<lambda>_.
             vbind (vlift (case crls of c # _ \<Rightarrow> Ok c | [] \<Rightarrow> Panic ''index out of bounds'')) (\<lambda>crl.
             vbind (vlift (parse_crl_metadata env crl)) (\<lambda>metadata.
             vbind (on_db (\<lambda>db. Ok (upsert_crl_metadata metadata db))) (\<lambda>_.
             vbind (outside (put_document (e_ops env) crl_title crl_filename crl)) (\<lambda>_.
             vbind (\<lambda>s. (Ok (), s\<lparr> s_crl := Some crl \<rparr>)) (\<lambda>_.
             vbind (store_ca_database env) (\<lambda>_.
             vbind (upload_batch env batch_uri crls) (\<lambda>_. vret crl)))))))))))))))))"

definition get_crl :: "('v, 'm) ca_env_scheme \<Rightarrow> ('v, string option) ca_comp" where
  "get_crl env s =
     (case s_crl s of
        Some c \<Rightarrow> (Ok (Some c), s)
      | None \<Rightarrow>
          (case outside (document_text (e_ops env) crl_title) s of
             (Ok text, s') \<Rightarrow> (Ok (Some text), s'\<lparr> s_crl := Some text \<rparr>)
           | (_, s') \<Rightarrow> (Ok None, s')))"

section \<open>The CA certificate\<close>

definition ca_is_valid :: "('v, 'm) ca_env_scheme \<Rightarrow> ('v, bool) ca_comp" where
  "ca_is_valid env =
     vbind (gets (\<lambda>s. ok_or CaNotFound (s_bundle s))) (\<lambda>b. vlift (bundle_is_valid (e_crypto env) (e_now env) b))"

definition check_ca_expiry :: "('v, 'm) ca_env_scheme \<Rightarrow> 'v ca_state \<Rightarrow> ca_expiry_warning" where
  "check_ca_expiry env s =
     (case s_bundle s of
        None \<Rightarrow> NoCaWarning
      | Some bundle \<Rightarrow>
          (case get_certificate_attrib (e_chrono env) (e_crypto env) bundle ''not_after'' of
             Ok (Some not_after) \<Rightarrow>
               (case parse_datetime (e_chrono env) not_after Openssl of
                  Ok t \<Rightarrow>
                    (let lifetime = Option.bind (s_db s) (\<lambda>db. Option.bind (res_ok (get_config db)) cf_days)
                     in assess_ca_expiry t (case lifetime of Some d \<Rightarrow> d | None \<Rightarrow> 365) (e_now env))
                | _ \<Rightarrow> NoCaWarning)
           | _ \<Rightarrow> NoCaWarning))"

text \<open>Re-signing: the bundle is replaced first and stays replaced when a later step fails.\<close>

definition ca_re_sign :: "('v, 'm) ca_env_scheme \<Rightarrow> int \<Rightarrow> ('v, unit) ca_comp" where
  "ca_re_sign env days =
     vbind (gets (\<lambda>s. ok_or CaNotFound (s_bundle s))) (\<lambda>b.
     vbind (vlift (re_sign_ca (e_crypto env) (e_now env) days b)) (\<lambda>bundle.
     vbind (\<lambda>s. (Ok (), s\<lparr> s_bundle := Some bundle \<rparr>)) (\<lambda>_.
     vbind (vlift (certificate_pem bundle)) (\<lambda>cert_pem.
     vbind (vlift (attrib env bundle ''not_before'')) (\<lambda>not_before.
     vbind (vlift (attrib env bundle ''not_after'')) (\<lambda>not_after.
     vbind (vlift (rmap_all (\<lambda>(l, x). assign (e_ops env) l x)
              [(''certificate'', cert_pem), (''not_before[text]'', openssl_to_text (e_chrono env) not_before),
               (''not_after[text]'', openssl_to_text (e_chrono env) not_after)])) (\<lambda>flds.
     vbind (outside (call (v_edit_item (e_ops env) (ItemTitle ca_title) flds))) (\<lambda>_.
       store_ca_database env))))))))"

section \<open>Rebuilding the database\<close>

record scanned =
  sc_cert :: x509
  sc_title :: string
  sc_type :: cert_type

fun scan_items ::
  "('v, 'm) ca_env_scheme \<Rightarrow> op_item list \<Rightarrow> (string \<times> scanned) list \<Rightarrow> int
     \<Rightarrow> ('v, (string \<times> scanned) list \<times> int) ca_comp" where
  "scan_items env [] found max_serial = vret (found, max_serial)"
| "scan_items env (item # items) found max_serial =
     vbind (retrieve_certbundle env (it_title item)) (\<lambda>b. case b of
        None \<Rightarrow> scan_items env items found max_serial
      | Some bundle \<Rightarrow>
          vbind (vlift (attrib env bundle ''serial'')) (\<lambda>serial.
            if serial \<in> fst ` set found then vfail (DuplicateCertificate (''Duplicate serial '' @ serial))
            else
              vbind (vlift (case bd_certificate bundle of Some c \<Rightarrow> Ok c
                 | None \<Rightarrow> Panic ''called `Option::unwrap()` on a `None` value'')) (\<lambda>cert.
                scan_items env items
                  (found @ [(serial, \<lparr> sc_cert = cert, sc_title = it_title item, sc_type = bd_cert_type bundle \<rparr>)])
                  (case parse_i64 serial of Some n \<Rightarrow> max n max_serial | None \<Rightarrow> max_serial))))"

definition add_scanned :: "('v, 'm) ca_env_scheme \<Rightarrow> string \<times> scanned \<Rightarrow> ('v, unit) ca_comp" where
  "add_scanned env = (\<lambda>(serial, sc).
     vbind (vlift (case xc_pem (sc_cert sc) of Inr pem \<Rightarrow> Ok pem | Inl e \<Rightarrow> Err (Crypto e))) (\<lambda>pem.
     vbind (vlift (import_bundle (e_crypto env) (sc_type sc) (sc_title sc) pem None None None empty_bundle_config)) (\<lambda>bundle.
     vbind (vlift (format_db_item (e_chrono env) (e_crypto env) (e_now env) bundle (sc_title sc))) (\<lambda>r.
       on_db (add_cert r)))))"

definition raise_next_serial :: "int \<Rightarrow> ca_db \<Rightarrow> ca_db res" where
  "raise_next_serial max_serial db =
     rbind (get_config db) (\<lambda>config.
       if max_serial < (case cf_next_serial config of Some n \<Rightarrow> n | None \<Rightarrow> 0) then Ok db
       else Ok (update_config (empty_config\<lparr> cf_next_serial := Some (wrap_i64 (max_serial + 1)) \<rparr>) db))"

definition do_rebuild_database :: "('v, 'm) ca_env_scheme \<Rightarrow> ('v, int) ca_comp" where
  "do_rebuild_database env =
     vbind (outside (call (e_items env category_item))) (\<lambda>items.
     vbind (scan_items env items [] 0) (\<lambda>(found, max_serial).
     vbind (each_comp (add_scanned env) (sort_key fst found)) (\<lambda>_.
     vbind (on_db (raise_next_serial max_serial)) (\<lambda>_.
     vbind (store_ca_database env) (\<lambda>_.
     vbind the_db (\<lambda>db. vret (count_certs db)))))))"

definition rebuild_database :: "('v, 'm) ca_env_scheme \<Rightarrow> ca_config \<Rightarrow> ('v, unit) ca_comp" where
  "rebuild_database env config =
     vbind (exists_item env ca_title) (\<lambda>ca_there.
       if \<not> ca_there then vfail CaNotFound
       else vbind (exists_item env ca_database_title) (\<lambda>db_there.
         if db_there then vfail CaAlreadyExists
         else
           vbind (retrieve_certbundle env ca_title) (\<lambda>b.
           vbind (vlift (ok_or CaNotFound b)) (\<lambda>bundle.
             let bc = bd_config bundle;
                 db = update_config (empty_config\<lparr> cf_org := bc_org bc, cf_ou := bc_ou bc, cf_email := bc_email bc,
                        cf_city := bc_city bc, cf_state := bc_state bc, cf_country := bc_country bc \<rparr>) (db_new config)
             in vbind (become bundle db) (\<lambda>_.
                vbind (do_rebuild_database env) (\<lambda>_. vret ()))))))"

section \<open>Testing the stores\<close>

definition is_s3 :: "string option \<Rightarrow> bool" where
  "is_s3 uri = (case uri of Some u \<Rightarrow> starts_with ''s3://'' u | None \<Rightarrow> False)"

definition test_store :: "('v, 'm) ca_env_scheme \<Rightarrow> aws_credentials option \<Rightarrow> string \<Rightarrow> ('v, string) ca_comp" where
  "test_store env creds uri =
     (case storage_from_uri_with_creds uri creds of
        Ok backend \<Rightarrow> vbind (attempt (outside (e_test_connection env backend uri))) (\<lambda>r.
          vret (case r of Err e \<Rightarrow> display_error e | _ \<Rightarrow> ''ok''))
      | Err e \<Rightarrow> vret (display_error e)
      | Panic p \<Rightarrow> vlift (Panic p))"

fun test_each ::
  "('v, 'm) ca_env_scheme \<Rightarrow> aws_credentials option \<Rightarrow> (string \<times> string option) list
     \<Rightarrow> ('v, (string \<times> string) list) ca_comp" where
  "test_each env creds [] = vret []"
| "test_each env creds ((name, uri) # stores) =
     (case uri of
        Some u \<Rightarrow> if u = [] then test_each env creds stores
          else vbind (test_store env creds u) (\<lambda>r. vbind (test_each env creds stores) (\<lambda>rs. vret ((name, r) # rs)))
      | None \<Rightarrow> test_each env creds stores)"

definition test_stores :: "('v, 'm) ca_env_scheme \<Rightarrow> ('v, (string \<times> string) list) ca_comp" where
  "test_stores env =
     vbind the_config (\<lambda>config.
       let stores = [(''public'', cf_ca_public_store config), (''private'', cf_ca_private_store config),
                     (''backup'', cf_ca_backup_store config)]
       in if list_ex (\<lambda>(_, uri). is_s3 uri) stores then
            vbind (attempt (get_aws_credentials env (cf_ca_aws_region config))) (\<lambda>r. case r of
               Ok creds \<Rightarrow> test_each env (Some creds) stores
             | Err e \<Rightarrow> vret (map (\<lambda>(name, _). (name, display_error e)) (filter (\<lambda>(_, uri). is_s3 uri) stores))
             | Panic p \<Rightarrow> vlift (Panic p))
          else test_each env None stores)"

definition csr_item_fields :: "('v, 'm) ca_env_scheme \<Rightarrow> cert_type \<Rightarrow> string \<Rightarrow> string \<Rightarrow> string \<Rightarrow> assignment list res" where
  "csr_item_fields env ct cn key_pem csr =
     rmap_all (\<lambda>(l, x). assign (e_ops env) l x)
       [(''type[text]'', display_cert_type ct), (''cn[text]'', cn), (''private_key'', key_pem),
        (''certificate_signing_request'', csr)]"

end
