(* ===== verification/Ca_Subordinate.thy ===== *)
theory Ca_Subordinate
  imports Ca_Ops
begin

text \<open>
  Subordinate CAs and the operator's identity, from \<^verbatim>\<open>crates/opca-core/src/services/ca/subordinate.rs\<close> and
  \<^verbatim>\<open>ca/operator.rs\<close>: signing a broker's CSR as a name-constrained CA, renewing and revoking it, and the
  one-day client certificate opCA presents to a broker. A broker's endpoint is its URL and key pin.
\<close>

record signed_subordinate =
  ss_broker :: broker
  ss_cert_pem :: string

definition signed_serial :: "('v, 'm) ca_env_scheme \<Rightarrow> certificate_bundle \<Rightarrow> string res" where
  "signed_serial env bundle =
     rbind (get_certificate_attrib (e_chrono env) (e_crypto env) bundle ''serial'') (\<lambda>s.
       ok_or (InvalidCertificate ''Signed certificate has no serial'') s)"

definition the_broker :: "('v, 'm) ca_env_scheme \<Rightarrow> int \<Rightarrow> ('v, broker) ca_comp" where
  "the_broker env i =
     vbind the_db (\<lambda>db.
     vbind (vlift (query_broker (e_json env) i db)) (\<lambda>b.
       vlift (ok_or (CertificateNotFound (''subordinate '' @ int_to_string i)) b)))"

definition active_broker :: "('v, 'm) ca_env_scheme \<Rightarrow> int \<Rightarrow> ('v, broker) ca_comp" where
  "active_broker env i =
     vbind (the_broker env i) (\<lambda>b.
       if br_state b = RevokedBroker then vfail (CertificateRevoked (''subordinate '' @ int_to_string i)) else vret b)"

definition list_subordinates :: "('v, 'm) ca_env_scheme \<Rightarrow> ('v, broker list) ca_comp" where
  "list_subordinates env = vbind the_db (\<lambda>db. vlift (query_all_brokers (e_json env) db))"

definition subordinate_days :: "('v, 'm) ca_env_scheme \<Rightarrow> int option \<Rightarrow> ('v, int) ca_comp" where
  "subordinate_days env requested =
     vbind (cert_days SubordinateCa requested) (\<lambda>days.
     vbind (ca_not_after env) (\<lambda>root_not_after.
       if e_now env + days * day_ns > root_not_after
       then vfail (InvalidCertificate (''A '' @ int_to_string days @ ''-day subordinate would outlive the root CA, which expires ''
              @ format_datetime (e_chrono env) root_not_after TextFormat))
       else vret days))"

definition parse_request :: "('v, 'm) ca_env_scheme \<Rightarrow> string \<Rightarrow> x509_req res" where
  "parse_request env csr =
     (case req_from_pem (e_crypto env) csr of
        Inr r \<Rightarrow> Ok r | Inl _ \<Rightarrow> invalid_err ''Failed to parse CSR'' (e_req_from_der env csr))"

definition openssl_pem :: "string + 'a \<Rightarrow> 'a res" where
  "openssl_pem r = (case r of Inr x \<Rightarrow> Ok x | Inl e \<Rightarrow> Err (Crypto e))"

definition subordinate_profile :: "string list \<Rightarrow> ca_config \<Rightarrow> profile" where
  "subordinate_profile domains config =
     (profile_for SubordinateCa False config)\<lparr> pf_name_constraints := Some (True, name_constraints_of domains) \<rparr>"

definition issue_subordinate ::
  "('v, 'm) ca_env_scheme \<Rightarrow> string \<Rightarrow> string list \<Rightarrow> int option \<Rightarrow> ('v, certificate_bundle) ca_comp" where
  "issue_subordinate env csr domains days =
     vbind (vlift (parse_request env csr)) (\<lambda>request.
     vbind (vlift (verified_csr env request)) (\<lambda>csr.
     vbind (vlift (check_requested_names (sr_view csr) domains)) (\<lambda>_.
     vbind (vlift (ok_or (InvalidCertificate ''The CSR has no common name'') (csr_common_name (sr_view csr)))) (\<lambda>cn.
     vbind (subordinate_days env days) (\<lambda>days.
     vbind the_config (\<lambda>config.
     vbind (issue env csr (subordinate_profile domains config) days) (\<lambda>cert.
     vbind (vlift (openssl_pem (xc_pem cert))) (\<lambda>cert_pem.
     vbind (vlift (ok_or (Crypto []) (rq_pem request))) (\<lambda>request_pem.
     vbind (vlift (import_bundle (e_crypto env) SubordinateCa cn cert_pem None (Some request_pem) None empty_bundle_config))
       (\<lambda>bundle.
     vbind (vlift (signed_serial env bundle)) (\<lambda>serial.
       let bundle = bundle\<lparr> bd_title := crt_title serial cn \<rparr>
       in vbind (store_certbundle_for env bundle None None False) (\<lambda>_. vret bundle))))))))))))"

definition signed :: "('v, 'm) ca_env_scheme \<Rightarrow> int \<Rightarrow> certificate_bundle \<Rightarrow> ('v, signed_subordinate) ca_comp" where
  "signed env i bundle =
     vbind (the_broker env i) (\<lambda>b.
     vbind (vlift (certificate_pem bundle)) (\<lambda>pem. vret \<lparr> ss_broker = b, ss_cert_pem = pem \<rparr>))"

definition sign_subordinate_at ::
  "('v, 'm) ca_env_scheme \<Rightarrow> string \<Rightarrow> string list \<Rightarrow> int option \<Rightarrow> (string \<times> string) option
     \<Rightarrow> ('v, signed_subordinate) ca_comp" where
  "sign_subordinate_at env csr domains days endpoint =
     vbind (vlift (permitted_domains domains)) (\<lambda>domains.
     vbind (issue_subordinate env csr domains days) (\<lambda>bundle.
     vbind (vlift (signed_serial env bundle)) (\<lambda>serial.
     vbind (run_db (\<lambda>db. Ok (add_broker (e_json env) (stamp_of env) serial domains db))) (\<lambda>i.
     vbind (case endpoint of
              Some (url, pin) \<Rightarrow> on_db (\<lambda>db. Ok (set_broker_endpoint (stamp_of env) i url pin db)) | None \<Rightarrow> vret ()) (\<lambda>_.
     vbind (store_ca_database env) (\<lambda>_. signed env i bundle))))))"

definition sign_subordinate ::
  "('v, 'm) ca_env_scheme \<Rightarrow> string \<Rightarrow> string list \<Rightarrow> int option \<Rightarrow> ('v, signed_subordinate) ca_comp" where
  "sign_subordinate env csr domains days = sign_subordinate_at env csr domains days None"

text \<open>The domains a renewal is for: those of the row, unless a change of them is confirmed.\<close>

definition renewal_domains :: "int \<Rightarrow> broker \<Rightarrow> string list option \<Rightarrow> bool \<Rightarrow> string list res" where
  "renewal_domains i broker domains change_domains =
     (case domains of
        None \<Rightarrow> Ok (br_permitted_domains broker)
      | Some requested \<Rightarrow>
          rbind (permitted_domains requested) (\<lambda>requested.
            if \<not> same_domains requested (br_permitted_domains broker) \<and> \<not> change_domains
            then Err (OtherErr (''Subordinate '' @ int_to_string i @ '' is limited to ''
                   @ join '', '' (br_permitted_domains broker) @ ''; renewing it for '' @ join '', '' requested
                   @ '' needs the change confirmed''))
            else Ok requested))"

definition renew_subordinate ::
  "('v, 'm) ca_env_scheme \<Rightarrow> int \<Rightarrow> string \<Rightarrow> string list option \<Rightarrow> bool \<Rightarrow> int option
     \<Rightarrow> ('v, signed_subordinate) ca_comp" where
  "renew_subordinate env i csr domains change_domains days =
     vbind (active_broker env i) (\<lambda>broker.
     vbind (vlift (renewal_domains i broker domains change_domains)) (\<lambda>domains.
     vbind (issue_subordinate env csr domains days) (\<lambda>bundle.
     vbind (vlift (signed_serial env bundle)) (\<lambda>new_serial.
     vbind (auto_ignore_predecessor env (br_subordinate_serial broker) new_serial Renewed) (\<lambda>_.
     vbind (on_db (\<lambda>db. Ok (move_broker_to (e_json env) (stamp_of env) i new_serial domains db))) (\<lambda>_.
     vbind (store_ca_database env) (\<lambda>_. signed env i bundle)))))))"

definition revoke_subordinate :: "('v, 'm) ca_env_scheme \<Rightarrow> int \<Rightarrow> ('v, broker) ca_comp" where
  "revoke_subordinate env i =
     vbind (active_broker env i) (\<lambda>broker.
     vbind (revoke_certificate env (BySerial (br_subordinate_serial broker))) (\<lambda>_. the_broker env i))"

section \<open>The operator\<close>

definition operator_title :: string where "operator_title = ''CA_Operator''"
definition operator_cn :: string where "operator_cn = ''opCA operator''"
definition operator_lifetime :: int where "operator_lifetime = 24 * 60 * 60 * second_ns"
definition clock_skew :: int where "clock_skew = 5 * 60 * second_ns"

definition operator_key :: "('v, 'm) ca_env_scheme \<Rightarrow> ('v, pkey) ca_comp" where
  "operator_key env s =
     (case v_item (e_ops env) (ItemTitle operator_title) (s_out s) of
        (Inr item, v) \<Rightarrow>
          (rbind (ok_or (Crypto (operator_title @ '' has no private key'')) (e_field env item ''private_key'')) (\<lambda>pem.
             openssl_pem (key_from_pem (e_crypto env) pem None)), s\<lparr> s_out := v \<rparr>)
      | (Inl (OpItemNotFound m), v) \<Rightarrow>
          vbind (vlift (generate_private_key (e_crypto env) (e_seed env) EcP256)) (\<lambda>key.
          vbind (vlift (openssl_pem (ky_pem key))) (\<lambda>pem.
          vbind (vlift (assign (e_ops env) ''private_key'' pem)) (\<lambda>field.
          vbind (outside (call (v_create_item (e_ops env) operator_title category_item [field]))) (\<lambda>_. vret key))))
            (s\<lparr> s_out := v \<rparr>)
      | (Inl e, v) \<Rightarrow> (Err (opca_error_from_op e), s\<lparr> s_out := v \<rparr>))"

text \<open>The certificate and key opCA presents; \<open>serial\<close> is the random serial number.\<close>

definition operator_identity :: "('v, 'm) ca_env_scheme \<Rightarrow> int \<Rightarrow> ('v, x509 \<times> pkey) ca_comp" where
  "operator_identity env serial =
     vbind (operator_key env) (\<lambda>key.
     vbind (gets (\<lambda>s. ok_or not_initialised (s_bundle s))) (\<lambda>ca.
     vbind (vlift (ok_or CaNotFound (bd_certificate ca))) (\<lambda>root.
     vbind (vlift (ok_or (Crypto ''CA private key not available'') (bd_private_key ca))) (\<lambda>root_key.
     vbind (vlift (csr_of (e_crypto env) key \<lparr> sj_common_name = operator_cn, sj_country = None, sj_state = None,
              sj_locality = None, sj_organisation = None, sj_organisational_unit = None, sj_email = None \<rparr> [])) (\<lambda>request.
     vbind (vlift (openssl_pem (e_verify_csr env request))) (\<lambda>csr.
     vbind (vlift (e_issue env root root_key csr (profile_for VpnClient False empty_config) serial
              (e_now env - clock_skew) (e_now env + operator_lifetime))) (\<lambda>cert. vret (cert, key))))))))"

end
