(* ===== verification/Broker_Client.thy ===== *)
theory Broker_Client
  imports Broker_Api Ca_Subordinate
begin

text \<open>
  opCA's client of its ACME brokers, from \<^verbatim>\<open>crates/opca-core/src/services/acme_broker\<close>: one HTTPS call,
  the pages of issued certificates, recording what a broker reports, enrolment, renewal and revocation.
  The connection (TLS, HTTP), JSON and the pairing string's form are parameters; the brokers are part of
  the outside world that the certificate authority's operations run in.
\<close>

section \<open>Endpoints\<close>

record endpoint =
  ep_host :: string
  ep_port :: nat
  ep_pin :: string

record pairing =
  pa_host :: string
  pa_port :: nat
  pa_pin :: string
  pa_code :: string

text \<open>A client certificate, its key and the pin of the key.\<close>

record operator =
  op_chain :: "x509 list"
  op_key :: pkey
  op_pin :: string

definition of_pairing :: "pairing \<Rightarrow> endpoint" where
  "of_pairing p = \<lparr> ep_host = pa_host p, ep_port = pa_port p, ep_pin = pa_pin p \<rparr>"

text \<open>\<^verbatim>\<open>str::rsplit_once\<close> at a character: the text before and after its last occurrence.\<close>

definition rsplit_once :: "char \<Rightarrow> string \<Rightarrow> (string \<times> string) option" where
  "rsplit_once c s =
     (if c \<in> set s
      then let after = rev (takeWhile (\<lambda>x. x \<noteq> c) (rev s)) in Some (take (length s - length after - 1) s, after)
      else None)"

text \<open>\<^verbatim>\<open>str::parse::<u16>\<close>, which takes no minus sign.\<close>

definition parse_u16 :: "string \<Rightarrow> nat option" where
  "parse_u16 s = Option.bind (parse_u64 s) (\<lambda>n. if n < 2 ^ 16 then Some n else None)"

definition unbracketed :: "string \<Rightarrow> string" where
  "unbracketed host = (case Option.bind (strip_prefix ''['' host) (strip_suffix '']'') of Some h \<Rightarrow> h | None \<Rightarrow> host)"

text \<open>The pin's reader is the pairing library's.\<close>

definition of_broker :: "(string \<Rightarrow> string option) \<Rightarrow> broker \<Rightarrow> endpoint res" where
  "of_broker parse_pin b =
     (case (br_url b, br_pinned_key b) of
        (Some url, Some pin) \<Rightarrow>
          (let unreadable = Err (OtherErr (''Broker '' @ int_to_string (br_id b) @ '' has an unreadable URL '' @ url))
           in case Option.bind (strip_prefix ''https://'' url) (rsplit_once CHR '':'') of
                None \<Rightarrow> unreadable
              | Some (host, port) \<Rightarrow>
                  (case (parse_u16 port, parse_pin pin) of
                     (Some p, Some k) \<Rightarrow> Ok \<lparr> ep_host = unbracketed host, ep_port = p, ep_pin = k \<rparr>
                   | _ \<Rightarrow> unreadable))
      | _ \<Rightarrow> Err (OtherErr (''Subordinate '' @ int_to_string (br_id b) @ '' has no broker to call'')))"

definition authority :: "endpoint \<Rightarrow> string" where
  "authority e =
     (if CHR '':'' \<in> set (ep_host e) then ''['' @ ep_host e @ '']:'' @ nat_to_string (ep_port e)
      else ep_host e @ '':'' @ nat_to_string (ep_port e))"

definition endpoint_url :: "endpoint \<Rightarrow> string" where
  "endpoint_url e = ''https://'' @ authority e"

section \<open>Calls\<close>

record broker_client =
  cl_endpoint :: endpoint
  cl_operator :: "operator option"

datatype http_method = Get_Method | Post_Method | Put_Method

text \<open>How a connection fails: no answer in time, another key than the pinned one, or an error with its sources.\<close>

datatype exchange_failure = No_Answer | Pin_Mismatch string | Exchange_Failed "string list"

record 'v broker_lib =
  bl_connector :: "endpoint \<Rightarrow> operator option \<Rightarrow> string + unit"
  bl_exchange :: "broker_client \<Rightarrow> http_method \<Rightarrow> string \<Rightarrow> string \<Rightarrow> 'v \<Rightarrow> (exchange_failure + nat \<times> string) \<times> 'v"
  bl_pin :: "string \<Rightarrow> string option"
  bl_pairing :: "string \<Rightarrow> string \<Rightarrow> string + pairing"
  bl_request_key :: "x509_req \<Rightarrow> string + string"
  bl_time_error :: "string \<Rightarrow> string"
  bl_read_offer :: "string \<Rightarrow> string + enrolment_offer"
  bl_read_status :: "string \<Rightarrow> string + api_status"
  bl_read_csr :: "string \<Rightarrow> string + fresh_csr"
  bl_read_page :: "string \<Rightarrow> string + issued_page"
  bl_read_issued :: "string \<Rightarrow> string + issued_certificate"
  bl_read_error :: "string \<Rightarrow> error_body option"
  bl_enrolment :: "enrolment \<Rightarrow> string"
  bl_chain :: "chain_update \<Rightarrow> string"
  bl_revocation :: "nat \<Rightarrow> string"

definition new_client :: "'v broker_lib \<Rightarrow> endpoint \<Rightarrow> operator option \<Rightarrow> broker_client res" where
  "new_client lib e op =
     (case bl_connector lib e op of Inl m \<Rightarrow> Err (Crypto m) | Inr _ \<Rightarrow> Ok \<lparr> cl_endpoint = e, cl_operator = op \<rparr>)"

definition call_failure :: "endpoint \<Rightarrow> exchange_failure \<Rightarrow> broker_error" where
  "call_failure e f =
     (case f of
        No_Answer \<Rightarrow> Broker_Unreachable (authority e @ '' gave no answer within 15 s'')
      | Pin_Mismatch m \<Rightarrow> Broker_Wrong_Key m
      | Exchange_Failed ms \<Rightarrow> Broker_Unreachable (foldl (\<lambda>m e. m @ '': '' @ e) (authority e) ms))"

definition broker_call ::
  "'v broker_lib \<Rightarrow> broker_client \<Rightarrow> (string \<Rightarrow> string + 'a) \<Rightarrow> http_method \<Rightarrow> string \<Rightarrow> string \<Rightarrow> 'v \<Rightarrow> (broker_error + 'a) \<times> 'v" where
  "broker_call lib c read m path body v =
     (case bl_exchange lib c m path body v of
        (Inl f, v') \<Rightarrow> (Inl (call_failure (cl_endpoint c) f), v')
      | (Inr (status, answer), v') \<Rightarrow>
          (if status = 200
           then (case read answer of Inl e \<Rightarrow> Inl (Broker_Malformed e) | Inr x \<Rightarrow> Inr x)
           else case bl_read_error lib answer of
                  Some refusal \<Rightarrow> Inl (Broker_Refused (eb_kind refusal) (eb_message refusal))
                | None \<Rightarrow> Inl (Broker_Status status), v'))"

definition call_offer :: "'v broker_lib \<Rightarrow> broker_client \<Rightarrow> 'v \<Rightarrow> (broker_error + enrolment_offer) \<times> 'v" where
  "call_offer lib c = broker_call lib c (bl_read_offer lib) Get_Method path_enrolment []"

definition call_enrol :: "'v broker_lib \<Rightarrow> broker_client \<Rightarrow> enrolment \<Rightarrow> 'v \<Rightarrow> (broker_error + api_status) \<times> 'v" where
  "call_enrol lib c e = broker_call lib c (bl_read_status lib) Post_Method path_enrolment (bl_enrolment lib e)"

definition call_status :: "'v broker_lib \<Rightarrow> broker_client \<Rightarrow> 'v \<Rightarrow> (broker_error + api_status) \<times> 'v" where
  "call_status lib c = broker_call lib c (bl_read_status lib) Get_Method path_status []"

definition call_fresh_csr :: "'v broker_lib \<Rightarrow> broker_client \<Rightarrow> 'v \<Rightarrow> (broker_error + fresh_csr) \<times> 'v" where
  "call_fresh_csr lib c = broker_call lib c (bl_read_csr lib) Post_Method path_csr []"

definition call_put_chain :: "'v broker_lib \<Rightarrow> broker_client \<Rightarrow> chain_update \<Rightarrow> 'v \<Rightarrow> (broker_error + api_status) \<times> 'v" where
  "call_put_chain lib c u = broker_call lib c (bl_read_status lib) Put_Method path_chain (bl_chain lib u)"

definition call_revoke :: "'v broker_lib \<Rightarrow> broker_client \<Rightarrow> 'v \<Rightarrow> (broker_error + api_status) \<times> 'v" where
  "call_revoke lib c = broker_call lib c (bl_read_status lib) Post_Method path_revoke []"

definition call_pause :: "'v broker_lib \<Rightarrow> broker_client \<Rightarrow> bool \<Rightarrow> 'v \<Rightarrow> (broker_error + api_status) \<times> 'v" where
  "call_pause lib c paused =
     broker_call lib c (bl_read_status lib) Post_Method (if paused then path_pause else path_resume) []"

definition call_issued :: "'v broker_lib \<Rightarrow> broker_client \<Rightarrow> 64 word \<Rightarrow> 'v \<Rightarrow> (broker_error + issued_page) \<times> 'v" where
  "call_issued lib c after =
     broker_call lib c (bl_read_page lib) Get_Method (path_issued @ ''?after='' @ nat_to_string (unat after)) []"

definition call_revoke_issued ::
  "'v broker_lib \<Rightarrow> broker_client \<Rightarrow> string \<Rightarrow> nat \<Rightarrow> 'v \<Rightarrow> (broker_error + issued_certificate) \<times> 'v" where
  "call_revoke_issued lib c serial reason =
     broker_call lib c (bl_read_issued lib) Post_Method (path_revoke_issued serial) (bl_revocation lib reason)"

section \<open>Pages\<close>

text \<open>
  The loop over pages, as it may run: \<open>ask\<close> answers for one page, in a world that may change between two
  calls, and nothing is assumed of what it answers.
\<close>

partial_function (option) pages_from ::
  "(64 word \<Rightarrow> 'v \<Rightarrow> (broker_error + issued_page) \<times> 'v) \<Rightarrow> 64 word \<Rightarrow> issued_certificate list \<Rightarrow> 'v
     \<Rightarrow> ((broker_error + issued_certificate list) \<times> 'v) option" where
  "pages_from ask after acc v =
     (case ask after v of
        (Inl e, v') \<Rightarrow> Some (Inl e, v')
      | (Inr page, v') \<Rightarrow>
          (let acc = acc @ ip_certificates page
           in if \<not> ip_more page \<or> ip_next page \<le> after then Some (Inr acc, v') else pages_from ask (ip_next page) acc v'))"

definition issued_since ::
  "'v broker_lib \<Rightarrow> broker_client \<Rightarrow> 64 word \<Rightarrow> 'v \<Rightarrow> (broker_error + issued_certificate list) \<times> 'v" where
  "issued_since lib c after v = the (pages_from (call_issued lib c) after [] v)"

section \<open>Records of what was issued\<close>

definition openssl_time :: "chrono \<Rightarrow> 'v broker_lib \<Rightarrow> string \<Rightarrow> string res" where
  "openssl_time ch lib t =
     (case parse_from_rfc3339 ch t of
        None \<Rightarrow> Err (OtherErr (''the broker'' @ [CHR 0x27] @ ''s time '' @ t @ '': '' @ bl_time_error lib t))
      | Some at \<Rightarrow> Ok (format_datetime ch at Openssl))"

definition optional_openssl_time :: "chrono \<Rightarrow> 'v broker_lib \<Rightarrow> string option \<Rightarrow> string option res" where
  "optional_openssl_time ch lib t = (case t of None \<Rightarrow> Ok None | Some t \<Rightarrow> rmap Some (openssl_time ch lib t))"

definition broker_cert_of :: "chrono \<Rightarrow> 'v broker_lib \<Rightarrow> int \<Rightarrow> issued_certificate \<Rightarrow> broker_cert res" where
  "broker_cert_of ch lib i c =
     rbind (openssl_time ch lib (it_not_before c)) (\<lambda>not_before.
     rbind (openssl_time ch lib (it_not_after c)) (\<lambda>not_after.
     rbind (optional_openssl_time ch lib (it_revoked_at c)) (\<lambda>revoked_at.
       if uint (it_changed c) > i64_max
       then Err (OtherErr (''change '' @ nat_to_string (unat (it_changed c)) @ '' is out of range''))
       else Ok \<lparr> bc_broker_id = i, bc_serial = it_serial c, bc_common_name = it_common_name c, bc_sans = it_sans c,
              bc_not_before = not_before, bc_not_after = not_after, bc_issuer_serial = it_issuer_serial c,
              bc_revoked_at = revoked_at, bc_revocation_reason = it_revocation_reason c,
              bc_changed = uint (it_changed c) \<rparr>)))"

section \<open>Operations of the certificate authority\<close>

text \<open>A call made in the outside world, its failure an error of the operation, or an answer to look at.\<close>

definition asking :: "('v \<Rightarrow> (broker_error + 'a) \<times> 'v) \<Rightarrow> ('v, 'a) ca_comp" where
  "asking f = outside (\<lambda>v. case f v of (Inl e, v') \<Rightarrow> (Err (BrokerErr e), v') | (Inr x, v') \<Rightarrow> (Ok x, v'))"

definition answer_of :: "('v \<Rightarrow> (broker_error + 'a) \<times> 'v) \<Rightarrow> ('v, broker_error + 'a) ca_comp" where
  "answer_of f = outside (\<lambda>v. case f v of (r, v') \<Rightarrow> (Ok r, v'))"

definition contacted :: "('v, 'm) ca_env_scheme \<Rightarrow> int \<Rightarrow> ('v, unit) ca_comp" where
  "contacted env i = on_db (\<lambda>db. Ok (touch_broker (stamp_of env) i db))"

definition reported :: "('v, 'm) ca_env_scheme \<Rightarrow> int \<Rightarrow> api_status \<Rightarrow> ('v, unit) ca_comp" where
  "reported env i status =
     vbind (contacted env i) (\<lambda>_. on_db (\<lambda>db. Ok (set_broker_issuer_state i (st_state status) db)))"

definition record_issued :: "('v, 'm) ca_env_scheme \<Rightarrow> 'v broker_lib \<Rightarrow> int \<Rightarrow> issued_certificate list \<Rightarrow> ('v, unit) ca_comp" where
  "record_issued env lib i issued =
     vbind (vlift (rmap_all (broker_cert_of (e_chrono env) lib i) issued)) (\<lambda>certs.
       on_db (\<lambda>db. Ok (record_broker_certs (e_json env) certs db)))"

definition sync_cursor :: "int \<Rightarrow> ('v, 64 word) ca_comp" where
  "sync_cursor i = vbind the_db (\<lambda>db. vret (word_of_int (broker_cursor i db)))"

definition try_sync_issued :: "('v, 'm) ca_env_scheme \<Rightarrow> 'v broker_lib \<Rightarrow> broker_client \<Rightarrow> int \<Rightarrow> ('v, unit) ca_comp" where
  "try_sync_issued env lib c i =
     vbind (sync_cursor i) (\<lambda>after. vbind (asking (issued_since lib c after)) (record_issued env lib i))"

text \<open>A failure is only logged.\<close>

definition sync_issued :: "('v, 'm) ca_env_scheme \<Rightarrow> 'v broker_lib \<Rightarrow> broker_client \<Rightarrow> int \<Rightarrow> ('v, unit) ca_comp" where
  "sync_issued env lib c i = vbind (attempt (try_sync_issued env lib c i)) (\<lambda>_. vret ())"

text \<open>The client of a recorded broker, with the operator's certificate.\<close>

definition client_of :: "'v broker_lib \<Rightarrow> operator \<Rightarrow> broker \<Rightarrow> broker_client res" where
  "client_of lib op b = rbind (of_broker (bl_pin lib) b) (\<lambda>e. new_client lib e (Some op))"

definition broker_status :: "('v, 'm) ca_env_scheme \<Rightarrow> 'v broker_lib \<Rightarrow> operator \<Rightarrow> int \<Rightarrow> ('v, api_status) ca_comp" where
  "broker_status env lib op i =
     vbind (the_broker env i) (\<lambda>b.
     vbind (vlift (client_of lib op b)) (\<lambda>c.
     vbind (asking (call_status lib c)) (\<lambda>status.
     vbind (reported env i status) (\<lambda>_.
     vbind (sync_issued env lib c i) (\<lambda>_.
     vbind (store_ca_database env) (\<lambda>_. vret status))))))"

definition pause_broker :: "('v, 'm) ca_env_scheme \<Rightarrow> 'v broker_lib \<Rightarrow> operator \<Rightarrow> int \<Rightarrow> bool \<Rightarrow> ('v, api_status) ca_comp" where
  "pause_broker env lib op i paused =
     vbind (the_broker env i) (\<lambda>b.
     vbind (vlift (client_of lib op b)) (\<lambda>c.
     vbind (asking (call_pause lib c paused)) (\<lambda>status.
     vbind (reported env i status) (\<lambda>_.
     vbind (store_ca_database env) (\<lambda>_. vret status)))))"

text \<open>The revoked row is recorded no later than the cursor, which the next sync starts from.\<close>

definition revoke_broker_cert ::
  "('v, 'm) ca_env_scheme \<Rightarrow> 'v broker_lib \<Rightarrow> operator \<Rightarrow> int \<Rightarrow> string \<Rightarrow> nat \<Rightarrow> ('v, broker_cert) ca_comp" where
  "revoke_broker_cert env lib op i serial reason =
     vbind (the_broker env i) (\<lambda>b.
     vbind (vlift (client_of lib op b)) (\<lambda>c.
     vbind (asking (call_revoke_issued lib c serial reason)) (\<lambda>issued.
     vbind (vlift (broker_cert_of (e_chrono env) lib i issued)) (\<lambda>revoked.
     vbind (contacted env i) (\<lambda>_.
     vbind the_db (\<lambda>db.
       let revoked = revoked\<lparr> bc_changed := min (bc_changed revoked) (broker_cursor i db) \<rparr>
       in vbind (on_db (\<lambda>db. Ok (record_broker_certs (e_json env) [revoked] db))) (\<lambda>_.
          vbind (sync_issued env lib c i) (\<lambda>_.
          vbind (store_ca_database env) (\<lambda>_. vret revoked)))))))))"

definition list_broker_certs :: "('v, 'm) ca_env_scheme \<Rightarrow> ('v, broker_cert list) ca_comp" where
  "list_broker_certs env = vbind the_db (\<lambda>db. vlift (query_broker_certs (e_json env) db))"

definition watched :: "broker \<Rightarrow> bool" where
  "watched b \<longleftrightarrow> br_state b = Active \<and> br_url b \<noteq> None"

definition watched_brokers :: "('v, 'm) ca_env_scheme \<Rightarrow> ('v, broker list) ca_comp" where
  "watched_brokers env = vbind (list_subordinates env) (\<lambda>bs. vret (filter watched bs))"

subsection \<open>Many brokers at once\<close>

record asked_broker =
  bk_id :: int
  bk_client :: broker_client
  bk_after :: "64 word"

record broker_answer =
  ba_id :: int
  ba_answer :: "broker_error + api_status \<times> issued_certificate list"

fun broker_calls :: "'v broker_lib \<Rightarrow> operator \<Rightarrow> broker list \<Rightarrow> ('v, asked_broker list) ca_comp" where
  "broker_calls lib op [] = vret []"
| "broker_calls lib op (b # bs) =
     vbind (vlift (client_of lib op b)) (\<lambda>c.
     vbind (sync_cursor (br_id b)) (\<lambda>after.
     vbind (broker_calls lib op bs) (\<lambda>rest. vret (\<lparr> bk_id = br_id b, bk_client = c, bk_after = after \<rparr> # rest))))"

definition ask :: "'v broker_lib \<Rightarrow> asked_broker \<Rightarrow> 'v \<Rightarrow> broker_answer \<times> 'v" where
  "ask lib k v =
     (case call_status lib (bk_client k) v of
        (Inl e, v') \<Rightarrow> (\<lparr> ba_id = bk_id k, ba_answer = Inl e \<rparr>, v')
      | (Inr status, v') \<Rightarrow>
          (case issued_since lib (bk_client k) (bk_after k) v' of
             (Inl e, v'') \<Rightarrow> (\<lparr> ba_id = bk_id k, ba_answer = Inr (status, []) \<rparr>, v'')
           | (Inr issued, v'') \<Rightarrow> (\<lparr> ba_id = bk_id k, ba_answer = Inr (status, issued) \<rparr>, v'')))"

fun record_each ::
  "('v, 'm) ca_env_scheme \<Rightarrow> 'v broker_lib \<Rightarrow> broker_answer list \<Rightarrow> (int \<times> broker_error) list \<Rightarrow> ('v, (int \<times> broker_error) list) ca_comp" where
  "record_each env lib [] unanswered = vret unanswered"
| "record_each env lib (a # as) unanswered =
     (case ba_answer a of
        Inl e \<Rightarrow> record_each env lib as (unanswered @ [(ba_id a, e)])
      | Inr (status, issued) \<Rightarrow>
          vbind (reported env (ba_id a) status) (\<lambda>_.
          vbind (attempt (record_issued env lib (ba_id a) issued)) (\<lambda>_. record_each env lib as unanswered)))"

definition record_answers ::
  "('v, 'm) ca_env_scheme \<Rightarrow> 'v broker_lib \<Rightarrow> broker_answer list \<Rightarrow> ('v, (int \<times> broker_error) list) ca_comp" where
  "record_answers env lib answers =
     vbind (record_each env lib answers []) (\<lambda>unanswered.
       if length unanswered < length answers then vbind (store_ca_database env) (\<lambda>_. vret unanswered) else vret unanswered)"

text \<open>The subordinate, then the root.\<close>

definition chain_of :: "string \<Rightarrow> ('v, string) ca_comp" where
  "chain_of cert_pem = vbind get_certificate (\<lambda>root. vret (cert_pem @ root))"

end
