(* ===== verification/Broker_Enrol.thy ===== *)
theory Broker_Enrol
  imports Broker_Client
begin

text \<open>
  Enrolling, renewing and revoking a broker, from \<^verbatim>\<open>services/acme_broker/enrol.rs\<close> and \<^verbatim>\<open>renew.rs\<close>: a
  subordinate is signed for the broker and handed to it over its API; what could not be delivered is
  kept in the database.
\<close>

section \<open>Enrolment\<close>

definition issuance :: "string list \<Rightarrow> issuance_config" where
  "issuance domains = \<lparr> ic_permitted_domains = domains, ic_leaf_days = 30, ic_leaf_max_days = 45,
     ic_challenges = [Http01, Dns01, TlsAlpn01] \<rparr>"

definition parse_pairing :: "'v broker_lib \<Rightarrow> string \<Rightarrow> pairing res" where
  "parse_pairing lib t =
     (case bl_pairing lib pairing_scheme t of
        Inl e \<Rightarrow> Err (OtherErr (''Not a broker pairing string: '' @ e)) | Inr p \<Rightarrow> Ok p)"

definition fetch_offer :: "'v broker_lib \<Rightarrow> pairing \<Rightarrow> ('v, enrolment_offer) ca_comp" where
  "fetch_offer lib p = vbind (vlift (new_client lib (of_pairing p) None)) (\<lambda>c. asking (call_offer lib c))"

definition enrolment_domains :: "string list \<Rightarrow> string list \<Rightarrow> string list res" where
  "enrolment_domains configured chosen =
     (if configured = [] then permitted_domains chosen
      else rbind (permitted_domains configured) (\<lambda>configured.
        rbind (if chosen = [] then Ok True else rmap (\<lambda>chosen. same_domains chosen configured) (permitted_domains chosen)) (\<lambda>same.
          if same then Ok configured
          else Err (OtherErr (''The broker is configured for '' @ join '', '' configured
                 @ ''; its domains are changed on the broker, not in opCA'')))))"

definition subordinate_pem :: "('v, 'm) ca_env_scheme \<Rightarrow> broker \<Rightarrow> ('v, string) ca_comp" where
  "subordinate_pem env b =
     (let missing = CertificateNotFound (''subordinate serial '' @ br_subordinate_serial b)
      in vbind the_db (\<lambda>db.
         vbind (vlift (ok_or missing (Option.bind (query_cert (BySerial (br_subordinate_serial b)) False db) cr_title))) (\<lambda>title.
         vbind (retrieve_certbundle env title) (\<lambda>b.
         vbind (vlift (ok_or missing b)) (\<lambda>bundle. vlift (certificate_pem bundle))))))"

definition pem_request_key :: "('v, 'm) ca_env_scheme \<Rightarrow> 'v broker_lib \<Rightarrow> string \<Rightarrow> string res" where
  "pem_request_key env lib pem = rbind (openssl_pem (req_from_pem (e_crypto env) pem)) (\<lambda>r. openssl_pem (bl_request_key lib r))"

definition pem_certificate_key :: "('v, 'm) ca_env_scheme \<Rightarrow> string \<Rightarrow> string res" where
  "pem_certificate_key env pem = rbind (openssl_pem (x509_from_pem (e_crypto env) pem)) (\<lambda>c. openssl_pem (xc_public_der c))"

text \<open>A subordinate signed for this broker that never reached it, when it still matches what the broker asks for.\<close>

definition undelivered ::
  "('v, 'm) ca_env_scheme \<Rightarrow> 'v broker_lib \<Rightarrow> endpoint \<Rightarrow> enrolment_offer \<Rightarrow> string list \<Rightarrow> ('v, (int \<times> string) option) ca_comp" where
  "undelivered env lib e offer domains =
     vbind (list_subordinates env) (\<lambda>bs.
       case List.find (\<lambda>b. br_state b = Active \<and> br_pinned_key b = Some (ep_pin e)) bs of
         None \<Rightarrow> vret None
       | Some b \<Rightarrow>
           if br_last_contact b \<noteq> None
           then vfail (OtherErr (''This broker is already enrolled as subordinate '' @ int_to_string (br_id b)))
           else
             vbind (subordinate_pem env b) (\<lambda>cert_pem.
             vbind (vlift (pem_request_key env lib (eo_csr_pem offer))) (\<lambda>requested.
             vbind (vlift (pem_certificate_key env cert_pem)) (\<lambda>certified.
               if certified \<noteq> requested \<or> \<not> same_domains (br_permitted_domains b) domains
               then vfail (OtherErr (''Subordinate '' @ int_to_string (br_id b) @ '' was signed for this broker with another key or other domains ''
                      @ ''and never reached it; revoke it before enrolling again''))
               else vbind (chain_of cert_pem) (\<lambda>chain. vret (Some (br_id b, chain)))))))"

text \<open>The subordinate to send: the one that never arrived, or one signed now.\<close>

definition subordinate_for ::
  "('v, 'm) ca_env_scheme \<Rightarrow> 'v broker_lib \<Rightarrow> endpoint \<Rightarrow> enrolment_offer \<Rightarrow> string list \<Rightarrow> ('v, int \<times> string) ca_comp" where
  "subordinate_for env lib e offer domains =
     vbind (undelivered env lib e offer domains) (\<lambda>pending.
       case pending of
         Some p \<Rightarrow> vret p
       | None \<Rightarrow>
           vbind (sign_subordinate_at env (eo_csr_pem offer) domains None (Some (endpoint_url e, ep_pin e))) (\<lambda>signed.
           vbind (chain_of (ss_cert_pem signed)) (\<lambda>chain. vret (br_id (ss_broker signed), chain))))"

record enrolled_broker =
  eb_broker :: broker
  eb_status :: api_status

definition enrol_broker ::
  "('v, 'm) ca_env_scheme \<Rightarrow> 'v broker_lib \<Rightarrow> operator \<Rightarrow> pairing \<Rightarrow> enrolment_offer \<Rightarrow> issuance_config \<Rightarrow> ('v, enrolled_broker) ca_comp" where
  "enrol_broker env lib op p shown terms =
     (let e = of_pairing p in
      vbind (vlift (new_client lib e None)) (\<lambda>c.
      vbind (vlift (new_client lib e (Some op))) (\<lambda>as_operator.
      vbind (asking (call_offer lib c)) (\<lambda>offer.
        if offer \<noteq> shown
        then vfail (OtherErr (''The broker'' @ [CHR 0x27] @ ''s request has changed since it was shown; review it again''))
        else
          vbind (vlift (enrolment_domains (eo_configured_domains shown) (ic_permitted_domains terms))) (\<lambda>domains.
          vbind (subordinate_for env lib e shown domains) (\<lambda>(i, chain).
          vbind (answer_of (call_enrol lib c \<lparr> en_code = pa_code p, en_chain_pem = chain, en_operator_pin = op_pin op,
                   en_config = terms\<lparr> ic_permitted_domains := domains \<rparr> \<rparr>)) (\<lambda>answer.
            case answer of
              Inl err \<Rightarrow> vfail (OtherErr (''Subordinate '' @ int_to_string i @ '' is signed, but the broker did not take it (''
                   @ display_broker_error err @ ''). Enrol with the same pairing string to send it again; it is not signed twice.''))
            | Inr status \<Rightarrow>
                vbind (reported env i status) (\<lambda>_.
                vbind (sync_issued env lib as_operator i) (\<lambda>_.
                vbind (store_ca_database env) (\<lambda>_.
                vbind (the_broker env i) (\<lambda>b. vret \<lparr> eb_broker = b, eb_status = status \<rparr>)))))))))))"

section \<open>Renewal\<close>

datatype renewal_outcome =
    Renewed_Outcome string api_status
  | Domains_Changed "string list" "string list"
  | Unreachable_Outcome broker_error
  | Not_Delivered string broker_error
  | Failed_Outcome string

fun display_outcome :: "renewal_outcome \<Rightarrow> string" where
  "display_outcome (Renewed_Outcome serial status) = ''renewed (serial '' @ serial @ '')''"
| "display_outcome (Domains_Changed recorded configured) =
     ''now asks for '' @ join '', '' configured @ '' instead of '' @ join '', '' recorded @ ''; nothing was signed''"
| "display_outcome (Unreachable_Outcome e) = ''unreachable: '' @ display_broker_error e"
| "display_outcome (Not_Delivered serial e) = ''signed (serial '' @ serial @ '') but not delivered: '' @ display_broker_error e"
| "display_outcome (Failed_Outcome e) = ''failed: '' @ e"

fun is_renewed :: "renewal_outcome \<Rightarrow> bool" where
  "is_renewed (Renewed_Outcome serial status) = True"
| "is_renewed r = False"

definition changed_domains :: "string list \<Rightarrow> string list \<Rightarrow> string list option res" where
  "changed_domains recorded configured =
     (if configured = [] then Ok None
      else rmap (\<lambda>configured. if same_domains recorded configured then None else Some configured) (permitted_domains configured))"

text \<open>Signing the renewed subordinate and putting its chain: an error of the broker is an outcome from here on.\<close>

definition renew_and_send ::
  "('v, 'm) ca_env_scheme \<Rightarrow> 'v broker_lib \<Rightarrow> broker_client \<Rightarrow> broker \<Rightarrow> api_status \<Rightarrow> fresh_csr \<Rightarrow> string list option \<Rightarrow> bool
     \<Rightarrow> ('v, renewal_outcome) ca_comp" where
  "renew_and_send env lib c b current fresh domains change_domains =
     vbind (renew_subordinate env (br_id b) (fc_csr_pem fresh) domains change_domains None) (\<lambda>signed.
     let serial = br_subordinate_serial (ss_broker signed)
     in vbind (chain_of (ss_cert_pem signed)) (\<lambda>chain.
        vbind (answer_of (call_put_chain lib c \<lparr> cu_chain_pem = chain,
                 cu_config = (st_config current)\<lparr> ic_permitted_domains := br_permitted_domains (ss_broker signed) \<rparr> \<rparr>)) (\<lambda>answer.
          case answer of
            Inl error \<Rightarrow> vret (Not_Delivered serial error)
          | Inr status \<Rightarrow> vbind (reported env (br_id b) status) (\<lambda>_. vret (Renewed_Outcome serial status)))))"

definition try_renew ::
  "('v, 'm) ca_env_scheme \<Rightarrow> 'v broker_lib \<Rightarrow> operator \<Rightarrow> broker \<Rightarrow> bool \<Rightarrow> ('v, renewal_outcome) ca_comp" where
  "try_renew env lib op b change_domains =
     vbind (vlift (client_of lib op b)) (\<lambda>c.
     vbind (asking (call_status lib c)) (\<lambda>current.
     vbind (asking (call_fresh_csr lib c)) (\<lambda>fresh.
     vbind (reported env (br_id b) current) (\<lambda>_.
     vbind (sync_issued env lib c (br_id b)) (\<lambda>_.
     vbind (vlift (changed_domains (br_permitted_domains b) (fc_configured_domains fresh))) (\<lambda>domains.
       if domains \<noteq> None \<and> \<not> change_domains
       then vret (Domains_Changed (br_permitted_domains b) (the domains))
       else renew_and_send env lib c b current fresh domains change_domains))))))"

definition renew_at ::
  "('v, 'm) ca_env_scheme \<Rightarrow> 'v broker_lib \<Rightarrow> operator \<Rightarrow> broker \<Rightarrow> bool \<Rightarrow> ('v, renewal_outcome) ca_comp" where
  "renew_at env lib op b change_domains =
     vbind (attempt (try_renew env lib op b change_domains)) (\<lambda>r.
       case r of
         Err (BrokerErr e) \<Rightarrow> vret (Unreachable_Outcome e)
       | Err e \<Rightarrow> vret (Failed_Outcome (display_error e))
       | _ \<Rightarrow> vlift r)"

definition renew_broker ::
  "('v, 'm) ca_env_scheme \<Rightarrow> 'v broker_lib \<Rightarrow> operator \<Rightarrow> int \<Rightarrow> bool \<Rightarrow> ('v, renewal_outcome) ca_comp" where
  "renew_broker env lib op i change_domains =
     vbind (the_broker env i) (\<lambda>b.
     vbind (renew_at env lib op b change_domains) (\<lambda>r.
     vbind (store_ca_database env) (\<lambda>_. vret r)))"

fun renew_each ::
  "('v, 'm) ca_env_scheme \<Rightarrow> 'v broker_lib \<Rightarrow> operator \<Rightarrow> broker list \<Rightarrow> ('v, (int \<times> renewal_outcome) list) ca_comp" where
  "renew_each env lib op [] = vret []"
| "renew_each env lib op (b # bs) =
     vbind (renew_at env lib op b False) (\<lambda>r. vbind (renew_each env lib op bs) (\<lambda>rs. vret ((br_id b, r) # rs)))"

definition renew_all_brokers ::
  "('v, 'm) ca_env_scheme \<Rightarrow> 'v broker_lib \<Rightarrow> operator \<Rightarrow> ('v, (int \<times> renewal_outcome) list) ca_comp" where
  "renew_all_brokers env lib op =
     vbind (watched_brokers env) (\<lambda>bs.
     vbind (renew_each env lib op bs) (\<lambda>rs. vbind (store_ca_database env) (\<lambda>_. vret rs)))"

section \<open>Revocation\<close>

datatype broker_notice = Told api_status | Not_Told broker_error

record broker_revocation =
  bv_broker :: broker
  bv_notice :: broker_notice

definition revoke_broker :: "('v, 'm) ca_env_scheme \<Rightarrow> 'v broker_lib \<Rightarrow> operator \<Rightarrow> int \<Rightarrow> ('v, broker_revocation) ca_comp" where
  "revoke_broker env lib op i =
     vbind (the_broker env i) (\<lambda>b.
     vbind (vlift (client_of lib op b)) (\<lambda>c.
     vbind (case br_state b of Active \<Rightarrow> revoke_subordinate env i | RevokedBroker \<Rightarrow> vret b) (\<lambda>b.
     vbind (answer_of (call_revoke lib c)) (\<lambda>answer.
       case answer of
         Inl e \<Rightarrow> vret \<lparr> bv_broker = b, bv_notice = Not_Told e \<rparr>
       | Inr status \<Rightarrow>
           vbind (reported env i status) (\<lambda>_.
           vbind (sync_issued env lib c i) (\<lambda>_.
           vbind (store_ca_database env) (\<lambda>_. vret \<lparr> bv_broker = b, bv_notice = Told status \<rparr>)))))))"

end
