(* ===== verification/Ca_Run.thy ===== *)
theory Ca_Run
  imports Broker_Enrol
begin

text \<open>
  The certificate authority as a state machine: one step is one operation, failed or not, and a run is
  any sequence of them. What every operation does to the state is a reflexive and transitive relation,
  so it is proved once for the way operations are composed, in a locale, and for each primitive.
\<close>

section \<open>Relations every computation respects\<close>

named_theorems obeys_rules \<open>introduction rules for the relations computations respect\<close>

definition obeys :: "('s \<Rightarrow> 's \<Rightarrow> bool) \<Rightarrow> ('s, 'a) comp \<Rightarrow> bool" where
  "obeys R m \<longleftrightarrow> (\<forall>s. R s (snd (m s)))"

locale state_relation =
  fixes R :: "'s \<Rightarrow> 's \<Rightarrow> bool"
  assumes same: "R s s" and compose: "R a b \<Longrightarrow> R b c \<Longrightarrow> R a c"
begin

lemma vbind_at:
  assumes "R s (snd (m s))" "\<And>x s'. m s = (Ok x, s') \<Longrightarrow> R s' (snd (f x s'))"
  shows "R s (snd (vbind m f s))"
proof -
  obtain r s' where m: "m s = (r, s')" by fastforce
  show ?thesis
  proof (cases r)
    case (Ok x)
    then show ?thesis using assms m compose by (simp add: vbind_def)
  qed (use assms(1) m in \<open>simp_all add: vbind_def\<close>)
qed

lemma obeys_vbind: "obeys R m \<Longrightarrow> (\<And>x. obeys R (f x)) \<Longrightarrow> obeys R (vbind m f)"
  unfolding obeys_def by (intro allI vbind_at) blast+

lemma obeys_pure: "obeys R (vret x)" "obeys R (vfail e)" "obeys R (vlift r)"
  by (simp_all add: obeys_def vret_def vfail_def vlift_def same)

lemma obeys_attempt: "obeys R m \<Longrightarrow> obeys R (attempt m)"
  by (auto simp: obeys_def attempt_def split: prod.splits res.splits) (metis snd_conv)+

lemma obeys_each: "(\<And>x. obeys R (f x)) \<Longrightarrow> obeys R (each_comp f xs)"
  by (induction xs) (simp_all add: obeys_pure obeys_vbind)

end

lemma obeys_cases:
  "obeys R a \<Longrightarrow> obeys R b \<Longrightarrow> obeys R (if c then a else b)"
  "obeys R a \<Longrightarrow> (\<And>x. obeys R (f x)) \<Longrightarrow> obeys R (case_option a f v)"
  "(\<And>x y. obeys R (g x y)) \<Longrightarrow> obeys R (case_prod g p)"
  "obeys R (h v') \<Longrightarrow> obeys R (Let v' h)"
  "(\<And>x. obeys R (k1 x)) \<Longrightarrow> (\<And>x. obeys R (k2 x)) \<Longrightarrow> (\<And>x. obeys R (k3 x)) \<Longrightarrow> obeys R (case_res k1 k2 k3 r)"
  "(\<And>x. obeys R (h1 x)) \<Longrightarrow> (\<And>y. obeys R (h2 y)) \<Longrightarrow> obeys R (case_sum h1 h2 answer)"
  by (simp_all split: option.split prod.split res.split sum.split)

section \<open>What operations do to the database\<close>

text \<open>
  The revoked set holds every certificate with a revocation date that is unexpired at \<open>horizon\<close>, unless the
  database is marked for a new scan.
\<close>

definition listed :: "chrono \<Rightarrow> int \<Rightarrow> ca_db \<Rightarrow> bool" where
  "listed lib horizon db \<longleftrightarrow> dirty db \<or> (\<forall>r \<in> set (t_certs db). \<forall>d e.
     cr_revocation_date r = Some d \<and> d \<noteq> [] \<and> readable_expiry lib (cr_expiry_date r) = Some e \<and> horizon \<le> e
       \<longrightarrow> cr_serial r \<in> certs_revoked db)"

definition db_ok :: "chrono \<Rightarrow> int \<Rightarrow> ca_db \<Rightarrow> bool" where
  "db_ok lib horizon db \<longleftrightarrow> certs_keyed db \<and> external_keyed db \<and> config_ok db \<and> finite (certs_revoked db) \<and> listed lib horizon db"

text \<open>A certificate keeps its name, its expiry and a revocation date it has.\<close>

definition same_cert :: "cert_record \<Rightarrow> cert_record \<Rightarrow> bool" where
  "same_cert r r' \<longleftrightarrow> cr_cn r' = cr_cn r \<and> cr_expiry_date r' = cr_expiry_date r
     \<and> (\<forall>d. cr_revocation_date r = Some d \<and> d \<noteq> [] \<longrightarrow> cr_revocation_date r' = Some d)"

definition kept :: "ca_db \<Rightarrow> ca_db \<Rightarrow> bool" where
  "kept db db' \<longleftrightarrow> (\<forall>n r. cert_at db n = Some r \<longrightarrow> (\<exists>r'. cert_at db' n = Some r' \<and> same_cert r r'))"

definition grows :: "chrono \<Rightarrow> int \<Rightarrow> 'v ca_state \<Rightarrow> 'v ca_state \<Rightarrow> bool" where
  "grows lib horizon s s' \<longleftrightarrow>
     (\<forall>db. s_db s = Some db \<longrightarrow> db_ok lib horizon db \<longrightarrow> (\<exists>db'. s_db s' = Some db' \<and> db_ok lib horizon db' \<and> kept db db'))"

lemma same_cert_refl [simp]: "same_cert r r"
  by (simp add: same_cert_def)

lemma kept_refl [simp]: "kept db db"
  by (auto simp: kept_def)

lemma same_cert_trans: "same_cert a b \<Longrightarrow> same_cert b c \<Longrightarrow> same_cert a c"
  by (simp add: same_cert_def)

lemma kept_trans:
  assumes "kept a b" "kept b c"
  shows "kept a c"
  unfolding kept_def
proof (intro allI impI)
  fix n r
  assume "cert_at a n = Some r"
  then obtain r' where "cert_at b n = Some r'" "same_cert r r'" using assms(1) by (auto simp: kept_def)
  moreover then obtain r'' where "cert_at c n = Some r''" "same_cert r' r''" using assms(2) by (auto simp: kept_def)
  ultimately show "\<exists>r''. cert_at c n = Some r'' \<and> same_cert r r''" using same_cert_trans by blast
qed

interpretation growth: state_relation "grows lib horizon" for lib horizon
proof unfold_locales
  show "grows lib horizon s s" for s :: "'v ca_state" by (simp add: grows_def)
next
  fix a b c :: "'v ca_state"
  assume "grows lib horizon a b" "grows lib horizon b c"
  then show "grows lib horizon a c" unfolding grows_def using kept_trans by blast
qed

lemmas growth_rules [obeys_rules] =
  growth.obeys_vbind growth.obeys_pure growth.obeys_attempt growth.obeys_each obeys_cases

text \<open>A database operation that may run at any time.\<close>

definition allowed :: "chrono \<Rightarrow> int \<Rightarrow> (ca_db \<Rightarrow> ca_db res) \<Rightarrow> bool" where
  "allowed lib horizon f \<longleftrightarrow> (\<forall>db db'. db_ok lib horizon db \<longrightarrow> f db = Ok db' \<longrightarrow> db_ok lib horizon db' \<and> kept db db')"

lemma grows_frame: "(\<And>s. s_db (snd (m s)) = s_db s) \<Longrightarrow> obeys (grows lib horizon) m"
  by (auto simp: obeys_def grows_def)

lemma grows_outside [obeys_rules]: "obeys (grows lib horizon) (outside m)"
  by (rule grows_frame) (simp add: outside_def split: prod.split)

lemma grows_gets [obeys_rules]: "obeys (grows lib horizon) (gets f)"
  by (rule grows_frame) (simp add: gets_def)

lemma grows_set [obeys_rules]:
  "obeys (grows lib horizon) (\<lambda>s. (Ok x, s\<lparr> s_crl := c \<rparr>))" "obeys (grows lib horizon) (\<lambda>s. (Ok x, s\<lparr> s_bundle := b \<rparr>))"
  by (rule grows_frame, simp)+

lemma grows_the_db [obeys_rules]: "obeys (grows lib horizon) the_db" "obeys (grows lib horizon) the_config"
  by (auto simp: the_db_def the_config_def intro!: obeys_rules)

lemma on_db_run:
  "on_db f s = (case s_db s of None \<Rightarrow> (Err not_initialised, s)
     | Some db \<Rightarrow> (case f db of Ok db' \<Rightarrow> (Ok (), s\<lparr> s_db := Some db' \<rparr>) | Err e \<Rightarrow> (Err e, s) | Panic p \<Rightarrow> (Panic p, s)))"
  by (simp add: on_db_def the_db_def gets_def vlift_def put_db_def vbind_def split: option.split res.split)

lemma run_db_run:
  "run_db f s = (case s_db s of None \<Rightarrow> (Err not_initialised, s)
     | Some db \<Rightarrow> (case f db of Ok (x, db') \<Rightarrow> (Ok x, s\<lparr> s_db := Some db' \<rparr>) | Err e \<Rightarrow> (Err e, s) | Panic p \<Rightarrow> (Panic p, s)))"
  by (simp add: run_db_def the_db_def gets_def vlift_def put_db_def vbind_def vret_def split: option.split res.split prod.split)

lemma grows_on_db: "allowed lib horizon f \<Longrightarrow> obeys (grows lib horizon) (on_db f)"
  by (auto simp: obeys_def grows_def on_db_run allowed_def split: option.split res.split)

lemma grows_run_db: "allowed lib horizon (\<lambda>db. rmap snd (f db)) \<Longrightarrow> obeys (grows lib horizon) (run_db f)"
  by (fastforce simp: obeys_def grows_def run_db_run allowed_def split: option.split res.split prod.split)

section \<open>The database operations\<close>

text \<open>An operation on other tables and one that leaves the database to a new scan.\<close>

lemma allowed_frame:
  assumes "\<And>db db'. f db = Ok db' \<Longrightarrow> t_certs db' = t_certs db \<and> t_external db' = t_external db
      \<and> certs_revoked db' = certs_revoked db \<and> (dirty db \<longrightarrow> dirty db')"
    and "\<And>db db'. f db = Ok db' \<Longrightarrow> config_ok db \<Longrightarrow> config_ok db'"
  shows "allowed lib horizon f"
  unfolding allowed_def
proof (intro allI impI)
  fix db db'
  assume ok: "db_ok lib horizon db" and run: "f db = Ok db'"
  have "cert_at db' = cert_at db" using assms(1) [OF run] by (simp add: cert_at_def fun_eq_iff)
  then have "kept db db'" by (simp add: kept_def)
  moreover have "listed lib horizon db'" using assms(1) [OF run] ok by (auto simp: db_ok_def listed_def)
  ultimately show "db_ok lib horizon db' \<and> kept db db'"
    using assms(1) [OF run] assms(2) [OF run] ok by (simp add: db_ok_def certs_keyed_def external_keyed_def)
qed

lemma allowed_total:
  assumes "\<And>db. t_certs (f db) = t_certs db \<and> t_external (f db) = t_external db
      \<and> certs_revoked (f db) = certs_revoked db \<and> (dirty db \<longrightarrow> dirty (f db))"
    and "\<And>db. config_ok db \<Longrightarrow> config_ok (f db)"
  shows "allowed lib horizon (\<lambda>db. Ok (f db))"
  by (rule allowed_frame) (use assms in auto)

lemma allowed_update_certs:
  assumes "\<And>db d. missing \<noteq> Ok d" "\<And>r. P r \<Longrightarrow> cr_serial (f r) = cr_serial r \<and> same_cert r (f r)"
  shows "allowed lib horizon (update_certs P f missing)"
  unfolding allowed_def
proof (intro allI impI)
  fix db db'
  assume ok: "db_ok lib horizon db" and run: "update_certs P f missing db = Ok db'"
  note at = update_certs_at [OF run assms(1)] 
  have "certs_revoked db' = certs_revoked db" using run assms(1) by (auto simp: update_certs_def split: if_splits)
  then show "db_ok lib horizon db' \<and> kept db db'"
    using at assms(2) ok by (auto simp: db_ok_def listed_def kept_def external_keyed_def config_ok_def)
qed

text \<open>The operations on rows: each keeps the identity of the rows it changes.\<close>

named_theorems allowed_rules \<open>database operations that may run at any time\<close>

lemma allowed_ignore [allowed_rules]: "allowed lib horizon (ignore_cert stamp serial reason who what)"
  unfolding ignore_cert_def by (rule allowed_update_certs) (simp_all add: no_cert_def same_cert_def)

lemma allowed_unignore [allowed_rules]: "allowed lib horizon (unignore_cert serial)"
  unfolding unignore_cert_def by (rule allowed_update_certs) (simp_all add: no_cert_def same_cert_def)

lemma allowed_mark_deleted [allowed_rules]: "allowed lib horizon (mark_cert_deleted stamp serial)"
  unfolding mark_cert_deleted_def by (rule allowed_update_certs) (simp_all add: same_cert_def)

lemma allowed_mark_published [allowed_rules]: "allowed lib horizon (mark_cert_published stamp serial cn)"
  unfolding mark_cert_published_def by (rule allowed_update_certs) (simp_all add: same_cert_def)

lemma allowed_add_cert [allowed_rules]: "allowed lib horizon (add_cert r)"
  unfolding allowed_def
proof (intro allI impI)
  fix db db'
  assume ok: "db_ok lib horizon db" and run: "add_cert r db = Ok db'"
  have keyed: "certs_keyed db" using ok by (simp add: db_ok_def)
  have fresh: "cert_at db (cr_serial r) = None" "cert_at db' = (cert_at db)(cr_serial r \<mapsto> r)" "certs_keyed db'"
    using cert_store.add_ok [OF keyed run] by simp_all
  then have "kept db db'" by (simp add: kept_def)
  moreover have "t_config db' = t_config db" "t_external db' = t_external db" "certs_revoked db' = certs_revoked db" "dirty db'"
    using run by (auto simp: add_cert_def split: option.splits)
  ultimately show "db_ok lib horizon db' \<and> kept db db'"
    using ok fresh by (simp add: db_ok_def listed_def external_keyed_def config_ok_def)
qed

lemma allowed_add_external [allowed_rules]: "allowed lib horizon (add_external_cert x)"
  unfolding allowed_def
proof (intro allI impI)
  fix db db'
  assume ok: "db_ok lib horizon db" and run: "add_external_cert x db = Ok db'"
  have same: "t_certs db' = t_certs db" "t_config db' = t_config db" "certs_revoked db' = certs_revoked db" "dirty db'"
    and rows: "tbl_insert xr_serial x (t_external db) = Some (t_external db')"
    using run by (auto simp: add_external_cert_def split: option.splits)
  have "kept db db'" by (simp add: kept_def cert_at_def same)
  moreover have "external_keyed db'"
    using tbl_keyed_insert rows ok by (auto simp: db_ok_def external_keyed_def)
  ultimately show "db_ok lib horizon db' \<and> kept db db'"
    using ok same by (simp add: db_ok_def listed_def certs_keyed_def config_ok_def)
qed

lemma allowed_add_to_db [allowed_rules]: "allowed lib horizon (add_to_db env issuer subject item)"
proof (cases issuer)
  case None
  then have "add_to_db env issuer subject item = add_cert item" by (simp add: add_to_db_def fun_eq_iff)
  then show ?thesis by (simp add: allowed_add_cert)
next
  case (Some i)
  then have "add_to_db env issuer subject item = add_external_cert (into_external (stamp_of env) issuer subject item)"
    by (simp add: add_to_db_def fun_eq_iff)
  then show ?thesis by (simp add: allowed_add_external)
qed

lemma allowed_increment [allowed_rules]: "allowed lib horizon (\<lambda>db. rmap snd (increment_serial ty n db))"
proof (rule allowed_frame)
  fix db db'
  assume run: "rmap snd (increment_serial ty n db) = Ok db'"
  then show "t_certs db' = t_certs db \<and> t_external db' = t_external db \<and> certs_revoked db' = certs_revoked db
      \<and> (dirty db \<longrightarrow> dirty db')"
    by (auto simp: increment_serial_def no_rows_def Let_def split: list.splits)
  show "config_ok db'" if "config_ok db"
    using increment_serial_step [OF that, of ty n] run by auto
qed

lemma same_cert_processed: "same_cert r (processed lib now stamp rv r)"
  by (auto simp: same_cert_def processed_def marked_revoked_def split: cert_class.split)

lemma listed_scan:
  assumes "certs_keyed db" "scan_outcome lib now stamp rv db db'" "now \<le> horizon" "stamp \<noteq> []"
  shows "listed lib horizon db'"
  unfolding listed_def
proof (intro disjI2 ballI allI impI)
  fix r' d e
  assume mem: "r' \<in> set (t_certs db')"
    and dated: "cr_revocation_date r' = Some d \<and> d \<noteq> [] \<and> readable_expiry lib (cr_expiry_date r') = Some e \<and> horizon \<le> e"
  obtain r where r: "r \<in> set (t_certs db)" "r' = processed lib now stamp rv r"
    using mem assms(2) by (auto simp: scan_facts)
  have "class_of lib now None r' = IsRevoked"
    using dated assms(3) by (auto simp: class_of_def marked_revoked_def split: option.splits)
  then have "class_of lib now rv r = IsRevoked" using class_processed [OF assms(4)] by (simp add: r(2))
  then have "cr_serial r \<in> certs_revoked db'"
    using in_serials_where [OF assms(1) r(1)] assms(2) by (simp add: scan_facts)
  then show "cr_serial r' \<in> certs_revoked db'" by (simp add: r(2))
qed

lemma allowed_scan:
  assumes "e_chrono env = lib" "e_now env \<le> horizon" "stamp_of env \<noteq> []"
  shows "allowed lib horizon (scan_db env rv force)"
  unfolding allowed_def
proof (intro allI impI)
  fix db db'
  assume ok: "db_ok lib horizon db" and run: "scan_db env rv force db = Ok db'"
  then obtain ch where scan: "process_ca_database lib (e_now env) (stamp_of env) rv force db = Ok (ch, db')"
    using assms(1) by (auto simp: scan_db_def)
  show "db_ok lib horizon db' \<and> kept db db'"
  proof (cases "dirty db \<or> rv \<noteq> None \<or> force")
    case False
    then show ?thesis using ok scan by (simp add: process_ca_database_def)
  next
    case True
    have keyed: "certs_keyed db" "external_keyed db" "config_ok db" using ok by (simp_all add: db_ok_def)
    have out: "scan_outcome lib (e_now env) (stamp_of env) rv db db'" by (rule scan_ran [OF keyed(1,2) True scan])
    have "kept db db'"
      using scan_cert_at [OF keyed(1) out] by (auto simp: kept_def same_cert_processed)
    moreover have "listed lib horizon db'" by (rule listed_scan [OF keyed(1) out assms(2,3)])
    moreover have "certs_keyed db'" "external_keyed db'" "finite (certs_revoked db')"
      using keyed(1,2) out by (auto simp: certs_keyed_def external_keyed_def tbl_keyed_def scan_facts comp_def serials_where_def)
    moreover have "config_ok db'" using process_same_frame [OF scan] keyed(3) by (simp add: same_frame_def config_ok_def)
    ultimately show ?thesis by (simp add: db_ok_def)
  qed
qed

text \<open>The operations on other tables.\<close>

lemma allowed_others [allowed_rules]:
  "allowed lib horizon (\<lambda>db. Ok (update_config u db))"
  "allowed lib horizon (\<lambda>db. Ok (revoke_brokers_of stamp serial db))"
  "allowed lib horizon (\<lambda>db. Ok (move_broker_to json stamp i serial domains db))"
  "allowed lib horizon (\<lambda>db. Ok (set_broker_endpoint stamp i url pin db))"
  "allowed lib horizon (\<lambda>db. Ok (upsert_crl_metadata metadata db))"
  "allowed lib horizon (\<lambda>db. Ok (snd (delete_csr i db)))"
  "allowed lib horizon (\<lambda>db. Ok (record_crl env batch_uri batch db))"
  "allowed lib horizon (\<lambda>db. Ok (touch_broker stamp i db))"
  "allowed lib horizon (\<lambda>db. Ok (set_broker_issuer_state i state db))"
  "allowed lib horizon (\<lambda>db. Ok (record_broker_certs json certs db))"
  by (rule allowed_total; simp add: update_config_def revoke_brokers_of_def update_brokers_def move_broker_to_def
      set_broker_endpoint_def upsert_crl_metadata_def delete_csr_def record_crl_def upsert_crl_batch_def
      clear_crl_batch_def touch_broker_def set_broker_issuer_state_def record_broker_certs_def config_ok_row; fastforce simp: tbl_update_def updated_row_def)+

section \<open>The operations of the CA\<close>

lemmas grows_db [obeys_rules] = allowed_rules [THEN grows_on_db] grows_run_db [OF allowed_increment]

lemma grows_store [obeys_rules]: "obeys (grows lib horizon) (store_ca_database env)"
proof -
  have "obeys (grows lib horizon) (update_db_fingerprint env)"
    by (auto simp: obeys_def grows_def update_db_fingerprint_def db_ok_def listed_def kept_def cert_at_def
        certs_keyed_def external_keyed_def config_ok_def)
  moreover have "obeys (grows lib horizon) (write_backup env sql)" for sql
    by (rule grows_frame) (simp add: write_backup_def)
  ultimately show ?thesis unfolding store_ca_database_def by (intro obeys_rules) auto
qed

lemma grows_items [obeys_rules]:
  "obeys (grows lib horizon) (retrieve_certbundle env title)"
  "obeys (grows lib horizon) (archive_item env title)"
  "obeys (grows lib horizon) (get_crl env)"
  "obeys (grows lib horizon) (exists_item env title)"
  by (rule grows_frame; auto simp: retrieve_certbundle_def archive_item_def get_crl_def exists_item_def outside_def Let_def
      split: prod.split sum.split op_error.split option.split res.split)+

lemma grows_auto_ignore [obeys_rules]:
  fixes env :: "('v, 'm) ca_env_scheme"
  shows "obeys (grows lib horizon) (auto_ignore_predecessor env old_serial new_serial reason)"
proof -
  let ?ignore = "on_db (ignore_cert (stamp_of env) old_serial reason (e_user env) (Some (''replaced by '' @ new_serial)))"
  have "grows lib horizon s (snd (?ignore s))" for s :: "'v ca_state"
    using grows_on_db [OF allowed_ignore] unfolding obeys_def by blast
  then show ?thesis
    unfolding obeys_def auto_ignore_predecessor_def by (simp add: vret_def growth.same split: option.split)
qed

text \<open>Signing, and the uploads.\<close>

lemma grows_signing [obeys_rules]:
  "obeys (grows lib horizon) (issue env csr profile days)"
  "obeys (grows lib horizon) (sign_certificate env csr' ct days)"
  "obeys (grows lib horizon) (cert_days ct requested)"
  "obeys (grows lib horizon) (ca_not_after env)"
  "obeys (grows lib horizon) (issuance_warnings env ct days)"
  "obeys (grows lib horizon) (issue_certificate env csr' ct requested)"
  unfolding issue_certificate_def issuance_warnings_def ca_not_after_def cert_days_def sign_certificate_def issue_def
  by (intro obeys_rules)+

lemma grows_uploads [obeys_rules]:
  "obeys (grows lib horizon) aws_region"
  "obeys (grows lib horizon) (get_aws_credentials env region)"
  "obeys (grows lib horizon) (upload_content env content uri vis)"
  "obeys (grows lib horizon) (upload_published env serial cn pem)"
  "obeys (grows lib horizon) (upload_batch env batch_uri crls)"
  unfolding upload_published_def upload_content_def the_aws_credentials_def get_aws_credentials_def aws_region_def upload_batch_def
  by (intro obeys_rules)+

lemma grows_bundles [obeys_rules]:
  "obeys (grows lib horizon) (store_certbundle_for env bundle issuer subject persist)"
  "obeys (grows lib horizon) (find_cert l valid_only)"
  "obeys (grows lib horizon) (bundle_of_row env title)"
  "obeys (grows lib horizon) (sign_bundle env csr days bundle)"
  "obeys (grows lib horizon) (is_cert_valid env cert)"
  unfolding store_certbundle_for_def find_cert_def bundle_of_row_def sign_bundle_def is_cert_valid_def
  by (intro obeys_rules)+

text \<open>Renaming writes back the row it has just read.\<close>

lemma renamed_row:
  assumes ok: "db_ok lib horizon db" and found: "query_cert (ByTitle src) False db = Some r"
    and run: "update_cert (r\<lparr> cr_title := t \<rparr>) db = Ok db'"
  shows "db_ok lib horizon db' \<and> kept db db'"
proof -
  have keyed: "certs_keyed db" using ok by (simp add: db_ok_def)
  have "r \<in> set (t_certs db)" using found by (auto simp: query_cert_def find_Some_iff)
  then have at: "cert_at db (cr_serial r) = Some r" using keyed by (simp add: certs_keyed_def cert_at_def tbl_lookup_self)
  have same: "t_config db' = t_config db" "t_external db' = t_external db" "certs_revoked db' = certs_revoked db" "dirty db'"
    using run by (auto simp: update_cert_def update_certs_def no_cert_def split: if_splits)
  have "kept db db'" using update_cert_at(2) [OF run] at by (auto simp: kept_def same_cert_def)
  then show ?thesis
    using update_cert_at(3) [OF run] ok same by (simp add: db_ok_def listed_def external_keyed_def config_ok_def)
qed

lemma grows_rename [obeys_rules]:
  fixes env :: "('v, 'm) ca_env_scheme"
  shows "obeys (grows lib horizon) (rename_certbundle env src dst persist)"
  unfolding obeys_def
proof
  fix s :: "'v ca_state"
  let ?last = "\<lambda>_ :: unit. if persist then store_ca_database env else vret ()"
  have last: "obeys (grows lib horizon) (?last u)" for u by (intro obeys_rules)
  show "grows lib horizon s (snd (rename_certbundle env src dst persist s))"
  proof (cases "\<exists>db r v. s_db s = Some db \<and> query_cert (ByTitle src) False db = Some r
      \<and> call (v_rename_item (e_ops env) (ItemTitle src) dst) (s_out s) = (Ok (), v)")
    case True
    then obtain db r v where db: "s_db s = Some db" and r: "query_cert (ByTitle src) False db = Some r"
      and v: "call (v_rename_item (e_ops env) (ItemTitle src) dst) (s_out s) = (Ok (), v)" by blast
    let ?s = "s\<lparr> s_out := v \<rparr>"
    let ?put = "vbind (on_db (update_cert (r\<lparr> cr_title := Some dst \<rparr>))) ?last"
    have "grows lib horizon ?s (snd (on_db (update_cert (r\<lparr> cr_title := Some dst \<rparr>)) ?s))"
      using db r renamed_row by (auto simp: grows_def on_db_run split: res.split)
    then have "grows lib horizon ?s (snd (?put ?s))"
      by (rule growth.vbind_at) (use last in \<open>simp add: obeys_def\<close>)
    moreover have "rename_certbundle env src dst persist s = ?put ?s"
      using db r v by (simp add: rename_certbundle_def the_db_def gets_def vbind_def vlift_def outside_def)
    moreover have "grows lib horizon s ?s" by (simp add: grows_def)
    ultimately show ?thesis using growth.compose by metis
  next
    case False
    then have "s_db (snd (rename_certbundle env src dst persist s)) = s_db s"
      by (auto simp: rename_certbundle_def the_db_def gets_def vbind_def vlift_def outside_def split: option.split prod.split res.split)
    then show ?thesis by (simp add: grows_def)
  qed
qed

text \<open>
  The operations on an open CA that may change its state or the vault; those that make or load one
  (\<^verbatim>\<open>init\<close>, \<^verbatim>\<open>import_ca\<close>, \<^verbatim>\<open>retrieve\<close>, \<^verbatim>\<open>rebuild_database\<close>) come before its life begins.
\<close>

datatype ca_request =
    Generate cert_type string cert_bundle_config "int option"
  | ImportBundle string "string option" "string option" "string option" "string option"
  | Renew cert_lookup "int option"
  | Rekey cert_lookup "key_algorithm option" "int option"
  | Revoke cert_lookup
  | Ignore string "string option"
  | Unignore string
  | DeleteCert string
  | DeleteCsr int
  | Rename string string bool
  | GenerateCrl
  | GetCrl
  | ReSign int
  | Publish cert_lookup
  | UploadDatabase string
  | UploadCert string
  | UploadCrl string
  | TestStores
  | SignSubordinate string "string list" "int option" "(string \<times> string) option"
  | RenewSubordinate int string "string list option" bool "int option"
  | RevokeSubordinate int
  | OperatorIdentity int
  | StoreDatabase
  | IssueCertificate x509_req cert_type "int option"
  | StoreCertbundle certificate_bundle "string option" "string option" bool

definition void :: "('s, 'a) comp \<Rightarrow> ('s, unit) comp" where
  "void m = vbind m (\<lambda>_. vret ())"

fun perform :: "('v, 'm) ca_env_scheme \<Rightarrow> ca_request \<Rightarrow> ('v, unit) ca_comp" where
  "perform env (Generate ct title config days) = void (generate_certificate_bundle env ct title config days)"
| "perform env (ImportBundle cert key chain pass title) = void (import_certificate_bundle env cert key chain pass title)"
| "perform env (Renew l days) = void (renew_certificate_bundle env l days)"
| "perform env (Rekey l alg days) = void (rekey_certificate_bundle env l alg days)"
| "perform env (Revoke l) = void (revoke_certificate env l)"
| "perform env (Ignore serial why) = ignore_certificate env serial why"
| "perform env (Unignore serial) = unignore_certificate env serial"
| "perform env (DeleteCert serial) = void (delete_certificate env serial)"
| "perform env (DeleteCsr i) = void (ca_delete_csr env i)"
| "perform env (Rename src dst persist) = rename_certbundle env src dst persist"
| "perform env GenerateCrl = void (generate_crl env)"
| "perform env GetCrl = void (get_crl env)"
| "perform env (ReSign days) = ca_re_sign env days"
| "perform env (Publish l) = void (publish_certificate env l)"
| "perform env (UploadDatabase uri) = upload_ca_database env uri"
| "perform env (UploadCert uri) = upload_ca_cert env uri"
| "perform env (UploadCrl uri) = upload_crl env uri"
| "perform env TestStores = void (test_stores env)"
| "perform env (SignSubordinate csr domains days endpoint) = void (sign_subordinate_at env csr domains days endpoint)"
| "perform env (RenewSubordinate i csr domains change days) = void (renew_subordinate env i csr domains change days)"
| "perform env (RevokeSubordinate i) = void (revoke_subordinate env i)"
| "perform env (OperatorIdentity serial) = void (operator_identity env serial)"
| "perform env StoreDatabase = store_ca_database env"
| "perform env (IssueCertificate csr ct days) = void (issue_certificate env csr ct days)"
| "perform env (StoreCertbundle bundle issuer subj persist) = store_certbundle_for env bundle issuer subj persist"

text \<open>Every operation that concerns a broker, in the code's \<^verbatim>\<open>acme_broker\<close> module.\<close>

datatype broker_request =
    AskStatus operator int
  | PauseBroker operator int bool
  | RevokeLeaf operator int string nat
  | RecordAnswers "broker_answer list"
  | EnrolBroker operator pairing enrolment_offer issuance_config
  | RenewBroker operator int bool
  | RenewAllBrokers operator
  | RevokeBroker operator int

fun perform_broker :: "('v, 'm) ca_env_scheme \<Rightarrow> 'v broker_lib \<Rightarrow> broker_request \<Rightarrow> ('v, unit) ca_comp" where
  "perform_broker env bl (AskStatus op i) = void (broker_status env bl op i)"
| "perform_broker env bl (PauseBroker op i paused) = void (pause_broker env bl op i paused)"
| "perform_broker env bl (RevokeLeaf op i serial reason) = void (revoke_broker_cert env bl op i serial reason)"
| "perform_broker env bl (RecordAnswers answers) = void (record_answers env bl answers)"
| "perform_broker env bl (EnrolBroker op p shown terms) = void (enrol_broker env bl op p shown terms)"
| "perform_broker env bl (RenewBroker op i change) = void (renew_broker env bl op i change)"
| "perform_broker env bl (RenewAllBrokers op) = void (renew_all_brokers env bl op)"
| "perform_broker env bl (RevokeBroker op i) = void (revoke_broker env bl op i)"

lemma grows_void [obeys_rules]: "obeys (grows lib horizon) m \<Longrightarrow> obeys (grows lib horizon) (void m)"
  unfolding void_def by (intro obeys_rules)

lemma grows_test_each [obeys_rules]: "obeys (grows lib horizon) (test_each env creds stores)"
  by (induction env creds stores rule: test_each.induct)
    (auto simp: test_store_def intro!: obeys_rules split: option.split res.split)

lemma grows_out: "grows lib horizon (s\<lparr> s_out := v \<rparr>) s' \<longleftrightarrow> grows lib horizon s s'"
  "grows lib horizon s (s'\<lparr> s_out := v \<rparr>) \<longleftrightarrow> grows lib horizon s s'"
  by (simp_all add: grows_def)

lemma grows_operator [obeys_rules]:
  fixes env :: "('v, 'm) ca_env_scheme"
  shows "obeys (grows lib horizon) (operator_key env)"
proof -
  let ?make = "vbind (vlift (generate_private_key (e_crypto env) (e_seed env) EcP256)) (\<lambda>key.
          vbind (vlift (openssl_pem (ky_pem key))) (\<lambda>pem.
          vbind (vlift (assign (e_ops env) ''private_key'' pem)) (\<lambda>field.
          vbind (outside (call (v_create_item (e_ops env) operator_title category_item [field]))) (\<lambda>_. vret key))))"
  have "obeys (grows lib horizon) ?make" by (intro obeys_rules)
  then have "\<forall>s. grows lib horizon s (snd (?make s))" unfolding obeys_def .
  then have make: "grows lib horizon (s\<lparr> s_out := v \<rparr>) (snd (?make (s\<lparr> s_out := v \<rparr>)))" for s :: "'v ca_state" and v
    by (rule spec)
  have "grows lib horizon s (snd (?make (s\<lparr> s_out := v \<rparr>)))" for s :: "'v ca_state" and v
    using make [of v s] by (simp only: grows_out)
  then show ?thesis
    unfolding obeys_def operator_key_def
    by (auto simp: grows_out growth.same split: prod.split sum.split op_error.split)
qed

lemma grows_subordinate [obeys_rules]:
  "obeys (grows lib horizon) (the_broker env i)" "obeys (grows lib horizon) (active_broker env i)"
  "obeys (grows lib horizon) (subordinate_days env requested)"
  "obeys (grows lib horizon) (issue_subordinate env csr domains days)"
  "obeys (grows lib horizon) (signed env i bundle)"
  unfolding issue_subordinate_def subordinate_days_def signed_def active_broker_def the_broker_def
  by (intro obeys_rules)+

lemma grows_add_broker [obeys_rules]:
  "obeys (grows lib horizon) (run_db (\<lambda>db. Ok (add_broker json stamp serial domains db)))"
  by (rule grows_run_db, rule allowed_frame) (auto simp: add_broker_def Let_def config_ok_def)

text \<open>An environment with the library's clock at or before the horizon.\<close>

definition timely :: "chrono \<Rightarrow> int \<Rightarrow> ('v, 'm) ca_env_scheme \<Rightarrow> bool" where
  "timely lib horizon env \<longleftrightarrow> e_chrono env = lib \<and> e_now env \<le> horizon \<and> stamp_of env \<noteq> []"

lemma grows_scan: "timely lib horizon env \<Longrightarrow> obeys (grows lib horizon) (on_db (scan_db env rv force))"
  by (rule grows_on_db, rule allowed_scan) (simp_all add: timely_def)

lemma grows_raise [obeys_rules]: "obeys (grows lib horizon) (on_db (raise_next_serial n))"
  by (rule grows_on_db, rule allowed_frame)
    (auto simp: raise_next_serial_def update_config_def config_ok_row tbl_update_def updated_row_def split: if_splits)

lemma grows_perform:
  fixes env :: "('v, 'm) ca_env_scheme"
  assumes "timely lib horizon env"
  shows "obeys (grows lib horizon) (perform env q)"
proof -
  note scan = grows_scan [OF assms]
  have revoke: "obeys (grows lib horizon) (revoke_certificate env l)" for l
    unfolding revoke_certificate_def by (intro obeys_rules scan)
  have delete: "obeys (grows lib horizon) (delete_certificate env serial)" for serial
    unfolding delete_certificate_def by (intro obeys_rules scan)
  have crl: "obeys (grows lib horizon) (generate_crl env)"
    unfolding generate_crl_def by (intro obeys_rules scan)
  show ?thesis
    by (cases q; simp only: perform.simps generate_certificate_bundle_def import_certificate_bundle_def
        renew_certificate_bundle_def rekey_certificate_bundle_def ignore_certificate_def unignore_certificate_def
        ca_delete_csr_def ca_re_sign_def publish_certificate_def upload_ca_database_def private_store_uri_def
        upload_ca_cert_def upload_crl_def public_uri_def get_certificate_def test_stores_def sign_subordinate_at_def
        renew_subordinate_def revoke_subordinate_def operator_identity_def;
        intro obeys_rules revoke delete crl)
qed

text \<open>The operations on brokers: what they ask is outside, what they record is other tables.\<close>

lemma grows_asking [obeys_rules]: "obeys (grows lib horizon) (asking f)" "obeys (grows lib horizon) (answer_of f)"
  unfolding asking_def answer_of_def by (intro obeys_rules)+

lemma grows_sync [obeys_rules]:
  "obeys (grows lib horizon) (contacted env i)" "obeys (grows lib horizon) (reported env i status)"
  "obeys (grows lib horizon) (record_issued env bl i issued)" "obeys (grows lib horizon) (sync_cursor i)"
  "obeys (grows lib horizon) (sync_issued env bl c i)" "obeys (grows lib horizon) (chain_of pem)"
  unfolding sync_issued_def try_sync_issued_def sync_cursor_def record_issued_def reported_def contacted_def chain_of_def get_certificate_def
  by (intro obeys_rules)+

lemma grows_record_each [obeys_rules]: "obeys (grows lib horizon) (record_each env bl answers un)"
  by (induction answers arbitrary: un) (auto intro!: obeys_rules split: sum.split)

lemma grows_sign_at [obeys_rules]:
  "obeys (grows lib horizon) (list_subordinates env)"
  "obeys (grows lib horizon) (sign_subordinate_at env csr domains days endpoint)"
  "obeys (grows lib horizon) (renew_subordinate env i csr requested change days)"
  unfolding sign_subordinate_at_def renew_subordinate_def list_subordinates_def by (intro obeys_rules)+

lemma grows_renewing [obeys_rules]:
  "obeys (grows lib horizon) (renew_and_send env bl c b current fresh domains change)"
  "obeys (grows lib horizon) (try_renew env bl op b change)"
  unfolding try_renew_def renew_and_send_def Let_def by (intro obeys_rules)+

lemma grows_renew_at [obeys_rules]: "obeys (grows lib horizon) (renew_at env bl op b change)"
  unfolding renew_at_def
  by (rule growth.obeys_vbind, intro obeys_rules) (auto intro!: obeys_rules split: res.split opca_error.split)

lemma grows_renew_each [obeys_rules]: "obeys (grows lib horizon) (renew_each env bl op bs)"
  by (induction bs) (auto intro!: obeys_rules)

lemma grows_enrolling [obeys_rules]:
  "obeys (grows lib horizon) (undelivered env bl e offer domains)"
  "obeys (grows lib horizon) (subordinate_for env bl e offer domains)"
  unfolding subordinate_for_def undelivered_def subordinate_pem_def Let_def by (intro obeys_rules)+

lemma grows_perform_broker:
  fixes env :: "('v, 'm) ca_env_scheme"
  assumes "timely lib horizon env"
  shows "obeys (grows lib horizon) (perform_broker env bl q)"
proof -
  have revoke: "obeys (grows lib horizon) (revoke_subordinate env i)" for i
    unfolding revoke_subordinate_def revoke_certificate_def by (intro obeys_rules grows_scan [OF assms])
  have revoking: "obeys (grows lib horizon) (case br_state b of Active \<Rightarrow> revoke_subordinate env i | RevokedBroker \<Rightarrow> vret b)" for b i
    using revoke by (simp add: growth.obeys_pure split: broker_state.split)
  show ?thesis
    by (cases q; simp only: perform_broker.simps broker_status_def pause_broker_def revoke_broker_cert_def record_answers_def
        enrol_broker_def renew_broker_def renew_all_brokers_def revoke_broker_def watched_brokers_def Let_def;
        intro obeys_rules revoking)
qed

section \<open>Runs\<close>

text \<open>
  A step: an operation, completed or failed half-way, in some environment whose clock is at or before
  the horizon, with or without a broker to call, or a change of the outside world by someone else.
\<close>

inductive ca_step :: "chrono \<Rightarrow> int \<Rightarrow> 'v ca_state \<Rightarrow> 'v ca_state \<Rightarrow> bool" for lib horizon where
  Operation: "timely lib horizon (env :: 'v ca_env) \<Longrightarrow> ca_step lib horizon s (snd (perform env q s))"
| Broker_Operation: "timely lib horizon (env :: 'v ca_env) \<Longrightarrow> ca_step lib horizon s (snd (perform_broker env bl b s))"
| Elsewhere: "ca_step lib horizon s (s\<lparr> s_out := v \<rparr>)"

inductive_cases ca_stepE: "ca_step lib horizon s s'"

lemma run_grows: "(ca_step lib horizon)\<^sup>*\<^sup>* s s' \<Longrightarrow> grows lib horizon s s'"
proof (induction rule: rtranclp_induct)
  case base
  then show ?case by (rule growth.same)
next
  case (step b c)
  from step(2) have "grows lib horizon b c"
  proof cases
    case (Operation env q)
    then show ?thesis using grows_perform unfolding obeys_def by blast
  next
    case (Broker_Operation env bl q)
    then show ?thesis using grows_perform_broker unfolding obeys_def by blast
  next
    case (Elsewhere v)
    then show ?thesis by (simp add: grows_out growth.same)
  qed
  then show ?case using step(3) growth.compose by blast
qed

end
