(* ===== verification/Ca_Guarantees.thy ===== *)
theory Ca_Guarantees
  imports Ca_Run
begin

text \<open>
  What the certificate authority promises: properties of whole runs of operations and of single
  operations, each with an example in a concrete environment.
\<close>

section \<open>An environment for the examples\<close>

text \<open>A vault in memory, dates as numbers of seconds, CRLs that print their entries.\<close>

definition example_env :: "int \<Rightarrow> memory ca_env" where
  "example_env now =
     \<lparr> e_chrono = seconds_chrono, e_crypto = example_crypto, e_json = list_json, e_ops = memory_vault,
       e_items = (\<lambda>c m. (Inr [], m)), e_field = (\<lambda>item l. Option.bind (map_of (it_fields item) l) (\<lambda>x. x)),
       e_now = now, e_user = ''ca@example.com'', e_seed = 0, e_order = sorted_list_of_set,
       e_dump = (\<lambda>db. ''dump''), e_dump_binary = (\<lambda>db. ''binary''), e_load = (\<lambda>s. Ok (db_new empty_config)),
       e_sha256 = (\<lambda>s. s), e_explicit_curve = (\<lambda>r. False), e_verify_csr = (\<lambda>r. Inl ''unsigned''),
       e_req_from_der = (\<lambda>s. Inl ''not DER''), e_issue = (\<lambda>ca key csr profile serial nb na. Ok ca),
       e_verified_by = (\<lambda>ca c. False), e_serial = Ok, e_crl = (\<lambda>ca key n t u revoked. Ok (concat (map fst revoked))),
       e_crl_view = (\<lambda>s. Inr \<lparr> cv_issuer = None, cv_this_update = now, cv_next_update = None, cv_number = None, cv_revoked = [] \<rparr>), e_upload = (\<lambda>b text uri vis. vret ()), e_test_connection = (\<lambda>b uri. vret ()),
       e_aws_setting = None, e_op_item = (\<lambda>i m. (Inl (OpItemNotFound i), m)), e_backup = (\<lambda>sql m. m),
       e_vault_name = ''vault'', e_lowercase = to_ascii_lowercase, e_account = None \<rparr>"

definition example_state :: "ca_db \<Rightarrow> memory ca_state" where
  "example_state db = \<lparr> s_bundle = Some example_bundle, s_db = Some db, s_crl = None, s_backup = False, s_out = Map.empty \<rparr>"

lemma timely_example: "now \<le> horizon \<Longrightarrow> timely seconds_chrono horizon (example_env now)"
  using nat_to_string_digits
  by (simp add: timely_def example_env_def stamp_of_def format_datetime_def seconds_chrono_def int_to_string_def)

section \<open>Nothing is lost\<close>

text \<open>
  C1: whatever operations a CA is asked for, in any order and failed ones included, its database stays
  well formed and no certificate ever leaves it: the row keeps its serial number, its common name, its
  expiry date and, once revoked, its revocation date.
\<close>

theorem certificates_never_lost:
  assumes "(ca_step lib horizon)\<^sup>*\<^sup>* s s'" "s_db s = Some db" "db_ok lib horizon db" "cert_at db n = Some r"
  shows "\<exists>db' r'. s_db s' = Some db' \<and> db_ok lib horizon db' \<and> cert_at db' n = Some r'
    \<and> cr_cn r' = cr_cn r \<and> cr_expiry_date r' = cr_expiry_date r
    \<and> (\<forall>d. cr_revocation_date r = Some d \<and> d \<noteq> [] \<longrightarrow> cr_revocation_date r' = Some d)"
proof -
  obtain db' where db': "s_db s' = Some db'" "db_ok lib horizon db'" "kept db db'"
    using run_grows [OF assms(1)] assms(2,3) by (auto simp: grows_def)
  then obtain r' where "cert_at db' n = Some r'" "same_cert r r'" using assms(4) by (auto simp: kept_def)
  then show ?thesis using db' by (auto simp: same_cert_def)
qed

text \<open>A database with one certificate, revoked and listed as such.\<close>

definition revoked_row :: cert_record where
  "revoked_row = (blank_cert ''3'')\<lparr> cr_cn := Some ''vpn'', cr_status := Some ''Revoked'',
     cr_expiry_date := Some ''900000000'', cr_revocation_date := Some ''1000'' \<rparr>"

definition revoked_db :: ca_db where
  "revoked_db = (db_new empty_config)\<lparr> t_certs := [revoked_row], dirty := False, certs_revoked := {''3''} \<rparr>"

lemma revoked_row_fields:
  "cr_serial revoked_row = ''3''" "cr_revocation_date revoked_row = Some ''1000''"
  "readable_expiry seconds_chrono (cr_expiry_date revoked_row) = Some (900000000 * second_ns)"
  using sample_expiry by (simp_all add: revoked_row_def blank_cert_def)

lemma revoked_db_ok: "db_ok seconds_chrono horizon revoked_db" "cert_at revoked_db ''3'' = Some revoked_row"
  by (simp_all add: db_ok_def listed_def revoked_db_def db_new_def certs_keyed_def external_keyed_def tbl_keyed_def
      config_ok_def insert_config_def revoked_row_fields cert_at_def tbl_lookup_def)

theorem certificates_never_lost_witness:
  "\<exists>db' r'. s_db (snd (perform (example_env sample_now) (Revoke (BySerial ''3'')) (example_state revoked_db))) = Some db'
     \<and> cert_at db' ''3'' = Some r' \<and> cr_revocation_date r' = Some ''1000''"
proof -
  let ?s = "example_state revoked_db"
  let ?s' = "snd (perform (example_env sample_now) (Revoke (BySerial ''3'')) ?s)"
  have "ca_step seconds_chrono sample_now ?s ?s'" by (rule Operation) (simp add: timely_example)
  then have run: "(ca_step seconds_chrono sample_now)\<^sup>*\<^sup>* ?s ?s'" by (rule r_into_rtranclp)
  have db: "s_db ?s = Some revoked_db" by (simp add: example_state_def)
  show ?thesis
    using certificates_never_lost [OF run db revoked_db_ok] by (auto simp: revoked_row_fields)
qed

section \<open>The CRL\<close>

text \<open>Completed computations, step by step.\<close>

lemma completed:
  "the_db s = (Ok db, s') \<longleftrightarrow> s' = s \<and> s_db s = Some db"
  "vlift r s = (Ok x, s') \<longleftrightarrow> r = Ok x \<and> s' = s"
  "vret y s = (Ok x, s') \<longleftrightarrow> x = y \<and> s' = s"
  "gets f s = (Ok x, s') \<longleftrightarrow> f s = Ok x \<and> s' = s"
  "the_config s = (Ok c, s') \<longleftrightarrow> s' = s \<and> (\<exists>db. s_db s = Some db \<and> get_config db = Ok c)"
  "on_db g s = (Ok u, s') \<longleftrightarrow> (\<exists>db db'. s_db s = Some db \<and> g db = Ok db' \<and> s' = s\<lparr> s_db := Some db' \<rparr>)"
  by (auto simp: the_db_def the_config_def gets_def vlift_def vret_def vbind_Ok_iff on_db_run split: option.splits res.splits)

text \<open>What a CRL that was signed contains.\<close>

definition revoked_entry :: "('v, 'm) ca_env_scheme \<Rightarrow> crl_entry \<Rightarrow> (string \<times> int) res" where
  "revoked_entry env entry =
     rbind (parse_datetime (e_chrono env) (ce_revocation_date entry) Openssl) (\<lambda>revoked_at.
       rmap (\<lambda>serial. (serial, revoked_at)) (e_serial env (ce_serial entry)))"

lemma build_batch_each:
  assumes "build_batch env ca_cert ca_key batch entries = Ok crls" "c \<in> set crls"
  shows "\<exists>number t u revoked. rmap_all (revoked_entry env) entries = Ok revoked \<and> e_crl env ca_cert ca_key number t u revoked = Ok c"
proof -
  obtain i where "build_crl env ca_cert ca_key (wrap_i64 (cb_first_number batch + i)) (batch_this_update batch i)
      (batch_next_update batch i) entries = Ok c"
    using assms by (auto simp: build_batch_def rmap_all_eq_Ok list_all2_conv_all_nth in_set_conv_nth)
  then show ?thesis unfolding build_crl_def revoked_entry_def [abs_def] by (auto split: if_splits)
qed

lemma first_Ok_iff: "(case xs of c # _ \<Rightarrow> Ok c | [] \<Rightarrow> Panic p) = Ok x \<longleftrightarrow> (\<exists>cs. xs = x # cs)"
  by (cases xs) auto

lemma generate_crl_built:
  assumes "generate_crl env s = (Ok crl, s')"
  shows "\<exists>db db' ca_cert ca_key config uri number crls before. s_db s = Some db \<and> scan_db env None False db = Ok db'
    \<and> get_config db' = Ok config \<and> crl_batch_uri config = Ok uri
    \<and> build_batch env ca_cert ca_key (crl_plan env config uri number) (crl_entries (e_order env) db') = Ok (crl # crls)
    \<and> upload_batch env uri (crl # crls) before = (Ok (), s')"
proof -
  obtain db db' ca_cert ca_key config uri number crls before where "s_db s = Some db" "scan_db env None False db = Ok db'"
    "get_config db' = Ok config" "crl_batch_uri config = Ok uri"
    "build_batch env ca_cert ca_key (crl_plan env config uri number) (crl_entries (e_order env) db') = Ok (crl # crls)"
    "upload_batch env uri (crl # crls) before = (Ok (), s')"
    using assms unfolding generate_crl_def Let_def by (auto simp: vbind_Ok_iff completed first_Ok_iff)
  then show ?thesis by metis
qed

lemma rmap_all_member: "rmap_all f xs = Ok ys \<Longrightarrow> x \<in> set xs \<Longrightarrow> \<exists>y \<in> set ys. f x = Ok y"
  by (induction xs arbitrary: ys) auto

lemma scan_settles: "scan_db env rv force db = Ok db' \<Longrightarrow> \<not> dirty db'"
  by (auto simp: scan_db_def process_ca_database_def Let_def split: if_splits)

text \<open>
  C2: a revocation is never forgotten: whatever operations follow, failed ones included, every CRL
  the CA signs before the certificate expires lists it, with its serial number and the date of its
  revocation, as long as the clock has not passed that expiry. That is each CRL of the batch when CRLs
  are signed ahead for a private store (the first of them is the one published and answered, and all of
  them, in order, are what is uploaded), and the one CRL otherwise.
\<close>

theorem revoked_stays_on_crl:
  assumes "(ca_step lib horizon)\<^sup>*\<^sup>* s s'" "s_db s = Some db" "db_ok lib horizon db" "cert_at db n = Some r"
    and "cr_revocation_date r = Some d" "d \<noteq> []" "readable_expiry lib (cr_expiry_date r) = Some e" "horizon \<le> e"
    and "timely lib horizon env" "enumerates (e_order env)" "generate_crl env s' = (Ok crl, s'')"
  shows "\<exists>config uri crls before serial revoked_at.
    crl_batch_uri config = Ok uri \<and> length (crl # crls) = (if uri = None then 1 else nat crl_batch_size)
    \<and> upload_batch env uri (crl # crls) before = (Ok (), s'')
    \<and> e_serial env n = Ok serial \<and> parse_datetime lib d Openssl = Ok revoked_at
    \<and> (\<forall>c \<in> set (crl # crls). \<exists>ca_cert ca_key number t u revoked.
          e_crl env ca_cert ca_key number t u revoked = Ok c \<and> (serial, revoked_at) \<in> set revoked)"
proof -
  obtain db1 where db1: "s_db s' = Some db1" "db_ok lib horizon db1" "kept db db1"
    using run_grows [OF assms(1)] assms(2,3) by (auto simp: grows_def)
  obtain db2 ca_cert ca_key config uri number crls before where scan: "scan_db env None False db1 = Ok db2"
    and uri: "crl_batch_uri config = Ok uri"
    and built: "build_batch env ca_cert ca_key (crl_plan env config uri number) (crl_entries (e_order env) db2) = Ok (crl # crls)"
    and upload: "upload_batch env uri (crl # crls) before = (Ok (), s'')"
    using generate_crl_built [OF assms(11)] db1(1) by auto
  have "allowed lib horizon (scan_db env None False)" using assms(9) by (intro allowed_scan) (simp_all add: timely_def)
  then have db2: "db_ok lib horizon db2" "kept db db2"
    using db1(2,3) scan kept_trans unfolding allowed_def by blast+
  obtain r2 where at: "cert_at db2 n = Some r2" and same: "same_cert r r2" using db2(2) assms(4) by (auto simp: kept_def)
  have row: "r2 \<in> set (t_certs db2)" "cr_serial r2 = n"
    using at by (auto simp: cert_at_def tbl_lookup_def find_Some_iff)
  have "\<not> dirty db2" using scan scan_settles by blast
  then have "n \<in> certs_revoked db2"
    using db2(1) row same assms(5-8) unfolding db_ok_def listed_def same_cert_def by fastforce
  then have entry: "\<lparr> ce_serial = n, ce_revocation_date = d \<rparr> \<in> set (crl_entries (e_order env) db2)"
    using db2(1) assms(5,6,10) at same
    by (auto simp: db_ok_def crl_entries_def set_map_filter query_by_serial enumerates_def same_cert_def intro!: bexI [of _ n])
  note each = build_batch_each [OF built]
  obtain revoked where "rmap_all (revoked_entry env) (crl_entries (e_order env) db2) = Ok revoked" using each [of crl] by auto
  note entries = this
  then obtain x where x: "x \<in> set revoked" "revoked_entry env \<lparr> ce_serial = n, ce_revocation_date = d \<rparr> = Ok x"
    using rmap_all_member [OF _ entry] by blast
  then obtain serial revoked_at where dates: "x = (serial, revoked_at)" "e_serial env n = Ok serial" "parse_datetime lib d Openssl = Ok revoked_at"
    using assms(9) by (auto simp: revoked_entry_def timely_def)
  have "length (crl # crls) = (if uri = None then 1 else nat crl_batch_size)"
    using rmap_all_length [OF built [unfolded build_batch_def]] by (simp add: crl_plan_def)
  moreover have "\<exists>ca_cert ca_key number t u revoked. e_crl env ca_cert ca_key number t u revoked = Ok c \<and> (serial, revoked_at) \<in> set revoked"
    if "c \<in> set (crl # crls)" for c
    using each [OF that] x(1) entries dates(1) by (metis res.inject(1))
  ultimately show ?thesis using uri upload dates(2,3) by (intro exI [of _ config] exI [of _ uri] exI [of _ crls] exI [of _ before] exI [of _ serial] exI [of _ revoked_at] conjI ballI)
qed

lemma parse_1000: "parse_datetime seconds_chrono ''1000'' Openssl = Ok (1000 * second_ns)"
proof -
  have "parse_i64 ''1000'' = Some 1000"
    by (simp add: parse_i64_def parse_digits_def digits_val_def digit_val_def is_ascii_digit_def byte_def i64_defs)
  then show ?thesis by (simp add: parse_datetime_def seconds_chrono_def)
qed

lemma example_crl: "fst (generate_crl (example_env sample_now) (example_state revoked_db)) = Ok ''3''"
proof -
  have scan: "scan_db (example_env sample_now) None False revoked_db = Ok revoked_db"
    by (simp add: scan_db_def process_ca_database_def revoked_db_def)
  have entries: "crl_entries sorted_list_of_set revoked_db = [\<lparr> ce_serial = ''3'', ce_revocation_date = ''1000'' \<rparr>]"
  proof -
    have "sorted_list_of_set (certs_revoked revoked_db) = [''3'']" by (simp add: revoked_db_def)
    then show ?thesis
      by (simp add: crl_entries_def query_by_serial revoked_db_ok revoked_row_fields map_filter_simps)
  qed
  have config: "get_config revoked_db = Ok c \<Longrightarrow> crl_batch_uri c = Ok None" for c
    by (auto simp: revoked_db_def db_new_def get_config_def insert_config_def config_of_row_def empty_config_def crl_batch_uri_def)
  obtain c where c: "get_config revoked_db = Ok c" by (auto simp: revoked_db_def db_new_def get_config_def insert_config_def)
  obtain db' where next_number: "increment_serial CrlSerial None revoked_db = Ok (1, db')"
    using increment_serial_step [of revoked_db CrlSerial None]
    by (auto simp: revoked_db_def db_new_def config_ok_def insert_config_def bumped_def serial_level_def serial_of_def
        serial_column_def empty_config_def read_serial_def parse_i64_def)
  define batch where "batch = crl_plan (example_env sample_now) c None 1"
  have crls: "build_batch (example_env sample_now) example_cert example_key batch [\<lparr> ce_serial = ''3'', ce_revocation_date = ''1000'' \<rparr>]
      = Ok [''3'']"
    by (simp add: build_batch_def batch_def crl_plan_def build_crl_def example_env_def parse_1000 wrap_i64_def i64_defs)
  have metadata: "\<exists>m. parse_crl_metadata (example_env sample_now) x = Ok m" for x
    by (simp add: parse_crl_metadata_def example_env_def crypto_err_def)
  then obtain m where m: "parse_crl_metadata (example_env sample_now) ''3'' = Ok m" by blast
  have env: "e_order (example_env sample_now) = sorted_list_of_set" "e_ops (example_env sample_now) = memory_vault"
    by (simp_all add: example_env_def)
  have fields: "bd_certificate example_bundle = Some example_cert" "bd_private_key example_bundle = Some example_key"
    by (simp_all add: example_bundle_def)
  show ?thesis
    by (simp add: generate_crl_def vbind_def on_db_run run_db_run the_config_def the_db_def gets_def vlift_def Let_def
        example_state_def scan c config [OF c] fields env entries next_number crls [unfolded batch_def] m
        outside_def put_document_def memory_vault_def memory_change_def call_def store_ca_database_def
        update_db_fingerprint_def write_backup_def upload_batch_def vret_def crl_title_def ca_database_title_def)
qed

theorem revoked_stays_on_crl_witness:
  "\<exists>crl ca_cert ca_key number t u revoked.
     fst (generate_crl (example_env sample_now) (snd (perform (example_env sample_now) GetCrl (example_state revoked_db)))) = Ok crl
     \<and> e_crl (example_env sample_now) ca_cert ca_key number t u revoked = Ok crl \<and> (''3'', 1000 * second_ns) \<in> set revoked"
proof -
  let ?env = "example_env sample_now" and ?s = "example_state revoked_db"
  have same: "snd (perform ?env GetCrl ?s) = ?s"
    by (simp add: void_def get_crl_def example_state_def outside_def document_text_def example_env_def memory_vault_def
        call_def vbind_def vret_def)
  have "ca_step seconds_chrono sample_now ?s (snd (perform ?env GetCrl ?s))" by (rule Operation) (simp add: timely_example)
  then have run: "(ca_step seconds_chrono sample_now)\<^sup>*\<^sup>* ?s ?s" unfolding same by (rule r_into_rtranclp)
  obtain s'' where crl: "generate_crl ?env ?s = (Ok ''3'', s'')" using example_crl by (metis prod.collapse)
  have "s_db ?s = Some revoked_db" "enumerates (e_order ?env)" "sample_now \<le> 900000000 * second_ns" "timely seconds_chrono sample_now ?env"
    using enumerates_sorted by (simp_all add: example_state_def example_env_def sample_now_def second_ns_def timely_example [unfolded example_env_def])
  then obtain ca_cert ca_key number t u revoked where "e_crl ?env ca_cert ca_key number t u revoked = Ok ''3''"
    "(''3'', 1000 * second_ns) \<in> set revoked"
    using revoked_stays_on_crl [OF run _ revoked_db_ok(1,2) revoked_row_fields(2) _ revoked_row_fields(3) _ _ _ crl] parse_1000
    by (fastforce simp: example_env_def)
  then show ?thesis using crl same by (metis fst_conv)
qed

end
