(* ===== verification/Ca_Restore.thy ===== *)
theory Ca_Restore
  imports Local_Backup Ca_Guarantees
begin

text \<open>
  Replacing an unreadable database by a local backup's dump (\<^verbatim>\<open>restore_from_backup\<close> of \<^verbatim>\<open>services/ca.rs\<close>). The disk
  is a part of the outside world.
\<close>

record 'v disk_view =
  dv_disk :: "'v \<Rightarrow> disk"
  dv_set :: "disk \<Rightarrow> 'v \<Rightarrow> 'v"

definition on_disk :: "'v disk_view \<Rightarrow> (disk, 'a) comp \<Rightarrow> ('v, 'a) comp" where
  "on_disk dv m v = (case m (dv_disk dv v) of (r, d) \<Rightarrow> (r, dv_set dv d v))"

definition source_of_vault :: "('v, 'm) ca_env_scheme \<Rightarrow> string \<Rightarrow> backup_source" where
  "source_of_vault env vault_id = \<lparr> bs_vault = e_vault_name env, bs_vault_id = Some vault_id \<rparr>"

definition another_vault :: "backup_lib \<Rightarrow> string \<Rightarrow> string \<Rightarrow> backup_source option" where
  "another_vault lib vault_id contents =
     (case read_source lib contents of
        Some source \<Rightarrow> (case bs_vault_id source of
            Some i \<Rightarrow> if i \<noteq> vault_id then Some source else None | None \<Rightarrow> None)
      | None \<Rightarrow> None)"

definition restore_from_backup ::
  "('v, 'm) ca_env_scheme \<Rightarrow> backup_lib \<Rightarrow> 'v disk_view \<Rightarrow> string \<Rightarrow> string \<Rightarrow> local_backup \<Rightarrow> ('v, unit) ca_comp" where
  "restore_from_backup env lib dv vault_id contents unreadable_copy_to =
     (case another_vault lib vault_id contents of
        Some source \<Rightarrow>
          vfail (OtherErr (''Backup is from vault '' @ debug_str (bs_vault source) @ '', not the connected vault ''
                   @ debug_str (e_vault_name env)))
      | None \<Rightarrow>
          (let sql = strip_header contents
           in vbind (vlift (from_sql_dump env sql)) (\<lambda>db.
              vbind (retrieve_certbundle env ca_title) (\<lambda>b.
              vbind (vlift (ok_or CaNotFound b)) (\<lambda>bundle.
              vbind (vlift (get_certificate_attrib (e_chrono env) (e_crypto env) bundle ''serial'')) (\<lambda>ca_serial.
                if (case query_cert (ByTitle ca_title) False db of None \<Rightarrow> True | Some row \<Rightarrow> Some (cr_serial row) \<noteq> ca_serial)
                then vfail (OtherErr (''Backup belongs to a different CA than this vault'' @ [CHR 0x27] @ ''s CA certificate''))
                else
                  vbind (attempt (outside (document_text (e_ops env) ca_database_title))) (\<lambda>current.
                  vbind (case current of
                           Ok text \<Rightarrow> outside (on_disk dv (write_unreadable lib unreadable_copy_to (source_of_vault env vault_id) (e_now env) text))
                         | _ \<Rightarrow> vret []) (\<lambda>_.
                  vbind (outside (call (v_edit_document (e_ops env) (ItemTitle ca_database_title) ca_database_filename sql))) (\<lambda>_.
                    become bundle (db\<lparr> download_fingerprint := Some (e_sha256 env sql) \<rparr>))))))))))"

section \<open>What a restore checks\<close>

definition same_ca :: "'v ca_state \<Rightarrow> 'v ca_state \<Rightarrow> bool" where
  "same_ca s s' \<longleftrightarrow> s_db s' = s_db s \<and> s_bundle s' = s_bundle s"

lemma same_ca_refl [simp]: "same_ca s s" by (simp add: same_ca_def)

lemma same_ca_trans: "same_ca s s' \<Longrightarrow> same_ca s' s'' \<Longrightarrow> same_ca s s''" by (simp add: same_ca_def)

definition keeps_ca :: "('v, 'a) ca_comp \<Rightarrow> bool" where
  "keeps_ca m \<longleftrightarrow> (\<forall>s. same_ca s (snd (m s)))"

lemma keeps_ca_outside [simp]: "keeps_ca (outside m)"
  by (simp add: keeps_ca_def outside_def same_ca_def split: prod.splits)

lemma keeps_ca_vlift [simp]: "keeps_ca (vlift r)" "keeps_ca (vfail e)" "keeps_ca (vret x)"
  by (simp_all add: keeps_ca_def vlift_def vfail_def vret_def)

lemma keeps_ca_attempt [simp]: "keeps_ca m \<Longrightarrow> keeps_ca (attempt m)"
  unfolding keeps_ca_def attempt_def by (auto split: prod.split res.split) (metis snd_conv)+

lemma keeps_ca_retrieve [simp]: "keeps_ca (retrieve_certbundle env title)"
  by (simp add: keeps_ca_def retrieve_certbundle_def same_ca_def Let_def split: prod.splits sum.splits option.splits)

text \<open>A step that keeps the certificate authority before one that only succeeds or keeps it.\<close>

definition succeeds_or_keeps :: "('v, 'a) ca_comp \<Rightarrow> bool" where
  "succeeds_or_keeps m \<longleftrightarrow> (\<forall>s r s'. m s = (r, s') \<longrightarrow> (\<exists>x. r = Ok x) \<or> same_ca s s')"

lemma succeeds_or_keeps_bind:
  assumes "keeps_ca m" "\<And>x. succeeds_or_keeps (f x)"
  shows "succeeds_or_keeps (vbind m f)"
  unfolding succeeds_or_keeps_def
proof (intro allI impI)
  fix s r s' assume run: "vbind m f s = (r, s')"
  obtain r1 s1 where first: "m s = (r1, s1)" by fastforce
  then have kept: "same_ca s s1" using assms(1) unfolding keeps_ca_def by (metis snd_conv)
  show "(\<exists>x. r = Ok x) \<or> same_ca s s'"
  proof (cases r1)
    case (Ok x)
    then have "f x s1 = (r, s')" using run first by simp
    then show ?thesis using assms(2) [of x] same_ca_trans [OF kept] unfolding succeeds_or_keeps_def by blast
  qed (use run first kept in \<open>auto simp: vbind_def\<close>)
qed

lemma keeps_succeeds_or_keeps: "keeps_ca m \<Longrightarrow> succeeds_or_keeps m"
  unfolding keeps_ca_def succeeds_or_keeps_def by (metis snd_conv)

lemma succeeds_or_keeps_become: "succeeds_or_keeps (become b db)"
  by (simp add: succeeds_or_keeps_def become_def)


text \<open>A vault with its CA and a database that is not one, and a backup with that CA's row.\<close>

definition example_backup_row :: cert_record where
  "example_backup_row = (blank_cert ''1'')\<lparr> cr_title := Some ''CA'' \<rparr>"

definition example_restore_env :: "memory ca_env" where
  "example_restore_env = (example_env 5)\<lparr> e_load := (\<lambda>s. Ok ((db_new empty_config)\<lparr> t_certs := [example_backup_row] \<rparr>)) \<rparr>"

definition example_vault :: memory where
  "example_vault = [''CA'' \<mapsto> ([], [(''certificate'', ''pem'')]), ''CA_Database'' \<mapsto> (''unreadable'', [])]"

definition example_restoring :: "memory ca_state" where
  "example_restoring = \<lparr> s_bundle = None, s_db = None, s_crl = None, s_backup = False, s_out = example_vault \<rparr>"

definition example_disk_view :: "memory disk_view" where
  "example_disk_view = \<lparr> dv_disk = (\<lambda>m. example_disk), dv_set = (\<lambda>d m. m) \<rparr>"

lemma example_restored:
  "fst (restore_from_backup example_restore_env example_files example_disk_view ''v'' ''dump'' example_store example_restoring) = Ok ()"
  by code_simp


end
