(* ===== verification/Vault_Lock.thy ===== *)
theory Vault_Lock
  imports Op_Vault "HOL-Library.List_Lexorder" "HOL-Library.Char_ord" "HOL-Library.Product_Lexorder"
    "HOL-Library.Option_ord"
begin

text \<open>
  The advisory lock of a vault, from \<^verbatim>\<open>crates/opca-core/src/vault_lock.rs\<close>: a lock is an item of the
  vault, every acquirer creates its own, lists them all, and the one created first wins. First the
  operations as the code runs them over a vault, one clock reading for those of one contest; then the
  protocol of several clients whose vault calls interleave, as a step relation in which time passes,
  locks expire and calls fail, with mutual exclusion; last the life of one lock.
\<close>

section \<open>The lock of one client\<close>

definition default_ttl :: nat where "default_ttl = 300"
definition default_lock_title :: string where "default_lock_title = ''CA_Lock''"
definition lock_category :: string where "lock_category = ''Secure Note''"

record held_lock =
  hl_id :: string
  hl_acquired :: int
  hl_ttl :: nat

record vault_lock =
  lock_title :: string
  held :: "held_lock option"

record lock =
  lk_id :: string
  lk_created :: "int option"
  lk_fields :: "string \<rightharpoonup> string"

definition parse_rfc3339 :: "chrono \<Rightarrow> string \<Rightarrow> int option" where
  "parse_rfc3339 lib at = parse_from_rfc3339 lib at"

definition parse_iso :: "chrono \<Rightarrow> string \<Rightarrow> int option" where
  "parse_iso lib ts =
     (case parse_from_str lib ''%Y-%m-%dT%H:%M:%S'' (trim_end_matches CHR ''Z'' ts) of
        Inr t \<Rightarrow> Some t | Inl _ \<Rightarrow> None)"

definition now_utc_iso :: "chrono \<Rightarrow> int \<Rightarrow> string" where
  "now_utc_iso lib now = strftime lib ''%Y-%m-%dT%H:%M:%SZ'' now"

definition rank :: "chrono \<Rightarrow> bool \<Rightarrow> lock \<Rightarrow> int option \<times> string" where
  "rank lib by_server l =
     (if by_server then lk_created l else Option.bind (lk_fields l ''acquired_at'') (parse_iso lib), lk_id l)"

definition lock_field :: "lock \<Rightarrow> string \<Rightarrow> string" where
  "lock_field l label = (case lk_fields l label of Some v \<Rightarrow> v | None \<Rightarrow> [])"

definition held_against_us :: "lock \<Rightarrow> opca_error" where
  "held_against_us l = VaultLocked (lock_field l ''holder_email'') (lock_field l ''holder_name'')
     (lock_field l ''acquired_at'') (lock_field l ''operation'') (lock_field l ''hostname'')"

definition vault_lock_new :: "string option \<Rightarrow> vault_lock" where
  "vault_lock_new title = \<lparr> lock_title = (case title of Some t \<Rightarrow> t | None \<Rightarrow> default_lock_title), held = None \<rparr>"

text \<open>Whole seconds of a difference of instants, towards zero.\<close>

definition num_seconds :: "int \<Rightarrow> int" where
  "num_seconds d = (if 0 \<le> d then d div second_ns else - ((- d) div second_ns))"

definition lock_is_stale :: "chrono \<Rightarrow> int \<Rightarrow> (string \<rightharpoonup> string) \<Rightarrow> bool" where
  "lock_is_stale lib now flds =
     (case flds ''acquired_at'' of
        None \<Rightarrow> True
      | Some acquired_str \<Rightarrow>
          if acquired_str = [] then True
          else (let ttl_str = (case flds ''ttl_seconds'' of Some s \<Rightarrow> s | None \<Rightarrow> nat_to_string default_ttl)
                in case parse_iso lib acquired_str of
                     None \<Rightarrow> True
                   | Some acquired \<Rightarrow>
                       (case parse_u64 ttl_str of
                          None \<Rightarrow> True
                        | Some ttl \<Rightarrow> num_seconds (now - acquired) > wrap_i64 (int ttl))))"

definition current_user :: "'v vault_ops \<Rightarrow> 'v \<Rightarrow> (string \<times> string) \<times> 'v" where
  "current_user ops v =
     (let known = (\<lambda>s. if s = [] then ''unknown'' else s)
      in case v_current_user ops v of
           (Inr u, v') \<Rightarrow> ((known (us_email u), known (us_name u)), v')
         | (Inl e, v') \<Rightarrow> ((''unknown'', ''unknown''), v'))"

definition fields_map :: "(string \<times> string) list \<Rightarrow> (string \<rightharpoonup> string)" where
  "fields_map fs = map_of (rev fs)"

definition read_lock :: "chrono \<Rightarrow> 'v vault_ops \<Rightarrow> string \<Rightarrow> ('v, lock option) comp" where
  "read_lock lib ops i v =
     (case v_item ops (ItemId i) v of
        (Inr item, v') \<Rightarrow>
          (Ok (Some \<lparr> lk_id = it_id item, lk_created = parse_rfc3339 lib (it_created_at item),
             lk_fields = fields_map (map (\<lambda>(l, x). (l, case x of Some t \<Rightarrow> t | None \<Rightarrow> []))
                           (filter (\<lambda>(l, x). l \<noteq> []) (it_fields item))) \<rparr>), v')
      | (Inl (OpItemNotFound m), v') \<Rightarrow> (Ok None, v')
      | (Inl e, v') \<Rightarrow> (Err (opca_error_from_op e), v'))"

definition delete_lock :: "'v vault_ops \<Rightarrow> string \<Rightarrow> ('v, unit) comp" where
  "delete_lock ops i v =
     (case v_delete_item_permanently ops (ItemId i) v of
        (Inr u, v') \<Rightarrow> (Ok (), v')
      | (Inl (OpItemNotFound m), v') \<Rightarrow> (Ok (), v')
      | (Inl e, v') \<Rightarrow> (Err (opca_error_from_op e), v'))"

text \<open>The locks of the others, those deleted meanwhile left out.\<close>

fun read_rivals :: "chrono \<Rightarrow> 'v vault_ops \<Rightarrow> string \<Rightarrow> op_item list \<Rightarrow> lock list \<Rightarrow> ('v, lock list) comp" where
  "read_rivals lib ops mine [] rivals = vret rivals"
| "read_rivals lib ops mine (item # items) rivals =
     (if it_id item \<noteq> mine
      then vbind (read_lock lib ops (it_id item)) (\<lambda>r.
             read_rivals lib ops mine items (rivals @ (case r of Some l \<Rightarrow> [l] | None \<Rightarrow> [])))
      else read_rivals lib ops mine items rivals)"

definition ranks_by_server :: "lock \<Rightarrow> lock list \<Rightarrow> bool" where
  "ranks_by_server mine rivals \<longleftrightarrow> lk_created mine \<noteq> None \<and> list_all (\<lambda>r. lk_created r \<noteq> None) rivals"

definition rivals_ahead :: "chrono \<Rightarrow> lock \<Rightarrow> lock list \<Rightarrow> lock list" where
  "rivals_ahead lib mine rivals =
     (let by_server = ranks_by_server mine rivals
      in takeWhile (\<lambda>r. rank lib by_server r < rank lib by_server mine) (sort_key (rank lib by_server) rivals))"

fun break_rivals :: "chrono \<Rightarrow> 'v vault_ops \<Rightarrow> int \<Rightarrow> lock list \<Rightarrow> ('v, unit) comp" where
  "break_rivals lib ops now [] = vret ()"
| "break_rivals lib ops now (r # rs) =
     (if \<not> lock_is_stale lib now (lk_fields r) then vfail (held_against_us r)
      else vbind (delete_lock ops (lk_id r)) (\<lambda>_. break_rivals lib ops now rs))"

definition contest :: "chrono \<Rightarrow> 'v vault_ops \<Rightarrow> int \<Rightarrow> vault_lock \<Rightarrow> lock \<Rightarrow> ('v, unit) comp" where
  "contest lib ops now self mine =
     vbind (call (v_items_titled ops (lock_title self))) (\<lambda>items.
     vbind (read_rivals lib ops (lk_id mine) items []) (\<lambda>rivals.
       break_rivals lib ops now (rivals_ahead lib mine rivals)))"

text \<open>The fields an acquirer writes, and what it does: \<open>now\<close> is the time it writes, \<open>after\<close> the clock after the contest.\<close>

definition lock_fields :: "chrono \<Rightarrow> string \<Rightarrow> string \<Rightarrow> int \<Rightarrow> string \<Rightarrow> string \<Rightarrow> nat \<Rightarrow> (string \<times> string) list" where
  "lock_fields lib holder_email holder_name now operation hostname ttl =
     [(''holder_email'', holder_email), (''holder_name'', holder_name), (''acquired_at'', now_utc_iso lib now),
      (''operation'', operation), (''hostname'', hostname), (''ttl_seconds'', nat_to_string ttl)]"

definition acquire ::
  "chrono \<Rightarrow> 'v vault_ops \<Rightarrow> string \<Rightarrow> int \<Rightarrow> int \<Rightarrow> string \<Rightarrow> nat \<Rightarrow> vault_lock \<Rightarrow> 'v \<Rightarrow> (unit res \<times> vault_lock) \<times> 'v" where
  "acquire lib ops hostname now after operation ttl self v =
     (let ((holder_email, holder_name), v1) = current_user ops v;
          flds = lock_fields lib holder_email holder_name now operation hostname ttl
      in case call (v_create_item ops (lock_title self) lock_category flds) v1 of
           (Ok created, v2) \<Rightarrow>
             (let mine = \<lparr> lk_id = it_id created, lk_created = parse_rfc3339 lib (it_created_at created),
                           lk_fields = fields_map flds \<rparr>
              in case contest lib ops now self mine v2 of
                   (Ok _, v3) \<Rightarrow>
                     ((Ok (), self\<lparr> held := Some \<lparr> hl_id = lk_id mine, hl_acquired = after, hl_ttl = ttl \<rparr> \<rparr>), v3)
                 | (Err e, v3) \<Rightarrow> ((Err e, self), snd (delete_lock ops (lk_id mine) v3))
                 | (Panic p, v3) \<Rightarrow> ((Panic p, self), v3))
         | (Err e, v2) \<Rightarrow> ((Err e, self), v2)
         | (Panic p, v2) \<Rightarrow> ((Panic p, self), v2))"

definition release :: "'v vault_ops \<Rightarrow> vault_lock \<Rightarrow> 'v \<Rightarrow> (unit res \<times> vault_lock) \<times> 'v" where
  "release ops self v =
     (case held self of
        Some h \<Rightarrow>
          (case delete_lock ops (hl_id h) v of
             (Ok _, v') \<Rightarrow> ((Ok (), self\<lparr> held := None \<rparr>), v')
           | (Err e, v') \<Rightarrow> ((Err e, self), v')
           | (Panic p, v') \<Rightarrow> ((Panic p, self), v'))
      | None \<Rightarrow> ((Ok (), self), v))"

definition is_held :: "vault_lock \<Rightarrow> bool" where
  "is_held self \<longleftrightarrow> held self \<noteq> None"

definition held_within_ttl :: "int \<Rightarrow> vault_lock \<Rightarrow> bool" where
  "held_within_ttl now self =
     (case held self of Some h \<Rightarrow> now - hl_acquired h < int (hl_ttl h) * second_ns | None \<Rightarrow> False)"

section \<open>The protocol\<close>

text \<open>
  Several clients, each running \<^verbatim>\<open>acquire\<close> and \<^verbatim>\<open>release\<close> against one vault, one vault call a step. The
  vault is the list of lock items; the service gives every item an id never used before (\<open>w_past\<close> keeps
  all the locks there ever were) and a creation time no earlier than any before (\<open>w_clock\<close> is the last one).
  Time passes between steps (\<open>w_now\<close>), and the clock of client \<open>c\<close> is \<open>skew c\<close> ahead of it, so a lock goes
  stale for one client before it does for another. A client that stops taking steps has crashed. Any
  vault call of a contest may fail, and so may the deletion of the loser's own lock; a call that fails
  changes nothing in the vault, but for a create whose answer is lost.
\<close>

datatype phase =
    Resting
  | Created lock
  | Reading lock "string list" "lock list"
  | Breaking lock "lock list"
  | Holding lock
  | Losing lock

record lock_world =
  w_locks :: "lock list"
  w_past :: "lock list"
  w_clock :: int
  w_now :: int
  w_phase :: "nat \<Rightarrow> phase"

definition set_phase :: "nat \<Rightarrow> phase \<Rightarrow> lock_world \<Rightarrow> lock_world" where
  "set_phase c p w = w\<lparr> w_phase := (w_phase w)(c := p) \<rparr>"

definition drop_lock :: "string \<Rightarrow> lock_world \<Rightarrow> lock_world" where
  "drop_lock i w = w\<lparr> w_locks := filter (\<lambda>l. lk_id l \<noteq> i) (w_locks w) \<rparr>"

definition add_lock :: "lock \<Rightarrow> int \<Rightarrow> lock_world \<Rightarrow> lock_world" where
  "add_lock l t w = w\<lparr> w_locks := w_locks w @ [l], w_past := w_past w @ [l], w_clock := t \<rparr>"

text \<open>A lock that is past its TTL by the clock of client \<open>c\<close>, as \<^verbatim>\<open>is_stale\<close> has it.\<close>

definition expired_for :: "chrono \<Rightarrow> (nat \<Rightarrow> int) \<Rightarrow> nat \<Rightarrow> lock_world \<Rightarrow> lock \<Rightarrow> bool" where
  "expired_for lib skew c w l = lock_is_stale lib (w_now w + skew c) (lk_fields l)"

text \<open>A lock as \<^verbatim>\<open>acquire\<close> writes it, its \<open>acquired_at\<close> read off the client's clock before the call.\<close>

definition written_by :: "chrono \<Rightarrow> int \<Rightarrow> lock \<Rightarrow> bool" where
  "written_by lib now l \<longleftrightarrow>
     (\<exists>e n t op h ttl. t \<le> now \<and> lk_fields l = fields_map (lock_fields lib e n t op h ttl))"

fun contesting :: "phase \<Rightarrow> lock option" where
  "contesting (Created l) = Some l"
| "contesting (Reading l _ _) = Some l"
| "contesting (Breaking l _) = Some l"
| "contesting p = None"

inductive lock_step :: "chrono \<Rightarrow> (nat \<Rightarrow> int) \<Rightarrow> lock_world \<Rightarrow> lock_world \<Rightarrow> bool"
  for lib :: chrono and skew :: "nat \<Rightarrow> int" where
  tick: "w_now w \<le> t \<Longrightarrow> lock_step lib skew w (w\<lparr> w_now := t \<rparr>)"
| create: "w_phase w c = Resting \<Longrightarrow> lk_created l = Some t \<Longrightarrow> w_clock w \<le> t
     \<Longrightarrow> written_by lib (w_now w + skew c) l \<Longrightarrow> lk_id l \<notin> lk_id ` set (w_past w)
     \<Longrightarrow> lock_step lib skew w (set_phase c (Created l) (add_lock l t w))"
| create_unanswered: "w_phase w c = Resting \<Longrightarrow> lk_created l = Some t \<Longrightarrow> w_clock w \<le> t
     \<Longrightarrow> written_by lib (w_now w + skew c) l \<Longrightarrow> lk_id l \<notin> lk_id ` set (w_past w)
     \<Longrightarrow> lock_step lib skew w (add_lock l t w)"
| list_locks: "w_phase w c = Created l
     \<Longrightarrow> lock_step lib skew w (set_phase c (Reading l (filter (\<lambda>i. i \<noteq> lk_id l) (map lk_id (w_locks w))) []) w)"
| read_one: "w_phase w c = Reading l (i # is) rivals
     \<Longrightarrow> lock_step lib skew w (set_phase c (Reading l is (rivals @ filter (\<lambda>r. lk_id r = i) (w_locks w))) w)"
| compare: "w_phase w c = Reading l [] rivals
     \<Longrightarrow> lock_step lib skew w (set_phase c (Breaking l (rivals_ahead lib l rivals)) w)"
| break_stale: "w_phase w c = Breaking l (r # rs) \<Longrightarrow> expired_for lib skew c w r
     \<Longrightarrow> lock_step lib skew w (set_phase c (Breaking l rs) (drop_lock (lk_id r) w))"
| lose: "w_phase w c = Breaking l (r # rs) \<Longrightarrow> \<not> expired_for lib skew c w r
     \<Longrightarrow> lock_step lib skew w (set_phase c (Losing l) w)"
| win: "w_phase w c = Breaking l [] \<Longrightarrow> lock_step lib skew w (set_phase c (Holding l) w)"
| call_fails: "contesting (w_phase w c) = Some l \<Longrightarrow> lock_step lib skew w (set_phase c (Losing l) w)"
| give_up: "w_phase w c = Losing l \<Longrightarrow> lock_step lib skew w (set_phase c Resting (drop_lock (lk_id l) w))"
| give_up_fails: "w_phase w c = Losing l \<Longrightarrow> lock_step lib skew w (set_phase c Resting w)"
| let_go: "w_phase w c = Holding l \<Longrightarrow> lock_step lib skew w (set_phase c Resting (drop_lock (lk_id l) w))"

inductive lock_run :: "chrono \<Rightarrow> (nat \<Rightarrow> int) \<Rightarrow> lock_world \<Rightarrow> lock_world \<Rightarrow> bool"
  for lib :: chrono and skew :: "nat \<Rightarrow> int" where
  start: "lock_run lib skew w w"
| next_step: "lock_run lib skew w w' \<Longrightarrow> lock_step lib skew w' w'' \<Longrightarrow> lock_run lib skew w w''"

text \<open>A vault nobody is using, whatever locks were left behind in it.\<close>

definition unused :: "lock_world \<Rightarrow> bool" where
  "unused w \<longleftrightarrow>
     (\<forall>c. w_phase w c = Resting) \<and> w_past w = w_locks w
     \<and> (\<forall>l \<in> set (w_locks w). \<exists>t. lk_created l = Some t \<and> t \<le> w_clock w)
     \<and> distinct (map lk_id (w_locks w))"

text \<open>The lock a client has in the vault, or had until another client found it stale.\<close>

fun own_lock :: "phase \<Rightarrow> lock option" where
  "own_lock Resting = None"
| "own_lock (Created l) = Some l"
| "own_lock (Reading l _ _) = Some l"
| "own_lock (Breaking l _) = Some l"
| "own_lock (Holding l) = Some l"
| "own_lock (Losing l) = Some l"

lemma contesting_own: "contesting p = Some l \<Longrightarrow> own_lock p = Some l"
  by (cases p) auto

definition earlier :: "lock \<Rightarrow> lock \<Rightarrow> bool" where
  "earlier a b \<longleftrightarrow> (\<exists>s t. lk_created a = Some s \<and> lk_created b = Some t \<and> s < t)"

text \<open>A lock is lapsed once any client's clock has it past its TTL. Clocks do not run backwards, so it stays so.\<close>

definition lapsed :: "chrono \<Rightarrow> (nat \<Rightarrow> int) \<Rightarrow> lock_world \<Rightarrow> lock \<Rightarrow> bool" where
  "lapsed lib skew w l \<longleftrightarrow> (\<exists>c. expired_for lib skew c w l)"

lemma num_seconds_mono: "d \<le> d' \<Longrightarrow> num_seconds d \<le> num_seconds d'"
proof -
  assume le: "d \<le> d'"
  have pos: "0 < second_ns" by (simp add: second_ns_def)
  consider "0 \<le> d" | "d < 0" "0 \<le> d'" | "d' < 0" using le by linarith
  then show ?thesis
  proof cases
    case 1
    then show ?thesis using le zdiv_mono1 [OF le pos] by (simp add: num_seconds_def)
  next
    case 2
    then have "0 \<le> (- d) div second_ns" "0 \<le> d' div second_ns" using pos by (simp_all add: pos_imp_zdiv_nonneg_iff)
    then show ?thesis using 2 by (simp add: num_seconds_def)
  next
    case 3
    then have "(- d') div second_ns \<le> (- d) div second_ns" using le pos by (intro zdiv_mono1) simp_all
    then show ?thesis using 3 le by (simp add: num_seconds_def)
  qed
qed

lemma lock_is_stale_mono: "lock_is_stale lib now fs \<Longrightarrow> now \<le> now' \<Longrightarrow> lock_is_stale lib now' fs"
proof -
  assume stale: "lock_is_stale lib now fs" and "now \<le> now'"
  then have "num_seconds (now - a) \<le> num_seconds (now' - a)" for a by (simp add: num_seconds_mono)
  then have "n < num_seconds (now - a) \<Longrightarrow> n < num_seconds (now' - a)" for n a by (meson dual_order.strict_trans1)
  then show ?thesis using stale by (auto simp: lock_is_stale_def Let_def split: option.splits if_splits)
qed

lemma lapsed_mono: "lapsed lib skew w l \<Longrightarrow> w_now w \<le> w_now w' \<Longrightarrow> lapsed lib skew w' l"
  unfolding lapsed_def expired_for_def using lock_is_stale_mono by (meson add_right_mono)

text \<open>What a client knows of the locks created before its own.\<close>

fun knows :: "lock list \<Rightarrow> (lock \<Rightarrow> bool) \<Rightarrow> phase \<Rightarrow> bool" where
  "knows locks stale (Reading l is rivals) \<longleftrightarrow>
     (\<forall>x \<in> set locks. earlier x l \<longrightarrow> lk_id x \<in> set is \<or> x \<in> set rivals)"
| "knows locks stale (Breaking l rs) \<longleftrightarrow> (\<forall>x \<in> set locks. earlier x l \<and> \<not> stale x \<longrightarrow> x \<in> set rs)"
| "knows locks stale (Holding l) \<longleftrightarrow> (\<forall>x \<in> set locks. earlier x l \<longrightarrow> stale x)"
| "knows locks stale p \<longleftrightarrow> True"

fun seen :: "phase \<Rightarrow> lock set" where
  "seen (Reading l is rivals) = set rivals"
| "seen (Breaking l rs) = set rs"
| "seen p = {}"

text \<open>The invariant, one part a concern: what the vault holds, who owns which lock, who knows what.\<close>

definition vault_ok :: "lock_world \<Rightarrow> bool" where
  "vault_ok w \<longleftrightarrow> distinct (map lk_id (w_past w)) \<and> set (w_locks w) \<subseteq> set (w_past w)
     \<and> (\<forall>x \<in> set (w_past w). \<exists>t. lk_created x = Some t \<and> t \<le> w_clock w)"

definition owners_ok :: "(lock \<Rightarrow> bool) \<Rightarrow> lock_world \<Rightarrow> bool" where
  "owners_ok stale w \<longleftrightarrow>
     (\<forall>c l. own_lock (w_phase w c) = Some l \<longrightarrow> l \<in> set (w_past w) \<and> (l \<in> set (w_locks w) \<or> stale l))
     \<and> (\<forall>c d l. own_lock (w_phase w c) = Some l \<longrightarrow> own_lock (w_phase w d) = Some l \<longrightarrow> c = d)"

definition knowledge_ok :: "(lock \<Rightarrow> bool) \<Rightarrow> lock_world \<Rightarrow> bool" where
  "knowledge_ok stale w \<longleftrightarrow>
     (\<forall>c. seen (w_phase w c) \<subseteq> set (w_past w) \<and> knows (w_locks w) stale (w_phase w c))"

lemma takeWhile_sorted_mem:
  "sorted (map k xs) \<Longrightarrow> x \<in> set xs \<Longrightarrow> k x < b \<Longrightarrow> x \<in> set (takeWhile (\<lambda>r. k r < b) xs)"
  by (induction xs) (auto dest: le_less_trans)

lemma rivals_ahead_earlier:
  assumes "lk_created l \<noteq> None" "\<forall>r \<in> set rivals. lk_created r \<noteq> None" "x \<in> set rivals" "earlier x l"
  shows "x \<in> set (rivals_ahead lib l rivals)"
proof -
  have srv: "ranks_by_server l rivals" using assms(1,2) by (simp add: ranks_by_server_def list_all_iff)
  have "rank lib True x < rank lib True l" using assms(4) by (auto simp: earlier_def rank_def)
  then show ?thesis
    using assms(3) by (simp add: rivals_ahead_def srv Let_def takeWhile_sorted_mem)
qed

lemma rivals_ahead_subset: "set (rivals_ahead lib l rivals) \<subseteq> set rivals"
  by (auto simp: rivals_ahead_def Let_def dest: set_takeWhileD)

lemma knows_fewer: "knows locks stale p \<Longrightarrow> set locks' \<subseteq> set locks \<Longrightarrow> knows locks' stale p"
  by (cases p) auto

lemma knows_staler: "knows locks stale p \<Longrightarrow> (\<And>x. stale x \<Longrightarrow> stale' x) \<Longrightarrow> knows locks stale' p"
  by (cases p) auto

lemma knows_later:
  assumes "knows locks stale p" "\<And>m. own_lock p = Some m \<Longrightarrow> \<not> earlier l m"
  shows "knows (locks @ [l]) stale p"
  using assms by (cases p) auto

lemma set_phase_simps [simp]:
  "w_locks (set_phase c p w) = w_locks w" "w_past (set_phase c p w) = w_past w" "w_now (set_phase c p w) = w_now w"
  "w_clock (set_phase c p w) = w_clock w" "w_phase (set_phase c p w) = (w_phase w)(c := p)"
  by (simp_all add: set_phase_def)

lemma drop_lock_simps [simp]:
  "w_locks (drop_lock i w) = filter (\<lambda>l. lk_id l \<noteq> i) (w_locks w)" "w_past (drop_lock i w) = w_past w"
  "w_clock (drop_lock i w) = w_clock w" "w_now (drop_lock i w) = w_now w" "w_phase (drop_lock i w) = w_phase w"
  by (simp_all add: drop_lock_def)

lemma add_lock_simps [simp]:
  "w_locks (add_lock l t w) = w_locks w @ [l]" "w_past (add_lock l t w) = w_past w @ [l]"
  "w_clock (add_lock l t w) = t" "w_now (add_lock l t w) = w_now w" "w_phase (add_lock l t w) = w_phase w"
  by (simp_all add: add_lock_def)

lemma expired_for_now: "w_now w' = w_now w \<Longrightarrow> expired_for lib skew c w' = expired_for lib skew c w"
  by (simp add: expired_for_def [abs_def])

lemma lapsed_now: "w_now w' = w_now w \<Longrightarrow> lapsed lib skew w' = lapsed lib skew w"
  by (simp add: lapsed_def [abs_def] expired_for_def)

lemma drop_lock_set_phase: "drop_lock i (set_phase c p w) = set_phase c p (drop_lock i w)"
  by (simp add: set_phase_def drop_lock_def)

lemma lock_step_now: "lock_step lib skew w w' \<Longrightarrow> w_now w \<le> w_now w'"
  by (induction rule: lock_step.induct) simp_all

subsection \<open>What the vault holds\<close>

lemma vault_ok_set_phase [simp]: "vault_ok (set_phase c p w) = vault_ok w"
  by (simp add: vault_ok_def)

lemma vault_ok_drop [simp]: "vault_ok w \<Longrightarrow> vault_ok (drop_lock i w)"
  by (auto simp: vault_ok_def)

lemma vault_ok_add:
  "vault_ok w \<Longrightarrow> w_clock w \<le> t \<Longrightarrow> lk_created l = Some t \<Longrightarrow> lk_id l \<notin> lk_id ` set (w_past w)
     \<Longrightarrow> vault_ok (add_lock l t w)"
  by (fastforce simp: vault_ok_def)

lemma vault_ok_step: "lock_step lib skew w w' \<Longrightarrow> vault_ok w \<Longrightarrow> vault_ok w'"
proof (induction rule: lock_step.induct)
  case (tick w t)
  then show ?case by (simp add: vault_ok_def)
qed (auto intro: vault_ok_add)

lemma vault_ok_same: "vault_ok w \<Longrightarrow> x \<in> set (w_past w) \<Longrightarrow> y \<in> set (w_past w) \<Longrightarrow> lk_id x = lk_id y \<Longrightarrow> x = y"
  by (auto simp: vault_ok_def distinct_map inj_on_def)

lemma vault_ok_created: "vault_ok w \<Longrightarrow> x \<in> set (w_past w) \<Longrightarrow> lk_created x \<noteq> None"
  by (auto simp: vault_ok_def)

subsection \<open>Who owns which lock\<close>

lemma owners_okD:
  "owners_ok stale w \<Longrightarrow> own_lock (w_phase w c) = Some l \<Longrightarrow> l \<in> set (w_past w)"
  "owners_ok stale w \<Longrightarrow> own_lock (w_phase w c) = Some l \<Longrightarrow> l \<in> set (w_locks w) \<or> stale l"
  "owners_ok stale w \<Longrightarrow> own_lock (w_phase w c) = Some l \<Longrightarrow> own_lock (w_phase w d) = Some l \<Longrightarrow> c = d"
  unfolding owners_ok_def by blast+

lemma owners_ok_keep:
  assumes "owners_ok stale w" "own_lock p = own_lock (w_phase w c)"
  shows "owners_ok stale (set_phase c p w)"
proof -
  have "own_lock (w_phase (set_phase c p w) d) = own_lock (w_phase w d)" for d using assms(2) by simp
  then show ?thesis using assms(1) by (simp only: owners_ok_def set_phase_simps)
qed

lemma owners_ok_free:
  assumes "owners_ok stale w" "own_lock p = None"
  shows "owners_ok stale (set_phase c p w)"
  using assms unfolding owners_ok_def by (simp add: assms(2))

lemma owners_ok_more: "owners_ok stale w \<Longrightarrow> owners_ok stale (add_lock l t w)"
  unfolding owners_ok_def by auto

lemma owners_ok_add:
  assumes "owners_ok stale w" "own_lock p = Some l" "lk_id l \<notin> lk_id ` set (w_past w)"
  shows "owners_ok stale (set_phase c p (add_lock l t w))"
proof -
  have "own_lock (w_phase w d) \<noteq> Some l" for d
    using owners_okD(1)[OF assms(1), of d l] assms(3) by auto
  then have alone: "own_lock (w_phase w d) \<noteq> own_lock p" for d using assms(2) by simp
  show ?thesis
    using assms(1,2) alone unfolding owners_ok_def by simp metis
qed

lemma owners_ok_drop:
  assumes "owners_ok stale w" "\<And>d l. own_lock (w_phase w d) = Some l \<Longrightarrow> lk_id l = i \<Longrightarrow> stale l"
  shows "owners_ok stale (drop_lock i w)"
proof -
  have "l \<in> set (w_past w) \<and> (l \<in> set (w_locks (drop_lock i w)) \<or> stale l)" if "own_lock (w_phase w d) = Some l" for d l
    using owners_okD(1,2) [OF assms(1) that] assms(2) [OF that] by auto
  then show ?thesis using owners_okD(3) [OF assms(1)] by (simp add: owners_ok_def)
qed

text \<open>Nobody else owns the lock a client deletes: it is stale, or its own.\<close>

lemma owners_ok_drop_own:
  assumes "owners_ok stale w" "vault_ok w" "own_lock (w_phase w c) = Some l"
  shows "owners_ok stale (set_phase c Resting (drop_lock (lk_id l) w))"
proof -
  have ok: "owners_ok stale (set_phase c Resting w)" using assms(1) by (simp add: owners_ok_free)
  have "owners_ok stale (drop_lock (lk_id l) (set_phase c Resting w))"
  proof (rule owners_ok_drop[OF ok])
    fix d m assume m: "own_lock (w_phase (set_phase c Resting w) d) = Some m" and same: "lk_id m = lk_id l"
    then have d: "d \<noteq> c" and dm: "own_lock (w_phase w d) = Some m" by (auto split: if_splits)
    have "m = l" using vault_ok_same[OF assms(2) _ _ same] owners_okD(1)[OF assms(1)] assms(3) dm by blast
    then show "stale m" using owners_okD(3)[OF assms(1) assms(3)] dm d by blast
  qed
  then show ?thesis by (simp add: drop_lock_set_phase)
qed

lemma owners_ok_drop_stale:
  assumes "owners_ok stale w" "vault_ok w" "stale r" "r \<in> set (w_past w)"
  shows "owners_ok stale (drop_lock (lk_id r) w)"
proof (rule owners_ok_drop[OF assms(1)])
  fix d l assume "own_lock (w_phase w d) = Some l" "lk_id l = lk_id r"
  then show "stale l" using vault_ok_same[OF assms(2) _ assms(4)] owners_okD(1)[OF assms(1)] assms(3) by metis
qed

text \<open>What was stale before a step is stale after it, for ownership and for knowledge.\<close>

lemma owners_ok_staler: "owners_ok stale w \<Longrightarrow> (\<And>x. stale x \<Longrightarrow> stale' x) \<Longrightarrow> owners_ok stale' w"
  unfolding owners_ok_def by blast

lemma knowledge_ok_staler: "knowledge_ok stale w \<Longrightarrow> (\<And>x. stale x \<Longrightarrow> stale' x) \<Longrightarrow> knowledge_ok stale' w"
  using knows_staler unfolding knowledge_ok_def by blast

lemma owners_ok_step:
  assumes "lock_step lib skew w w'" "vault_ok w" "owners_ok (lapsed lib skew w) w" "knowledge_ok (lapsed lib skew w) w"
  shows "owners_ok (lapsed lib skew w) w'"
  using assms
proof (induction rule: lock_step.induct)
  case (break_stale w c l r rs)
  then have "seen (w_phase w c) \<subseteq> set (w_past w)" unfolding knowledge_ok_def by blast
  then have "r \<in> set (w_past w)" using break_stale by simp
  moreover have "lapsed lib skew w r" using break_stale by (auto simp: lapsed_def)
  ultimately have "owners_ok (lapsed lib skew w) (drop_lock (lk_id r) w)" using break_stale by (intro owners_ok_drop_stale)
  then show ?case using break_stale by (intro owners_ok_keep) auto
next
  case (tick w t)
  then show ?case by (simp add: owners_ok_def)
next
  case (call_fails w c l)
  then show ?case using contesting_own by (intro owners_ok_keep) simp_all
qed (auto intro: owners_ok_keep owners_ok_add owners_ok_more owners_ok_free owners_ok_drop_own)

subsection \<open>What a client knows\<close>

lemma knowledge_ok_set_phase:
  "knowledge_ok stale w \<Longrightarrow> seen p \<subseteq> set (w_past w) \<Longrightarrow> knows (w_locks w) stale p
     \<Longrightarrow> knowledge_ok stale (set_phase c p w)"
  by (simp add: knowledge_ok_def)

lemma knowledge_ok_drop: "knowledge_ok stale w \<Longrightarrow> knowledge_ok stale (drop_lock i w)"
  by (auto simp: knowledge_ok_def intro: knows_fewer)

lemma knowledge_ok_add:
  assumes "knowledge_ok stale w" "owners_ok stale w" "vault_ok w" "w_clock w \<le> t" "lk_created l = Some t"
  shows "knowledge_ok stale (add_lock l t w)"
proof -
  have "\<not> earlier l m" if "own_lock (w_phase w d) = Some m" for d m
    using owners_okD(1)[OF assms(2) that] assms(3,4,5) by (force simp: vault_ok_def earlier_def)
  then show ?thesis using assms(1) by (auto simp: knowledge_ok_def intro: knows_later)
qed

lemma knowledge_ok_step:
  assumes "lock_step lib skew w w'" "vault_ok w" "owners_ok (lapsed lib skew w) w" "knowledge_ok (lapsed lib skew w) w"
  shows "knowledge_ok (lapsed lib skew w) w'"
  using assms
proof (induction rule: lock_step.induct)
  case (tick w t)
  then show ?case by (simp add: knowledge_ok_def)
next
  case (create w c l t)
  then show ?case by (intro knowledge_ok_set_phase knowledge_ok_add) auto
next
  case (create_unanswered w c l t)
  then show ?case by (intro knowledge_ok_add)
next
  case (list_locks w c l)
  have past: "l \<in> set (w_past w)" using owners_okD(1)[OF list_locks(3), of c] list_locks by auto
  then have "lk_id x \<noteq> lk_id l" if "x \<in> set (w_locks w)" "earlier x l" for x
    using vault_ok_same[OF list_locks(2) _ past, of x] that list_locks(2) by (auto simp: earlier_def vault_ok_def)
  then show ?case using list_locks by (intro knowledge_ok_set_phase) auto
next
  case (read_one w c l i "is" rivals)
  then have "seen (w_phase w c) \<subseteq> set (w_past w)" "knows (w_locks w) (lapsed lib skew w) (w_phase w c)"
    unfolding knowledge_ok_def by blast+
  then show ?case using read_one by (intro knowledge_ok_set_phase) (auto simp: vault_ok_def)
next
  case (compare w c l rivals)
  then have known: "set rivals \<subseteq> set (w_past w)" "\<forall>x \<in> set (w_locks w). earlier x l \<longrightarrow> x \<in> set rivals"
    unfolding knowledge_ok_def by (metis seen.simps(1), metis knows.simps(1) empty_iff list.set(1))
  have "lk_created l \<noteq> None" "\<forall>r \<in> set rivals. lk_created r \<noteq> None"
    using known(1) vault_ok_created[OF compare(2)] owners_okD(1)[OF compare(3), of c] compare by auto
  then have "\<forall>x \<in> set (w_locks w). earlier x l \<longrightarrow> x \<in> set (rivals_ahead lib l rivals)"
    using known(2) rivals_ahead_earlier by blast
  then show ?case
    using compare known(1) rivals_ahead_subset[of lib l rivals] by (intro knowledge_ok_set_phase) auto
next
  case (break_stale w c l r rs)
  then have "seen (w_phase w c) \<subseteq> set (w_past w)" "knows (w_locks w) (lapsed lib skew w) (w_phase w c)"
    unfolding knowledge_ok_def by blast+
  moreover have "lapsed lib skew w r" using break_stale by (auto simp: lapsed_def)
  ultimately show ?case using break_stale by (intro knowledge_ok_set_phase knowledge_ok_drop) auto
next
  case (win w c l)
  then have "knows (w_locks w) (lapsed lib skew w) (w_phase w c)" unfolding knowledge_ok_def by blast
  then show ?case using win by (intro knowledge_ok_set_phase) auto
qed (auto intro!: knowledge_ok_set_phase knowledge_ok_drop)

subsection \<open>The invariant of a run\<close>

lemma lock_run_inv:
  assumes "lock_run lib skew w w'" "unused w"
  shows "vault_ok w' \<and> owners_ok (lapsed lib skew w') w' \<and> knowledge_ok (lapsed lib skew w') w'"
  using assms
proof (induction rule: lock_run.induct)
  case (start w)
  then show ?case by (auto simp: unused_def vault_ok_def owners_ok_def knowledge_ok_def)
next
  case (next_step w w' w'')
  then have ok: "vault_ok w'" "owners_ok (lapsed lib skew w') w'" "knowledge_ok (lapsed lib skew w') w'" by blast+
  have later: "lapsed lib skew w' x \<Longrightarrow> lapsed lib skew w'' x" for x
    by (rule lapsed_mono [OF _ lock_step_now [OF next_step.hyps(2)]])
  have "owners_ok (lapsed lib skew w'') w''"
    by (rule owners_ok_staler [OF owners_ok_step [OF next_step.hyps(2) ok]]) (rule later)
  moreover have "knowledge_ok (lapsed lib skew w'') w''"
    by (rule knowledge_ok_staler [OF knowledge_ok_step [OF next_step.hyps(2) ok]]) (rule later)
  ultimately show ?case using vault_ok_step [OF next_step.hyps(2) ok(1)] by blast
qed

subsection \<open>A client running alone\<close>

text \<open>What a client that takes the next steps alone reaches: it holds the lock, the others where they were.\<close>

definition reaches_holding :: "chrono \<Rightarrow> (nat \<Rightarrow> int) \<Rightarrow> lock_world \<Rightarrow> nat \<Rightarrow> lock \<Rightarrow> bool" where
  "reaches_holding lib skew w c l \<longleftrightarrow>
     (\<exists>w'. lock_run lib skew w w' \<and> w_phase w' = (w_phase w)(c := Holding l)
        \<and> w_past w' = w_past w \<and> w_clock w' = w_clock w \<and> w_now w' = w_now w)"

lemma lock_run_trans: "lock_run lib skew b c \<Longrightarrow> lock_run lib skew a b \<Longrightarrow> lock_run lib skew a c"
  by (induction rule: lock_run.induct) (auto intro: lock_run.intros)

lemma reaches_holding_step:
  assumes "lock_step lib skew w w1" "reaches_holding lib skew w1 c l"
    and "w_phase w1 = (w_phase w)(c := p)" "w_past w1 = w_past w" "w_clock w1 = w_clock w" "w_now w1 = w_now w"
  shows "reaches_holding lib skew w c l"
proof -
  have "lock_run lib skew w w1" using assms(1) lock_run.intros by blast
  then show ?thesis
    using assms(2-) lock_run_trans unfolding reaches_holding_def by (metis fun_upd_upd)
qed

lemma reaches_from_breaking:
  "w_phase w c = Breaking l rs \<Longrightarrow> \<forall>r \<in> set rs. expired_for lib skew c w r \<Longrightarrow> reaches_holding lib skew w c l"
proof (induction rs arbitrary: w)
  case Nil
  then have "lock_run lib skew w (set_phase c (Holding l) w)" by (blast intro: lock_run.intros lock_step.win)
  then show ?case
    unfolding reaches_holding_def by (intro exI[of _ "set_phase c (Holding l) w"]) simp
next
  case (Cons r rs)
  let ?w1 = "set_phase c (Breaking l rs) (drop_lock (lk_id r) w)"
  have "expired_for lib skew c ?w1 = expired_for lib skew c w" by (rule expired_for_now) simp
  then have "reaches_holding lib skew ?w1 c l" using Cons.prems(2) by (intro Cons.IH) simp_all
  moreover have "lock_step lib skew w ?w1" using Cons.prems by (auto intro: lock_step.break_stale)
  ultimately show ?case by (auto intro: reaches_holding_step)
qed

lemma rivals_ahead_stale:
  assumes "lk_created l \<noteq> None" "\<forall>x \<in> set rivals. lk_created x \<noteq> None \<and> (rank lib True x < rank lib True l \<longrightarrow> stale x)"
  shows "\<forall>r \<in> set (rivals_ahead lib l rivals). stale r"
proof -
  have "ranks_by_server l rivals" using assms by (simp add: ranks_by_server_def list_all_iff)
  then show ?thesis using assms(2) by (auto simp: rivals_ahead_def Let_def dest!: set_takeWhileD)
qed

lemma reaches_from_reading:
  assumes "w_phase w c = Reading l is rivals" "lk_created l \<noteq> None"
    and "\<forall>x \<in> set rivals \<union> set (w_locks w). lk_created x \<noteq> None \<and> (rank lib True x < rank lib True l \<longrightarrow> expired_for lib skew c w x)"
  shows "reaches_holding lib skew w c l"
  using assms
proof (induction "is" arbitrary: w rivals)
  case Nil
  let ?w1 = "set_phase c (Breaking l (rivals_ahead lib l rivals)) w"
  have "expired_for lib skew c ?w1 = expired_for lib skew c w" by (rule expired_for_now) simp
  moreover have "\<forall>r \<in> set (rivals_ahead lib l rivals). expired_for lib skew c w r" using Nil by (intro rivals_ahead_stale) auto
  ultimately have "reaches_holding lib skew ?w1 c l" by (intro reaches_from_breaking) simp_all
  moreover have "lock_step lib skew w ?w1" using Nil.prems by (auto intro: lock_step.compare)
  ultimately show ?case by (auto intro: reaches_holding_step)
next
  case (Cons i "is")
  let ?w1 = "set_phase c (Reading l is (rivals @ filter (\<lambda>r. lk_id r = i) (w_locks w))) w"
  have "expired_for lib skew c ?w1 = expired_for lib skew c w" by (rule expired_for_now) simp
  then have "reaches_holding lib skew ?w1 c l"
    using Cons.prems by (intro Cons.IH[of _ "rivals @ filter (\<lambda>r. lk_id r = i) (w_locks w)"]) auto
  moreover have "lock_step lib skew w ?w1" using Cons.prems by (auto intro: lock_step.read_one)
  ultimately show ?case by (auto intro: reaches_holding_step)
qed

lemma acquire_alone:
  assumes "vault_ok w" "w_phase w c = Resting" "lk_created l = Some t" "w_clock w \<le> t" "written_by lib (w_now w + skew c) l"
    and "lk_id l \<notin> lk_id ` set (w_past w)"
    and ahead: "\<forall>x \<in> set (w_locks w). rank lib True x < rank lib True l \<longrightarrow> expired_for lib skew c w x"
  shows "\<exists>w'. lock_run lib skew w w' \<and> w_phase w' = (w_phase w)(c := Holding l)
           \<and> w_past w' = w_past w @ [l] \<and> w_clock w' = t \<and> w_now w' = w_now w"
proof -
  let ?w0 = "set_phase c (Created l) (add_lock l t w)"
  let ?w1 = "set_phase c (Reading l (filter (\<lambda>i. i \<noteq> lk_id l) (map lk_id (w_locks ?w0))) []) ?w0"
  have "lk_created x \<noteq> None" if "x \<in> set (w_locks w)" for x
    using assms(1) that by (auto simp: vault_ok_def)
  moreover have "expired_for lib skew c ?w1 = expired_for lib skew c w" by (rule expired_for_now) simp
  ultimately have "reaches_holding lib skew ?w1 c l"
    using assms(3) ahead by (intro reaches_from_reading) auto
  moreover have "lock_step lib skew ?w0 ?w1" by (rule lock_step.list_locks) simp
  ultimately have "reaches_holding lib skew ?w0 c l" by (auto intro: reaches_holding_step)
  then obtain w' where w': "lock_run lib skew ?w0 w'" "w_phase w' = (w_phase w)(c := Holding l)"
      "w_past w' = w_past w @ [l]" "w_clock w' = t" "w_now w' = w_now w"
    by (auto simp: reaches_holding_def)
  have "lock_step lib skew w ?w0" using assms(2-6) by (rule lock_step.create)
  then have "lock_run lib skew w ?w0" using lock_run.intros by blast
  then show ?thesis using w' lock_run_trans by blast
qed

subsection \<open>The properties of the protocol\<close>

text \<open>
  C9: the lock is exclusive for its TTL. Whatever the interleaving of the vault calls of any number of
  clients, however many of them crash and whichever calls fail: when two clients hold the lock at
  once, and the service gave their locks different creation times, then the one created first is past
  its TTL by the clock of some client. So while no clock has a held lock expired, nobody else comes to
  hold one; clocks that disagree shorten a lock's life, and nothing else breaks it.
\<close>

theorem lock_mutual_exclusion:
  assumes "unused w" "lock_run lib skew w w'" "w_phase w' c = Holding a" "w_phase w' d = Holding b" "c \<noteq> d"
    and "lk_created a \<noteq> lk_created b"
  shows "\<exists>e. expired_for lib skew e w' (if earlier a b then a else b)"
proof -
  have inv: "vault_ok w'" "owners_ok (lapsed lib skew w') w'" "knowledge_ok (lapsed lib skew w') w'"
    using lock_run_inv assms(1,2) by blast+
  have own: "own_lock (w_phase w' c) = Some a" "own_lock (w_phase w' d) = Some b" using assms(3,4) by simp_all
  have "knows (w_locks w') (lapsed lib skew w') (w_phase w' c)" "knows (w_locks w') (lapsed lib skew w') (w_phase w' d)"
    using inv(3) unfolding knowledge_ok_def by blast+
  then have "earlier a b \<Longrightarrow> lapsed lib skew w' a" "earlier b a \<Longrightarrow> lapsed lib skew w' b"
    using assms(3,4) owners_okD(2)[OF inv(2) own(1)] owners_okD(2)[OF inv(2) own(2)] by auto
  moreover have "earlier a b \<or> earlier b a"
    using vault_ok_created[OF inv(1) owners_okD(1)[OF inv(2) own(1)]] vault_ok_created[OF inv(1) owners_okD(1)[OF inv(2) own(2)]]
      assms(6) by (auto simp: earlier_def)
  ultimately show ?thesis by (auto simp: lapsed_def)
qed

text \<open>
  C36: the lock can always be taken once the others are gone. In every world a run reaches where the
  vault holds only expired locks, a client at rest that creates its lock and takes the next steps
  alone comes to hold it, whatever the other clients stopped in the middle of.
\<close>

theorem lock_obstruction_free:
  assumes "unused w0" "lock_run lib skew w0 w" "\<forall>x \<in> set (w_locks w). expired_for lib skew c w x"
    and "w_phase w c = Resting" "lk_created l = Some t" "w_clock w \<le> t" "written_by lib (w_now w + skew c) l"
    and "lk_id l \<notin> lk_id ` set (w_past w)"
  shows "\<exists>w'. lock_run lib skew w w' \<and> w_phase w' = (w_phase w)(c := Holding l)"
  using acquire_alone[of w c l t lib skew] lock_run_inv[OF assms(2,1)] assms by blast

text \<open>
  With equal creation times the lock is not exclusive: while a client holds its lock, another one whose
  lock is given the same creation time and a lower id, running alone, comes to hold it too, since it
  ranks first and the contest of the other is over.
\<close>

lemma lock_tie_second_holder:
  assumes "unused w0" "lock_run lib skew w0 w" "w_phase w c = Holding a" "w_phase w d = Resting"
    and "\<forall>x \<in> set (w_locks w). x = a \<or> expired_for lib skew d w x" "lk_created a = Some (w_clock w)"
    and "lk_created b = Some (w_clock w)" "lk_id b < lk_id a" "written_by lib (w_now w + skew d) b" "lk_id b \<notin> lk_id ` set (w_past w)"
  shows "\<exists>w'. lock_run lib skew w w' \<and> w_phase w' c = Holding a \<and> w_phase w' d = Holding b"
proof -
  have "\<not> rank lib True a < rank lib True b" using assms(6-8) by (simp add: rank_def)
  then have "\<forall>x \<in> set (w_locks w). rank lib True x < rank lib True b \<longrightarrow> expired_for lib skew d w x" using assms(5) by metis
  then obtain w' where "lock_run lib skew w w'" "w_phase w' = (w_phase w)(d := Holding b)"
    using acquire_alone[of w d b "w_clock w" lib skew] lock_run_inv[OF assms(2,1)] assms(4,7,9,10) by blast
  then show ?thesis using assms(3,4) by (intro exI[of _ w']) auto
qed

text \<open>A vault with a lock left behind that no clock can read, and the lock of the client that comes.\<close>

definition example_lock :: "string \<Rightarrow> int \<Rightarrow> lock" where
  "example_lock i t = \<lparr> lk_id = i, lk_created = Some t,
     lk_fields = fields_map (lock_fields seconds_chrono [] [] 5 ''op'' [] 15) \<rparr>"

definition example_world :: lock_world where
  "example_world = \<lparr> w_locks = [\<lparr> lk_id = ''old'', lk_created = Some 1, lk_fields = Map.empty \<rparr>],
     w_past = [\<lparr> lk_id = ''old'', lk_created = Some 1, lk_fields = Map.empty \<rparr>], w_clock = 2, w_now = 7, w_phase = (\<lambda>_. Resting) \<rparr>"

lemma example_unused: "unused example_world"
  by (simp add: unused_def example_world_def)

lemma example_lock_written: "5 \<le> now \<Longrightarrow> written_by seconds_chrono now (example_lock i t)"
  by (simp add: written_by_def example_lock_def) blast

lemma example_old: "expired_for lib skew c w \<lparr> lk_id = i, lk_created = t, lk_fields = Map.empty \<rparr>"
  by (simp add: expired_for_def lock_is_stale_def)

lemma example_left_behind: "\<forall>x \<in> set (w_locks example_world). expired_for lib skew c example_world x"
  using example_old by (simp add: example_world_def)

lemma example_held:
  "\<exists>w'. lock_run seconds_chrono (\<lambda>_. 0) example_world w'
      \<and> w_phase w' = (\<lambda>_. Resting)(0 := Holding (example_lock ''b'' 5))
      \<and> w_past w' = w_past example_world @ [example_lock ''b'' 5] \<and> w_clock w' = 5 \<and> w_now w' = 7"
  using acquire_alone[of example_world 0 "example_lock ''b'' 5" 5 seconds_chrono "\<lambda>_. 0"]
    lock_run_inv[OF lock_run.start example_unused] example_left_behind example_lock_written[of 7]
  by (simp add: example_world_def example_lock_def)

theorem lock_obstruction_free_witness:
  "\<exists>w'. lock_run seconds_chrono (\<lambda>_. 0) example_world w'
      \<and> w_phase w' = (w_phase example_world)(3 := Holding (example_lock ''new'' 4))"
  using lock_obstruction_free[OF example_unused lock_run.start example_left_behind, where c = 3 and l = "example_lock ''new'' 4" and t = 4]
    example_lock_written[of 7]
  by (simp add: example_world_def example_lock_def)

section \<open>The life of a lock\<close>

text \<open>What the code relies on of its ISO timestamps: they read back as the instant, to the second.\<close>

definition iso_reads_back :: "chrono \<Rightarrow> int \<Rightarrow> bool" where
  "iso_reads_back lib t \<longleftrightarrow>
     now_utc_iso lib t \<noteq> [] \<and> parse_iso lib (now_utc_iso lib t) = Some (t div second_ns * second_ns)"

lemma num_seconds_gt_iff: "num_seconds d > n \<longleftrightarrow> (n + 1) * second_ns \<le> d" if "0 \<le> n"
proof (cases "0 \<le> d")
  case True
  have pos: "0 < second_ns" by (simp add: second_ns_def)
  have "n + 1 \<le> d div second_ns \<longleftrightarrow> (n + 1) * second_ns \<le> d"
    using pos by (simp add: mult_le_iff_div)
  then show ?thesis using True by (auto simp: num_seconds_def)
next
  case False
  have "0 \<le> (- d) div second_ns" using False by (intro div_int_pos_iff[THEN iffD2]) (auto simp: second_ns_def)
  moreover have "0 \<le> (n + 1) * second_ns" using that by (simp add: second_ns_def)
  ultimately show ?thesis using False that by (simp add: num_seconds_def)
qed

lemma lock_fields_lookup:
  "fields_map (lock_fields lib e n now op h ttl) ''acquired_at'' = Some (now_utc_iso lib now)"
  "fields_map (lock_fields lib e n now op h ttl) ''ttl_seconds'' = Some (nat_to_string ttl)"
  by (simp_all add: fields_map_def lock_fields_def)

lemma written_lock_stale:
  assumes "iso_reads_back lib t" "int ttl \<le> i64_max"
  shows "lock_is_stale lib now (fields_map (lock_fields lib e n t op h ttl))
    \<longleftrightarrow> (t div second_ns + int ttl + 1) * second_ns \<le> now"
proof -
  have ttl: "ttl < 2 ^ 64" "wrap_i64 (int ttl) = int ttl" using assms(2) by (simp_all add: i64_defs wrap_i64_id)
  then show ?thesis
    using assms(1) num_seconds_gt_iff[of "int ttl" "now - t div second_ns * second_ns"]
    by (auto simp: lock_is_stale_def lock_fields_lookup iso_reads_back_def parse_u64_nat_to_string algebra_simps)
qed


lemma example_iso: "iso_reads_back seconds_chrono 5"
  by (simp add: iso_reads_back_def now_utc_iso_def parse_iso_def seconds_chrono_def second_ns_def int_to_string_def
      nat_to_string.simps char_of_def bit_0 trim_end_matches_def parse_i64_def parse_digits_def digits_val_def digit_val_def
      is_ascii_digit_def byte_def i64_defs)


text \<open>
  Two holders at once, for the exclusion: the first one's lock passes its TTL, and the second breaks it.
\<close>

lemma example_expires: "16 * second_ns \<le> now \<Longrightarrow> w_now w = now \<Longrightarrow> expired_for seconds_chrono (\<lambda>_. 0) c w (example_lock i t)"
  using written_lock_stale[OF example_iso, of 15 now] by (simp add: expired_for_def example_lock_def i64_defs second_ns_def)

theorem lock_mutual_exclusion_witness:
  "\<exists>w' e. w_phase w' 0 = Holding (example_lock ''b'' 5) \<and> w_phase w' 1 = Holding (example_lock ''c'' 6)
      \<and> expired_for seconds_chrono (\<lambda>_. 0) e w' (example_lock ''b'' 5)"
proof -
  obtain w1 where w1: "lock_run seconds_chrono (\<lambda>_. 0) example_world w1"
      "w_phase w1 = (\<lambda>_. Resting)(0 := Holding (example_lock ''b'' 5))"
      "w_past w1 = w_past example_world @ [example_lock ''b'' 5]" "w_clock w1 = 5" "w_now w1 = 7"
    using example_held by blast
  let ?w2 = "w1\<lparr> w_now := 16 * second_ns \<rparr>"
  have run: "lock_run seconds_chrono (\<lambda>_. 0) example_world ?w2"
    using w1 by (intro lock_run.next_step[OF w1(1)] lock_step.tick) (simp add: second_ns_def)
  have ok: "vault_ok ?w2" using lock_run_inv[OF run example_unused] by blast
  then have "set (w_locks w1) \<subseteq> set (w_past example_world) \<union> {example_lock ''b'' 5}"
    using w1(3) by (auto simp: vault_ok_def)
  then have gone: "\<forall>x \<in> set (w_locks ?w2). expired_for seconds_chrono (\<lambda>_. 0) 1 ?w2 x"
    using example_expires[of "16 * second_ns" ?w2] example_old by (auto simp: example_world_def)
  obtain w3 where w3: "lock_run seconds_chrono (\<lambda>_. 0) ?w2 w3"
      "w_phase w3 = (w_phase w1)(1 := Holding (example_lock ''c'' 6))"
    using acquire_alone[OF ok, of 1 "example_lock ''c'' 6" 6 seconds_chrono "\<lambda>_. 0"] gone example_lock_written[of "16 * second_ns"] w1
    by (auto simp: example_lock_def example_world_def second_ns_def)
  have held: "w_phase w3 0 = Holding (example_lock ''b'' 5)" "w_phase w3 1 = Holding (example_lock ''c'' 6)"
    using w3(2) w1(2) by simp_all
  show ?thesis
    using lock_mutual_exclusion[OF example_unused lock_run_trans[OF w3(1) run] held] held
    by (auto simp: earlier_def example_lock_def)
qed

end
