(* ===== verification/Vault_Backup.thy ===== *)
theory Vault_Backup
  imports Ca_Policy Vault_Lock
begin

text \<open>
  Backing up a whole vault and restoring it, from \<^verbatim>\<open>crates/opca-core/src/services/vault.rs\<close>. The vault is the
  parameter of \<open>Op_Vault\<close>, with two more of its client's calls; reading JSON is a parameter that gives a value
  of the kinds JSON has. The progress callback of a restore is left out.
\<close>

section \<open>JSON values\<close>

datatype json_value = Json_Null | Json_Bool bool | Json_Number string | Json_String string
  | Json_Array "json_value list" | Json_Object "(string \<times> json_value) list"

fun json_get :: "string \<Rightarrow> json_value \<Rightarrow> json_value option" where
  "json_get k (Json_Object members) = map_of members k"
| "json_get k j = None"

fun json_array :: "json_value \<Rightarrow> json_value list option" where
  "json_array (Json_Array js) = Some js"
| "json_array j = None"

fun json_str :: "json_value \<Rightarrow> string option" where
  "json_str (Json_String s) = Some s"
| "json_str j = None"

definition member_text :: "string \<Rightarrow> json_value \<Rightarrow> string" where
  "member_text k j = or_empty (Option.bind (json_get k j) json_str)"

section \<open>Backups\<close>

definition openvpn_title :: string where "openvpn_title = ''OpenVPN''"

definition type_ca :: string where "type_ca = ''ca''"
definition type_ca_database :: string where "type_ca_database = ''ca_database''"
definition type_crl :: string where "type_crl = ''crl''"
definition type_certificate :: string where "type_certificate = ''certificate''"
definition type_external_cert :: string where "type_external_cert = ''external_certificate''"
definition type_csr :: string where "type_csr = ''csr''"
definition type_openvpn :: string where "type_openvpn = ''openvpn''"

lemmas item_types = type_ca_def type_ca_database_def type_crl_def type_certificate_def type_external_cert_def
  type_csr_def type_openvpn_def

lemmas vault_titles = ca_title_def ca_database_title_def crl_title_def openvpn_title_def default_lock_title_def

record backup_item =
  bi_type :: string
  bi_title :: string
  bi_data :: string

record backup_metadata =
  bm_opca_version :: string
  bm_backup_date :: string
  bm_vault_name :: string
  bm_item_count :: nat

record backup_payload =
  bp_metadata :: backup_metadata
  bp_items :: "backup_item list"

text \<open>The items a restore writes: a backup made before the lock was left out still carries it.\<close>

definition restorable_items :: "backup_payload \<Rightarrow> backup_item list" where
  "restorable_items p = filter (\<lambda>i. bi_title i \<noteq> default_lock_title) (bp_items p)"

record 'v vault_view =
  vv_ops :: "'v vault_ops"
  vv_item_json :: "item_ref \<Rightarrow> ('v, string) op_call"
  vv_items :: "string list \<Rightarrow> ('v, op_item list) op_call"
  vv_name :: string
  vv_json :: "string \<Rightarrow> string + json_value"
  vv_version :: string
  vv_chrono :: chrono
  vv_now :: int

section \<open>Reading the vault\<close>

definition get_item_json :: "'v vault_view \<Rightarrow> string \<Rightarrow> ('v, string option) comp" where
  "get_item_json view title v =
     (case vv_item_json view (ItemTitle title) v of (Inl e, v') \<Rightarrow> (Ok None, v') | (Inr j, v') \<Rightarrow> (Ok (Some j), v'))"

definition get_document_content :: "'v vault_view \<Rightarrow> string \<Rightarrow> ('v, string option) comp" where
  "get_document_content view title v =
     (case document_text (vv_ops view) title v of (r, v') \<Rightarrow> (Ok (res_ok r), v'))"

definition list_secure_notes :: "'v vault_view \<Rightarrow> ('v, string list) comp" where
  "list_secure_notes view = vbind (call (vv_items view [category_item])) (\<lambda>notes. vret (map it_title notes))"

text \<open>What an item is, from its title and the labels of its fields.\<close>

definition field_labels :: "json_value \<Rightarrow> string list" where
  "field_labels obj =
     (case Option.bind (json_get ''fields'' obj) json_array of
        None \<Rightarrow> []
      | Some flds \<Rightarrow> List.map_filter (\<lambda>f. Option.bind (json_get ''label'' f) json_str) flds)"

definition classify_item :: "'v vault_view \<Rightarrow> string \<Rightarrow> string \<Rightarrow> string" where
  "classify_item view title item_json =
     (if starts_with ''EXT_'' title then type_external_cert
      else case vv_json view item_json of
             Inl e \<Rightarrow> type_certificate
           | Inr obj \<Rightarrow>
               if ''certificate'' \<in> set (field_labels obj) then type_certificate
               else if ''certificate_signing_request'' \<in> set (field_labels obj) then type_csr
               else type_certificate)"

fun backup_notes :: "'v vault_view \<Rightarrow> string list \<Rightarrow> ('v, backup_item list) comp" where
  "backup_notes view [] = vret []"
| "backup_notes view (title # titles) =
     (if title \<in> {ca_title, openvpn_title, default_lock_title} then backup_notes view titles
      else
        vbind (get_item_json view title) (\<lambda>json.
        vbind (backup_notes view titles) (\<lambda>items.
          vret (case json of
                  None \<Rightarrow> items
                | Some data \<Rightarrow> \<lparr> bi_type = classify_item view title data, bi_title = title, bi_data = data \<rparr> # items))))"

definition item_of :: "string \<Rightarrow> string \<Rightarrow> string option \<Rightarrow> backup_item list" where
  "item_of ty title data = map (\<lambda>x. \<lparr> bi_type = ty, bi_title = title, bi_data = x \<rparr>) (option_list data)"

definition create_backup :: "'v vault_view \<Rightarrow> ('v, backup_payload) comp" where
  "create_backup view =
     vbind (get_item_json view ca_title) (\<lambda>ca.
       if ca = None
       then vfail (OtherErr (''CA item not found '' @ [CHR 0xE2, CHR 0x80, CHR 0x94] @ '' nothing to back up.''))
       else
         vbind (get_document_content view ca_database_title) (\<lambda>database.
         vbind (get_document_content view crl_title) (\<lambda>crl.
         vbind (get_item_json view openvpn_title) (\<lambda>openvpn.
         vbind (list_secure_notes view) (\<lambda>all_notes.
         vbind (backup_notes view all_notes) (\<lambda>notes.
           let items = item_of type_ca ca_title ca @ item_of type_ca_database ca_database_title database
                 @ item_of type_crl crl_title crl @ item_of type_openvpn openvpn_title openvpn @ notes
           in vret \<lparr> bp_metadata = \<lparr> bm_opca_version = vv_version view,
                       bm_backup_date = format_datetime (vv_chrono view) (vv_now view) Openssl,
                       bm_vault_name = vv_name view, bm_item_count = length items \<rparr>,
                     bp_items = items \<rparr>))))))"

section \<open>Restoring\<close>

definition restore_order :: "string \<Rightarrow> nat" where
  "restore_order ty =
     (if ty = type_ca then 0 else if ty = type_ca_database then 1 else if ty = type_crl then 2
      else if ty = type_openvpn then 3 else if ty = type_certificate then 4
      else if ty = type_external_cert then 5 else if ty = type_csr then 6 else 99)"

text \<open>The assignments that make an item's visible fields again; 1Password's own fields are left out.\<close>

definition own_fields :: "string list" where
  "own_fields = [''notesPlain'', ''password'', ''username'']"

definition attribute_of :: "json_value \<Rightarrow> string option" where
  "attribute_of field =
     (let label = member_text ''label'' field; value = member_text ''value'' field
      in if label = [] \<or> label \<in> set own_fields \<or> member_text ''id'' field \<in> set own_fields \<or> value = [] then None
         else
           let section_label = (case json_get ''section'' field of None \<Rightarrow> [] | Some s \<Rightarrow> member_text ''label'' s);
               qualified = (if section_label = [] then label else section_label @ ''.'' @ label)
           in Some ((if member_text ''type'' field = ''STRING'' \<and> \<not> text_contains ''[text]'' qualified
                     then qualified @ ''[text]'' else qualified) @ ''='' @ value))"

definition extract_attributes :: "json_value \<Rightarrow> string list" where
  "extract_attributes obj =
     (case Option.bind (json_get ''fields'' obj) json_array of
        None \<Rightarrow> [] | Some flds \<Rightarrow> List.map_filter attribute_of flds)"

definition restored_fields :: "'v vault_view \<Rightarrow> string \<Rightarrow> string \<Rightarrow> assignment list res" where
  "restored_fields view title item_json =
     (case vv_json view item_json of
        Inl e \<Rightarrow> Err (OtherErr (''Invalid JSON for item '' @ debug_str title @ '': '' @ e))
      | Inr obj \<Rightarrow> rmap_all (\<lambda>token. op_result (v_parse_assignment (vv_ops view) token)) (extract_attributes obj))"

definition restore_secure_note :: "'v vault_view \<Rightarrow> string \<Rightarrow> string \<Rightarrow> ('v, unit) comp" where
  "restore_secure_note view title item_json =
     vbind (vlift (restored_fields view title item_json)) (\<lambda>flds.
     vbind (call (v_create_item (vv_ops view) title category_item flds)) (\<lambda>_. vret ()))"

definition restore_document :: "'v vault_view \<Rightarrow> string \<Rightarrow> string \<Rightarrow> ('v, unit) comp" where
  "restore_document view title text_content =
     call (v_create_document (vv_ops view) title
       (if title = ca_database_title then ca_database_filename else if title = crl_title then crl_filename else title) text_content)"

definition restore_item :: "'v vault_view \<Rightarrow> backup_item \<Rightarrow> ('v, unit) comp" where
  "restore_item view i =
     (if bi_type i = type_ca_database \<or> bi_type i = type_crl then restore_document view (bi_title i) (bi_data i)
      else restore_secure_note view (bi_title i) (bi_data i))"

type_synonym restore_counts = "string \<rightharpoonup> nat"

definition counted_in :: "string \<Rightarrow> restore_counts \<Rightarrow> restore_counts" where
  "counted_in ty counts = counts(ty \<mapsto> (case counts ty of None \<Rightarrow> 0 | Some n \<Rightarrow> n) + 1)"

fun restore_each :: "'v vault_view \<Rightarrow> backup_item list \<Rightarrow> restore_counts \<Rightarrow> ('v, restore_counts) comp" where
  "restore_each view [] counts = vret counts"
| "restore_each view (i # items) counts =
     vbind (restore_item view i) (\<lambda>_. restore_each view items (counted_in (bi_type i) counts))"

definition restore_backup :: "'v vault_view \<Rightarrow> backup_payload \<Rightarrow> ('v, restore_counts) comp" where
  "restore_backup view payload =
     vbind (call (v_item_exists (vv_ops view) (ItemTitle ca_title))) (\<lambda>exists.
       if exists then vfail (OtherErr ''Target vault already contains a CA. Restore requires an empty vault.'')
       else restore_each view (sort_key (\<lambda>i. restore_order (bi_type i)) (restorable_items payload)) Map.empty)"

section \<open>A backup restores the vault\<close>

text \<open>
  What a vault holds under a title, and a vault that answers from what it holds: reading changes nothing,
  the secure notes listed are those held, and a new item is what it was made of. A note is its JSON text,
  which for a new one \<open>render\<close> makes from its fields.
\<close>

datatype stored = Stored_Note string | Stored_Document string

definition faithful_vault ::
  "'v vault_view \<Rightarrow> ('v \<Rightarrow> string \<Rightarrow> stored option) \<Rightarrow> (string \<Rightarrow> assignment list \<Rightarrow> string) \<Rightarrow> bool" where
  "faithful_vault view contents render \<longleftrightarrow>
     (\<forall>t v. v_item_exists (vv_ops view) (ItemTitle t) v = (Inr (contents v t \<noteq> None), v))
     \<and> (\<forall>t v. case contents v t of
           Some (Stored_Note j) \<Rightarrow> vv_item_json view (ItemTitle t) v = (Inr j, v)
         | Some (Stored_Document d) \<Rightarrow> v_document (vv_ops view) (ItemTitle t) v = (Inr d, v)
         | None \<Rightarrow> (\<exists>e. vv_item_json view (ItemTitle t) v = (Inl e, v)) \<and> (\<exists>e. v_document (vv_ops view) (ItemTitle t) v = (Inl e, v)))
     \<and> (\<forall>v. \<exists>items. vv_items view [category_item] v = (Inr items, v) \<and> distinct (map it_title items)
           \<and> it_title ` set items = {t. \<exists>j. contents v t = Some (Stored_Note j)})
     \<and> (\<forall>t flds v. \<exists>item v'. v_create_item (vv_ops view) t category_item flds v = (Inr item, v')
           \<and> contents v' = (contents v)(t \<mapsto> Stored_Note (render t flds)))
     \<and> (\<forall>t file d v. \<exists>v'. v_create_document (vv_ops view) t file d v = (Inr (), v')
           \<and> contents v' = (contents v)(t \<mapsto> Stored_Document d))"

text \<open>A CA's vault: its notes and documents are under their titles, and every note can be restored.\<close>

definition ca_vault :: "'v vault_view \<Rightarrow> (string \<Rightarrow> stored option) \<Rightarrow> bool" where
  "ca_vault view had \<longleftrightarrow>
     (\<exists>j. had ca_title = Some (Stored_Note j)) \<and> (\<nexists>d. had openvpn_title = Some (Stored_Document d))
     \<and> (\<nexists>j. had ca_database_title = Some (Stored_Note j)) \<and> (\<nexists>j. had crl_title = Some (Stored_Note j))
     \<and> (\<forall>t j. t \<noteq> default_lock_title \<and> had t = Some (Stored_Note j) \<longrightarrow> (\<exists>flds. restored_fields view t j = Ok flds))"

text \<open>What is to be restored of what a vault held: all but the lock and documents other than the database and the CRL.\<close>

definition restored ::
  "'v vault_view \<Rightarrow> (string \<Rightarrow> assignment list \<Rightarrow> string) \<Rightarrow> (string \<Rightarrow> stored option) \<Rightarrow> string \<Rightarrow> stored option" where
  "restored view render had t =
     (case had t of
        None \<Rightarrow> None
      | Some (Stored_Note j) \<Rightarrow>
          if t = default_lock_title then None
          else (case restored_fields view t j of Ok flds \<Rightarrow> Some (Stored_Note (render t flds)) | _ \<Rightarrow> None)
      | Some (Stored_Document d) \<Rightarrow> if t \<in> {ca_database_title, crl_title} then Some (Stored_Document d) else None)"

text \<open>What an item of a backup is restored as.\<close>

definition stored_as :: "'v vault_view \<Rightarrow> (string \<Rightarrow> assignment list \<Rightarrow> string) \<Rightarrow> backup_item \<Rightarrow> stored option" where
  "stored_as view render i =
     (if bi_type i = type_ca_database \<or> bi_type i = type_crl then Some (Stored_Document (bi_data i))
      else (case restored_fields view (bi_title i) (bi_data i) of Ok flds \<Rightarrow> Some (Stored_Note (render (bi_title i) flds)) | _ \<Rightarrow> None))"

lemma restore_item_runs:
  assumes "faithful_vault view contents render" "stored_as view render i = Some x"
  shows "\<exists>v'. restore_item view i v = (Ok (), v') \<and> contents v' = (contents v)(bi_title i \<mapsto> x)"
proof (cases "bi_type i = type_ca_database \<or> bi_type i = type_crl")
  case True
  have "\<exists>v'. v_create_document (vv_ops view) (bi_title i) f (bi_data i) v = (Inr (), v')
      \<and> contents v' = (contents v)(bi_title i \<mapsto> Stored_Document (bi_data i))" for f
    using assms(1) unfolding faithful_vault_def by blast
  then obtain v' where "v_create_document (vv_ops view) (bi_title i)
        (if bi_title i = ca_database_title then ca_database_filename else if bi_title i = crl_title then crl_filename else bi_title i)
        (bi_data i) v = (Inr (), v')" "contents v' = (contents v)(bi_title i \<mapsto> Stored_Document (bi_data i))" by blast
  then show ?thesis using True assms(2) by (intro exI [of _ v']) (auto simp: restore_item_def restore_document_def stored_as_def)
next
  case False
  then obtain flds where flds: "restored_fields view (bi_title i) (bi_data i) = Ok flds" "x = Stored_Note (render (bi_title i) flds)"
    using assms(2) by (auto simp: stored_as_def split: res.splits)
  obtain item v' where "v_create_item (vv_ops view) (bi_title i) category_item flds v = (Inr item, v')"
    "contents v' = (contents v)(bi_title i \<mapsto> Stored_Note (render (bi_title i) flds))"
    using assms(1) unfolding faithful_vault_def by blast
  then show ?thesis
    using False flds by (intro exI [of _ v']) (simp add: restore_item_def restore_secure_note_def vlift_def vret_def)
qed

lemma restore_each_runs:
  assumes "faithful_vault view contents render" "\<forall>i \<in> set items. stored_as view render i \<noteq> None" "distinct (map bi_title items)"
  shows "\<exists>counts' v'. restore_each view items counts v = (Ok counts', v')
    \<and> contents v' = contents v ++ map_of (map (\<lambda>i. (bi_title i, the (stored_as view render i))) items)"
  using assms(2,3)
proof (induction items arbitrary: counts v)
  case Nil
  show ?case by (simp add: vret_def)
next
  case (Cons i items)
  then obtain x where x: "stored_as view render i = Some x" by auto
  obtain v1 where first: "restore_item view i v = (Ok (), v1)" "contents v1 = (contents v)(bi_title i \<mapsto> x)"
    using restore_item_runs [OF assms(1) x] by blast
  obtain counts' v' where rest: "restore_each view items (counted_in (bi_type i) counts) v1 = (Ok counts', v')"
    "contents v' = contents v1 ++ map_of (map (\<lambda>i. (bi_title i, the (stored_as view render i))) items)"
    using Cons.IH [of "counted_in (bi_type i) counts" v1] Cons.prems by (simp del: fun_upd_apply) blast
  have "map_of (map (\<lambda>i. (bi_title i, the (stored_as view render i))) items) (bi_title i) = None"
    using Cons.prems(2) by (auto simp: map_of_eq_None_iff)
  then have "contents v' = contents v ++ map_of (map (\<lambda>i. (bi_title i, the (stored_as view render i))) (i # items))"
    unfolding rest(2) first(2) by (auto simp: fun_eq_iff map_add_def x split: option.splits)
  moreover have "restore_each view (i # items) counts v = (Ok counts', v')" using first(1) rest(1) by simp
  ultimately show ?case by blast
qed

text \<open>What a backup of such a vault holds.\<close>

lemma faithful_reads:
  assumes "faithful_vault view contents render"
  shows "v_item_exists (vv_ops view) (ItemTitle t) v = (Inr (contents v t \<noteq> None), v)"
    "contents v t = Some (Stored_Note j) \<Longrightarrow> get_item_json view t v = (Ok (Some j), v)"
    "contents v t = None \<Longrightarrow> get_item_json view t v = (Ok None, v)"
    "contents v t = Some (Stored_Document d) \<Longrightarrow> get_document_content view t v = (Ok (Some d), v)"
    "contents v t = None \<Longrightarrow> get_document_content view t v = (Ok None, v)"
proof -
  have reads: "case contents v t of
           Some (Stored_Note j) \<Rightarrow> vv_item_json view (ItemTitle t) v = (Inr j, v)
         | Some (Stored_Document d) \<Rightarrow> v_document (vv_ops view) (ItemTitle t) v = (Inr d, v)
         | None \<Rightarrow> (\<exists>e. vv_item_json view (ItemTitle t) v = (Inl e, v)) \<and> (\<exists>e. v_document (vv_ops view) (ItemTitle t) v = (Inl e, v))"
    using assms unfolding faithful_vault_def by blast
  show "v_item_exists (vv_ops view) (ItemTitle t) v = (Inr (contents v t \<noteq> None), v)"
    using assms unfolding faithful_vault_def by blast
  show "contents v t = Some (Stored_Note j) \<Longrightarrow> get_item_json view t v = (Ok (Some j), v)"
    "contents v t = None \<Longrightarrow> get_item_json view t v = (Ok None, v)"
    "contents v t = Some (Stored_Document d) \<Longrightarrow> get_document_content view t v = (Ok (Some d), v)"
    "contents v t = None \<Longrightarrow> get_document_content view t v = (Ok None, v)"
    using reads by (auto simp: get_item_json_def get_document_content_def document_text_def)
qed

definition note_of :: "'v vault_view \<Rightarrow> (string \<Rightarrow> stored option) \<Rightarrow> string \<Rightarrow> backup_item" where
  "note_of view had t =
     (let j = (case had t of Some (Stored_Note j) \<Rightarrow> j | _ \<Rightarrow> [])
      in \<lparr> bi_type = classify_item view t j, bi_title = t, bi_data = j \<rparr>)"

lemma backup_notes_runs:
  assumes "faithful_vault view contents render" "\<forall>t \<in> set titles. \<exists>j. contents v t = Some (Stored_Note j)"
  shows "backup_notes view titles v
    = (Ok (map (note_of view (contents v)) (filter (\<lambda>t. t \<notin> {ca_title, openvpn_title, default_lock_title}) titles)), v)"
  using assms(2)
proof (induction titles)
  case Nil
  show ?case by (simp add: vret_def)
next
  case (Cons t titles)
  then obtain j where j: "contents v t = Some (Stored_Note j)" by auto
  show ?case
    using Cons faithful_reads(2) [OF assms(1) j] by (auto simp: vret_def note_of_def j)
qed

definition document_of :: "(string \<Rightarrow> stored option) \<Rightarrow> string \<Rightarrow> string option" where
  "document_of had t = (case had t of Some (Stored_Document d) \<Rightarrow> Some d | _ \<Rightarrow> None)"

definition note_text :: "(string \<Rightarrow> stored option) \<Rightarrow> string \<Rightarrow> string option" where
  "note_text had t = (case had t of Some (Stored_Note j) \<Rightarrow> Some j | _ \<Rightarrow> None)"

lemma create_backup_runs:
  assumes "faithful_vault view contents render" "ca_vault view (contents v)"
  shows "\<exists>payload titles. create_backup view v = (Ok payload, v) \<and> distinct titles
    \<and> set titles = {t. \<exists>j. contents v t = Some (Stored_Note j)}
    \<and> bp_items payload = item_of type_ca ca_title (note_text (contents v) ca_title)
         @ item_of type_ca_database ca_database_title (document_of (contents v) ca_database_title)
         @ item_of type_crl crl_title (document_of (contents v) crl_title)
         @ item_of type_openvpn openvpn_title (note_text (contents v) openvpn_title)
         @ map (note_of view (contents v)) (filter (\<lambda>t. t \<notin> {ca_title, openvpn_title, default_lock_title}) titles)"
proof -
  note reads = faithful_reads [OF assms(1), where v = v]
  obtain j where "contents v ca_title = Some (Stored_Note j)" using assms(2) by (auto simp: ca_vault_def)
  then have ca: "get_item_json view ca_title v = (Ok (note_text (contents v) ca_title), v)" "note_text (contents v) ca_title \<noteq> None"
    using reads(2) by (simp_all add: note_text_def)
  have documents: "get_document_content view t v = (Ok (document_of (contents v) t), v)" if "t \<in> {ca_database_title, crl_title}" for t
    using that assms(2) reads(4,5) [of t] by (auto simp: ca_vault_def document_of_def split: option.splits stored.splits)
  have openvpn: "get_item_json view openvpn_title v = (Ok (note_text (contents v) openvpn_title), v)"
    using assms(2) reads(2,3) [of openvpn_title] by (auto simp: ca_vault_def note_text_def split: option.splits stored.splits)
  obtain items where items: "vv_items view [category_item] v = (Inr items, v)" "distinct (map it_title items)"
    "it_title ` set items = {t. \<exists>j. contents v t = Some (Stored_Note j)}"
    using assms(1) unfolding faithful_vault_def by blast
  have listed: "list_secure_notes view v = (Ok (map it_title items), v)"
    using items(1) by (simp add: list_secure_notes_def vret_def)
  have all_notes: "\<forall>t \<in> set (map it_title items). \<exists>j. contents v t = Some (Stored_Note j)" using items(3) by auto
  show ?thesis
    using items(2,3) ca(2)
    by (intro exI [of _ "the (res_ok (fst (create_backup view v)))"] exI [of _ "map it_title items"])
      (simp add: create_backup_def ca documents openvpn listed backup_notes_runs [OF assms(1) all_notes] vret_def Let_def)
qed

text \<open>The items of the backup are those of the titles that are to be restored, each under its own.\<close>

definition entry :: "'v vault_view \<Rightarrow> (string \<Rightarrow> stored option) \<Rightarrow> string \<Rightarrow> backup_item" where
  "entry view had t =
     (if t = ca_title then \<lparr> bi_type = type_ca, bi_title = t, bi_data = or_empty (note_text had t) \<rparr>
      else if t = ca_database_title then \<lparr> bi_type = type_ca_database, bi_title = t, bi_data = or_empty (document_of had t) \<rparr>
      else if t = crl_title then \<lparr> bi_type = type_crl, bi_title = t, bi_data = or_empty (document_of had t) \<rparr>
      else if t = openvpn_title then \<lparr> bi_type = type_openvpn, bi_title = t, bi_data = or_empty (note_text had t) \<rparr>
      else note_of view had t)"

lemma entry_title [simp]: "bi_title (entry view had t) = t"
  by (simp add: entry_def note_of_def Let_def)

lemma classified_note: "classify_item view t j \<notin> {type_ca_database, type_crl}"
  by (simp add: classify_item_def item_types split: sum.split)

lemma or_empty_Some [simp]: "or_empty (Some x) = x" "option_list (Some x) = [x]" "option_list None = []"
  by (simp_all add: or_empty_def option_list_def)

lemma titles_differ:
  "ca_title \<noteq> ca_database_title" "ca_title \<noteq> crl_title" "ca_database_title \<noteq> crl_title" "openvpn_title \<noteq> ca_database_title"
  "openvpn_title \<noteq> crl_title" "ca_title \<noteq> openvpn_title" "ca_title \<noteq> default_lock_title" "openvpn_title \<noteq> default_lock_title"
  "ca_database_title \<noteq> default_lock_title" "crl_title \<noteq> default_lock_title"
  by (simp_all add: vault_titles)

lemma entry_note:
  assumes "ca_vault view had" "had t = Some (Stored_Note j)"
  shows "bi_type (entry view had t) \<notin> {type_ca_database, type_crl}" "bi_data (entry view had t) = j"
proof -
  have "t \<noteq> ca_database_title" "t \<noteq> crl_title" using assms by (auto simp: ca_vault_def)
  then show "bi_type (entry view had t) \<notin> {type_ca_database, type_crl}" "bi_data (entry view had t) = j"
    using classified_note [of view t j] assms(2)
    by (auto simp: entry_def note_of_def note_text_def Let_def item_types)
qed

lemma entry_document:
  assumes "had t = Some (Stored_Document d)" "t \<in> {ca_database_title, crl_title}"
  shows "bi_type (entry view had t) \<in> {type_ca_database, type_crl}" "bi_data (entry view had t) = d"
  using assms titles_differ by (auto simp: entry_def document_of_def)

lemma stored_entry:
  assumes "ca_vault view had" "restored view render had t = Some x"
  shows "stored_as view render (entry view had t) = Some x"
proof (cases "had t")
  case (Some s)
  show ?thesis
  proof (cases s)
    case (Stored_Note j)
    then show ?thesis
      using entry_note [OF assms(1), of t j] Some assms(2) by (auto simp: restored_def stored_as_def split: if_splits res.splits)
  next
    case (Stored_Document d)
    then show ?thesis
      using entry_document [of had t d view] Some assms(2) by (auto simp: restored_def stored_as_def split: if_splits)
  qed
qed (use assms(2) in \<open>simp add: restored_def\<close>)

lemma restored_iff:
  assumes "ca_vault view had"
  shows "restored view render had t \<noteq> None \<longleftrightarrow>
    (\<exists>j. had t = Some (Stored_Note j)) \<and> t \<noteq> default_lock_title
    \<or> (\<exists>d. had t = Some (Stored_Document d)) \<and> t \<in> {ca_database_title, crl_title}"
  using assms by (fastforce simp: ca_vault_def restored_def split: option.splits stored.splits res.splits)

definition present :: "'a option \<Rightarrow> string \<Rightarrow> string list" where
  "present x t = (if x = None then [] else [t])"

definition backed_up :: "(string \<Rightarrow> stored option) \<Rightarrow> string list \<Rightarrow> string list" where
  "backed_up had titles =
     present (note_text had ca_title) ca_title @ present (document_of had ca_database_title) ca_database_title
     @ present (document_of had crl_title) crl_title @ present (note_text had openvpn_title) openvpn_title
     @ filter (\<lambda>t. t \<notin> {ca_title, openvpn_title, default_lock_title}) titles"

lemma item_of_entry:
  "item_of type_ca ca_title (note_text had ca_title) = map (entry view had) (present (note_text had ca_title) ca_title)"
  "item_of type_ca_database ca_database_title (document_of had ca_database_title)
     = map (entry view had) (present (document_of had ca_database_title) ca_database_title)"
  "item_of type_crl crl_title (document_of had crl_title) = map (entry view had) (present (document_of had crl_title) crl_title)"
  "item_of type_openvpn openvpn_title (note_text had openvpn_title)
     = map (entry view had) (present (note_text had openvpn_title) openvpn_title)"
  using titles_differ by (auto simp: item_of_def present_def entry_def)

lemma backup_entries:
  assumes "ca_vault view had" "set titles = {t. \<exists>j. had t = Some (Stored_Note j)}"
  shows "item_of type_ca ca_title (note_text had ca_title)
         @ item_of type_ca_database ca_database_title (document_of had ca_database_title)
         @ item_of type_crl crl_title (document_of had crl_title)
         @ item_of type_openvpn openvpn_title (note_text had openvpn_title)
         @ map (note_of view had) (filter (\<lambda>t. t \<notin> {ca_title, openvpn_title, default_lock_title}) titles)
    = map (entry view had) (backed_up had titles)"
proof -
  have "note_of view had t = entry view had t" if "t \<in> set titles" "t \<notin> {ca_title, openvpn_title, default_lock_title}" for t
    using that assms by (auto simp: entry_def ca_vault_def)
  then show ?thesis unfolding item_of_entry [where view = view] backed_up_def by simp
qed

lemma in_present: "t' \<in> set (present x t) \<longleftrightarrow> t' = t \<and> x \<noteq> None"
  by (simp add: present_def)

lemma backed_up_titles:
  assumes "ca_vault view had" "set titles = {t. \<exists>j. had t = Some (Stored_Note j)}" "distinct titles"
  shows "distinct (backed_up had titles)"
    "set (backed_up had titles) - {default_lock_title} = {t. restored view render had t \<noteq> None}"
proof -
  have notes_only: "ca_database_title \<notin> set titles" "crl_title \<notin> set titles" using assms(1,2) by (auto simp: ca_vault_def)
  then show "distinct (backed_up had titles)"
    using assms(3) titles_differ by (auto simp: backed_up_def present_def)
  have open_note: "note_text had t \<noteq> None \<longleftrightarrow> (\<exists>j. had t = Some (Stored_Note j))"
    "document_of had t \<noteq> None \<longleftrightarrow> (\<exists>d. had t = Some (Stored_Document d))" for t
    by (auto simp: note_text_def document_of_def split: option.splits stored.splits)
  have mem: "t \<in> set (backed_up had titles) \<longleftrightarrow> t = ca_title \<and> (\<exists>j. had ca_title = Some (Stored_Note j))
      \<or> t = ca_database_title \<and> (\<exists>d. had ca_database_title = Some (Stored_Document d))
      \<or> t = crl_title \<and> (\<exists>d. had crl_title = Some (Stored_Document d))
      \<or> t = openvpn_title \<and> (\<exists>j. had openvpn_title = Some (Stored_Note j))
      \<or> (\<exists>j. had t = Some (Stored_Note j)) \<and> t \<notin> {ca_title, openvpn_title, default_lock_title}" for t
    unfolding backed_up_def set_append Un_iff in_present open_note set_filter mem_Collect_eq assms(2) by blast
  have "t \<in> set (backed_up had titles) \<longleftrightarrow> (\<exists>j. had t = Some (Stored_Note j)) \<and> t \<noteq> default_lock_title
      \<or> (\<exists>d. had t = Some (Stored_Document d)) \<and> t \<in> {ca_database_title, crl_title}" for t
  proof -
    consider "t = ca_title" | "t = ca_database_title" | "t = crl_title" | "t = openvpn_title" | "t = default_lock_title"
      | "t \<notin> {ca_title, ca_database_title, crl_title, openvpn_title, default_lock_title}" by blast
    then show ?thesis by cases (auto simp: mem titles_differ titles_differ [symmetric])
  qed
  then show "set (backed_up had titles) - {default_lock_title} = {t. restored view render had t \<noteq> None}"
    unfolding restored_iff [OF assms(1)] using titles_differ by auto
qed


section \<open>An example\<close>

text \<open>A vault as a list of what is under its titles, the last first; a note's text is its only field's value.\<close>

definition example_render :: "string \<Rightarrow> assignment list \<Rightarrow> string" where
  "example_render t flds = concat (map snd flds)"

definition shelf_item :: "string \<Rightarrow> op_item" where
  "shelf_item t = \<lparr> it_id = t, it_title = t, it_created_at = [], it_fields = [] \<rparr>"

definition shelf_notes :: "(string \<times> stored) list \<Rightarrow> string list" where
  "shelf_notes v = remdups (filter (\<lambda>t. case map_of v t of Some (Stored_Note j) \<Rightarrow> True | _ \<Rightarrow> False) (map fst v))"

definition example_shelf :: "(string \<times> stored) list vault_view" where
  "example_shelf =
     \<lparr> vv_ops = \<lparr> v_current_user = (\<lambda>v. (Inl OpCliNotFound, v)), v_item = (\<lambda>r v. (Inl OpCliNotFound, v)),
         v_item_exists = (\<lambda>r v. (Inr (map_of v (ref_title r) \<noteq> None), v)),
         v_items_titled = (\<lambda>t v. (Inr [], v)),
         v_create_item = (\<lambda>t category flds v. (Inr (shelf_item t), (t, Stored_Note (example_render t flds)) # v)),
         v_edit_item = (\<lambda>r flds v. (Inl OpCliNotFound, v)), v_rename_item = (\<lambda>r t v. (Inl OpCliNotFound, v)),
         v_delete_item = (\<lambda>r v. (Inl OpCliNotFound, v)), v_delete_item_permanently = (\<lambda>r v. (Inl OpCliNotFound, v)),
         v_parse_assignment = (\<lambda>token. case split_once ''='' token of Some (l, x) \<Rightarrow> Inr (l, x) | None \<Rightarrow> Inl (OpOther token)),
         v_read = (\<lambda>r v. (Inl OpCliNotFound, v)),
         v_document = (\<lambda>r v. (case map_of v (ref_title r) of Some (Stored_Document d) \<Rightarrow> Inr d | _ \<Rightarrow> Inl (OpItemNotFound (ref_title r)), v)),
         v_create_document = (\<lambda>t f d v. (Inr (), (t, Stored_Document d) # v)),
         v_edit_document = (\<lambda>r f d v. (Inl OpCliNotFound, v)) \<rparr>,
       vv_item_json = (\<lambda>r v. (case map_of v (ref_title r) of Some (Stored_Note j) \<Rightarrow> Inr j | _ \<Rightarrow> Inl (OpItemNotFound (ref_title r)), v)),
       vv_items = (\<lambda>categories v. (Inr (map shelf_item (shelf_notes v)), v)),
       vv_name = ''vault'',
       vv_json = (\<lambda>j. Inr (Json_Object [(''fields'', Json_Array [Json_Object [(''label'', Json_String ''note''), (''value'', Json_String j)]])])),
       vv_version = ''1'', vv_chrono = seconds_chrono, vv_now = 0 \<rparr>"

lemma in_shelf_notes: "t \<in> set (shelf_notes v) \<longleftrightarrow> (\<exists>j. map_of v t = Some (Stored_Note j))"
proof (cases "map_of v t")
  case None
  then show ?thesis by (simp add: shelf_notes_def)
next
  case (Some x)
  then have "t \<in> fst ` set v" by (metis map_of_eq_None_iff option.distinct(1))
  then show ?thesis using Some by (cases x) (simp_all add: shelf_notes_def)
qed

lemma example_faithful: "faithful_vault example_shelf map_of example_render"
proof -
  have titles: "map it_title (map shelf_item ts) = ts" for ts
    by (simp add: shelf_item_def comp_def)
  have "\<exists>items. (Inr (map shelf_item (shelf_notes v)) :: op_error + op_item list, v) = (Inr items, v) \<and> distinct (map it_title items)
      \<and> it_title ` set items = {t. \<exists>j. map_of v t = Some (Stored_Note j)}" for v
  proof (intro exI [of _ "map shelf_item (shelf_notes v)"] conjI)
    show "distinct (map it_title (map shelf_item (shelf_notes v)))" unfolding titles by (simp add: shelf_notes_def)
    show "it_title ` set (map shelf_item (shelf_notes v)) = {t. \<exists>j. map_of v t = Some (Stored_Note j)}"
      using arg_cong [OF titles [of "shelf_notes v"], of set] by (auto simp: in_shelf_notes image_image)
  qed simp
  then show ?thesis
    unfolding faithful_vault_def example_shelf_def
    by (auto simp: fun_eq_iff split: option.split stored.split)
qed

definition example_shelved :: "(string \<times> stored) list" where
  "example_shelved = [(''CA'', Stored_Note ''ca''), (''CA_Database'', Stored_Document ''db''), (''web'', Stored_Note ''cert''),
     (''CA_Lock'', Stored_Note ''lock'')]"

lemma example_restored_fields: "j \<noteq> [] \<Longrightarrow> restored_fields example_shelf t j = Ok [(''note'', j)]"
  by (simp add: restored_fields_def example_shelf_def extract_attributes_def attribute_of_def member_text_def own_fields_def
      map_filter_simps Let_def op_result_def starts_with_def or_empty_def)

lemma example_ca_vault: "ca_vault example_shelf (map_of example_shelved)"
  using example_restored_fields
  by (auto simp: ca_vault_def example_shelved_def vault_titles split: if_splits)


end
