(* ===== verification/Openvpn.thy ===== *)
theory Openvpn
  imports Ca_Guarantees Vault_Backup
begin

text \<open>
  OpenVPN client-profile templates, from \<^verbatim>\<open>crates/opca-core/src/services/openvpn.rs\<close>: they are kept in the
  database, and those an older version kept on an item of the vault are imported once. The sections of an
  item's fields and the assignments of a section are the vault client's, parameters here.
\<close>

record openvpn_lib =
  ov_fields :: "op_item \<Rightarrow> (string option \<times> string \<times> string option) list"
  ov_set :: "string \<Rightarrow> string \<Rightarrow> string \<Rightarrow> assignment"
  ov_delete :: "string \<Rightarrow> string \<Rightarrow> assignment"

definition template_section :: string where "template_section = ''template''"

section \<open>The starter template\<close>

definition cert_item :: string where "cert_item = ''certificate''"
definition key_item :: string where "key_item = ''private_key''"
definition ta_item :: string where "ta_item = ''tls_authentication.static_key''"

definition secret :: "string \<Rightarrow> string \<Rightarrow> string" where
  "secret vault p = ''{{ op://'' @ vault @ ''/'' @ p @ '' }}''"

definition text_lines :: "string list \<Rightarrow> string" where
  "text_lines ls = concat (map (\<lambda>l. l @ [CHR 0x0A]) ls)"

definition template_boilerplate :: "string \<Rightarrow> string" where
  "template_boilerplate vault =
     (let ovpn = openvpn_title @ ''/'';
          ta_path = map (\<lambda>c. if c = CHR ''.'' then CHR ''/'' else c) ta_item
      in text_lines
        [''#'', ''# Client - '' @ secret vault ''$OPCA_USER/cn'', ''#'', [],
         ''# Brought to you by Wired Square - www.wiredsquare.com'', [],
         ''client'', ''dev tun'', ''proto udp'',
         ''remote '' @ secret vault (ovpn @ ''server/hostname'') @ '' '' @ secret vault (ovpn @ ''server/port''),
         ''resolv-retry infinite'', ''nobind'', ''persist-key'', ''persist-tun'', ''remote-cert-tls server'',
         ''cipher '' @ secret vault (ovpn @ ''server/cipher''), ''auth '' @ secret vault (ovpn @ ''server/auth''),
         ''verb 3'', ''key-direction 1'', ''mssfix 1300'',
         ''<ca>'', secret vault (ca_title @ ''/'' @ cert_item), ''</ca>'',
         ''<cert>'', secret vault (''$OPCA_USER/'' @ cert_item), ''</cert>'',
         ''<key>'', secret vault (''$OPCA_USER/'' @ key_item), ''</key>'',
         ''<tls-auth>'', secret vault (ovpn @ ta_path), ''</tls-auth>''])"

section \<open>Templates on the vault's item\<close>

definition templates_in_item :: "openvpn_lib \<Rightarrow> op_item \<Rightarrow> (string \<times> string) list" where
  "templates_in_item ov item =
     map (\<lambda>(sec, label, value). (label, trim (or_empty value)))
       (filter (\<lambda>(sec, label, value). sec = Some template_section \<and> label \<noteq> []) (ov_fields ov item))"

definition vault_templates :: "('v, 'm) ca_env_scheme \<Rightarrow> openvpn_lib \<Rightarrow> ('v, (string \<times> string) list) ca_comp" where
  "vault_templates env ov =
     outside (\<lambda>v. case v_item (e_ops env) (ItemTitle openvpn_title) v of
       (Inr item, v') \<Rightarrow> (Ok (templates_in_item ov item), v')
     | (Inl (OpItemNotFound m), v') \<Rightarrow> (Ok [], v')
     | (Inl e, v') \<Rightarrow> (Err (opca_error_from_op e), v'))"

definition loaded_db :: "('v, ca_db) ca_comp" where
  "loaded_db = gets (\<lambda>s. ok_or (OtherErr ''Database not loaded'') (s_db s))"

definition change_db :: "(ca_db \<Rightarrow> ca_db) \<Rightarrow> ('v, unit) ca_comp" where
  "change_db f = vbind loaded_db (\<lambda>db. put_db (f db))"

definition set_import_state :: "('v, 'm) ca_env_scheme \<Rightarrow> template_import \<Rightarrow> ('v, unit) ca_comp" where
  "set_import_state env st = vbind (change_db (set_openvpn_template_import st)) (\<lambda>_. store_ca_database env)"

section \<open>Import and clean-up\<close>

definition import_each :: "string \<Rightarrow> (string \<times> string) list \<Rightarrow> ca_db \<Rightarrow> ca_db" where
  "import_each stamp found db = foldl (\<lambda>db (name, content). upsert_openvpn_template stamp name content None db) db found"

definition import_templates_from_vault :: "('v, 'm) ca_env_scheme \<Rightarrow> openvpn_lib \<Rightarrow> ('v, nat option) ca_comp" where
  "import_templates_from_vault env ov =
     vbind loaded_db (\<lambda>db.
     vbind (vlift (openvpn_template_import db)) (\<lambda>st.
       if st \<noteq> NotImported then vret None
       else
         vbind (vault_templates env ov) (\<lambda>found.
         vbind (change_db (import_each (stamp_of env) found)) (\<lambda>_.
         vbind (set_import_state env (if found = [] then Settled else AwaitingCleanup)) (\<lambda>_.
           vret (Some (length found)))))))"

fun copy_missing :: "string \<Rightarrow> (string \<times> string) list \<Rightarrow> ca_db \<Rightarrow> ca_db \<times> bool" where
  "copy_missing stamp [] db = (db, False)"
| "copy_missing stamp ((name, content) # found) db =
     (if get_openvpn_template name db = None
      then (fst (copy_missing stamp found (upsert_openvpn_template stamp name content None db)), True)
      else copy_missing stamp found db)"

definition copy_missing_templates :: "('v, 'm) ca_env_scheme \<Rightarrow> (string \<times> string) list \<Rightarrow> ('v, unit) ca_comp" where
  "copy_missing_templates env found =
     vbind loaded_db (\<lambda>db.
     vbind (put_db (fst (copy_missing (stamp_of env) found db))) (\<lambda>_.
       if snd (copy_missing (stamp_of env) found db) then store_ca_database env else vret ()))"

definition templates_awaiting_cleanup :: "('v, 'm) ca_env_scheme \<Rightarrow> openvpn_lib \<Rightarrow> ('v, string list) ca_comp" where
  "templates_awaiting_cleanup env ov =
     vbind loaded_db (\<lambda>db.
     vbind (vlift (openvpn_template_import db)) (\<lambda>st.
       if st \<noteq> AwaitingCleanup then vret []
       else
         vbind (vault_templates env ov) (\<lambda>found.
           if found = [] then vbind (set_import_state env Settled) (\<lambda>_. vret [])
           else vbind (copy_missing_templates env found) (\<lambda>_. vret (map fst found)))))"

text \<open>The templates are copied to an item that is archived before they are taken off the old one.\<close>

definition move_to_archive :: "('v, 'm) ca_env_scheme \<Rightarrow> openvpn_lib \<Rightarrow> (string \<times> string) list \<Rightarrow> ('v, unit) ca_comp" where
  "move_to_archive env ov found =
     outside (vbind (call (v_create_item (e_ops env) (openvpn_title @ ''_Templates_'' @ stamp_of env) category_item
                 (map (\<lambda>(name, content). ov_set ov template_section name content) found))) (\<lambda>archive.
              vbind (call (v_delete_item (e_ops env) (ItemId (it_id archive)))) (\<lambda>_.
                call (v_edit_item (e_ops env) (ItemTitle openvpn_title)
                  (map (\<lambda>(name, content). ov_delete ov template_section name) found)))))"

definition archive_vault_templates :: "('v, 'm) ca_env_scheme \<Rightarrow> openvpn_lib \<Rightarrow> ('v, nat) ca_comp" where
  "archive_vault_templates env ov =
     vbind (vault_templates env ov) (\<lambda>found.
     vbind (if found = [] then vret ()
            else vbind (copy_missing_templates env found) (\<lambda>_. move_to_archive env ov found)) (\<lambda>_.
     vbind (set_import_state env Settled) (\<lambda>_. vret (length found))))"

definition keep_vault_templates :: "('v, 'm) ca_env_scheme \<Rightarrow> ('v, unit) ca_comp" where
  "keep_vault_templates env = set_import_state env Settled"

section \<open>Operations on templates\<close>

definition templates_db :: "('v, 'm) ca_env_scheme \<Rightarrow> openvpn_lib \<Rightarrow> ('v, ca_db) ca_comp" where
  "templates_db env ov = vbind (import_templates_from_vault env ov) (\<lambda>_. loaded_db)"

definition list_templates :: "('v, 'm) ca_env_scheme \<Rightarrow> openvpn_lib \<Rightarrow> ('v, openvpn_template list) ca_comp" where
  "list_templates env ov = vbind (templates_db env ov) (\<lambda>db. vret (query_all_openvpn_templates db))"

definition get_template :: "('v, 'm) ca_env_scheme \<Rightarrow> openvpn_lib \<Rightarrow> string \<Rightarrow> ('v, openvpn_template) ca_comp" where
  "get_template env ov name =
     vbind (templates_db env ov) (\<lambda>db.
       vlift (ok_or (OtherErr (''OpenVPN template '' @ quote name @ '' not found'')) (get_openvpn_template name db)))"

definition save_template :: "('v, 'm) ca_env_scheme \<Rightarrow> openvpn_lib \<Rightarrow> string \<Rightarrow> string \<Rightarrow> ('v, unit) ca_comp" where
  "save_template env ov name content =
     vbind (templates_db env ov) (\<lambda>_.
     vbind (change_db (upsert_openvpn_template (stamp_of env) name content None)) (\<lambda>_. store_ca_database env))"

definition add_starter_template :: "('v, 'm) ca_env_scheme \<Rightarrow> openvpn_lib \<Rightarrow> string \<Rightarrow> ('v, bool) ca_comp" where
  "add_starter_template env ov name =
     vbind (templates_db env ov) (\<lambda>db.
       if get_openvpn_template name db \<noteq> None then vret False
       else vbind (save_template env ov name (template_boilerplate (e_vault_name env))) (\<lambda>_. vret True))"

definition delete_template :: "('v, 'm) ca_env_scheme \<Rightarrow> openvpn_lib \<Rightarrow> string \<Rightarrow> ('v, bool) ca_comp" where
  "delete_template env ov name =
     vbind (templates_db env ov) (\<lambda>db.
     vbind (put_db (snd (delete_openvpn_template name db))) (\<lambda>_.
       if fst (delete_openvpn_template name db) then vbind (store_ca_database env) (\<lambda>_. vret True) else vret False))"

section \<open>What is saved stays\<close>

text \<open>The import is over and the database has a template with this text.\<close>

definition holds_text :: "string \<Rightarrow> string \<Rightarrow> ca_db \<Rightarrow> bool" where
  "holds_text name content db \<longleftrightarrow>
     (\<exists>st. openvpn_template_import db = Ok st \<and> st \<noteq> NotImported)
     \<and> (\<exists>tp. get_openvpn_template name db = Some tp \<and> tp_content tp = content)"

definition keeps_text :: "string \<Rightarrow> 'v ca_state \<Rightarrow> 'v ca_state \<Rightarrow> bool" where
  "keeps_text name s s' \<longleftrightarrow>
     (\<forall>content db. s_db s = Some db \<and> holds_text name content db \<longrightarrow> (\<exists>db'. s_db s' = Some db' \<and> holds_text name content db'))"

interpretation keeping: state_relation "keeps_text name" for name
proof unfold_locales
  show "keeps_text name s s" for s :: "'v ca_state" by (simp add: keeps_text_def)
next
  fix a b c :: "'v ca_state"
  assume "keeps_text name a b" "keeps_text name b c"
  then show "keeps_text name a c" unfolding keeps_text_def by blast
qed

named_theorems text_rules \<open>computations that keep a saved template\<close>

lemmas keeping_rules [text_rules] = keeping.obeys_vbind keeping.obeys_pure obeys_cases

lemma keeps_text_frame: "(\<And>s. s_db (snd (m s)) = s_db s) \<Longrightarrow> obeys (keeps_text name) m"
  by (simp add: obeys_def keeps_text_def)

lemma keeps_text_outside [text_rules]: "obeys (keeps_text name) (outside m)" "obeys (keeps_text name) loaded_db"
    "obeys (keeps_text name) (vault_templates env ov)"
  by (rule keeps_text_frame; simp add: outside_def loaded_db_def gets_def vault_templates_def split: prod.split)+

lemma keeps_text_put:
  "(\<And>content. holds_text name content db \<Longrightarrow> holds_text name content db') \<Longrightarrow> s_db s = Some db \<Longrightarrow> keeps_text name s (snd (put_db db' s))"
  by (auto simp: keeps_text_def put_db_def)

lemma keeps_text_loaded:
  assumes "\<And>s db. s_db s = Some db \<Longrightarrow> keeps_text name s (snd (f db s))"
  shows "obeys (keeps_text name) (vbind loaded_db f)"
  unfolding obeys_def
proof
  fix s
  show "keeps_text name s (snd (vbind loaded_db f s))"
    using assms [of s] keeping.same by (cases "s_db s") (simp_all add: loaded_db_def gets_def vbind_def)
qed

lemma keeps_text_change [text_rules]:
  "(\<And>content db. holds_text name content db \<Longrightarrow> holds_text name content (f db)) \<Longrightarrow> obeys (keeps_text name) (change_db f)"
  unfolding change_db_def by (intro keeps_text_loaded keeps_text_put) assumption+

lemma keeps_text_store [text_rules]: "obeys (keeps_text name) (store_ca_database env)"
proof -
  have fp: "holds_text name content (db\<lparr> download_fingerprint := f \<rparr>) = holds_text name content db" for content db f
    by (simp add: holds_text_def openvpn_template_import_def get_openvpn_template_def)
  have "obeys (keeps_text name) (update_db_fingerprint env)"
    by (auto simp: obeys_def update_db_fingerprint_def keeps_text_def fp)
  moreover have "obeys (keeps_text name) (write_backup env sql)" for sql
    by (rule keeps_text_frame) (simp add: write_backup_def)
  moreover have "obeys (keeps_text name) the_db" by (rule keeps_text_frame) (simp add: the_db_def gets_def)
  ultimately show ?thesis unfolding store_ca_database_def by (intro text_rules)
qed

lemma holds_text_state: "st \<noteq> NotImported \<Longrightarrow> holds_text name content db \<Longrightarrow> holds_text name content (set_openvpn_template_import st db)"
  by (auto simp: holds_text_def openvpn_template_import_def set_openvpn_template_import_def get_openvpn_template_def tbl_lookup_update
      template_import_to_column_def template_import_from_column_def no_rows_def split: option.splits template_import.splits dest: tbl_lookup_in)

lemma get_upserted:
  "name \<noteq> name' \<Longrightarrow> get_openvpn_template name (upsert_openvpn_template stamp name' content d db) = get_openvpn_template name db"
  "\<exists>tp. get_openvpn_template name (upsert_openvpn_template stamp name content d db) = Some tp \<and> tp_content tp = content"
  by (auto simp: get_openvpn_template_def upsert_openvpn_template_def Let_def tbl_lookup_upsert split: option.split)

lemma import_upserted: "openvpn_template_import (upsert_openvpn_template stamp name content d db) = openvpn_template_import db"
  by (simp add: openvpn_template_import_def upsert_openvpn_template_def Let_def)

lemma holds_text_upsert: "name' \<noteq> name \<Longrightarrow> holds_text name content db \<Longrightarrow> holds_text name content (upsert_openvpn_template stamp name' c d db)"
  by (simp add: holds_text_def get_upserted(1) import_upserted)

lemma holds_text_missing: "holds_text name content db \<Longrightarrow> holds_text name content (fst (copy_missing stamp found db))"
proof (induction stamp found db rule: copy_missing.induct)
  case (2 stamp name' c found db)
  show ?case
  proof (cases "get_openvpn_template name' db = None")
    case True
    then have "name' \<noteq> name" using 2(3) by (auto simp: holds_text_def)
    then show ?thesis using 2(1) [OF True holds_text_upsert [OF _ 2(3)]] True by simp
  next
    case False
    then show ?thesis using 2(2) [OF False 2(3)] False by auto
  qed
qed simp

lemma keeps_text_set_state [text_rules]: "st \<noteq> NotImported \<Longrightarrow> obeys (keeps_text name) (set_import_state env st)"
  unfolding set_import_state_def by (intro text_rules holds_text_state)

lemma keeps_text_missing [text_rules]: "obeys (keeps_text name) (copy_missing_templates env found)"
  unfolding copy_missing_templates_def
proof (rule keeps_text_loaded)
  fix s :: "'a ca_state" and db assume db: "s_db s = Some db"
  have "obeys (keeps_text name) (if snd (copy_missing (stamp_of env) found db) then store_ca_database env else vret ())"
    by (intro text_rules)
  then show "keeps_text name s (snd (vbind (put_db (fst (copy_missing (stamp_of env) found db)))
      (\<lambda>_. if snd (copy_missing (stamp_of env) found db) then store_ca_database env else vret ()) s))"
    using keeps_text_put [OF holds_text_missing db] by (intro keeping.vbind_at) (simp_all add: obeys_def)
qed

text \<open>The import does nothing once it is over.\<close>

lemma keeps_text_import [text_rules]: "obeys (keeps_text name) (import_templates_from_vault env ov)"
  unfolding import_templates_from_vault_def
proof (rule keeps_text_loaded)
  fix s :: "'a ca_state" and db assume db: "s_db s = Some db"
  let ?rest = "\<lambda>st. if st \<noteq> NotImported then vret None
       else vbind (vault_templates env ov) (\<lambda>found.
         vbind (change_db (import_each (stamp_of env) found)) (\<lambda>_.
         vbind (set_import_state env (if found = [] then Settled else AwaitingCleanup)) (\<lambda>_. vret (Some (length found)))))"
  show "keeps_text name s (snd (vbind (vlift (openvpn_template_import db)) ?rest s))"
  proof (cases "\<exists>content. holds_text name content db")
    case True
    then obtain st where "openvpn_template_import db = Ok st" "st \<noteq> NotImported" by (auto simp: holds_text_def)
    then show ?thesis by (simp add: vlift_def vret_def keeping.same)
  qed (use db in \<open>auto simp: keeps_text_def\<close>)
qed

section \<open>Runs of template operations\<close>

datatype template_op = Import_Templates | Ask_Cleanup | Archive_Templates | Keep_Templates | List_All | Get_Template string
  | Save_Template string string | Add_Starter string | Delete_Template string

definition then_done :: "('v, 'a) ca_comp \<Rightarrow> ('v, unit) ca_comp" where
  "then_done m = vbind m (\<lambda>_. vret ())"

fun template_call :: "('v, 'm) ca_env_scheme \<Rightarrow> openvpn_lib \<Rightarrow> template_op \<Rightarrow> ('v, unit) ca_comp" where
  "template_call env ov Import_Templates = then_done (import_templates_from_vault env ov)"
| "template_call env ov Ask_Cleanup = then_done (templates_awaiting_cleanup env ov)"
| "template_call env ov Archive_Templates = then_done (archive_vault_templates env ov)"
| "template_call env ov Keep_Templates = keep_vault_templates env"
| "template_call env ov List_All = then_done (list_templates env ov)"
| "template_call env ov (Get_Template n) = then_done (get_template env ov n)"
| "template_call env ov (Save_Template n c) = save_template env ov n c"
| "template_call env ov (Add_Starter n) = then_done (add_starter_template env ov n)"
| "template_call env ov (Delete_Template n) = then_done (delete_template env ov n)"

text \<open>A step is any operation, failed or not, other than saving or deleting this template.\<close>

fun touches :: "string \<Rightarrow> template_op \<Rightarrow> bool" where
  "touches name (Save_Template n c) \<longleftrightarrow> n = name"
| "touches name (Delete_Template n) \<longleftrightarrow> n = name"
| "touches name _ \<longleftrightarrow> False"

inductive template_step :: "string \<Rightarrow> 'v ca_state \<Rightarrow> 'v ca_state \<Rightarrow> bool" for name where
  Template_Step: "\<not> touches name c \<Longrightarrow> template_step name s (snd (template_call (env :: 'v ca_env) ov c s))"

inductive_cases template_stepE: "template_step name s s'"

lemma keeps_text_db [text_rules]: "obeys (keeps_text name) (templates_db env ov)"
  unfolding templates_db_def by (intro text_rules)

lemma keeps_text_save: "n \<noteq> name \<Longrightarrow> obeys (keeps_text name) (save_template env ov n content)"
  unfolding save_template_def by (intro text_rules holds_text_upsert)

lemma templates_db_Ok:
  assumes "templates_db env ov s = (Ok db, s')"
  shows "s_db s' = Some db"
  using assms by (auto simp: templates_db_def loaded_db_def gets_def vbind_Ok_iff)

lemma keeps_text_starter: "obeys (keeps_text name) (add_starter_template env ov n)"
  unfolding obeys_def add_starter_template_def
proof (intro allI keeping.vbind_at)
  fix s :: "'a ca_state"
  show "keeps_text name s (snd (templates_db env ov s))" using keeps_text_db unfolding obeys_def by blast
  fix db and s' :: "'a ca_state"
  assume "templates_db env ov s = (Ok db, s')"
  then have db: "s_db s' = Some db" by (rule templates_db_Ok)
  let ?add = "vbind (save_template env ov n (template_boilerplate (e_vault_name env))) (\<lambda>_. vret True)"
  have "keeps_text name s' (snd (?add s'))" if "get_openvpn_template n db = None"
  proof (cases "n = name")
    case True
    then show ?thesis using db that by (auto simp: keeps_text_def holds_text_def)
  next
    case False
    then have "obeys (keeps_text name) ?add" by (intro text_rules keeps_text_save)
    then show ?thesis unfolding obeys_def by blast
  qed
  then show "keeps_text name s' (snd ((if get_openvpn_template n db \<noteq> None then vret False else ?add) s'))"
    by (auto simp: vret_def keeping.same)
qed

lemma lookup_delete_other: "n \<noteq> k \<Longrightarrow> tbl_lookup key (tbl_delete (\<lambda>r. key r = n) rows) k = tbl_lookup key rows k"
  by (induction rows) (auto simp: tbl_lookup_def tbl_delete_def)

lemma holds_text_delete: "n \<noteq> name \<Longrightarrow> holds_text name content db \<Longrightarrow> holds_text name content (snd (delete_openvpn_template n db))"
  by (simp add: holds_text_def delete_openvpn_template_def openvpn_template_import_def get_openvpn_template_def lookup_delete_other)

lemma keeps_text_delete:
  assumes "n \<noteq> name"
  shows "obeys (keeps_text name) (delete_template env ov n)"
  unfolding obeys_def delete_template_def
proof (intro allI keeping.vbind_at)
  fix s :: "'a ca_state"
  show "keeps_text name s (snd (templates_db env ov s))" using keeps_text_db unfolding obeys_def by blast
  fix db and s' :: "'a ca_state"
  assume "templates_db env ov s = (Ok db, s')"
  then have "s_db s' = Some db" by (rule templates_db_Ok)
  then show "keeps_text name s' (snd (put_db (snd (delete_openvpn_template n db)) s'))"
    using holds_text_delete [OF assms] by (intro keeps_text_put)
  fix s'' :: "'a ca_state"
  have "obeys (keeps_text name)
      (if fst (delete_openvpn_template n db) then vbind (store_ca_database env) (\<lambda>_. vret True) else vret False)"
    by (intro text_rules)
  then show "keeps_text name s'' (snd ((if fst (delete_openvpn_template n db)
      then vbind (store_ca_database env) (\<lambda>_. vret True) else vret False) s''))"
    unfolding obeys_def by blast
qed

lemma keeps_text_call:
  assumes "\<not> touches name c"
  shows "obeys (keeps_text name) (template_call env ov c)"
proof -
  have awaiting: "obeys (keeps_text name) (templates_awaiting_cleanup env ov)"
    unfolding templates_awaiting_cleanup_def by (intro text_rules) simp
  have archive: "obeys (keeps_text name) (archive_vault_templates env ov)"
    unfolding archive_vault_templates_def move_to_archive_def by (intro text_rules) simp
  have keep: "obeys (keeps_text name) (keep_vault_templates env)"
    unfolding keep_vault_templates_def by (intro text_rules) simp
  show ?thesis
    using assms awaiting archive keep keeps_text_starter keeps_text_save keeps_text_delete
    by (cases c) (auto simp: then_done_def list_templates_def get_template_def intro!: text_rules)
qed

lemma run_keeps_text:
  assumes "(template_step name)\<^sup>*\<^sup>* s s'" "s_db s = Some db" "holds_text name content db"
  shows "\<exists>db'. s_db s' = Some db' \<and> holds_text name content db'"
  using assms(1)
proof induction
  case base
  show ?case using assms(2,3) by blast
next
  case (step s1 s2)
  from step.hyps(2) obtain c ov and env :: "'a ca_env" where
    call: "s2 = snd (template_call env ov c s1)" "\<not> touches name c" by (rule template_stepE)
  have "keeps_text name s1 s2" using keeps_text_call [OF call(2), of env ov] unfolding obeys_def call(1) by blast
  then show ?case using step.IH unfolding keeps_text_def by blast
qed

text \<open>A save leaves the import over and the template as given.\<close>

lemma store_db:
  assumes "store_ca_database env s = (r, s')" "s_db s = Some db"
  shows "\<exists>f. s_db s' = Some (db\<lparr> download_fingerprint := f \<rparr>)"
  using assms by (auto simp: store_ca_database_def update_db_fingerprint_def vbind_def the_db_def gets_def write_backup_def
      outside_def Let_def split: prod.splits)

lemma import_fingerprint [simp]: "openvpn_template_import (db\<lparr> download_fingerprint := f \<rparr>) = openvpn_template_import db"
  by (simp add: openvpn_template_import_def)

lemma change_db_Ok: "change_db f s = (Ok u, s') \<longleftrightarrow> (\<exists>db. s_db s = Some db \<and> s' = s\<lparr> s_db := Some (f db) \<rparr>)"
  by (auto simp: change_db_def vbind_Ok_iff loaded_db_def gets_def put_db_def)

lemma import_each_import: "openvpn_template_import (import_each stamp found db) = openvpn_template_import db"
  unfolding import_each_def by (induction found arbitrary: db) (auto simp: import_upserted)

lemma state_set:
  "openvpn_template_import db = Ok st0 \<Longrightarrow> openvpn_template_import (set_openvpn_template_import st db) = Ok st"
  by (cases st) (auto simp: openvpn_template_import_def set_openvpn_template_import_def tbl_lookup_update no_rows_def
      template_import_to_column_def template_import_from_column_def split: option.splits dest: tbl_lookup_in)

lemma vault_templates_db: "vault_templates env ov s = (r, s') \<Longrightarrow> s_db s' = s_db s"
  by (auto simp: vault_templates_def outside_def split: prod.splits)

lemma imported_after:
  assumes "import_templates_from_vault env ov s = (Ok x, s')"
  shows "\<exists>db st. s_db s' = Some db \<and> openvpn_template_import db = Ok st \<and> st \<noteq> NotImported"
proof -
  obtain db st where db: "s_db s = Some db" "openvpn_template_import db = Ok st"
    using assms by (auto simp: import_templates_from_vault_def vbind_Ok_iff loaded_db_def gets_def vlift_def)
  show ?thesis
  proof (cases "st = NotImported")
    case False
    then show ?thesis using assms db by (auto simp: import_templates_from_vault_def loaded_db_def gets_def vlift_def vret_def)
  next
    case True
    then obtain found s1 s2 s3 s4 where steps: "vault_templates env ov s = (Ok found, s1)"
        "change_db (import_each (stamp_of env) found) s1 = (Ok (), s2)"
        "change_db (set_openvpn_template_import (if found = [] then Settled else AwaitingCleanup)) s2 = (Ok (), s3)"
        "store_ca_database env s3 = (Ok (), s4)" "s' = s4"
      using assms db
      by (auto simp: import_templates_from_vault_def set_import_state_def vbind_Ok_iff loaded_db_def gets_def vlift_def vret_def)
    have "s_db s3 = Some (set_openvpn_template_import (if found = [] then Settled else AwaitingCleanup) (import_each (stamp_of env) found db))"
      using steps(2,3) db vault_templates_db [OF steps(1)] by (auto simp: change_db_Ok)
    then show ?thesis
      using store_db [OF steps(4)] state_set [of "import_each (stamp_of env) found db" st] db(2) steps(5)
      by (auto simp: import_each_import)
  qed
qed

lemma saved:
  assumes "save_template env ov name content s = (Ok (), s')"
  shows "\<exists>db. s_db s' = Some db \<and> holds_text name content db"
proof -
  obtain db0 s1 s2 where steps: "templates_db env ov s = (Ok db0, s1)"
      "change_db (upsert_openvpn_template (stamp_of env) name content None) s1 = (Ok (), s2)" "store_ca_database env s2 = (Ok (), s')"
    using assms by (auto simp: save_template_def vbind_Ok_iff)
  obtain x s0 where imported: "import_templates_from_vault env ov s = (Ok x, s0)" "loaded_db s0 = (Ok db0, s1)"
    using steps(1) by (auto simp: templates_db_def vbind_Ok_iff)
  then obtain st where st: "s_db s1 = Some db0" "openvpn_template_import db0 = Ok st" "st \<noteq> NotImported"
    using imported_after [OF imported(1)] by (auto simp: loaded_db_def gets_def)
  have "holds_text name content (upsert_openvpn_template (stamp_of env) name content None db0)"
    using st(2,3) get_upserted(2) by (simp add: holds_text_def import_upserted)
  moreover have "s_db s2 = Some (upsert_openvpn_template (stamp_of env) name content None db0)"
    using steps(2) st(1) by (auto simp: change_db_Ok)
  moreover have "holds_text name content (db\<lparr> download_fingerprint := f \<rparr>) = holds_text name content db" for db f
    by (simp add: holds_text_def get_openvpn_template_def)
  ultimately show ?thesis using store_db [OF steps(3)] by auto
qed

lemma get_held:
  assumes "s_db s = Some db" "holds_text name content db"
  shows "\<exists>tp. get_template env ov name s = (Ok tp, s) \<and> tp_content tp = content"
proof -
  obtain st tp where st: "openvpn_template_import db = Ok st" "st \<noteq> NotImported" and tp: "get_openvpn_template name db = Some tp" "tp_content tp = content"
    using assms(2) by (auto simp: holds_text_def)
  have "import_templates_from_vault env ov s = (Ok None, s)"
    using assms(1) st by (simp add: import_templates_from_vault_def loaded_db_def gets_def vlift_def vret_def)
  then have "templates_db env ov s = (Ok db, s)"
    using assms(1) by (simp add: templates_db_def loaded_db_def gets_def)
  then show ?thesis using tp by (simp add: get_template_def vlift_def)
qed

text \<open>
  C28: A template that was saved stays as it was saved, whatever the vault's item holds, over any run of template
  operations that does not save or delete it, failed ones included: neither the import nor the clean-up of
  the old templates writes over it, and getting it gives what was saved.
\<close>

theorem saved_template_stays:
  assumes "save_template env ov name content s = (Ok (), s1)" "(template_step name)\<^sup>*\<^sup>* s1 s2"
  shows "\<exists>tp. get_template env' ov' name s2 = (Ok tp, s2) \<and> tp_content tp = content"
proof -
  obtain db where "s_db s1 = Some db" "holds_text name content db" using saved [OF assms(1)] by blast
  from run_keeps_text [OF assms(2) this] show ?thesis using get_held by blast
qed

text \<open>A save in a CA whose templates were never imported, then an import from an item that has another text for it.\<close>

definition example_sections :: openvpn_lib where
  "example_sections =
     \<lparr> ov_fields = (\<lambda>item. map (\<lambda>(l, x). (Some ''template'', l, x)) (it_fields item)),
       ov_set = (\<lambda>sec l x. (sec @ ''.'' @ l, x)), ov_delete = (\<lambda>sec l. (sec @ ''.'' @ l, [])) \<rparr>"

definition example_templates :: "memory ca_state" where
  "example_templates = \<lparr> s_bundle = None, s_db = Some (db_new empty_config), s_crl = None, s_backup = False,
     s_out = [''OpenVPN'' \<mapsto> ([], [(''tcp'', ''old'')]), ''CA_Database'' \<mapsto> ([], [])] \<rparr>"

lemma example_saved: "fst (save_template (example_env 5) example_sections ''tcp'' ''new'' example_templates) = Ok ()"
  by code_simp

theorem saved_template_stays_witness:
  "\<exists>s1 tp. save_template (example_env 5) example_sections ''tcp'' ''new'' example_templates = (Ok (), s1)
     \<and> fst (get_template (example_env 6) example_sections ''tcp''
          (snd (template_call (example_env 6) example_sections Archive_Templates s1))) = Ok tp \<and> tp_content tp = ''new''"
proof -
  obtain s1 where save: "save_template (example_env 5) example_sections ''tcp'' ''new'' example_templates = (Ok (), s1)"
    using example_saved by (metis prod.collapse)
  have "template_step ''tcp'' s1 (snd (template_call (example_env 6) example_sections Archive_Templates s1))"
    by (rule Template_Step) simp
  then have "(template_step ''tcp'')\<^sup>*\<^sup>* s1 (snd (template_call (example_env 6) example_sections Archive_Templates s1))"
    by (rule r_into_rtranclp)
  from saved_template_stays [OF save this, of "example_env 6" example_sections] save show ?thesis by auto
qed

end
