(* ===== verification/Broker_Enrolment.thy ===== *)
theory Broker_Enrolment
  imports Acme_Request
begin

text \<open>
  The broker's enrolment, from \<^verbatim>\<open>crates/opca-acme-broker/src/enrolment.rs\<close>: the state the daemon keeps, the
  checks of the chain and the terms opCA sends, and the calendar its times are written in. X.509 parsing,
  the pairing code, files and JSON are parameters.
\<close>

section \<open>State\<close>

record enrolled =
  ed_chain_pem :: string
  ed_operator_pin :: string
  ed_config :: issuance_config
  ed_api_pin :: string
  ed_revoked :: bool
  ed_paused :: bool
  ed_issuers :: "string list option"

datatype mode = Enrolling | Enrolled enrolled

text \<open>What the code reads of a certificate.\<close>

datatype name_subtree = Dns_Subtree string | Other_Subtree

record certificate_view =
  vw_spki :: bytes
  vw_serial :: string
  vw_not_before :: int
  vw_not_after :: int
  vw_ca :: bool
  vw_self_signed :: bool
  vw_issuer :: string
  vw_subject :: string
  vw_sans :: "string list"
  vw_permitted :: "name_subtree list option"

datatype redemption = Code_Accepted | Code_Refused nat | Code_Was_Spent string | Code_Other string | Code_Failed string

text \<open>How waiting for the state's lock ends: had, failed, or too late, when the work is still done.\<close>

datatype locking = Lock_Had | Lock_Failed string | Lock_Late

text \<open>
  The daemon: the enrolment as its file and its memory have it, the subordinate's key and request, the
  ACME server, whether ACME is served and with which certificate, and the published files. The client a
  connection must present is the root it chains to and its key's pin.
\<close>

record daemon =
  dn_file :: "string option"
  dn_mode :: mode
  dn_spki :: bytes
  dn_csr_pem :: string
  dn_server :: server
  dn_client :: "(bytes \<times> string) option"
  dn_serving :: bool
  dn_acme_cert :: string
  dn_acme_key :: string
  dn_live :: bool
  dn_ca_file :: "bytes option"
  dn_crl_file :: "bytes option"

record daemon_config =
  dc_host :: string
  dc_domains :: "string list"
  dc_api_pin :: string
  dc_pki_origin :: string
  dc_issued_page :: nat
  dc_version :: string

record crl_revocation =
  rv_serial :: string
  rv_at :: int
  rv_code :: "nat option"

text \<open>The environment of one call: libraries, and how its files, sockets and the lock behave.\<close>

record daemon_env =
  de_config :: daemon_config
  de_store :: acme_lib
  de_issue :: issue_lib
  de_inspect :: "bytes \<Rightarrow> string + certificate_view"
  de_pairing_code :: "string \<Rightarrow> string option"
  de_redeem :: "string \<Rightarrow> redemption"
  de_read_enrolled :: "string \<Rightarrow> string + enrolled"
  de_write_enrolled :: "enrolled \<Rightarrow> string"
  de_read_enrolment :: "string \<Rightarrow> string + enrolment"
  de_read_chain :: "string \<Rightarrow> string + chain_update"
  de_read_revocation :: "string \<Rightarrow> string + nat"
  de_operator_tls :: "bytes \<Rightarrow> string \<Rightarrow> string + unit"
  de_lock :: locking
  de_stage :: "string + unit"
  de_write :: "string + unit"
  de_signer :: "string + unit"
  de_fresh_csr :: "string + string"
  de_host_csr :: "string + leaf_request"
  de_key_pem :: string
  de_key_matches :: "string \<Rightarrow> bytes \<Rightarrow> bool"
  de_tls_files :: "string + unit"
  de_bind :: "string + unit"
  de_crl_next :: "bytes \<Rightarrow> bytes \<Rightarrow> int option"
  de_serial :: "string \<Rightarrow> string + string"
  de_sign_crl :: "bytes \<Rightarrow> int \<Rightarrow> int \<Rightarrow> int \<Rightarrow> crl_revocation list \<Rightarrow> string + bytes"

type_synonym 'a daemon_call = "daemon \<Rightarrow> (error_body + 'a) \<times> daemon"

definition daemon_bad_request :: "string \<Rightarrow> error_body" where
  "daemon_bad_request m = \<lparr> eb_kind = Bad_Request, eb_message = m \<rparr>"

definition daemon_internal :: "string \<Rightarrow> error_body" where
  "daemon_internal m = \<lparr> eb_kind = Internal_Kind, eb_message = m \<rparr>"

definition badly :: "string + 'a \<Rightarrow> error_body + 'a" where
  "badly r = map_sum daemon_bad_request id r"

definition inside :: "string + 'a \<Rightarrow> error_body + 'a" where
  "inside r = map_sum daemon_internal id r"

definition load_mode :: "daemon_env \<Rightarrow> daemon \<Rightarrow> string + mode" where
  "load_mode env d =
     (case dn_file d of
        None \<Rightarrow> Inr Enrolling
      | Some text \<Rightarrow> (case de_read_enrolled env text of Inl e \<Rightarrow> Inl (''enrolment.json: '' @ e) | Inr e \<Rightarrow> Inr (Enrolled e)))"

section \<open>Times\<close>

definition zero_padded :: "nat \<Rightarrow> string \<Rightarrow> string" where
  "zero_padded n s = replicate (n - length s) CHR ''0'' @ s"

text \<open>Howard Hinnant's algorithm: a day counted from 1970-01-01 to a proleptic Gregorian date.\<close>

definition civil_from_days :: "int \<Rightarrow> int \<times> int \<times> int" where
  "civil_from_days days =
     (let z = days + 719468;
          era = z div 146097;
          day_of_era = z mod 146097;
          year_of_era = (day_of_era - day_of_era div 1460 + day_of_era div 36524 - day_of_era div 146096) div 365;
          day_of_year = day_of_era - (365 * year_of_era + year_of_era div 4 - year_of_era div 100);
          shifted_month = (5 * day_of_year + 2) div 153;
          day = day_of_year - (153 * shifted_month + 2) div 5 + 1;
          month = if shifted_month < 10 then shifted_month + 3 else shifted_month - 9
      in (year_of_era + era * 400 + (if month \<le> 2 then 1 else 0), month, day))"

definition rfc_3339 :: "int \<Rightarrow> string" where
  "rfc_3339 at =
     (let seconds = max 0 at div second_ns; time = seconds mod 86400
      in case civil_from_days (seconds div 86400) of (year, month, day) \<Rightarrow>
           zero_padded 4 (int_to_string year) @ ''-'' @ zero_padded 2 (int_to_string month) @ ''-''
           @ zero_padded 2 (int_to_string day) @ ''T'' @ zero_padded 2 (int_to_string (time div 3600)) @ '':''
           @ zero_padded 2 (int_to_string (time mod 3600 div 60)) @ '':'' @ zero_padded 2 (int_to_string (time mod 60)) @ ''Z'')"

section \<open>Checks\<close>

text \<open>The subordinate first and the root last, for this broker's key, unexpired.\<close>

definition check_chain :: "daemon_env \<Rightarrow> daemon \<Rightarrow> string \<Rightarrow> error_body + certificate_view \<times> bytes" where
  "check_chain env d chain_text =
     sbind (badly (il_chain (de_issue env) chain_text)) (\<lambda>chain.
     if length chain < 2 then Inl (daemon_bad_request ''the chain needs the subordinate, then the root'')
     else
       let root_der = last chain
       in sbind (badly (de_inspect env (hd chain))) (\<lambda>subordinate.
          sbind (badly (de_inspect env root_der)) (\<lambda>root.
          if vw_spki subordinate \<noteq> dn_spki d
          then Inl (daemon_bad_request (''the chain'' @ [CHR 0x27] @ ''s first certificate is not for this broker'' @ [CHR 0x27] @ ''s key''))
          else if \<not> vw_ca subordinate \<or> \<not> vw_self_signed root \<or> vw_issuer subordinate \<noteq> vw_subject root
          then Inl (daemon_bad_request ''the chain is not a subordinate CA followed by the root that issued it'')
          else if vw_not_after subordinate \<le> al_now (de_store env)
          then Inl (daemon_bad_request ''the subordinate has expired'')
          else Inr (subordinate, root_der))))"

definition constrained_domains :: "certificate_view \<Rightarrow> string set" where
  "constrained_domains v =
     (case vw_permitted v of None \<Rightarrow> {}
      | Some subtrees \<Rightarrow>
          set (List.map_filter (\<lambda>t. case t of Dns_Subtree n \<Rightarrow> Some (to_ascii_lowercase n) | Other_Subtree \<Rightarrow> None) subtrees))"

definition lowercase_set :: "string list \<Rightarrow> string set" where
  "lowercase_set names = to_ascii_lowercase ` set names"

definition check_config :: "daemon_env \<Rightarrow> issuance_config \<Rightarrow> certificate_view \<Rightarrow> error_body + unit" where
  "check_config env config subordinate =
     (let permitted = lowercase_set (ic_permitted_domains config);
          domains = dc_domains (de_config env)
      in if permitted = {} then Inl (daemon_bad_request ''the config permits no domains'')
         else if permitted \<noteq> constrained_domains subordinate
         then Inl (daemon_bad_request (''the config'' @ [CHR 0x27] @ ''s domains are not those the subordinate'' @ [CHR 0x27] @ ''s name constraints permit''))
         else if \<not> host_within (dc_host (de_config env)) (ic_permitted_domains config)
         then Inl (daemon_bad_request (''the broker'' @ [CHR 0x27] @ ''s host is not a name within the permitted domains, and the ACME ''
                @ ''listener'' @ [CHR 0x27] @ ''s certificate is issued for it''))
         else if domains \<noteq> [] \<and> permitted \<noteq> lowercase_set domains
         then Inl (daemon_bad_request (''the config'' @ [CHR 0x27] @ ''s domains are not those configured on the broker''))
         else if ic_leaf_days config = 0 \<or> ic_leaf_days config > ic_leaf_max_days config
         then Inl (daemon_bad_request ''leaf_days must be at least 1 and at most leaf_max_days'')
         else if ic_challenges config = [] then Inl (daemon_bad_request ''the config allows no challenges'')
         else Inr ())"

definition is_pin :: "string \<Rightarrow> bool" where
  "is_pin pin \<longleftrightarrow> length pin = 64 \<and> list_all (\<lambda>c. is_ascii_digit c \<or> c \<in> set ''abcdef'') pin"

text \<open>The enrolment checked whole, before its code is redeemed: the code, what is to be stored, the root.\<close>

definition check_enrolment :: "daemon_env \<Rightarrow> daemon \<Rightarrow> enrolment \<Rightarrow> error_body + string \<times> enrolled \<times> bytes" where
  "check_enrolment env d e =
     (case de_pairing_code env (en_code e) of
        None \<Rightarrow> Inl (daemon_bad_request ''the code is not a pairing code'')
      | Some code \<Rightarrow>
          if \<not> is_pin (en_operator_pin e)
          then Inl (daemon_bad_request ''the operator pin is not 64 lower-case hex digits'')
          else
            sbind (check_chain env d (en_chain_pem e)) (\<lambda>(subordinate, root).
            sbind (check_config env (en_config e) subordinate) (\<lambda>_.
              Inr (code, \<lparr> ed_chain_pem = en_chain_pem e, ed_operator_pin = en_operator_pin e, ed_config = en_config e,
                     ed_api_pin = dc_api_pin (de_config env), ed_revoked = False, ed_paused = False,
                     ed_issuers = Some [decimal (vw_serial subordinate)] \<rparr>, root))))"

end
