(* ===== verification/Broker_Daemon.thy ===== *)
theory Broker_Daemon
  imports Broker_Enrolment Acme_Server
begin

text \<open>
  The broker towards opCA and the outside: its API (\<^verbatim>\<open>api.rs\<close>, \<^verbatim>\<open>enrolled.rs\<close>, the end of \<^verbatim>\<open>enrolment.rs\<close>), the
  leaves' CRL (\<^verbatim>\<open>pki.rs\<close>) and keeping the ACME listener in step with the enrolment (\<^verbatim>\<open>acme/listener.rs\<close>). One
  request runs from its first step to its last.
\<close>

section \<open>Bindings\<close>

definition dret :: "'a \<Rightarrow> 'a daemon_call" where "dret x d = (Inr x, d)"

definition dlift :: "error_body + 'a \<Rightarrow> 'a daemon_call" where "dlift r d = (r, d)"

definition dbind :: "'a daemon_call \<Rightarrow> ('a \<Rightarrow> 'b daemon_call) \<Rightarrow> 'b daemon_call" where
  "dbind m f d = (case m d of (Inl e, d') \<Rightarrow> (Inl e, d') | (Inr x, d') \<Rightarrow> f x d')"

definition dget :: "(daemon \<Rightarrow> 'a) \<Rightarrow> 'a daemon_call" where "dget f d = (Inr (f d), d)"

definition dset :: "(daemon \<Rightarrow> daemon) \<Rightarrow> unit daemon_call" where "dset f d = (Inr (), f d)"

text \<open>Work done under the state's lock.\<close>

definition locked :: "daemon_env \<Rightarrow> 'a daemon_call \<Rightarrow> 'a daemon_call" where
  "locked env work d =
     (case de_lock env of
        Lock_Had \<Rightarrow> work d
      | Lock_Failed e \<Rightarrow> (Inl (daemon_internal e), d)
      | Lock_Late \<Rightarrow> (Inl (daemon_internal (''timed out waiting for the state'' @ [CHR 0x27] @ ''s lock'')), snd (work d)))"

section \<open>The ACME listener\<close>

definition acme_lifetime :: int where "acme_lifetime = 30 * day_ns"

text \<open>
  Whether the listener's certificate is for the host, goes with the enrolled chain, matches its key and
  is short of two thirds of its life.
\<close>

definition still_current :: "daemon_env \<Rightarrow> daemon \<Rightarrow> string \<Rightarrow> bool" where
  "still_current env d chain_text =
     (case (il_chain (de_issue env) (dn_acme_cert d), il_chain (de_issue env) chain_text) of
        (Inr (leaf # served_chain), Inr chain) \<Rightarrow>
          (case de_inspect env leaf of
             Inl _ \<Rightarrow> False
           | Inr view \<Rightarrow>
               vw_not_before view \<le> vw_not_after view
               \<and> served_chain = butlast chain \<and> vw_sans view = [dc_host (de_config env)]
               \<and> al_now (de_store env) < vw_not_before view + (vw_not_after view - vw_not_before view) * 2 div 3
               \<and> de_key_matches env (dn_acme_key d) (vw_spki view))
      | _ \<Rightarrow> False)"

definition issue_pair :: "daemon_env \<Rightarrow> issuer \<Rightarrow> string + string \<times> string" where
  "issue_pair env i =
     (let now = al_now (de_store env);
          validity = \<lparr> vd_not_before = now - backdate, vd_not_after = min (now + acme_lifetime) (is_subordinate_not_after i) \<rparr>
      in if vd_not_after validity \<le> now then Inl ''the subordinate has expired''
         else sbind (de_host_csr env) (\<lambda>csr.
              sbind (sign_leaf (de_issue env) i csr (Some (dc_host (de_config env))) validity) (\<lambda>(serial, cert_pem).
                Inr (cert_pem, de_key_pem env))))"

text \<open>Serving under an enrolment: the pair on disk renewed if need be, the issuer set, then the listener.\<close>

definition start_listener :: "daemon_env \<Rightarrow> daemon \<Rightarrow> (string + unit) \<times> daemon" where
  "start_listener env d =
     (case de_tls_files env of
        Inl e \<Rightarrow> (Inl e, d)
      | Inr _ \<Rightarrow>
          if dn_serving d then (Inr (), d)
          else (case de_bind env of
                  Inl e \<Rightarrow> (Inl e, d)
                | Inr _ \<Rightarrow> (Inr (), d\<lparr> dn_server := resume (dn_server d), dn_serving := True \<rparr>)))"

definition serve_acme_under :: "daemon_env \<Rightarrow> enrolled \<Rightarrow> daemon \<Rightarrow> (string + unit) \<times> daemon" where
  "serve_acme_under env e d =
     (let current = still_current env d (ed_chain_pem e)
      in case sbind (de_signer env) (\<lambda>_. issuer_new (de_issue env) (ed_chain_pem e) (ed_config e)) of
           Inl err \<Rightarrow> (Inl err, d)
         | Inr i \<Rightarrow>
             (let i = published_at (dc_pki_origin (de_config env)) i
              in case (if current then Inr (dn_acme_cert d, dn_acme_key d)
                       else sbind (issue_pair env i) (\<lambda>pair. sbind (de_write env) (\<lambda>_. Inr pair))) of
                   Inl err \<Rightarrow> (Inl err, d)
                 | Inr (cert, key) \<Rightarrow>
                     (let d = d\<lparr> dn_acme_cert := cert, dn_acme_key := key, dn_server := set_issuer i (dn_server d) \<rparr>
                      in if current \<and> dn_serving d then (Inr (), d) else start_listener env d)))"

definition live_mode :: "mode \<Rightarrow> bool" where
  "live_mode m = (case m of Enrolling \<Rightarrow> False | Enrolled e \<Rightarrow> \<not> ed_revoked e)"

definition refresh_acme :: "daemon_env \<Rightarrow> daemon \<Rightarrow> bool \<times> daemon" where
  "refresh_acme env d =
     (let d = d\<lparr> dn_live := live_mode (dn_mode d) \<rparr>
      in case dn_mode d of
           Enrolled e \<Rightarrow>
             if ed_revoked e then (True, d\<lparr> dn_serving := False \<rparr>)
             else (case serve_acme_under env e (d\<lparr> dn_server := set_paused (ed_paused e) (dn_server d) \<rparr>) of
                     (Inl err, d') \<Rightarrow> (False, d') | (Inr _, d') \<Rightarrow> (True, d'))
         | Enrolling \<Rightarrow> (True, d\<lparr> dn_serving := False \<rparr>))"

definition refreshed :: "daemon_env \<Rightarrow> unit daemon_call" where
  "refreshed env = dset (\<lambda>d. snd (refresh_acme env d))"

section \<open>Enrolling\<close>

definition daemon_versions :: "daemon_env \<Rightarrow> versions" where
  "daemon_versions env = \<lparr> vs_api = api_version, vs_broker = dc_version (de_config env) \<rparr>"

definition offer :: "daemon_env \<Rightarrow> daemon \<Rightarrow> enrolment_offer option" where
  "offer env d =
     (if dn_mode d = Enrolling
      then Some \<lparr> eo_csr_pem = dn_csr_pem d, eo_host = dc_host (de_config env), eo_configured_domains = dc_domains (de_config env),
             eo_versions = daemon_versions env \<rparr>
      else None)"

definition refused_code :: "redemption \<Rightarrow> error_body" where
  "refused_code r =
     (case r of
        Code_Refused remaining \<Rightarrow> \<lparr> eb_kind = Wrong_Code remaining, eb_message = ''wrong pairing code'' \<rparr>
      | Code_Was_Spent how \<Rightarrow> \<lparr> eb_kind = Code_Spent, eb_message = ''the pairing code is spent ('' @ how @ '')'' \<rparr>
      | Code_Accepted \<Rightarrow> daemon_internal ''unexpected redemption Accepted''
      | Code_Other what \<Rightarrow> daemon_internal (''unexpected redemption '' @ what)
      | Code_Failed e \<Rightarrow> daemon_internal e)"

text \<open>Staged before the code is redeemed, so that an accepted code cannot meet a failed write.\<close>

definition redeem_and_store :: "daemon_env \<Rightarrow> string \<times> enrolled \<times> bytes \<Rightarrow> unit daemon_call" where
  "redeem_and_store env checked =
     (case checked of (code, e, root) \<Rightarrow>
       dbind (dlift (badly (de_operator_tls env root (ed_operator_pin e)))) (\<lambda>_.
       dbind (dlift (inside (de_stage env))) (\<lambda>_.
         case de_redeem env code of
           Code_Accepted \<Rightarrow>
             dbind (dlift (inside (de_write env))) (\<lambda>_.
             dbind (dset (\<lambda>d. d\<lparr> dn_file := Some (de_write_enrolled env e), dn_mode := Enrolled e,
                                dn_client := Some (root, ed_operator_pin e) \<rparr>)) (\<lambda>_. refreshed env))
         | r \<Rightarrow> dlift (Inl (refused_code r)))))"

definition daemon_state :: "daemon \<Rightarrow> issuer_state" where
  "daemon_state d = (if dn_serving d then Issuing else AcmeDown)"

definition status_from :: "daemon_env \<Rightarrow> certificate_view \<Rightarrow> enrolled \<Rightarrow> daemon \<Rightarrow> api_status" where
  "status_from env subordinate e d =
     \<lparr> st_state = (if ed_revoked e then RevokedIssuer else if ed_paused e then Paused else daemon_state d),
       st_subordinate_serial = decimal (vw_serial subordinate), st_subordinate_not_after = rfc_3339 (vw_not_after subordinate),
       st_config = ed_config e, st_versions = daemon_versions env, st_issued = None \<rparr>"

definition daemon_status :: "daemon_env \<Rightarrow> enrolled \<Rightarrow> api_status daemon_call" where
  "daemon_status env e d =
     (sbind (inside (il_chain (de_issue env) (ed_chain_pem e))) (\<lambda>chain.
      case chain of
        [] \<Rightarrow> Inl (daemon_internal ''the stored chain is empty'')
      | der # _ \<Rightarrow> sbind (inside (de_inspect env der)) (\<lambda>subordinate. Inr (status_from env subordinate e d))), d)"

definition enrol :: "daemon_env \<Rightarrow> enrolment \<Rightarrow> api_status daemon_call" where
  "enrol env e =
     dbind (\<lambda>d. (check_enrolment env d e, d)) (\<lambda>checked.
     dbind (locked env (redeem_and_store env checked)) (\<lambda>_. daemon_status env (fst (snd checked))))"

text \<open>With the issued counts of this enrolment's subordinates.\<close>

definition counted :: "api_status daemon_call \<Rightarrow> api_status daemon_call" where
  "counted m =
     dbind m (\<lambda>status.
     dget (\<lambda>d.
       let issuers = (case dn_mode d of Enrolled e \<Rightarrow> ed_issuers e | Enrolling \<Rightarrow> None)
       in case counts issuers (sv_db (dn_server d)) of (all, gone) \<Rightarrow>
            status\<lparr> st_issued := Some \<lparr> ct_total = all, ct_revoked = gone \<rparr> \<rparr>))"

section \<open>The leaves' CRL\<close>

definition crl_life :: int where "crl_life = 4 * day_ns"
definition resign_within :: int where "resign_within = 3 * day_ns"

text \<open>The reason a CRL gives; 0 is unspecified and 7 unused.\<close>

definition crl_reason :: "nat option \<Rightarrow> nat option" where
  "crl_reason code = Option.bind code (\<lambda>n. if n \<in> set [1, 2, 3, 4, 5, 6, 8, 9, 10] then Some n else None)"

definition revocation_of :: "daemon_env \<Rightarrow> leaf \<Rightarrow> string + crl_revocation" where
  "revocation_of env l =
     sbind (de_serial env (l_serial l)) (\<lambda>serial.
       case l_revoked_at l of
         None \<Rightarrow> Inl ''not revoked''
       | Some at \<Rightarrow> Inr \<lparr> rv_serial = serial, rv_at = at, rv_code = crl_reason (l_reason l) \<rparr>)"

fun revocations :: "daemon_env \<Rightarrow> leaf list \<Rightarrow> string + crl_revocation list" where
  "revocations env [] = Inr []"
| "revocations env (l # ls) = sbind (revocation_of env l) (\<lambda>r. sbind (revocations env ls) (\<lambda>rs. Inr (r # rs)))"

definition sign_crl :: "daemon_env \<Rightarrow> enrolled \<Rightarrow> bytes \<Rightarrow> daemon \<Rightarrow> (string + unit) \<times> daemon" where
  "sign_crl env e subordinate d =
     (let now = al_now (de_store env); db = sv_db (dn_server d)
      in case map_sum store_error_str id (revoked_unexpired (de_store env) (ed_issuers e) now db) of
           Inl err \<Rightarrow> (Inl err, d)
         | Inr leaves \<Rightarrow>
             (case revocations env leaves of
                Inl err \<Rightarrow> (Inl err, d)
              | Inr revoked \<Rightarrow>
                  (case next_crl_number db of (number, db') \<Rightarrow>
                     let d = d\<lparr> dn_server := (dn_server d)\<lparr> sv_db := db' \<rparr> \<rparr>;
                         this_update = now - backdate
                     in case sbind (de_signer env) (\<lambda>_. de_sign_crl env subordinate number this_update (this_update + crl_life) revoked) of
                          Inl err \<Rightarrow> (Inl err, d)
                        | Inr crl \<Rightarrow>
                            (case locked env (dbind (dlift (inside (de_write env))) (\<lambda>_.
                                    dset (\<lambda>d. d\<lparr> dn_ca_file := Some subordinate, dn_crl_file := Some crl \<rparr>))) d of
                               (Inl err, d') \<Rightarrow> (Inl (eb_message err), d')
                             | (Inr _, d') \<Rightarrow> (Inr (), d')))))"

text \<open>How long the CRL on disk has left, if the subordinate on disk is the current one and signed it.\<close>

definition fresh_for :: "daemon_env \<Rightarrow> bytes \<Rightarrow> daemon \<Rightarrow> int option" where
  "fresh_for env subordinate d =
     (if dn_ca_file d \<noteq> Some subordinate then None
      else Option.bind (dn_crl_file d) (\<lambda>crl. Option.bind (de_crl_next env crl subordinate) (\<lambda>next_update.
             if al_now (de_store env) \<le> next_update then Some (next_update - al_now (de_store env)) else None)))"

definition refresh_crl :: "daemon_env \<Rightarrow> bool \<Rightarrow> daemon \<Rightarrow> (string + unit) \<times> daemon" where
  "refresh_crl env force d =
     (case dn_mode d of
        Enrolled e \<Rightarrow>
          if ed_revoked e then (Inr (), d)
          else (case il_chain (de_issue env) (ed_chain_pem e) of
                  Inl err \<Rightarrow> (Inl err, d)
                | Inr [] \<Rightarrow> (Inl ''the stored chain is empty'', d)
                | Inr (subordinate # _) \<Rightarrow>
                    (case fresh_for env subordinate d of
                       Some left \<Rightarrow> if \<not> force \<and> left > resign_within then (Inr (), d) else sign_crl env e subordinate d
                     | None \<Rightarrow> sign_crl env e subordinate d))
      | Enrolling \<Rightarrow> (Inr (), d))"

text \<open>One turn of the loop that keeps the CRL fresh: a signing that was due and failed stays due.\<close>

definition crl_turn :: "daemon_env \<Rightarrow> daemon \<Rightarrow> daemon" where
  "crl_turn env d =
     (let force = sv_stale (dn_server d)
      in case refresh_crl env force (d\<lparr> dn_server := (dn_server d)\<lparr> sv_stale := False \<rparr> \<rparr>) of
           (Inr _, d') \<Rightarrow> d'
         | (Inl err, d') \<Rightarrow> if force then d'\<lparr> dn_server := (dn_server d')\<lparr> sv_stale := True \<rparr> \<rparr> else d')"

definition crl_served :: "daemon \<Rightarrow> bytes option" where
  "crl_served d = (if dn_live d then dn_crl_file d else None)"

section \<open>The operator's calls\<close>

definition issued_of :: "leaf \<Rightarrow> issued_certificate" where
  "issued_of l =
     \<lparr> it_serial = l_serial l, it_common_name = l_common_name l, it_sans = l_sans l, it_not_before = rfc_3339 (l_not_before l),
       it_not_after = rfc_3339 (l_not_after l), it_issuer_serial = l_issuer_serial l,
       it_revoked_at = map_option rfc_3339 (l_revoked_at l), it_revocation_reason = l_reason l,
       it_changed = word_of_int (l_changed l) \<rparr>"

definition stored_inside :: "'a stored \<Rightarrow> error_body + 'a" where
  "stored_inside r = inside (map_sum store_error_str id r)"

definition daemon_issued :: "daemon_env \<Rightarrow> enrolled \<Rightarrow> 64 word \<Rightarrow> issued_page daemon_call" where
  "daemon_issued env e after d =
     (if uint after > i64_max then Inl (daemon_bad_request ''out of range integral type conversion attempted'')
      else sbind (stored_inside (changed_after (de_store env) (uint after) (ed_issuers e) (dc_issued_page (de_config env)) (sv_db (dn_server d))))
             (\<lambda>found. let certificates = map issued_of (cg_certificates found)
               in Inr \<lparr> ip_certificates = certificates,
                    ip_next = (if certificates = [] then after else it_changed (last certificates)), ip_more = cg_more found \<rparr>), d)"

definition refuse_if_revoked :: "enrolled \<Rightarrow> error_body + unit" where
  "refuse_if_revoked e =
     (if ed_revoked e then Inl \<lparr> eb_kind = Revoked_Kind, eb_message = ''the broker'' @ [CHR 0x27] @ ''s subordinate is revoked'' \<rparr>
      else Inr ())"

definition revoke_leaf :: "daemon_env \<Rightarrow> enrolled \<Rightarrow> string \<Rightarrow> nat \<Rightarrow> issued_certificate daemon_call" where
  "revoke_leaf env e serial reason =
     dbind (dlift (refuse_if_revoked e)) (\<lambda>_.
     if reason \<notin> set revocation_reasons
     then dlift (Inl (daemon_bad_request (nat_to_string reason @ '' is not a revocation reason'')))
     else
       dbind (\<lambda>d. (stored_inside (certificate_by_serial (de_store env) serial (sv_db (dn_server d))), d)) (\<lambda>row.
         case (case row of Some l \<Rightarrow> if (case ed_issuers e of None \<Rightarrow> True | Some issuers \<Rightarrow> l_issuer_serial l \<in> set issuers) then Some l else None
               | None \<Rightarrow> None) of
           None \<Rightarrow> dlift (Inl \<lparr> eb_kind = Not_Found_Kind, eb_message = ''no certificate '' @ serial @ '' of this broker'' @ [CHR 0x27] @ ''s subordinate'' \<rparr>)
         | Some l \<Rightarrow>
             if l_revoked_at l \<noteq> None then dret (issued_of l)
             else (\<lambda>d. case store_revoke (de_store env) serial (if reason = 0 then None else Some reason) (sv_db (dn_server d)) of
                    Inl (Already_Revoked _) \<Rightarrow>
                      (sbind (stored_inside (certificate_by_serial (de_store env) serial (sv_db (dn_server d)))) (\<lambda>current.
                         case current of Some l \<Rightarrow> Inr (issued_of l) | None \<Rightarrow> Inl (daemon_internal ''the certificate went'')), d)
                  | Inl err \<Rightarrow> (Inl (daemon_internal (store_error_str err)), d)
                  | Inr (revoked, db) \<Rightarrow>
                      (case refresh_crl env True (d\<lparr> dn_server := (dn_server d)\<lparr> sv_db := db \<rparr> \<rparr>) of
                         (Inr _, d') \<Rightarrow> (Inr (issued_of revoked), d')
                       | (Inl err, d') \<Rightarrow> (Inr (issued_of revoked), d'\<lparr> dn_server := (dn_server d')\<lparr> sv_stale := True \<rparr> \<rparr>)))))"

definition answer_csr :: "daemon_env \<Rightarrow> enrolled \<Rightarrow> fresh_csr daemon_call" where
  "answer_csr env e =
     dbind (dlift (refuse_if_revoked e)) (\<lambda>_.
     dbind (dlift (inside (de_fresh_csr env))) (\<lambda>pem.
       dret \<lparr> fc_csr_pem = pem, fc_configured_domains = dc_domains (de_config env) \<rparr>))"

text \<open>The enrolment from disk, so that a reopen the daemon has yet to reload is not undone.\<close>

definition enrolled_on_disk :: "daemon_env \<Rightarrow> enrolled daemon_call" where
  "enrolled_on_disk env d =
     (case load_mode env d of
        Inl e \<Rightarrow> Inl (daemon_internal e) | Inr Enrolling \<Rightarrow> Inl (daemon_internal ''not enrolled'') | Inr (Enrolled e) \<Rightarrow> Inr e, d)"

definition store_enrolled :: "daemon_env \<Rightarrow> enrolled \<Rightarrow> unit daemon_call" where
  "store_enrolled env e =
     dbind (dlift (inside (de_write env))) (\<lambda>_.
       dset (\<lambda>d. d\<lparr> dn_file := Some (de_write_enrolled env e), dn_mode := Enrolled e \<rparr>))"

definition root_of :: "daemon_env \<Rightarrow> string \<Rightarrow> string + bytes" where
  "root_of env chain_text =
     sbind (il_chain (de_issue env) chain_text) (\<lambda>chain. if chain = [] then Inl ''the stored chain is empty'' else Inr (last chain))"

definition store_chain :: "daemon_env \<Rightarrow> chain_update \<Rightarrow> api_status daemon_call" where
  "store_chain env update =
     dbind (enrolled_on_disk env) (\<lambda>current.
     dbind (dlift (refuse_if_revoked current)) (\<lambda>_.
     dbind (\<lambda>d. (check_chain env d (cu_chain_pem update), d)) (\<lambda>(subordinate, root).
     dbind (dlift (inside (root_of env (ed_chain_pem current)))) (\<lambda>enrolled_root.
     if root \<noteq> enrolled_root
     then dlift (Inl (daemon_bad_request ''the chain ends in another root than the one enrolled''))
     else
       dbind (dlift (check_config env (cu_config update) subordinate)) (\<lambda>_.
       let renewed = current\<lparr> ed_chain_pem := cu_chain_pem update, ed_config := cu_config update,
             ed_issuers := map_option (\<lambda>serials. serials @ [decimal (vw_serial subordinate)]) (ed_issuers current) \<rparr>
       in dbind (store_enrolled env renewed) (\<lambda>_.
          dbind (refreshed env) (\<lambda>_. dget (status_from env subordinate renewed))))))))"

definition store_revocation :: "daemon_env \<Rightarrow> api_status daemon_call" where
  "store_revocation env =
     dbind (enrolled_on_disk env) (\<lambda>current.
     if ed_revoked current then daemon_status env current
     else
       let revoked = current\<lparr> ed_revoked := True \<rparr>
       in dbind (store_enrolled env revoked) (\<lambda>_. dbind (refreshed env) (\<lambda>_. daemon_status env revoked)))"

definition store_pause :: "daemon_env \<Rightarrow> bool \<Rightarrow> api_status daemon_call" where
  "store_pause env paused =
     dbind (enrolled_on_disk env) (\<lambda>current.
     dbind (dlift (refuse_if_revoked current)) (\<lambda>_.
     if ed_paused current = paused then daemon_status env current
     else
       let paused_now = current\<lparr> ed_paused := paused \<rparr>
       in dbind (store_enrolled env paused_now) (\<lambda>_. dbind (refreshed env) (\<lambda>_. daemon_status env paused_now))))"

section \<open>Reloading\<close>

text \<open>What a connection must present under a mode: nothing while enrolling, else the root and the operator's pin.\<close>

definition client_wanted :: "daemon_env \<Rightarrow> mode \<Rightarrow> string + (bytes \<times> string) option" where
  "client_wanted env m =
     (case m of
        Enrolling \<Rightarrow> Inr None
      | Enrolled e \<Rightarrow>
          sbind (root_of env (ed_chain_pem e)) (\<lambda>root.
          sbind (de_operator_tls env root (ed_operator_pin e)) (\<lambda>_. Inr (Some (root, ed_operator_pin e)))))"

text \<open>The subordinate's key and request as they are read, or made, on disk.\<close>

definition reload_locked :: "daemon_env \<Rightarrow> string + bytes \<times> string \<Rightarrow> daemon \<Rightarrow> (string + unit) \<times> daemon" where
  "reload_locked env subordinate d =
     (case sbind subordinate (\<lambda>s. sbind (load_mode env d) (\<lambda>m. sbind (client_wanted env m) (\<lambda>client. Inr (s, m, client)))) of
        Inl e \<Rightarrow> (Inl e, d)
      | Inr ((spki, request), m, client) \<Rightarrow>
          (let d = snd (refresh_acme env (d\<lparr> dn_client := client, dn_spki := spki, dn_csr_pem := request, dn_mode := m \<rparr>))
           in (Inr (), d\<lparr> dn_server := (dn_server d)\<lparr> sv_stale := True \<rparr> \<rparr>)))"

section \<open>Routes\<close>

text \<open>The first value of a name in a query, taken as it is.\<close>

definition query_param :: "string option \<Rightarrow> string \<Rightarrow> string option" where
  "query_param q name =
     Option.bind q (\<lambda>q. case List.map_filter (\<lambda>pair. Option.bind (strip_prefix name pair) (strip_prefix ''='')) (split_char CHR ''&'' q) of
       [] \<Rightarrow> None | v # _ \<Rightarrow> Some v)"

definition after_param :: "(string \<Rightarrow> string) \<Rightarrow> string option \<Rightarrow> error_body + 64 word" where
  "after_param why q =
     (case query_param q ''after'' of
        None \<Rightarrow> Inr 0
      | Some cursor \<Rightarrow>
          (case parse_u64 cursor of
             Some n \<Rightarrow> Inr (of_nat n)
           | None \<Rightarrow> Inl (daemon_bad_request (''after='' @ cursor @ '': '' @ why cursor))))"

datatype api_call = Get_Offer | Post_Enrol string | Get_Status | Post_Csr | Put_Chain string | Post_Revoke | Post_Pause | Post_Resume
  | Get_Issued "string option" | Post_Revoke_Issued string string

datatype api_reply = No_Route | Refused_Reply error_body | Offer_Reply enrolment_offer | Status_Reply api_status
  | Csr_Reply fresh_csr | Page_Reply issued_page | Issued_Reply issued_certificate

definition reply :: "('a \<Rightarrow> api_reply) \<Rightarrow> 'a daemon_call \<Rightarrow> daemon \<Rightarrow> api_reply \<times> daemon" where
  "reply f m d = (case m d of (Inl e, d') \<Rightarrow> (Refused_Reply e, d') | (Inr x, d') \<Rightarrow> (f x, d'))"

definition reply_status :: "api_reply \<Rightarrow> nat" where
  "reply_status r = (case r of No_Route \<Rightarrow> 404 | Refused_Reply e \<Rightarrow> http_status (eb_kind e) | _ \<Rightarrow> 200)"

text \<open>The enrolment, when the connection presented the operator's key; \<open>None\<close> presented nothing readable.\<close>

definition admits :: "string option \<Rightarrow> daemon \<Rightarrow> enrolled option" where
  "admits peer d =
     (case dn_mode d of Enrolling \<Rightarrow> None | Enrolled e \<Rightarrow> if peer = Some (ed_operator_pin e) then Some e else None)"

definition as_operator :: "string option \<Rightarrow> (enrolled \<Rightarrow> daemon \<Rightarrow> api_reply \<times> daemon) \<Rightarrow> daemon \<Rightarrow> api_reply \<times> daemon" where
  "as_operator peer f d = (case admits peer d of None \<Rightarrow> (No_Route, d) | Some e \<Rightarrow> f e d)"

fun serve_api :: "daemon_env \<Rightarrow> (string \<Rightarrow> string) \<Rightarrow> string option \<Rightarrow> api_call \<Rightarrow> daemon \<Rightarrow> api_reply \<times> daemon" where
  "serve_api env why peer Get_Offer d = ((case offer env d of None \<Rightarrow> No_Route | Some o' \<Rightarrow> Offer_Reply o'), d)"
| "serve_api env why peer (Post_Enrol body) d =
     (if dn_mode d \<noteq> Enrolling then (No_Route, d)
      else reply Status_Reply (dbind (dlift (badly (de_read_enrolment env body))) (\<lambda>e. counted (enrol env e))) d)"
| "serve_api env why peer Get_Status d = as_operator peer (\<lambda>e. reply Status_Reply (counted (daemon_status env e))) d"
| "serve_api env why peer Post_Csr d = as_operator peer (\<lambda>e. reply Csr_Reply (answer_csr env e)) d"
| "serve_api env why peer (Put_Chain body) d =
     as_operator peer (\<lambda>e. reply Status_Reply
       (dbind (dlift (badly (de_read_chain env body))) (\<lambda>u. counted (locked env (store_chain env u))))) d"
| "serve_api env why peer Post_Revoke d = as_operator peer (\<lambda>e. reply Status_Reply (counted (locked env (store_revocation env)))) d"
| "serve_api env why peer Post_Pause d = as_operator peer (\<lambda>e. reply Status_Reply (counted (locked env (store_pause env True)))) d"
| "serve_api env why peer Post_Resume d = as_operator peer (\<lambda>e. reply Status_Reply (counted (locked env (store_pause env False)))) d"
| "serve_api env why peer (Get_Issued q) d =
     as_operator peer (\<lambda>e. reply Page_Reply (dbind (dlift (after_param why q)) (\<lambda>after. daemon_issued env e after))) d"
| "serve_api env why peer (Post_Revoke_Issued serial body) d =
     as_operator peer (\<lambda>e. reply Issued_Reply (dbind (dlift (badly (de_read_revocation env body))) (\<lambda>r. revoke_leaf env e serial r))) d"

end
