(* ===== verification/Broker_Sync.thy ===== *)
theory Broker_Sync
  imports Broker_Guarantees Broker_Daemon
begin

text \<open>
  opCA and a broker together: opCA's copy of what the broker issued. The client's loop over pages is
  followed against the broker's handler, whose database goes on changing between two calls, and the copy
  is shown to miss neither a certificate nor a revocation.
\<close>

section \<open>Pages of a changing database\<close>

lemma acme_steps_trans: "acme_steps b c \<Longrightarrow> acme_steps a b \<Longrightarrow> acme_steps a c"
  by (induction rule: acme_steps.induct) (auto intro: acme_steps.intros)

lemma smap_all_each: "smap_all f xs = Inr ys \<longleftrightarrow> list_all2 (\<lambda>x y. f x = Inr y) xs ys"
  by (induction xs arbitrary: ys) (auto simp: sbind_Inr_iff list_all2_Cons1)

text \<open>The broker's databases, one after another, as transactions commit and copies are restored.\<close>

definition history :: "(nat \<Rightarrow> acme_db) \<Rightarrow> bool" where
  "history db \<longleftrightarrow> acme_reached (db 0) \<and> (\<forall>n. acme_steps (db n) (db (Suc n))) \<and> (\<forall>n. last_change (db n) \<le> i64_max)"

lemma history_steps: "history db \<Longrightarrow> m \<le> n \<Longrightarrow> acme_steps (db m) (db n)"
proof (induction "n - m" arbitrary: n)
  case 0
  then show ?case by (simp add: Steps_None)
next
  case (Suc k)
  then obtain n' where n: "n = Suc n'" "m \<le> n'" "k = n' - m" by (cases n) auto
  have "acme_steps (db n') (db n)" using Suc.prems(1) by (simp add: history_def n(1))
  moreover have "acme_steps (db m) (db n')" using Suc.hyps(1) [OF n(3) Suc.prems(1) n(2)] .
  ultimately show ?case by (rule acme_steps_trans)
qed

lemma history_reached: "history db \<Longrightarrow> acme_reached (db n)"
  using history_steps [of db 0 n] acme_reached_acme_steps by (auto simp: history_def)

lemma history_small: "history db \<Longrightarrow> last_change (db n) \<le> i64_max"
  by (simp add: history_def)

text \<open>A row of a later database with an old change number was there all along.\<close>

lemma history_old_row:
  assumes "history db" "m \<le> n" "l \<in> set (d_leaves (db n))" "lf_changed l \<le> last_change (db m)"
  shows "l \<in> set (d_leaves (db m))"
  using steps_changes [OF history_steps [OF assms(1,2)] history_reached [OF assms(1)] assms(3)] assms(4) by fastforce

lemma history_last_change: "history db \<Longrightarrow> m \<le> n \<Longrightarrow> last_change (db m) \<le> last_change (db n)"
  using steps_last_change [of "db m" "db n"] history_steps history_reached by blast

definition served_page :: "64 word \<Rightarrow> changes \<Rightarrow> issued_page" where
  "served_page after fresh =
     (let certificates = map issued_of (cg_certificates fresh)
      in \<lparr> ip_certificates = certificates, ip_next = (if certificates = [] then after else it_changed (last certificates)),
           ip_more = cg_more fresh \<rparr>)"

text \<open>Which rows a page holds.\<close>

lemma change_of_leaf: "leaf_of_row lib l = Inr x \<Longrightarrow> it_changed (issued_of x) = word_of_int (lf_changed l) \<and> it_serial (issued_of x) = lf_serial l"
  by (auto simp: leaf_of_row_def sbind_Inr_iff issued_of_def)

lemma small_change: "0 \<le> c \<Longrightarrow> c \<le> i64_max \<Longrightarrow> uint (word_of_int c :: 64 word) = c"
  by (simp add: i64_max_def uint_word_of_int_eq take_bit_int_eq_self)

lemma page_rows:
  assumes ok: "leaves_ok db" and small: "last_change db \<le> i64_max" and room: "0 < limit"
    and fresh: "changed_after lib (uint after) issuers limit db = Inr fresh"
  defines "page \<equiv> served_page after fresh"
  shows "c \<in> set (ip_certificates page) \<Longrightarrow> \<exists>l \<in> set (d_leaves db). \<exists>x. leaf_of_row lib l = Inr x \<and> c = issued_of x
      \<and> uint after < lf_changed l \<and> issued_by issuers l \<and> lf_changed l \<le> uint (ip_next page)"
    and "l \<in> set (d_leaves db) \<Longrightarrow> issued_by issuers l \<Longrightarrow> uint after < lf_changed l \<Longrightarrow> ip_more page \<Longrightarrow> lf_changed l \<le> uint (ip_next page)
      \<Longrightarrow> \<exists>x. leaf_of_row lib l = Inr x \<and> issued_of x \<in> set (ip_certificates page)"
    and "l \<in> set (d_leaves db) \<Longrightarrow> issued_by issuers l \<Longrightarrow> uint after < lf_changed l \<Longrightarrow> \<not> ip_more page \<or> ip_next page \<le> after
      \<Longrightarrow> \<exists>x. leaf_of_row lib l = Inr x \<and> issued_of x \<in> set (ip_certificates page)"
    and "sorted_wrt (\<lambda>c d. uint (it_changed c) < uint (it_changed d)) (ip_certificates page)"
    and "after \<le> ip_next page" "uint (ip_next page) \<le> max (uint after) (last_change db)"
proof -
  define rows where "rows = sort_key lf_changed (filter (\<lambda>r. lf_changed r > uint after \<and> issued_by issuers r) (d_leaves db))"
  obtain ls where ls: "list_all2 (\<lambda>l x. leaf_of_row lib l = Inr x) (take (limit + 1) rows) ls"
    and f: "cg_certificates fresh = take limit ls" "cg_more fresh = (length ls > limit)"
    using fresh by (auto simp: changed_after_def page_of_def sbind_Inr_iff smap_all_each simp flip: rows_def)
  have lens: "length ls = min (length rows) (limit + 1)" using list_all2_lengthD [OF ls] by simp
  have page: "ip_certificates page = map issued_of (take limit ls)" "ip_more page \<longleftrightarrow> limit < length rows"
    "ip_next page = (if take limit ls = [] then after else it_changed (issued_of (last (take limit ls))))"
    using f lens by (auto simp: page_def served_page_def Let_def last_map)
  have nth: "leaf_of_row lib (rows ! i) = Inr (ls ! i)" if "i < length (take limit ls)" for i
    using list_all2_nthD [OF ls, of i] that lens by simp
  have rows_set: "set rows = {l \<in> set (d_leaves db). uint after < lf_changed l \<and> issued_by issuers l}" by (auto simp: rows_def)
  have "distinct (map lf_changed (filter P (d_leaves db)))" for P
    using ok by (auto simp: leaves_ok_def tbl_keyed_def distinct_map inj_on_def)
  moreover have "mset (map lf_changed rows) = mset (map lf_changed (filter (\<lambda>r. lf_changed r > uint after \<and> issued_by issuers r) (d_leaves db)))"
    by (simp add: rows_def)
  ultimately have "distinct (map lf_changed rows)" using mset_eq_imp_distinct_iff by blast
  then have strict: "sorted_wrt (<) (map lf_changed rows)" by (simp add: rows_def strict_sorted_iff)
  then have less: "i < j \<Longrightarrow> j < length rows \<Longrightarrow> lf_changed (rows ! i) < lf_changed (rows ! j)" for i j
    by (auto simp: sorted_wrt_iff_nth_less)
  have change: "uint (it_changed (issued_of (ls ! i))) = lf_changed (rows ! i)" "lf_changed (rows ! i) \<le> last_change db"
    if "i < length (take limit ls)" for i
  proof -
    have mem: "rows ! i \<in> set (d_leaves db)" using that lens rows_set nth_mem [of i rows] by auto
    then show le: "lf_changed (rows ! i) \<le> last_change db" by (rule last_change_le)
    have "0 \<le> lf_changed (rows ! i)" using ok mem by (auto simp: leaves_ok_def less_imp_le)
    then show "uint (it_changed (issued_of (ls ! i))) = lf_changed (rows ! i)"
      using change_of_leaf [OF nth [OF that]] small_change le small by simp
  qed
  let ?k = "length (take limit ls)"
  have next_page: "uint (ip_next page) = (if ?k = 0 then uint after else lf_changed (rows ! (?k - 1)))"
  proof (cases "take limit ls = []")
    case False
    have "?k \<le> limit" by simp
    then have "?k - 1 < limit" using room by linarith
    then have "take limit ls ! (?k - 1) = ls ! (?k - 1)" by (rule nth_take)
    then have "last (take limit ls) = ls ! (?k - 1)" using last_conv_nth [OF False] by metis
    moreover have "?k \<noteq> 0" using False by simp
    moreover from this have "?k - 1 < ?k" by linarith
    ultimately show ?thesis using change(1) [of "?k - 1"] False page(3) by metis
  qed (auto simp: page(3))
  have first_row: "uint after < lf_changed (rows ! (?k - 1))" if "0 < ?k"
  proof -
    have "?k \<le> length rows" using lens by simp
    then have "?k - 1 < length rows" using that by linarith
    then show ?thesis using nth_mem rows_set by blast
  qed
  show "\<exists>l \<in> set (d_leaves db). \<exists>x. leaf_of_row lib l = Inr x \<and> c = issued_of x
      \<and> uint after < lf_changed l \<and> issued_by issuers l \<and> lf_changed l \<le> uint (ip_next page)"
    if c: "c \<in> set (ip_certificates page)"
  proof -
    obtain i where i: "i < ?k" "c = issued_of (ls ! i)" using c by (auto simp: page(1) in_set_conv_nth)
    have "lf_changed (rows ! i) \<le> lf_changed (rows ! (?k - 1))"
    proof (cases "i = ?k - 1")
      case False
      moreover have "?k \<le> length rows" using lens by simp
      ultimately have "i < ?k - 1" "?k - 1 < length rows" using i(1) by linarith+
      then show ?thesis using less less_imp_le by blast
    qed simp
    moreover have "rows ! i \<in> set rows" using i(1) lens by simp
    ultimately show ?thesis using i nth [OF i(1)] rows_set next_page by (intro bexI [of _ "rows ! i"]) auto
  qed
  have inside: "\<exists>x. leaf_of_row lib l = Inr x \<and> issued_of x \<in> set (ip_certificates page)"
    if "l \<in> set (d_leaves db)" "issued_by issuers l" "uint after < lf_changed l" "\<And>j. j < length rows \<Longrightarrow> rows ! j = l \<Longrightarrow> j < ?k"
  proof -
    have "l \<in> set rows" using that rows_set by simp
    then obtain j where j: "j < length rows" "rows ! j = l" by (auto simp: in_set_conv_nth)
    then have k: "j < ?k" using that(4) by blast
    then have "ls ! j \<in> set (take limit ls)" using nth_mem [OF k] by simp
    then have "issued_of (ls ! j) \<in> set (ip_certificates page)" unfolding page(1) by simp
    then show ?thesis using nth [OF k] j(2) by auto
  qed
  show "\<exists>x. leaf_of_row lib l = Inr x \<and> issued_of x \<in> set (ip_certificates page)"
    if "l \<in> set (d_leaves db)" "issued_by issuers l" "uint after < lf_changed l" "ip_more page" "lf_changed l \<le> uint (ip_next page)"
  proof (rule inside [OF that(1-3)])
    fix j assume j: "j < length rows" "rows ! j = l"
    show "j < ?k"
    proof (rule ccontr)
      assume "\<not> j < ?k"
      moreover have "0 < ?k" using that(4) room lens page(2) by simp
      ultimately have "?k - 1 < j" by linarith
      from less [OF this j(1)] show False using that(5) next_page j(2) \<open>0 < ?k\<close> by (simp only: if_False not_less split: if_splits)
    qed
  qed
  show "\<exists>x. leaf_of_row lib l = Inr x \<and> issued_of x \<in> set (ip_certificates page)"
    if "l \<in> set (d_leaves db)" "issued_by issuers l" "uint after < lf_changed l" "\<not> ip_more page \<or> ip_next page \<le> after"
  proof (rule inside [OF that(1-3)])
    fix j assume j: "j < length rows" "rows ! j = l"
    have "\<not> ip_more page"
    proof (cases "0 < ?k")
      case True
      then have "uint after < uint (ip_next page)" using next_page first_row by simp
      then show ?thesis using that(4) by (simp add: word_le_def)
    next
      case False
      then show ?thesis using room lens page(2) by auto
    qed
    then show "j < ?k" using j(1) lens page(2) by simp
  qed
  show "sorted_wrt (\<lambda>c d. uint (it_changed c) < uint (it_changed d)) (ip_certificates page)"
    unfolding page(1) sorted_wrt_map sorted_wrt_iff_nth_less
    using change(1) less lens by auto
  have last_row: "uint (ip_next page) = uint after \<or> uint after < uint (ip_next page) \<and> uint (ip_next page) \<le> last_change db"
  proof (cases "0 < ?k")
    case True
    then have "?k - 1 < ?k" by linarith
    then show ?thesis using next_page first_row [OF True] change(2) [of "?k - 1"] True by (simp only: if_False not_less) simp
  next
    case False
    then show ?thesis using next_page by (simp only: if_True simp_thms not_less le_zero_eq)
  qed
  then show "after \<le> ip_next page" by (auto simp: word_le_def)
  show "uint (ip_next page) \<le> max (uint after) (last_change db)" using last_row by linarith
qed

end
