(* ===== verification/Broker_Pages.thy ===== *)
theory Broker_Pages
  imports Broker_Sync
begin

text \<open>
  The client's loop over pages against a broker whose database changes between two calls: what all pages
  together hold. A page is answered from one moment's database; a certificate that changes while pages are
  fetched turns up on a later page.
\<close>

section \<open>All pages\<close>

text \<open>A certificate as the broker reports it, of a row of one of its databases.\<close>

definition reports :: "acme_lib \<Rightarrow> string list option \<Rightarrow> acme_db \<Rightarrow> leaf_row \<Rightarrow> issued_certificate \<Rightarrow> bool" where
  "reports lib issuers db l c \<longleftrightarrow>
     l \<in> set (d_leaves db) \<and> issued_by issuers l \<and> (\<exists>x. leaf_of_row lib l = Inr x \<and> c = issued_of x)"

lemma reports_change:
  assumes "history db" "reports lib issuers (db n) l c"
  shows "uint (it_changed c) = lf_changed l" "it_serial c = lf_serial l" "lf_changed l \<le> last_change (db n)"
proof -
  have l: "l \<in> set (d_leaves (db n))" using assms(2) by (simp add: reports_def)
  then show le: "lf_changed l \<le> last_change (db n)" by (rule last_change_le)
  have "0 \<le> lf_changed l"
    using acme_reached_leaves [OF history_reached [OF assms(1)]] l by (auto simp: leaves_ok_def less_imp_le)
  then show "uint (it_changed c) = lf_changed l" "it_serial c = lf_serial l"
    using assms change_of_leaf small_change le history_small [OF assms(1), of n] by (auto simp: reports_def)
qed

text \<open>Pages answered at some moment between the call and its answer.\<close>

definition answers_pages ::
  "acme_lib \<Rightarrow> string list option \<Rightarrow> nat \<Rightarrow> (nat \<Rightarrow> acme_db) \<Rightarrow> ('v \<Rightarrow> nat)
     \<Rightarrow> (64 word \<Rightarrow> 'v \<Rightarrow> (broker_error + issued_page) \<times> 'v) \<Rightarrow> bool" where
  "answers_pages lib issuers limit db moment page_at \<longleftrightarrow>
     (\<forall>after v page v'. page_at after v = (Inr page, v') \<longrightarrow>
        (\<exists>n fresh. moment v \<le> n \<and> n \<le> moment v' \<and> changed_after lib (uint after) issuers limit (db n) = Inr fresh
           \<and> page = served_page after fresh))"

lemma pages_from_Inr:
  "pages_from page_at after acc v = Some (Inr certs, v') \<longleftrightarrow>
     (\<exists>page w. page_at after v = (Inr page, w)
        \<and> (if \<not> ip_more page \<or> ip_next page \<le> after then certs = acc @ ip_certificates page \<and> v' = w
           else pages_from page_at (ip_next page) (acc @ ip_certificates page) w = Some (Inr certs, v')))"
  by (subst pages_from.simps) (auto simp: Let_def split: prod.splits sum.splits)

text \<open>What all pages together hold, when the last was answered from the database of moment \<open>n\<close>.\<close>

definition fetched_all ::
  "acme_lib \<Rightarrow> string list option \<Rightarrow> (nat \<Rightarrow> acme_db) \<Rightarrow> int \<Rightarrow> nat \<Rightarrow> nat \<Rightarrow> issued_certificate list \<Rightarrow> bool" where
  "fetched_all lib issuers db after m n fetched \<longleftrightarrow>
     (\<forall>l \<in> set (d_leaves (db n)). issued_by issuers l \<longrightarrow> after < lf_changed l \<longrightarrow> (\<exists>c \<in> set fetched. reports lib issuers (db n) l c))
     \<and> (\<forall>c \<in> set fetched. after < uint (it_changed c) \<and> (\<exists>k l. m \<le> k \<and> k \<le> n \<and> reports lib issuers (db k) l c))
     \<and> sorted_wrt (\<lambda>c d. uint (it_changed c) < uint (it_changed d)) fetched"

lemma fetched_page:
  assumes "history db" "0 < limit" "changed_after lib (uint after) issuers limit (db n) = Inr fresh"
  defines "page \<equiv> served_page after fresh"
  shows "\<not> ip_more page \<or> ip_next page \<le> after \<Longrightarrow> fetched_all lib issuers db (uint after) n n (ip_certificates page)"
    and "c \<in> set (ip_certificates page) \<Longrightarrow> uint after < uint (it_changed c) \<and> uint (it_changed c) \<le> uint (ip_next page)
       \<and> (\<exists>l. reports lib issuers (db n) l c)"
    and "l \<in> set (d_leaves (db n)) \<Longrightarrow> issued_by issuers l \<Longrightarrow> uint after < lf_changed l \<Longrightarrow> ip_more page \<Longrightarrow> lf_changed l \<le> uint (ip_next page)
      \<Longrightarrow> \<exists>c \<in> set (ip_certificates page). reports lib issuers (db n) l c"
    and "sorted_wrt (\<lambda>c d. uint (it_changed c) < uint (it_changed d)) (ip_certificates page)"
    and "\<not> ip_next page \<le> after \<Longrightarrow> uint (ip_next page) \<le> last_change (db n)"
proof -
  note rows = page_rows [OF acme_reached_leaves [OF history_reached [OF assms(1)]] history_small [OF assms(1)] assms(2,3), folded page_def]
  show inside: "uint after < uint (it_changed c) \<and> uint (it_changed c) \<le> uint (ip_next page) \<and> (\<exists>l. reports lib issuers (db n) l c)"
    if c: "c \<in> set (ip_certificates page)" for c
  proof -
    obtain l x where l: "l \<in> set (d_leaves (db n))" "leaf_of_row lib l = Inr x" "c = issued_of x" "uint after < lf_changed l"
      "issued_by issuers l" "lf_changed l \<le> uint (ip_next page)"
      using rows(1) [OF c] by auto
    then have r: "reports lib issuers (db n) l c" by (auto simp: reports_def)
    have "uint (it_changed c) = lf_changed l" using reports_change(1) [OF assms(1) r] .
    then show ?thesis using l(4,6) r by auto
  qed
  show "\<exists>c \<in> set (ip_certificates page). reports lib issuers (db n) l c"
    if "l \<in> set (d_leaves (db n))" "issued_by issuers l" "uint after < lf_changed l" "ip_more page" "lf_changed l \<le> uint (ip_next page)" for l
    using rows(2) [OF that] that(1,2) by (auto simp: reports_def)
  show sorted: "sorted_wrt (\<lambda>c d. uint (it_changed c) < uint (it_changed d)) (ip_certificates page)" by (rule rows(4))
  show "fetched_all lib issuers db (uint after) n n (ip_certificates page)" if last: "\<not> ip_more page \<or> ip_next page \<le> after"
    unfolding fetched_all_def
  proof (intro conjI ballI impI)
    fix l assume "l \<in> set (d_leaves (db n))" "issued_by issuers l" "uint after < lf_changed l"
    then show "\<exists>c \<in> set (ip_certificates page). reports lib issuers (db n) l c"
      using rows(3) [OF _ _ _ last, of l] by (auto simp: reports_def)
  qed (use inside sorted in auto)
  show "uint (ip_next page) \<le> last_change (db n)" if "\<not> ip_next page \<le> after"
    using rows(6) that by (auto simp: word_le_def)
qed

lemma fetched_more:
  assumes "history db" "0 < limit" "changed_after lib (uint after) issuers limit (db k) = Inr fresh"
    and page: "page = served_page after fresh" and more: "ip_more page" "\<not> ip_next page \<le> after"
    and rest: "fetched_all lib issuers db (uint (ip_next page)) m n fetched" and moments: "k \<le> m" "m \<le> n"
  shows "fetched_all lib issuers db (uint after) k n (ip_certificates page @ fetched)"
proof -
  note here = fetched_page [OF assms(1-3), folded page]
  have further: "uint after < uint (ip_next page)" using more(2) by (simp add: word_le_def)
  have kn: "k \<le> n" using moments by simp
  have later: "uint (ip_next page) < uint (it_changed c) \<and> (\<exists>j l. m \<le> j \<and> j \<le> n \<and> reports lib issuers (db j) l c)"
    if "c \<in> set fetched" for c
    using rest that by (simp add: fetched_all_def)
  show ?thesis
    unfolding fetched_all_def
  proof (intro conjI ballI impI)
    fix l assume l: "l \<in> set (d_leaves (db n))" "issued_by issuers l" "uint after < lf_changed l"
    show "\<exists>c \<in> set (ip_certificates page @ fetched). reports lib issuers (db n) l c"
    proof (cases "lf_changed l \<le> uint (ip_next page)")
      case True
      then have "l \<in> set (d_leaves (db k))"
        using history_old_row [OF assms(1) kn l(1)] here(5) [OF more(2)] by simp
      from here(3) [OF this l(2,3) more(1) True] show ?thesis using l(1) by (auto simp: reports_def)
    next
      case False
      then obtain c where "c \<in> set fetched" "reports lib issuers (db n) l c"
        using rest l(1,2) by (auto simp: fetched_all_def)
      then show ?thesis by auto
    qed
  next
    fix c assume "c \<in> set (ip_certificates page @ fetched)"
    then consider "c \<in> set (ip_certificates page)" | "c \<in> set fetched" by auto
    then have "uint after < uint (it_changed c) \<and> (\<exists>j l. k \<le> j \<and> j \<le> n \<and> reports lib issuers (db j) l c)"
    proof cases
      case 1
      from here(2) [OF this] kn show ?thesis by blast
    next
      case 2
      from later [OF this] further moments(1) show ?thesis by (meson le_trans less_trans)
    qed
    then show "uint after < uint (it_changed c)" "\<exists>j l. k \<le> j \<and> j \<le> n \<and> reports lib issuers (db j) l c" by simp_all
  next
    have "uint (it_changed c) < uint (it_changed d)" if "c \<in> set (ip_certificates page)" "d \<in> set fetched" for c d
      using here(2) [OF that(1)] later [OF that(2)] by linarith
    then show "sorted_wrt (\<lambda>c d. uint (it_changed c) < uint (it_changed d)) (ip_certificates page @ fetched)"
      using here(4) rest by (simp add: fetched_all_def sorted_wrt_append)
  qed
qed

lemma pages_complete:
  assumes "history db" "0 < limit" "answers_pages lib issuers limit db moment page_at"
  shows "pages_from page_at after acc v = Some (Inr certs, v') \<Longrightarrow>
    \<exists>fetched m n. certs = acc @ fetched \<and> moment v \<le> m \<and> m \<le> n \<and> n \<le> moment v' \<and> fetched_all lib issuers db (uint after) m n fetched"
proof (induction "2 ^ 64 - unat after" arbitrary: after acc v rule: less_induct)
  case less
  obtain page w where page: "page_at after v = (Inr page, w)"
    and go: "if \<not> ip_more page \<or> ip_next page \<le> after then certs = acc @ ip_certificates page \<and> v' = w
      else pages_from page_at (ip_next page) (acc @ ip_certificates page) w = Some (Inr certs, v')"
    using iffD1 [OF pages_from_Inr less(2)] by blast
  obtain k fresh where k: "moment v \<le> k" "k \<le> moment w" "changed_after lib (uint after) issuers limit (db k) = Inr fresh"
    "page = served_page after fresh"
    using assms(3) page unfolding answers_pages_def by blast
  show ?case
  proof (cases "\<not> ip_more page \<or> ip_next page \<le> after")
    case True
    then have "certs = acc @ ip_certificates page" "v' = w" using go by auto
    then show ?thesis using fetched_page(1) [OF assms(1,2) k(3)] True k by blast
  next
    case False
    then have "unat after < unat (ip_next page)" by (simp add: word_less_nat_alt not_le)
    moreover have "unat (ip_next page) < 2 ^ 64" using unsigned_less [of "ip_next page"] by simp
    ultimately have "2 ^ 64 - unat (ip_next page) < 2 ^ 64 - unat after" by linarith
    from less(1) [OF this] False go obtain fetched m n
      where r: "certs = (acc @ ip_certificates page) @ fetched" "moment w \<le> m" "m \<le> n" "n \<le> moment v'"
        "fetched_all lib issuers db (uint (ip_next page)) m n fetched" by metis
    have "fetched_all lib issuers db (uint after) k n (ip_certificates page @ fetched)"
      using fetched_more [OF assms(1,2) k(3,4) _ _ r(5)] False k(2) r(2,3) by simp
    then show ?thesis using r k(1,2) by (metis append_assoc le_trans)
  qed
qed

end
