(* ===== verification/Broker_Mirror.thy ===== *)
theory Broker_Mirror
  imports Broker_Pages
begin

text \<open>
  opCA's copy of what a broker issued: recording fetched certificates keeps, for every row of the broker up
  to the sync cursor, what the broker reports of it. The handlers of both ends are composed through a
  connection that carries requests and answers.
\<close>

section \<open>Recording\<close>

lemma record_rows_keep:
  assumes "q \<in> set rows" "\<And>c. c \<in> set certs \<Longrightarrow> broker_cert_key (broker_cert_to_row js c) \<noteq> broker_cert_key q"
  shows "q \<in> set (foldl (\<lambda>rows c. tbl_replace broker_cert_key (broker_cert_to_row js c) rows) rows certs)"
  using assms
proof (induction certs rule: rev_induct)
  case (snoc c certs)
  have "broker_cert_key q \<noteq> broker_cert_key (broker_cert_to_row js c)" using snoc.prems(2) [of c] by simp
  then show ?case using snoc by (simp add: tbl_replace_def tbl_delete_def)
qed simp

lemma record_keeps_row:
  "q \<in> set (t_broker_certs db) \<Longrightarrow> (\<And>c. c \<in> set certs \<Longrightarrow> (bc_broker_id c, bc_serial c) \<noteq> (cw_broker_id q, cw_serial q))
    \<Longrightarrow> q \<in> set (t_broker_certs (record_broker_certs js certs db))"
  unfolding record_broker_certs_def by (simp, rule record_rows_keep) (auto simp: broker_cert_key_def broker_cert_to_row_def)

lemma record_latest_row:
  assumes "\<And>c. c \<in> set later \<Longrightarrow> (bc_broker_id c, bc_serial c) \<noteq> (bc_broker_id b, bc_serial b)"
  shows "broker_cert_to_row js b \<in> set (t_broker_certs (record_broker_certs js (before @ b # later) db))"
proof -
  have "record_broker_certs js (before @ b # later) db = record_broker_certs js later (record_broker_certs js (before @ [b]) db)"
    by (simp add: record_broker_certs_def)
  moreover have "broker_cert_to_row js b \<in> set (t_broker_certs (record_broker_certs js (before @ [b]) db))"
    by (simp add: record_broker_certs_def tbl_replace_def)
  ultimately show ?thesis
    using record_keeps_row [of "broker_cert_to_row js b" "record_broker_certs js (before @ [b]) db" later js] assms
    by (auto simp: broker_cert_to_row_def)
qed

lemma record_keyed: "broker_certs_keyed db \<Longrightarrow> broker_certs_keyed (record_broker_certs js certs db)"
  unfolding broker_certs_keyed_def record_broker_certs_def
  by (induction certs rule: rev_induct) (auto intro: tbl_keyed_replace)

lemma list_all2_right: "list_all2 P xs ys \<Longrightarrow> y \<in> set ys \<Longrightarrow> \<exists>x \<in> set xs. P x y"
  by (induction rule: list_all2_induct) auto

lemma broker_cert_of_Ok:
  "broker_cert_of ch bl i c = Ok b \<Longrightarrow> bc_broker_id b = i \<and> bc_serial b = it_serial c \<and> bc_changed b = uint (it_changed c)"
  by (auto simp: broker_cert_of_def rbind_eq_Ok split: if_splits)

section \<open>The copy\<close>

text \<open>The row opCA keeps of a broker's row: what the broker reports of it, in opCA's form.\<close>

definition copied ::
  "('v, 'm) ca_env_scheme \<Rightarrow> 'v broker_lib \<Rightarrow> int \<Rightarrow> acme_lib \<Rightarrow> string list option \<Rightarrow> acme_db \<Rightarrow> leaf_row \<Rightarrow> ca_db \<Rightarrow> bool" where
  "copied env bl i lib issuers adb l db \<longleftrightarrow>
     (\<exists>c b. reports lib issuers adb l c \<and> broker_cert_of (e_chrono env) bl i c = Ok b
        \<and> broker_cert_to_row (e_json env) b \<in> set (t_broker_certs db))"

text \<open>opCA's copy holds every row of the broker up to the cursor, and one row of each serial.\<close>

definition mirrors ::
  "('v, 'm) ca_env_scheme \<Rightarrow> 'v broker_lib \<Rightarrow> int \<Rightarrow> acme_lib \<Rightarrow> string list option \<Rightarrow> acme_db \<Rightarrow> ca_db \<Rightarrow> bool" where
  "mirrors env bl i lib issuers adb db \<longleftrightarrow>
     broker_certs_keyed db \<and> 0 \<le> broker_cursor i db \<and> broker_cursor i db \<le> last_change adb
     \<and> (\<forall>l \<in> set (d_leaves adb). issued_by issuers l \<longrightarrow> lf_changed l \<le> broker_cursor i db \<longrightarrow> copied env bl i lib issuers adb l db)"

lemma reports_unique:
  assumes "reports lib issuers adb l c" "reports lib issuers adb' l c'"
  shows "c = c'"
  using assms by (auto simp: reports_def)

lemma same_serial:
  assumes "history db" "reports lib issuers (db n) l c" "reports lib issuers (db k) l' c'" "k \<le> n" "it_serial c = it_serial c'"
  shows "l = l' \<or> lf_changed l' < lf_changed l"
proof (rule ccontr)
  assume other: "\<not> (l = l' \<or> lf_changed l' < lf_changed l)"
  then have "lf_changed l \<le> last_change (db k)" using reports_change(3) [OF assms(1,3)] by simp
  then have "l \<in> set (d_leaves (db k))"
    using history_old_row [OF assms(1,4)] assms(2) by (simp add: reports_def)
  moreover have "l' \<in> set (d_leaves (db k))" "lf_serial l = lf_serial l'"
    using assms(3,5) reports_change(2) [OF assms(1,2)] reports_change(2) [OF assms(1,3)] by (auto simp: reports_def)
  ultimately have "l = l'"
    using acme_reached_leaves [OF history_reached [OF assms(1)], of k] by (auto simp: leaves_ok_def tbl_keyed_def dest: inj_onD distinct_map [THEN iffD1])
  then show False using other by simp
qed

lemma record_mirrors:
  assumes hist: "history db" and old: "mirrors env bl i lib issuers (db k) cadb" and moments: "k \<le> m" "m \<le> n"
    and fetched: "fetched_all lib issuers db (broker_cursor i cadb) m n certs"
    and given: "rmap_all (broker_cert_of (e_chrono env) bl i) certs = Ok bs"
  defines "new \<equiv> record_broker_certs (e_json env) bs cadb"
  shows "l \<in> set (d_leaves (db n)) \<Longrightarrow> issued_by issuers l \<Longrightarrow> copied env bl i lib issuers (db n) l new"
    and "mirrors env bl i lib issuers (db n) new"
proof -
  have each: "list_all2 (\<lambda>c b. broker_cert_of (e_chrono env) bl i c = Ok b) certs bs" using given by (simp add: rmap_all_eq_Ok)
  have source: "\<exists>c j l'. c \<in> set certs \<and> broker_cert_of (e_chrono env) bl i c = Ok b \<and> broker_cursor i cadb < uint (it_changed c)
      \<and> j \<le> n \<and> k \<le> j \<and> reports lib issuers (db j) l' c" if b: "b \<in> set bs" for b
  proof -
    obtain c where c: "c \<in> set certs" "broker_cert_of (e_chrono env) bl i c = Ok b"
      using list_all2_right [OF each b] by blast
    then obtain j l' where "m \<le> j" "j \<le> n" "reports lib issuers (db j) l' c" "broker_cursor i cadb < uint (it_changed c)"
      using fetched by (auto simp: fetched_all_def)
    then show ?thesis using c moments(1) by (meson le_trans)
  qed
  show all: "copied env bl i lib issuers (db n) l new" if l: "l \<in> set (d_leaves (db n))" "issued_by issuers l" for l
  proof (cases "lf_changed l \<le> broker_cursor i cadb")
    case True
    then have "lf_changed l \<le> last_change (db k)" using old by (simp add: mirrors_def)
    then have "l \<in> set (d_leaves (db k))" using history_old_row [OF hist _ l(1), of k] moments by simp
    then obtain c b where c: "reports lib issuers (db k) l c" "broker_cert_of (e_chrono env) bl i c = Ok b"
      "broker_cert_to_row (e_json env) b \<in> set (t_broker_certs cadb)"
      using old l(2) True by (auto simp: mirrors_def copied_def)
    have here: "reports lib issuers (db n) l c" using c(1) l by (auto simp: reports_def)
    have "bc_serial b' \<noteq> bc_serial b" if b': "b' \<in> set bs" for b'
    proof
      assume same: "bc_serial b' = bc_serial b"
      from source [OF b'] obtain c' j l' where c': "broker_cert_of (e_chrono env) bl i c' = Ok b'"
        "broker_cursor i cadb < uint (it_changed c')" "j \<le> n" "reports lib issuers (db j) l' c'" by blast
      have "it_serial c = it_serial c'" using broker_cert_of_Ok [OF c(2)] broker_cert_of_Ok [OF c'(1)] same by simp
      from same_serial [OF hist here c'(4,3) this] show False
        using True c'(2) reports_change(1) [OF hist c'(4)] by auto
    qed
    then have "broker_cert_to_row (e_json env) b \<in> set (t_broker_certs new)"
      unfolding new_def by (intro record_keeps_row [OF c(3)]) (auto simp: broker_cert_to_row_def)
    then show ?thesis using here c(2) by (auto simp: copied_def)
  next
    case False
    then obtain c where c: "c \<in> set certs" "reports lib issuers (db n) l c" using fetched l by (auto simp: fetched_all_def)
    then obtain before later where split: "certs = before @ c # later" by (auto simp: in_set_conv_decomp)
    then obtain bs1 b bs2 where b: "bs = bs1 @ b # bs2" "broker_cert_of (e_chrono env) bl i c = Ok b"
      "list_all2 (\<lambda>c b. broker_cert_of (e_chrono env) bl i c = Ok b) later bs2"
      using each by (auto simp: list_all2_append1 list_all2_Cons1)
    have "bc_serial b' \<noteq> bc_serial b" if b': "b' \<in> set bs2" for b'
    proof
      assume same: "bc_serial b' = bc_serial b"
      obtain c' where c': "c' \<in> set later" "broker_cert_of (e_chrono env) bl i c' = Ok b'"
        using list_all2_right [OF b(3) b'] by blast
      have less: "uint (it_changed c) < uint (it_changed c')" using fetched c'(1) by (simp add: fetched_all_def split sorted_wrt_append)
      obtain j l' where j: "j \<le> n" "reports lib issuers (db j) l' c'"
      proof -
        have "c' \<in> set certs" using c'(1) by (simp add: split)
        then show ?thesis using fetched that by (auto simp: fetched_all_def)
      qed
      have "it_serial c = it_serial c'" using broker_cert_of_Ok [OF b(2)] broker_cert_of_Ok [OF c'(2)] same by simp
      from same_serial [OF hist c(2) j(2,1) this] show False
        using less reports_change(1) [OF hist c(2)] reports_change(1) [OF hist j(2)] by auto
    qed
    then have "broker_cert_to_row (e_json env) b \<in> set (t_broker_certs new)"
      unfolding new_def b(1) by (intro record_latest_row) auto
    then show ?thesis using c(2) b(2) by (auto simp: copied_def)
  qed
  have cursor: "0 \<le> broker_cursor i new \<and> broker_cursor i new \<le> last_change (db n)"
  proof (cases "bs = []")
    case True
    then have "new = cadb" by (simp add: new_def record_broker_certs_def)
    then show ?thesis using old history_last_change [OF hist, of k n] moments by (simp add: mirrors_def)
  next
    case False
    have changes: "map bc_changed bs = map (\<lambda>c. uint (it_changed c)) certs"
      using each by (auto simp: list_all2_conv_all_nth dest!: broker_cert_of_Ok intro!: nth_equalityI)
    have "sorted_wrt (<) (map (\<lambda>c. uint (it_changed c)) certs)" using fetched by (simp add: fetched_all_def sorted_wrt_map)
    then have "sorted (map bc_changed bs)" unfolding changes by (simp add: strict_sorted_iff)
    moreover have "\<forall>b \<in> set bs. bc_broker_id b = i \<and> broker_cursor i cadb < bc_changed b"
      using source broker_cert_of_Ok by fastforce
    ultimately have new: "broker_cursor i new = bc_changed (last bs)"
      unfolding new_def using broker_cursor_advances [OF False, of i cadb "e_json env"] by blast
    obtain c j l' where "broker_cert_of (e_chrono env) bl i c = Ok (last bs)" "broker_cursor i cadb < uint (it_changed c)"
      "j \<le> n" "reports lib issuers (db j) l' c"
      using source [OF last_in_set [OF False]] by blast
    then show ?thesis
      using new old broker_cert_of_Ok reports_change(1,3) [OF hist] history_last_change [OF hist, of j n]
      by (fastforce simp: mirrors_def)
  qed
  show "mirrors env bl i lib issuers (db n) new"
    unfolding mirrors_def using cursor all old by (auto simp: new_def mirrors_def record_keyed)
qed

section \<open>Synchronising\<close>

lemma uint_cursor: "history db \<Longrightarrow> mirrors env bl i lib issuers (db k) cadb \<Longrightarrow> uint (word_of_int (broker_cursor i cadb) :: 64 word) = broker_cursor i cadb"
  using small_change history_small [of db k] by (auto simp: mirrors_def)

lemma try_sync_runs:
  assumes "try_sync_issued env bl c i s = (Ok (), s')" "s_db s = Some cadb"
  shows "\<exists>certs w bs. pages_from (call_issued bl c) (word_of_int (broker_cursor i cadb)) [] (s_out s) = Some (Inr certs, w)
    \<and> rmap_all (broker_cert_of (e_chrono env) bl i) certs = Ok bs
    \<and> s' = s\<lparr> s_out := w, s_db := Some (record_broker_certs (e_json env) bs cadb) \<rparr>"
proof -
  obtain answer where "pages_from (call_issued bl c) (word_of_int (broker_cursor i cadb)) [] (s_out s) = Some answer"
    using pages_end [of "call_issued bl c"] by blast
  then show ?thesis
    using assms
    by (cases answer)
       (auto simp: try_sync_issued_def sync_cursor_def the_db_def gets_def vbind_Ok_iff vlift_def vret_def asking_def outside_def
          issued_since_def record_issued_def on_db_def put_db_def split: sum.splits res.splits)
qed

lemma try_sync_mirrors:
  assumes hist: "history db" and room: "0 < limit"
    and pages: "answers_pages lib issuers limit db moment (call_issued bl c)"
    and old: "mirrors env bl i lib issuers (db k) cadb" "k \<le> moment (s_out s)"
    and run: "try_sync_issued env bl c i s = (Ok (), s')" "s_db s = Some cadb"
  shows "\<exists>n cadb'. moment (s_out s) \<le> n \<and> n \<le> moment (s_out s') \<and> s_db s' = Some cadb'
    \<and> mirrors env bl i lib issuers (db n) cadb'
    \<and> (\<forall>l \<in> set (d_leaves (db n)). issued_by issuers l \<longrightarrow> copied env bl i lib issuers (db n) l cadb')"
proof -
  let ?after = "word_of_int (broker_cursor i cadb) :: 64 word"
  obtain certs w bs where got: "pages_from (call_issued bl c) ?after [] (s_out s) = Some (Inr certs, w)"
    and bs: "rmap_all (broker_cert_of (e_chrono env) bl i) certs = Ok bs"
    and s': "s' = s\<lparr> s_out := w, s_db := Some (record_broker_certs (e_json env) bs cadb) \<rparr>"
    using try_sync_runs [OF run] by blast
  obtain m n where n: "moment (s_out s) \<le> m" "m \<le> n" "n \<le> moment w" "fetched_all lib issuers db (uint ?after) m n certs"
    using pages_complete [OF hist room pages got] by auto
  have fetched: "fetched_all lib issuers db (broker_cursor i cadb) m n certs" using n(4) uint_cursor [OF hist old(1)] by simp
  have "k \<le> m" using old(2) n(1) by simp
  note recorded = record_mirrors [OF hist old(1) this n(2) fetched bs]
  show ?thesis using recorded n(1-3) s' by (intro exI [of _ n] exI [of _ "record_broker_certs (e_json env) bs cadb"]) auto
qed

section \<open>Operations that leave the copy alone\<close>

definition copy_of :: "'v ca_state \<Rightarrow> broker_cert_row list option" where
  "copy_of s = map_option t_broker_certs (s_db s)"

definition same_copy :: "'v ca_state \<Rightarrow> 'v ca_state \<Rightarrow> bool" where
  "same_copy s s' \<longleftrightarrow> copy_of s' = copy_of s"

interpretation copying: state_relation same_copy
  by unfold_locales (simp_all add: same_copy_def)

lemma mirrors_same:
  "t_broker_certs db' = t_broker_certs db \<Longrightarrow> mirrors env bl i lib issuers adb db' = mirrors env bl i lib issuers adb db"
  "t_broker_certs db' = t_broker_certs db \<Longrightarrow> copied env bl i lib issuers adb l db' = copied env bl i lib issuers adb l db"
  by (simp_all add: mirrors_def copied_def broker_certs_keyed_def broker_cursor_def)

lemma same_copy_store: "obeys same_copy (store_ca_database env)"
proof -
  have "obeys same_copy (update_db_fingerprint env)"
    by (simp add: obeys_def same_copy_def copy_of_def update_db_fingerprint_def option.map_comp comp_def)
  moreover have "obeys same_copy (write_backup env sql)" for sql
    by (simp add: obeys_def same_copy_def copy_of_def write_backup_def)
  moreover have "obeys same_copy the_db" by (simp add: obeys_def same_copy_def the_db_def gets_def)
  moreover have "obeys same_copy (outside m)" for m
    by (simp add: obeys_def same_copy_def copy_of_def outside_def split: prod.split)
  ultimately show ?thesis
    unfolding store_ca_database_def Let_def by (intro copying.obeys_vbind)
qed

lemma same_copy_contacted: "obeys same_copy (contacted env i)"
  by (simp add: obeys_def same_copy_def copy_of_def contacted_def on_db_run touch_broker_def update_brokers_def split: option.split)

lemma store_copy:
  assumes "store_ca_database env s = (r, s')" "s_db s = Some cadb"
  shows "\<exists>cadb'. s_db s' = Some cadb' \<and> t_broker_certs cadb' = t_broker_certs cadb"
  using same_copy_store [of env] assms unfolding obeys_def same_copy_def copy_of_def by (metis map_option_eq_Some option.simps(9) snd_conv)

text \<open>A sync that fails has recorded nothing.\<close>

lemma try_sync_failed:
  "try_sync_issued env bl c i s = (r, s') \<Longrightarrow> r \<noteq> Ok () \<Longrightarrow> s_db s' = s_db s"
  by (auto simp: try_sync_issued_def sync_cursor_def the_db_def gets_def vbind_def vlift_def vret_def asking_def outside_def
      record_issued_def on_db_def put_db_def ok_or_def split: prod.splits sum.splits res.splits option.splits)

lemma sync_mirrors_or_keeps:
  assumes hist: "history db" and room: "0 < limit"
    and pages: "answers_pages lib issuers limit db moment (call_issued bl c)"
    and old: "mirrors env bl i lib issuers (db k) cadb" "k \<le> moment (s_out s)"
    and run: "sync_issued env bl c i s = (r, s')" "s_db s = Some cadb"
  shows "\<exists>n cadb'. k \<le> n \<and> s_db s' = Some cadb' \<and> mirrors env bl i lib issuers (db n) cadb'"
proof (cases "fst (try_sync_issued env bl c i s) = Ok ()")
  case True
  then have "try_sync_issued env bl c i s = (Ok (), s')"
    using run(1) by (auto simp: sync_issued_def attempt_def vbind_def vret_def split: prod.splits res.splits)
  from try_sync_mirrors [OF hist room pages old this run(2)] show ?thesis using old(2) by (meson le_trans)
next
  case False
  then have "s_db s' = s_db s"
    using run(1) try_sync_failed [of env bl c i s] by (auto simp: sync_issued_def attempt_def vbind_def vret_def split: prod.splits res.splits)
  then show ?thesis using old run(2) by auto
qed

section \<open>Revoking\<close>

lemma cursor_at_least: "q \<in> set (t_broker_certs db) \<Longrightarrow> cw_broker_id q = i \<Longrightarrow> cw_changed q \<le> broker_cursor i db"
  by (auto simp: cursor_max intro!: Max_ge)

lemma cursor_is:
  assumes "q \<in> set (t_broker_certs db)" "cw_broker_id q = i" "cw_changed q = n"
    and "\<And>q. q \<in> set (t_broker_certs db) \<Longrightarrow> cw_broker_id q = i \<Longrightarrow> cw_changed q \<le> n"
  shows "broker_cursor i db = n"
  using assms unfolding cursor_max by (auto intro!: Max_eqI)

lemma record_one:
  "t_broker_certs (record_broker_certs js [b] db)
     = filter (\<lambda>q. \<not> (cw_broker_id q = bc_broker_id b \<and> cw_serial q = bc_serial b)) (t_broker_certs db) @ [broker_cert_to_row js b]"
  by (auto simp: record_broker_certs_def tbl_replace_def tbl_delete_def broker_cert_key_def broker_cert_to_row_def intro!: filter_cong)

lemma record_revoked_mirrors:
  assumes hist: "history db" and old: "mirrors env bl i lib issuers (db k) cadb" and "k \<le> n"
    and c: "reports lib issuers (db n) l c" "broker_cert_of (e_chrono env) bl i c = Ok b"
  defines "new \<equiv> record_broker_certs (e_json env) [b\<lparr> bc_changed := min (bc_changed b) (broker_cursor i cadb) \<rparr>] cadb"
  shows "mirrors env bl i lib issuers (db n) new"
proof -
  let ?at = "broker_cursor i cadb" and ?b = "b\<lparr> bc_changed := min (bc_changed b) (broker_cursor i cadb) \<rparr>"
  have b: "bc_broker_id b = i" "bc_serial b = lf_serial l" "bc_changed b = lf_changed l"
    using broker_cert_of_Ok [OF c(2)] reports_change(1,2) [OF hist c(1)] by auto
  have rows: "t_broker_certs new = filter (\<lambda>q. \<not> (cw_broker_id q = i \<and> cw_serial q = lf_serial l)) (t_broker_certs cadb)
      @ [broker_cert_to_row (e_json env) ?b]"
    by (simp add: new_def record_one b)
  have row: "cw_broker_id (broker_cert_to_row (e_json env) ?b) = i" "cw_changed (broker_cert_to_row (e_json env) ?b) = min (lf_changed l) ?at"
    by (simp_all add: broker_cert_to_row_def b)
  have past: "\<exists>c' b'. reports lib issuers (db n) l' c' \<and> broker_cert_of (e_chrono env) bl i c' = Ok b'
      \<and> broker_cert_to_row (e_json env) b' \<in> set (t_broker_certs cadb)"
    if l': "l' \<in> set (d_leaves (db n))" "issued_by issuers l'" "lf_changed l' \<le> ?at" for l'
  proof -
    have "lf_changed l' \<le> last_change (db k)" using old l'(3) by (simp add: mirrors_def)
    then have "l' \<in> set (d_leaves (db k))" using history_old_row [OF hist assms(3) l'(1)] by simp
    then have "copied env bl i lib issuers (db k) l' cadb" using old l'(2,3) by (simp add: mirrors_def)
    then show ?thesis using l'(1) by (auto simp: copied_def reports_def)
  qed
  have cursor: "broker_cursor i new = ?at"
  proof (cases "lf_changed l \<le> ?at")
    case True
    then obtain c' b' where old_row: "reports lib issuers (db n) l c'" "broker_cert_of (e_chrono env) bl i c' = Ok b'"
      "broker_cert_to_row (e_json env) b' \<in> set (t_broker_certs cadb)"
      using past [of l] c(1) True unfolding reports_def by blast
    then have same: "b' = b" using c reports_unique by fastforce
    have "?b = b" using True b(3) by simp
    moreover have "q = broker_cert_to_row (e_json env) b"
      if "q \<in> set (t_broker_certs cadb)" "cw_broker_id q = i" "cw_serial q = lf_serial l" for q
    proof -
      have "broker_cert_key q = broker_cert_key (broker_cert_to_row (e_json env) b)"
        using that b by (simp add: broker_cert_key_def broker_cert_to_row_def)
      then show ?thesis using old that(1) old_row(3) same by (auto simp: mirrors_def broker_certs_keyed_def tbl_keyed_def distinct_map dest: inj_onD)
    qed
    ultimately have "set (t_broker_certs new) = set (t_broker_certs cadb)" using old_row(3) same unfolding rows by auto
    then show ?thesis unfolding cursor_max by simp
  next
    case False
    show ?thesis
      using False row cursor_at_least [of _ cadb i]
      by (intro cursor_is [of "broker_cert_to_row (e_json env) ?b"]) (auto simp: rows)
  qed
  have "copied env bl i lib issuers (db n) l' new"
    if l': "l' \<in> set (d_leaves (db n))" "issued_by issuers l'" "lf_changed l' \<le> ?at" for l'
  proof -
    obtain c' b' where c': "reports lib issuers (db n) l' c'" "broker_cert_of (e_chrono env) bl i c' = Ok b'"
      "broker_cert_to_row (e_json env) b' \<in> set (t_broker_certs cadb)"
      using past [OF l'] by blast
    have "broker_cert_to_row (e_json env) b' \<in> set (t_broker_certs new)"
    proof (cases "l' = l")
      case True
      then have "b' = b" using c c' reports_unique by fastforce
      moreover have "?b = b" using True l'(3) b(3) by simp
      ultimately show ?thesis by (simp add: rows)
    next
      case False
      then have "lf_serial l' \<noteq> lf_serial l"
        using l'(1) c(1) acme_reached_leaves [OF history_reached [OF hist], of n]
        by (auto simp: reports_def leaves_ok_def tbl_keyed_def distinct_map dest: inj_onD)
      moreover have "bc_serial b' = lf_serial l'" using broker_cert_of_Ok [OF c'(2)] reports_change(2) [OF hist c'(1)] by simp
      ultimately show ?thesis using c'(3) by (simp add: rows broker_cert_to_row_def)
    qed
    then show ?thesis using c' by (auto simp: copied_def)
  qed
  then show ?thesis
    using old cursor history_last_change [OF hist assms(3)] by (auto simp: mirrors_def new_def record_keyed)
qed

end
