(* ===== verification/Broker_Ends.thy ===== *)
theory Broker_Ends
  imports Broker_Mirror
begin

text \<open>
  Both ends: opCA's client calling the broker's handlers over a connection. What the handlers answer is
  what the client's lemmas ask of a broker, and so the copy opCA keeps holds what the broker has.
\<close>

section \<open>The broker's answers\<close>

definition leaves_of :: "daemon \<Rightarrow> leaf_row list" where
  "leaves_of d = d_leaves (sv_db (dn_server d))"

lemma sign_crl_leaves: "leaves_of (snd (sign_crl env e subordinate d)) = leaves_of d"
  by (auto simp: sign_crl_def Let_def leaves_of_def next_crl_number_def locked_def dbind_def dlift_def dset_def
      split: sum.splits locking.splits prod.splits)

lemma refresh_crl_leaves: "leaves_of (snd (refresh_crl env force d)) = leaves_of d"
  using sign_crl_leaves by (auto simp: refresh_crl_def split: mode.split sum.split list.split option.split)

lemma issuer_matches:
  "leaf_of_row lib r = Inr l \<Longrightarrow> issued_by issuers r \<longleftrightarrow> (case issuers of None \<Rightarrow> True | Some serials \<Rightarrow> l_issuer_serial l \<in> set serials)"
  by (auto simp: leaf_of_row_def sbind_Inr_iff issued_by_def split: option.split)

lemma found_by_serial:
  "certificate_by_serial lib serial db = Inr (Some l) \<Longrightarrow> \<exists>r \<in> set (d_leaves db). lf_serial r = serial \<and> leaf_of_row lib r = Inr l"
  by (auto simp: certificate_by_serial_def leaf_where_def sbind_Inr_iff find_Some_iff split: option.splits dest!: nth_mem)

lemma store_revoke_row:
  assumes "store_revoke lib serial reason db = Inr (l, db')"
  shows "\<exists>q \<in> set (d_leaves db'). lf_serial q = serial \<and> leaf_of_row lib q = Inr l"
proof -
  obtain q where "List.find (\<lambda>r. lf_serial r = serial) (d_leaves db') = Some q" "leaf_of_row lib q = Inr l"
    using assms by (auto simp: store_revoke_def Let_def sbind_Inr_iff split: if_splits option.splits)
  then show ?thesis by (auto simp: find_Some_iff)
qed

text \<open>The certificate a revocation answers with is a row of the enrolment's, in the database it leaves.\<close>

lemma revoke_leaf_reports:
  assumes "revoke_leaf env e serial reason d = (Inr c, d')" "leaves_ok (sv_db (dn_server d))"
  shows "\<exists>r \<in> set (leaves_of d'). issued_by (ed_issuers e) r \<and> lf_serial r = serial
    \<and> (\<exists>l. leaf_of_row (de_store env) r = Inr l \<and> c = issued_of l)"
proof -
  let ?db = "sv_db (dn_server d)"
  note step = assms(1) [unfolded revoke_leaf_def dbind_def dlift_def]
  have ok: "refuse_if_revoked e = Inr ()" "reason \<in> set revocation_reasons"
    using step by (auto split: sum.splits if_splits)
  note step = step [unfolded ok(1)]
  obtain row where row: "certificate_by_serial (de_store env) serial ?db = Inr row"
    using step ok(2) by (cases "certificate_by_serial (de_store env) serial ?db") (simp_all add: stored_inside_def inside_def)
  obtain l where l: "row = Some l" "case ed_issuers e of None \<Rightarrow> True | Some issuers \<Rightarrow> l_issuer_serial l \<in> set issuers"
    using step ok(2) by (cases row) (auto simp: row stored_inside_def inside_def split: if_splits)
  obtain r where r: "r \<in> set (leaves_of d)" "lf_serial r = serial" "leaf_of_row (de_store env) r = Inr l"
    using found_by_serial [of "de_store env" serial ?db l] row l(1) by (auto simp: leaves_of_def)
  have r_mine: "issued_by (ed_issuers e) r" using issuer_matches [OF r(3)] l(2) by simp
  show ?thesis
  proof (cases "l_revoked_at l")
    case (Some at)
    then have "c = issued_of l" "d' = d" using step ok(2) row l by (simp_all add: stored_inside_def inside_def dret_def)
    then show ?thesis using r r_mine by auto
  next
    case None
    have mine: "(case ed_issuers e of None \<Rightarrow> True | Some issuers \<Rightarrow> l_issuer_serial l \<in> set issuers) = True" using l(2) by simp
    show ?thesis
    proof (cases "store_revoke (de_store env) serial (if reason = 0 then None else Some reason) ?db")
      case (Inl err)
      have "c = issued_of l \<and> d' = d"
        by (cases err) (use step ok(2) None Inl row l(1) in \<open>simp_all add: mine stored_inside_def inside_def sbind_def\<close>)
      then show ?thesis using r r_mine by auto
    next
      case (Inr revoked_db)
      obtain revoked db where rd: "revoked_db = (revoked, db)" by fastforce
      have after: "leaves_of d' = d_leaves db" "c = issued_of revoked"
        using step ok(2) None row l(1) refresh_crl_leaves [of env True "d\<lparr> dn_server := (dn_server d)\<lparr> sv_db := db \<rparr> \<rparr>"]
        by (auto simp: mine stored_inside_def inside_def Inr rd leaves_of_def split: prod.splits sum.splits)
      obtain q where q: "q \<in> set (d_leaves db)" "lf_serial q = serial" "leaf_of_row (de_store env) q = Inr revoked"
        using store_revoke_row [OF Inr [unfolded rd]] by blast
      obtain r' where r': "r' \<in> set (leaves_of d)" "lf_serial q = lf_serial r'" "lf_issuer_serial q = lf_issuer_serial r'"
        using q(1) store_revoke_effect(1) [OF Inr [unfolded rd]] by (auto simp: leaf_revoked_def tbl_update_def leaves_of_def)
      have "r' = r"
        using assms(2) r r' q(2) by (auto simp: leaves_ok_def tbl_keyed_def leaves_of_def distinct_map dest: inj_onD)
      then have "issued_by (ed_issuers e) q" using r_mine r'(3) by (simp add: issued_by_def split: option.splits)
      then show ?thesis using after q by auto
    qed
  qed
qed

section \<open>The connection\<close>

text \<open>The environments the broker's calls run in: they read the store the same way and have one page size.\<close>

definition reads_as :: "acme_lib \<Rightarrow> nat \<Rightarrow> daemon_env \<Rightarrow> bool" where
  "reads_as lib limit env \<longleftrightarrow> leaf_of_row (de_store env) = leaf_of_row lib \<and> dc_issued_page (de_config env) = limit"

text \<open>
  A connection of client \<open>c\<close>, which presents the pin \<open>peer\<close>, to a broker that goes through the states
  \<open>daemons\<close>: an answer that arrives has the status of the broker's answer to the request, and its text reads
  back as that answer. A revocation is the step from one state to the next. Requests and answers may be lost.
\<close>

definition carried_answer :: "'v broker_lib \<Rightarrow> nat \<times> string \<Rightarrow> api_reply \<Rightarrow> bool" where
  "carried_answer bl answer r \<longleftrightarrow>
     fst answer = reply_status r
     \<and> (case r of Page_Reply page \<Rightarrow> bl_read_page bl (snd answer) = Inr page
        | Issued_Reply issued \<Rightarrow> bl_read_issued bl (snd answer) = Inr issued
        | _ \<Rightarrow> True)"

definition carries ::
  "acme_lib \<Rightarrow> nat \<Rightarrow> 'v broker_lib \<Rightarrow> broker_client \<Rightarrow> string option \<Rightarrow> (nat \<Rightarrow> daemon) \<Rightarrow> ('v \<Rightarrow> nat) \<Rightarrow> bool" where
  "carries lib limit bl c peer daemons moment \<longleftrightarrow>
     (\<forall>q v answer v'. bl_exchange bl c Get_Method (path_issued @ ''?'' @ q) [] v = (Inr answer, v') \<longrightarrow>
        (\<exists>n env why. moment v \<le> n \<and> n \<le> moment v' \<and> reads_as lib limit env
           \<and> carried_answer bl answer (fst (serve_api env why peer (Get_Issued (Some q)) (daemons n)))))
     \<and> (\<forall>serial payload v answer v'.
          bl_exchange bl c Post_Method (path_revoke_issued serial) payload v = (Inr answer, v') \<longrightarrow>
          (\<exists>n env why. moment v \<le> n \<and> n < moment v' \<and> reads_as lib limit env
             \<and> (let r = serve_api env why peer (Post_Revoke_Issued serial payload) (daemons n)
                in daemons (Suc n) = snd r \<and> carried_answer bl answer (fst r))))"

text \<open>A broker that stays enrolled with the operator, its subordinate's serials unchanged.\<close>

definition stays_enrolled :: "string option \<Rightarrow> string list option \<Rightarrow> (nat \<Rightarrow> daemon) \<Rightarrow> bool" where
  "stays_enrolled peer issuers daemons \<longleftrightarrow> (\<forall>n. \<exists>e. admits peer (daemons n) = Some e \<and> ed_issuers e = issuers)"

abbreviation databases :: "(nat \<Rightarrow> daemon) \<Rightarrow> nat \<Rightarrow> acme_db" where
  "databases daemons \<equiv> \<lambda>n. sv_db (dn_server (daemons n))"

lemma split_char_single: "c \<notin> set s \<Longrightarrow> split_char c s = [s]"
  by (induction s) auto

lemma after_read_back: "after_param why (Some (''after='' @ nat_to_string (unat after))) = Inr after"
proof -
  have "CHR ''&'' \<notin> set (''after='' @ nat_to_string (unat after))"
    using nat_to_string_digits [of "unat after"] by (auto simp: list_all_iff is_ascii_digit_def byte_def)
  then have "query_param (Some (''after='' @ nat_to_string (unat after))) ''after'' = Some (nat_to_string (unat after))"
    by (simp add: query_param_def split_char_single List.map_filter_def strip_prefix_def starts_with_def)
  moreover have "unat after < 2 ^ 64" using unsigned_less [of after] by simp
  ultimately show ?thesis by (simp add: after_param_def parse_u64_nat_to_string)
qed

lemma page_answer:
  assumes "reads_as lib limit env" "admits peer d = Some e" "ed_issuers e = issuers"
    and "reply_status (fst (serve_api env why peer (Get_Issued (Some (''after='' @ nat_to_string (unat after)))) d)) = 200"
  shows "\<exists>fresh. changed_after lib (uint after) issuers limit (sv_db (dn_server d)) = Inr fresh
    \<and> fst (serve_api env why peer (Get_Issued (Some (''after='' @ nat_to_string (unat after)))) d) = Page_Reply (served_page after fresh)"
proof -
  have changed: "changed_after (de_store env) (uint after) (ed_issuers e) (dc_issued_page (de_config env)) db = changed_after lib (uint after) issuers limit db" for db
    using assms(1,3) by (simp add: reads_as_def changed_after_def page_of_def)
  have refused: "reply_status (Refused_Reply b) \<noteq> 200" for b
    using http_status_refuses(1) [of "eb_kind b"] by (simp add: reply_status_def)
  show ?thesis
    using assms(2,4) refused
    by (cases "changed_after lib (uint after) issuers limit (sv_db (dn_server d))")
       (simp_all add: as_operator_def reply_def dbind_def dlift_def after_read_back [simplified] daemon_issued_def changed
          stored_inside_def inside_def served_page_def Let_def sbind_def split: if_splits)
qed

lemma served_pages:
  assumes carried: "carries lib limit bl c peer daemons moment" and enrolled: "stays_enrolled peer issuers daemons"
  shows "answers_pages lib issuers limit (databases daemons) moment (call_issued bl c)"
  unfolding answers_pages_def
proof (intro allI impI)
  fix after v page v'
  assume call: "call_issued bl c after v = (Inr page, v')"
  let ?q = "''after='' @ nat_to_string (unat after)"
  have path: "path_issued @ ''?after='' @ nat_to_string (unat after) = path_issued @ ''?'' @ ?q" by simp
  obtain answer where ex: "bl_exchange bl c Get_Method (path_issued @ ''?'' @ ?q) [] v = (Inr (200, answer), v')"
    and page: "bl_read_page bl answer = Inr page"
    using call unfolding call_issued_def broker_call_def path by (auto split: prod.splits sum.splits if_splits option.splits)
  obtain n env why where n: "moment v \<le> n" "n \<le> moment v'" "reads_as lib limit env"
    and r: "carried_answer bl (200, answer) (fst (serve_api env why peer (Get_Issued (Some ?q)) (daemons n)))"
    using carried ex unfolding carries_def by blast
  obtain e where e: "admits peer (daemons n) = Some e" "ed_issuers e = issuers" using enrolled by (auto simp: stays_enrolled_def)
  obtain fresh where fresh: "changed_after lib (uint after) issuers limit (databases daemons n) = Inr fresh"
    "fst (serve_api env why peer (Get_Issued (Some ?q)) (daemons n)) = Page_Reply (served_page after fresh)"
    using page_answer [OF n(3) e] r by (auto simp: carried_answer_def)
  have "page = served_page after fresh" using page r fresh(2) by (simp add: carried_answer_def)
  then show "\<exists>n fresh. moment v \<le> n \<and> n \<le> moment v'
      \<and> changed_after lib (uint after) issuers limit (databases daemons n) = Inr fresh \<and> page = served_page after fresh"
    using n(1,2) fresh(1) by blast
qed

lemma served_revocation:
  assumes carried: "carries lib limit bl c peer daemons moment" and enrolled: "stays_enrolled peer issuers daemons"
    and hist: "history (databases daemons)" and call: "call_revoke_issued bl c serial reason v = (Inr issued, v')"
  shows "\<exists>n l. moment v < n \<and> n \<le> moment v' \<and> reports lib issuers (databases daemons n) l issued \<and> it_serial issued = serial"
proof -
  let ?p = "bl_revocation bl reason"
  obtain answer where ex: "bl_exchange bl c Post_Method (path_revoke_issued serial) ?p v = (Inr (200, answer), v')"
    and issued: "bl_read_issued bl answer = Inr issued"
    using call unfolding call_revoke_issued_def broker_call_def by (auto split: prod.splits sum.splits if_splits option.splits)
  obtain n env why where n: "moment v \<le> n" "n < moment v'" "reads_as lib limit env"
    and r: "daemons (Suc n) = snd (serve_api env why peer (Post_Revoke_Issued serial ?p) (daemons n))"
      "carried_answer bl (200, answer) (fst (serve_api env why peer (Post_Revoke_Issued serial ?p) (daemons n)))"
    using carried ex unfolding carries_def Let_def by blast
  obtain e where e: "admits peer (daemons n) = Some e" "ed_issuers e = issuers" using enrolled by (auto simp: stays_enrolled_def)
  have refused: "reply_status (Refused_Reply b) \<noteq> 200" for b
    using http_status_refuses(1) [of "eb_kind b"] by (simp add: reply_status_def)
  obtain code x where x: "revoke_leaf env e serial code (daemons n) = (Inr x, daemons (Suc n))"
    "fst (serve_api env why peer (Post_Revoke_Issued serial ?p) (daemons n)) = Issued_Reply x"
    using r(1) r(2) [unfolded carried_answer_def, THEN conjunct1] e(1) refused
    by (auto simp: as_operator_def reply_def dbind_def dlift_def split: sum.splits prod.splits)
  have "issued = x" using issued r(2) x(2) by (simp add: carried_answer_def)
  moreover have "leaves_ok (databases daemons n)" using acme_reached_leaves history_reached [OF hist] by blast
  ultimately obtain q where "q \<in> set (leaves_of (daemons (Suc n)))" "issued_by issuers q" "lf_serial q = serial"
    "\<exists>l. leaf_of_row lib q = Inr l \<and> issued = issued_of l"
    using revoke_leaf_reports [OF x(1)] e(2) n(3) by (auto simp: reads_as_def)
  moreover from this have "reports lib issuers (databases daemons (Suc n)) q issued" by (simp add: reports_def leaves_of_def)
  ultimately show ?thesis using n(1,2) reports_change(2) [OF hist] by (intro exI [of _ "Suc n"]) auto
qed

section \<open>The copy\<close>


lemma broker_cursor_touched: "broker_cursor i (touch_broker t j db) = broker_cursor i db"
  by (simp add: broker_cursor_def touch_broker_def update_brokers_def)

lemma revoke_runs:
  assumes "revoke_broker_cert env bl op i serial reason s = (Ok r, s')"
    and "s_db s = Some cadb" "query_broker (e_json env) i cadb = Ok (Some br)" "client_of bl op br = Ok c"
  shows "\<exists>issued v b s3. call_revoke_issued bl c serial reason (s_out s) = (Inr issued, v)
    \<and> broker_cert_of (e_chrono env) bl i issued = Ok b \<and> r = b\<lparr> bc_changed := min (bc_changed b) (broker_cursor i cadb) \<rparr>
    \<and> sync_issued env bl c i (s\<lparr> s_out := v, s_db := Some (record_broker_certs (e_json env) [r] (touch_broker (stamp_of env) i cadb)) \<rparr>)
        = (Ok (), s3)
    \<and> store_ca_database env s3 = (Ok (), s')"
  using assms
  by (auto simp: revoke_broker_cert_def vbind_Ok_iff the_broker_def the_db_def gets_def vlift_def vret_def asking_def outside_def
      contacted_def on_db_run broker_cursor_touched Let_def split: prod.splits sum.splits)


section \<open>An example\<close>

text \<open>
  A broker with one certificate, at two moments: before and after its revocation. A client that asks for the
  pages from the start, or for the revocation at the first moment, is answered; every other request is lost.
\<close>

definition example_enrolled :: enrolled where
  "example_enrolled = \<lparr> ed_chain_pem = [], ed_operator_pin = ''pin'',
     ed_config = \<lparr> ic_permitted_domains = [], ic_leaf_days = 1, ic_leaf_max_days = 1, ic_challenges = [] \<rparr>,
     ed_api_pin = [], ed_revoked = False, ed_paused = False, ed_issuers = None \<rparr>"

definition example_daemon :: daemon where
  "example_daemon = \<lparr> dn_file = None, dn_mode = Enrolled example_enrolled, dn_spki = [], dn_csr_pem = [], dn_server = server_new example_db,
     dn_client = None, dn_serving = False, dn_acme_cert = [], dn_acme_key = [], dn_live = False, dn_ca_file = None, dn_crl_file = None \<rparr>"

definition example_daemon_env :: daemon_env where
  "example_daemon_env =
     \<lparr> de_config = \<lparr> dc_host = ''h'', dc_domains = [], dc_api_pin = [], dc_pki_origin = [], dc_issued_page = 10, dc_version = [] \<rparr>,
       de_store = example_lib, de_issue = example_issue_lib\<lparr> il_chain := (\<lambda>t. Inl ''no chain'') \<rparr>, de_inspect = (\<lambda>der. Inl []),
       de_pairing_code = (\<lambda>s. None), de_redeem = (\<lambda>s. Code_Failed []), de_read_enrolled = (\<lambda>s. Inl []), de_write_enrolled = (\<lambda>e. []),
       de_read_enrolment = (\<lambda>s. Inl []), de_read_chain = (\<lambda>s. Inl []), de_read_revocation = (\<lambda>s. Inr 1),
       de_operator_tls = (\<lambda>root pin. Inr ()), de_lock = Lock_Had, de_stage = Inr (), de_write = Inr (), de_signer = Inr (),
       de_fresh_csr = Inl [], de_host_csr = Inl [], de_key_pem = [], de_key_matches = (\<lambda>k spki. True), de_tls_files = Inr (),
       de_bind = Inr (), de_crl_next = (\<lambda>crl key. None), de_serial = Inr, de_sign_crl = (\<lambda>key n t u revoked. Inl []) \<rparr>"

definition example_serve :: "api_call \<Rightarrow> daemon \<Rightarrow> api_reply \<times> daemon" where
  "example_serve = serve_api example_daemon_env (\<lambda>s. s) (Some ''pin'')"

definition example_daemons :: "nat \<Rightarrow> daemon" where
  "example_daemons n = (if n = 0 then example_daemon else snd (example_serve (Post_Revoke_Issued ''77'' []) example_daemon))"

definition example_moment :: "memory \<Rightarrow> nat" where
  "example_moment m = (if m ''revoked'' = None then 0 else 1)"

definition example_page :: "nat \<Rightarrow> issued_page" where
  "example_page n = (case fst (example_serve (Get_Issued (Some ''after=0'')) (example_daemons n)) of Page_Reply page \<Rightarrow> page | _ \<Rightarrow> undefined)"

definition example_revoked :: issued_certificate where
  "example_revoked = (case fst (example_serve (Post_Revoke_Issued ''77'' []) example_daemon) of Issued_Reply c \<Rightarrow> c | _ \<Rightarrow> undefined)"

definition example_broker_lib :: "memory broker_lib" where
  "example_broker_lib =
     \<lparr> bl_connector = (\<lambda>e op. Inr ()),
       bl_exchange = (\<lambda>c m path payload v.
         if m = Get_Method \<and> path = ''/v1/issued?after=0'' then (Inr (200, if example_moment v = 0 then ''0'' else ''1''), v)
         else if m = Post_Method \<and> path = ''/v1/issued/77/revoke'' \<and> example_moment v = 0 then (Inr (200, []), v(''revoked'' \<mapsto> ([], [])))
         else (Inl No_Answer, v)),
       bl_pin = Some, bl_pairing = (\<lambda>s t. Inl []), bl_request_key = (\<lambda>r. Inl []), bl_time_error = (\<lambda>s. []),
       bl_read_offer = (\<lambda>s. Inl []), bl_read_status = (\<lambda>s. Inl []), bl_read_csr = (\<lambda>s. Inl []),
       bl_read_page = (\<lambda>s. Inr (example_page (if s = ''0'' then 0 else 1))), bl_read_issued = (\<lambda>s. Inr example_revoked),
       bl_read_error = (\<lambda>s. None), bl_enrolment = (\<lambda>e. []), bl_chain = (\<lambda>u. []), bl_revocation = (\<lambda>n. []) \<rparr>"

definition example_client :: broker_client where
  "example_client = \<lparr> cl_endpoint = \<lparr> ep_host = ''b'', ep_port = 443, ep_pin = ''key'' \<rparr>, cl_operator = Some \<lparr> op_chain = [], op_key = example_key, op_pin = ''pin'' \<rparr> \<rparr>"

definition example_copy_env :: "memory ca_env" where
  "example_copy_env = (example_env 0)\<lparr> e_chrono := seconds_chrono\<lparr> parse_from_rfc3339 := (\<lambda>v. Some 0) \<rparr> \<rparr>"

definition example_brokers :: ca_db where
  "example_brokers = set_broker_endpoint ''T'' 1 (''https://b:'' @ nat_to_string 443) ''key'' (snd (add_broker list_json ''T'' ''7'' [''home.arpa''] (db_new empty_config)))"

lemma example_one_leaf:
  "\<exists>l. d_leaves example_db = [l] \<and> lf_serial l = ''77'' \<and> lf_changed l = 1 \<and> lf_revoked_at l = None \<and> lf_issuer_serial l = ''5''"
  by (simp add: example_db_def example_simps)

lemma example_row_reads: "\<exists>x. leaf_of_row example_lib l = Inr x \<and> l_changed x = lf_changed l \<and> l_revoked_at x = map_option (\<lambda>t. 0) (lf_revoked_at l)
    \<and> l_issuer_serial x = lf_issuer_serial l \<and> l_serial x = lf_serial l"
  by (simp add: leaf_of_row_def example_lib_def read_time_def optional_time_def unreadable_def sbind_def split: option.split)

lemma example_env_parts:
  "de_store example_daemon_env = example_lib" "dc_issued_page (de_config example_daemon_env) = 10" "de_read_revocation example_daemon_env s = Inr 1"
  "il_chain (de_issue example_daemon_env) t = Inl ''no chain''"
  by (simp_all add: example_daemon_env_def)

lemma example_admits: "dn_mode d = Enrolled example_enrolled \<Longrightarrow> admits (Some ''pin'') d = Some example_enrolled"
  by (simp add: admits_def example_enrolled_def)

lemma example_enrolled_parts: "ed_issuers example_enrolled = None" "ed_revoked example_enrolled = False"
  by (simp_all add: example_enrolled_def)

lemma zero_text: "nat_to_string 0 = ''0''"
  by code_simp

lemma example_served:
  assumes "dn_mode d = Enrolled example_enrolled" "leaves_of d = [l]" "lf_changed l = n" "n = 1 \<or> n = 2"
  shows "\<exists>x. leaf_of_row example_lib l = Inr x \<and> example_serve (Get_Issued (Some ''after=0'')) d
    = (Page_Reply \<lparr> ip_certificates = [issued_of x], ip_next = word_of_int n, ip_more = False \<rparr>, d)"
proof -
  obtain x where x: "leaf_of_row example_lib l = Inr x" "l_changed x = n" using example_row_reads assms(3) by blast
  have "after_param (\<lambda>s. s) (Some ''after=0'') = Inr 0"
    using after_read_back [of "\<lambda>s. s" 0] zero_text by simp
  then show ?thesis
    using x assms
    by (auto simp: example_serve_def as_operator_def example_admits reply_def dbind_def dlift_def daemon_issued_def example_env_parts
        example_enrolled_parts i64_max_def changed_after_def page_of_def issued_by_def sbind_def stored_inside_def inside_def
        issued_of_def Let_def leaves_of_def)
qed

lemma example_before: "dn_mode example_daemon = Enrolled example_enrolled" "sv_db (dn_server example_daemon) = example_db"
  by (simp_all add: example_daemon_def server_new_def)

lemma example_revoking:
  "\<exists>l x d'. example_serve (Post_Revoke_Issued ''77'' payload) example_daemon = (Issued_Reply (issued_of x), d')
     \<and> dn_mode d' = Enrolled example_enrolled \<and> sv_db (dn_server d') = acme_apply example_lib (Revoke_Leaf ''77'' (Some 1)) example_db
     \<and> d_leaves (sv_db (dn_server d')) = [l] \<and> lf_changed l = 2 \<and> leaf_of_row example_lib l = Inr x \<and> lf_serial l = ''77''"
proof -
  obtain l where l: "d_leaves example_db = [l]" "lf_serial l = ''77''" "lf_changed l = 1" "lf_revoked_at l = None" "lf_issuer_serial l = ''5''"
    using example_one_leaf by blast
  let ?l = "l\<lparr> lf_revoked_at := Some (now_text example_lib), lf_reason := Some 1, lf_changed := 2 \<rparr>"
  obtain x where x: "leaf_of_row example_lib l = Inr x" "l_revoked_at x = None" using example_row_reads [of l] l by auto
  obtain y where y: "leaf_of_row example_lib ?l = Inr y" using example_row_reads by blast
  have revoked: "store_revoke example_lib ''77'' (Some 1) example_db = Inr (y, example_db\<lparr> d_leaves := [?l] \<rparr>)"
    using l y by (simp add: store_revoke_def tbl_count_def reason_admitted_def tbl_update_def next_change_def sbind_def)
  have found: "certificate_by_serial example_lib ''77'' example_db = Inr (Some x)"
    using l x by (simp add: certificate_by_serial_def leaf_where_def sbind_def)
  have "example_serve (Post_Revoke_Issued ''77'' payload) example_daemon
    = (Issued_Reply (issued_of y), example_daemon\<lparr> dn_server := (dn_server example_daemon)\<lparr> sv_db := example_db\<lparr> d_leaves := [?l] \<rparr>, sv_stale := True \<rparr> \<rparr>)"
    using found x revoked
    by (simp add: example_serve_def as_operator_def example_admits example_before reply_def dbind_def dlift_def badly_def example_env_parts
        revoke_leaf_def refuse_if_revoked_def example_enrolled_parts revocation_reasons_def stored_inside_def inside_def
        refresh_crl_def)
  then show ?thesis
    using y l revoked by (auto simp: example_before committed_def)
qed

lemma example_enrolled_throughout: "stays_enrolled (Some ''pin'') None example_daemons"
  using example_revoking [of "[]"] by (auto simp: stays_enrolled_def example_daemons_def example_admits example_before example_enrolled_parts)

lemma example_last_changes: "last_change example_db = 1" "last_change (databases example_daemons 1) = 2"
  using example_one_leaf example_revoking [of "[]"] by (auto simp: example_daemons_def last_change_def)

lemma example_history: "history (databases example_daemons)"
proof -
  have "acme_step example_db (databases example_daemons 1)"
    using example_revoking [of "[]"] Step_Call [where call = "Revoke_Leaf ''77'' (Some 1)" and db = example_db and lib = example_lib] by (auto simp: example_daemons_def)
  then have "acme_steps example_db (databases example_daemons 1)"
    using example_revoking [of "[]"] by (intro Steps_More [OF Steps_None]) (auto simp: example_daemons_def)
  then have step: "acme_steps (databases example_daemons n) (databases example_daemons (Suc n))" for n
    by (cases n) (simp_all add: Steps_None example_daemons_def example_before)
  have "last_change (databases example_daemons n) \<le> 2" for n
    using example_last_changes by (cases "n = 0") (simp_all add: example_daemons_def example_before)
  then have "last_change (databases example_daemons n) \<le> i64_max" for n
    by (rule order_trans) (simp add: i64_max_def)
  then show ?thesis
    using step example_db_reached by (simp add: history_def example_daemons_def example_before)
qed

lemma example_pages:
  assumes "n \<le> 1"
  shows "\<exists>c. example_serve (Get_Issued (Some ''after=0'')) (example_daemons n)
    = (Page_Reply \<lparr> ip_certificates = [c], ip_next = word_of_nat (Suc n), ip_more = False \<rparr>, example_daemons n)
    \<and> uint (it_changed c) = int (Suc n)"
proof -
  obtain l where l: "leaves_of (example_daemons n) = [l]" "lf_changed l = int (Suc n)" and mode: "dn_mode (example_daemons n) = Enrolled example_enrolled"
  proof (cases n)
    case 0
    then show ?thesis using that example_one_leaf by (auto simp: example_daemons_def leaves_of_def example_before)
  next
    case (Suc k)
    then show ?thesis using that example_revoking [of "[]"] assms by (auto simp: example_daemons_def leaves_of_def)
  qed
  then obtain x where x: "leaf_of_row example_lib l = Inr x" "example_serve (Get_Issued (Some ''after=0'')) (example_daemons n)
      = (Page_Reply \<lparr> ip_certificates = [issued_of x], ip_next = word_of_int (int (Suc n)), ip_more = False \<rparr>, example_daemons n)"
    using example_served [OF mode l(1) l(2)] assms by (auto simp: le_Suc_eq)
  moreover have "uint (it_changed (issued_of x)) = int (Suc n)"
    using change_of_leaf [OF x(1)] l(2) small_change [of "int (Suc n)"] assms by (simp add: i64_max_def)
  ultimately show ?thesis by auto
qed

lemma example_carries: "carries example_lib 10 example_broker_lib example_client (Some ''pin'') example_daemons example_moment"
proof -
  have env: "reads_as example_lib 10 example_daemon_env" by (simp add: reads_as_def example_env_parts)
  have moments: "example_moment v \<le> 1" for v by (simp add: example_moment_def)
  have "carried_answer example_broker_lib answer (fst (example_serve (Get_Issued (Some q)) (example_daemons (example_moment v)))) \<and> v' = v"
    if "bl_exchange example_broker_lib example_client Get_Method (path_issued @ ''?'' @ q) [] v = (Inr answer, v')" for q v answer v'
  proof -
    have q: "q = ''after=0''" "answer = (200, if example_moment v = 0 then ''0'' else ''1'')" "v' = v"
      using that by (auto simp: example_broker_lib_def path_issued_def split: if_splits)
    obtain c where "example_serve (Get_Issued (Some ''after=0'')) (example_daemons (example_moment v))
      = (Page_Reply \<lparr> ip_certificates = [c], ip_next = word_of_nat (Suc (example_moment v)), ip_more = False \<rparr>, example_daemons (example_moment v))"
      using example_pages [OF moments] by blast
    then show ?thesis
      using q moments [of v] by (auto simp: carried_answer_def reply_status_def example_broker_lib_def example_page_def le_Suc_eq)
  qed
  moreover have "example_moment v = 0 \<and> example_moment v' = 1 \<and> serial = ''77'' \<and> answer = (200, [])"
    if "bl_exchange example_broker_lib example_client Post_Method (path_revoke_issued serial) payload v = (Inr answer, v')" for serial payload v answer v'
    using that by (auto simp: example_broker_lib_def path_revoke_issued_def example_moment_def split: if_splits)
  moreover have "daemons_1 = snd r \<and> carried_answer example_broker_lib (200, []) (fst r)"
    if "r = example_serve (Post_Revoke_Issued ''77'' payload) (example_daemons 0)" "daemons_1 = example_daemons 1" for r payload daemons_1
  proof -
    have same: "example_serve (Post_Revoke_Issued ''77'' payload) d = example_serve (Post_Revoke_Issued ''77'' []) d" for d
      by (simp add: example_serve_def example_env_parts)
    show ?thesis
      using that example_revoking [of "[]"]
      by (auto simp: same example_daemons_def carried_answer_def reply_status_def example_broker_lib_def example_revoked_def)
  qed
  ultimately show ?thesis
    unfolding carries_def Let_def example_serve_def
    using env by (metis (no_types, lifting) One_nat_def le_refl less_one)
qed

lemma example_call:
  "call_issued example_broker_lib example_client 0 v = (Inr (example_page (example_moment v)), v)"
proof -
  have "''/v1/issued'' @ ''?after='' @ nat_to_string 0 = ''/v1/issued?after=0''" by (simp add: zero_text)
  moreover have "example_moment v \<le> 1" by (simp add: example_moment_def)
  ultimately show ?thesis
    by (auto simp: call_issued_def broker_call_def path_issued_def example_broker_lib_def le_Suc_eq)
qed

lemma example_one_page: "n \<le> 1 \<Longrightarrow> \<exists>c. example_page n = \<lparr> ip_certificates = [c], ip_next = word_of_nat (Suc n), ip_more = False \<rparr> \<and> uint (it_changed c) = int (Suc n)"
  using example_pages [of n] by (auto simp: example_page_def)

lemma example_of_broker:
  "uint (it_changed c) \<le> i64_max \<Longrightarrow> \<exists>b. broker_cert_of (e_chrono example_copy_env) bl i c = Ok b \<and> bc_broker_id b = i"
  by (cases "it_revoked_at c") (simp_all add: broker_cert_of_def example_copy_env_def openssl_time_def optional_openssl_time_def seconds_chrono_def)

lemma example_cursor:
  assumes "t_broker_certs db = []"
  shows "broker_cursor 1 db = 0" "mirrors example_copy_env example_broker_lib 1 example_lib None (databases example_daemons 0) db"
proof -
  show none: "broker_cursor 1 db = 0" using assms by (simp add: broker_cursor_def)
  have "\<not> lf_changed l \<le> 0" if "l \<in> set (d_leaves (databases example_daemons 0))" for l
    using that example_one_leaf by (auto simp: example_daemons_def example_before)
  then show "mirrors example_copy_env example_broker_lib 1 example_lib None (databases example_daemons 0) db"
    using none assms example_last_changes by (auto simp: mirrors_def broker_certs_keyed_def tbl_keyed_def example_daemons_def example_before)
qed

lemma example_sync:
  assumes "s_db s = Some db" "broker_cursor 1 db = 0"
  shows "\<exists>s'. try_sync_issued example_copy_env example_broker_lib example_client 1 s = (Ok (), s') \<and> s_out s' = s_out s"
proof -
  have "example_moment (s_out s) \<le> 1" by (simp add: example_moment_def)
  from example_one_page [OF this] obtain c where c: "example_page (example_moment (s_out s))
      = \<lparr> ip_certificates = [c], ip_next = word_of_nat (Suc (example_moment (s_out s))), ip_more = False \<rparr>"
    "uint (it_changed c) = int (Suc (example_moment (s_out s)))" by blast
  then have "uint (it_changed c) \<le> i64_max" by (simp add: i64_max_def example_moment_def)
  then obtain b where "broker_cert_of (e_chrono example_copy_env) example_broker_lib 1 c = Ok b" using example_of_broker by blast
  then show ?thesis
    using assms c
    by (simp add: try_sync_issued_def sync_cursor_def the_db_def gets_def vbind_def vret_def vlift_def asking_def outside_def issued_since_def
        pages_from.simps [of "call_issued example_broker_lib example_client"] example_call Let_def record_issued_def on_db_run)
qed

lemma example_no_rows: "t_broker_certs example_brokers = []"
  by (simp add: example_brokers_def set_broker_endpoint_def update_brokers_def add_broker_def db_new_def Let_def)


lemma example_recorded_broker:
  "\<exists>br. query_broker (e_json example_copy_env) 1 example_brokers = Ok (Some br)
     \<and> client_of example_broker_lib \<lparr> op_chain = [], op_key = example_key, op_pin = ''pin'' \<rparr> br = Ok example_client"
proof -
  obtain br where br: "query_broker (e_json example_copy_env) 1 example_brokers = Ok (Some br)" "br_id br = 1"
    "br_url br = Some (''https://b:'' @ nat_to_string 443)" "br_pinned_key br = Some ''key''"
    by (simp add: query_broker_def example_brokers_def set_broker_endpoint_def update_brokers_def add_broker_def db_new_def Let_def next_rowid_def
        tbl_update_def tbl_lookup_def example_copy_env_def example_env_def row_to_broker_def list_json_def broker_state_from_str_def broker_state_as_str_def)
  have "rsplit_once CHR '':'' (''b'' @ CHR '':'' # nat_to_string 443) = Some (''b'', nat_to_string 443)"
    using port_no_colon by (intro rsplit_once_last)
  then have "Option.bind (strip_prefix ''https://'' (''https://b:'' @ nat_to_string 443)) (rsplit_once CHR '':'') = Some (''b'', nat_to_string 443)"
    by (simp add: strip_prefix_def starts_with_def)
  moreover have "parse_u16 (nat_to_string 443) = Some 443" by (rule parse_u16_number) simp
  moreover have "unbracketed ''b'' = ''b''" by (simp add: unbracketed_def strip_prefix_def starts_with_def)
  ultimately have "client_of example_broker_lib \<lparr> op_chain = [], op_key = example_key, op_pin = ''pin'' \<rparr> br = Ok example_client"
    using br by (simp add: client_of_def of_broker_def new_client_def example_broker_lib_def example_client_def)
  then show ?thesis using br(1) by blast
qed

lemma example_store: "s_db s \<noteq> None \<Longrightarrow> \<exists>s'. store_ca_database example_copy_env s = (Ok (), s')"
  by (cases "s_out s ca_database_title")
     (auto simp: store_ca_database_def update_db_fingerprint_def vbind_def the_db_def gets_def write_backup_def outside_def put_document_def
        example_copy_env_def example_env_def memory_vault_def memory_change_def call_def Let_def)

lemma example_revocation:
  assumes "query_broker (e_json example_copy_env) 1 example_brokers = Ok (Some br)" "client_of example_broker_lib op br = Ok example_client"
    and "s_db s = Some example_brokers" "s_out s = Map.empty"
  shows "\<exists>r s'. revoke_broker_cert example_copy_env example_broker_lib op 1 ''77'' 1 s = (Ok r, s')"
proof -
  have "path_revoke_issued ''77'' = ''/v1/issued/77/revoke''" by (simp add: path_revoke_issued_def)
  then have call: "call_revoke_issued example_broker_lib example_client ''77'' 1 Map.empty = (Inr example_revoked, [''revoked'' \<mapsto> ([], [])])"
    by (simp add: call_revoke_issued_def broker_call_def example_broker_lib_def example_moment_def)
  obtain l x where x: "example_revoked = issued_of x" "lf_changed l = 2" "leaf_of_row example_lib l = Inr x"
    using example_revoking [of "[]"] by (auto simp: example_revoked_def)
  have "uint (it_changed example_revoked) \<le> i64_max"
    using change_of_leaf [OF x(3)] x(1,2) small_change [of 2] by (simp add: i64_max_def)
  then obtain b where b: "broker_cert_of (e_chrono example_copy_env) example_broker_lib 1 example_revoked = Ok b" "bc_broker_id b = 1"
    using example_of_broker by blast
  let ?touched = "touch_broker (stamp_of example_copy_env) 1 example_brokers"
  let ?r = "b\<lparr> bc_changed := min (bc_changed b) 0 \<rparr>"
  let ?db = "record_broker_certs (e_json example_copy_env) [?r] ?touched"
  have touched: "t_broker_certs ?touched = []" by (simp add: touch_broker_def update_brokers_def example_no_rows)
  have "bc_changed b = 2" using broker_cert_of_Ok [OF b(1)] change_of_leaf [OF x(3)] x(1,2) small_change [of 2] by (simp add: i64_max_def)
  then have "broker_cursor 1 ?db = 0"
    using b(2) touched by (simp add: broker_cursor_def record_one broker_cert_to_row_def)
  then obtain s3 where s3: "try_sync_issued example_copy_env example_broker_lib example_client 1
      (s\<lparr> s_out := [''revoked'' \<mapsto> ([], [])], s_db := Some ?db \<rparr>) = (Ok (), s3)" "s_db s3 \<noteq> None" "s_out s3 = [''revoked'' \<mapsto> ([], [])]"
    using example_sync [of "s\<lparr> s_out := [''revoked'' \<mapsto> ([], [])], s_db := Some ?db \<rparr>" ?db] try_sync_runs by fastforce
  obtain s' where "store_ca_database example_copy_env s3 = (Ok (), s')" using example_store [OF s3(2)] by blast
  then show ?thesis
    using assms call b(1) s3(1)
    by (simp add: revoke_broker_cert_def vbind_def the_broker_def the_db_def gets_def vlift_def vret_def asking_def outside_def
        contacted_def on_db_run sync_issued_def attempt_def Let_def broker_cursor_touched example_cursor(1) [OF example_no_rows])
qed


end
