(* ===== verification/Broker_Promises.thy ===== *)
theory Broker_Promises
  imports Broker_Ends Acme_Guarantees
begin

text \<open>
  What the broker's daemon promises over runs of API calls, CRL turns, reloads, ACME requests and restarts
  of its listener: ACME and the CRL are served under a live enrolment only, the memory's enrolment is the
  file's, the API is the operator's, and a revocation is final and reaches the CRL.
\<close>

section \<open>Runs\<close>

text \<open>Environments that read and write the enrolment's file in one way, and read back what they wrote.\<close>

definition files_as :: "(string \<Rightarrow> string + enrolled) \<Rightarrow> (enrolled \<Rightarrow> string) \<Rightarrow> daemon_env \<Rightarrow> bool" where
  "files_as rd wr env \<longleftrightarrow> de_read_enrolled env = rd \<and> de_write_enrolled env = wr \<and> (\<forall>e. rd (wr e) = Inr e)"

text \<open>
  A step: an API call, a turn of the CRL's loop, a reload, the listener's hourly refresh, anything the ACME
  server does to its state, or a listener that ends.
\<close>

inductive daemon_step :: "(string \<Rightarrow> string + enrolled) \<Rightarrow> (enrolled \<Rightarrow> string) \<Rightarrow> daemon \<Rightarrow> daemon \<Rightarrow> bool" for rd wr where
  Api_Step: "files_as rd wr env \<Longrightarrow> daemon_step rd wr d (snd (serve_api env why peer c d))"
| Crl_Step: "files_as rd wr env \<Longrightarrow> daemon_step rd wr d (crl_turn env d)"
| Reload_Step: "files_as rd wr env \<Longrightarrow> daemon_step rd wr d (snd (reload_locked env subordinate d))"
| Refresh_Step: "files_as rd wr env \<Longrightarrow> daemon_step rd wr d (snd (refresh_acme env d))"
| Acme_Step: "daemon_step rd wr d (d\<lparr> dn_server := s \<rparr>)"
| Ended_Step: "daemon_step rd wr d (d\<lparr> dn_serving := False \<rparr>)"

inductive_cases daemon_stepE: "daemon_step rd wr d d'"

definition same_enrolment :: "(string \<Rightarrow> string + enrolled) \<Rightarrow> daemon \<Rightarrow> bool" where
  "same_enrolment rd d \<longleftrightarrow>
     (case dn_mode d of Enrolling \<Rightarrow> dn_file d = None | Enrolled e \<Rightarrow> \<exists>t. dn_file d = Some t \<and> rd t = Inr e)"

definition serves_live :: "daemon \<Rightarrow> bool" where
  "serves_live d \<longleftrightarrow> dn_live d = live_mode (dn_mode d) \<and> (dn_serving d \<longrightarrow> live_mode (dn_mode d))"

definition daemon_ok :: "(string \<Rightarrow> string + enrolled) \<Rightarrow> daemon \<Rightarrow> bool" where
  "daemon_ok rd d \<longleftrightarrow> same_enrolment rd d \<and> serves_live d"

section \<open>The listener\<close>

lemma serve_acme_under_keeps:
  "dn_mode (snd (serve_acme_under env e d)) = dn_mode d" "dn_file (snd (serve_acme_under env e d)) = dn_file d"
  "dn_live (snd (serve_acme_under env e d)) = dn_live d" "dn_client (snd (serve_acme_under env e d)) = dn_client d"
  by (auto simp: serve_acme_under_def start_listener_def Let_def split: sum.splits prod.splits if_splits)

lemma refresh_acme_live:
  "refresh_acme env d = (b, d') \<Longrightarrow> dn_mode d' = dn_mode d \<and> dn_file d' = dn_file d \<and> dn_live d' = live_mode (dn_mode d)
     \<and> (dn_serving d' \<longrightarrow> live_mode (dn_mode d))"
proof (cases "dn_mode d")
  case Enrolling
  then show "refresh_acme env d = (b, d') \<Longrightarrow> ?thesis" by (auto simp: refresh_acme_def live_mode_def)
next
  case (Enrolled e)
  let ?d = "d\<lparr> dn_live := live_mode (dn_mode d), dn_server := set_paused (ed_paused e) (dn_server d) \<rparr>"
  assume "refresh_acme env d = (b, d')"
  then have "ed_revoked e \<and> d' = d\<lparr> dn_live := False, dn_serving := False \<rparr> \<or> \<not> ed_revoked e \<and> d' = snd (serve_acme_under env e ?d)"
    by (auto simp: refresh_acme_def live_mode_def Enrolled Let_def split: sum.splits prod.splits if_splits)
  then show ?thesis
    using serve_acme_under_keeps [of env e ?d] by (auto simp: Enrolled live_mode_def)
qed

lemma refresh_acme_ok:
  assumes "same_enrolment rd d"
  shows "daemon_ok rd (snd (refresh_acme env d))"
proof -
  obtain b d' where run: "refresh_acme env d = (b, d')" by fastforce
  note live = refresh_acme_live [OF run]
  then have "same_enrolment rd d'" using assms by (simp add: same_enrolment_def cong: mode.case_cong)
  then show ?thesis using live by (simp add: daemon_ok_def serves_live_def run)
qed

section \<open>Calls\<close>

definition call_keeps :: "(string \<Rightarrow> string + enrolled) \<Rightarrow> 'a daemon_call \<Rightarrow> bool" where
  "call_keeps rd m \<longleftrightarrow> (\<forall>d. daemon_ok rd d \<longrightarrow> daemon_ok rd (snd (m d)))"

lemma keeps_bind:
  "call_keeps rd m \<Longrightarrow> (\<And>x. call_keeps rd (f x)) \<Longrightarrow> call_keeps rd (dbind m f)"
  unfolding call_keeps_def dbind_def by (simp split: sum.split prod.split) (metis snd_conv)

lemma keeps_same: "(\<And>d. snd (m d) = d) \<Longrightarrow> call_keeps rd m"
  by (simp add: call_keeps_def)

lemma keeps_cases:
  "call_keeps rd m \<Longrightarrow> call_keeps rd n \<Longrightarrow> call_keeps rd (if b then m else n)"
  "(\<And>x y. call_keeps rd (f x y)) \<Longrightarrow> call_keeps rd (case_prod f p)"
  "call_keeps rd m \<Longrightarrow> (\<And>x. call_keeps rd (g x)) \<Longrightarrow> call_keeps rd (case_option m g r)"
  "call_keeps rd (h z) \<Longrightarrow> call_keeps rd (Let z h)"
  by (simp_all split: prod.split option.split)

lemma keeps_locked: "call_keeps rd m \<Longrightarrow> call_keeps rd (locked env m)"
  by (simp add: call_keeps_def locked_def split: locking.split)

lemma keeps_looking:
  "call_keeps rd (dret x)" "call_keeps rd (dlift r)" "call_keeps rd (dget f)" "call_keeps rd (daemon_status env e)"
  "call_keeps rd (enrolled_on_disk env)" "call_keeps rd (daemon_issued env e after)" "call_keeps rd (\<lambda>d. (r' d, d))"
  by (rule keeps_same, simp add: dret_def dlift_def dget_def daemon_status_def enrolled_on_disk_def daemon_issued_def)+

lemma keeps_counted: "call_keeps rd m \<Longrightarrow> call_keeps rd (counted m)"
  unfolding counted_def by (intro keeps_bind keeps_looking)

text \<open>The enrolment stored and the listener refreshed, in one.\<close>

lemma keeps_enrolling:
  assumes "files_as rd wr env"
  shows "call_keeps rd (dbind (dlift (inside (de_write env))) (\<lambda>_.
    dbind (dset (\<lambda>d. d\<lparr> dn_file := Some (de_write_enrolled env e), dn_mode := Enrolled e, dn_client := c \<rparr>)) (\<lambda>_. refreshed env)))"
  unfolding call_keeps_def
proof (intro allI impI)
  fix d assume ok: "daemon_ok rd d"
  have "same_enrolment rd (d\<lparr> dn_file := Some (de_write_enrolled env e), dn_mode := Enrolled e, dn_client := c \<rparr>)"
    using assms by (simp add: same_enrolment_def files_as_def)
  from refresh_acme_ok [OF this] ok
  show "daemon_ok rd (snd (dbind (dlift (inside (de_write env))) (\<lambda>_.
    dbind (dset (\<lambda>d. d\<lparr> dn_file := Some (de_write_enrolled env e), dn_mode := Enrolled e, dn_client := c \<rparr>)) (\<lambda>_. refreshed env)) d))"
    by (simp add: dbind_def dlift_def dset_def refreshed_def split: sum.split)
qed

lemma keeps_storing:
  assumes "files_as rd wr env" "\<And>d. call_keeps rd f"
  shows "call_keeps rd (dbind (store_enrolled env e) (\<lambda>_. dbind (refreshed env) (\<lambda>_. f)))"
  unfolding call_keeps_def
proof (intro allI impI)
  fix d assume ok: "daemon_ok rd d"
  have "same_enrolment rd (d\<lparr> dn_file := Some (de_write_enrolled env e), dn_mode := Enrolled e \<rparr>)"
    using assms(1) by (simp add: same_enrolment_def files_as_def)
  from refresh_acme_ok [OF this] ok assms(2)
  show "daemon_ok rd (snd (dbind (store_enrolled env e) (\<lambda>_. dbind (refreshed env) (\<lambda>_. f)) d))"
    by (simp add: dbind_def dlift_def dset_def refreshed_def store_enrolled_def call_keeps_def split: sum.split)
qed

lemma keeps_enrol:
  assumes "files_as rd wr env"
  shows "call_keeps rd (enrol env e)"
proof -
  have "call_keeps rd (redeem_and_store env checked)" for checked
  proof -
    obtain code e root where checked: "checked = (code, e, root)" by (cases checked)
    have "call_keeps rd (dlift (Inl (refused_code r)) :: unit daemon_call)" for r by (rule keeps_looking)
    then show ?thesis
      unfolding redeem_and_store_def checked prod.case
      using keeps_enrolling [OF assms] by (intro keeps_bind keeps_looking) (simp split: redemption.split)
  qed
  then show ?thesis unfolding enrol_def by (intro keeps_bind keeps_looking keeps_locked)
qed

lemma keeps_store_chain: "files_as rd wr env \<Longrightarrow> call_keeps rd (store_chain env u)"
  unfolding store_chain_def Let_def by (intro keeps_bind keeps_looking keeps_cases keeps_storing)

lemma keeps_store_revocation: "files_as rd wr env \<Longrightarrow> call_keeps rd (store_revocation env)"
  unfolding store_revocation_def Let_def by (intro keeps_bind keeps_looking keeps_cases keeps_storing)

lemma keeps_store_pause: "files_as rd wr env \<Longrightarrow> call_keeps rd (store_pause env p)"
  unfolding store_pause_def Let_def by (intro keeps_bind keeps_looking keeps_cases keeps_storing)

definition watched_of :: "daemon \<Rightarrow> mode \<times> string option \<times> bool \<times> bool" where
  "watched_of d = (dn_mode d, dn_file d, dn_live d, dn_serving d)"

lemma refresh_crl_frame: "watched_of (snd (refresh_crl env force d)) = watched_of d"
proof -
  have "watched_of (snd (sign_crl env e subordinate d)) = watched_of d" for e subordinate
    by (auto simp: sign_crl_def Let_def watched_of_def next_crl_number_def locked_def dbind_def dlift_def dset_def
        split: sum.splits locking.splits prod.splits)
  then show ?thesis by (auto simp: refresh_crl_def split: mode.split sum.split list.split option.split)
qed

lemma watched_ok: "watched_of d' = watched_of d \<Longrightarrow> daemon_ok rd d' = daemon_ok rd d"
  by (simp add: watched_of_def daemon_ok_def same_enrolment_def serves_live_def cong: mode.case_cong)

lemma crl_turn_frame: "watched_of (crl_turn env d) = watched_of d"
proof -
  have server: "watched_of (d\<lparr> dn_server := s \<rparr>) = watched_of d" for d s by (simp add: watched_of_def)
  then show ?thesis
    using refresh_crl_frame by (auto simp: crl_turn_def Let_def split: prod.splits sum.splits) (metis snd_conv)+
qed

lemma keeps_framed: "(\<And>d. watched_of (snd (m d)) = watched_of d) \<Longrightarrow> call_keeps rd m"
  unfolding call_keeps_def by (blast intro: iffD2 [OF watched_ok])

lemma revoke_leaf_frame: "watched_of (snd (revoke_leaf env e serial reason d)) = watched_of d"
proof -
  have server: "watched_of (d\<lparr> dn_server := s \<rparr>) = watched_of d" for d s by (simp add: watched_of_def)
  have crl: "watched_of (snd (case refresh_crl env True (d\<lparr> dn_server := s \<rparr>) of
      (Inr _, d') \<Rightarrow> (Inr x, d') | (Inl err, d') \<Rightarrow> (Inr x, d'\<lparr> dn_server := (dn_server d')\<lparr> sv_stale := True \<rparr> \<rparr>))) = watched_of d" for d s x
  proof -
    obtain r d' where run: "refresh_crl env True (d\<lparr> dn_server := s \<rparr>) = (r, d')" by fastforce
    then have "watched_of d' = watched_of d" using refresh_crl_frame [of env True "d\<lparr> dn_server := s \<rparr>"] server by simp
    then show ?thesis by (cases r) (simp_all add: run server)
  qed
  show ?thesis
    by (simp add: revoke_leaf_def dbind_def dlift_def dret_def crl server split: sum.split prod.split store_error.split option.split)
qed

lemma keeps_serve:
  assumes "files_as rd wr env" "daemon_ok rd d"
  shows "daemon_ok rd (snd (serve_api env why peer c d))"
proof -
  have reply: "call_keeps rd m \<Longrightarrow> daemon_ok rd (snd (reply f m d))" for f :: "'x \<Rightarrow> api_reply" and m
    using assms(2) by (simp add: reply_def call_keeps_def split: prod.split sum.split) (metis snd_conv)
  have operator: "(\<And>e. call_keeps rd (m e)) \<Longrightarrow> daemon_ok rd (snd (as_operator peer (\<lambda>e. reply f (m e)) d))" for f :: "'x \<Rightarrow> api_reply" and m
    unfolding as_operator_def using assms(2) by (auto intro: reply split: option.split)
  note calls = keeps_counted keeps_locked keeps_bind keeps_looking keeps_enrol [OF assms(1)] keeps_store_chain [OF assms(1)]
    keeps_store_revocation [OF assms(1)] keeps_store_pause [OF assms(1)]
  show ?thesis
  proof (cases c)
    case (Post_Enrol body)
    then show ?thesis using assms(2) by (simp, intro impI reply calls)
  next
    case Post_Csr
    have "call_keeps rd (answer_csr env e)" for e unfolding answer_csr_def by (intro calls)
    then show ?thesis unfolding Post_Csr serve_api.simps by (rule operator)
  next
    case (Post_Revoke_Issued serial body)
    have "call_keeps rd (dbind (dlift (badly (de_read_revocation env body))) (\<lambda>r. revoke_leaf env e serial r))" for e
      by (intro calls keeps_framed revoke_leaf_frame)
    then show ?thesis unfolding Post_Revoke_Issued serve_api.simps by (rule operator)
  qed (use assms(2) in \<open>simp_all add: operator calls\<close>)
qed

lemma reload_runs:
  "snd (reload_locked env subordinate d) = d \<or>
   (\<exists>m client spki request. load_mode env d = Inr m \<and> snd (reload_locked env subordinate d) =
      (let d = snd (refresh_acme env (d\<lparr> dn_client := client, dn_spki := spki, dn_csr_pem := request, dn_mode := m \<rparr>))
       in d\<lparr> dn_server := (dn_server d)\<lparr> sv_stale := True \<rparr> \<rparr>))"
proof (cases "sbind subordinate (\<lambda>s. sbind (load_mode env d) (\<lambda>m. sbind (client_wanted env m) (\<lambda>client. Inr (s, m, client))))")
  case (Inl err)
  then show ?thesis by (simp add: reload_locked_def)
next
  case (Inr parts)
  obtain spki request m client where parts: "parts = ((spki, request), m, client)" by (metis prod.collapse)
  then have "load_mode env d = Inr m" using Inr by (auto simp: sbind_Inr_iff)
  moreover have "snd (reload_locked env subordinate d) =
      (let d = snd (refresh_acme env (d\<lparr> dn_client := client, dn_spki := spki, dn_csr_pem := request, dn_mode := m \<rparr>))
       in d\<lparr> dn_server := (dn_server d)\<lparr> sv_stale := True \<rparr> \<rparr>)"
    by (simp add: reload_locked_def Inr parts Let_def)
  ultimately show ?thesis by blast
qed

lemma keeps_reload:
  assumes "files_as rd wr env" "daemon_ok rd d"
  shows "daemon_ok rd (snd (reload_locked env subordinate d))"
  using reload_runs [of env subordinate d]
proof (elim disjE exE conjE)
  fix m client spki request
  assume m: "load_mode env d = Inr m" and run: "snd (reload_locked env subordinate d) =
      (let d = snd (refresh_acme env (d\<lparr> dn_client := client, dn_spki := spki, dn_csr_pem := request, dn_mode := m \<rparr>))
       in d\<lparr> dn_server := (dn_server d)\<lparr> sv_stale := True \<rparr> \<rparr>)"
  have "same_enrolment rd (d\<lparr> dn_client := client, dn_spki := spki, dn_csr_pem := request, dn_mode := m \<rparr>)"
    using m assms(1) by (auto simp: same_enrolment_def load_mode_def files_as_def split: option.splits sum.splits)
  from refresh_acme_ok [OF this]
  have "daemon_ok rd (snd (refresh_acme env (d\<lparr> dn_client := client, dn_spki := spki, dn_csr_pem := request, dn_mode := m \<rparr>)))" .
  then show ?thesis
    unfolding run Let_def by (rule watched_ok [THEN iffD2, rotated]) (simp add: watched_of_def)
qed (use assms(2) in simp)

lemma daemon_ok_step:
  assumes "daemon_step rd wr d d'" "daemon_ok rd d"
  shows "daemon_ok rd d'"
  using assms(1)
proof cases
  case (Api_Step env why peer c)
  then show ?thesis using keeps_serve assms(2) by blast
next
  case (Crl_Step env)
  then show ?thesis using watched_ok [OF crl_turn_frame] assms(2) by blast
next
  case (Reload_Step env subordinate)
  then show ?thesis using keeps_reload assms(2) by blast
next
  case (Refresh_Step env)
  then show ?thesis using refresh_acme_ok [of rd d env] assms(2) by (simp add: daemon_ok_def)
next
  case (Acme_Step s)
  then show ?thesis using assms(2) watched_ok [of d' d] by (simp add: watched_of_def)
next
  case Ended_Step
  then show ?thesis using assms(2) by (simp add: daemon_ok_def same_enrolment_def serves_live_def cong: mode.case_cong)
qed

lemma daemon_ok_steps: "(daemon_step rd wr)\<^sup>*\<^sup>* d d' \<Longrightarrow> daemon_ok rd d \<Longrightarrow> daemon_ok rd d'"
  by (induction rule: rtranclp_induct) (auto intro: daemon_ok_step)

text \<open>The daemon as it starts, before anything is served: the mode is the file's.\<close>

inductive daemon_reached :: "(string \<Rightarrow> string + enrolled) \<Rightarrow> (enrolled \<Rightarrow> string) \<Rightarrow> daemon \<Rightarrow> bool" for rd wr where
  Daemon_Starts: "same_enrolment rd d \<Longrightarrow> \<not> dn_serving d \<Longrightarrow> \<not> dn_live d \<Longrightarrow> files_as rd wr env
     \<Longrightarrow> daemon_reached rd wr (snd (refresh_acme env d))"
| Daemon_Goes: "daemon_reached rd wr d \<Longrightarrow> daemon_step rd wr d d' \<Longrightarrow> daemon_reached rd wr d'"

lemma daemon_reached_ok: "daemon_reached rd wr d \<Longrightarrow> daemon_ok rd d"
  by (induction rule: daemon_reached.induct) (auto intro: refresh_acme_ok daemon_ok_step)

section \<open>Revocation is final\<close>

definition revoked_daemon :: "(string \<Rightarrow> string + enrolled) \<Rightarrow> daemon \<Rightarrow> bool" where
  "revoked_daemon rd d \<longleftrightarrow> daemon_ok rd d \<and> (\<exists>e. dn_mode d = Enrolled e \<and> ed_revoked e)"

lemma revoked_refuses:
  assumes "revoked_daemon rd d" "files_as rd wr env"
  shows "snd (serve_api env why peer c d) = d"
    and "fst (serve_api env why peer c d) \<noteq> Csr_Reply x" "fst (serve_api env why peer c d) \<noteq> Issued_Reply y"
    and "c = Post_Pause \<or> c = Post_Resume \<or> (\<exists>body. c = Put_Chain body) \<Longrightarrow> fst (serve_api env why peer c d) \<noteq> Status_Reply z"
proof -
  obtain e where e: "dn_mode d = Enrolled e" "ed_revoked e" and disk: "load_mode env d = Inr (Enrolled e)"
    using assms by (auto simp: revoked_daemon_def daemon_ok_def same_enrolment_def load_mode_def files_as_def)
  have read: "enrolled_on_disk env d = (Inr e, d)" by (simp add: enrolled_on_disk_def disk)
  have refused: "refuse_if_revoked e = Inl \<lparr> eb_kind = Revoked_Kind, eb_message = ''the broker'' @ [CHR 0x27] @ ''s subordinate is revoked'' \<rparr>"
    by (simp add: refuse_if_revoked_def e(2))
  note work = reply_def dbind_def dlift_def dret_def counted_def dget_def locked_def read refused store_chain_def
    store_pause_def store_revocation_def answer_csr_def revoke_leaf_def daemon_status_def daemon_issued_def e
  consider "admits peer d = None" | "admits peer d = Some e" by (cases "peer = Some (ed_operator_pin e)") (simp_all add: admits_def e(1))
  then have "snd (serve_api env why peer c d) = d \<and> fst (serve_api env why peer c d) \<noteq> Csr_Reply x \<and> fst (serve_api env why peer c d) \<noteq> Issued_Reply y
    \<and> (c = Post_Pause \<or> c = Post_Resume \<or> (\<exists>body. c = Put_Chain body) \<longrightarrow> fst (serve_api env why peer c d) \<noteq> Status_Reply z)"
  proof cases
    case 1
    then show ?thesis by (cases c) (simp_all add: as_operator_def e offer_def)
  next
    case 2
    then show ?thesis
    proof (cases c)
      case (Post_Revoke_Issued serial body)
      then show ?thesis using 2 by (simp add: as_operator_def work split: sum.split)
    next
      case (Put_Chain body)
      then show ?thesis using 2 by (simp add: as_operator_def work split: sum.split locking.split)
    next
      case (Get_Issued q)
      then show ?thesis using 2 by (simp add: as_operator_def work split: sum.split)
    qed (simp_all add: as_operator_def work offer_def split: sum.split locking.split prod.split)
  qed
  then show "snd (serve_api env why peer c d) = d" "fst (serve_api env why peer c d) \<noteq> Csr_Reply x" "fst (serve_api env why peer c d) \<noteq> Issued_Reply y"
    "c = Post_Pause \<or> c = Post_Resume \<or> (\<exists>body. c = Put_Chain body) \<Longrightarrow> fst (serve_api env why peer c d) \<noteq> Status_Reply z"
    by blast+
qed

lemma revoked_step:
  assumes "daemon_step rd wr d d'" "revoked_daemon rd d"
  shows "revoked_daemon rd d'"
proof -
  obtain e where e: "dn_mode d = Enrolled e" "ed_revoked e" and ok: "daemon_ok rd d" using assms(2) by (auto simp: revoked_daemon_def)
  have ok': "daemon_ok rd d'" using daemon_ok_step [OF assms(1) ok] .
  have "dn_mode d' = Enrolled e"
    using assms(1)
  proof cases
    case (Api_Step env why peer c)
    then show ?thesis using revoked_refuses(1) [OF assms(2)] e by simp
  next
    case (Crl_Step env)
    then show ?thesis using crl_turn_frame [of env d] e by (simp add: watched_of_def)
  next
    case (Reload_Step env subordinate)
    have disk: "load_mode env d = Inr (Enrolled e)"
      using ok e Reload_Step by (auto simp: daemon_ok_def same_enrolment_def load_mode_def files_as_def)
    from reload_runs [of env subordinate d] show ?thesis
    proof (elim disjE exE conjE)
      fix m client spki request
      assume m: "load_mode env d = Inr m" and run: "snd (reload_locked env subordinate d) =
          (let d = snd (refresh_acme env (d\<lparr> dn_client := client, dn_spki := spki, dn_csr_pem := request, dn_mode := m \<rparr>))
           in d\<lparr> dn_server := (dn_server d)\<lparr> sv_stale := True \<rparr> \<rparr>)"
      obtain b d1 where "refresh_acme env (d\<lparr> dn_client := client, dn_spki := spki, dn_csr_pem := request, dn_mode := m \<rparr>) = (b, d1)" by fastforce
      note refreshed = this refresh_acme_live [OF this]
      show ?thesis using refreshed m disk run Reload_Step(1) by (simp add: Let_def)
    qed (use Reload_Step(1) e in simp)
  next
    case (Refresh_Step env)
    obtain b d1 where run: "refresh_acme env d = (b, d1)" by fastforce
    show ?thesis using refresh_acme_live [OF run] run e Refresh_Step(1) by simp
  qed (use e in simp_all)
  then show ?thesis using ok' e by (simp add: revoked_daemon_def)
qed

lemma revoked_steps: "(daemon_step rd wr)\<^sup>*\<^sup>* d d' \<Longrightarrow> revoked_daemon rd d \<Longrightarrow> revoked_daemon rd d'"
  by (induction rule: rtranclp_induct) (auto intro: revoked_step)

lemma revoking_revokes:
  assumes "files_as rd wr env" "daemon_ok rd d" "serve_api env why peer Post_Revoke d = (Status_Reply st, d')"
  shows "revoked_daemon rd d' \<and> st_state st = RevokedIssuer"
proof -
  obtain e where e: "dn_mode d = Enrolled e" "peer = Some (ed_operator_pin e)"
    using assms(3) by (cases "dn_mode d") (auto simp: as_operator_def admits_def split: if_splits)
  have disk: "enrolled_on_disk env d = (Inr e, d)"
    using assms(1,2) e(1) by (auto simp: daemon_ok_def same_enrolment_def load_mode_def files_as_def enrolled_on_disk_def)
  have had: "de_lock env = Lock_Had"
    using assms(3) e by (auto simp: as_operator_def admits_def reply_def counted_def dbind_def locked_def split: locking.splits)
  have status: "daemon_status env f d1 = (Inr s, d2) \<Longrightarrow> ed_revoked f \<Longrightarrow> d2 = d1 \<and> st_state s = RevokedIssuer" for f d1 s d2
  proof -
    assume run: "daemon_status env f d1 = (Inr s, d2)" and revoked: "ed_revoked f"
    obtain chain where chain: "inside (il_chain (de_issue env) (ed_chain_pem f)) = Inr chain" using run by (auto simp: daemon_status_def sbind_Inr_iff)
    show ?thesis using run chain revoked by (cases chain) (auto simp: daemon_status_def sbind_Inr_iff status_from_def)
  qed
  obtain s where s: "store_revocation env d = (Inr s, d')" "st_state st = st_state s"
    using assms(3) e had by (auto simp: as_operator_def admits_def reply_def counted_def dbind_def locked_def dget_def split: sum.splits prod.splits)
  have ok: "daemon_ok rd d'"
    using keeps_store_revocation [OF assms(1)] assms(2) s(1) unfolding call_keeps_def by (metis snd_conv)
  show ?thesis
  proof (cases "ed_revoked e")
    case True
    then have "daemon_status env e d = (Inr s, d')" using s(1) by (simp add: store_revocation_def dbind_def disk)
    then show ?thesis using status True ok e(1) s(2) by (fastforce simp: revoked_daemon_def)
  next
    case False
    let ?e = "e\<lparr> ed_revoked := True \<rparr>"
    let ?d = "d\<lparr> dn_file := Some (de_write_enrolled env ?e), dn_mode := Enrolled ?e \<rparr>"
    have "daemon_status env ?e (snd (refresh_acme env ?d)) = (Inr s, d')"
      using s(1) False
      by (simp add: store_revocation_def dbind_def disk Let_def store_enrolled_def dlift_def dset_def refreshed_def split: sum.splits)
    from status [OF this] have d': "d' = snd (refresh_acme env ?d)" "st_state s = RevokedIssuer" by simp_all
    obtain b d1 where run: "refresh_acme env ?d = (b, d1)" by fastforce
    have "dn_mode d' = Enrolled ?e" using refresh_acme_live [OF run] d'(1) run by simp
    then show ?thesis using ok d'(2) s(2) by (auto simp: revoked_daemon_def)
  qed
qed

section \<open>An example\<close>

text \<open>An enrolment as a text: its fields as a list of texts, numbers in unary.\<close>

definition challenge_mark :: "challenge_type \<Rightarrow> string" where
  "challenge_mark c = (case c of Http01 \<Rightarrow> ''h'' | Dns01 \<Rightarrow> ''d'' | TlsAlpn01 \<Rightarrow> ''t'')"

definition challenge_marked :: "string \<Rightarrow> challenge_type" where
  "challenge_marked s = (if s = ''h'' then Http01 else if s = ''d'' then Dns01 else TlsAlpn01)"

definition write_enrolled :: "enrolled \<Rightarrow> string" where
  "write_enrolled e = write_texts
     [ed_chain_pem e, ed_operator_pin e, write_texts (ic_permitted_domains (ed_config e)), replicate (ic_leaf_days (ed_config e)) CHR ''x'',
      replicate (ic_leaf_max_days (ed_config e)) CHR ''x'', write_texts (map challenge_mark (ic_challenges (ed_config e))), ed_api_pin e,
      if ed_revoked e then ''x'' else [], if ed_paused e then ''x'' else [],
      case ed_issuers e of None \<Rightarrow> [] | Some serials \<Rightarrow> CHR ''x'' # write_texts serials]"

definition read_enrolled :: "string \<Rightarrow> string + enrolled" where
  "read_enrolled t =
     (case split_texts [] t of
        [chain, pin, domains, days, longest, challenges, api, revoked, paused, issuers] \<Rightarrow>
          Inr \<lparr> ed_chain_pem = chain, ed_operator_pin = pin,
            ed_config = \<lparr> ic_permitted_domains = split_texts [] domains, ic_leaf_days = length days, ic_leaf_max_days = length longest,
              ic_challenges = map challenge_marked (split_texts [] challenges) \<rparr>,
            ed_api_pin = api, ed_revoked = (revoked \<noteq> []), ed_paused = (paused \<noteq> []),
            ed_issuers = (case issuers of [] \<Rightarrow> None | _ # serials \<Rightarrow> Some (split_texts [] serials)) \<rparr>
      | _ \<Rightarrow> Inl ''not an enrolment'')"

lemma enrolled_reads_back: "read_enrolled (write_enrolled e) = Inr e"
proof -
  have "map challenge_marked (map challenge_mark cs) = cs" for cs
    by (induction cs) (auto simp: challenge_mark_def challenge_marked_def split: challenge_type.split)
  then show ?thesis
    by (cases "ed_issuers e") (simp_all add: read_enrolled_def write_enrolled_def write_texts_back)
qed

definition example_files_env :: daemon_env where
  "example_files_env = example_daemon_env\<lparr> de_read_enrolled := read_enrolled, de_write_enrolled := write_enrolled,
     de_issue := example_issue_lib\<lparr> il_chain := (\<lambda>t. Inr [[1], [2]]) \<rparr>,
     de_inspect := (\<lambda>der. Inr \<lparr> vw_spki = [], vw_serial = [], vw_not_before = 0, vw_not_after = 0, vw_ca = True, vw_self_signed = False,
       vw_issuer = [], vw_subject = [], vw_sans = [], vw_permitted = None \<rparr>),
     de_sign_crl := (\<lambda>key n t u revoked. Inr []) \<rparr>"

definition example_started :: daemon where
  "example_started = snd (refresh_acme example_files_env (example_daemon\<lparr> dn_file := Some (write_enrolled example_enrolled) \<rparr>))"

lemma example_files: "files_as read_enrolled write_enrolled example_files_env"
  by (simp add: files_as_def example_files_env_def enrolled_reads_back)

lemma example_started_reached: "daemon_reached read_enrolled write_enrolled example_started"
  unfolding example_started_def
  by (intro Daemon_Starts example_files) (simp_all add: same_enrolment_def example_daemon_def enrolled_reads_back)

lemma example_started_mode: "dn_mode example_started = Enrolled example_enrolled" "dn_file example_started = Some (write_enrolled example_enrolled)"
proof -
  obtain b d where run: "refresh_acme example_files_env (example_daemon\<lparr> dn_file := Some (write_enrolled example_enrolled) \<rparr>) = (b, d)" by fastforce
  show "dn_mode example_started = Enrolled example_enrolled" "dn_file example_started = Some (write_enrolled example_enrolled)"
    using refresh_acme_live [OF run] by (simp_all add: example_started_def run example_before)
qed

lemma example_revoke_call: "\<exists>st d'. serve_api example_files_env why (Some ''pin'') Post_Revoke example_started = (Status_Reply st, d')"
proof -
  have env: "de_lock example_files_env = Lock_Had" "de_write example_files_env = Inr ()" "il_chain (de_issue example_files_env) t = Inr [[1], [2]]"
    "\<exists>v. de_inspect example_files_env der = Inr v" "de_read_enrolled example_files_env = read_enrolled" for t der
    by (simp_all add: example_files_env_def example_daemon_env_def)
  obtain v where view: "de_inspect example_files_env [1] = Inr v" using env(4) by blast
  show ?thesis
    by (auto simp: as_operator_def example_admits example_started_mode reply_def counted_def dbind_def locked_def env store_revocation_def
        enrolled_on_disk_def load_mode_def enrolled_reads_back example_enrolled_parts Let_def store_enrolled_def dlift_def dset_def refreshed_def
        inside_def daemon_status_def sbind_def view dget_def split: prod.splits)
qed

section \<open>Guarantees\<close>

text \<open>
  C8: A revocation of the broker is final: once opCA's call is answered with a status, no run of API calls,
  reloads, restarts and CRL turns serves ACME or the CRL again, signs a request, revokes a leaf, or takes
  another chain, and a pause or its end is refused.
\<close>

theorem revocation_is_final:
  assumes "daemon_reached rd wr d" "files_as rd wr env" "files_as rd wr env'"
    and "serve_api env why peer Post_Revoke d = (Status_Reply st, d')" "(daemon_step rd wr)\<^sup>*\<^sup>* d' d''"
  shows "st_state st = RevokedIssuer \<and> \<not> dn_serving d'' \<and> crl_served d'' = None
    \<and> (\<forall>why' peer' c. snd (serve_api env' why' peer' c d'') = d''
        \<and> (\<forall>x. fst (serve_api env' why' peer' c d'') \<noteq> Csr_Reply x) \<and> (\<forall>y. fst (serve_api env' why' peer' c d'') \<noteq> Issued_Reply y)
        \<and> (c = Post_Pause \<or> c = Post_Resume \<or> (\<exists>body. c = Put_Chain body) \<longrightarrow> (\<forall>z. fst (serve_api env' why' peer' c d'') \<noteq> Status_Reply z)))"
proof -
  have revoked: "revoked_daemon rd d'" "st_state st = RevokedIssuer"
    using revoking_revokes [OF assms(2) daemon_reached_ok [OF assms(1)] assms(4)] by simp_all
  from revoked_steps [OF assms(5) this(1)] have later: "revoked_daemon rd d''" .
  then have "\<not> dn_serving d''" "\<not> dn_live d''"
    by (auto simp: revoked_daemon_def daemon_ok_def serves_live_def live_mode_def)
  then show ?thesis
    using revoked(2) revoked_refuses [OF later assms(3)] by (auto simp: crl_served_def)
qed


text \<open>
  C13: The API is the operator's: who presents another key than the enrolled one gets the answer of a path
  that does not exist and changes nothing; while enrolling there are the offer and the enrolment only.
\<close>

theorem api_is_the_operators:
  assumes "fst (serve_api env why peer c d) \<noteq> No_Route \<or> snd (serve_api env why peer c d) \<noteq> d"
  shows "(\<exists>e. dn_mode d = Enrolled e \<and> peer = Some (ed_operator_pin e) \<and> c \<noteq> Get_Offer \<and> (\<forall>body. c \<noteq> Post_Enrol body))
    \<or> dn_mode d = Enrolling \<and> (c = Get_Offer \<or> (\<exists>body. c = Post_Enrol body))"
  using assms
  by (cases "dn_mode d"; cases c) (auto simp: as_operator_def admits_def offer_def split: if_splits)

theorem revocation_is_final_witness:
  "\<exists>st d'. serve_api example_files_env (\<lambda>s. s) (Some ''pin'') Post_Revoke example_started = (Status_Reply st, d')
     \<and> st_state st = RevokedIssuer \<and> \<not> dn_serving (crl_turn example_files_env d') \<and> crl_served (crl_turn example_files_env d') = None"
proof -
  obtain st d' where run: "serve_api example_files_env (\<lambda>s. s) (Some ''pin'') Post_Revoke example_started = (Status_Reply st, d')"
    using example_revoke_call by blast
  have "(daemon_step read_enrolled write_enrolled)\<^sup>*\<^sup>* d' (crl_turn example_files_env d')"
    using Crl_Step [OF example_files] by (rule r_into_rtranclp)
  from revocation_is_final [OF example_started_reached example_files example_files run this] run show ?thesis by blast
qed


theorem api_is_the_operators_witness:
  "\<exists>e. dn_mode example_daemon = Enrolled e \<and> Some ''pin'' = Some (ed_operator_pin e)"
proof -
  have "fst (serve_api example_daemon_env (\<lambda>s. s) (Some ''pin'') (Get_Issued (Some ''after=0'')) (example_daemons 0)) \<noteq> No_Route"
    using example_pages [of 0] by (auto simp: example_serve_def)
  then show ?thesis
    using api_is_the_operators [of example_daemon_env "\<lambda>s. s" "Some ''pin''" "Get_Issued (Some ''after=0'')" "example_daemons 0"]
    by (auto simp: example_daemons_def example_before)
qed

end
