(* ===== verification/Broker_Crl.thy ===== *)
theory Broker_Crl
  imports Broker_Promises
begin

text \<open>
  The CRL the broker publishes: a leaf revoked through the API is on it, or its signing stays due until it is.
\<close>

section \<open>What a CRL lists\<close>

text \<open>The published CRL was signed over a list with the certificate's serial.\<close>

definition crl_lists :: "daemon_env \<Rightarrow> daemon \<Rightarrow> string \<Rightarrow> bool" where
  "crl_lists env d serial \<longleftrightarrow>
     (\<exists>subordinate number from till revoked crl r. dn_crl_file d = Some crl \<and> de_sign_crl env subordinate number from till revoked = Inr crl
        \<and> r \<in> set revoked \<and> de_serial env serial = Inr (rv_serial r))"

text \<open>A row the CRL must list: revoked, of the enrolment's subordinates, and not expired.\<close>

definition must_list :: "daemon_env \<Rightarrow> enrolled \<Rightarrow> leaf_row \<Rightarrow> bool" where
  "must_list env e q \<longleftrightarrow>
     lf_revoked_at q \<noteq> None \<and> lf_not_after q > al_format (de_store env) (al_now (de_store env)) \<and> issued_by (ed_issuers e) q"

lemma revocations_each: "revocations env ls = Inr rs \<Longrightarrow> l \<in> set ls \<Longrightarrow> \<exists>r \<in> set rs. revocation_of env l = Inr r"
  by (induction ls arbitrary: rs) (auto simp: sbind_Inr_iff)

lemma list_all2_left: "list_all2 P xs ys \<Longrightarrow> x \<in> set xs \<Longrightarrow> \<exists>y \<in> set ys. P x y"
  by (induction rule: list_all2_induct) auto

lemma tbl_keyed_count:
  assumes "tbl_keyed key rows" "q \<in> set rows" "P q"
  shows "tbl_count (\<lambda>r. key r = key q \<and> P r) rows = 1"
proof -
  have "filter (\<lambda>r. key r = key q \<and> P r) rows = filter (\<lambda>r. key r = key q) rows"
    using assms by (intro filter_cong) (auto simp: tbl_keyed_def distinct_map dest: inj_onD)
  then show ?thesis using tbl_count_key [OF assms(1), of "key q"] assms(2) by (simp add: tbl_count_def)
qed

lemma leaf_read_error: "leaf_of_row lib r = Inl err \<Longrightarrow> err \<noteq> Already_Revoked x"
  by (auto simp: leaf_of_row_def sbind_def unreadable_def read_time_def optional_time_def split: sum.splits option.splits)

lemma sign_crl_lists:
  assumes "sign_crl env e subordinate d = (Inr (), d')" "q \<in> set (leaves_of d)" "must_list env e q"
  shows "crl_lists env d' (lf_serial q)"
proof -
  let ?now = "al_now (de_store env)"
  let ?db = "sv_db (dn_server d)"
  obtain leaves where leaves: "revoked_unexpired (de_store env) (ed_issuers e) ?now ?db = Inr leaves"
    using assms(1) by (cases "revoked_unexpired (de_store env) (ed_issuers e) ?now ?db") (simp_all add: sign_crl_def Let_def)
  obtain revoked where revoked: "revocations env leaves = Inr revoked"
    using assms(1) leaves by (cases "revocations env leaves") (simp_all add: sign_crl_def Let_def)
  obtain number db' where next_number: "next_crl_number ?db = (number, db')" by fastforce
  note run = assms(1) [unfolded sign_crl_def Let_def leaves map_sum.simps sum.case revoked next_number prod.case]
  obtain crl where signed: "sbind (de_signer env) (\<lambda>_. de_sign_crl env subordinate number (?now - backdate) (?now - backdate + crl_life) revoked) = Inr crl"
    using run revoked by (cases "sbind (de_signer env) (\<lambda>_. de_sign_crl env subordinate number (?now - backdate) (?now - backdate + crl_life) revoked)") simp_all
  then have crl: "de_sign_crl env subordinate number (?now - backdate) (?now - backdate + crl_life) revoked = Inr crl"
    by (auto simp: sbind_Inr_iff)
  let ?saving = "dbind (dlift (inside (de_write env))) (\<lambda>_. dset (\<lambda>d. d\<lparr> dn_ca_file := Some subordinate, dn_crl_file := Some crl \<rparr>))"
  obtain w where w: "locked env ?saving (d\<lparr> dn_server := (dn_server d)\<lparr> sv_db := db' \<rparr> \<rparr>) = (Inr w, d')"
  proof -
    have "(case locked env ?saving (d\<lparr> dn_server := (dn_server d)\<lparr> sv_db := db' \<rparr> \<rparr>) of
        (Inl err, d') \<Rightarrow> (Inl (eb_message err), d') | (Inr _, d') \<Rightarrow> (Inr (), d')) = (Inr (), d')"
      using run by (simp only: revoked signed sum.case id_apply)
    then show ?thesis
      using that by (cases "locked env ?saving (d\<lparr> dn_server := (dn_server d)\<lparr> sv_db := db' \<rparr> \<rparr>)"; cases "fst (locked env ?saving (d\<lparr> dn_server := (dn_server d)\<lparr> sv_db := db' \<rparr> \<rparr>))") auto
  qed
  then have published: "dn_crl_file d' = Some crl"
    by (cases "de_lock env"; cases "de_write env") (auto simp: locked_def dbind_def dlift_def dset_def inside_def)
  have due: "q \<in> set (filter (\<lambda>r. lf_revoked_at r \<noteq> None \<and> lf_not_after r > al_format (de_store env) ?now \<and> issued_by (ed_issuers e) r) (d_leaves ?db))"
    using assms(2,3) by (simp add: leaves_of_def must_list_def)
  obtain l where l: "l \<in> set leaves" "leaf_of_row (de_store env) q = Inr l"
    using list_all2_left [OF leaves [unfolded revoked_unexpired_def smap_all_each] due] by blast
  obtain r where "r \<in> set revoked" "revocation_of env l = Inr r" using revocations_each [OF revoked l(1)] by blast
  moreover from this have "de_serial env (lf_serial q) = Inr (rv_serial r)"
    using l(2) by (auto simp: revocation_of_def sbind_Inr_iff leaf_of_row_def split: option.splits)
  ultimately show ?thesis using crl published unfolding crl_lists_def by blast
qed

lemma refresh_crl_lists:
  assumes "refresh_crl env True d = (Inr (), d')" "dn_mode d = Enrolled e" "\<not> ed_revoked e" "q \<in> set (leaves_of d)" "must_list env e q"
  shows "crl_lists env d' (lf_serial q)"
  using assms sign_crl_lists by (auto simp: refresh_crl_def split: sum.splits list.splits option.splits)

text \<open>The revocation of a leaf that was not revoked: its row as it is then, and the signing that follows.\<close>

lemma revoke_leaf_fresh:
  assumes "revoke_leaf env e serial reason d = (Inr c, d')" "leaves_ok (sv_db (dn_server d))"
    and "q \<in> set (leaves_of d)" "lf_serial q = serial" "lf_revoked_at q = None"
  shows "\<exists>q' d1 r d2. q' \<in> set (leaves_of d1) \<and> lf_serial q' = serial \<and> lf_revoked_at q' \<noteq> None \<and> lf_not_after q' = lf_not_after q
    \<and> issued_by (ed_issuers e) q' \<and> dn_mode d1 = dn_mode d \<and> refresh_crl env True d1 = (r, d2)
    \<and> d' = (case r of Inr _ \<Rightarrow> d2 | Inl _ \<Rightarrow> d2\<lparr> dn_server := (dn_server d2)\<lparr> sv_stale := True \<rparr> \<rparr>)"
proof -
  let ?db = "sv_db (dn_server d)"
  note step = assms(1) [unfolded revoke_leaf_def dbind_def dlift_def]
  have ok: "refuse_if_revoked e = Inr ()" "reason \<in> set revocation_reasons"
    using step by (auto split: sum.splits if_splits)
  note step = step [unfolded ok(1)]
  obtain row where row: "certificate_by_serial (de_store env) serial ?db = Inr row"
    using step ok(2) by (cases "certificate_by_serial (de_store env) serial ?db") (simp_all add: stored_inside_def inside_def)
  obtain l where l: "row = Some l" "case ed_issuers e of None \<Rightarrow> True | Some issuers \<Rightarrow> l_issuer_serial l \<in> set issuers"
    using step ok(2) by (cases row) (auto simp: row stored_inside_def inside_def split: if_splits)
  have mine: "(case ed_issuers e of None \<Rightarrow> True | Some issuers \<Rightarrow> l_issuer_serial l \<in> set issuers) = True" using l(2) by simp
  obtain r where r: "r \<in> set (leaves_of d)" "lf_serial r = serial" "leaf_of_row (de_store env) r = Inr l"
    using found_by_serial [of "de_store env" serial ?db l] row l(1) by (auto simp: leaves_of_def)
  have "r = q" using assms(2-4) r(1,2) by (auto simp: leaves_ok_def tbl_keyed_def leaves_of_def distinct_map dest: inj_onD)
  then have unrevoked: "l_revoked_at l = None" and by_q: "issued_by (ed_issuers e) q"
    using r(3) assms(5) issuer_matches [OF r(3)] l(2) by (auto simp: leaf_of_row_def sbind_Inr_iff optional_time_def)
  let ?how = "if reason = 0 then None else Some reason"
  let ?q = "q\<lparr> lf_revoked_at := Some (now_text (de_store env)), lf_reason := ?how, lf_changed := next_change ?db \<rparr>"
  show ?thesis
  proof (cases "store_revoke (de_store env) serial ?how ?db")
    case (Inl err)
    have other: "\<forall>x. err \<noteq> Already_Revoked x"
    proof (intro allI notI)
      fix x assume "err = Already_Revoked x"
      then have "tbl_count (\<lambda>r. lf_serial r = serial \<and> lf_revoked_at r = None) (d_leaves ?db) \<noteq> 1"
        using Inl leaf_read_error
        by (auto simp: store_revoke_def Let_def sbind_def split: if_splits option.splits sum.splits)
      moreover have "tbl_count (\<lambda>r. lf_serial r = serial \<and> lf_revoked_at r = None) (d_leaves ?db) = 1"
        using tbl_keyed_count [of lf_serial "d_leaves ?db" q "\<lambda>r. lf_revoked_at r = None"] assms(2-5) by (simp add: leaves_ok_def leaves_of_def)
      ultimately show False by simp
    qed
    then show ?thesis
      using Inl step ok(2) row l(1) unrevoked by (cases err) (auto simp: mine stored_inside_def inside_def)
  next
    case (Inr revoked_db)
    obtain revoked db where rd: "revoked_db = (revoked, db)" by fastforce
    let ?d1 = "d\<lparr> dn_server := (dn_server d)\<lparr> sv_db := db \<rparr> \<rparr>"
    obtain crl_result d2 where crl: "refresh_crl env True ?d1 = (crl_result, d2)" by fastforce
    have "?q \<in> set (d_leaves db)"
      using store_revoke_effect(1) [OF Inr [unfolded rd]] assms(3-5) by (auto simp: leaf_revoked_def tbl_update_def leaves_of_def intro!: rev_image_eqI [of q])
    moreover have "issued_by (ed_issuers e) ?q" using by_q by (simp add: issued_by_def split: option.splits)
    moreover have "d' = (case crl_result of Inr _ \<Rightarrow> d2 | Inl _ \<Rightarrow> d2\<lparr> dn_server := (dn_server d2)\<lparr> sv_stale := True \<rparr> \<rparr>)"
      using step ok(2) row l(1) unrevoked by (cases crl_result) (simp_all add: mine stored_inside_def inside_def Inr rd crl)
    ultimately show ?thesis
      using crl assms(4) by (intro exI [of _ ?q] exI [of _ ?d1] exI [of _ crl_result] exI [of _ d2]) (simp add: leaves_of_def)
  qed
qed

lemma example_expiry:
  "\<exists>q. d_leaves example_db = [q] \<and> lf_serial q = ''77'' \<and> lf_revoked_at q = None \<and> lf_not_after q = int_to_string 9"
  by (simp add: example_db_def example_simps)



end
