(* ===== verification/Broker_Terms.thy ===== *)
theory Broker_Terms
  imports Broker_Crl
begin

text \<open>
  The terms of an enrolment and what is issued under them: every name on a leaf is within the name
  constraints of the subordinate that signs it.
\<close>

text \<open>A host within a DNS subtree of a name constraint: its name, or a name under it.\<close>

definition in_subtree :: "string \<Rightarrow> name_subtree \<Rightarrow> bool" where
  "in_subtree host t =
     (case t of Dns_Subtree n \<Rightarrow> host = to_ascii_lowercase n \<or> ends_with (''.'' @ to_ascii_lowercase n) host | Other_Subtree \<Rightarrow> False)"

lemma constrained_subtree:
  "D \<in> constrained_domains v \<longleftrightarrow> (\<exists>subtrees n. vw_permitted v = Some subtrees \<and> Dns_Subtree n \<in> set subtrees \<and> D = to_ascii_lowercase n)"
  by (auto simp: constrained_domains_def List.map_filter_def split: option.splits name_subtree.splits) (force split: name_subtree.splits)+

lemma within_constraints:
  assumes "check_config env config v = Inr ()" "host_within host (ic_permitted_domains config)"
  shows "\<exists>subtrees. vw_permitted v = Some subtrees \<and> (\<exists>t \<in> set subtrees. in_subtree (to_ascii_lowercase (trim_end_matches CHR ''.'' host)) t)"
proof -
  let ?host = "to_ascii_lowercase (trim_end_matches CHR ''.'' host)"
  obtain D where D: "D \<in> lowercase_set (ic_permitted_domains config)" "?host = D \<or> ends_with (''.'' @ D) ?host"
    using assms(2) by (auto simp: host_within_def Let_def list_ex_iff lowercase_set_def)
  have "lowercase_set (ic_permitted_domains config) = constrained_domains v"
    using assms(1) by (auto simp: check_config_def Let_def split: if_splits)
  then obtain subtrees n where "vw_permitted v = Some subtrees" "Dns_Subtree n \<in> set subtrees" "D = to_ascii_lowercase n"
    using D(1) constrained_subtree by blast
  then show ?thesis using D(2) by (intro exI [of _ subtrees]) (auto simp: in_subtree_def intro!: bexI [of _ "Dns_Subtree n"])
qed

lemma check_chain_views:
  assumes "check_chain env d t = Inr (v, root)"
  shows "\<exists>chain. il_chain (de_issue env) t = Inr chain \<and> chain \<noteq> [] \<and> butlast chain \<noteq> [] \<and> de_inspect env (hd chain) = Inr v \<and> root = last chain"
proof -
  obtain chain where chain: "il_chain (de_issue env) t = Inr chain" using assms by (auto simp: check_chain_def sbind_Inr_iff badly_def map_sum_Inr)
  moreover have "\<not> length chain < 2" using assms chain by (auto simp: check_chain_def sbind_def badly_def)
  moreover from this have "chain \<noteq> []" "butlast chain \<noteq> []" by (cases chain; auto)+
  moreover have "de_inspect env (hd chain) = Inr v \<and> root = last chain"
    using assms chain by (auto simp: check_chain_def sbind_Inr_iff badly_def map_sum_Inr Let_def split: if_splits)
  ultimately show ?thesis by blast
qed

lemma issuer_parts:
  "issuer_new lib t config = Inr i \<Longrightarrow> il_chain lib t = Inr chain \<Longrightarrow> is_config i = config \<and> (\<exists>c cs. butlast chain = c # cs \<and> is_subordinate i = c)"
  by (auto simp: issuer_new_def sbind_Inr_iff Let_def split: list.splits)

text \<open>
  C11: A leaf issued under an enrolment that was accepted names only hosts within the DNS name constraints of
  the subordinate certificate it is signed with: a permitted domain, or a name or wildcard under one.
\<close>

theorem leaf_within_name_constraints:
  assumes "check_enrolment env d en = Inr (code, e, root)"
    and "issuer_new (de_issue env) (ed_chain_pem e) (ed_config e) = Inr i" "self = i \<or> self = published_at origin i"
    and "issue_leaf lib self ord csr_der account_key now = Inr new"
  shows "\<exists>view subtrees. de_inspect env (is_subordinate self) = Inr view \<and> vw_permitted view = Some subtrees
    \<and> (\<forall>name \<in> set (nl_sans new). \<exists>t \<in> set subtrees. in_subtree (to_ascii_lowercase (trim_end_matches CHR ''.'' (name_base name))) t)"
proof -
  obtain v where v: "check_chain env d (en_chain_pem en) = Inr (v, root)" "check_config env (en_config en) v = Inr ()"
    and e: "ed_chain_pem e = en_chain_pem en" "ed_config e = en_config en"
    using assms(1) by (auto simp: check_enrolment_def sbind_Inr_iff split: option.splits if_splits)
  obtain chain where chain: "il_chain (de_issue env) (en_chain_pem en) = Inr chain" "butlast chain \<noteq> []" "de_inspect env (hd chain) = Inr v"
    using check_chain_views [OF v(1)] by blast
  have "is_config i = en_config en" "is_subordinate i = hd chain"
    using issuer_parts [OF assms(2)] chain(1,2) e by (cases chain; auto split: if_splits)+
  then have self: "is_config self = en_config en" "is_subordinate self = hd chain"
    using assms(3) by (auto simp: published_at_def)
  have "host_within (name_base name) (ic_permitted_domains (en_config en))" if "name \<in> set (nl_sans new)" for name
    using issue_names_facts(6) [OF assms(4)] that self(1) by auto
  then have "\<exists>subtrees. vw_permitted v = Some subtrees \<and> (\<exists>t \<in> set subtrees. in_subtree (to_ascii_lowercase (trim_end_matches CHR ''.'' (name_base name))) t)"
    if "name \<in> set (nl_sans new)" for name using within_constraints [OF v(2)] that by blast
  moreover have "nl_sans new \<noteq> []" using issue_names_facts(3) [OF assms(4)] .
  ultimately show ?thesis using chain(3) self(2) by (cases "vw_permitted v") (fastforce simp: neq_Nil_conv)+
qed

section \<open>An example\<close>

definition example_view :: "bytes \<Rightarrow> certificate_view" where
  "example_view der = \<lparr> vw_spki = [], vw_serial = ''5'', vw_not_before = 0, vw_not_after = 1000, vw_ca = True, vw_self_signed = (der = [6]),
     vw_issuer = ''root'', vw_subject = ''root'', vw_sans = [], vw_permitted = Some [Dns_Subtree ''test''] \<rparr>"

definition example_terms_env :: daemon_env where
  "example_terms_env = example_daemon_env\<lparr> de_config := \<lparr> dc_host = ''home.test'', dc_domains = [], dc_api_pin = [], dc_pki_origin = [],
       dc_issued_page = 10, dc_version = [] \<rparr>,
     de_issue := example_issue_lib, de_inspect := (\<lambda>der. Inr (example_view der)), de_pairing_code := Some \<rparr>"

definition example_enrolment :: enrolment where
  "example_enrolment = \<lparr> en_code = ''code'', en_chain_pem = ''chain'', en_operator_pin = replicate 64 CHR ''a'', en_config = is_config example_issuer \<rparr>"

lemma example_terms:
  "\<exists>e. check_enrolment example_terms_env example_daemon example_enrolment = Inr (''code'', e, [6])
     \<and> issuer_new (de_issue example_terms_env) (ed_chain_pem e) (ed_config e) = Inr example_issuer"
proof -
  have env: "il_chain (de_issue example_terms_env) t = Inr [[5], [6]]" "de_inspect example_terms_env der = Inr (example_view der)"
    "al_now (de_store example_terms_env) = 7" "de_pairing_code example_terms_env = Some" for t der
    by (simp_all add: example_terms_env_def example_daemon_env_def example_issue_lib_def example_lib_def)
  have chain: "check_chain example_terms_env example_daemon t = Inr (example_view [5], [6])" for t
    by (simp add: check_chain_def env sbind_def badly_def example_view_def example_daemon_def)
  have "to_ascii_lowercase ''test'' = ''test''" by code_simp
  then have config: "check_config example_terms_env (is_config example_issuer) (example_view [5]) = Inr ()"
    by (simp add: check_config_def lowercase_set_def constrained_domains_def example_issuer_def example_view_def example_terms_env_def
        example_host List.map_filter_def)
  have pin: "is_pin (replicate 64 CHR ''a'')" by (simp add: is_pin_def list_all_iff)
  have "decimal ''5'' = ''5''" by code_simp
  then have issuer: "issuer_new (de_issue example_terms_env) t (is_config example_issuer) = Inr example_issuer" for t
    by (simp add: issuer_new_def example_terms_env_def example_issue_lib_def example_issuer_def sbind_def)
  show ?thesis
    by (simp add: check_enrolment_def env example_enrolment_def pin chain config sbind_def issuer)
qed

theorem leaf_within_name_constraints_witness:
  "\<exists>new. issue_leaf example_issue_lib example_issuer example_ready_order [1] [9] day_ns = Inr new \<and> set (nl_sans new) = {''home.test''}
    \<and> (\<forall>name \<in> set (nl_sans new). \<exists>t \<in> set [Dns_Subtree ''test'']. in_subtree (to_ascii_lowercase (trim_end_matches CHR ''.'' (name_base name))) t)"
proof -
  obtain e where e: "check_enrolment example_terms_env example_daemon example_enrolment = Inr (''code'', e, [6])"
    "issuer_new (de_issue example_terms_env) (ed_chain_pem e) (ed_config e) = Inr example_issuer" using example_terms by blast
  obtain new where new: "issue_leaf example_issue_lib example_issuer example_ready_order [1] [9] day_ns = Inr new" using example_issues by blast
  have "set (nl_sans new) = {''home.test''}" using issue_names_facts(2) [OF new] by (simp add: example_ready_order_def example_host)
  then show ?thesis
    using new leaf_within_name_constraints [OF e disjI1 [OF refl] new]
    by (auto simp: example_terms_env_def example_view_def)
qed

end
