(* ===== verification/Broker_Calendar.thy ===== *)
theory Broker_Calendar
  imports Broker_Enrolment
begin

text \<open>
  The calendar of \<^verbatim>\<open>rfc_3339\<close>: the arithmetic of \<^verbatim>\<open>civil_from_days\<close> against a reference that walks the
  proleptic Gregorian calendar day by day.
\<close>

section \<open>The reference\<close>

definition leap_year :: "int \<Rightarrow> bool" where
  "leap_year y \<longleftrightarrow> 4 dvd y \<and> (\<not> 100 dvd y \<or> 400 dvd y)"

definition month_length :: "int \<Rightarrow> int \<Rightarrow> int" where
  "month_length y m = (if m = 2 then (if leap_year y then 29 else 28) else if m \<in> {4, 6, 9, 11} then 30 else 31)"

definition next_day :: "int \<times> int \<times> int \<Rightarrow> int \<times> int \<times> int" where
  "next_day = (\<lambda>(y, m, d). if d < month_length y m then (y, m, d + 1) else if m < 12 then (y, m + 1, 1) else (y + 1, 1, 1))"

section \<open>Years that begin in March\<close>

text \<open>Day \<open>doy\<close> of the year that begins on 1 March of year \<open>y\<close>.\<close>

definition march_date :: "int \<Rightarrow> int \<Rightarrow> int \<times> int \<times> int" where
  "march_date y doy =
     (let shifted_month = (5 * doy + 2) div 153;
          day = doy - (153 * shifted_month + 2) div 5 + 1;
          month = if shifted_month < 10 then shifted_month + 3 else shifted_month - 9
      in (y + (if month \<le> 2 then 1 else 0), month, day))"

definition march_length :: "int \<Rightarrow> int" where
  "march_length y = (if leap_year (y + 1) then 366 else 365)"

definition month_day :: "int \<Rightarrow> int \<times> int" where
  "month_day doy = snd (march_date 0 doy)"

lemma march_date_month_day: "march_date y doy = (y + (if fst (month_day doy) \<le> 2 then 1 else 0), month_day doy)"
  by (simp add: march_date_def month_day_def Let_def)

definition plain_next :: "int \<times> int \<Rightarrow> int \<times> int" where
  "plain_next = (\<lambda>(m, d). if d < (if m = 2 then 28 else if m \<in> {4, 6, 9, 11} then 30 else 31) then (m, d + 1) else if m < 12 then (m + 1, 1) else (1, 1))"

lemma month_days:
  "list_all (\<lambda>doy. month_day (doy + 1) = plain_next (month_day doy) \<and> 1 \<le> fst (month_day doy) \<and> fst (month_day doy) \<le> 12
       \<and> (fst (month_day doy) = 2 \<longrightarrow> snd (month_day doy) < 28)) [0 .. 363]
   \<and> month_day 0 = (3, 1) \<and> month_day 364 = (2, 28) \<and> month_day 365 = (2, 29)"
  by code_simp

lemma march_step:
  assumes "0 \<le> doy" "doy + 1 < march_length y"
  shows "march_date y (doy + 1) = next_day (march_date y doy)"
proof (cases "doy = 364")
  case True
  then have "leap_year (y + 1)" using assms(2) by (simp add: march_length_def split: if_splits)
  then show ?thesis using month_days True by (simp add: march_date_month_day next_day_def month_length_def)
next
  case False
  then have "doy \<in> set [0 .. 363]" using assms by (simp add: march_length_def split: if_splits)
  then have step: "month_day (doy + 1) = plain_next (month_day doy)" and range: "1 \<le> fst (month_day doy)" "fst (month_day doy) \<le> 12"
    "fst (month_day doy) = 2 \<Longrightarrow> snd (month_day doy) < 28"
    using month_days by (auto simp: list_all_iff)
  obtain m d where md: "month_day doy = (m, d)" by fastforce
  show ?thesis
    using step range md by (auto simp: march_date_month_day plain_next_def next_day_def month_length_def split: if_splits)
qed

lemma march_turn: "march_date (y + 1) 0 = next_day (march_date y (march_length y - 1))"
  using month_days by (simp add: march_date_month_day next_day_def month_length_def march_length_def)

section \<open>Days and years\<close>

definition days_before :: "int \<Rightarrow> int" where
  "days_before y = 365 * y + y div 4 - y div 100 + y div 400"

lemma div_is: "b * n \<le> a \<Longrightarrow> a < b * n + b \<Longrightarrow> a div b = n" for a b n :: int
  by (intro int_div_pos_eq [of a b n "a - b * n"]) auto

lemma next_div:
  fixes y n :: int
  assumes "0 < n"
  shows "(y + 1) div n = y div n + (if n dvd y + 1 then 1 else 0)"
proof -
  define a where "a = y div n"
  define r where "r = y mod n"
  have y: "y = n * a + r" "0 \<le> r" "r < n" using assms by (simp_all add: a_def r_def)
  show ?thesis
  proof (cases "r + 1 = n")
    case True
    then have "y + 1 = n * (a + 1)" using y(1) by (simp add: algebra_simps)
    then show ?thesis using assms by (simp add: a_def)
  next
    case False
    have "\<not> n dvd y + 1"
    proof
      assume "n dvd y + 1"
      moreover have "y + 1 = n * a + (r + 1)" using y(1) by simp
      ultimately have "n dvd r + 1" by (simp add: dvd_add_right_iff)
      then show False using False y(2,3) zdvd_not_zless [of "r + 1" n] by simp
    qed
    moreover have "(y + 1) div n = a" using False y by (intro div_is) auto
    ultimately show ?thesis by (simp add: a_def)
  qed
qed

lemma days_before_next: "days_before (y + 1) = days_before y + march_length y"
proof -
  have dvd: "100 dvd x \<Longrightarrow> 4 dvd x" "400 dvd x \<Longrightarrow> 100 dvd x" for x :: int
    by (erule dvd_trans [rotated], simp)+
  define a b c where "a = (4 dvd y + 1)" and "b = (100 dvd y + 1)" and "c = (400 dvd y + 1)"
  have below: "b \<Longrightarrow> a" "c \<Longrightarrow> b" using dvd unfolding a_def b_def c_def by blast+
  have divs: "(y + 1) div 4 = y div 4 + (if a then 1 else 0)" "(y + 1) div 100 = y div 100 + (if b then 1 else 0)"
    "(y + 1) div 400 = y div 400 + (if c then 1 else 0)"
    unfolding a_def b_def c_def by (rule next_div, simp)+
  have year: "march_length y = (if a \<and> (\<not> b \<or> c) then 366 else 365)"
    unfolding march_length_def leap_year_def a_def b_def c_def by (rule refl)
  show ?thesis
    unfolding days_before_def divs year using below by (cases a; cases b; cases c) simp_all
qed

text \<open>The year of the era and the day of the year, read off the day of the era.\<close>

lemma year_of_era:
  fixes doe :: int
  assumes y: "y = 100 * c + 4 * q + k" "0 \<le> c" "c \<le> 3" "0 \<le> q" "q \<le> 24" "0 \<le> k" "k \<le> 3"
    and doy: "0 \<le> doy" "doy \<le> 364 \<or> doy = 365 \<and> k = 3 \<and> (q \<noteq> 24 \<or> c = 3)"
    and doe: "doe = 36524 * c + 1461 * q + 365 * k + doy"
  shows "(doe - doe div 1460 + doe div 36524 - doe div 146096) div 365 = y" "doe - (365 * y + y div 4 - y div 100) = doy"
proof -
  have net: "doe div 36524 - doe div 146096 = c"
  proof (cases "doe = 146096")
    case True
    then have "c = 3" using assms by auto
    then show ?thesis using True by simp
  next
    case False
    then have small: "doe < 146096" "36524 * c \<le> doe" "doe < 36524 * c + 36524" using assms by auto
    then have "doe div 36524 = c" by (intro div_is) auto
    moreover have "doe div 146096 = 0" using small y(2) by simp
    ultimately show ?thesis by simp
  qed
  define late where "late = (if 24 * c + q + 365 * k + doy < 1460 then 0 else 1 :: int)"
  have "doe div 1460 = 25 * c + q + late" using assms by (intro div_is) (auto simp: late_def)
  then have "doe - doe div 1460 + doe div 36524 - doe div 146096 = 365 * y + (doy - late)" using net y(1) doe by simp
  moreover have "0 \<le> doy - late" "doy - late < 365" using assms by (auto simp: late_def)
  ultimately show "(doe - doe div 1460 + doe div 36524 - doe div 146096) div 365 = y" by (intro div_is) auto
  have "y div 4 = 25 * c + q" "y div 100 = c" using y by (auto intro!: div_is)
  then show "doe - (365 * y + y div 4 - y div 100) = doy" using y(1) doe by simp
qed

lemma civil_march:
  assumes "0 \<le> doy" "doy < march_length y"
  shows "civil_from_days (days_before y + doy - 719468) = march_date y doy"
proof -
  define era where "era = y div 400"
  define yoe where "yoe = y mod 400"
  define c where "c = yoe div 100"
  define q where "q = yoe mod 100 div 4"
  define k where "k = yoe mod 100 mod 4"
  have y: "y = 400 * era + yoe" "0 \<le> yoe" "yoe < 400" by (simp_all add: era_def yoe_def)
  have parts: "yoe = 100 * c + 4 * q + k" "0 \<le> c" "c \<le> 3" "0 \<le> q" "q \<le> 24" "0 \<le> k" "k \<le> 3"
  proof -
    have "yoe = 100 * c + yoe mod 100" "yoe mod 100 = 4 * q + k" by (simp_all add: c_def q_def k_def)
    then show "yoe = 100 * c + 4 * q + k" by simp
    show "0 \<le> c" "0 \<le> q" "0 \<le> k" using y(2) by (simp_all add: c_def q_def k_def)
    have "yoe mod 100 \<le> 99" by simp
    then show "c \<le> 3" "q \<le> 24" using y(3) by (simp_all add: c_def q_def)
    show "k \<le> 3" by (simp add: k_def)
  qed
  have leap: "leap_year (y + 1) \<Longrightarrow> k = 3 \<and> (q \<noteq> 24 \<or> c = 3)"
  proof -
    assume l: "leap_year (y + 1)"
    have forms: "y + 1 = 4 * (100 * era + 25 * c + q) + (k + 1)" using y(1) parts(1) by simp
    have "4 dvd k + 1" using l unfolding leap_year_def forms by (simp add: dvd_add_right_iff)
    then have k: "k = 3" using parts(6,7) by presburger
    moreover have "c = 3" if "q = 24"
    proof -
      have "y + 1 = 100 * (4 * era + c + 1)" using y(1) parts(1) k that by simp
      then have "100 dvd y + 1" by simp
      then have "400 dvd y + 1" using l by (simp add: leap_year_def)
      moreover have "y + 1 = 400 * era + 100 * (c + 1)" using y(1) parts(1) k that by simp
      ultimately have "400 dvd 100 * (c + 1)" by (simp add: dvd_add_right_iff)
      then obtain u where "100 * (c + 1) = 400 * u" by (auto elim: dvdE)
      then have "c + 1 = 4 * u" by simp
      then show "c = 3" using parts(2,3) by presburger
    qed
    ultimately show ?thesis by blast
  qed
  define doe where "doe = 36524 * c + 1461 * q + 365 * k + doy"
  have short: "doy \<le> 364 \<or> doy = 365 \<and> k = 3 \<and> (q \<noteq> 24 \<or> c = 3)"
    using assms(2) leap by (auto simp: march_length_def split: if_splits)
  have "y div 4 = 100 * era + 25 * c + q" "y div 100 = 4 * era + c" "y div 400 = era"
    using y parts by (auto intro!: div_is)
  then have z: "days_before y + doy = 146097 * era + doe"
    using y(1) parts(1) by (simp add: days_before_def doe_def)
  have range: "0 \<le> doe" "doe < 146097" using parts short assms(1) by (auto simp: doe_def)
  have era_of: "(days_before y + doy) div 146097 = era" "(days_before y + doy) mod 146097 = doe"
    using range unfolding z by (auto simp: div_is)
  have "yoe + era * 400 = y" using y(1) by simp
  note forms = diff_add_cancel era_of year_of_era [OF parts assms(1) short doe_def] this
  show ?thesis
    unfolding civil_from_days_def march_date_def Let_def forms by (rule refl)
qed

text \<open>
  The date of a day is what the calendar gives when it is walked day by day from 1 January 1970, leap
  years and the turns of centuries included.
\<close>

theorem civil_from_days_walks: "civil_from_days (int n) = (next_day ^^ n) (1970, 1, 1)"
proof -
  have "\<exists>y doy. int n + 719468 = days_before y + doy \<and> 0 \<le> doy \<and> doy < march_length y \<and> march_date y doy = (next_day ^^ n) (1970, 1, 1)"
  proof (induction n)
    case 0
    have "int 0 + 719468 = days_before 1969 + 306" "306 < march_length 1969" "march_date 1969 306 = (1970, 1, 1)" by code_simp+
    then show ?case by (metis funpow_0 zero_le_numeral)
  next
    case (Suc n)
    then obtain y doy where at: "int n + 719468 = days_before y + doy" "0 \<le> doy" "doy < march_length y"
      "march_date y doy = (next_day ^^ n) (1970, 1, 1)" by blast
    show ?case
    proof (cases "doy + 1 < march_length y")
      case True
      then show ?thesis using at march_step [OF at(2) True] by (intro exI [of _ y] exI [of _ "doy + 1"]) simp
    next
      case False
      then have doy: "doy = march_length y - 1" using at(3) by simp
      have "0 < march_length (y + 1)" by (simp add: march_length_def)
      then show ?thesis
        using at march_turn [of y] days_before_next [of y] unfolding doy by (intro exI [of _ "y + 1"] exI [of _ 0]) simp
    qed
  qed
  then obtain y doy where at: "int n + 719468 = days_before y + doy" "0 \<le> doy" "doy < march_length y"
    "march_date y doy = (next_day ^^ n) (1970, 1, 1)" by blast
  then have "int n = days_before y + doy - 719468" by simp
  then show ?thesis using civil_march [OF at(2,3)] at(4) by simp
qed

end
