(* ===== verification/Broker_Watch.thy ===== *)
theory Broker_Watch
  imports Broker_Client
begin

text \<open>
  What wants the operator's attention, from \<^verbatim>\<open>services/acme_broker/concern.rs\<close> and \<^verbatim>\<open>leaf_due.rs\<close>: brokers
  about to expire, silent or paused, and leaves their clients should have renewed.
\<close>

section \<open>Brokers\<close>

definition concern_expiry_days :: int where "concern_expiry_days = 30"
definition silent_after_days :: int where "silent_after_days = 35"

datatype concern = Expiring int | Silent int | Undelivered_Concern | Paused_Concern

fun display_concern :: "concern \<Rightarrow> string" where
  "display_concern (Expiring days) =
     (if days < 0 then ''expired '' @ int_to_string (- days) @ '' days ago'' else ''expires in '' @ int_to_string days @ '' days'')"
| "display_concern (Silent days) = ''not heard from in '' @ int_to_string days @ '' days''"
| "display_concern Undelivered_Concern = ''signed, not delivered''"
| "display_concern Paused_Concern = ''issuance paused''"

definition days_since :: "chrono \<Rightarrow> int \<Rightarrow> string option \<Rightarrow> int option" where
  "days_since lib now stored =
     Option.bind stored (\<lambda>s. map_option (\<lambda>at. num_days (now - at)) (res_ok (parse_datetime lib s Openssl)))"

definition concerns :: "chrono \<Rightarrow> broker \<Rightarrow> int \<Rightarrow> concern list" where
  "concerns lib b now =
     (if br_state b \<noteq> Active \<or> br_url b = None then []
      else
        (case days_since lib now (br_expiry_date b) of
           Some d \<Rightarrow> if - d \<le> concern_expiry_days then [Expiring (- d)] else []
         | None \<Rightarrow> [])
        @ (case days_since lib now (br_last_contact b) of
             None \<Rightarrow> [Undelivered_Concern]
           | Some d \<Rightarrow> if d > silent_after_days then [Silent d] else [])
        @ (if br_issuer_state b = Some Paused then [Paused_Concern] else []))"

section \<open>Leaves\<close>

definition forgotten_after_days :: int where "forgotten_after_days = 14"

record leaf_due =
  ld_broker_id :: int
  ld_serial :: string
  ld_name :: string
  ld_days :: int

record dated_leaf =
  dl_cert :: broker_cert
  dl_names :: "string set"
  dl_not_before :: int
  dl_not_after :: int

definition dated_leaf_of :: "chrono \<Rightarrow> broker_cert \<Rightarrow> dated_leaf option" where
  "dated_leaf_of lib c =
     (case (res_ok (parse_datetime lib (bc_not_before c) Openssl), res_ok (parse_datetime lib (bc_not_after c) Openssl)) of
        (Some b, Some a) \<Rightarrow>
          Some \<lparr> dl_cert = c, dl_names = to_ascii_lowercase ` set (bc_sans c), dl_not_before = b, dl_not_after = a \<rparr>
      | _ \<Rightarrow> None)"

text \<open>
  \<^verbatim>\<open>TimeDelta / 3\<close>: the seconds divided towards zero, their remainder and the nanoseconds apart. The
  seconds are rounded down, the nanoseconds never negative.
\<close>

definition towards_zero :: "int \<Rightarrow> int \<Rightarrow> int" where
  "towards_zero a n = (if 0 \<le> a then a div n else - ((- a) div n))"

definition delta_div :: "int \<Rightarrow> int \<Rightarrow> int" where
  "delta_div d n =
     (let secs = d div second_ns; q = towards_zero secs n; carry = secs - q * n
      in q * second_ns + (d mod second_ns) div n + towards_zero (carry * second_ns) n)"

definition leaf_is_due :: "int \<Rightarrow> dated_leaf \<Rightarrow> bool" where
  "leaf_is_due now l \<longleftrightarrow>
     dl_not_before l + delta_div ((dl_not_after l - dl_not_before l) * 2) 3 \<le> now
     \<and> now - dl_not_after l \<le> forgotten_after_days * day_ns"

definition succeeds :: "dated_leaf \<Rightarrow> dated_leaf \<Rightarrow> bool" where
  "succeeds l earlier \<longleftrightarrow>
     bc_broker_id (dl_cert l) = bc_broker_id (dl_cert earlier) \<and> dl_names l = dl_names earlier
     \<and> dl_not_before l > dl_not_before earlier"

definition leaves_due :: "chrono \<Rightarrow> int list \<Rightarrow> broker_cert list \<Rightarrow> int \<Rightarrow> leaf_due list" where
  "leaves_due lib ids certs now =
     (let leaves = List.map_filter (dated_leaf_of lib)
            (filter (\<lambda>c. bc_revoked_at c = None \<and> bc_broker_id c \<in> set ids) certs);
          due = map (\<lambda>l. \<lparr> ld_broker_id = bc_broker_id (dl_cert l), ld_serial = bc_serial (dl_cert l),
                  ld_name = (case bc_common_name (dl_cert l) of Some n \<Rightarrow> n
                     | None \<Rightarrow> (case bc_sans (dl_cert l) of n # _ \<Rightarrow> n | [] \<Rightarrow> [])),
                  ld_days = num_days (dl_not_after l - now) \<rparr>)
                (filter (\<lambda>l. leaf_is_due now l \<and> \<not> list_ex (\<lambda>later. succeeds later l) leaves) leaves)
      in sort_key ld_days due)"

section \<open>Properties\<close>

lemma towards_zero_exact: "0 < n \<Longrightarrow> towards_zero (a * n) n = a"
  by (simp add: towards_zero_def flip: mult_minus_left)

text \<open>Of whole seconds the third is exact to the nanosecond, rounded towards zero.\<close>

lemma delta_div_whole:
  assumes "0 < n" "0 \<le> s"
  shows "delta_div (s * second_ns) n = s * second_ns div n"
proof -
  define q r where "q = s div n" and "r = s mod n"
  have s: "s = q * n + r" "0 \<le> r" by (simp_all add: q_def r_def assms)
  have "s * second_ns = q * second_ns * n + r * second_ns" by (simp add: s(1) algebra_simps)
  then have "s * second_ns div n = q * second_ns + r * second_ns div n"
    using assms(1) by (metis div_mult_self3 less_irrefl)
  moreover have "towards_zero s n = q" "s - q * n = r" "towards_zero (r * second_ns) n = r * second_ns div n"
    using assms s(2) by (simp_all add: towards_zero_def q_def r_def second_ns_def minus_div_mult_eq_mod)
  moreover have "s * second_ns div second_ns = s" "s * second_ns mod second_ns = 0" by (simp_all add: second_ns_def)
  ultimately show ?thesis by (simp only: delta_div_def Let_def) simp
qed

text \<open>A leaf is due from two thirds of its life on, to the nanosecond, and for a fortnight after its end.\<close>

lemma leaf_is_due_iff:
  assumes "dl_not_before l = b * second_ns" "dl_not_after l = a * second_ns" "b \<le> a"
  shows "leaf_is_due now l \<longleftrightarrow> 2 * (dl_not_after l - dl_not_before l) < 3 * (now - dl_not_before l + 1)
    \<and> now \<le> dl_not_after l + 14 * day_ns"
proof -
  have life: "(dl_not_after l - dl_not_before l) * 2 = 2 * (a - b) * second_ns" using assms by (simp add: algebra_simps)
  have "delta_div ((dl_not_after l - dl_not_before l) * 2) 3 = 2 * (a - b) * second_ns div 3"
    unfolding life using assms(3) by (intro delta_div_whole) simp_all
  then have "delta_div ((dl_not_after l - dl_not_before l) * 2) 3 = 2 * (dl_not_after l - dl_not_before l) div 3"
    using life by (simp add: mult.commute)
  moreover have "b' + d div 3 \<le> now \<longleftrightarrow> d < 3 * (now - b' + 1)" for b' d :: int by presburger
  ultimately show ?thesis by (auto simp: leaf_is_due_def forgotten_after_days_def)
qed

end
