(* ===== verification/Command_Queue.thy ===== *)
theory Command_Queue
  imports Op_Vault
begin

text \<open>
  The queue of vault writes, from \<^verbatim>\<open>crates/opca-core/src/services/command_queue.rs\<close>: commands are
  collected in memory, redundant document writes are dropped, and a flush runs the rest against the
  vault in order, reporting one result a command.
\<close>

datatype queue_op = StoreItem | StoreDocument | RenameItem | DeleteItem

record queue_payload =
  action :: string
  attributes :: "string list"
  filename :: string
  content :: string
  dst_title :: string
  archive :: bool
  category :: string

definition queue_payload_default :: queue_payload where
  "queue_payload_default = \<lparr> action = ''auto'', attributes = [], filename = [], content = [], dst_title = [],
     archive = True, category = [] \<rparr>"

record queued_command =
  operation :: queue_op
  target_type :: string
  target_id :: string
  payload :: queue_payload

record flush_result =
  fr_operation :: queue_op
  fr_target_id :: string
  fr_success :: bool
  fr_error :: "string option"

type_synonym command_queue = "queued_command list"

definition queue_new :: command_queue where "queue_new = []"

definition pending_count :: "command_queue \<Rightarrow> nat" where "pending_count q = length q"

definition enqueue :: "queued_command \<Rightarrow> command_queue \<Rightarrow> command_queue" where
  "enqueue command q = q @ [command]"

definition enqueue_store_item ::
  "string \<Rightarrow> string list \<Rightarrow> string \<Rightarrow> string \<Rightarrow> string \<Rightarrow> command_queue \<Rightarrow> command_queue" where
  "enqueue_store_item target attrs ttype act categ =
     enqueue \<lparr> operation = StoreItem, target_type = ttype, target_id = target,
       payload = queue_payload_default\<lparr> action := act, attributes := attrs, category := categ \<rparr> \<rparr>"

definition enqueue_store_document ::
  "string \<Rightarrow> string \<Rightarrow> string \<Rightarrow> string \<Rightarrow> string \<Rightarrow> command_queue \<Rightarrow> command_queue" where
  "enqueue_store_document target file text ttype act =
     enqueue \<lparr> operation = StoreDocument, target_type = ttype, target_id = target,
       payload = queue_payload_default\<lparr> action := act, filename := file, content := text \<rparr> \<rparr>"

definition enqueue_rename_item :: "string \<Rightarrow> string \<Rightarrow> command_queue \<Rightarrow> command_queue" where
  "enqueue_rename_item src dst =
     enqueue \<lparr> operation = RenameItem, target_type = ''certbundle'', target_id = src,
       payload = queue_payload_default\<lparr> dst_title := dst \<rparr> \<rparr>"

definition enqueue_delete_item :: "string \<Rightarrow> bool \<Rightarrow> command_queue \<Rightarrow> command_queue" where
  "enqueue_delete_item target arch =
     enqueue \<lparr> operation = DeleteItem, target_type = ''certbundle'', target_id = target,
       payload = queue_payload_default\<lparr> archive := arch \<rparr> \<rparr>"

definition note_doc :: "(string \<rightharpoonup> nat) \<Rightarrow> nat \<times> queued_command \<Rightarrow> (string \<rightharpoonup> nat)" where
  "note_doc m = (\<lambda>(i, cmd). if operation cmd = StoreDocument then m(target_id cmd \<mapsto> i) else m)"

definition last_store_doc :: "(nat \<times> queued_command) list \<Rightarrow> (string \<rightharpoonup> nat)" where
  "last_store_doc = foldl note_doc Map.empty"

definition collapse_queue :: "command_queue \<Rightarrow> queued_command list" where
  "collapse_queue q =
     (let last = last_store_doc (enumerate 0 q)
      in map snd (filter (\<lambda>(i, cmd). if operation cmd = StoreDocument then last (target_id cmd) = Some i else True)
           (enumerate 0 q)))"

datatype store_action = Auto | Create | Edit

definition parse_store_action :: "string \<Rightarrow> store_action" where
  "parse_store_action s = (if s = ''create'' then Create else if s = ''edit'' then Edit else Auto)"

definition execute :: "'v vault_ops \<Rightarrow> queued_command \<Rightarrow> ('v, unit) comp" where
  "execute ops cmd =
     (let title = ItemTitle (target_id cmd); p = payload cmd; unit = (\<lambda>m. vbind m (\<lambda>_. vret ()))
      in case operation cmd of
           StoreItem \<Rightarrow>
             vbind (vlift (rmap_all (\<lambda>token. op_result (v_parse_assignment ops token)) (attributes p))) (\<lambda>flds.
             vbind (case parse_store_action (action p) of
                      Create \<Rightarrow> vret False | Edit \<Rightarrow> vret True | Auto \<Rightarrow> call (v_item_exists ops title)) (\<lambda>edit.
               if edit then call (v_edit_item ops title flds)
               else unit (call (v_create_item ops (target_id cmd) (category p) flds))))
         | StoreDocument \<Rightarrow>
             (case parse_store_action (action p) of
                Create \<Rightarrow> call (v_create_document ops (target_id cmd) (filename p) (content p))
              | Edit \<Rightarrow> call (v_edit_document ops title (filename p) (content p))
              | Auto \<Rightarrow> put_document ops (target_id cmd) (filename p) (content p))
         | RenameItem \<Rightarrow> call (v_rename_item ops title (dst_title p))
         | DeleteItem \<Rightarrow>
             (if archive p then call (v_delete_item ops title) else call (v_delete_item_permanently ops title)))"

definition flush_result_of :: "queued_command \<Rightarrow> unit res \<Rightarrow> flush_result" where
  "flush_result_of cmd r =
     \<lparr> fr_operation = operation cmd, fr_target_id = target_id cmd, fr_success = (r = Ok ()),
       fr_error = (case r of Err e \<Rightarrow> Some (display_error e) | _ \<Rightarrow> None) \<rparr>"

fun flush_commands :: "'v vault_ops \<Rightarrow> queued_command list \<Rightarrow> 'v \<Rightarrow> flush_result list \<times> 'v" where
  "flush_commands ops [] v = ([], v)"
| "flush_commands ops (cmd # cmds) v =
     (let (r, v1) = execute ops cmd v; (rs, v2) = flush_commands ops cmds v1
      in (flush_result_of cmd r # rs, v2))"

definition flush :: "'v vault_ops \<Rightarrow> command_queue \<Rightarrow> 'v \<Rightarrow> (flush_result list \<times> command_queue) \<times> 'v" where
  "flush ops q v =
     (if q = [] then (([], q), v)
      else let (results, v') = flush_commands ops (collapse_queue q) v in ((results, []), v'))"

definition queue_clear :: "command_queue \<Rightarrow> command_queue" where "queue_clear q = []"

section \<open>The collapsed queue\<close>

definition is_doc :: "queued_command \<Rightarrow> bool" where
  "is_doc cmd \<longleftrightarrow> operation cmd = StoreDocument"

definition doc_of :: "string \<Rightarrow> queued_command \<Rightarrow> bool" where
  "doc_of t cmd \<longleftrightarrow> is_doc cmd \<and> target_id cmd = t"

text \<open>The reference: a document write is dropped when one for the same document follows.\<close>

fun keep_last :: "queued_command list \<Rightarrow> queued_command list" where
  "keep_last [] = []"
| "keep_last (c # cs) =
     (if is_doc c \<and> list_ex (doc_of (target_id c)) cs then keep_last cs else c # keep_last cs)"

lemma note_doc_apply:
  "note_doc m (i, c) t = (if doc_of t c then Some i else m t)"
  by (simp add: note_doc_def doc_of_def is_doc_def)

lemma last_store_doc_none: "\<not> list_ex (doc_of t) cs \<Longrightarrow> foldl note_doc m (enumerate n cs) t = m t"
  by (induction cs arbitrary: m n) (auto simp: note_doc_apply)

lemma last_store_doc_some: "list_ex (doc_of t) cs \<Longrightarrow> \<exists>i \<ge> n. foldl note_doc m (enumerate n cs) t = Some i"
proof (induction cs arbitrary: m n)
  case (Cons c cs)
  show ?case
  proof (cases "list_ex (doc_of t) cs")
    case True
    from Cons.IH[OF True, of "Suc n" "note_doc m (n, c)"] show ?thesis by (auto intro: Suc_leD)
  next
    case False
    then show ?thesis using Cons.prems by (auto simp: last_store_doc_none note_doc_apply)
  qed
qed simp

lemma collapse_from:
  "map snd (filter (\<lambda>(i, cmd). operation cmd = StoreDocument
       \<longrightarrow> foldl note_doc m (enumerate n q) (target_id cmd) = Some i) (enumerate n q)) = keep_last q"
proof (induction q arbitrary: m n)
  case (Cons c cs)
  let ?m = "note_doc m (n, c)" and ?t = "target_id c"
  have last: "foldl note_doc ?m (enumerate (Suc n) cs) ?t = Some n \<longleftrightarrow> \<not> list_ex (doc_of ?t) cs" if "is_doc c"
  proof (cases "list_ex (doc_of ?t) cs")
    case True
    from last_store_doc_some[OF True, of "Suc n" ?m] show ?thesis using True by auto
  next
    case False
    have "doc_of ?t c" using that by (simp add: doc_of_def)
    then show ?thesis using False by (simp add: last_store_doc_none note_doc_apply)
  qed
  show ?case using last Cons.IH[where n = "Suc n" and m = ?m] by (auto simp: is_doc_def)
qed simp

text \<open>
  C40: the index-based collapse of the code computes the reference: of several writes of one document
  exactly the last is kept, every other command is kept, all in their order.
\<close>

theorem collapse_queue_keeps_last: "collapse_queue q = keep_last q"
  using collapse_from[of Map.empty 0 q] by (simp add: collapse_queue_def last_store_doc_def Let_def)

lemma collapse_eq: "collapse_queue q = keep_last q"
  using collapse_from[of Map.empty 0 q] by (simp add: collapse_queue_def last_store_doc_def Let_def)

lemma keep_last_subset: "set (keep_last cs) \<subseteq> set cs"
  by (induction cs) auto

lemma keep_last_other: "filter (\<lambda>c. \<not> is_doc c) (keep_last cs) = filter (\<lambda>c. \<not> is_doc c) cs"
  by (induction cs) auto

lemma keep_last_doc_of [simp]: "list_ex (doc_of t) (keep_last cs) = list_ex (doc_of t) cs"
proof (induction cs)
  case (Cons c cs)
  show ?case
  proof (cases "is_doc c \<and> list_ex (doc_of (target_id c)) cs")
    case True
    then have "doc_of t c \<Longrightarrow> list_ex (doc_of t) cs" by (simp add: doc_of_def)
    then show ?thesis using True Cons by auto
  qed (use Cons in auto)
qed simp

lemma keep_last_docs:
  "filter (doc_of t) (keep_last cs) = (if list_ex (doc_of t) cs then [last (filter (doc_of t) cs)] else [])"
proof (induction cs)
  case (Cons c cs)
  have e: "filter (doc_of t) cs = [] \<longleftrightarrow> \<not> list_ex (doc_of t) cs" by (simp add: filter_empty_conv list_ex_iff)
  show ?case
  proof (cases "doc_of t c")
    case True
    then have "is_doc c" "target_id c = t" by (simp_all add: doc_of_def)
    then show ?thesis using Cons e True by simp
  qed (use Cons in simp)
qed simp

lemma keep_last_idem: "keep_last (keep_last cs) = keep_last cs"
  by (induction cs) simp_all

section \<open>Flushing\<close>

text \<open>What a command does to the vault, and a list of them.\<close>

definition effect :: "'v vault_ops \<Rightarrow> queued_command \<Rightarrow> 'v \<Rightarrow> 'v" where
  "effect ops c v = snd (execute ops c v)"

definition effects :: "'v vault_ops \<Rightarrow> queued_command list \<Rightarrow> 'v \<Rightarrow> 'v" where
  "effects ops cs v = foldl (\<lambda>v c. effect ops c v) v cs"

lemma effects_simps [simp]:
  "effects ops [] v = v" "effects ops (c # cs) v = effects ops cs (effect ops c v)"
  by (simp_all add: effects_def)

lemma flush_commands_Cons:
  "flush_commands ops (c # cs) v =
     (flush_result_of c (fst (execute ops c v)) # fst (flush_commands ops cs (effect ops c v)),
      snd (flush_commands ops cs (effect ops c v)))"
  by (simp add: effect_def Let_def split: prod.splits)

lemma flush_commands_effects: "snd (flush_commands ops cs v) = effects ops cs v"
  by (induction cs arbitrary: v) (simp_all add: flush_commands_Cons del: flush_commands.simps(2))

text \<open>The results, one a command, each what the command returns in the state it is run in.\<close>

fun results_of :: "'v vault_ops \<Rightarrow> queued_command list \<Rightarrow> 'v \<Rightarrow> unit res list" where
  "results_of ops [] v = []"
| "results_of ops (c # cs) v = fst (execute ops c v) # results_of ops cs (effect ops c v)"

lemma flush_commands_results: "fst (flush_commands ops cs v) = map2 flush_result_of cs (results_of ops cs v)"
  by (induction cs arbitrary: v) (simp_all add: flush_commands_Cons del: flush_commands.simps(2))

lemma effect_absorbed:
  assumes "list_ex (doc_of (target_id c)) cs" "is_doc c"
    and "\<And>d. d \<in> set cs \<Longrightarrow> doc_of (target_id c) d \<Longrightarrow> \<forall>v. effect ops d (effect ops c v) = effect ops d v"
    and "\<And>d. d \<in> set cs \<Longrightarrow> target_id d \<noteq> target_id c \<Longrightarrow> \<forall>v. effect ops d (effect ops c v) = effect ops c (effect ops d v)"
    and "\<And>d. d \<in> set cs \<Longrightarrow> target_id d = target_id c \<Longrightarrow> is_doc d"
  shows "effects ops cs (effect ops c v) = effects ops cs v"
  using assms
proof (induction cs arbitrary: v)
  case (Cons d cs)
  show ?case
  proof (cases "target_id d = target_id c")
    case True
    then show ?thesis using Cons.prems by (simp add: doc_of_def)
  next
    case False
    then have "\<not> doc_of (target_id c) d" by (simp add: doc_of_def)
    then have "list_ex (doc_of (target_id c)) cs" using Cons.prems(1) by simp
    then show ?thesis using False Cons.prems Cons.IH[of "effect ops d v"] by simp
  qed
qed simp

text \<open>
  The laws of the vault under which the collapse is harmless, for the commands of one queue: a later
  write of a document makes an earlier one invisible, and a document write commutes with what is
  done to other titles; and the titles written as documents are not renamed, deleted or stored as
  items in the same queue.
\<close>

definition harmless :: "'v vault_ops \<Rightarrow> queued_command \<Rightarrow> queued_command \<Rightarrow> bool" where
  "harmless ops c d \<longleftrightarrow>
     (if target_id d = target_id c then is_doc d \<and> (\<forall>v. effect ops d (effect ops c v) = effect ops d v)
      else (\<forall>v. effect ops d (effect ops c v) = effect ops c (effect ops d v)))"

definition collapsible :: "'v vault_ops \<Rightarrow> queued_command list \<Rightarrow> bool" where
  "collapsible ops q \<longleftrightarrow> (\<forall>c \<in> set q. is_doc c \<longrightarrow> (\<forall>d \<in> set q. harmless ops c d))"

lemma keep_last_effects: "collapsible ops q \<Longrightarrow> effects ops (keep_last q) v = effects ops q v"
proof (induction q arbitrary: v)
  case (Cons c cs)
  have IH: "effects ops (keep_last cs) w = effects ops cs w" for w
    using Cons by (intro Cons.IH) (auto simp: collapsible_def)
  have "effects ops cs (effect ops c v) = effects ops cs v" if "is_doc c" "list_ex (doc_of (target_id c)) cs"
  proof (rule effect_absorbed[OF that(2,1)])
    fix d assume "d \<in> set cs"
    then have law: "harmless ops c d" using Cons.prems that(1) by (simp add: collapsible_def)
    show "doc_of (target_id c) d \<Longrightarrow> \<forall>v. effect ops d (effect ops c v) = effect ops d v"
      using law by (simp add: doc_of_def harmless_def)
    show "target_id d \<noteq> target_id c \<Longrightarrow> \<forall>v. effect ops d (effect ops c v) = effect ops c (effect ops d v)"
      using law by (simp add: harmless_def)
    show "target_id d = target_id c \<Longrightarrow> is_doc d" using law by (simp add: harmless_def)
  qed
  then show ?case using IH by simp
qed simp

text \<open>
  a flush runs the last write of every document and all the other commands, in their order, empties
  the queue, and reports one result a command it ran.
\<close>

theorem flush_runs_kept:
  "flush ops q v =
     ((map2 flush_result_of (keep_last q) (results_of ops (keep_last q) v), []), effects ops (keep_last q) v)"
  by (simp add: flush_def collapse_eq flush_commands_effects flush_commands_results split: prod.splits)
     (metis flush_commands_effects flush_commands_results fst_conv snd_conv)

text \<open>
  where the laws hold a flush leaves the vault as running every queued command would; a second
  flush does nothing.
\<close>

theorem flush_same_vault:
  assumes "collapsible ops q"
  shows "snd (flush ops q v) = effects ops q v \<and> flush ops (snd (fst (flush ops q v))) w = (([], []), w)"
  using keep_last_effects[OF assms, of v]
  by (simp add: flush_def collapse_eq flush_commands_effects split: prod.splits) (metis flush_commands_effects snd_conv)

text \<open>Three writes, two of them of one document, in a vault in memory.\<close>

definition example_queue :: command_queue where
  "example_queue =
     enqueue_store_document ''CRL'' ''crl.pem'' ''new'' ''crl'' ''auto''
       (enqueue_store_document ''CA_Database'' ''db.sql'' ''dump'' ''database'' ''auto''
         (enqueue_store_document ''CRL'' ''crl.pem'' ''old'' ''crl'' ''auto'' queue_new))"

lemmas example_queue_defs = example_queue_def enqueue_store_document_def enqueue_def queue_new_def queue_payload_default_def

lemma memory_document_effect:
  "is_doc c \<Longrightarrow> parse_store_action (action (payload c)) = Auto \<Longrightarrow>
     effect memory_vault c m =
       m(target_id c \<mapsto> (content (payload c), case m (target_id c) of Some x \<Rightarrow> snd x | None \<Rightarrow> []))"
  by (simp add: effect_def execute_def is_doc_def put_document_def memory_vault_def memory_change_def call_def Let_def
      split: option.splits)

theorem flush_same_vault_witness:
  "snd (flush memory_vault example_queue Map.empty) = effects memory_vault example_queue Map.empty"
proof -
  have docs: "is_doc c \<and> parse_store_action (action (payload c)) = Auto" if "c \<in> set example_queue" for c
    using that by (auto simp: example_queue_defs is_doc_def parse_store_action_def)
  have "collapsible memory_vault example_queue"
    unfolding collapsible_def harmless_def
    using docs by (auto simp: memory_document_effect fun_eq_iff)
  from flush_same_vault[OF this, of Map.empty] show ?thesis by simp
qed

end
