(* ===== verification/Spec2Isabelle.thy ===== *)
theory Spec2Isabelle
  imports Acme_Proof Acme_Nonces Backup_File Ca_Restore Openvpn Broker_Terms Broker_Calendar Broker_Watch Vault_Lock Command_Queue
begin

text \<open>
  A verification development for opCA, a private certificate authority whose state lives in a
  1Password vault. The program is the Rust workspace under \<^verbatim>\<open>src/crates\<close>: the library \<^verbatim>\<open>opca-core\<close> (the
  certificate authority, its database, the vault), the broker \<^verbatim>\<open>opca-acme-broker\<close> (an ACME server that
  issues leaf certificates under a subordinate CA), and a command line and a desktop application over
  the library.

  \<^bold>\<open>How the parts interact.\<close> The database is an SQLite image kept as a dump in the vault. An operation
  of the certificate authority takes the vault lock, reads the dump, changes rows, writes documents
  and the dump back, and publishes certificates and CRLs to a store. The database's status scan
  classifies every certificate and feeds the CRL. A subordinate CA is signed for a broker; the broker
  keeps its own database of accounts, orders, authorisations, challenges and leaf certificates.

  \<^bold>\<open>The theories.\<close>

  \<^item> \<open>Opca_Prelude\<close>: results (value, error or panic), tables as lists of rows with a key, the shared
    lemmas. \<open>Rust_Text\<close>: the string functions of Rust's standard library on byte strings.
  \<^item> \<open>Datetime\<close> (\<^verbatim>\<open>utils/datetime.rs\<close>), \<open>San\<close> (\<^verbatim>\<open>services/san.rs\<close>), \<open>Cert_Type\<close> and \<open>Cert_Bundle\<close>
    (\<^verbatim>\<open>services/cert.rs\<close>), \<open>Permitted_Domains\<close> (\<^verbatim>\<open>services/ca/subordinate.rs\<close>).
  \<^item> \<open>Db_Models\<close>, \<open>Db_Core\<close>, \<open>Db_Certs\<close>, \<open>Db_Misc\<close>, \<open>Db_Status\<close> (\<^verbatim>\<open>services/database\<close>): the records, the
    configuration and the serial counters, the certificate tables, the other tables, the status scan
    and the CRL entries.
  \<^item> \<open>Op_Vault\<close> (\<^verbatim>\<open>op.rs\<close>), \<open>Vault_Lock\<close> (\<^verbatim>\<open>vault_lock.rs\<close>), \<open>Command_Queue\<close>
    (\<^verbatim>\<open>services/command_queue.rs\<close>): the vault as a parameter with the calls made on it, the lock protocol
    of several clients as a step relation, queued vault writes.
  \<^item> \<open>Ca_Policy\<close>, \<open>Ca_State\<close>, \<open>Ca_Ops\<close>, \<open>Ca_Subordinate\<close> (\<^verbatim>\<open>services/ca.rs\<close> and \<^verbatim>\<open>services/ca/\<close>): the rules, the
    state (database in memory, world outside) and one definition an operation, each composed of the
    vault, store and database calls the code makes, in its order, with its early returns.
    \<open>Ca_Run\<close>: runs of operations. \<open>Ca_Guarantees\<close>: what holds after every run.
  \<^item> \<open>Backup_File\<close> (\<^verbatim>\<open>services/backup.rs\<close>), \<open>Local_Backup\<close> (\<^verbatim>\<open>services/local_backup.rs\<close>), \<open>Ca_Restore\<close>
    (\<^verbatim>\<open>restore_from_backup\<close> of \<^verbatim>\<open>services/ca.rs\<close>), \<open>Vault_Backup\<close> (\<^verbatim>\<open>services/vault.rs\<close>): the encrypted file
    format, copies of the database on a disk that may fail at any access, putting one of them back, and
    whole vaults written out and restored item by item. \<open>Openvpn\<close> (\<^verbatim>\<open>services/openvpn.rs\<close>): the templates.
  \<^item> \<open>Acme_Base\<close>, \<open>Acme_Store\<close>, \<open>Acme_Issue\<close>, \<open>Acme_Request\<close>, \<open>Acme_Server\<close>
    (\<^verbatim>\<open>opca-acme-broker/src/acme\<close>): the ACME server's enums, text forms and nonces, its database with one
    definition a transaction, issuing a leaf, checking a signed request, and one handler a route.
    \<open>Acme_Validate\<close> (\<^verbatim>\<open>acme/validate.rs\<close>) validates a challenge over a network whose answers may depend
    on all that was sent. \<open>Acme_Issuance\<close> and \<open>Acme_Run\<close> follow the store, \<open>Acme_Served\<close> and
    \<open>Acme_Guarantees\<close> the server over a whole life, \<open>Acme_Nonces\<close> its nonces, \<open>Acme_Proof\<close> the server with
    its validator.
  \<^item> \<open>Broker_Api\<close> (\<^verbatim>\<open>opca-acme-api\<close>), \<open>Broker_Client\<close>, \<open>Broker_Enrol\<close>, \<open>Broker_Watch\<close>
    (\<^verbatim>\<open>services/acme_broker\<close>): the messages of the enrolment API and what opCA does with a broker.
    \<open>Broker_Enrolment\<close> and \<open>Broker_Daemon\<close> (\<^verbatim>\<open>enrolment.rs\<close>, \<^verbatim>\<open>enrolled.rs\<close>, \<^verbatim>\<open>api.rs\<close>, \<^verbatim>\<open>broker.rs\<close>,
    \<^verbatim>\<open>pki.rs\<close>, \<^verbatim>\<open>acme/listener.rs\<close>): the daemon at the other end. \<open>Broker_Calendar\<close> is the arithmetic
    of its dates.
  \<^item> \<open>Broker_Guarantees\<close> is what the client promises, \<open>Broker_Promises\<close>, \<open>Broker_Crl\<close> and
    \<open>Broker_Terms\<close> what the daemon does. \<open>Broker_Sync\<close>, \<open>Broker_Pages\<close>, \<open>Broker_Mirror\<close> and
    \<open>Broker_Ends\<close> compose both ends: the client's loop over pages against the daemon's handlers.

  \<^bold>\<open>What the lemmas show.\<close> Over every run of operations, failed ones included, no certificate leaves
  the database or loses its name, expiry or revocation date, and a revoked certificate is on every
  CRL signed before it expires, each one of a batch signed ahead included. The status scan refines a
  classification of single rows. Serial numbers increase. When two clients hold the vault lock at once
  and their locks differ in creation time, the first one's lock is past its TTL by the clock of some
  client; a client running alone comes to hold it. A collapsed queue leaves the vault as the full one would.
  Names, domains, columns, endpoints and base64url text round-trip or are refused; nonces are used once, and a replayed request
  is refused.
  A backup reads back as what was put in and a changed one is refused. Every name on a certificate of
  the ACME server was validated, by an answer over the network with the challenge's own token, and
  lies within the constraints of the subordinate. A sync misses no certificate and no revocation of a
  broker that goes on issuing while its pages are fetched. A broker serves under a live enrolment only,
  and its revocation is final.

  \<^bold>\<open>Parameters.\<close> OpenSSL, the 1Password client, the stores, the clock, chrono, JSON, JOSE and HTTP are not
  under \<^verbatim>\<open>src\<close>: they are arguments of the definitions, records of functions, with what the code relies
  on as hypotheses of the lemmas that need it (a signature signs what was asked, formatted times read
  back). Every hypothesis has a witness with concrete functions.

  \<^bold>\<open>Concurrency.\<close> The lock protocol interleaves the vault calls of several clients, each with its own
  clock. A request of the ACME server or of the daemon is one step here: the code's handlers are
  asynchronous, and the transactions of two requests can interleave, which the runs of transactions
  (\<open>Acme_Run\<close>) show and the runs of requests (\<open>Acme_Served\<close>) do not. A validation in the background ends
  as a step of its own, between any two requests, and a client's loop over pages runs against a
  database that other steps change between two calls.

  \<^bold>\<open>Bounds and fuel.\<close> Recursions are structural or have a measure, and none takes fuel. The client's
  loop over pages is a \<^verbatim>\<open>partial_function\<close> with \<open>None\<close> for a loop that does not end, and
  \<open>pages_end\<close> shows that it ends whatever the broker answers. The certificate authority's counters wrap
  at 64 bits as \<^verbatim>\<open>i64\<close> does; the row ids, change numbers and CRL numbers that SQLite counts for the broker
  are unbounded, so what is said of them holds for the first \<open>2 ^ 63 - 1\<close> of each. The daemon's status route is modelled
  where counting certificates succeeds.

  \<^bold>\<open>Not modelled.\<close> The command line and desktop crates, which convert arguments and call the library;
  the storage backends and Route 53, which run other programs; the SQL text of dumps and migrations;
  the settings file; the sockets, TLS and HTTP routing around the daemon's handlers, and its backup of
  its own files.
\<close>

end
